(* ===== verification/Prelude.thy ===== *)
theory Prelude
  imports Main
begin

text \<open>
  Shared vocabulary of the development: Rust's \<open>Result\<close> as a sum (\<open>Inl\<close> the error, \<open>Inr\<close>
  the value), the combinators \<open>and_then\<close>, \<open>map_err\<close>, \<open>ok_or\<close>, \<open>transpose\<close> and the
  short-circuiting loops \<open>try_map\<close> and \<open>try_fold\<close> (a \<open>for\<close> loop whose body uses
  \<open>?\<close>), the rewrite rules that let the component proofs step through them, and the
  interfaces several components share: \<open>normal_form\<close> (a normalisation function) and
  \<open>keyed_log\<close> (an append-only table with a primary key).
\<close>

named_theorems result_intro \<open>successful results of combinators\<close>

section \<open>Results\<close>

definition and_then :: "'e + 'a \<Rightarrow> ('a \<Rightarrow> 'e + 'b) \<Rightarrow> 'e + 'b" where
  "and_then r f = (case r of Inl e \<Rightarrow> Inl e | Inr x \<Rightarrow> f x)"

definition map_err :: "('e \<Rightarrow> 'f) \<Rightarrow> 'e + 'a \<Rightarrow> 'f + 'a" where
  "map_err f r = (case r of Inl e \<Rightarrow> Inl (f e) | Inr x \<Rightarrow> Inr x)"

definition ok_or :: "'e \<Rightarrow> 'a option \<Rightarrow> 'e + 'a" where
  "ok_or e m = (case m of None \<Rightarrow> Inl e | Some x \<Rightarrow> Inr x)"

definition ensure :: "bool \<Rightarrow> 'e \<Rightarrow> 'e + unit" where
  "ensure b e = (if b then Inr () else Inl e)"

definition is_ok :: "'e + 'a \<Rightarrow> bool" where
  "is_ok r = (case r of Inl _ \<Rightarrow> False | Inr _ \<Rightarrow> True)"

fun transpose_opt :: "('e + 'a) option \<Rightarrow> 'e + 'a option" where
  "transpose_opt None = Inr None"
| "transpose_opt (Some (Inl e)) = Inl e"
| "transpose_opt (Some (Inr x)) = Inr (Some x)"

lemma and_then_simps [simp]:
  "and_then (Inl e) f = Inl e"
  "and_then (Inr x) f = f x"
  by (simp_all add: and_then_def)

lemma and_then_eq_Inr:
  "and_then r f = Inr y \<longleftrightarrow> (\<exists>x. r = Inr x \<and> f x = Inr y)"
  by (cases r) auto

lemma and_then_eq_Inl:
  "and_then r f = Inl e \<longleftrightarrow> r = Inl e \<or> (\<exists>x. r = Inr x \<and> f x = Inl e)"
  by (cases r) auto

lemma and_then_okE:
  assumes "and_then r f = Inr y"
  obtains x where "r = Inr x" "f x = Inr y"
  using assms by (auto simp: and_then_eq_Inr)

lemma map_err_simps [simp]:
  "map_err g (Inl e) = Inl (g e)"
  "map_err g (Inr x) = Inr x"
  by (simp_all add: map_err_def)

lemma map_err_eq_Inr [simp]: "map_err g r = Inr x \<longleftrightarrow> r = Inr x"
  by (cases r) auto

lemma ok_or_simps [simp]:
  "ok_or e None = Inl e"
  "ok_or e (Some x) = Inr x"
  by (simp_all add: ok_or_def)

lemma ok_or_eq_Inr [simp]: "ok_or e m = Inr x \<longleftrightarrow> m = Some x"
  by (cases m) auto

lemma ensure_simps [simp]:
  "ensure True e = Inr ()"
  "ensure False e = Inl e"
  by (simp_all add: ensure_def)

lemma ensure_eq_Inr [simp]: "ensure b e = Inr x \<longleftrightarrow> b"
  by (simp add: ensure_def)

lemma ensure_eq_Inl [simp]: "ensure b e = Inl e' \<longleftrightarrow> \<not> b \<and> e = e'"
  by (auto simp: ensure_def)

lemma is_ok_simps [simp]:
  "\<not> is_ok (Inl e)"
  "is_ok (Inr x)"
  by (simp_all add: is_ok_def)

lemma is_ok_iff: "is_ok r \<longleftrightarrow> (\<exists>x. r = Inr x)"
  by (cases r) auto

lemma transpose_opt_eq_Inr:
  "transpose_opt m = Inr y \<longleftrightarrow> (m = None \<and> y = None) \<or> (\<exists>x. m = Some (Inr x) \<and> y = Some x)"
  by (cases m rule: transpose_opt.cases) auto

text \<open>
  The error cases of a monadic chain are cut off by \<open>and_then_eq_Inr\<close>; the bundle below is
  what a proof about a successful run unfolds.
\<close>

lemmas result_ok = and_then_eq_Inr map_err_eq_Inr ok_or_eq_Inr ensure_eq_Inr

section \<open>Loops that stop at the first error\<close>

fun try_map :: "('a \<Rightarrow> 'e + 'b) \<Rightarrow> 'a list \<Rightarrow> 'e + 'b list" where
  "try_map f [] = Inr []"
| "try_map f (x # xs) = and_then (f x) (\<lambda>y. and_then (try_map f xs) (\<lambda>ys. Inr (y # ys)))"

fun try_fold :: "('s \<Rightarrow> 'a \<Rightarrow> 'e + 's) \<Rightarrow> 's \<Rightarrow> 'a list \<Rightarrow> 'e + 's" where
  "try_fold f s [] = Inr s"
| "try_fold f s (x # xs) = and_then (f s x) (\<lambda>s'. try_fold f s' xs)"

definition try_each :: "('a \<Rightarrow> 'e + unit) \<Rightarrow> 'a list \<Rightarrow> 'e + unit" where
  "try_each f xs = try_fold (\<lambda>_ x. f x) () xs"

lemma try_each_simps [simp]:
  "try_each f [] = Inr ()"
  "try_each f (x # xs) = and_then (f x) (\<lambda>_. try_each f xs)"
  by (simp_all add: try_each_def)

lemma try_each_eq_Inr: "try_each f xs = Inr r \<longleftrightarrow> (\<forall>x \<in> set xs. f x = Inr ())"
  by (induction xs) (auto simp: and_then_eq_Inr)

lemma try_map_length: "try_map f xs = Inr ys \<Longrightarrow> length ys = length xs"
  by (induction xs arbitrary: ys) (auto simp: and_then_eq_Inr)

lemma try_map_all2: "try_map f xs = Inr ys \<longleftrightarrow> list_all2 (\<lambda>x y. f x = Inr y) xs ys"
  by (induction xs arbitrary: ys) (auto simp: and_then_eq_Inr list_all2_Cons1)

lemma try_fold_append:
  "try_fold f s (xs @ ys) = and_then (try_fold f s xs) (\<lambda>s'. try_fold f s' ys)"
  by (induction xs arbitrary: s) (auto simp: and_then_def split: sum.splits)

lemma try_fold_invariant:
  assumes "try_fold f s xs = Inr t" and "P s"
    and "\<And>s x s'. x \<in> set xs \<Longrightarrow> P s \<Longrightarrow> f s x = Inr s' \<Longrightarrow> P s'"
  shows "P t"
  using assms
proof (induction xs arbitrary: s)
  case Nil
  then show ?case by simp
next
  case (Cons x xs)
  then obtain s' where s': "f s x = Inr s'" "try_fold f s' xs = Inr t"
    by (auto simp: and_then_eq_Inr)
  from Cons.prems(2) s'(1) have "P s'" by (rule Cons.prems(3) [rotated]) simp
  moreover have "\<And>s y s'. y \<in> set xs \<Longrightarrow> P s \<Longrightarrow> f s y = Inr s' \<Longrightarrow> P s'"
    using Cons.prems(3) by (meson list.set_intros(2))
  ultimately show ?case using Cons.IH [OF s'(2)] by blast
qed

section \<open>List facts\<close>

lemma distinct_map_fst_map_of:
  "distinct (map fst m) \<Longrightarrow> (k, v) \<in> set m \<Longrightarrow> map_of m k = Some v"
  by simp

lemma find_None_all: "find P xs = None \<longleftrightarrow> (\<forall>x \<in> set xs. \<not> P x)"
  by (induction xs) auto

lemma find_SomeD: "find P xs = Some x \<Longrightarrow> P x \<and> x \<in> set xs"
  by (induction xs) (auto split: if_splits)

lemma find_append: "find P (xs @ ys) = (case find P xs of Some x \<Rightarrow> Some x | None \<Rightarrow> find P ys)"
  by (induction xs) auto

lemma find_key_None: "find (\<lambda>x. key x = k) xs = None \<longleftrightarrow> k \<notin> key ` set xs"
  by (auto simp: find_None_all)

lemma find_key_snoc:
  "key v \<notin> key ` set xs \<Longrightarrow>
   find (\<lambda>x. key x = k) (xs @ [v]) = (if k = key v then Some v else find (\<lambda>x. key x = k) xs)"
  by (induction xs) auto

lemma find_map_key:
  "(\<And>x. key (f x) = key x) \<Longrightarrow> find (\<lambda>x. key x = k) (map f xs) = map_option f (find (\<lambda>x. key x = k) xs)"
  by (induction xs) auto

lemma find_distinct_key:
  "distinct (map key xs) \<Longrightarrow> x \<in> set xs \<Longrightarrow> find (\<lambda>y. key y = key x) xs = Some x"
  by (induction xs) (auto simp: image_iff)

lemma foldl_snoc_induct:
  assumes "P []" and "\<And>xs x. P xs \<Longrightarrow> P (xs @ [x])"
  shows "P xs"
  using assms by (induction xs rule: rev_induct) auto

section \<open>Normal forms\<close>

text \<open>
  Several routines of the code normalise a value and are relied on to be stable: object keys
  are sorted, marks are ordered, adjacent text nodes are merged. A client of such a routine
  needs only the two laws below.
\<close>

locale normal_form =
  fixes nf :: "'a \<Rightarrow> 'a" and is_nf :: "'a \<Rightarrow> bool"
  assumes nf_is_nf: "is_nf (nf x)"
    and nf_fixed: "is_nf x \<Longrightarrow> nf x = x"
begin

lemma nf_idem: "nf (nf x) = nf x"
  by (simp add: nf_fixed nf_is_nf)

lemma is_nf_iff_fixed: "is_nf x \<longleftrightarrow> nf x = x"
  using nf_is_nf [of x] nf_fixed [of x] by auto

lemma nf_eq_of_nf: "nf x = nf y \<Longrightarrow> is_nf x \<Longrightarrow> is_nf y \<Longrightarrow> x = y"
  by (simp add: nf_fixed)

end

section \<open>Append-only keyed tables\<close>

text \<open>
  The receipt and revision tables only ever grow, one row per key. The client sees an
  insertion that fails when the key is taken, and a lookup.
\<close>

locale keyed_log =
  fixes lookup :: "'t \<Rightarrow> 'k \<Rightarrow> 'v option"
    and insert_row :: "'t \<Rightarrow> 'k \<Rightarrow> 'v \<Rightarrow> 't option"
  assumes insert_fresh: "insert_row t k v = Some t' \<Longrightarrow> lookup t k = None"
    and lookup_inserted: "insert_row t k v = Some t' \<Longrightarrow> lookup t' k = Some v"
    and lookup_other: "insert_row t k v = Some t' \<Longrightarrow> k' \<noteq> k \<Longrightarrow> lookup t' k' = lookup t k'"
begin

lemma insert_preserves:
  "insert_row t k v = Some t' \<Longrightarrow> lookup t k' = Some w \<Longrightarrow> lookup t' k' = Some w"
  using insert_fresh lookup_other by (cases "k' = k") auto

lemma insert_twice_fails: "insert_row t k v = Some t' \<Longrightarrow> insert_row t' k w = None"
  using insert_fresh lookup_inserted by (cases "insert_row t' k w") fastforce+

lemma lookup_after_insert:
  "insert_row t k v = Some t' \<Longrightarrow> lookup t' k' = (if k' = k then Some v else lookup t k')"
  using lookup_inserted lookup_other by auto

end

end
