(* ===== verification/Rust_Text.thy ===== *)
theory Rust_Text
  imports Prelude "HOL-Library.List_Lexorder"
begin

text \<open>
  The part of Rust's \<open>str\<close>, \<open>char\<close> and integer formatting that the code uses. A Rust string
  is a list of Unicode scalar values (\<open>ustr\<close>); \<open>bytes\<close> is its UTF-8 encoding and \<open>blen\<close>
  is \<open>str::len\<close>, \<open>utf16_len\<close> is \<open>encode_utf16().count()\<close>. String literals of the source are
  written \<open>u ''...''\<close>. Decimal printing and parsing model \<open>to_string\<close> and \<open>parse\<close> on
  integers. The lemmas give the facts the components need: the UTF-8 length bounds, the
  injectivity of \<open>u\<close> and of the encoding of ASCII text, and the decimal round trip.
\<close>

type_synonym scalar = nat
type_synonym ustr = "scalar list"

section \<open>Literals\<close>

definition u :: "string \<Rightarrow> ustr" where
  "u s = map of_char s"

lemma u_inject [simp]: "u s = u t \<longleftrightarrow> s = t"
proof -
  have "inj (of_char :: char \<Rightarrow> nat)"
    by (auto simp: inj_on_def)
  then show ?thesis
    by (simp add: u_def inj_map_eq_map)
qed

lemma length_u [simp]: "length (u s) = length s"
  by (simp add: u_def)

lemma u_eq_Nil [simp]: "u s = [] \<longleftrightarrow> s = []" "[] = u s \<longleftrightarrow> s = []"
  by (auto simp: u_def)

lemma u_Nil [simp]: "u [] = []"
  by (simp add: u_def)

section \<open>UTF-8 and UTF-16\<close>

definition valid_scalar :: "scalar \<Rightarrow> bool" where
  "valid_scalar c \<longleftrightarrow> c < 0xD800 \<or> (0xE000 \<le> c \<and> c \<le> 0x10FFFF)"

definition utf8_char :: "scalar \<Rightarrow> nat list" where
  "utf8_char c =
    (if c < 0x80 then [c]
     else if c < 0x800 then [0xC0 + c div 64, 0x80 + c mod 64]
     else if c < 0x10000 then [0xE0 + c div 4096, 0x80 + c div 64 mod 64, 0x80 + c mod 64]
     else [0xF0 + c div 262144, 0x80 + c div 4096 mod 64, 0x80 + c div 64 mod 64,
           0x80 + c mod 64])"

definition bytes :: "ustr \<Rightarrow> nat list" where
  "bytes s = concat (map utf8_char s)"

definition blen :: "ustr \<Rightarrow> nat" where
  "blen s = length (bytes s)"

definition len_utf16 :: "scalar \<Rightarrow> nat" where
  "len_utf16 c = (if c < 0x10000 then 1 else 2)"

definition utf16_len :: "ustr \<Rightarrow> nat" where
  "utf16_len s = sum_list (map len_utf16 s)"

lemma bytes_simps [simp]:
  "bytes [] = []"
  "bytes (c # s) = utf8_char c @ bytes s"
  "bytes (s @ t) = bytes s @ bytes t"
  by (simp_all add: bytes_def)

lemma utf8_char_length: "length (utf8_char c) \<in> {1, 2, 3, 4}"
  by (simp add: utf8_char_def)

lemma utf8_char_length_pos: "0 < length (utf8_char c)"
  by (simp add: utf8_char_def)

lemma blen_simps [simp]:
  "blen [] = 0"
  "blen (c # s) = length (utf8_char c) + blen s"
  "blen (s @ t) = blen s + blen t"
  by (simp_all add: blen_def)

lemma blen_eq_0 [simp]: "blen s = 0 \<longleftrightarrow> s = []"
  using utf8_char_length_pos by (cases s) auto

lemma length_le_blen: "length s \<le> blen s"
proof (induction s)
  case (Cons c s)
  have "Suc 0 \<le> length (utf8_char c)" using utf8_char_length [of c] by auto
  with Cons show ?case by simp
qed simp

lemma blen_le: "blen s \<le> 4 * length s"
proof (induction s)
  case (Cons c s)
  then show ?case using utf8_char_length [of c] by auto
qed simp

lemma utf16_len_simps [simp]:
  "utf16_len [] = 0"
  "utf16_len (c # s) = len_utf16 c + utf16_len s"
  "utf16_len (s @ t) = utf16_len s + utf16_len t"
  by (simp_all add: utf16_len_def)

lemma len_utf16_pos: "0 < len_utf16 c"
  by (simp add: len_utf16_def)

lemma utf16_len_eq_0 [simp]: "utf16_len s = 0 \<longleftrightarrow> s = []"
  using len_utf16_pos by (cases s) auto

lemma utf8_char_ascii [simp]: "c < 128 \<Longrightarrow> utf8_char c = [c]"
  by (simp add: utf8_char_def)

lemma utf8_char_non_ascii: "\<not> c < 128 \<Longrightarrow> b \<in> set (utf8_char c) \<Longrightarrow> 128 \<le> b"
  by (auto simp: utf8_char_def split: if_splits)

text \<open>
  A test on every byte that only ASCII bytes pass is a test on every scalar, and then the
  byte length is the number of scalars.
\<close>

lemma all_bytes_ascii:
  assumes "\<And>b. P b \<Longrightarrow> b < 128"
  shows "list_all P (bytes s) \<longleftrightarrow> list_all P s"
proof (induction s)
  case (Cons c s)
  have "list_all P (utf8_char c) \<longleftrightarrow> P c"
  proof (cases "c < 128")
    case True
    then show ?thesis by simp
  next
    case False
    obtain b where b: "b \<in> set (utf8_char c)"
      using utf8_char_length_pos [of c] by (cases "utf8_char c") auto
    with False have "128 \<le> b" by (rule utf8_char_non_ascii)
    with b assms have "\<not> list_all P (utf8_char c)"
      by (auto simp: list_all_iff) (metis leD)
    moreover from False assms have "\<not> P c" by auto
    ultimately show ?thesis by simp
  qed
  with Cons show ?case by simp
qed simp

lemma ascii_bytes: "list_all (\<lambda>c. c < 128) s \<Longrightarrow> bytes s = s"
  by (induction s) auto

lemma ascii_blen: "list_all (\<lambda>c. c < 128) s \<Longrightarrow> blen s = length s"
  by (simp add: blen_def ascii_bytes)

section \<open>Character classes\<close>

text \<open>\<open>char::is_control\<close> is the general category Cc, \<open>char::is_whitespace\<close> is White_Space.\<close>

definition is_control :: "scalar \<Rightarrow> bool" where
  "is_control c \<longleftrightarrow> c < 0x20 \<or> (0x7F \<le> c \<and> c \<le> 0x9F)"

definition is_whitespace :: "scalar \<Rightarrow> bool" where
  "is_whitespace c \<longleftrightarrow>
     (9 \<le> c \<and> c \<le> 13) \<or> c = 0x20 \<or> c = 0x85 \<or> c = 0xA0 \<or> c = 0x1680 \<or>
     (0x2000 \<le> c \<and> c \<le> 0x200A) \<or> c = 0x2028 \<or> c = 0x2029 \<or> c = 0x202F \<or> c = 0x205F \<or>
     c = 0x3000"

definition is_ascii_digit :: "nat \<Rightarrow> bool" where
  "is_ascii_digit b \<longleftrightarrow> 48 \<le> b \<and> b \<le> 57"

definition is_ascii_alphabetic :: "nat \<Rightarrow> bool" where
  "is_ascii_alphabetic b \<longleftrightarrow> (65 \<le> b \<and> b \<le> 90) \<or> (97 \<le> b \<and> b \<le> 122)"

definition is_ascii_alphanumeric :: "nat \<Rightarrow> bool" where
  "is_ascii_alphanumeric b \<longleftrightarrow> is_ascii_digit b \<or> is_ascii_alphabetic b"

definition is_ascii_hexdigit :: "nat \<Rightarrow> bool" where
  "is_ascii_hexdigit b \<longleftrightarrow> is_ascii_digit b \<or> (65 \<le> b \<and> b \<le> 70) \<or> (97 \<le> b \<and> b \<le> 102)"

definition to_ascii_lowercase :: "ustr \<Rightarrow> ustr" where
  "to_ascii_lowercase s = map (\<lambda>c. if 65 \<le> c \<and> c \<le> 90 then c + 32 else c) s"

definition trim :: "ustr \<Rightarrow> ustr" where
  "trim s = rev (dropWhile is_whitespace (rev (dropWhile is_whitespace s)))"

lemma trim_eq_Nil: "trim s = [] \<longleftrightarrow> (\<forall>c \<in> set s. is_whitespace c)"
proof -
  have "trim s = [] \<longleftrightarrow> (\<forall>c \<in> set (dropWhile is_whitespace s). is_whitespace c)"
    by (auto simp: trim_def dropWhile_eq_Nil_conv)
  also have "\<dots> \<longleftrightarrow> dropWhile is_whitespace s = []"
    by (metis dropWhile_eq_Nil_conv hd_dropWhile list.set_sel(1) set_dropWhileD)
  finally show ?thesis by (simp add: dropWhile_eq_Nil_conv)
qed

lemma length_trim: "length (trim s) \<le> length s"
proof -
  have "length (dropWhile is_whitespace (rev (dropWhile is_whitespace s)))
      \<le> length (rev (dropWhile is_whitespace s))"
    by (rule length_dropWhile_le)
  also have "\<dots> \<le> length s" by (simp add: length_dropWhile_le)
  finally show ?thesis by (simp add: trim_def)
qed

section \<open>Searching\<close>

fun starts_with :: "'a list \<Rightarrow> 'a list \<Rightarrow> bool" where
  "starts_with s [] \<longleftrightarrow> True"
| "starts_with [] (p # ps) \<longleftrightarrow> False"
| "starts_with (c # s) (p # ps) \<longleftrightarrow> c = p \<and> starts_with s ps"

definition ends_with :: "'a list \<Rightarrow> 'a list \<Rightarrow> bool" where
  "ends_with s p \<longleftrightarrow> starts_with (rev s) (rev p)"

fun contains_str :: "'a list \<Rightarrow> 'a list \<Rightarrow> bool" where
  "contains_str [] p \<longleftrightarrow> p = []"
| "contains_str (c # s) p \<longleftrightarrow> starts_with (c # s) p \<or> contains_str s p"

definition contains_any :: "ustr \<Rightarrow> scalar list \<Rightarrow> bool" where
  "contains_any s cs \<longleftrightarrow> list_ex (\<lambda>c. c \<in> set cs) s"

lemma starts_with_iff: "starts_with s p \<longleftrightarrow> (\<exists>r. s = p @ r)"
  by (induction s p rule: starts_with.induct) auto

lemma starts_with_append [simp]: "starts_with (p @ r) p"
  by (auto simp: starts_with_iff)

lemma starts_with_refl [simp]: "starts_with p p"
  by (auto simp: starts_with_iff)

lemma starts_with_Nil_iff [simp]: "starts_with [] p \<longleftrightarrow> p = []"
  by (cases p) auto

lemma starts_with_trans: "starts_with a b \<Longrightarrow> starts_with b c \<Longrightarrow> starts_with a c"
  by (auto simp: starts_with_iff)

lemma starts_with_blen: "starts_with s p \<Longrightarrow> blen p \<le> blen s"
  by (auto simp: starts_with_iff)

lemma contains_str_iff: "contains_str s p \<longleftrightarrow> (\<exists>a b. s = a @ p @ b)"
proof (induction s)
  case (Cons c s)
  have "(\<exists>a b. c # s = a @ p @ b) \<longleftrightarrow> (\<exists>b. c # s = p @ b) \<or> (\<exists>a b. s = a @ p @ b)"
    by (metis append_Cons append_Nil list.inject neq_Nil_conv)
  with Cons show ?case by (simp add: starts_with_iff)
qed auto

text \<open>\<open>join\<close> on a slice of strings.\<close>

fun join_str :: "ustr \<Rightarrow> ustr list \<Rightarrow> ustr" where
  "join_str sep [] = []"
| "join_str sep [s] = s"
| "join_str sep (s # t # ts) = s @ sep @ join_str sep (t # ts)"

section \<open>Decimal integers\<close>

fun show_nat :: "nat \<Rightarrow> ustr" where
  "show_nat n = (if n < 10 then [48 + n] else show_nat (n div 10) @ [48 + n mod 10])"

declare show_nat.simps [simp del]

definition show_int :: "int \<Rightarrow> ustr" where
  "show_int i = (if i < 0 then 45 # show_nat (nat (- i)) else show_nat (nat i))"

definition parse_digits :: "ustr \<Rightarrow> nat" where
  "parse_digits s = foldl (\<lambda>n c. 10 * n + (c - 48)) 0 s"

text \<open>The canonical form the code insists on: digits only, no leading zero.\<close>

definition canonical_decimal :: "ustr \<Rightarrow> bool" where
  "canonical_decimal s \<longleftrightarrow>
     s \<noteq> [] \<and> \<not> (1 < blen s \<and> starts_with s [48]) \<and> list_all is_ascii_digit (bytes s)"

lemma digit_lt_128: "is_ascii_digit b \<Longrightarrow> b < 128"
  by (simp add: is_ascii_digit_def)

lemma canonical_decimal_iff:
  "canonical_decimal s \<longleftrightarrow>
     s \<noteq> [] \<and> \<not> (1 < length s \<and> hd s = 48) \<and> list_all is_ascii_digit s"
proof -
  have "list_all is_ascii_digit (bytes s) \<longleftrightarrow> list_all is_ascii_digit s"
    by (rule all_bytes_ascii) (simp add: is_ascii_digit_def)
  moreover have "list_all is_ascii_digit s \<Longrightarrow> blen s = length s"
    by (rule ascii_blen) (auto simp: list_all_iff dest: digit_lt_128)
  moreover have "s \<noteq> [] \<Longrightarrow> starts_with s [48] \<longleftrightarrow> hd s = 48"
    by (cases s) auto
  ultimately show ?thesis
    by (auto simp: canonical_decimal_def)
qed

lemma parse_digits_snoc [simp]: "parse_digits (s @ [c]) = 10 * parse_digits s + (c - 48)"
  by (simp add: parse_digits_def)

lemma parse_digits_show [simp]: "parse_digits (show_nat n) = n"
proof (induction n rule: show_nat.induct)
  case (1 n)
  show ?case
  proof (cases "n < 10")
    case True
    then show ?thesis by (subst show_nat.simps) (simp add: parse_digits_def)
  next
    case False
    with 1 have "parse_digits (show_nat (n div 10)) = n div 10" by simp
    with False show ?thesis by (subst show_nat.simps) simp
  qed
qed

lemma show_nat_not_Nil [simp]: "show_nat n \<noteq> []"
  by (subst show_nat.simps) simp

lemma show_nat_digits: "list_all is_ascii_digit (show_nat n)"
proof (induction n rule: show_nat.induct)
  case (1 n)
  have "is_ascii_digit (48 + n mod 10)" "n < 10 \<Longrightarrow> is_ascii_digit (48 + n)"
    by (auto simp: is_ascii_digit_def)
  with 1 show ?case by (subst show_nat.simps) simp
qed

lemma show_nat_inj [simp]: "show_nat m = show_nat n \<longleftrightarrow> m = n"
  by (metis parse_digits_show)

lemma hd_show_nat: "n \<noteq> 0 \<Longrightarrow> hd (show_nat n) \<noteq> 48"
proof (induction n rule: show_nat.induct)
  case (1 n)
  show ?case
  proof (cases "n < 10")
    case True
    with 1 show ?thesis by (subst show_nat.simps) simp
  next
    case False
    with 1 have "hd (show_nat (n div 10)) \<noteq> 48" by auto
    with False show ?thesis by (subst show_nat.simps) simp
  qed
qed

lemma show_nat_canonical: "canonical_decimal (show_nat n)"
proof (cases "n = 0")
  case True
  then show ?thesis
    by (simp add: canonical_decimal_iff show_nat.simps is_ascii_digit_def)
next
  case False
  then show ?thesis
    by (simp add: canonical_decimal_iff show_nat_digits hd_show_nat)
qed

lemma parse_digits_ge: "list_all is_ascii_digit s \<Longrightarrow> s \<noteq> [] \<Longrightarrow> hd s \<noteq> 48 \<Longrightarrow> 0 < parse_digits s"
proof (induction s rule: rev_induct)
  case (snoc c s)
  then show ?case
    by (cases s) (auto simp: parse_digits_def is_ascii_digit_def)
qed simp

lemma show_parse_digits: "canonical_decimal s \<Longrightarrow> show_nat (parse_digits s) = s"
  unfolding canonical_decimal_iff
proof (induction s rule: rev_induct)
  case (snoc c s)
  then have c: "48 \<le> c" "c \<le> 57" by (auto simp: is_ascii_digit_def)
  show ?case
  proof (cases "s = []")
    case True
    with c show ?thesis by (subst show_nat.simps) (simp add: parse_digits_def)
  next
    case False
    with snoc.prems have s: "s \<noteq> []" "hd s \<noteq> 48" "list_all is_ascii_digit s" by auto
    with snoc.IH have IH: "show_nat (parse_digits s) = s" by auto
    from s have "0 < parse_digits s" by (simp add: parse_digits_ge)
    define d where "d = c - 48"
    with c have d: "c = 48 + d" "d < 10" by simp_all
    have "(10 * parse_digits s + d) div 10 = parse_digits s"
      and "(10 * parse_digits s + d) mod 10 = d"
      using d(2) by simp_all
    with d IH \<open>0 < parse_digits s\<close> show ?thesis
      by (subst show_nat.simps) simp
  qed
qed simp

lemma canonical_decimal_eq_iff:
  "canonical_decimal s \<Longrightarrow> canonical_decimal t \<Longrightarrow> s = t \<longleftrightarrow> parse_digits s = parse_digits t"
  by (metis show_parse_digits)

end
