(* ===== verification/Json.thy ===== *)
theory Json
  imports Rust_Text "HOL-Library.Word"
begin

text \<open>
  JSON values as \<open>serde_json\<close> represents them, and the third-party functions the code calls.
  A \<open>Map\<close> is a \<open>BTreeMap\<close> (the lock file builds \<open>serde_json\<close> without \<open>preserve_order\<close>):
  an association list whose keys are strictly increasing in byte order (\<open>wf_json\<close>),
  read with \<open>map_of\<close> and written with \<open>obj_insert\<close>. Numbers keep the three internal
  forms, so \<open>as_u64\<close> accepts exactly the nonnegative integer form. The record \<open>env\<close> carries
  the library functions that are not part of the repository; \<open>codec_ok\<close> and \<open>graphemes_ok\<close>
  state the documented behaviour the properties rely on. \<open>canonicalize_value\<close>
  (crates/kernel/src/lib.rs) is modelled here and shown to be a normal form.
\<close>

section \<open>Values\<close>

type_synonym u64 = "64 word"

datatype jnumber = PosInt u64 | NegInt int | Float u64

datatype json =
    JNull
  | JBool bool
  | JNum jnumber
  | JStr ustr
  | JArr "json list"
  | JObj "(ustr \<times> json) list"

type_synonym jmap = "(ustr \<times> json) list"

fun as_u64 :: "json \<Rightarrow> u64 option" where
  "as_u64 (JNum (PosInt n)) = Some n"
| "as_u64 _ = None"

fun as_str :: "json \<Rightarrow> ustr option" where
  "as_str (JStr s) = Some s"
| "as_str _ = None"

fun as_arr :: "json \<Rightarrow> json list option" where
  "as_arr (JArr vs) = Some vs"
| "as_arr _ = None"

fun as_obj :: "json \<Rightarrow> jmap option" where
  "as_obj (JObj m) = Some m"
| "as_obj _ = None"

text \<open>\<open>Value::get\<close> with a string index: a field of an object, nothing otherwise.\<close>

definition json_get :: "json \<Rightarrow> ustr \<Rightarrow> json option" where
  "json_get v k = (case as_obj v of None \<Rightarrow> None | Some m \<Rightarrow> map_of m k)"

lemma as_obj_eq_Some [simp]: "as_obj v = Some m \<longleftrightarrow> v = JObj m"
  by (cases v) auto

lemma as_arr_eq_Some [simp]: "as_arr v = Some vs \<longleftrightarrow> v = JArr vs"
  by (cases v) auto

lemma as_str_eq_Some [simp]: "as_str v = Some s \<longleftrightarrow> v = JStr s"
  by (cases v) auto

lemma as_u64_eq_Some [simp]: "as_u64 v = Some n \<longleftrightarrow> v = JNum (PosInt n)"
  by (cases v rule: as_u64.cases) auto

lemma json_get_obj [simp]: "json_get (JObj m) k = map_of m k"
  by (simp add: json_get_def)

section \<open>Ordered maps\<close>

text \<open>The first scalar of a UTF-8 sequence, the left inverse of the encoding.\<close>

fun utf8_first :: "nat list \<Rightarrow> scalar" where
  "utf8_first (b # c # d # e # _) =
     (if b < 0x80 then b
      else if b < 0xE0 then 64 * (b - 0xC0) + (c - 0x80)
      else if b < 0xF0 then 4096 * (b - 0xE0) + 64 * (c - 0x80) + (d - 0x80)
      else 262144 * (b - 0xF0) + 4096 * (c - 0x80) + 64 * (d - 0x80) + (e - 0x80))"
| "utf8_first (b # c # d # _) =
     (if b < 0x80 then b
      else if b < 0xE0 then 64 * (b - 0xC0) + (c - 0x80)
      else 4096 * (b - 0xE0) + 64 * (c - 0x80) + (d - 0x80))"
| "utf8_first (b # c # _) = (if b < 0x80 then b else 64 * (b - 0xC0) + (c - 0x80))"
| "utf8_first (b # _) = b"
| "utf8_first [] = 0"

lemma split64: "64 * (n div 64) + n mod 64 = (n :: nat)"
  by simp

lemma split4096: "4096 * (n div 4096) + 64 * (n div 64 mod 64) + n mod 64 = (n :: nat)"
proof -
  have "n div 4096 = n div 64 div 64" by (simp add: div_mult2_eq [symmetric])
  then have "64 * (n div 4096) + n div 64 mod 64 = n div 64" by simp
  with split64 [of n] show ?thesis by linarith
qed

lemma split262144:
  "262144 * (n div 262144) + 4096 * (n div 4096 mod 64) + 64 * (n div 64 mod 64) + n mod 64
     = (n :: nat)"
proof -
  have "n div 262144 = n div 4096 div 64" by (simp add: div_mult2_eq [symmetric])
  then have "64 * (n div 262144) + n div 4096 mod 64 = n div 4096" by simp
  with split4096 [of n] show ?thesis by linarith
qed

lemma utf8_first_1: "b < 0x80 \<Longrightarrow> utf8_first (b # r) = b"
  by (cases "b # r" rule: utf8_first.cases) auto

lemma utf8_first_2: "\<not> b < 0x80 \<Longrightarrow> b < 0xE0 \<Longrightarrow> utf8_first (b # c # r) = 64 * (b - 0xC0) + (c - 0x80)"
  by (cases "b # c # r" rule: utf8_first.cases) auto

lemma utf8_first_3: "\<not> b < 0xE0 \<Longrightarrow> b < 0xF0 \<Longrightarrow>
    utf8_first (b # c # d # r) = 4096 * (b - 0xE0) + 64 * (c - 0x80) + (d - 0x80)"
  by (cases "b # c # d # r" rule: utf8_first.cases) auto

lemma utf8_first_encode: "utf8_first (utf8_char c @ xs) = c"
proof -
  consider "c < 0x80" | "\<not> c < 0x80" "c < 0x800" | "\<not> c < 0x800" "c < 0x10000" | "\<not> c < 0x10000"
    by linarith
  then show ?thesis
  proof cases
    case 1
    then show ?thesis by (simp add: utf8_first_1)
  next
    case 2
    then have "0xC0 + c div 64 < 0xE0" by simp
    with 2 show ?thesis by (simp add: utf8_char_def utf8_first_2)
  next
    case 3
    then have "0xE0 + c div 4096 < 0xF0" by simp
    with 3 split4096 [of c] show ?thesis by (simp add: utf8_char_def utf8_first_3)
  next
    case 4
    with split262144 [of c] show ?thesis by (simp add: utf8_char_def)
  qed
qed

lemma utf8_char_prefix:
  assumes "utf8_char c @ xs = utf8_char d @ ys"
  shows "c = d \<and> xs = ys"
proof -
  have "c = d" using assms by (metis utf8_first_encode)
  with assms show ?thesis by simp
qed

lemma bytes_inj [simp]: "bytes s = bytes t \<longleftrightarrow> s = t"
proof
  assume "bytes s = bytes t"
  then show "s = t"
  proof (induction s arbitrary: t)
    case Nil
    then have "blen t = 0" by (simp add: blen_def)
    then show ?case by simp
  next
    case (Cons c s)
    from Cons.prems have "t \<noteq> []"
      using utf8_char_length_pos [of c] by auto
    then obtain d t' where t: "t = d # t'" by (cases t) auto
    with Cons.prems have "c = d \<and> bytes s = bytes t'"
      by (intro utf8_char_prefix) simp
    with Cons.IH t show ?case by simp
  qed
qed simp

definition key_less :: "ustr \<times> 'a \<Rightarrow> ustr \<times> 'b \<Rightarrow> bool" where
  "key_less a b \<longleftrightarrow> bytes (fst a) < bytes (fst b)"

definition sorted_map :: "(ustr \<times> 'a) list \<Rightarrow> bool" where
  "sorted_map m \<longleftrightarrow> sorted_wrt (<) (map (\<lambda>e. bytes (fst e)) m)"

fun obj_insert :: "ustr \<Rightarrow> 'a \<Rightarrow> (ustr \<times> 'a) list \<Rightarrow> (ustr \<times> 'a) list" where
  "obj_insert k v [] = [(k, v)]"
| "obj_insert k v ((k', v') # m) =
     (if k = k' then (k, v) # m
      else if bytes k < bytes k' then (k, v) # (k', v') # m
      else (k', v') # obj_insert k v m)"

text \<open>\<open>Map::new()\<close> followed by a sequence of \<open>insert\<close>s.\<close>

definition obj_of :: "(ustr \<times> 'a) list \<Rightarrow> (ustr \<times> 'a) list" where
  "obj_of kvs = foldl (\<lambda>m (k, v). obj_insert k v m) [] kvs"

definition obj_remove :: "ustr \<Rightarrow> (ustr \<times> 'a) list \<Rightarrow> (ustr \<times> 'a) list" where
  "obj_remove k m = filter (\<lambda>e. fst e \<noteq> k) m"

lemma sorted_map_simps [simp]:
  "sorted_map []"
  "sorted_map ((k, v) # m) \<longleftrightarrow> (\<forall>k' \<in> fst ` set m. bytes k < bytes k') \<and> sorted_map m"
  by (auto simp: sorted_map_def)

lemma sorted_map_distinct: "sorted_map m \<Longrightarrow> distinct (map fst m)"
  by (induction m) force+

lemma map_of_obj_insert: "map_of (obj_insert k v m) = (map_of m)(k \<mapsto> v)"
  by (induction k v m rule: obj_insert.induct) (auto simp: fun_eq_iff)

lemma keys_obj_insert: "fst ` set (obj_insert k v m) = insert k (fst ` set m)"
  by (induction k v m rule: obj_insert.induct) auto

lemma sorted_obj_insert: "sorted_map m \<Longrightarrow> sorted_map (obj_insert k v m)"
proof (induction k v m rule: obj_insert.induct)
  case (2 k v k' v' m)
  have "k \<noteq> k' \<Longrightarrow> \<not> bytes k < bytes k' \<Longrightarrow> bytes k' < bytes k"
    by (metis bytes_inj linorder_less_linear)
  with 2 show ?case
    by (auto simp: keys_obj_insert simp flip: image_iff)
qed simp

lemma obj_insert_values: "e \<in> set (obj_insert k v m) \<Longrightarrow> e = (k, v) \<or> e \<in> set m"
  by (induction k v m rule: obj_insert.induct) (auto split: if_splits)

lemma obj_insert_append:
  "\<forall>k' \<in> fst ` set m. bytes k' < bytes k \<Longrightarrow> obj_insert k v m = m @ [(k, v)]"
proof (induction k v m rule: obj_insert.induct)
  case (2 k v k' v' m)
  then have "bytes k' < bytes k" by simp
  then have "k \<noteq> k'" "\<not> bytes k < bytes k'" by auto
  with 2 show ?case by simp
qed simp

lemma obj_of_sorted: "sorted_map kvs \<Longrightarrow> obj_of kvs = kvs"
proof (induction kvs rule: rev_induct)
  case (snoc e kvs)
  obtain k v where e: "e = (k, v)" by (cases e)
  from snoc.prems have "sorted_map kvs" and "\<forall>k' \<in> fst ` set kvs. bytes k' < bytes k"
    by (auto simp: sorted_map_def sorted_wrt_append e)
  with snoc.IH e show ?case
    by (simp add: obj_of_def obj_insert_append)
qed (simp add: obj_of_def)

lemma obj_of_snoc: "obj_of (kvs @ [(k, v)]) = obj_insert k v (obj_of kvs)"
  by (simp add: obj_of_def)

lemma sorted_obj_of: "sorted_map (obj_of kvs)"
  by (induction kvs rule: rev_induct) (auto simp: obj_of_snoc sorted_obj_insert, simp add: obj_of_def)

lemma sorted_obj_remove: "sorted_map m \<Longrightarrow> sorted_map (obj_remove k m)"
  by (induction m) (auto simp: obj_remove_def)

lemma map_of_obj_remove: "map_of (obj_remove k m) = (map_of m)(k := None)"
  by (induction m) (auto simp: obj_remove_def fun_eq_iff)

section \<open>Well-formed values\<close>

primrec wf_json :: "json \<Rightarrow> bool" where
  "wf_json JNull \<longleftrightarrow> True"
| "wf_json (JBool b) \<longleftrightarrow> True"
| "wf_json (JNum n) \<longleftrightarrow> True"
| "wf_json (JStr s) \<longleftrightarrow> True"
| "wf_json (JArr vs) \<longleftrightarrow> list_all id (map wf_json vs)"
| "wf_json (JObj m) \<longleftrightarrow> sorted_map m \<and> list_all snd (map (map_prod id wf_json) m)"

lemma wf_json_arr [simp]: "wf_json (JArr vs) \<longleftrightarrow> (\<forall>v \<in> set vs. wf_json v)"
  by (simp add: list_all_iff)

lemma wf_json_obj [simp]:
  "wf_json (JObj m) \<longleftrightarrow> sorted_map m \<and> (\<forall>e \<in> set m. wf_json (snd e))"
  by (simp add: list_all_iff)

declare wf_json.simps(5,6) [simp del]

lemma wf_json_get: "wf_json v \<Longrightarrow> json_get v k = Some w \<Longrightarrow> wf_json w"
  by (cases v) (auto simp: json_get_def dest!: map_of_SomeD)

text \<open>\<open>canonicalize_value\<close>: sort the entries of every object by the bytes of their keys.\<close>

primrec canonicalize_value :: "json \<Rightarrow> json" where
  "canonicalize_value JNull = JNull"
| "canonicalize_value (JBool b) = JBool b"
| "canonicalize_value (JNum n) = JNum n"
| "canonicalize_value (JStr s) = JStr s"
| "canonicalize_value (JArr vs) = JArr (map canonicalize_value vs)"
| "canonicalize_value (JObj m) =
     JObj (obj_of (sort_key (\<lambda>e. bytes (fst e)) (map (map_prod id canonicalize_value) m)))"

lemma sorted_map_sort_key: "sorted_map m \<Longrightarrow> sort_key (\<lambda>e. bytes (fst e)) m = m"
  by (rule sort_key_id_if_sorted)
    (auto simp: sorted_map_def sorted_wrt_map elim: sorted_wrt_mono_rel [rotated])

lemma sorted_map_map_prod [simp]: "sorted_map (map (map_prod id f) m) = sorted_map m"
  by (simp add: sorted_map_def comp_def)

lemma obj_of_values: "e \<in> set (obj_of kvs) \<Longrightarrow> e \<in> set kvs"
proof (induction kvs rule: rev_induct)
  case (snoc x kvs)
  then show ?case
    by (cases x) (auto simp: obj_of_snoc dest!: obj_insert_values)
qed (simp add: obj_of_def)

lemma canonicalize_wf: "wf_json (canonicalize_value v)"
proof (induction v)
  case (JObj m)
  have "wf_json (snd e)"
    if "e \<in> set (obj_of (sort_key (\<lambda>e. bytes (fst e)) (map (map_prod id canonicalize_value) m)))"
    for e
  proof -
    from that have "e \<in> set (map (map_prod id canonicalize_value) m)"
      using obj_of_values by fastforce
    then obtain k w where "(k, w) \<in> set m" "snd e = canonicalize_value w" by auto
    with JObj show ?thesis by (metis snds.intros snd_conv)
  qed
  then show ?case by (simp add: sorted_obj_of)
qed auto

lemma canonicalize_fixed: "wf_json v \<Longrightarrow> canonicalize_value v = v"
proof (induction v)
  case (JArr vs)
  then show ?case by (simp add: map_idI)
next
  case (JObj m)
  have "map (map_prod id canonicalize_value) m = m"
  proof (rule map_idI)
    fix e assume e: "e \<in> set m"
    with JObj have "canonicalize_value (snd e) = snd e"
      by (cases e) (auto intro: snds.intros)
    then show "map_prod id canonicalize_value e = e" by (cases e) simp
  qed
  with JObj.prems show ?case by (simp add: sorted_map_sort_key obj_of_sorted)
qed auto

interpretation canon: normal_form canonicalize_value wf_json
  by unfold_locales (auto simp: canonicalize_wf canonicalize_fixed)

section \<open>The library functions the code calls\<close>

record url =
  url_scheme :: ustr
  url_host :: "ustr option"
  url_username :: ustr
  url_password :: "ustr option"
  url_path :: ustr
  url_query :: "ustr option"
  url_fragment :: "ustr option"

text \<open>
  \<open>json_parse\<close>: \<open>serde_json::from_str::<Value>\<close>; \<open>json_text\<close>: \<open>serde_json::to_string\<close> of a
  \<open>Value\<close> (which has string keys only, so it does not fail); \<open>digest\<close>: \<open>Sha256::digest\<close>;
  \<open>url_parse\<close>: \<open>Url::parse\<close>; \<open>graphemes\<close>: the extended grapheme clusters of
  \<open>unicode-segmentation\<close>.
\<close>

record env =
  json_parse :: "ustr \<Rightarrow> json option"
  json_text :: "json \<Rightarrow> ustr"
  digest :: "nat list \<Rightarrow> nat list"
  url_parse :: "ustr \<Rightarrow> url option"
  graphemes :: "ustr \<Rightarrow> ustr list"

text \<open>
  Text written by \<open>serde_json\<close> parses back to the same value with its keys in map order,
  provided it holds no floating-point number (parsing those is approximate without the
  \<open>float_roundtrip\<close> feature), its negative numbers are in the range of i64 and it is not
  nested deeper than the parser's recursion limit of 128.
\<close>

primrec exact_json :: "json \<Rightarrow> bool" where
  "exact_json JNull \<longleftrightarrow> True"
| "exact_json (JBool b) \<longleftrightarrow> True"
| "exact_json (JNum n) \<longleftrightarrow>
     (case n of PosInt _ \<Rightarrow> True | NegInt i \<Rightarrow> - (2 ^ 63) \<le> i \<and> i < 0 | Float _ \<Rightarrow> False)"
| "exact_json (JStr s) \<longleftrightarrow> True"
| "exact_json (JArr vs) \<longleftrightarrow> list_all id (map exact_json vs)"
| "exact_json (JObj m) \<longleftrightarrow> list_all snd (map (map_prod id exact_json) m)"

primrec json_depth :: "json \<Rightarrow> nat" where
  "json_depth JNull = 0"
| "json_depth (JBool b) = 0"
| "json_depth (JNum n) = 0"
| "json_depth (JStr s) = 0"
| "json_depth (JArr vs) = Suc (foldr max (map json_depth vs) 0)"
| "json_depth (JObj m) = Suc (foldr (\<lambda>e. max (snd e)) (map (map_prod id json_depth) m) 0)"

lemma foldr_max_le: "foldr (\<lambda>e. max (f e)) xs 0 \<le> (d :: nat) \<longleftrightarrow> (\<forall>x \<in> set xs. f x \<le> d)"
  by (induction xs) auto

lemma exact_json_arr [simp]: "exact_json (JArr vs) \<longleftrightarrow> (\<forall>v \<in> set vs. exact_json v)"
  by (simp add: list_all_iff)

lemma exact_json_obj [simp]: "exact_json (JObj m) \<longleftrightarrow> (\<forall>e \<in> set m. exact_json (snd e))"
  by (simp add: list_all_iff)

lemma json_depth_arr: "json_depth (JArr vs) \<le> Suc d \<longleftrightarrow> (\<forall>v \<in> set vs. json_depth v \<le> d)"
  using foldr_max_le [of json_depth vs d] by (simp add: foldr_map comp_def)

lemma json_depth_obj: "json_depth (JObj m) \<le> Suc d \<longleftrightarrow> (\<forall>e \<in> set m. json_depth (snd e) \<le> d)"
  using foldr_max_le [of "\<lambda>e. json_depth (snd e)" m d] by (simp add: foldr_map comp_def)

declare exact_json.simps(5,6) [simp del] json_depth.simps(5,6) [simp del]

definition plain_json :: "json \<Rightarrow> bool" where
  "plain_json v \<longleftrightarrow> exact_json v \<and> json_depth v \<le> 127"

definition codec_ok :: "env \<Rightarrow> bool" where
  "codec_ok E \<longleftrightarrow>
     (\<forall>v. plain_json v \<longrightarrow> json_parse E (json_text E v) = Some (canonicalize_value v)) \<and>
     (\<forall>s v. json_parse E s = Some v \<longrightarrow> wf_json v)"

definition digest_ok :: "env \<Rightarrow> bool" where
  "digest_ok E \<longleftrightarrow> (\<forall>bs. length (digest E bs) = 32 \<and> (\<forall>b \<in> set (digest E bs). b < 256))"

definition graphemes_ok :: "env \<Rightarrow> bool" where
  "graphemes_ok E \<longleftrightarrow> (\<forall>s. concat (graphemes E s) = s \<and> [] \<notin> set (graphemes E s))"

lemma codec_roundtrip:
  "codec_ok E \<Longrightarrow> plain_json v \<Longrightarrow> json_parse E (json_text E v) = Some (canonicalize_value v)"
  by (simp add: codec_ok_def)

lemma codec_roundtrip_wf:
  "codec_ok E \<Longrightarrow> plain_json v \<Longrightarrow> wf_json v \<Longrightarrow> json_parse E (json_text E v) = Some v"
  by (simp add: codec_ok_def canon.nf_fixed)

lemma codec_wf: "codec_ok E \<Longrightarrow> json_parse E s = Some v \<Longrightarrow> wf_json v"
  unfolding codec_ok_def by blast

lemma json_text_inj:
  "codec_ok E \<Longrightarrow> plain_json v \<Longrightarrow> plain_json w \<Longrightarrow> wf_json v \<Longrightarrow> wf_json w \<Longrightarrow>
   json_text E v = json_text E w \<Longrightarrow> v = w"
  by (metis codec_roundtrip_wf option.inject)

end
