(* ===== verification/Kernel.thy ===== *)
theory Kernel
  imports Json
begin

text \<open>
  The foundation types of crates/kernel/src/lib.rs: the error type, heads, access leases,
  document records and receipts, and the validators every layer uses (\<open>check_id\<close>,
  \<open>parse_version\<close>, \<open>valid_hash\<close>, \<open>validate_title\<close>, \<open>require_head\<close>), with the request
  hash \<open>logical_hash\<close> and the stored form of a receipt. A \<open>CoreError\<close> keeps its code and the
  head a conflict reports; the English detail text, which no code inspects, is left out.
\<close>

section \<open>Records\<close>

record head =
  document_id :: ustr
  version :: ustr
  body_hash :: ustr

record core_error =
  code :: string
  current_head :: "head option"

type_synonym 'a core_result = "core_error + 'a"

definition core_err :: "string \<Rightarrow> core_error" where
  "core_err c = \<lparr>code = c, current_head = None\<rparr>"

definition uncertain :: core_error where
  "uncertain = core_err ''UncertainOutcome''"

record project_access =
  project_id :: ustr
  session :: ustr
  writer_lease :: ustr
  operation_namespace :: ustr

record project_info =
  info_project_id :: ustr
  info_operation_namespace :: ustr
  info_title :: ustr
  format_version :: nat

record revision =
  rev_id :: ustr
  rev_head :: head
  rev_body :: json
  reason :: ustr
  parent_id :: "ustr option"

datatype document_role = Ordinary | AssistantDraft | ConversationAnchor

record document_record =
  doc_head :: head
  title :: ustr
  kind :: ustr
  metadata_version :: ustr
  body :: json
  last_checkpoint_id :: "ustr option"
  role :: document_role

record restored_decision =
  revision_id :: ustr
  before_revision_id :: ustr
  after_revision_id :: ustr

record applied_decision =
  decision_id :: ustr
  proposal_id :: ustr
  prepared_id :: ustr
  ap_before_revision_id :: ustr
  ap_after_revision_id :: ustr

record stored_result =
  res_head :: head
  saved_generation :: ustr
  applied :: "applied_decision option"
  restored :: "restored_decision option"

lemma core_err_code [simp]: "code (core_err c) = c"
  by (simp add: core_err_def)

lemma core_err_inj [simp]: "core_err c = core_err d \<longleftrightarrow> c = d"
  by (simp add: core_err_def)

section \<open>Identifiers, versions, hashes and titles\<close>

definition id_byte :: "nat \<Rightarrow> bool" where
  "id_byte b \<longleftrightarrow> is_ascii_alphanumeric b \<or> b = 45 \<or> b = 95"

definition valid_id :: "ustr \<Rightarrow> bool" where
  "valid_id i \<longleftrightarrow> i \<noteq> [] \<and> \<not> 64 < blen i \<and> list_all id_byte (bytes i)"

definition check_id :: "ustr \<Rightarrow> unit core_result" where
  "check_id i =
    (if i = [] \<or> 64 < blen i \<or> \<not> list_all id_byte (bytes i)
     then Inl (core_err ''InvalidRequest'') else Inr ())"

definition i64_max :: int where
  "i64_max = 2 ^ 63 - 1"

definition checked_add_i64 :: "int \<Rightarrow> int \<Rightarrow> int option" where
  "checked_add_i64 a b = (if - (2 ^ 63) \<le> a + b \<and> a + b \<le> i64_max then Some (a + b) else None)"

definition parse_version :: "ustr \<Rightarrow> int core_result" where
  "parse_version value =
    (if value = [] \<or> (1 < blen value \<and> starts_with value (u ''0''))
        \<or> \<not> list_all is_ascii_digit (bytes value)
     then Inl (core_err ''InvalidRequest'')
     else if int (parse_digits value) \<le> i64_max then Inr (int (parse_digits value))
     else Inl (core_err ''InvalidRequest''))"

definition parse_stored_version :: "int \<Rightarrow> ustr core_result" where
  "parse_stored_version value =
    (if value < 0 then Inl (core_err ''InvalidProject'') else Inr (show_int value))"

definition valid_hash :: "ustr \<Rightarrow> bool" where
  "valid_hash value \<longleftrightarrow> blen value = 64 \<and> list_all is_ascii_hexdigit (bytes value)"

definition validate_title :: "ustr \<Rightarrow> unit core_result" where
  "validate_title t =
    (if trim t = [] \<or> 512 < blen t \<or> list_ex is_control t
     then Inl (core_err ''InvalidRequest'') else Inr ())"

definition require_head :: "head \<Rightarrow> head \<Rightarrow> unit core_result" where
  "require_head current expected =
    and_then (parse_version (version expected)) (\<lambda>_.
      if current \<noteq> expected
      then Inl ((core_err ''VersionConflict'')\<lparr>current_head := Some current\<rparr>)
      else Inr ())"

lemma check_id_ok [simp]: "check_id i = Inr x \<longleftrightarrow> valid_id i"
  by (auto simp: check_id_def valid_id_def)

lemma check_id_err: "\<not> valid_id i \<Longrightarrow> check_id i = Inl (core_err ''InvalidRequest'')"
  by (auto simp: check_id_def valid_id_def)

lemma id_byte_ascii: "id_byte b \<Longrightarrow> b < 128"
  by (auto simp: id_byte_def is_ascii_alphanumeric_def is_ascii_digit_def
      is_ascii_alphabetic_def)

lemma valid_id_iff: "valid_id i \<longleftrightarrow> i \<noteq> [] \<and> length i \<le> 64 \<and> list_all id_byte i"
proof -
  have "list_all id_byte (bytes i) \<longleftrightarrow> list_all id_byte i"
    by (rule all_bytes_ascii) (rule id_byte_ascii)
  moreover have "list_all id_byte i \<Longrightarrow> blen i = length i"
    by (rule ascii_blen) (auto simp: list_all_iff dest: id_byte_ascii)
  ultimately show ?thesis by (auto simp: valid_id_def)
qed

lemma parse_version_ok:
  "parse_version s = Inr n \<longleftrightarrow>
     canonical_decimal s \<and> n = int (parse_digits s) \<and> n \<le> i64_max"
proof -
  have "u ''0'' = [48]" by (simp add: u_def)
  then show ?thesis
    unfolding parse_version_def canonical_decimal_def by auto
qed

lemma parse_version_show: "0 \<le> n \<Longrightarrow> n \<le> i64_max \<Longrightarrow> parse_version (show_int n) = Inr n"
  by (simp add: parse_version_ok show_int_def show_nat_canonical)

lemma parse_version_inj:
  "parse_version s = Inr n \<Longrightarrow> parse_version t = Inr n \<Longrightarrow> s = t"
  by (auto simp: parse_version_ok canonical_decimal_eq_iff)

lemma show_parse_version: "parse_version s = Inr n \<Longrightarrow> show_int n = s"
  by (auto simp: parse_version_ok show_int_def show_parse_digits)

lemma parse_version_nonneg: "parse_version s = Inr n \<Longrightarrow> 0 \<le> n \<and> n \<le> i64_max"
  by (simp add: parse_version_ok)

lemma show_int_inj: "0 \<le> m \<Longrightarrow> 0 \<le> n \<Longrightarrow> show_int m = show_int n \<longleftrightarrow> m = n"
  by (auto simp: show_int_def)

lemma require_head_ok [simp]:
  "require_head c e = Inr x \<longleftrightarrow> c = e \<and> (\<exists>n. parse_version (version e) = Inr n)"
  by (auto simp: require_head_def and_then_eq_Inr)

section \<open>Hashes of requests\<close>

definition hex_digit :: "nat \<Rightarrow> scalar" where
  "hex_digit n = (if n < 10 then 48 + n else 87 + n)"

definition hex_byte :: "nat \<Rightarrow> ustr" where
  "hex_byte b = [hex_digit (b div 16), hex_digit (b mod 16)]"

definition sha256_hex :: "env \<Rightarrow> nat list \<Rightarrow> ustr" where
  "sha256_hex E bs = concat (map hex_byte (digest E bs))"

definition strip_lease :: "json \<Rightarrow> json" where
  "strip_lease v =
    (case v of
       JObj m \<Rightarrow>
         (case map_of m (u ''access'') of
            Some (JObj a) \<Rightarrow>
              JObj (map (\<lambda>(k, w). if k = u ''access''
                         then (k, JObj (obj_remove (u ''writerLease'') (obj_remove (u ''session'') a)))
                         else (k, w)) m)
          | _ \<Rightarrow> v)
     | _ \<Rightarrow> v)"

definition logical_hash :: "env \<Rightarrow> json \<Rightarrow> ustr" where
  "logical_hash E request =
     sha256_hex E (bytes (json_text E (canonicalize_value (strip_lease request))))"

lemma hex_digit_hex: "n < 16 \<Longrightarrow> is_ascii_hexdigit (hex_digit n)"
  by (auto simp: hex_digit_def is_ascii_hexdigit_def is_ascii_digit_def)

lemma hex_digit_inj: "m < 16 \<Longrightarrow> n < 16 \<Longrightarrow> hex_digit m = hex_digit n \<longleftrightarrow> m = n"
  by (auto simp: hex_digit_def split: if_splits)

lemma hexdigit_ascii: "is_ascii_hexdigit b \<Longrightarrow> b < 128"
  by (auto simp: is_ascii_hexdigit_def is_ascii_digit_def)

lemma valid_hash_iff: "valid_hash s \<longleftrightarrow> length s = 64 \<and> list_all is_ascii_hexdigit s"
proof -
  have "list_all is_ascii_hexdigit (bytes s) \<longleftrightarrow> list_all is_ascii_hexdigit s"
    by (rule all_bytes_ascii) (rule hexdigit_ascii)
  moreover have "list_all is_ascii_hexdigit s \<Longrightarrow> blen s = length s"
    by (rule ascii_blen) (auto simp: list_all_iff dest: hexdigit_ascii)
  ultimately show ?thesis by (auto simp: valid_hash_def)
qed

lemma hex_text_length: "length (concat (map hex_byte bs)) = 2 * length bs"
  by (induction bs) (auto simp: hex_byte_def)

lemma sha256_hex_valid: "digest_ok E \<Longrightarrow> valid_hash (sha256_hex E bs)"
  unfolding valid_hash_iff sha256_hex_def digest_ok_def
  by (auto simp: hex_text_length list_all_iff hex_byte_def intro!: hex_digit_hex
      less_mult_imp_div_less)

lemma hex_text_inj:
  "\<forall>b \<in> set xs. b < 256 \<Longrightarrow> \<forall>b \<in> set ys. b < 256 \<Longrightarrow>
   concat (map hex_byte xs) = concat (map hex_byte ys) \<longleftrightarrow> xs = ys"
proof (induction xs arbitrary: ys)
  case Nil
  then show ?case by (cases ys) (auto simp: hex_byte_def)
next
  case (Cons x xs)
  show ?case
  proof (cases ys)
    case Nil
    then show ?thesis by (simp add: hex_byte_def)
  next
    case (Cons y ys')
    with Cons.prems have lt: "x < 256" "y < 256" by simp_all
    then have "x div 16 < 16" "y div 16 < 16" by auto
    then have "hex_byte x = hex_byte y \<longleftrightarrow> x div 16 = y div 16 \<and> x mod 16 = y mod 16"
      by (simp add: hex_byte_def hex_digit_inj)
    also have "\<dots> \<longleftrightarrow> x = y" by (metis div_mod_decomp)
    finally have "hex_byte x = hex_byte y \<longleftrightarrow> x = y" .
    with Cons.IH Cons.prems Cons show ?thesis
      by (auto simp: hex_byte_def)
  qed
qed

section \<open>Roles\<close>

fun storage_name :: "document_role \<Rightarrow> ustr" where
  "storage_name Ordinary = u ''ordinary''"
| "storage_name AssistantDraft = u ''assistantDraft''"
| "storage_name ConversationAnchor = u ''conversationAnchor''"

definition from_storage :: "ustr \<Rightarrow> document_role core_result" where
  "from_storage value =
    (if value = u ''ordinary'' then Inr Ordinary
     else if value = u ''assistantDraft'' then Inr AssistantDraft
     else if value = u ''conversationAnchor'' then Inr ConversationAnchor
     else Inl (core_err ''InvalidProject''))"

lemma from_storage_name [simp]: "from_storage (storage_name r) = Inr r"
  by (cases r) (simp_all add: from_storage_def)

lemma from_storage_ok [simp]: "from_storage s = Inr r \<longleftrightarrow> s = storage_name r"
  by (cases r) (auto simp: from_storage_def)

end
