(* ===== verification/Sample_Env.thy ===== *)
theory Sample_Env
  imports Kernel
begin

text \<open>
  One concrete instance of the library functions, so that the hypotheses \<open>codec_ok\<close>,
  \<open>digest_ok\<close> and \<open>graphemes_ok\<close> are met by an executable example: a length-prefixed text
  form of JSON with its decoder, a constant digest, one grapheme per scalar and a URL parser
  that knows one address.
\<close>

primrec enc :: "json \<Rightarrow> nat list" where
  "enc JNull = [0]"
| "enc (JBool b) = [1, if b then 1 else 0]"
| "enc (JNum n) =
     (case n of PosInt w \<Rightarrow> [2, unat w] | NegInt i \<Rightarrow> [3, nat (- i)] | Float w \<Rightarrow> [4, unat w])"
| "enc (JStr s) = 5 # length s # s"
| "enc (JArr vs) = 6 # length vs # concat (map enc vs)"
| "enc (JObj m) =
     7 # length m # concat (map (\<lambda>(k, t). length k # k @ t) (map (map_prod id enc) m))"

definition take_exact :: "nat \<Rightarrow> nat list \<Rightarrow> (nat list \<times> nat list) option" where
  "take_exact n s = (if length s < n then None else Some (take n s, drop n s))"

fun dec :: "nat \<Rightarrow> nat list \<Rightarrow> (json \<times> nat list) option"
  and decs :: "nat \<Rightarrow> nat \<Rightarrow> nat list \<Rightarrow> (json list \<times> nat list) option"
  and decm :: "nat \<Rightarrow> nat \<Rightarrow> nat list \<Rightarrow> ((ustr \<times> json) list \<times> nat list) option" where
  "dec (Suc f) (0 # r) = Some (JNull, r)"
| "dec (Suc f) (Suc 0 # b # r) = Some (JBool (b = 1), r)"
| "dec (Suc f) (tag # n # r) =
     (if tag = 2 then Some (JNum (PosInt (of_nat n)), r)
      else if tag = 3 then Some (JNum (NegInt (- int n)), r)
      else if tag = 4 then Some (JNum (Float (of_nat n)), r)
      else if tag = 5 then map_option (map_prod JStr id) (take_exact n r)
      else if tag = 6 then map_option (map_prod JArr id) (decs f n r)
      else if tag = 7 then map_option (map_prod JObj id) (decm f n r)
      else None)"
| "dec _ _ = None"
| "decs f 0 r = Some ([], r)"
| "decs (Suc f) (Suc n) r =
     Option.bind (dec f r) (\<lambda>(v, r'). map_option (map_prod ((#) v) id) (decs f n r'))"
| "decs 0 (Suc n) r = None"
| "decm f 0 r = Some ([], r)"
| "decm (Suc f) (Suc n) r =
     (case r of [] \<Rightarrow> None | l # r \<Rightarrow>
       Option.bind (take_exact l r) (\<lambda>(k, r).
       Option.bind (dec f r) (\<lambda>(v, r). map_option (map_prod ((#) (k, v)) id) (decm f n r))))"
| "decm 0 (Suc n) r = None"

lemma take_exact_append [simp]: "take_exact (length s) (s @ r) = Some (s, r)"
  by (simp add: take_exact_def)

lemma dec_tag [simp]:
  "dec (Suc f) (2 # n # r) = Some (JNum (PosInt (of_nat n)), r)"
  "dec (Suc f) (3 # n # r) = Some (JNum (NegInt (- int n)), r)"
  "dec (Suc f) (4 # n # r) = Some (JNum (Float (of_nat n)), r)"
  "dec (Suc f) (5 # n # r) = map_option (map_prod JStr id) (take_exact n r)"
  "dec (Suc f) (6 # n # r) = map_option (map_prod JArr id) (decs f n r)"
  "dec (Suc f) (7 # n # r) = map_option (map_prod JObj id) (decm f n r)"
  by (simp_all add: eval_nat_numeral)

primrec exact_numbers :: "json \<Rightarrow> bool" where
  "exact_numbers JNull \<longleftrightarrow> True"
| "exact_numbers (JBool b) \<longleftrightarrow> True"
| "exact_numbers (JNum n) \<longleftrightarrow> (case n of NegInt i \<Rightarrow> i < 0 | _ \<Rightarrow> True)"
| "exact_numbers (JStr s) \<longleftrightarrow> True"
| "exact_numbers (JArr vs) \<longleftrightarrow> list_all id (map exact_numbers vs)"
| "exact_numbers (JObj m) \<longleftrightarrow> list_all snd (map (map_prod id exact_numbers) m)"

lemma decs_enc:
  assumes "\<And>v f r. v \<in> set vs \<Longrightarrow> length (enc v) \<le> f \<Longrightarrow> dec f (enc v @ r) = Some (v, r)"
    and "\<And>v. enc v \<noteq> []"
    and "length (concat (map enc vs)) < f"
  shows "decs f (length vs) (concat (map enc vs) @ r) = Some (vs, r)"
  using assms(1,3)
proof (induction vs arbitrary: f)
  case (Cons v vs)
  obtain g where f: "f = Suc g" using Cons.prems(2) by (cases f) auto
  have "dec g (enc v @ concat (map enc vs) @ r) = Some (v, concat (map enc vs) @ r)"
    using Cons.prems f by (intro Cons.prems(1)) auto
  moreover have "length (concat (map enc vs)) < g"
    using Cons.prems(2) f assms(2) [of v] by (cases "enc v") auto
  then have "decs g (length vs) (concat (map enc vs) @ r) = Some (vs, r)"
    using Cons.prems by (intro Cons.IH) auto
  ultimately show ?case using f by simp
qed simp

lemma decm_enc:
  assumes "\<And>k v f r. (k, v) \<in> set m \<Longrightarrow> length (enc v) \<le> f \<Longrightarrow> dec f (enc v @ r) = Some (v, r)"
    and "length (concat (map (\<lambda>(k, v). length k # k @ enc v) m)) < f"
  shows "decm f (length m) (concat (map (\<lambda>(k, v). length k # k @ enc v) m) @ r) = Some (m, r)"
  using assms
proof (induction m arbitrary: f)
  case (Cons e m)
  obtain k v where e: "e = (k, v)" by (cases e)
  let ?rest = "concat (map (\<lambda>(k, v). length k # k @ enc v) m)"
  obtain g where f: "f = Suc g" using Cons.prems(2) by (cases f) auto
  have "dec g (enc v @ ?rest @ r) = Some (v, ?rest @ r)"
    using Cons.prems f e by (intro Cons.prems(1)) auto
  moreover have "decm g (length m) (?rest @ r) = Some (m, r)"
    using Cons.prems f e by (intro Cons.IH) auto
  ultimately show ?case using f e by simp
qed simp

lemma enc_nonempty: "enc v \<noteq> []"
  by (cases v) (auto split: jnumber.split)

lemma dec_enc: "exact_numbers v \<Longrightarrow> length (enc v) \<le> f \<Longrightarrow> dec f (enc v @ r) = Some (v, r)"
proof (induction v arbitrary: f r)
  case (JNum n)
  then show ?case by (cases f; cases n) auto
next
  case (JArr vs)
  then obtain g where f: "f = Suc g" by (cases f) auto
  have "decs g (length vs) (concat (map enc vs) @ r) = Some (vs, r)"
    using JArr f by (intro decs_enc) (auto simp: list_all_iff enc_nonempty)
  with f show ?case by simp
next
  case (JObj m)
  then obtain g where f: "f = Suc g" by (cases f) auto
  have eq: "concat (map (\<lambda>(k, t). length k # k @ t) (map (map_prod id enc) m))
    = concat (map (\<lambda>(k, v). length k # k @ enc v) m)"
    by (induction m) auto
  have "dec f' (enc v @ r') = Some (v, r')" if "(k, v) \<in> set m" "length (enc v) \<le> f'" for k v f' r'
    using that JObj.prems(1) by (intro JObj.IH [of "(k, v)"]) (auto simp: list_all_iff)
  then have "decm g (length m) (concat (map (\<lambda>(k, v). length k # k @ enc v) m) @ r) = Some (m, r)"
    using JObj.prems(2) f eq by (intro decm_enc) auto
  with f eq show ?case by simp
qed (case_tac f; simp)+

definition sample_url :: url where
  "sample_url = \<lparr>url_scheme = u ''https'', url_host = Some (u ''example.org''), url_username = [],
     url_password = None, url_path = u ''/'', url_query = None, url_fragment = None\<rparr>"

definition sample_env :: env where
  "sample_env =
    \<lparr>json_parse = (\<lambda>s. case dec (length s) s of Some (v, []) \<Rightarrow> Some (canonicalize_value v) | _ \<Rightarrow> None),
     json_text = enc,
     digest = (\<lambda>bs. replicate 32 (length bs mod 256)),
     url_parse = (\<lambda>s. if s = u ''https://example.org/'' then Some sample_url else None),
     graphemes = map (\<lambda>c. [c])\<rparr>"

lemma exact_numbers_exact: "exact_json v \<Longrightarrow> exact_numbers v"
  by (induction v) (force simp: list_all_iff split: jnumber.splits)+

lemma sample_codec: "codec_ok sample_env"
proof -
  have "json_parse sample_env (json_text sample_env v) = Some (canonicalize_value v)"
    if "plain_json v" for v
  proof -
    from that have "exact_numbers v" by (simp add: plain_json_def exact_numbers_exact)
    then have "dec (length (enc v)) (enc v) = Some (v, [])"
      using dec_enc [of v "length (enc v)" "[]"] by simp
    then show ?thesis by (simp add: sample_env_def)
  qed
  then show ?thesis
    by (auto simp: codec_ok_def sample_env_def canonicalize_wf split: option.splits list.splits)
qed

lemma sample_digest: "digest_ok sample_env"
  by (auto simp: digest_ok_def sample_env_def)

lemma sample_graphemes: "graphemes_ok sample_env"
  by (auto simp: graphemes_ok_def sample_env_def)

end
