(* ===== verification/Snapshot.thy ===== *)
theory Snapshot
  imports Sample_Env
begin

text \<open>
  The document validator of crates/kernel/src/lib.rs: \<open>validate_snapshot_json\<close> parses an
  editor document, checks it against the small vocabulary (paragraphs, headings, scene
  breaks; text with bold, italic and link marks; hard breaks) and rebuilds it in canonical
  form. Errors carry the path the message names and the kind of the failure. The second half
  states what a receipt promises over a typed document (\<open>block\<close>, \<open>inline\<close>, \<open>mark\<close>):
  every accepted snapshot is the rendering of a well-formed typed document, every such
  document is accepted, and so validation is idempotent on its own output.
\<close>

section \<open>Errors and field access\<close>

datatype snap_error =
    ByteLimit
  | InvalidJson
  | NotObject ustr
  | NotArray ustr
  | Missing ustr ustr
  | NotString ustr ustr
  | UnknownField ustr ustr
  | BadSchemaVersion
  | BadDocType
  | EmptyDocument
  | TooManyBlocks
  | BadId ustr
  | DuplicateId ustr
  | BadLevel ustr
  | UnsupportedNode ustr ustr
  | EmptyText ustr
  | Utf16Overflow
  | Utf16Limit
  | DuplicateMark ustr
  | UnsupportedMark ustr ustr
  | BadHref ustr
  | CountOverflow

type_synonym 'a snap_result = "snap_error + 'a"
type_synonym object = "(ustr \<times> json) list"

definition MAX_RAW_BYTES :: nat where
  "MAX_RAW_BYTES = 2 * 1024 * 1024"

definition MAX_UTF16_UNITS :: nat where
  "MAX_UTF16_UNITS = 1000000"

definition MAX_BLOCKS :: nat where
  "MAX_BLOCKS = 10000"

definition as_object :: "json \<Rightarrow> ustr \<Rightarrow> object snap_result" where
  "as_object v path = ok_or (NotObject path) (as_obj v)"

definition as_array :: "json \<Rightarrow> ustr \<Rightarrow> json list snap_result" where
  "as_array v path = ok_or (NotArray path) (as_arr v)"

definition required :: "object \<Rightarrow> ustr \<Rightarrow> ustr \<Rightarrow> json snap_result" where
  "required obj k path = ok_or (Missing path k) (map_of obj k)"

definition string_field :: "object \<Rightarrow> ustr \<Rightarrow> ustr \<Rightarrow> ustr snap_result" where
  "string_field obj k path =
     and_then (required obj k path) (\<lambda>v. ok_or (NotString path k) (as_str v))"

definition check_fields :: "object \<Rightarrow> ustr list \<Rightarrow> ustr list \<Rightarrow> ustr \<Rightarrow> unit snap_result" where
  "check_fields obj allowed required_fields path =
     and_then
       (try_each (\<lambda>k. ensure (k \<in> set allowed) (UnknownField path k)) (map fst obj))
       (\<lambda>_. try_each (\<lambda>k. ensure (k \<in> fst ` set obj) (Missing path k)) required_fields)"

definition validate_id :: "ustr \<Rightarrow> ustr \<Rightarrow> unit snap_result" where
  "validate_id i path =
    (if i = [] \<or> 64 < blen i \<or> \<not> list_all id_byte (bytes i) then Inl (BadId path) else Inr ())"

section \<open>Links\<close>

text \<open>\<open>str::split\<close> on one character: at least one part, separators removed.\<close>

fun split_on :: "'a \<Rightarrow> 'a list \<Rightarrow> 'a list list" where
  "split_on c [] = [[]]"
| "split_on c (x # xs) =
     (if x = c then [] # split_on c xs
      else (case split_on c xs of [] \<Rightarrow> [[x]] | p # ps \<Rightarrow> (x # p) # ps))"

definition part :: "nat \<Rightarrow> ustr list \<Rightarrow> ustr" where
  "part n ps = (if n < length ps then ps ! n else [])"

definition mailto_bad :: "ustr \<Rightarrow> bool" where
  "mailto_bad address =
    (let parts = split_on 64 address; local = part 0 parts; domain = part 1 parts in
     2 < length parts \<or> local = [] \<or> domain = [] \<or> \<not> contains_str domain (u ''.'') \<or>
     contains_any address [47, 35, 92] \<or> contains_str address (u ''?'') \<or>
     starts_with local (u ''.'') \<or> ends_with local (u ''.'') \<or>
     starts_with domain (u ''.'') \<or> ends_with domain (u ''.''))"

definition validate_href :: "env \<Rightarrow> ustr \<Rightarrow> ustr \<Rightarrow> unit snap_result" where
  "validate_href E href path =
    (if href = [] \<or> list_ex (\<lambda>c. is_control c \<or> is_whitespace c \<or> c = 92) href
     then Inl (BadHref path)
     else
       let lower = to_ascii_lowercase href in
       if starts_with lower (u ''http://'') \<or> starts_with lower (u ''https://'') then
         (case url_parse E href of
            None \<Rightarrow> Inl (BadHref path)
          | Some url \<Rightarrow>
              if url_scheme url \<notin> {u ''http'', u ''https''} \<or> url_host url \<in> {None, Some []}
              then Inl (BadHref path)
              else if url_username url \<noteq> [] \<or> url_password url \<noteq> None then Inl (BadHref path)
              else Inr ())
       else if starts_with lower (u ''mailto:'') then
         if contains_str href (u ''%'') then Inl (BadHref path)
         else
           (case url_parse E href of
              None \<Rightarrow> Inl (BadHref path)
            | Some url \<Rightarrow>
                if url_scheme url \<noteq> u ''mailto'' \<or> url_query url \<noteq> None \<or> url_fragment url \<noteq> None
                then Inl (BadHref path)
                else if mailto_bad (url_path url) then Inl (BadHref path)
                else Inr ())
       else Inl (BadHref path))"

section \<open>Marks\<close>

definition index_path :: "ustr \<Rightarrow> nat \<Rightarrow> ustr" where
  "index_path path i = path @ u ''['' @ show_nat i @ u '']''"

definition mark_rank :: "json \<Rightarrow> nat" where
  "mark_rank v =
    (let t = (case Option.bind (json_get v (u ''type'')) as_str of Some s \<Rightarrow> s | None \<Rightarrow> []) in
     if t = u ''bold'' then 0 else if t = u ''italic'' then 1 else if t = u ''link'' then 2 else 3)"

text \<open>The body of the loop; the state is the set of seen types and the marks parsed so far.\<close>

definition parse_mark ::
  "env \<Rightarrow> ustr \<Rightarrow> ustr list \<times> json list \<Rightarrow> nat \<times> json \<Rightarrow> (ustr list \<times> json list) snap_result" where
  "parse_mark E path st im =
    (case (st, im) of ((seen, parsed), (i, m)) \<Rightarrow>
      let mark_path = index_path path i in
      and_then (as_object m mark_path) (\<lambda>obj.
      and_then (string_field obj (u ''type'') mark_path) (\<lambda>mark_type.
      if mark_type \<in> set seen then Inl (DuplicateMark mark_path)
      else and_then
        (if mark_type = u ''bold'' \<or> mark_type = u ''italic'' then
           and_then (check_fields obj [u ''type''] [u ''type''] mark_path) (\<lambda>_.
           Inr (JObj (obj_of [(u ''type'', JStr mark_type)])))
         else if mark_type = u ''link'' then
           and_then (check_fields obj [u ''type'', u ''attrs''] [u ''type'', u ''attrs''] mark_path) (\<lambda>_.
           let attrs_path = mark_path @ u ''.attrs'' in
           and_then (required obj (u ''attrs'') mark_path) (\<lambda>attrs_value.
           and_then (as_object attrs_value attrs_path) (\<lambda>attrs.
           and_then (check_fields attrs [u ''href''] [u ''href''] attrs_path) (\<lambda>_.
           and_then (string_field attrs (u ''href'') attrs_path) (\<lambda>href.
           and_then (validate_href E href attrs_path) (\<lambda>_.
           Inr (JObj (obj_of [(u ''attrs'', JObj (obj_of [(u ''href'', JStr href)])),
                              (u ''type'', JStr (u ''link''))]))))))))
         else Inl (UnsupportedMark mark_path mark_type))
        (\<lambda>canonical. Inr (mark_type # seen, parsed @ [canonical])))))"

definition parse_marks :: "env \<Rightarrow> json list \<Rightarrow> ustr \<Rightarrow> json list snap_result" where
  "parse_marks E marks path =
    and_then (try_fold (parse_mark E path) ([], []) (List.enumerate 0 marks)) (\<lambda>(seen, parsed).
    Inr (sort_key mark_rank parsed))"

section \<open>Inline nodes\<close>

datatype inline_node = Text ustr "json list" | HardBreak

text \<open>Adding to the UTF-16 counter, with the overflow of \<open>u64\<close> and the document limit.\<close>

definition count_units :: "nat \<Rightarrow> nat \<Rightarrow> nat snap_result" where
  "count_units utf16_units n =
    (if 2 ^ 64 \<le> utf16_units + n then Inl Utf16Overflow
     else if MAX_UTF16_UNITS < utf16_units + n then Inl Utf16Limit
     else Inr (utf16_units + n))"

definition parse_inline :: "env \<Rightarrow> json \<Rightarrow> ustr \<Rightarrow> nat \<Rightarrow> (inline_node \<times> nat) snap_result" where
  "parse_inline E v path utf16_units =
    and_then (as_object v path) (\<lambda>obj.
    and_then (string_field obj (u ''type'') path) (\<lambda>node_type.
    if node_type = u ''text'' then
      and_then (check_fields obj [u ''type'', u ''text'', u ''marks''] [u ''type'', u ''text''] path) (\<lambda>_.
      and_then (string_field obj (u ''text'') path) (\<lambda>text.
      if text = [] then Inl (EmptyText path)
      else
        and_then (count_units utf16_units (utf16_len text)) (\<lambda>units.
        and_then
          (case map_of obj (u ''marks'') of
             None \<Rightarrow> Inr []
           | Some marks \<Rightarrow>
               and_then (as_array marks (path @ u ''.marks'')) (\<lambda>ms.
               parse_marks E ms (path @ u ''.marks'')))
          (\<lambda>marks. Inr (Text text marks, units)))))
    else if node_type = u ''hardBreak'' then
      and_then (check_fields obj [u ''type''] [u ''type''] path) (\<lambda>_.
      and_then (count_units utf16_units 1) (\<lambda>units. Inr (HardBreak, units)))
    else Inl (UnsupportedNode path node_type)))"

definition merge_node :: "inline_node list \<Rightarrow> inline_node \<Rightarrow> inline_node list" where
  "merge_node merged node =
    (case (merged, node) of
       (_ # _, Text text marks) \<Rightarrow>
         (case last merged of
            Text previous_text previous_marks \<Rightarrow>
              if previous_marks = marks
              then butlast merged @ [Text (previous_text @ text) previous_marks]
              else merged @ [node]
          | HardBreak \<Rightarrow> merged @ [node])
     | _ \<Rightarrow> merged @ [node])"

definition merge_adjacent_text :: "inline_node list \<Rightarrow> inline_node list" where
  "merge_adjacent_text nodes = foldl merge_node [] nodes"

fun inline_to_value :: "inline_node \<Rightarrow> json" where
  "inline_to_value HardBreak = JObj (obj_of [(u ''type'', JStr (u ''hardBreak''))])"
| "inline_to_value (Text text marks) =
     canonicalize_value (JObj (obj_of
       ([(u ''text'', JStr text), (u ''type'', JStr (u ''text''))] @
        (if marks \<noteq> [] then [(u ''marks'', JArr marks)] else []))))"

section \<open>Blocks and the document\<close>

text \<open>The loop over the inline nodes of a block, threading the UTF-16 counter.\<close>

definition parse_inlines ::
  "env \<Rightarrow> ustr \<Rightarrow> json list \<Rightarrow> nat \<Rightarrow> (inline_node list \<times> nat) snap_result" where
  "parse_inlines E content_path content utf16_units =
    try_fold (\<lambda>(canonical, units) (i, inline).
        and_then (parse_inline E inline (index_path content_path i) units) (\<lambda>(node, units').
        Inr (canonical @ [node], units')))
      ([], utf16_units) (List.enumerate 0 content)"

text \<open>Reading the identifier of a block and recording it in \<open>ids\<close>.\<close>

definition take_id :: "object \<Rightarrow> ustr \<Rightarrow> ustr list \<Rightarrow> (ustr \<times> ustr list) snap_result" where
  "take_id attrs attrs_path ids =
    and_then (string_field attrs (u ''id'') attrs_path) (\<lambda>i.
    and_then (validate_id i attrs_path) (\<lambda>_.
    if i \<in> set ids then Inl (DuplicateId attrs_path) else Inr (i, i # ids)))"

definition level_entry :: "object \<Rightarrow> ustr \<Rightarrow> (ustr \<times> json) list snap_result" where
  "level_entry attrs attrs_path =
    and_then (ok_or (BadLevel attrs_path) (Option.bind (map_of attrs (u ''level'')) as_u64)) (\<lambda>level.
    if \<not> (1 \<le> level \<and> level \<le> 3) then Inl (BadLevel attrs_path)
    else Inr [(u ''level'', JNum (PosInt level))])"

text \<open>The optional \<open>content\<close> of a paragraph or heading, merged; an absent one is empty.\<close>

definition parse_content ::
  "env \<Rightarrow> object \<Rightarrow> ustr \<Rightarrow> nat \<Rightarrow> (inline_node list \<times> nat) snap_result" where
  "parse_content E obj path utf16_units =
    (case map_of obj (u ''content'') of
       None \<Rightarrow> Inr ([], utf16_units)
     | Some content_value \<Rightarrow>
         and_then (as_array content_value (path @ u ''.content'')) (\<lambda>content.
         and_then (parse_inlines E (path @ u ''.content'') content utf16_units) (\<lambda>(canonical, units).
         Inr (merge_adjacent_text canonical, units))))"

definition parse_block ::
  "env \<Rightarrow> json \<Rightarrow> nat \<Rightarrow> ustr list \<times> nat \<Rightarrow> (json \<times> (ustr list \<times> nat)) snap_result" where
  "parse_block E v i st =
    (case st of (ids, utf16_units) \<Rightarrow>
      let path = index_path (u ''document.body.content'') i; attrs_path = path @ u ''.attrs'' in
      and_then (as_object v path) (\<lambda>obj.
      and_then (string_field obj (u ''type'') path) (\<lambda>node_type.
      if node_type = u ''paragraph'' \<or> node_type = u ''heading'' then
        and_then (check_fields obj [u ''type'', u ''attrs'', u ''content''] [u ''type'', u ''attrs''] path) (\<lambda>_.
        and_then (required obj (u ''attrs'') path) (\<lambda>attrs_value.
        and_then (as_object attrs_value attrs_path) (\<lambda>attrs.
        and_then
          (if node_type = u ''heading''
           then check_fields attrs [u ''id'', u ''level''] [u ''id'', u ''level''] attrs_path
           else check_fields attrs [u ''id''] [u ''id''] attrs_path) (\<lambda>_.
        and_then (take_id attrs attrs_path ids) (\<lambda>(id', ids').
        and_then (if node_type = u ''heading'' then level_entry attrs attrs_path else Inr []) (\<lambda>lv.
        and_then (parse_content E obj path utf16_units) (\<lambda>(content, units).
        Inr (canonicalize_value (JObj (obj_of
               ([(u ''attrs'', JObj (obj_of ((u ''id'', JStr id') # lv)))] @
                (if content \<noteq> [] then [(u ''content'', JArr (map inline_to_value content))] else []) @
                [(u ''type'', JStr node_type)]))),
             (ids', units)))))))))
      else if node_type = u ''sceneBreak'' then
        and_then (check_fields obj [u ''type'', u ''attrs''] [u ''type'', u ''attrs''] path) (\<lambda>_.
        and_then (required obj (u ''attrs'') path) (\<lambda>attrs_value.
        and_then (as_object attrs_value attrs_path) (\<lambda>attrs.
        and_then (check_fields attrs [u ''id''] [u ''id''] attrs_path) (\<lambda>_.
        and_then (take_id attrs attrs_path ids) (\<lambda>(id', ids').
        Inr (canonicalize_value (JObj (obj_of
               [(u ''attrs'', JObj (obj_of [(u ''id'', JStr id')])),
                (u ''type'', JStr (u ''sceneBreak''))])), (ids', utf16_units)))))))
      else Inl (UnsupportedNode path node_type))))"

record snapshot_receipt =
  snapshot :: json
  canonical_json :: ustr
  hash :: ustr
  utf16_units :: nat
  block_count :: nat

definition parse_blocks :: "env \<Rightarrow> json list \<Rightarrow> (json list \<times> (ustr list \<times> nat)) snap_result" where
  "parse_blocks E blocks =
    try_fold (\<lambda>(canonical, st) (i, block).
        and_then (parse_block E block i st) (\<lambda>(b, st'). Inr (canonical @ [b], st')))
      ([], ([], 0)) (List.enumerate 0 blocks)"

definition snapshot_value :: "json list \<Rightarrow> json" where
  "snapshot_value canonical_blocks =
    canonicalize_value (JObj (obj_of
      [(u ''body'', JObj (obj_of [(u ''content'', JArr canonical_blocks), (u ''type'', JStr (u ''doc''))])),
       (u ''schemaVersion'', JNum (PosInt 1))]))"

definition validate_snapshot_json :: "env \<Rightarrow> ustr \<Rightarrow> snapshot_receipt snap_result" where
  "validate_snapshot_json E input =
    (if MAX_RAW_BYTES < blen input then Inl ByteLimit
     else
       and_then (ok_or InvalidJson (json_parse E input)) (\<lambda>parsed.
       and_then (as_object parsed (u ''document'')) (\<lambda>root.
       and_then (check_fields root [u ''schemaVersion'', u ''body''] [u ''schemaVersion'', u ''body'']
                   (u ''document'')) (\<lambda>_.
       if Option.bind (map_of root (u ''schemaVersion'')) as_u64 \<noteq> Some 1 then Inl BadSchemaVersion
       else
       and_then (required root (u ''body'') (u ''document'')) (\<lambda>body_value.
       and_then (as_object body_value (u ''document.body'')) (\<lambda>body.
       and_then (check_fields body [u ''type'', u ''content''] [u ''type'', u ''content'']
                   (u ''document.body'')) (\<lambda>_.
       and_then (string_field body (u ''type'') (u ''document.body'')) (\<lambda>doc_type.
       if doc_type \<noteq> u ''doc'' then Inl BadDocType
       else
       and_then (required body (u ''content'') (u ''document.body'')) (\<lambda>content.
       and_then (as_array content (u ''document.body.content'')) (\<lambda>blocks.
       if blocks = [] then Inl EmptyDocument
       else if MAX_BLOCKS < length blocks then Inl TooManyBlocks
       else
       and_then (parse_blocks E blocks) (\<lambda>(canonical_blocks, (ids, units)).
       let snap = snapshot_value canonical_blocks; text = json_text E snap in
       if 2 ^ 32 \<le> units \<or> 2 ^ 32 \<le> length blocks then Inl CountOverflow
       else Inr \<lparr>snapshot = snap, canonical_json = text, hash = sha256_hex E (bytes text),
                 utf16_units = units, block_count = length blocks\<rparr>)))))))))))"

section \<open>The typed document\<close>

text \<open>What a document means: the specification the receipts are measured against.\<close>

datatype mark = Bold | Italic | Link ustr

datatype inline = Run ustr "mark list" | Break

datatype block =
    Paragraph ustr "inline list"
  | Heading ustr u64 "inline list"
  | SceneBreak ustr

fun mark_type :: "mark \<Rightarrow> ustr" where
  "mark_type Bold = u ''bold''"
| "mark_type Italic = u ''italic''"
| "mark_type (Link h) = u ''link''"

fun rank :: "mark \<Rightarrow> nat" where
  "rank Bold = 0"
| "rank Italic = 1"
| "rank (Link h) = 2"

fun mark_value :: "mark \<Rightarrow> json" where
  "mark_value Bold = JObj [(u ''type'', JStr (u ''bold''))]"
| "mark_value Italic = JObj [(u ''type'', JStr (u ''italic''))]"
| "mark_value (Link h) =
     JObj [(u ''attrs'', JObj [(u ''href'', JStr h)]), (u ''type'', JStr (u ''link''))]"

fun node_of :: "inline \<Rightarrow> inline_node" where
  "node_of (Run t ms) = Text t (map mark_value ms)"
| "node_of Break = HardBreak"

fun inline_value :: "inline \<Rightarrow> json" where
  "inline_value Break = JObj [(u ''type'', JStr (u ''hardBreak''))]"
| "inline_value (Run t ms) =
     JObj ((if ms = [] then [] else [(u ''marks'', JArr (map mark_value ms))]) @
           [(u ''text'', JStr t), (u ''type'', JStr (u ''text''))])"

definition content_entry :: "inline list \<Rightarrow> object" where
  "content_entry xs = (if xs = [] then [] else [(u ''content'', JArr (map inline_value xs))])"

fun block_value :: "block \<Rightarrow> json" where
  "block_value (Paragraph i xs) =
     JObj ((u ''attrs'', JObj [(u ''id'', JStr i)]) # content_entry xs @ [(u ''type'', JStr (u ''paragraph''))])"
| "block_value (Heading i l xs) =
     JObj ((u ''attrs'', JObj [(u ''id'', JStr i), (u ''level'', JNum (PosInt l))])
       # content_entry xs @ [(u ''type'', JStr (u ''heading''))])"
| "block_value (SceneBreak i) =
     JObj [(u ''attrs'', JObj [(u ''id'', JStr i)]), (u ''type'', JStr (u ''sceneBreak''))]"

definition document_value :: "block list \<Rightarrow> json" where
  "document_value bs =
     JObj [(u ''body'', JObj [(u ''content'', JArr (map block_value bs)), (u ''type'', JStr (u ''doc''))]),
           (u ''schemaVersion'', JNum (PosInt 1))]"

fun block_id :: "block \<Rightarrow> ustr" where
  "block_id (Paragraph i xs) = i"
| "block_id (Heading i l xs) = i"
| "block_id (SceneBreak i) = i"

fun block_inlines :: "block \<Rightarrow> inline list" where
  "block_inlines (Paragraph i xs) = xs"
| "block_inlines (Heading i l xs) = xs"
| "block_inlines (SceneBreak i) = []"

fun inline_units :: "inline \<Rightarrow> nat" where
  "inline_units (Run t ms) = utf16_len t"
| "inline_units Break = 1"

definition block_units :: "block \<Rightarrow> nat" where
  "block_units b = sum_list (map inline_units (block_inlines b))"

definition document_units :: "block list \<Rightarrow> nat" where
  "document_units bs = sum_list (map block_units bs)"

definition href_ok :: "env \<Rightarrow> ustr \<Rightarrow> bool" where
  "href_ok E h \<longleftrightarrow> is_ok (validate_href E h [])"

fun mark_ok :: "env \<Rightarrow> mark \<Rightarrow> bool" where
  "mark_ok E (Link h) \<longleftrightarrow> href_ok E h"
| "mark_ok E _ \<longleftrightarrow> True"

text \<open>Marks in rank order, at most one of each type.\<close>

definition marks_ok :: "env \<Rightarrow> mark list \<Rightarrow> bool" where
  "marks_ok E ms \<longleftrightarrow> sorted_wrt (<) (map rank ms) \<and> list_all (mark_ok E) ms"

fun inline_ok :: "env \<Rightarrow> inline \<Rightarrow> bool" where
  "inline_ok E (Run t ms) \<longleftrightarrow> t \<noteq> [] \<and> marks_ok E ms"
| "inline_ok E Break \<longleftrightarrow> True"

text \<open>No two neighbouring runs carry the same marks.\<close>

fun same_marks :: "inline \<Rightarrow> inline \<Rightarrow> bool" where
  "same_marks (Run s ms) (Run t ns) \<longleftrightarrow> ms = ns"
| "same_marks _ _ \<longleftrightarrow> False"

definition unmergeable :: "inline list \<Rightarrow> bool" where
  "unmergeable xs \<longleftrightarrow> successively (\<lambda>x y. \<not> same_marks x y) xs"

fun block_ok :: "env \<Rightarrow> block \<Rightarrow> bool" where
  "block_ok E (Heading i l xs) \<longleftrightarrow>
     valid_id i \<and> 1 \<le> l \<and> l \<le> 3 \<and> list_all (inline_ok E) xs \<and> unmergeable xs"
| "block_ok E (Paragraph i xs) \<longleftrightarrow> valid_id i \<and> list_all (inline_ok E) xs \<and> unmergeable xs"
| "block_ok E (SceneBreak i) \<longleftrightarrow> valid_id i"

definition document_ok :: "env \<Rightarrow> block list \<Rightarrow> bool" where
  "document_ok E bs \<longleftrightarrow>
     bs \<noteq> [] \<and> length bs \<le> MAX_BLOCKS \<and> distinct (map block_id bs) \<and>
     document_units bs \<le> MAX_UTF16_UNITS \<and> list_all (block_ok E) bs"

section \<open>Literal keys\<close>

text \<open>The maps the code builds, in the order a \<open>BTreeMap\<close> keeps them.\<close>

named_theorems literal_maps \<open>maps with literal keys\<close>

lemma bytes_u: "list_all (\<lambda>c. c < 128) (u s) \<Longrightarrow> bytes (u s) = u s"
  by (rule ascii_bytes)

lemma key_order [literal_maps]:
  "bytes (u ''attrs'') < bytes (u ''type'')" "bytes (u ''attrs'') < bytes (u ''content'')"
  "bytes (u ''content'') < bytes (u ''type'')" "bytes (u ''text'') < bytes (u ''type'')"
  "bytes (u ''marks'') < bytes (u ''text'')" "bytes (u ''marks'') < bytes (u ''type'')"
  "bytes (u ''id'') < bytes (u ''level'')" "bytes (u ''body'') < bytes (u ''schemaVersion'')"
  by (simp_all add: u_def)

lemma obj_of_Cons: "obj_of (kvs @ [(k, v)]) = obj_insert k v (obj_of kvs)"
  by (rule obj_of_snoc)

lemma obj_of_eval [literal_maps]:
  "obj_of [] = []"
  "obj_of [(k, v)] = [(k, v)]"
  "bytes k < bytes l \<Longrightarrow> obj_of [(k, v), (l, w)] = [(k, v), (l, w)]"
  "bytes k < bytes l \<Longrightarrow> bytes l < bytes m \<Longrightarrow> bytes k < bytes m \<Longrightarrow>
   obj_of [(k, v), (l, w), (m, x)] = [(k, v), (l, w), (m, x)]"
  by (auto intro!: obj_of_sorted)

lemma obj_of_text [literal_maps]:
  "obj_of [(u ''text'', v), (u ''type'', w), (u ''marks'', x)]
     = [(u ''marks'', x), (u ''text'', v), (u ''type'', w)]"
  by (simp add: obj_of_def u_def)

lemma as_object_ok [simp]: "as_object v p = Inr m \<longleftrightarrow> v = JObj m"
  by (simp add: as_object_def)

lemma as_object_JObj [simp]: "as_object (JObj m) p = Inr m"
  by simp

lemma as_array_ok [simp]: "as_array v p = Inr vs \<longleftrightarrow> v = JArr vs"
  by (simp add: as_array_def)

lemma required_ok [simp]: "required m k p = Inr v \<longleftrightarrow> map_of m k = Some v"
  by (simp add: required_def)

lemma string_field_ok [simp]: "string_field m k p = Inr s \<longleftrightarrow> map_of m k = Some (JStr s)"
  by (auto simp: string_field_def and_then_eq_Inr)

lemma field_eval [simp]:
  "as_array (JArr vs) p = Inr vs"
  "map_of m k = Some v \<Longrightarrow> required m k p = Inr v"
  "map_of m k = Some (JStr s) \<Longrightarrow> string_field m k p = Inr s"
  by simp_all

lemma check_fields_ok [simp]:
  "check_fields m allowed req p = Inr r \<longleftrightarrow>
     fst ` set m \<subseteq> set allowed \<and> set req \<subseteq> fst ` set m"
  by (auto simp: check_fields_def and_then_eq_Inr try_each_eq_Inr)

lemma check_fields_eval [simp]:
  "fst ` set m \<subseteq> set allowed \<Longrightarrow> set req \<subseteq> fst ` set m \<Longrightarrow> check_fields m allowed req p = Inr ()"
  by simp

lemma validate_id_ok [simp]: "validate_id i p = Inr r \<longleftrightarrow> valid_id i"
  by (auto simp: validate_id_def valid_id_def)

lemma validate_id_eval [simp]: "valid_id i \<Longrightarrow> validate_id i p = Inr ()"
  by simp

lemma validate_href_path: "validate_href E h p = Inr r \<longleftrightarrow> href_ok E h"
  by (auto simp: href_ok_def validate_href_def Let_def is_ok_def split: option.split)

section \<open>Marks\<close>

lemma mark_value_inj [simp]: "mark_value a = mark_value b \<longleftrightarrow> a = b"
  by (cases a; cases b) auto

lemma map_mark_value_inj [simp]: "map mark_value a = map mark_value b \<longleftrightarrow> a = b"
  by (simp add: inj_on_def inj_map_eq_map)

lemma mark_rank_value [simp]: "mark_rank (mark_value m) = rank m"
  by (cases m) (simp_all add: mark_rank_def)

lemma mark_type_rank: "mark_type a = mark_type b \<longleftrightarrow> rank a = rank b"
  by (cases a; cases b) auto

lemma parse_mark_value:
  assumes "mark_ok E m" and "mark_type m \<notin> set seen"
  shows "parse_mark E p (seen, parsed) (i, mark_value m)
    = Inr (mark_type m # seen, parsed @ [mark_value m])"
proof (cases m)
  case (Link h)
  with assms have "validate_href E h q = Inr ()" for q by (simp add: validate_href_path)
  with Link assms show ?thesis
    by (simp add: parse_mark_def Let_def and_then_eq_Inr literal_maps)
qed (use assms in \<open>simp_all add: parse_mark_def Let_def and_then_eq_Inr literal_maps\<close>)

lemma parse_mark_ok:
  assumes "parse_mark E p (seen, parsed) (i, v) = Inr st"
  obtains m where "mark_ok E m" "mark_type m \<notin> set seen"
    "st = (mark_type m # seen, parsed @ [mark_value m])"
proof -
  from assms obtain obj t where v: "v = JObj obj" "map_of obj (u ''type'') = Some (JStr t)"
    "t \<notin> set seen"
    by (auto simp: parse_mark_def Let_def and_then_eq_Inr split: if_splits)
  consider "t = u ''bold''" | "t = u ''italic''" | "t = u ''link''"
    using assms v by (auto simp: parse_mark_def Let_def split: if_splits)
  then show ?thesis
  proof cases
    case 1
    with assms v show ?thesis
      by (intro that [of Bold]) (auto simp: parse_mark_def Let_def and_then_eq_Inr literal_maps)
  next
    case 2
    with assms v show ?thesis
      by (intro that [of Italic]) (auto simp: parse_mark_def Let_def and_then_eq_Inr literal_maps)
  next
    case 3
    with assms v obtain h where "href_ok E h"
      "st = (u ''link'' # seen, parsed @ [mark_value (Link h)])"
      by (auto simp: parse_mark_def Let_def and_then_eq_Inr literal_maps validate_href_path)
    with 3 v show ?thesis by (intro that [of "Link h"]) auto
  qed
qed

definition marks_state :: "env \<Rightarrow> ustr list \<times> json list \<Rightarrow> bool" where
  "marks_state E st \<longleftrightarrow>
     (\<exists>ms. st = (rev (map mark_type ms), map mark_value ms) \<and>
           distinct (map mark_type ms) \<and> list_all (mark_ok E) ms)"

lemma marks_state_loop:
  "try_fold (parse_mark E p) st ivs = Inr st' \<Longrightarrow> marks_state E st \<Longrightarrow> marks_state E st'"
proof (erule try_fold_invariant)
  fix s x s' assume s: "marks_state E s" and step: "parse_mark E p s x = Inr s'"
  then obtain ms where ms: "s = (rev (map mark_type ms), map mark_value ms)"
    "distinct (map mark_type ms)" "list_all (mark_ok E) ms"
    by (auto simp: marks_state_def)
  from step obtain m where "mark_ok E m" "mark_type m \<notin> set (rev (map mark_type ms))"
    "s' = (mark_type m # rev (map mark_type ms), map mark_value ms @ [mark_value m])"
    unfolding ms(1) by (cases x) (auto elim: parse_mark_ok)
  with ms show "marks_state E s'"
    unfolding marks_state_def by (intro exI [of _ "ms @ [m]"]) auto
qed

lemma sort_key_mark_values:
  "sort_key mark_rank (map mark_value ms) = map mark_value (sort_key rank ms)"
proof -
  have "insort_key mark_rank (mark_value m) (map mark_value xs) = map mark_value (insort_key rank m xs)"
    for m xs by (induction xs) auto
  then show ?thesis by (induction ms) auto
qed

lemma distinct_types_ranks: "distinct (map mark_type ms) \<longleftrightarrow> distinct (map rank ms)"
  by (induction ms) (auto simp: image_iff mark_type_rank)

lemma parse_marks_ok:
  assumes "parse_marks E vs p = Inr out"
  obtains ms where "out = map mark_value ms" "marks_ok E ms"
proof -
  from assms obtain st where "try_fold (parse_mark E p) ([], []) (List.enumerate 0 vs) = Inr st"
    and out: "out = sort_key mark_rank (snd st)"
    by (auto simp: parse_marks_def and_then_eq_Inr)
  moreover have "marks_state E ([], [])" by (simp add: marks_state_def)
  ultimately have "marks_state E st" using marks_state_loop by blast
  then obtain ms where ms: "snd st = map mark_value ms" "distinct (map rank ms)"
    "list_all (mark_ok E) ms"
    by (auto simp: marks_state_def distinct_types_ranks)
  have "sorted (map rank (sort_key rank ms))" by simp
  moreover have "distinct (map rank (sort_key rank ms))"
    using ms(2) by (simp add: distinct_map)
  ultimately have "marks_ok E (sort_key rank ms)"
    using ms(3) by (simp add: marks_ok_def strict_sorted_iff list_all_iff)
  with out ms(1) show ?thesis by (intro that [of "sort_key rank ms"]) (auto simp: sort_key_mark_values)
qed

lemma parse_marks_loop:
  "list_all (mark_ok E) ms \<Longrightarrow> distinct (map mark_type ms) \<Longrightarrow>
   set (map mark_type ms) \<inter> set seen = {} \<Longrightarrow>
   try_fold (parse_mark E p) (seen, parsed) (List.enumerate n (map mark_value ms))
     = Inr (rev (map mark_type ms) @ seen, parsed @ map mark_value ms)"
proof (induction ms arbitrary: n seen parsed)
  case (Cons m ms)
  from Cons.prems have "parse_mark E p (seen, parsed) (n, mark_value m)
      = Inr (mark_type m # seen, parsed @ [mark_value m])"
    by (intro parse_mark_value) auto
  with Cons show ?case by simp
qed simp

lemma parse_marks_value:
  assumes "marks_ok E ms"
  shows "parse_marks E (map mark_value ms) p = Inr (map mark_value ms)"
proof -
  from assms have "sorted (map rank ms)" "distinct (map rank ms)" "list_all (mark_ok E) ms"
    by (auto simp: marks_ok_def strict_sorted_iff)
  moreover from this have "sort_key rank ms = ms" by (simp add: sort_key_id_if_sorted)
  ultimately show ?thesis
    by (simp add: parse_marks_def parse_marks_loop distinct_types_ranks sort_key_mark_values)
qed

section \<open>Inline nodes\<close>

lemma count_units_ok [simp]:
  "count_units n k = Inr m \<longleftrightarrow> m = n + k \<and> m \<le> MAX_UTF16_UNITS"
  by (auto simp: count_units_def MAX_UTF16_UNITS_def)

lemma parse_inline_ok:
  assumes "parse_inline E v p n = Inr (node, n')"
  obtains x where "node = node_of x" "inline_ok E x" "n' = n + inline_units x" "n' \<le> MAX_UTF16_UNITS"
proof -
  from assms obtain obj t where v: "v = JObj obj" "map_of obj (u ''type'') = Some (JStr t)"
    by (auto simp: parse_inline_def and_then_eq_Inr)
  consider "t = u ''text''" | "t = u ''hardBreak''"
    using assms v by (auto simp: parse_inline_def and_then_eq_Inr split: if_splits)
  then show ?thesis
  proof cases
    case 1
    with assms v obtain tx marks where node: "node = Text tx marks" "tx \<noteq> []"
      "n' = n + utf16_len tx" "n' \<le> MAX_UTF16_UNITS"
      and marks: "marks = [] \<or> (\<exists>ms q. parse_marks E ms q = Inr marks)"
      by (auto simp: parse_inline_def and_then_eq_Inr split: if_splits option.splits)
    from marks obtain ms where "marks = map mark_value ms" "marks_ok E ms"
      by (elim disjE exE) (auto simp: marks_ok_def elim: parse_marks_ok)
    with node show ?thesis by (intro that [of "Run tx ms"]) auto
  next
    case 2
    with assms v show ?thesis
      by (intro that [of Break]) (auto simp: parse_inline_def and_then_eq_Inr)
  qed
qed

lemma parse_inline_value:
  assumes "inline_ok E x" and "n + inline_units x \<le> MAX_UTF16_UNITS"
  shows "parse_inline E (inline_value x) p n = Inr (node_of x, n + inline_units x)"
proof (cases x)
  case (Run t ms)
  with assms have "parse_marks E (map mark_value ms) q = Inr (map mark_value ms)" for q
    by (simp add: parse_marks_value)
  with Run assms show ?thesis
    by (cases "ms = []") (auto simp: parse_inline_def and_then_eq_Inr)
next
  case Break
  with assms show ?thesis
    by (auto simp: parse_inline_def and_then_eq_Inr)
qed

section \<open>Merging adjacent text\<close>

fun mergeable :: "inline_node \<Rightarrow> inline_node \<Rightarrow> bool" where
  "mergeable (Text s ms) (Text t ns) \<longleftrightarrow> ms = ns"
| "mergeable _ _ \<longleftrightarrow> False"

definition unmerged :: "inline_node list \<Rightarrow> bool" where
  "unmerged xs \<longleftrightarrow> successively (\<lambda>x y. \<not> mergeable x y) xs"

fun node_units :: "inline_node \<Rightarrow> nat" where
  "node_units (Text t ms) = utf16_len t"
| "node_units HardBreak = 1"

lemma unmerged_snoc:
  "unmerged (xs @ [x]) \<longleftrightarrow> unmerged xs \<and> (xs = [] \<or> \<not> mergeable (last xs) x)"
  by (auto simp: unmerged_def successively_append_iff)

lemma merge_node_nonempty:
  "xs \<noteq> [] \<Longrightarrow> merge_node xs x =
     (case (last xs, x) of
        (Text s ms, Text t ns) \<Rightarrow>
          if ms = ns then butlast xs @ [Text (s @ t) ms] else xs @ [x]
      | _ \<Rightarrow> xs @ [x])"
  by (cases xs; cases x) (auto simp: merge_node_def split: inline_node.split)

lemma merge_node_cases:
  obtains (append) "merge_node xs x = xs @ [x]" "xs = [] \<or> \<not> mergeable (last xs) x"
  | (join) ys s t ms where "xs = ys @ [Text s ms]" "x = Text t ms"
      "merge_node xs x = ys @ [Text (s @ t) ms]"
proof (cases xs rule: rev_cases)
  case Nil
  then show ?thesis by (intro append) (auto simp: merge_node_def)
next
  case (snoc ys y)
  show ?thesis
  proof (cases "mergeable y x")
    case True
    then obtain s t ms where "y = Text s ms" "x = Text t ms" by (cases y; cases x) auto
    with snoc show ?thesis by (intro join) (auto simp: merge_node_nonempty)
  next
    case False
    with snoc show ?thesis
      by (intro append) (auto simp: merge_node_nonempty split: inline_node.split)
  qed
qed

lemma merge_snoc: "merge_adjacent_text (xs @ [x]) = merge_node (merge_adjacent_text xs) x"
  by (simp add: merge_adjacent_text_def)

lemma merge_Nil [simp]: "merge_adjacent_text [] = []"
  by (simp add: merge_adjacent_text_def)

lemma merge_unmerged: "unmerged (merge_adjacent_text xs)"
proof (induction xs rule: rev_induct)
  case (snoc x xs)
  have "mergeable y (Text (s @ t) ms) = mergeable y (Text s ms)" for y s t ms
    by (cases y) auto
  with snoc show ?case
    by (cases rule: merge_node_cases [of "merge_adjacent_text xs" x])
      (auto simp: merge_snoc unmerged_snoc)
qed (simp add: unmerged_def)

lemma merge_fixed: "unmerged xs \<Longrightarrow> merge_adjacent_text xs = xs"
proof (induction xs rule: rev_induct)
  case (snoc x xs)
  then have "merge_adjacent_text xs = xs" "xs = [] \<or> \<not> mergeable (last xs) x"
    by (auto simp: unmerged_snoc)
  then show ?case
    by (cases rule: merge_node_cases [of xs x]) (auto simp: merge_snoc)
qed simp

interpretation merged: normal_form merge_adjacent_text unmerged
  by unfold_locales (auto simp: merge_unmerged merge_fixed)

lemma merge_units: "sum_list (map node_units (merge_adjacent_text xs)) = sum_list (map node_units xs)"
proof (induction xs rule: rev_induct)
  case (snoc x xs)
  then show ?case
    by (cases rule: merge_node_cases [of "merge_adjacent_text xs" x]) (auto simp: merge_snoc)
qed simp

definition nodes_of :: "env \<Rightarrow> inline_node list \<Rightarrow> inline list \<Rightarrow> bool" where
  "nodes_of E ns xs \<longleftrightarrow> ns = map node_of xs \<and> list_all (inline_ok E) xs"

lemma merge_nodes_of:
  assumes "list_all (inline_ok E) xs"
  shows "\<exists>ys. nodes_of E (merge_adjacent_text (map node_of xs)) ys"
  using assms
proof (induction xs rule: rev_induct)
  case (snoc x xs)
  then obtain ys where ys: "merge_adjacent_text (map node_of xs) = map node_of ys"
    "list_all (inline_ok E) ys" "inline_ok E x" by (auto simp: nodes_of_def)
  show ?case
  proof (cases rule: merge_node_cases [of "map node_of ys" "node_of x"])
    case append
    with ys show ?thesis
      by (intro exI [of _ "ys @ [x]"]) (auto simp: nodes_of_def merge_snoc)
  next
    case (join zs s t ms)
    then obtain ws y where w: "ys = ws @ [y]" "zs = map node_of ws" "node_of y = Text s ms"
      by (auto simp: map_eq_append_conv)
    from w(3) obtain ks where "y = Run s ks" "ms = map mark_value ks" by (cases y) auto
    with join ys w show ?thesis
      by (intro exI [of _ "ws @ [Run (s @ t) ks]"]) (cases x; auto simp: nodes_of_def merge_snoc)
  qed
qed (auto simp: nodes_of_def intro!: exI [of _ "[]"])

lemma mergeable_node_of [simp]: "mergeable (node_of x) (node_of y) = same_marks x y"
  by (cases x; cases y) auto

lemma unmerged_nodes: "unmerged (map node_of xs) \<longleftrightarrow> unmergeable xs"
  by (simp add: unmerged_def unmergeable_def successively_map)

lemma node_units_of [simp]: "node_units (node_of x) = inline_units x"
  by (cases x) auto

lemma wf_mark_value [simp]: "wf_json (mark_value m)"
  by (cases m) (auto simp: literal_maps)

lemma inline_to_value_node: "inline_to_value (node_of x) = inline_value x"
proof (cases x)
  case (Run t ms)
  have "wf_json (inline_value x)"
    using Run by (auto simp: literal_maps)
  then have "canonicalize_value (inline_value x) = inline_value x" by (rule canon.nf_fixed)
  with Run show ?thesis
    by (cases "ms = []") (auto simp: literal_maps simp del: canonicalize_value.simps)
qed (simp add: literal_maps)

section \<open>Blocks\<close>

lemma parse_inlines_ok:
  assumes "parse_inlines E p vs n = Inr (nodes, n')"
  shows "\<exists>xs. nodes_of E nodes xs \<and> n' = n + sum_list (map inline_units xs) \<and>
    (n \<le> MAX_UTF16_UNITS \<longrightarrow> n' \<le> MAX_UTF16_UNITS)"
proof -
  let ?P = "\<lambda>(nodes, m). \<exists>xs. nodes_of E nodes xs \<and> m = n + sum_list (map inline_units xs) \<and>
    (n \<le> MAX_UTF16_UNITS \<longrightarrow> m \<le> MAX_UTF16_UNITS)"
  have "?P (nodes, n')"
    using assms unfolding parse_inlines_def
  proof (rule try_fold_invariant)
    show "?P ([], n)" by (auto simp: nodes_of_def)
  next
    fix s x s'
    assume s: "?P s" and step: "(case s of (canonical, units) \<Rightarrow> \<lambda>(i, inline).
        and_then (parse_inline E inline (index_path p i) units) (\<lambda>(node, units').
        Inr (canonical @ [node], units'))) x = Inr s'"
    obtain ns m i v where sx: "s = (ns, m)" "x = (i, v)" by (metis surj_pair)
    from step sx obtain node m' where inl: "parse_inline E v (index_path p i) m = Inr (node, m')"
      and s': "s' = (ns @ [node], m')" by (auto simp: and_then_eq_Inr)
    from s sx obtain xs where "nodes_of E ns xs" "m = n + sum_list (map inline_units xs)" by auto
    with inl s' show "?P s'"
      by (elim parse_inline_ok) (auto simp: nodes_of_def intro!: exI [of _ "xs @ [_]"])
  qed
  then show ?thesis by simp
qed

lemma parse_inlines_value:
  assumes "list_all (inline_ok E) xs" and "n + sum_list (map inline_units xs) \<le> MAX_UTF16_UNITS"
  shows "parse_inlines E p (map inline_value xs) n
    = Inr (map node_of xs, n + sum_list (map inline_units xs))"
proof -
  have "try_fold (\<lambda>(canonical, units) (i, inline).
        and_then (parse_inline E inline (index_path p i) units) (\<lambda>(node, units').
        Inr (canonical @ [node], units')))
      (ns, n) (List.enumerate k (map inline_value xs))
    = Inr (ns @ map node_of xs, n + sum_list (map inline_units xs))" for ns k
    using assms
  proof (induction xs arbitrary: ns k n)
    case (Cons x xs)
    from Cons.prems have "parse_inline E (inline_value x) q n = Inr (node_of x, n + inline_units x)" for q
      by (intro parse_inline_value) auto
    with Cons show ?case by (simp add: add.assoc)
  qed simp
  from this [of "[]"] show ?thesis by (simp add: parse_inlines_def)
qed

lemma take_id_ok [simp]:
  "take_id attrs p ids = Inr (i, ids') \<longleftrightarrow>
     map_of attrs (u ''id'') = Some (JStr i) \<and> valid_id i \<and> i \<notin> set ids \<and> ids' = i # ids"
  by (auto simp: take_id_def and_then_eq_Inr)

lemma level_entry_ok [simp]:
  "level_entry attrs p = Inr lv \<longleftrightarrow>
     (\<exists>l. map_of attrs (u ''level'') = Some (JNum (PosInt l)) \<and> 1 \<le> l \<and> l \<le> 3 \<and>
          lv = [(u ''level'', JNum (PosInt l))])"
  by (cases "Option.bind (map_of attrs (u ''level'')) as_u64")
    (auto simp: level_entry_def bind_eq_Some_conv split: if_splits)

lemma wf_inline_value [simp]: "wf_json (inline_value x)"
  by (cases x) (auto simp: literal_maps)

lemma wf_block_value [simp]: "wf_json (block_value b)"
  by (cases b) (auto simp: literal_maps content_entry_def)

lemma wf_document_value [simp]: "wf_json (document_value bs)"
  by (auto simp: document_value_def literal_maps)

text \<open>The object built for a block is already in key order.\<close>

lemma built_block:
  "canonicalize_value (JObj (obj_of ([(u ''attrs'', JObj (obj_of [(u ''id'', JStr i)]))] @
      (if map node_of xs \<noteq> [] then [(u ''content'', JArr (map inline_to_value (map node_of xs)))] else []) @
      [(u ''type'', JStr (u ''paragraph''))]))) = block_value (Paragraph i xs)"
  "canonicalize_value (JObj (obj_of ([(u ''attrs'', JObj (obj_of [(u ''id'', JStr i), (u ''level'', JNum (PosInt l))]))] @
      (if map node_of xs \<noteq> [] then [(u ''content'', JArr (map inline_to_value (map node_of xs)))] else []) @
      [(u ''type'', JStr (u ''heading''))]))) = block_value (Heading i l xs)"
  "canonicalize_value (JObj (obj_of [(u ''attrs'', JObj (obj_of [(u ''id'', JStr i)])),
      (u ''type'', JStr (u ''sceneBreak''))])) = block_value (SceneBreak i)"
  using canon.nf_fixed [OF wf_block_value [of "Paragraph i xs"]]
    canon.nf_fixed [OF wf_block_value [of "Heading i l xs"]]
    canon.nf_fixed [OF wf_block_value [of "SceneBreak i"]]
  by (auto simp: literal_maps content_entry_def inline_to_value_node comp_def
      simp del: canonicalize_value.simps)

lemma parse_content_ok:
  assumes "parse_content E obj p n = Inr (nodes, n')"
  shows "\<exists>xs. nodes_of E nodes xs \<and> unmergeable xs \<and> n' = n + sum_list (map inline_units xs) \<and>
    (n \<le> MAX_UTF16_UNITS \<longrightarrow> n' \<le> MAX_UTF16_UNITS)"
proof (cases "map_of obj (u ''content'')")
  case None
  with assms show ?thesis
    by (auto simp: parse_content_def nodes_of_def unmergeable_def intro!: exI [of _ "[]"])
next
  case (Some v)
  with assms obtain vs raw where "parse_inlines E (p @ u ''.content'') vs n = Inr (raw, n')"
    and nodes: "nodes = merge_adjacent_text raw"
    by (auto simp: parse_content_def and_then_eq_Inr)
  then obtain xs where xs: "raw = map node_of xs" "list_all (inline_ok E) xs"
    "n' = n + sum_list (map inline_units xs)" "n \<le> MAX_UTF16_UNITS \<longrightarrow> n' \<le> MAX_UTF16_UNITS"
    by (auto simp: nodes_of_def dest: parse_inlines_ok)
  then obtain ys where ys: "nodes_of E nodes ys" using nodes merge_nodes_of by metis
  then have "unmerged (map node_of ys)"
    using nodes merge_unmerged [of raw] by (simp add: nodes_of_def)
  moreover have "sum_list (map inline_units ys) = sum_list (map inline_units xs)"
    using ys nodes xs(1) merge_units [of raw] by (simp add: nodes_of_def comp_def)
  ultimately show ?thesis using ys xs(3,4) by (auto simp: unmerged_nodes)
qed

lemma parse_content_value:
  assumes "list_all (inline_ok E) xs" "unmergeable xs" "n + sum_list (map inline_units xs) \<le> MAX_UTF16_UNITS"
    and "map_of obj (u ''content'') = (if xs = [] then None else Some (JArr (map inline_value xs)))"
  shows "parse_content E obj p n = Inr (map node_of xs, n + sum_list (map inline_units xs))"
  using assms
  by (auto simp: parse_content_def parse_inlines_value unmerged_nodes merge_fixed)

lemma parse_block_ok:
  assumes "parse_block E v i (ids, n) = Inr (out, (ids', n'))"
  shows "\<exists>b. out = block_value b \<and> block_ok E b \<and> block_id b \<notin> set ids \<and> ids' = block_id b # ids \<and>
    n' = n + block_units b \<and> (n \<le> MAX_UTF16_UNITS \<longrightarrow> n' \<le> MAX_UTF16_UNITS)"
proof -
  from assms obtain obj t where v: "v = JObj obj" "map_of obj (u ''type'') = Some (JStr t)"
    by (auto simp: parse_block_def Let_def and_then_eq_Inr)
  consider (p) "t = u ''paragraph''" | (h) "t = u ''heading''" | (s) "t = u ''sceneBreak''"
    using assms v by (auto simp: parse_block_def Let_def split: if_splits)
  then show ?thesis
  proof cases
    case p
    with assms v obtain i nodes q where "parse_content E obj q n = Inr (nodes, n')"
      "valid_id i" "i \<notin> set ids" "ids' = i # ids" and out: "out = canonicalize_value (JObj (obj_of
         ([(u ''attrs'', JObj (obj_of [(u ''id'', JStr i)]))] @
          (if nodes \<noteq> [] then [(u ''content'', JArr (map inline_to_value nodes))] else []) @
          [(u ''type'', JStr (u ''paragraph''))])))"
      by (auto simp: parse_block_def Let_def and_then_eq_Inr simp del: canonicalize_value.simps)
    then obtain xs where "nodes_of E nodes xs" "unmergeable xs"
      "n' = n + sum_list (map inline_units xs)" "n \<le> MAX_UTF16_UNITS \<longrightarrow> n' \<le> MAX_UTF16_UNITS"
      using parse_content_ok by blast
    with out \<open>valid_id i\<close> \<open>i \<notin> set ids\<close> \<open>ids' = i # ids\<close> show ?thesis
      unfolding nodes_of_def by (intro exI [of _ "Paragraph i xs"])
        (simp only: built_block, simp add: block_units_def)
  next
    case h
    with assms v obtain i l nodes q where "parse_content E obj q n = Inr (nodes, n')"
      "1 \<le> l" "l \<le> 3"
      "valid_id i" "i \<notin> set ids" "ids' = i # ids" and out: "out = canonicalize_value (JObj (obj_of
         ([(u ''attrs'', JObj (obj_of [(u ''id'', JStr i), (u ''level'', JNum (PosInt l))]))] @
          (if nodes \<noteq> [] then [(u ''content'', JArr (map inline_to_value nodes))] else []) @
          [(u ''type'', JStr (u ''heading''))])))"
      by (auto simp: parse_block_def Let_def and_then_eq_Inr simp del: canonicalize_value.simps)
    then obtain xs where "nodes_of E nodes xs" "unmergeable xs"
      "n' = n + sum_list (map inline_units xs)" "n \<le> MAX_UTF16_UNITS \<longrightarrow> n' \<le> MAX_UTF16_UNITS"
      using parse_content_ok by blast
    with out \<open>valid_id i\<close> \<open>i \<notin> set ids\<close> \<open>ids' = i # ids\<close> \<open>1 \<le> l\<close> \<open>l \<le> 3\<close> show ?thesis
      unfolding nodes_of_def by (intro exI [of _ "Heading i l xs"])
        (simp only: built_block, simp add: block_units_def)
  next
    case s
    with assms v obtain i where "valid_id i" "i \<notin> set ids" "ids' = i # ids" "n' = n"
      and out: "out = canonicalize_value (JObj (obj_of [(u ''attrs'', JObj (obj_of [(u ''id'', JStr i)])),
      (u ''type'', JStr (u ''sceneBreak''))]))"
      by (auto simp: parse_block_def Let_def and_then_eq_Inr simp del: canonicalize_value.simps)
    then show ?thesis
      by (intro exI [of _ "SceneBreak i"]) (simp only: built_block, simp add: block_units_def)
  qed
qed

lemma parse_block_value:
  assumes "block_ok E b" "block_id b \<notin> set ids" "n + block_units b \<le> MAX_UTF16_UNITS"
  shows "parse_block E (block_value b) i (ids, n)
    = Inr (block_value b, (block_id b # ids, n + block_units b))"
proof (cases b)
  case (Paragraph j xs)
  let ?obj = "(u ''attrs'', JObj [(u ''id'', JStr j)]) # content_entry xs @ [(u ''type'', JStr (u ''paragraph''))]"
  have "parse_content E ?obj p n = Inr (map node_of xs, n + sum_list (map inline_units xs))" for p
    using assms Paragraph by (intro parse_content_value) (auto simp: block_units_def content_entry_def)
  with Paragraph assms show ?thesis
    using built_block(1) [of j xs]
    by (auto simp: parse_block_def Let_def and_then_eq_Inr content_entry_def block_units_def
        simp del: canonicalize_value.simps)
next
  case (Heading j l xs)
  let ?obj = "(u ''attrs'', JObj [(u ''id'', JStr j), (u ''level'', JNum (PosInt l))])
    # content_entry xs @ [(u ''type'', JStr (u ''heading''))]"
  have "parse_content E ?obj p n = Inr (map node_of xs, n + sum_list (map inline_units xs))" for p
    using assms Heading by (intro parse_content_value) (auto simp: block_units_def content_entry_def)
  with Heading assms show ?thesis
    using built_block(2) [of j l xs]
    by (auto simp: parse_block_def Let_def and_then_eq_Inr content_entry_def block_units_def
        simp del: canonicalize_value.simps)
next
  case (SceneBreak j)
  with assms show ?thesis
    using built_block(3) [of j]
    by (auto simp: parse_block_def Let_def and_then_eq_Inr block_units_def
        simp del: canonicalize_value.simps)
qed

section \<open>Documents\<close>

lemma parse_blocks_ok:
  assumes "parse_blocks E vs = Inr (outs, (ids, n))"
  obtains bs where "outs = map block_value bs" "list_all (block_ok E) bs" "distinct (map block_id bs)"
    "n = document_units bs" "n \<le> MAX_UTF16_UNITS" "length bs = length vs"
proof -
  let ?step = "\<lambda>(canonical, st) (i, block).
        and_then (parse_block E block i st) (\<lambda>(b, st'). Inr (canonical @ [b], st'))"
  let ?P = "\<lambda>k s. \<exists>bs. s = (map block_value bs, (rev (map block_id bs), document_units bs)) \<and>
    list_all (block_ok E) bs \<and> distinct (map block_id bs) \<and>
    document_units bs \<le> MAX_UTF16_UNITS \<and> length bs = k"
  have "try_fold ?step s (List.enumerate i vs) = Inr t \<Longrightarrow> ?P k s \<Longrightarrow> ?P (k + length vs) t" for s t k i
  proof (induction vs arbitrary: s k i)
    case (Cons v vs)
    from Cons.prems(2) obtain bs where bs: "s = (map block_value bs, (rev (map block_id bs), document_units bs))"
      "list_all (block_ok E) bs" "distinct (map block_id bs)"
      "document_units bs \<le> MAX_UTF16_UNITS" "length bs = k" by blast
    from Cons.prems(1) bs(1) obtain out ids' n' where
      step: "parse_block E v i (rev (map block_id bs), document_units bs) = Inr (out, (ids', n'))"
      and rest: "try_fold ?step (map block_value bs @ [out], (ids', n')) (List.enumerate (Suc i) vs) = Inr t"
      by (auto simp: and_then_eq_Inr)
    from parse_block_ok [OF step] obtain b where "out = block_value b" "block_ok E b"
      "block_id b \<notin> set (map block_id bs)" "ids' = block_id b # rev (map block_id bs)"
      "n' = document_units bs + block_units b" "n' \<le> MAX_UTF16_UNITS"
      using bs(4) by auto
    with bs have "?P (Suc k) (map block_value bs @ [out], (ids', n'))"
      by (intro exI [of _ "bs @ [b]"]) (auto simp: document_units_def)
    from Cons.IH [OF rest this] show ?case by simp
  qed simp
  from this [of "([], ([], 0))" 0 "(outs, (ids, n))" 0] assms show ?thesis
    by (auto simp: parse_blocks_def document_units_def intro: that)
qed

definition block_step ::
  "env \<Rightarrow> json list \<times> (ustr list \<times> nat) \<Rightarrow> nat \<times> json \<Rightarrow> (json list \<times> (ustr list \<times> nat)) snap_result" where
  "block_step E = (\<lambda>(canonical, st) (i, block).
     and_then (parse_block E block i st) (\<lambda>(b, st'). Inr (canonical @ [b], st')))"

lemma parse_blocks_step: "parse_blocks E vs = try_fold (block_step E) ([], ([], 0)) (List.enumerate 0 vs)"
  by (simp add: parse_blocks_def block_step_def)

lemma parse_blocks_loop:
  assumes "list_all (block_ok E) bs" "distinct (map block_id bs)"
    and "set (map block_id bs) \<inter> set ids = {}" "n + document_units bs \<le> MAX_UTF16_UNITS"
  shows "try_fold (block_step E) (outs, (ids, n)) (List.enumerate k (map block_value bs))
    = Inr (outs @ map block_value bs, (rev (map block_id bs) @ ids, n + document_units bs))"
  using assms
proof (induction bs arbitrary: outs ids n k)
  case (Cons b bs)
  from Cons.prems have "parse_block E (block_value b) k (ids, n)
      = Inr (block_value b, (block_id b # ids, n + block_units b))"
    by (intro parse_block_value) (auto simp: document_units_def)
  with Cons show ?case by (simp add: document_units_def add.assoc block_step_def)
qed (simp add: document_units_def)

lemma parse_blocks_value:
  assumes "list_all (block_ok E) bs" "distinct (map block_id bs)" "document_units bs \<le> MAX_UTF16_UNITS"
  shows "parse_blocks E (map block_value bs)
    = Inr (map block_value bs, (rev (map block_id bs), document_units bs))"
  using parse_blocks_loop [of E bs "[]" 0 "[]" 0] assms by (simp add: parse_blocks_step)

lemma parse_blocks_duplicate:
  assumes "list_all (block_ok E) bs" "distinct (map block_id bs)" "document_units bs \<le> MAX_UTF16_UNITS"
    and "block_ok E b" "block_id b \<in> set (map block_id bs)"
  shows "parse_blocks E (map block_value (bs @ b # rest))
    = Inl (DuplicateId (index_path (u ''document.body.content'') (length bs) @ u ''.attrs''))"
proof -
  have "parse_block E (block_value b) (length bs) (rev (map block_id bs), document_units bs)
      = Inl (DuplicateId (index_path (u ''document.body.content'') (length bs) @ u ''.attrs''))"
    using assms(4,5)
    by (cases b) (auto simp: parse_block_def Let_def take_id_def content_entry_def)
  then show ?thesis
    using parse_blocks_loop [of E bs "[]" 0 "[]" 0] assms
    by (simp add: parse_blocks_step enumerate_append_eq try_fold_append block_step_def [of E])
qed

definition receipt_of :: "env \<Rightarrow> block list \<Rightarrow> snapshot_receipt" where
  "receipt_of E bs =
    (let text = json_text E (document_value bs) in
     \<lparr>snapshot = document_value bs, canonical_json = text, hash = sha256_hex E (bytes text),
      utf16_units = document_units bs, block_count = length bs\<rparr>)"

lemma snapshot_value_blocks: "snapshot_value (map block_value bs) = document_value bs"
  using canon.nf_fixed [OF wf_document_value [of bs]]
  by (simp add: snapshot_value_def document_value_def literal_maps del: canonicalize_value.simps)

lemma accepted_receipt:
  assumes "validate_snapshot_json E input = Inr r"
  shows "\<exists>bs. document_ok E bs \<and> r = receipt_of E bs"
proof -
  from assms obtain blocks outs ids n where "blocks \<noteq> []" "\<not> MAX_BLOCKS < length blocks"
    and blocks: "parse_blocks E blocks = Inr (outs, (ids, n))"
    and r: "r = \<lparr>snapshot = snapshot_value outs, canonical_json = json_text E (snapshot_value outs),
      hash = sha256_hex E (bytes (json_text E (snapshot_value outs))),
      utf16_units = n, block_count = length blocks\<rparr>"
    by (auto simp: validate_snapshot_json_def and_then_eq_Inr Let_def split: if_splits)
  from blocks obtain bs where bs: "outs = map block_value bs" "list_all (block_ok E) bs"
    "distinct (map block_id bs)" "n = document_units bs" "n \<le> MAX_UTF16_UNITS"
    "length bs = length blocks" by (rule parse_blocks_ok)
  with \<open>blocks \<noteq> []\<close> \<open>\<not> MAX_BLOCKS < length blocks\<close> have "document_ok E bs"
    by (auto simp: document_ok_def)
  with bs r show ?thesis
    by (auto simp: receipt_of_def Let_def snapshot_value_blocks)
qed

lemma max_entries_depth: "json_depth (JObj []) \<le> Suc d" "json_depth (JArr []) \<le> Suc d"
  by (simp_all add: json_depth_obj json_depth_arr)

lemma depth_Suc: "json_depth v \<le> 0 \<Longrightarrow> json_depth v \<le> d"
  by simp

lemma mark_depth: "json_depth (mark_value m) \<le> 2"
  by (cases m) (auto simp: numeral_2_eq_2 json_depth_obj)

lemma inline_depth: "json_depth (inline_value x) \<le> 4"
proof -
  have "json_depth (mark_value m) \<le> Suc (Suc 0)" for m using mark_depth [of m] by simp
  then show ?thesis
    by (cases x) (auto simp: eval_nat_numeral json_depth_obj json_depth_arr)
qed

lemma block_depth: "json_depth (block_value b) \<le> 6"
proof -
  have "json_depth (inline_value m) \<le> Suc (Suc (Suc (Suc 0)))" for m using inline_depth [of m] by simp
  then show ?thesis
    by (cases b) (auto simp: eval_nat_numeral json_depth_obj json_depth_arr content_entry_def)
qed

lemma document_depth: "json_depth (document_value bs) \<le> 9"
proof -
  have "json_depth (block_value b) \<le> Suc (Suc (Suc (Suc (Suc (Suc 0)))))" for b
    using block_depth [of b] by simp
  then show ?thesis
    by (auto simp: eval_nat_numeral json_depth_obj json_depth_arr document_value_def)
qed

lemma document_plain: "plain_json (document_value bs)"
proof -
  have m: "exact_json (mark_value m)" for m by (cases m) auto
  have i: "exact_json (inline_value x)" for x by (cases x) (auto simp: m)
  have "exact_json (block_value b)" for b by (cases b) (auto simp: i content_entry_def)
  moreover have "json_depth (document_value bs) \<le> 127" using document_depth [of bs] by simp
  ultimately show ?thesis by (auto simp: plain_json_def document_value_def)
qed

text \<open>The checks on the two outer objects pass for a rendered document; the blocks decide.\<close>

lemma validate_rendered:
  assumes "codec_ok E" and "blen (json_text E (document_value bs)) \<le> MAX_RAW_BYTES"
    and "bs \<noteq> []" "length bs \<le> MAX_BLOCKS"
  shows "validate_snapshot_json E (json_text E (document_value bs)) =
    and_then (parse_blocks E (map block_value bs)) (\<lambda>(canonical_blocks, (ids, units)).
       let snap = snapshot_value canonical_blocks; t = json_text E snap in
       if 2 ^ 32 \<le> units \<or> 2 ^ 32 \<le> length bs then Inl CountOverflow
       else Inr \<lparr>snapshot = snap, canonical_json = t, hash = sha256_hex E (bytes t),
                 utf16_units = units, block_count = length bs\<rparr>)"
proof -
  define wire where "wire = json_text E (document_value bs)"
  have "json_parse E wire = Some (document_value bs)"
    unfolding wire_def using assms(1) by (intro codec_roundtrip_wf) (auto simp: document_plain)
  then have parsed: "json_parse E wire = Some (JObj
      [(u ''body'', JObj [(u ''content'', JArr (map block_value bs)), (u ''type'', JStr (u ''doc''))]),
       (u ''schemaVersion'', JNum (PosInt 1))])"
    by (simp add: document_value_def)
  have "blen wire \<le> MAX_RAW_BYTES" using assms(2) by (simp add: wire_def)
  with parsed assms(3,4) show ?thesis
    unfolding wire_def [symmetric]
    by (cases "parse_blocks E (map block_value bs)")
      (auto simp: validate_snapshot_json_def Let_def)
qed

lemma rendered_accepted:
  assumes "codec_ok E" and "document_ok E bs"
    and "blen (json_text E (document_value bs)) \<le> MAX_RAW_BYTES"
  shows "validate_snapshot_json E (json_text E (document_value bs)) = Inr (receipt_of E bs)"
proof -
  from assms(2) have "bs \<noteq> []" "length bs \<le> MAX_BLOCKS" "length bs < 2 ^ 32" "document_units bs < 2 ^ 32"
    "parse_blocks E (map block_value bs) = Inr (map block_value bs, (rev (map block_id bs), document_units bs))"
    by (auto simp: document_ok_def parse_blocks_value MAX_BLOCKS_def MAX_UTF16_UNITS_def)
  with assms show ?thesis
    by (simp add: validate_rendered Let_def receipt_of_def snapshot_value_blocks)
qed

lemma node_of_inj [simp]: "node_of x = node_of y \<longleftrightarrow> x = y"
  by (cases x; cases y) auto

lemma inline_value_inj [simp]: "inline_value x = inline_value y \<longleftrightarrow> x = y"
  by (cases x; cases y) auto

lemma map_inline_value_inj [simp]: "map inline_value xs = map inline_value ys \<longleftrightarrow> xs = ys"
  by (simp add: inj_on_def inj_map_eq_map)

lemma block_value_inj: "block_value a = block_value b \<longleftrightarrow> a = b"
  by (cases a; cases b) (auto simp: content_entry_def split: if_splits)

lemma document_value_inj: "document_value as = document_value bs \<longleftrightarrow> as = bs"
  by (auto simp: document_value_def inj_on_def inj_map_eq_map block_value_inj)

section \<open>What a receipt promises\<close>

definition sample_document :: "block list" where
  "sample_document =
    [Heading (u ''h1'') 1 [Run (u ''Hi'') [Bold, Link (u ''https://example.org/'')], Break],
     Paragraph (u ''p1'') [Run (u ''Text'') []], SceneBreak (u ''s1'')]"

lemma sample_href: "href_ok sample_env (u ''https://example.org/'')"
  by (simp add: href_ok_def validate_href_def u_def Let_def to_ascii_lowercase_def is_control_def
      is_whitespace_def sample_env_def sample_url_def)

lemma sample_document_ok: "document_ok sample_env sample_document"
  by (simp add: document_ok_def sample_document_def MAX_BLOCKS_def document_units_def block_units_def
      MAX_UTF16_UNITS_def valid_id_iff unmergeable_def marks_ok_def sample_href)
    (simp add: u_def id_byte_def is_ascii_alphanumeric_def is_ascii_alphabetic_def is_ascii_digit_def
      len_utf16_def)

lemma sample_env_text [simp]: "json_text sample_env = enc"
  by (simp add: sample_env_def)

lemma blen_ascii_le: "list_all (\<lambda>c. c < 128) s \<Longrightarrow> length s \<le> n \<Longrightarrow> blen s \<le> n"
  by (simp add: ascii_blen)

lemma sample_document_size: "blen (json_text sample_env (document_value sample_document)) \<le> MAX_RAW_BYTES"
proof -
  have "length (enc (document_value sample_document)) \<le> 500"
    by (simp add: document_value_def sample_document_def content_entry_def)
  with blen_le [of "enc (document_value sample_document)"] show ?thesis
    by (simp add: MAX_RAW_BYTES_def)
qed

text \<open>
  C1: an accepted input has the receipt of some well-formed typed document: the snapshot is
  its rendering, the text and hash are computed from that rendering, and the two counters
  are its UTF-16 length and its number of blocks.
\<close>

theorem validate_snapshot_sound:
  assumes "validate_snapshot_json E input = Inr r"
  shows "\<exists>bs. document_ok E bs \<and> r = receipt_of E bs"
  using assms by (rule accepted_receipt)

theorem validate_snapshot_sound_witness:
  "\<exists>bs. document_ok sample_env bs \<and> receipt_of sample_env sample_document = receipt_of sample_env bs"
  by (rule validate_snapshot_sound [OF rendered_accepted [OF sample_codec sample_document_ok sample_document_size]])

text \<open>
  C2: every well-formed typed document is accepted when its own canonical text is submitted,
  and gets exactly its receipt: the validator is complete for the vocabulary.
\<close>

theorem validate_snapshot_complete:
  assumes "codec_ok E" and "document_ok E bs"
    and "blen (json_text E (document_value bs)) \<le> MAX_RAW_BYTES"
  shows "validate_snapshot_json E (json_text E (document_value bs)) = Inr (receipt_of E bs)"
  using assms by (rule rendered_accepted)

theorem validate_snapshot_complete_witness:
  "validate_snapshot_json sample_env (json_text sample_env (document_value sample_document))
    = Inr (receipt_of sample_env sample_document)"
  by (rule validate_snapshot_complete [OF sample_codec sample_document_ok sample_document_size])

text \<open>
  Validation is idempotent: submitting the canonical text of a receipt again, as every
  save, restore and export does with stored bodies, yields the identical receipt.
\<close>

theorem validate_snapshot_idempotent:
  assumes "codec_ok E" and "validate_snapshot_json E input = Inr r"
    and "blen (canonical_json r) \<le> MAX_RAW_BYTES"
  shows "validate_snapshot_json E (canonical_json r) = Inr r"
proof -
  from accepted_receipt [OF assms(2)] obtain bs where "document_ok E bs" and r: "r = receipt_of E bs"
    by blast
  with rendered_accepted [OF assms(1), of bs] assms(3) show ?thesis
    by (simp add: receipt_of_def Let_def)
qed

theorem validate_snapshot_idempotent_witness:
  "validate_snapshot_json sample_env (canonical_json (receipt_of sample_env sample_document))
    = Inr (receipt_of sample_env sample_document)"
proof (rule validate_snapshot_idempotent [OF sample_codec rendered_accepted])
  show "codec_ok sample_env" by (rule sample_codec)
  show "document_ok sample_env sample_document" by (rule sample_document_ok)
  show "blen (json_text sample_env (document_value sample_document)) \<le> MAX_RAW_BYTES"
    by (rule sample_document_size)
  then show "blen (canonical_json (receipt_of sample_env sample_document)) \<le> MAX_RAW_BYTES"
    by (simp add: receipt_of_def Let_def)
qed

text \<open>
  The canonical text identifies the document: two accepted inputs with the same canonical
  text have the same snapshot, hash, UTF-16 length and block count.
\<close>

theorem canonical_json_determines_receipt:
  assumes "codec_ok E" and "validate_snapshot_json E a = Inr r" and "validate_snapshot_json E b = Inr s"
    and "canonical_json r = canonical_json s"
  shows "r = s"
proof -
  from accepted_receipt [OF assms(2)] accepted_receipt [OF assms(3)]
  obtain as bs where "r = receipt_of E as" "s = receipt_of E bs" by blast
  moreover from this assms(4) have "document_value as = document_value bs"
    by (intro json_text_inj [OF assms(1)]) (auto simp: document_plain receipt_of_def Let_def)
  ultimately show ?thesis by (simp add: document_value_inj)
qed

theorem canonical_json_determines_receipt_witness:
  "receipt_of sample_env sample_document = receipt_of sample_env sample_document"
  using rendered_accepted [OF sample_codec sample_document_ok sample_document_size]
  by (intro canonical_json_determines_receipt [OF sample_codec]) auto

text \<open>
  A document that repeats a block identifier is refused, with the error naming the
  position of the repetition, whatever blocks follow.
\<close>

theorem validate_snapshot_duplicate_id:
  assumes "codec_ok E" and "blen (json_text E (document_value (bs @ b # rest))) \<le> MAX_RAW_BYTES"
    and "length (bs @ b # rest) \<le> MAX_BLOCKS" and "document_ok E bs"
    and "block_ok E b" and "block_id b \<in> set (map block_id bs)"
  shows "validate_snapshot_json E (json_text E (document_value (bs @ b # rest)))
    = Inl (DuplicateId (index_path (u ''document.body.content'') (length bs) @ u ''.attrs''))"
  using assms parse_blocks_duplicate [of E bs b rest]
  by (subst validate_rendered) (auto simp: document_ok_def)

theorem validate_snapshot_duplicate_id_witness:
  "validate_snapshot_json sample_env (json_text sample_env (document_value (sample_document @ [SceneBreak (u ''p1'')])))
    = Inl (DuplicateId (index_path (u ''document.body.content'') (length sample_document) @ u ''.attrs''))"
proof (rule validate_snapshot_duplicate_id [OF sample_codec _ _ sample_document_ok])
  have "length (enc (document_value (sample_document @ [SceneBreak (u ''p1'')]))) \<le> 500"
    by (simp add: document_value_def sample_document_def content_entry_def)
  with blen_le [of "enc (document_value (sample_document @ [SceneBreak (u ''p1'')]))"]
  show "blen (json_text sample_env (document_value (sample_document @ [SceneBreak (u ''p1'')]))) \<le> MAX_RAW_BYTES"
    by (simp add: MAX_RAW_BYTES_def)
  show "block_ok sample_env (SceneBreak (u ''p1''))"
    using sample_document_ok by (simp add: document_ok_def sample_document_def)
qed (simp_all add: sample_document_def MAX_BLOCKS_def)

end
