(* ===== verification/Scope.thy ===== *)
theory Scope
  imports Snapshot
begin

text \<open>
  Scope validation (crates/documents/src/scope.rs): a document as a stream of structural
  tokens, the range a scope grant selects, and the checks that accept a prepared result only
  when every token outside that range is unchanged. Both replacement scopes (passage, blocks,
  whole document) and the append scope are modelled. A refusal carries the name of the check
  that failed; only the snapshot errors keep their structure, since the append check inspects
  them.
\<close>

section \<open>Requests, tokens and receipts\<close>

record endpoint =
  block_id_of :: ustr
  utf16_offset :: nat

datatype scope_kind = Passage | Blocks | WholeDocument | Append

record scope_grant =
  grant_kind :: scope_kind
  grant_start :: "endpoint option"
  grant_end :: "endpoint option"
  source_hash :: ustr
  quote :: ustr
  quote_hash :: ustr
  prefix :: "ustr option"
  suffix :: "ustr option"

record scope_request =
  source_snapshot :: json
  result_snapshot :: json
  scope :: scope_grant

record block_style =
  style_type :: ustr
  style_level :: "8 word option"

datatype structural_token =
    OpenBlock ustr ustr json
  | Scalar ustr "json list" block_style
  | HardBreakToken block_style
  | CloseBlock
  | SceneBreakToken ustr json

record scope_receipt =
  accepted :: bool
  receipt_scope :: scope_kind
  receipt_source_hash :: ustr
  result_hash :: ustr
  receipt_quote :: ustr
  receipt_quote_hash :: ustr
  receipt_prefix :: ustr
  receipt_suffix :: ustr
  source_token_count :: nat
  result_token_count :: nat
  replacement_token_count :: nat

record block_span =
  span_id :: ustr
  span_type :: ustr
  span_attrs :: json
  span_style :: "block_style option"
  token_start :: nat
  content_start :: nat
  content_end :: nat
  token_end :: nat
  span_units :: nat
  span_text :: ustr

record token_doc =
  toks :: "structural_token list"
  spans :: "block_span list"
  by_id :: "(ustr \<times> nat) list"

record token_range =
  range_start :: nat
  range_end :: nat
  first_block :: nat
  last_block :: nat
  selected_ids :: nat

datatype scope_error =
    SourceInvalid snap_error
  | ResultInvalid snap_error
  | ReusesExistingId snap_error
  | ReusesGeneratedId snap_error
  | SourceTokens string
  | ResultTokens string
  | Refused string

type_synonym 'a scope_result = "scope_error + 'a"

definition u32_checked_add :: "nat \<Rightarrow> nat \<Rightarrow> nat option" where
  "u32_checked_add a b = (if a + b < 2 ^ 32 then Some (a + b) else None)"

definition to_u32 :: "nat \<Rightarrow> string \<Rightarrow> nat scope_result" where
  "to_u32 n e = (if n < 2 ^ 32 then Inr n else Inl (Refused e))"

section \<open>Tokens of a snapshot\<close>

definition canonical_snapshot :: "env \<Rightarrow> json \<Rightarrow> snapshot_receipt snap_result" where
  "canonical_snapshot E v =
    validate_snapshot_json E (case v of JStr s \<Rightarrow> s | other \<Rightarrow> json_text E other)"

text \<open>One scalar of a text node, then one inline node; the state is units, text and tokens.\<close>

definition scalar_token ::
  "json list \<Rightarrow> block_style \<Rightarrow> nat \<times> ustr \<times> structural_token list \<Rightarrow> scalar \<Rightarrow>
   string + (nat \<times> ustr \<times> structural_token list)" where
  "scalar_token marks style st c =
    (case st of (units, txt, ts) \<Rightarrow>
      and_then (ok_or ''block UTF-16 length overflowed'' (u32_checked_add units (len_utf16 c))) (\<lambda>units'.
      Inr (units', txt @ [c], ts @ [Scalar [c] marks style])))"

definition inline_tokens ::
  "block_style \<Rightarrow> nat \<times> ustr \<times> structural_token list \<Rightarrow> json \<Rightarrow>
   string + (nat \<times> ustr \<times> structural_token list)" where
  "inline_tokens style st inline =
    and_then (ok_or ''inline node must be an object'' (as_obj inline)) (\<lambda>obj.
    case Option.bind (map_of obj (u ''type'')) as_str of
      None \<Rightarrow> Inl ''inline node type is required''
    | Some t \<Rightarrow>
        if t = u ''text'' then
          and_then (ok_or ''text node text must be a string'' (Option.bind (map_of obj (u ''text'')) as_str)) (\<lambda>inline_text.
          let marks = (case Option.bind (map_of obj (u ''marks'')) as_arr of Some ms \<Rightarrow> ms | None \<Rightarrow> []) in
          try_fold (scalar_token marks style) st inline_text)
        else if t = u ''hardBreak'' then
          (case st of (units, txt, ts) \<Rightarrow>
            and_then (ok_or ''block UTF-16 length overflowed'' (u32_checked_add units 1)) (\<lambda>units'.
            Inr (units', txt @ [10], ts @ [HardBreakToken style])))
        else Inl ''unsupported inline node type'')"

definition block_tokens_step :: "token_doc \<Rightarrow> json \<Rightarrow> string + token_doc" where
  "block_tokens_step D block =
    and_then (ok_or ''document block must be an object'' (as_obj block)) (\<lambda>obj.
    and_then (ok_or ''document block type must be a string'' (Option.bind (map_of obj (u ''type'')) as_str)) (\<lambda>block_type.
    and_then (ok_or ''document block attrs are required'' (map_of obj (u ''attrs''))) (\<lambda>attrs.
    and_then (ok_or ''document block attrs must be an object'' (as_obj attrs)) (\<lambda>attrs_object.
    and_then (ok_or ''document block attrs.id must be a string'' (Option.bind (map_of attrs_object (u ''id'')) as_str)) (\<lambda>i.
    if i \<in> fst ` set (by_id D) then Inl ''duplicate block id''
    else
      let ts = toks D; start = length ts in
      and_then
        (if block_type = u ''paragraph'' \<or> block_type = u ''heading'' then
           let level = map_option ucast (Option.bind (map_of attrs_object (u ''level'')) as_u64);
               style = \<lparr>style_type = block_type, style_level = level\<rparr>;
               opened = ts @ [OpenBlock i block_type attrs] in
           and_then
             (case map_of obj (u ''content'') of
                None \<Rightarrow> Inr (0, [], opened)
              | Some content \<Rightarrow>
                  and_then (ok_or ''block content must be an array'' (as_arr content)) (\<lambda>inlines.
                  try_fold (inline_tokens style) (0, [], opened) inlines)) (\<lambda>(units, txt, filled).
           Inr (filled @ [CloseBlock],
                \<lparr>span_id = i, span_type = block_type, span_attrs = attrs, span_style = Some style,
                 token_start = start, content_start = length opened, content_end = length filled,
                 token_end = length filled + 1, span_units = units, span_text = txt\<rparr>))
         else if block_type = u ''sceneBreak'' then
           Inr (ts @ [SceneBreakToken i attrs],
                \<lparr>span_id = i, span_type = block_type, span_attrs = attrs, span_style = None,
                 token_start = start, content_start = start, content_end = start + 1,
                 token_end = start + 1, span_units = 0, span_text = []\<rparr>)
         else Inl ''unsupported block type'') (\<lambda>(ts', span).
      Inr \<lparr>toks = ts', spans = spans D @ [span], by_id = (i, length (spans D)) # by_id D\<rparr>))))))"

definition token_document :: "json \<Rightarrow> string + token_doc" where
  "token_document snap =
    and_then (ok_or ''snapshot.body must be an object'' (Option.bind (json_get snap (u ''body'')) as_obj)) (\<lambda>body.
    and_then (ok_or ''snapshot.body.content must be an array'' (Option.bind (map_of body (u ''content'')) as_arr)) (\<lambda>blocks.
    try_fold block_tokens_step \<lparr>toks = [], spans = [], by_id = []\<rparr> blocks))"

definition structural_tokens :: "json \<Rightarrow> string + structural_token list" where
  "structural_tokens snap = and_then (token_document snap) (\<lambda>D. Inr (toks D))"

fun is_boundary :: "structural_token \<Rightarrow> bool" where
  "is_boundary (OpenBlock i t a) \<longleftrightarrow> True"
| "is_boundary CloseBlock \<longleftrightarrow> True"
| "is_boundary (SceneBreakToken i a) \<longleftrightarrow> True"
| "is_boundary _ \<longleftrightarrow> False"

fun token_width :: "structural_token \<Rightarrow> nat" where
  "token_width (Scalar s ms st) = utf16_len s"
| "token_width (HardBreakToken st) = 1"
| "token_width _ = 0"

fun token_text :: "structural_token \<Rightarrow> ustr" where
  "token_text (Scalar s ms st) = s"
| "token_text (HardBreakToken st) = [10]"
| "token_text CloseBlock = [10, 10]"
| "token_text (OpenBlock i t a) = []"
| "token_text (SceneBreakToken i a) = [10, 10]"

fun is_separator :: "structural_token \<Rightarrow> bool" where
  "is_separator CloseBlock \<longleftrightarrow> True"
| "is_separator (SceneBreakToken i a) \<longleftrightarrow> True"
| "is_separator _ \<longleftrightarrow> False"

text \<open>
  The text ends in the separators that are cut off, each two bytes and two scalars long, so
  the byte truncation is a truncation of scalars.
\<close>

definition plain_text :: "structural_token list \<Rightarrow> ustr" where
  "plain_text ts =
    (let txt = concat (map token_text ts);
         trailing = length (filter is_separator (takeWhile is_boundary (rev ts)))
     in take (length txt - trailing * 2) txt)"

definition style_json :: "block_style \<Rightarrow> json" where
  "style_json s =
    JObj [(u ''type'', JStr (style_type s)),
          (u ''level'', case style_level s of None \<Rightarrow> JNull | Some l \<Rightarrow> JNum (PosInt (ucast l)))]"

fun token_json :: "structural_token \<Rightarrow> json" where
  "token_json (OpenBlock i t a) =
     JObj [(u ''kind'', JStr (u ''openBlock'')), (u ''id'', JStr i), (u ''type'', JStr t), (u ''attrs'', a)]"
| "token_json (Scalar s ms st) =
     JObj [(u ''kind'', JStr (u ''scalar'')), (u ''scalar'', JStr s), (u ''marks'', JArr ms), (u ''style'', style_json st)]"
| "token_json (HardBreakToken st) =
     JObj [(u ''kind'', JStr (u ''hardBreak'')), (u ''style'', style_json st)]"
| "token_json CloseBlock = JObj [(u ''kind'', JStr (u ''closeBlock''))]"
| "token_json (SceneBreakToken i a) =
     JObj [(u ''kind'', JStr (u ''sceneBreak'')), (u ''id'', JStr i), (u ''attrs'', a)]"

definition structured_hash :: "env \<Rightarrow> structural_token list \<Rightarrow> ustr" where
  "structured_hash E ts = sha256_hex E (bytes (json_text E (JArr (map token_json ts))))"

section \<open>Endpoints and ranges\<close>

text \<open>Byte offsets of the scalars and of the graphemes of a text, from a starting offset.\<close>

fun utf16_by_byte :: "nat \<Rightarrow> nat \<Rightarrow> ustr \<Rightarrow> (nat \<times> nat) list" where
  "utf16_by_byte byte utf16 [] = [(byte, utf16)]"
| "utf16_by_byte byte utf16 (c # s) =
     (byte, utf16) # utf16_by_byte (byte + length (utf8_char c)) (utf16 + len_utf16 c) s"

fun grapheme_indices :: "nat \<Rightarrow> ustr list \<Rightarrow> (nat \<times> ustr) list" where
  "grapheme_indices byte [] = []"
| "grapheme_indices byte (g # gs) = (byte, g) # grapheme_indices (byte + blen g) gs"

definition grapheme_boundary ::
  "(nat \<times> nat) list \<Rightarrow> nat list \<Rightarrow> nat \<times> ustr \<Rightarrow> nat list scope_result" where
  "grapheme_boundary offsets boundaries bg =
    (case bg of (byte_index, grapheme) \<Rightarrow>
      and_then (ok_or (Refused ''failed to map grapheme start to UTF-16'') (map_of offsets byte_index)) (\<lambda>start.
      and_then (ok_or (Refused ''failed to map grapheme end to UTF-16'')
                  (map_of offsets (byte_index + blen grapheme))) (\<lambda>end_utf16.
      Inr (end_utf16 # start # boundaries))))"

definition validate_endpoint_boundary :: "env \<Rightarrow> token_doc \<Rightarrow> nat \<Rightarrow> nat \<Rightarrow> unit scope_result" where
  "validate_endpoint_boundary E D i offset =
    (let span = spans D ! i in
     if span_units span < offset then Inl (Refused ''endpoint utf16Offset is outside block'')
     else if span_style span = None then
       (if offset \<noteq> 0 then Inl (Refused ''sceneBreak endpoint must use utf16Offset 0'') else Inr ())
     else
       and_then (try_fold (grapheme_boundary (utf16_by_byte 0 0 (span_text span))) [0]
                   (grapheme_indices 0 (graphemes E (span_text span)))) (\<lambda>boundaries.
       if offset \<notin> set boundaries
       then Inl (Refused ''endpoint utf16Offset splits a grapheme cluster or surrogate pair'')
       else Inr ()))"

definition block_index :: "token_doc \<Rightarrow> ustr \<Rightarrow> nat scope_result" where
  "block_index D i = ok_or (Refused ''scope endpoint blockId does not exist'') (map_of (by_id D) i)"

text \<open>The walk over the tokens of a block: the index of the first token at the offset.\<close>

fun walk_to :: "nat \<Rightarrow> nat \<Rightarrow> structural_token list \<Rightarrow> nat option" where
  "walk_to offset target [] = None"
| "walk_to offset target (t # ts) =
     (if offset = target then Some 0
      else map_option Suc (walk_to (offset + token_width t) target ts))"

definition slice :: "nat \<Rightarrow> nat \<Rightarrow> 'a list \<Rightarrow> 'a list" where
  "slice i j xs = take (j - i) (drop i xs)"

definition endpoint_token :: "env \<Rightarrow> token_doc \<Rightarrow> nat \<Rightarrow> endpoint \<Rightarrow> nat scope_result" where
  "endpoint_token E D i ep =
    and_then (validate_endpoint_boundary E D i (utf16_offset ep)) (\<lambda>_.
    let span = spans D ! i in
    case walk_to 0 (utf16_offset ep) (slice (content_start span) (content_end span) (toks D)) of
      Some index \<Rightarrow> Inr (content_start span + index)
    | None \<Rightarrow> Inr (content_end span))"

definition scope_range :: "env \<Rightarrow> token_doc \<Rightarrow> scope_grant \<Rightarrow> token_range scope_result" where
  "scope_range E D g =
    (case grant_kind g of
       WholeDocument \<Rightarrow>
         if grant_start g \<noteq> None \<or> grant_end g \<noteq> None
         then Inl (Refused ''whole-document scope must not have endpoints'')
         else Inr \<lparr>range_start = 0, range_end = length (toks D), first_block = 0,
                   last_block = length (spans D) - 1, selected_ids = length (spans D)\<rparr>
     | Passage \<Rightarrow>
         and_then (ok_or (Refused ''passage scope requires start'') (grant_start g)) (\<lambda>start.
         and_then (ok_or (Refused ''passage scope requires end'') (grant_end g)) (\<lambda>fin.
         and_then (block_index D (block_id_of start)) (\<lambda>first.
         and_then (block_index D (block_id_of fin)) (\<lambda>last.
         if last < first then Inl (Refused ''scope start must not be after scope end'')
         else if first = last \<and> span_style (spans D ! first) = None
         then Inl (Refused ''passage endpoints must be inside a text block'')
         else
           and_then (endpoint_token E D first start) (\<lambda>start_token.
           and_then (endpoint_token E D last fin) (\<lambda>end_token.
           if end_token < start_token then Inl (Refused ''scope start must not be after scope end'')
           else Inr \<lparr>range_start = start_token, range_end = end_token, first_block = first,
                     last_block = last, selected_ids = last - first + 1\<rparr>))))))
     | Blocks \<Rightarrow>
         and_then (ok_or (Refused ''blocks scope requires start'') (grant_start g)) (\<lambda>start.
         and_then (ok_or (Refused ''blocks scope requires end'') (grant_end g)) (\<lambda>fin.
         and_then (block_index D (block_id_of start)) (\<lambda>first.
         and_then (block_index D (block_id_of fin)) (\<lambda>last.
         if last < first then Inl (Refused ''scope start must not be after scope end'')
         else
           and_then (validate_endpoint_boundary E D first (utf16_offset start)) (\<lambda>_.
           and_then (validate_endpoint_boundary E D last (utf16_offset fin)) (\<lambda>_.
           if utf16_offset start \<noteq> 0
           then Inl (Refused ''blocks scope must start at the beginning of its first block'')
           else if utf16_offset fin \<noteq> span_units (spans D ! last)
           then Inl (Refused ''blocks scope must end at the end of its last block'')
           else Inr \<lparr>range_start = token_start (spans D ! first), range_end = token_end (spans D ! last),
                     first_block = first, last_block = last, selected_ids = last - first + 1\<rparr>))))))
     | Append \<Rightarrow> Inl (Refused ''append scope does not select a replacement range''))"

definition context_prefix :: "token_doc \<Rightarrow> nat \<Rightarrow> nat \<Rightarrow> ustr" where
  "context_prefix D i token_index =
    (let span = spans D ! i in
     if token_index \<le> content_start span then []
     else plain_text (slice (content_start span) token_index (toks D)))"

definition context_suffix :: "token_doc \<Rightarrow> nat \<Rightarrow> nat \<Rightarrow> ustr" where
  "context_suffix D i token_index =
    (let span = spans D ! i in
     if content_end span \<le> token_index then []
     else plain_text (slice token_index (content_end span) (toks D)))"

definition selected :: "token_doc \<Rightarrow> token_range \<Rightarrow> structural_token list" where
  "selected D r = slice (range_start r) (range_end r) (toks D)"

definition selected_spans :: "token_doc \<Rightarrow> token_range \<Rightarrow> block_span list" where
  "selected_spans D r = slice (first_block r) (last_block r + 1) (spans D)"

definition capture_scope :: "env \<Rightarrow> json \<Rightarrow> scope_grant \<Rightarrow> scope_grant scope_result" where
  "capture_scope E source g =
    (if grant_kind g = Append
     then Inl (Refused ''append scope must be captured with capture_append_scope'')
     else
       and_then (map_err SourceInvalid (canonical_snapshot E source)) (\<lambda>src.
       and_then (map_err SourceTokens (token_document (snapshot src))) (\<lambda>D.
       and_then (scope_range E D g) (\<lambda>r.
       Inr (g\<lparr>source_hash := hash src, quote := plain_text (selected D r),
              quote_hash := structured_hash E (selected D r),
              prefix := (case prefix g of None \<Rightarrow> Some (context_prefix D (first_block r) (range_start r))
                                        | Some p \<Rightarrow> Some p),
              suffix := (case suffix g of None \<Rightarrow> Some (context_suffix D (last_block r) (range_end r))
                                        | Some s \<Rightarrow> Some s)\<rparr>)))))"

definition capture_append_scope :: "env \<Rightarrow> json \<Rightarrow> scope_grant scope_result" where
  "capture_append_scope E source =
    and_then (map_err SourceInvalid (canonical_snapshot E source)) (\<lambda>src.
    and_then (map_err SourceTokens (token_document (snapshot src))) (\<lambda>D.
    if spans D = [] then Inl (Refused ''append scope requires at least one source block'')
    else
      let last = last (spans D); quoted = slice (token_start last) (token_end last) (toks D) in
      Inr \<lparr>grant_kind = Append, grant_start = None,
           grant_end = Some \<lparr>block_id_of = span_id last, utf16_offset = span_units last\<rparr>,
           source_hash = hash src, quote = plain_text quoted,
           quote_hash = structured_hash E quoted, prefix = None, suffix = None\<rparr>))"

section \<open>Replacement scopes\<close>

fun token_id :: "structural_token \<Rightarrow> ustr option" where
  "token_id (OpenBlock i t a) = Some i"
| "token_id (SceneBreakToken i a) = Some i"
| "token_id _ = None"

definition span_by_id :: "token_doc \<Rightarrow> ustr \<Rightarrow> block_span option" where
  "span_by_id D i = map_of (map (\<lambda>s. (span_id s, s)) (rev (spans D))) i"

text \<open>
  The code indexes the result by an identifier of the replacement, which is part of the
  result; the branch for an absent entry is not reached.
\<close>

definition retained_changed :: "token_doc \<Rightarrow> token_doc \<Rightarrow> ustr \<Rightarrow> bool" where
  "retained_changed source result i =
    (case (span_by_id source i, span_by_id result i) of
       (Some old, Some new) \<Rightarrow> span_type old \<noteq> span_type new \<or> span_attrs old \<noteq> span_attrs new
     | _ \<Rightarrow> True)"

text \<open>The merge rules for a selection of more than one block.\<close>

definition check_merge ::
  "token_doc \<Rightarrow> token_doc \<Rightarrow> token_range \<Rightarrow> scope_kind \<Rightarrow> ustr list \<Rightarrow> unit scope_result" where
  "check_merge source result r k result_selected_ids =
    (let selected_styles = map span_style (selected_spans source r);
         unselected_block_count = length (spans source) - selected_ids r;
         result_selected_block_count = length (spans result) - unselected_block_count;
         merge = (k = Passage \<or> (result_selected_block_count = 1 \<and> result_selected_ids \<noteq> [])) in
     if merge \<and> result_selected_block_count < selected_ids r then
       if span_id (spans source ! first_block r) \<notin> set result_selected_ids
       then Inl (Refused ''a cross-block merge must retain the left block id'')
       else if list_ex (\<lambda>s. span_id s \<in> set result_selected_ids)
                 (slice (first_block r + 1) (last_block r + 1) (spans source))
       then Inl (Refused ''a cross-block merge must retire the right block id'')
       else if k = Passage \<and> list_ex (\<lambda>s. s \<noteq> hd selected_styles) selected_styles
       then Inl (Refused ''cross-block merge must preserve one compatible block style'')
       else Inr ()
     else Inr ())"

definition validate_ids_and_merge_policy ::
  "token_doc \<Rightarrow> token_doc \<Rightarrow> structural_token list \<Rightarrow> token_range \<Rightarrow> scope_kind \<Rightarrow> unit scope_result" where
  "validate_ids_and_merge_policy source result replacement r k =
    (let source_ids = map span_id (spans source);
         chosen_ids = map span_id (selected_spans source r);
         replacement_ids = List.map_filter token_id replacement;
         result_selected_ids = filter (\<lambda>i. i \<in> set chosen_ids) (map span_id (spans result)) in
     if list_ex (\<lambda>i. i \<in> set source_ids \<and> i \<notin> set chosen_ids) replacement_ids
     then Inl (Refused ''replacement reuses unselected source block id'')
     else if list_ex (\<lambda>i. k = Passage \<and> i \<in> set source_ids \<and> retained_changed source result i) replacement_ids
     then Inl (Refused ''retained block id changes its block style or attributes'')
     else
       and_then
         (if k \<noteq> WholeDocument \<and> 1 < selected_ids r
          then check_merge source result r k result_selected_ids else Inr ()) (\<lambda>_.
       if list_ex (\<lambda>i. i \<notin> set source_ids \<and> i \<notin> set replacement_ids) (map span_id (spans result))
       then Inl (Refused ''result contains an unaccounted block id'')
       else Inr ()))"

fun token_marks :: "structural_token \<Rightarrow> json list option" where
  "token_marks (Scalar s ms st) = Some ms"
| "token_marks (HardBreakToken st) = Some []"
| "token_marks _ = None"

definition inherited_marks :: "structural_token list \<Rightarrow> json list" where
  "inherited_marks ts =
    (case List.map_filter token_marks ts of
       [] \<Rightarrow> []
     | first # rest \<Rightarrow> if list_all (\<lambda>m. m = first) rest then first else [])"

definition validate_text_fragment ::
  "token_doc \<Rightarrow> token_range \<Rightarrow> structural_token list \<Rightarrow> ustr \<Rightarrow> unit scope_result" where
  "validate_text_fragment source r replacement txt =
    (case span_style (spans source ! first_block r) of
       None \<Rightarrow> Inl (Refused ''text replacement cannot include a scene break'')
     | Some style \<Rightarrow>
         if list_ex (\<lambda>s. span_style s \<noteq> Some style) (selected_spans source r)
         then Inl (Refused ''text replacement requires matching paragraph or heading styles'')
         else if map (\<lambda>c. Scalar [c] (inherited_marks (selected source r)) style) txt \<noteq> replacement
         then Inl (Refused ''prepared result does not match the exact replacement text'')
         else Inr ())"

text \<open>\<open>validate_scope_impl\<close>: the fences of the grant, the unchanged outside, then the policies.\<close>

definition check_scope_grant ::
  "env \<Rightarrow> snapshot_receipt \<Rightarrow> token_doc \<Rightarrow> token_range \<Rightarrow> scope_grant \<Rightarrow> unit scope_result" where
  "check_scope_grant E source source_doc r g =
    (if source_hash g \<noteq> hash source then Inl (Refused ''scope sourceHash does not match source snapshot'')
     else if quote g \<noteq> plain_text (selected source_doc r)
     then Inl (Refused ''scope quote does not match the source endpoints'')
     else if quote_hash g \<noteq> structured_hash E (selected source_doc r)
     then Inl (Refused ''scope quoteHash does not match the source fragment'')
     else if prefix g \<noteq> None \<and> prefix g \<noteq> Some (context_prefix source_doc (first_block r) (range_start r))
     then Inl (Refused ''scope prefix does not match the source endpoint context'')
     else if suffix g \<noteq> None \<and> suffix g \<noteq> Some (context_suffix source_doc (last_block r) (range_end r))
     then Inl (Refused ''scope suffix does not match the source endpoint context'')
     else Inr ())"

definition replacement_tokens ::
  "token_doc \<Rightarrow> token_doc \<Rightarrow> token_range \<Rightarrow> structural_token list scope_result" where
  "replacement_tokens source_doc result_doc r =
    (let source_prefix = take (range_start r) (toks source_doc);
         source_suffix = drop (range_end r) (toks source_doc);
         rts = toks result_doc;
         suffix_start = length rts - length source_suffix in
     if length rts < length source_prefix + length source_suffix
     then Inl (Refused ''result removes unselected document structure'')
     else if take (length source_prefix) rts \<noteq> source_prefix
     then Inl (Refused ''result changes tokens before the granted scope'')
     else if drop suffix_start rts \<noteq> source_suffix
     then Inl (Refused ''result changes tokens after the granted scope'')
     else if suffix_start < length source_prefix
     then Inl (Refused ''result scope boundaries overlap'')
     else Inr (slice (length source_prefix) suffix_start rts))"

definition validate_scope_impl :: "env \<Rightarrow> scope_request \<Rightarrow> ustr option \<Rightarrow> scope_receipt scope_result" where
  "validate_scope_impl E req replacement_text =
    and_then (map_err SourceInvalid (canonical_snapshot E (source_snapshot req))) (\<lambda>source.
    and_then (map_err ResultInvalid (canonical_snapshot E (result_snapshot req))) (\<lambda>result.
    and_then (map_err SourceTokens (token_document (snapshot source))) (\<lambda>source_doc.
    and_then (map_err ResultTokens (token_document (snapshot result))) (\<lambda>result_doc.
    and_then (scope_range E source_doc (scope req)) (\<lambda>r.
    and_then (check_scope_grant E source source_doc r (scope req)) (\<lambda>_.
    and_then (replacement_tokens source_doc result_doc r) (\<lambda>replacement.
    and_then (ensure (\<not> (grant_kind (scope req) = Passage \<and> first_block r = last_block r \<and>
                         list_ex is_boundary replacement))
                (Refused ''passage scope cannot add or remove block or scene boundaries'')) (\<lambda>_.
    and_then (validate_ids_and_merge_policy source_doc result_doc replacement r (grant_kind (scope req))) (\<lambda>_.
    and_then (case replacement_text of
                None \<Rightarrow> Inr ()
              | Some t \<Rightarrow> validate_text_fragment source_doc r replacement t) (\<lambda>_.
    and_then (to_u32 (length (toks source_doc)) ''source token count exceeds u32'') (\<lambda>sc.
    and_then (to_u32 (length (toks result_doc)) ''result token count exceeds u32'') (\<lambda>rc.
    and_then (to_u32 (length replacement) ''replacement token count exceeds u32'') (\<lambda>pc.
    Inr \<lparr>accepted = True, receipt_scope = grant_kind (scope req), receipt_source_hash = hash source,
         result_hash = hash result, receipt_quote = plain_text (selected source_doc r),
         receipt_quote_hash = structured_hash E (selected source_doc r),
         receipt_prefix = context_prefix source_doc (first_block r) (range_start r),
         receipt_suffix = context_suffix source_doc (last_block r) (range_end r), source_token_count = sc,
         result_token_count = rc, replacement_token_count = pc\<rparr>)))))))))))))"

definition validate_text_replacement :: "env \<Rightarrow> scope_request \<Rightarrow> ustr \<Rightarrow> scope_receipt scope_result" where
  "validate_text_replacement E req txt =
    (if grant_kind (scope req) \<noteq> Passage
     then Inl (Refused ''text replacement requires an explicit passage scope'')
     else if contains_any txt [13, 10] \<or> 100000 < utf16_len txt
     then Inl (Refused ''replacement must be one line and at most 100,000 UTF-16 units'')
     else validate_scope_impl E req (Some txt))"

section \<open>Append scopes\<close>

definition paragraph_step :: "nat \<Rightarrow> ustr \<Rightarrow> nat scope_result" where
  "paragraph_step units paragraph =
    (if trim paragraph = [] then Inl (Refused ''append candidate paragraphs must be nonblank'')
     else if contains_any paragraph [13, 10]
     then Inl (Refused ''append candidate paragraphs must be single-line'')
     else if 8192 < utf16_len paragraph
     then Inl (Refused ''an append paragraph exceeds 8,192 UTF-16 units'')
     else if 2 ^ 64 \<le> units + utf16_len paragraph
     then Inl (Refused ''append candidate UTF-16 length overflowed'')
     else if 100000 < units + utf16_len paragraph
     then Inl (Refused ''append candidate exceeds 100,000 UTF-16 units'')
     else Inr (units + utf16_len paragraph))"

definition validate_append_paragraphs :: "ustr list \<Rightarrow> unit scope_result" where
  "validate_append_paragraphs paragraphs =
    (if paragraphs = [] then Inl (Refused ''append candidate must contain at least one paragraph'')
     else if 128 < length paragraphs
     then Inl (Refused ''append candidate may contain at most 128 paragraphs'')
     else and_then (try_fold paragraph_step 0 paragraphs) (\<lambda>_. Inr ()))"

definition is_empty_placeholder :: "token_doc \<Rightarrow> bool" where
  "is_empty_placeholder D \<longleftrightarrow>
     length (spans D) = 1 \<and> span_type (spans D ! 0) = u ''paragraph'' \<and> span_text (spans D ! 0) = [] \<and>
     span_attrs (spans D ! 0) = JObj [(u ''id'', JStr (span_id (spans D ! 0)))]"

text \<open>A snapshot given as a JSON string is parsed first; text that does not parse is null.\<close>

definition parsed_input :: "env \<Rightarrow> json \<Rightarrow> json" where
  "parsed_input E v =
    (case v of JStr s \<Rightarrow> (case json_parse E s of Some w \<Rightarrow> w | None \<Rightarrow> JNull) | other \<Rightarrow> other)"

definition input_blocks :: "env \<Rightarrow> json \<Rightarrow> json list option" where
  "input_blocks E v =
    Option.bind (Option.bind (json_get (parsed_input E v) (u ''body'')) (\<lambda>b. json_get b (u ''content''))) as_arr"

definition source_is_empty_placeholder_value :: "env \<Rightarrow> json \<Rightarrow> bool" where
  "source_is_empty_placeholder_value E v \<longleftrightarrow>
    (case input_blocks E v of
       Some [JObj block] \<Rightarrow>
         Option.bind (map_of block (u ''type'')) as_str = Some (u ''paragraph'') \<and>
         (case Option.bind (map_of block (u ''attrs'')) as_obj of
            None \<Rightarrow> False
          | Some attrs \<Rightarrow> length attrs = 1 \<and> u ''id'' \<in> fst ` set attrs) \<and>
         (case Option.bind (map_of block (u ''content'')) as_arr of
            None \<Rightarrow> True
          | Some content \<Rightarrow> content = [])
     | _ \<Rightarrow> False)"

definition snapshot_block_ids :: "env \<Rightarrow> json \<Rightarrow> ustr list" where
  "snapshot_block_ids E v =
    (case input_blocks E v of
       None \<Rightarrow> []
     | Some blocks \<Rightarrow>
         List.map_filter
           (\<lambda>b. Option.bind (Option.bind (json_get b (u ''attrs'')) (\<lambda>a. json_get a (u ''id''))) as_str) blocks)"

definition result_reuses_source_id :: "env \<Rightarrow> json \<Rightarrow> json \<Rightarrow> bool" where
  "result_reuses_source_id E source result \<longleftrightarrow>
     list_ex (\<lambda>i. i \<in> set (snapshot_block_ids E source)) (snapshot_block_ids E result) \<and>
     \<not> source_is_empty_placeholder_value E source"

text \<open>
  The text of an error contains \<open>attrs.id is duplicated\<close> when it is the duplicate error
  itself, or quotes a string of the document that contains these words.
\<close>

fun mentions_duplicate_id :: "snap_error \<Rightarrow> bool" where
  "mentions_duplicate_id (DuplicateId p) \<longleftrightarrow> True"
| "mentions_duplicate_id (UnknownField p k) \<longleftrightarrow> contains_str k (u ''attrs.id is duplicated'')"
| "mentions_duplicate_id (UnsupportedNode p k) \<longleftrightarrow> contains_str k (u ''attrs.id is duplicated'')"
| "mentions_duplicate_id (UnsupportedMark p k) \<longleftrightarrow> contains_str k (u ''attrs.id is duplicated'')"
| "mentions_duplicate_id _ \<longleftrightarrow> False"

text \<open>\<open>expected\<close> is the candidate's paragraph, when the caller supplies one.\<close>

definition validate_plain_paragraph_block :: "json \<Rightarrow> ustr option \<Rightarrow> unit scope_result" where
  "validate_plain_paragraph_block block expected =
    and_then (ok_or (Refused ''appended block must be an object'') (as_obj block)) (\<lambda>obj.
    if Option.bind (map_of obj (u ''type'')) as_str \<noteq> Some (u ''paragraph'')
    then Inl (Refused ''continuation may append only paragraph blocks'')
    else
    and_then (ok_or (Refused ''appended paragraph attrs are required'')
                (Option.bind (map_of obj (u ''attrs'')) as_obj)) (\<lambda>attrs.
    if length attrs \<noteq> 1 \<or> u ''id'' \<notin> fst ` set attrs
    then Inl (Refused ''appended paragraphs may only carry their fresh ID'')
    else
    and_then (ok_or (Refused ''appended paragraphs must contain nonblank plain text'')
                (Option.bind (map_of obj (u ''content'')) as_arr)) (\<lambda>content.
    if length content \<noteq> 1
    then Inl (Refused ''appended paragraphs must contain one plain text node'')
    else
    and_then (ok_or (Refused ''appended paragraph content must be an object'') (as_obj (content ! 0))) (\<lambda>node.
    if Option.bind (map_of node (u ''type'')) as_str \<noteq> Some (u ''text'') \<or> u ''marks'' \<in> fst ` set node
    then Inl (Refused ''appended paragraphs cannot contain formatting or hard breaks'')
    else
    and_then (ok_or (Refused ''appended paragraph text is required'')
                (Option.bind (map_of node (u ''text'')) as_str)) (\<lambda>txt.
    if trim txt = [] \<or> contains_any txt [13, 10]
    then Inl (Refused ''appended paragraph text must be nonblank and single-line'')
    else if expected \<noteq> None \<and> expected \<noteq> Some txt
    then Inl (Refused ''appended paragraph text does not match the candidate'')
    else Inr ())))))"

definition content_of :: "json \<Rightarrow> json list" where
  "content_of snap =
    (case Option.bind (Option.bind (json_get snap (u ''body'')) (\<lambda>b. json_get b (u ''content''))) as_arr of
       Some bs \<Rightarrow> bs | None \<Rightarrow> [])"

definition validate_appended_blocks ::
  "snapshot_receipt \<Rightarrow> token_doc \<Rightarrow> nat \<Rightarrow> ustr list \<Rightarrow> ustr list option \<Rightarrow> unit scope_result" where
  "validate_appended_blocks result result_doc first_appended source_ids paragraphs =
    (if length (spans result_doc) < first_appended
     then Inl (Refused ''append result removed source blocks'')
     else
       let appended = drop first_appended (spans result_doc);
           blocks = content_of (snapshot result) in
       if paragraphs \<noteq> None \<and> map_option length paragraphs \<noteq> Some (length appended)
       then Inl (Refused ''append result paragraph count does not match the candidate'')
       else
         try_each (\<lambda>(index, span).
             if span_id span \<in> set source_ids
             then Inl (Refused ''appended paragraph reuses an existing block ID'')
             else if length blocks \<le> first_appended + index
             then Inl (Refused ''append result block is missing'')
             else validate_plain_paragraph_block (blocks ! (first_appended + index))
                    (map_option (\<lambda>items. items ! index) paragraphs))
           (List.enumerate 0 appended))"

definition finish_append_receipt ::
  "snapshot_receipt \<Rightarrow> snapshot_receipt \<Rightarrow> token_doc \<Rightarrow> token_doc \<Rightarrow> ustr \<Rightarrow> ustr \<Rightarrow> nat \<Rightarrow> scope_receipt scope_result" where
  "finish_append_receipt source result source_doc result_doc quoted quoted_hash n =
    and_then (to_u32 (length (toks source_doc)) ''source token count exceeds u32'') (\<lambda>sc.
    and_then (to_u32 (length (toks result_doc)) ''result token count exceeds u32'') (\<lambda>rc.
    Inr \<lparr>accepted = True, receipt_scope = Append, receipt_source_hash = hash source,
         result_hash = hash result, receipt_quote = quoted, receipt_quote_hash = quoted_hash,
         receipt_prefix = plain_text (toks source_doc), receipt_suffix = [], source_token_count = sc,
         result_token_count = rc, replacement_token_count = n\<rparr>))"

text \<open>
  What the two source shapes allow after the grant has been checked. \<open>Inr True\<close> is the
  early return of the empty placeholder that received no paragraph.
\<close>

definition append_to_placeholder ::
  "snapshot_receipt \<Rightarrow> token_doc \<Rightarrow> token_doc \<Rightarrow> ustr list option \<Rightarrow> bool scope_result" where
  "append_to_placeholder result source_doc result_doc paragraphs =
    (if spans result_doc = [] then Inl (Refused ''append result has no blocks'')
     else
       let first = spans result_doc ! 0 in
       if span_id first \<noteq> span_id (spans source_doc ! 0) \<or> span_type first \<noteq> u ''paragraph''
       then Inl (Refused ''an empty chapter's first generated paragraph must retain the placeholder ID'')
       else if length (spans result_doc) = length (spans source_doc) \<and> paragraphs \<in> {None, Some []}
       then (if span_text first = [] then Inr True
             else Inl (Refused ''an empty chapter requires a generated paragraph candidate''))
       else if span_attrs first \<noteq> span_attrs (spans source_doc ! 0)
       then Inl (Refused ''the empty placeholder block attributes changed'')
       else
         and_then (validate_plain_paragraph_block (content_of (snapshot result) ! 0)
                     (case paragraphs of Some (p # ps) \<Rightarrow> Some p | _ \<Rightarrow> None)) (\<lambda>_.
         and_then (case paragraphs of
                     None \<Rightarrow> Inr ()
                   | Some [] \<Rightarrow> Inl (Refused ''append candidate must contain at least one paragraph'')
                   | Some (p # ps) \<Rightarrow>
                       ensure (span_text first = p)
                         (Refused ''the first generated paragraph does not match the candidate'')) (\<lambda>_.
         and_then (validate_appended_blocks result result_doc 1 (map span_id (spans source_doc))
                     (map_option tl paragraphs)) (\<lambda>_. Inr False))))"

definition append_after_source ::
  "snapshot_receipt \<Rightarrow> token_doc \<Rightarrow> token_doc \<Rightarrow> ustr list option \<Rightarrow> unit scope_result" where
  "append_after_source result source_doc result_doc paragraphs =
    (if length (toks result_doc) < length (toks source_doc) \<or>
        take (length (toks source_doc)) (toks result_doc) \<noteq> toks source_doc
     then Inl (Refused ''append result changes the existing source prefix'')
     else validate_appended_blocks result result_doc (length (spans source_doc))
            (map span_id (spans source_doc)) paragraphs)"

definition result_error :: "env \<Rightarrow> scope_request \<Rightarrow> snap_error \<Rightarrow> scope_error" where
  "result_error E req e =
    (if mentions_duplicate_id e then
       (if result_reuses_source_id E (source_snapshot req) (result_snapshot req)
        then ReusesExistingId e else ReusesGeneratedId e)
     else ResultInvalid e)"

definition check_append_grant ::
  "snapshot_receipt \<Rightarrow> scope_grant \<Rightarrow> block_span \<Rightarrow> ustr \<Rightarrow> ustr \<Rightarrow> unit scope_result" where
  "check_append_grant source g source_last quoted quoted_hash =
    (if grant_start g \<noteq> None then Inl (Refused ''append scope must not have a start endpoint'')
     else
       and_then (ok_or (Refused ''append scope requires an end endpoint'') (grant_end g)) (\<lambda>fin.
       if block_id_of fin \<noteq> span_id source_last \<or> utf16_offset fin \<noteq> span_units source_last
       then Inl (Refused ''append scope end must match the final source block'')
       else if source_hash g \<noteq> hash source then Inl (Refused ''scope sourceHash does not match source snapshot'')
       else if quote g \<noteq> quoted then Inl (Refused ''append scope quote does not match the final source block'')
       else if quote_hash g \<noteq> quoted_hash
       then Inl (Refused ''append scope quoteHash does not match the final source block'')
       else if prefix g \<noteq> None \<or> suffix g \<noteq> None
       then Inl (Refused ''append scope does not support prefix or suffix context'')
       else Inr ()))"

definition validate_append_impl :: "env \<Rightarrow> scope_request \<Rightarrow> ustr list option \<Rightarrow> scope_receipt scope_result" where
  "validate_append_impl E req paragraphs =
    and_then (map_err SourceInvalid (canonical_snapshot E (source_snapshot req))) (\<lambda>source.
    and_then (map_err (result_error E req) (canonical_snapshot E (result_snapshot req))) (\<lambda>result.
    and_then (map_err SourceTokens (token_document (snapshot source))) (\<lambda>source_doc.
    and_then (map_err ResultTokens (token_document (snapshot result))) (\<lambda>result_doc.
    if spans source_doc = [] then Inl (Refused ''append scope requires at least one source block'')
    else
      let source_last = last (spans source_doc);
          quoted_tokens = slice (token_start source_last) (token_end source_last) (toks source_doc);
          quoted = plain_text quoted_tokens; quoted_hash = structured_hash E quoted_tokens in
      and_then (check_append_grant source (scope req) source_last quoted quoted_hash) (\<lambda>_.
      and_then (if is_empty_placeholder source_doc
                then append_to_placeholder result source_doc result_doc paragraphs
                else and_then (append_after_source result source_doc result_doc paragraphs) (\<lambda>_. Inr False)) (\<lambda>early.
      if early then finish_append_receipt source result source_doc result_doc quoted quoted_hash 0
      else
        and_then (to_u32 (length (toks result_doc) - length (toks source_doc))
                    ''append replacement token count exceeds u32'') (\<lambda>n.
        finish_append_receipt source result source_doc result_doc quoted quoted_hash n)))))))"

definition validate_scope :: "env \<Rightarrow> scope_request \<Rightarrow> scope_receipt scope_result" where
  "validate_scope E req =
    (if grant_kind (scope req) = Append then validate_append_impl E req None
     else validate_scope_impl E req None)"

definition validate_append :: "env \<Rightarrow> scope_request \<Rightarrow> ustr list \<Rightarrow> scope_receipt scope_result" where
  "validate_append E req paragraphs =
    (if grant_kind (scope req) \<noteq> Append then Inl (Refused ''append validation requires an append scope'')
     else and_then (validate_append_paragraphs paragraphs) (\<lambda>_. validate_append_impl E req (Some paragraphs)))"

end
