(* ===== verification/Scope_Layout.thy ===== *)
theory Scope_Layout
  imports Scope
begin

text \<open>
  The token stream of a rendered document, block by block: \<open>layout\<close> says which tokens and
  spans \<open>token_document\<close> produces for a typed document, and the lemmas locate the tokens of
  one block inside the stream. The properties of scope validation rest on this layout.
\<close>

section \<open>Tokens of a typed document\<close>

fun inline_toks :: "block_style \<Rightarrow> inline \<Rightarrow> structural_token list" where
  "inline_toks st (Run t ms) = map (\<lambda>c. Scalar [c] (map mark_value ms) st) t"
| "inline_toks st Break = [HardBreakToken st]"

fun inline_text :: "inline \<Rightarrow> ustr" where
  "inline_text (Run t ms) = t"
| "inline_text Break = [10]"

fun attrs_value :: "block \<Rightarrow> json" where
  "attrs_value (Paragraph i xs) = JObj [(u ''id'', JStr i)]"
| "attrs_value (Heading i l xs) = JObj [(u ''id'', JStr i), (u ''level'', JNum (PosInt l))]"
| "attrs_value (SceneBreak i) = JObj [(u ''id'', JStr i)]"

fun block_type :: "block \<Rightarrow> ustr" where
  "block_type (Paragraph i xs) = u ''paragraph''"
| "block_type (Heading i l xs) = u ''heading''"
| "block_type (SceneBreak i) = u ''sceneBreak''"

fun style_of :: "block \<Rightarrow> block_style option" where
  "style_of (Paragraph i xs) = Some \<lparr>style_type = u ''paragraph'', style_level = None\<rparr>"
| "style_of (Heading i l xs) = Some \<lparr>style_type = u ''heading'', style_level = Some (ucast l)\<rparr>"
| "style_of (SceneBreak i) = None"

definition block_inner :: "block \<Rightarrow> structural_token list" where
  "block_inner b =
    (case style_of b of
       None \<Rightarrow> [SceneBreakToken (block_id b) (attrs_value b)]
     | Some st \<Rightarrow> concat (map (inline_toks st) (block_inlines b)))"

definition block_toks :: "block \<Rightarrow> structural_token list" where
  "block_toks b =
    (case style_of b of
       None \<Rightarrow> block_inner b
     | Some st \<Rightarrow> OpenBlock (block_id b) (block_type b) (attrs_value b) # block_inner b @ [CloseBlock])"

definition document_toks :: "block list \<Rightarrow> structural_token list" where
  "document_toks bs = concat (map block_toks bs)"

definition block_text :: "block \<Rightarrow> ustr" where
  "block_text b = concat (map inline_text (block_inlines b))"

definition span_at :: "nat \<Rightarrow> block \<Rightarrow> block_span" where
  "span_at n b =
    (let opened = (if style_of b = None then n else n + 1); inner = opened + length (block_inner b) in
     \<lparr>span_id = block_id b, span_type = block_type b, span_attrs = attrs_value b,
      span_style = style_of b, token_start = n, content_start = opened, content_end = inner,
      token_end = (if style_of b = None then inner else inner + 1), span_units = block_units b,
      span_text = block_text b\<rparr>)"

fun spans_from :: "nat \<Rightarrow> block list \<Rightarrow> block_span list" where
  "spans_from n [] = []"
| "spans_from n (b # bs) = span_at n b # spans_from (n + length (block_toks b)) bs"

fun ids_from :: "nat \<Rightarrow> block list \<Rightarrow> (ustr \<times> nat) list" where
  "ids_from k [] = []"
| "ids_from k (b # bs) = ids_from (Suc k) bs @ [(block_id b, k)]"

definition layout :: "block list \<Rightarrow> token_doc" where
  "layout bs = \<lparr>toks = document_toks bs, spans = spans_from 0 bs, by_id = ids_from 0 bs\<rparr>"

lemma scalar_tokens:
  "units + utf16_len t < 2 ^ 32 \<Longrightarrow>
   try_fold (scalar_token ms st) (units, s, ts) t
     = Inr (units + utf16_len t, s @ t, ts @ map (\<lambda>c. Scalar [c] ms st) t)"
  by (induction t arbitrary: units s ts) (simp_all add: scalar_token_def u32_checked_add_def)

lemma inline_tokens_value:
  assumes "units + inline_units x < 2 ^ 32"
  shows "inline_tokens st (units, s, ts) (inline_value x)
    = Inr (units + inline_units x, s @ inline_text x, ts @ inline_toks st x)"
  using assms
  by (cases x) (auto simp: inline_tokens_def scalar_tokens u32_checked_add_def Let_def)

lemma inlines_tokens:
  "units + sum_list (map inline_units xs) < 2 ^ 32 \<Longrightarrow>
   try_fold (inline_tokens st) (units, s, ts) (map inline_value xs)
     = Inr (units + sum_list (map inline_units xs), s @ concat (map inline_text xs),
            ts @ concat (map (inline_toks st) xs))"
  by (induction xs arbitrary: units s ts) (simp_all add: inline_tokens_value add.assoc)

lemma block_step_value:
  assumes "block_units b < 2 ^ 32" "block_id b \<notin> fst ` set (by_id D)"
  shows "block_tokens_step D (block_value b) =
    Inr \<lparr>toks = toks D @ block_toks b, spans = spans D @ [span_at (length (toks D)) b],
         by_id = (block_id b, length (spans D)) # by_id D\<rparr>"
proof (cases b)
  case (Paragraph i xs)
  with assms show ?thesis
    by (auto simp: block_tokens_step_def Let_def content_entry_def inlines_tokens block_units_def
        block_toks_def block_inner_def span_at_def block_text_def)
next
  case (Heading i l xs)
  with assms show ?thesis
    by (auto simp: block_tokens_step_def Let_def content_entry_def inlines_tokens block_units_def
        block_toks_def block_inner_def span_at_def block_text_def)
next
  case (SceneBreak i)
  with assms show ?thesis
    by (auto simp: block_tokens_step_def Let_def block_units_def
        block_toks_def block_inner_def span_at_def block_text_def)
qed

lemma blocks_tokens:
  assumes "\<forall>b \<in> set bs. block_units b < 2 ^ 32" "distinct (map block_id bs)"
    and "set (map block_id bs) \<inter> fst ` set (by_id D) = {}"
  shows "try_fold block_tokens_step D (map block_value bs) =
    Inr \<lparr>toks = toks D @ document_toks bs, spans = spans D @ spans_from (length (toks D)) bs,
         by_id = ids_from (length (spans D)) bs @ by_id D\<rparr>"
  using assms
  by (induction bs arbitrary: D) (simp_all add: block_step_value document_toks_def)

lemma document_units_bound: "b \<in> set bs \<Longrightarrow> block_units b \<le> document_units bs"
  by (simp add: document_units_def member_le_sum_list)

lemma token_document_value:
  assumes "document_ok E bs"
  shows "token_document (document_value bs) = Inr (layout bs)"
proof -
  have "\<forall>b \<in> set bs. block_units b < 2 ^ 32"
    using assms document_units_bound [of _ bs]
    by (fastforce simp: document_ok_def MAX_UTF16_UNITS_def)
  with assms show ?thesis
    by (simp add: token_document_def document_value_def layout_def blocks_tokens document_ok_def)
qed

section \<open>Locating a block in the stream\<close>

lemma document_toks_simps [simp]:
  "document_toks [] = []"
  "document_toks (b # bs) = block_toks b @ document_toks bs"
  "document_toks (as @ bs) = document_toks as @ document_toks bs"
  by (simp_all add: document_toks_def)

lemma layout_simps [simp]:
  "toks (layout bs) = document_toks bs" "spans (layout bs) = spans_from 0 bs"
  "by_id (layout bs) = ids_from 0 bs"
  by (simp_all add: layout_def)

lemma length_spans_from [simp]: "length (spans_from n bs) = length bs"
  by (induction bs arbitrary: n) auto

lemma spans_from_Nil [simp]: "spans_from n bs = [] \<longleftrightarrow> bs = []"
  by (cases bs) auto

lemma spans_from_append:
  "spans_from n (as @ bs) = spans_from n as @ spans_from (n + length (document_toks as)) bs"
  by (induction as arbitrary: n) (auto simp: add.assoc)

lemma spans_from_nth:
  "i < length bs \<Longrightarrow> spans_from n bs ! i = span_at (n + length (document_toks (take i bs))) (bs ! i)"
  by (induction bs arbitrary: n i) (auto simp: nth_Cons' take_Cons' add.assoc)

lemma span_at_simps [simp]:
  "span_id (span_at n b) = block_id b" "span_type (span_at n b) = block_type b"
  "span_attrs (span_at n b) = attrs_value b" "span_style (span_at n b) = style_of b"
  "token_start (span_at n b) = n" "span_units (span_at n b) = block_units b"
  "span_text (span_at n b) = block_text b"
  by (simp_all add: span_at_def Let_def)

lemma map_span_id [simp]: "map span_id (spans_from n bs) = map block_id bs"
  by (induction bs arbitrary: n) auto

lemma span_at_end: "token_end (span_at n b) = n + length (block_toks b)"
  by (simp add: span_at_def Let_def block_toks_def split: option.split)

lemma span_at_content:
  "content_start (span_at n b) = (if style_of b = None then n else n + 1)"
  "content_end (span_at n b) = content_start (span_at n b) + length (block_inner b)"
  "content_end (span_at n b) \<le> n + length (block_toks b)"
  by (auto simp: span_at_def Let_def block_toks_def)

lemma ids_from_lookup:
  "map_of (ids_from k bs) i = Some j \<Longrightarrow> k \<le> j \<and> j - k < length bs \<and> block_id (bs ! (j - k)) = i"
proof (induction bs arbitrary: k)
  case (Cons b bs)
  show ?case
  proof (cases "map_of (ids_from (Suc k) bs) i")
    case None
    with Cons.prems show ?thesis by (auto simp: map_add_def split: if_splits)
  next
    case (Some j')
    with Cons.prems have "j' = j" by (auto simp: map_add_def)
    with Some Cons.IH [of "Suc k"] have "Suc k \<le> j" "j - Suc k < length bs" "block_id (bs ! (j - Suc k)) = i"
      by auto
    moreover from this have "j - k = Suc (j - Suc k)" by simp
    ultimately show ?thesis by auto
  qed
qed simp

lemma block_index_layout:
  "block_index (layout bs) i = Inr j \<Longrightarrow> j < length bs \<and> block_id (bs ! j) = i"
  using ids_from_lookup [of 0 bs i j] by (simp add: block_index_def)

lemma document_toks_split:
  "i < length bs \<Longrightarrow>
   document_toks bs = document_toks (take i bs) @ block_toks (bs ! i) @ document_toks (drop (Suc i) bs)"
  by (metis document_toks_simps(2,3) id_take_nth_drop)

lemma slice_append_mid: "slice (length a) (length a + length b) (a @ b @ c) = b"
  by (simp add: slice_def)

lemma set_slice_mono:
  assumes "a \<le> i" "j \<le> b"
  shows "set (slice i j xs) \<subseteq> set (slice a b xs)"
proof
  fix x assume "x \<in> set (slice i j xs)"
  then obtain k where k: "k < length (slice i j xs)" "x = slice i j xs ! k"
    by (auto simp: in_set_conv_nth)
  then have "i + k < length xs" "k < j - i" "x = xs ! (i + k)" by (auto simp: slice_def)
  moreover from this assms have "i + k - a < b - a" "a + (i + k - a) = i + k" by auto
  ultimately have "i + k - a < length (slice a b xs)" "slice a b xs ! (i + k - a) = x"
    using assms by (auto simp: slice_def)
  then show "x \<in> set (slice a b xs)" by (metis nth_mem)
qed

lemma slice_document_toks:
  assumes "i \<le> j" "j \<le> length bs"
  shows "slice (length (document_toks (take i bs))) (length (document_toks (take j bs))) (document_toks bs)
    = document_toks (slice i j bs)"
proof -
  have "take j bs = take i bs @ slice i j bs"
    using assms by (simp add: slice_def take_add [symmetric])
  then have j: "document_toks (take j bs) = document_toks (take i bs) @ document_toks (slice i j bs)"
    by simp
  have "bs = take j bs @ drop j bs" by simp
  then have "document_toks bs = document_toks (take i bs) @ document_toks (slice i j bs) @ document_toks (drop j bs)"
    using j by (metis append_assoc document_toks_simps(3))
  then show ?thesis using j by (simp add: slice_append_mid)
qed

lemma content_slice:
  assumes "i < length bs"
  shows "slice (content_start (spans_from 0 bs ! i)) (content_end (spans_from 0 bs ! i)) (document_toks bs)
    = block_inner (bs ! i)"
proof (cases "style_of (bs ! i)")
  case None
  with assms show ?thesis
    using slice_append_mid [of "document_toks (take i bs)" "block_inner (bs ! i)"]
    by (subst document_toks_split [OF assms])
      (simp add: spans_from_nth span_at_content block_toks_def)
next
  case (Some st)
  let ?b = "bs ! i"
  have "document_toks bs = (document_toks (take i bs) @ [OpenBlock (block_id ?b) (block_type ?b) (attrs_value ?b)])
      @ block_inner ?b @ CloseBlock # document_toks (drop (Suc i) bs)"
    using document_toks_split [OF assms] Some by (simp add: block_toks_def)
  with Some assms show ?thesis
    using slice_append_mid [of "document_toks (take i bs) @ [OpenBlock (block_id ?b) (block_type ?b) (attrs_value ?b)]"
        "block_inner ?b" "CloseBlock # document_toks (drop (Suc i) bs)"]
    by (simp add: spans_from_nth span_at_content)
qed

section \<open>Blocks can be read back from the stream\<close>

fun is_opener :: "structural_token \<Rightarrow> bool" where
  "is_opener (OpenBlock i t a) \<longleftrightarrow> True"
| "is_opener (SceneBreakToken i a) \<longleftrightarrow> True"
| "is_opener _ \<longleftrightarrow> False"

lemma inline_toks_inner:
  "x \<in> set (inline_toks st i) \<Longrightarrow> \<not> is_opener x \<and> \<not> is_separator x \<and> \<not> is_boundary x \<and> token_id x = None"
  by (cases i) auto

lemma text_inner:
  "style_of b \<noteq> None \<Longrightarrow> x \<in> set (block_inner b) \<Longrightarrow>
   \<not> is_opener x \<and> \<not> is_separator x \<and> \<not> is_boundary x \<and> token_id x = None"
  by (auto simp: block_inner_def dest!: inline_toks_inner)

lemma block_toks_ends:
  obtains a as z zs where "block_toks b = a # as" "is_opener a" "\<forall>x \<in> set as. \<not> is_opener x"
    "block_toks b = zs @ [z]" "is_separator z" "\<forall>x \<in> set zs. \<not> is_separator x"
proof (cases "style_of b")
  case None
  then show ?thesis
    by (intro that [of _ "[]" "[]"]) (auto simp: block_toks_def block_inner_def)
next
  case (Some st)
  have inner: "\<forall>x \<in> set (block_inner b). \<not> is_opener x \<and> \<not> is_separator x"
    using Some text_inner [of b] by simp
  show ?thesis
    by (rule that [of "OpenBlock (block_id b) (block_type b) (attrs_value b)" "block_inner b @ [CloseBlock]"
          "OpenBlock (block_id b) (block_type b) (attrs_value b) # block_inner b" CloseBlock])
      (use inner Some in \<open>auto simp: block_toks_def\<close>)
qed

lemma first_marked_split:
  assumes "zs @ z # r = zs' @ z' # r'" "P z" "P z'" "\<forall>x \<in> set zs. \<not> P x" "\<forall>x \<in> set zs'. \<not> P x"
  shows "zs = zs' \<and> z = z' \<and> r = r'"
proof -
  have "takeWhile (\<lambda>x. \<not> P x) (zs @ z # r) = zs" "takeWhile (\<lambda>x. \<not> P x) (zs' @ z' # r') = zs'"
    using assms(2-5) by (simp_all add: takeWhile_append)
  then have "zs = zs'" using assms(1) by metis
  with assms(1) show ?thesis by simp
qed

lemma block_toks_cancel_left:
  assumes "block_toks a @ r = block_toks b @ r'"
  shows "block_toks a = block_toks b \<and> r = r'"
proof -
  obtain z zs where a: "block_toks a = zs @ [z]" "is_separator z" "\<forall>x \<in> set zs. \<not> is_separator x"
    by (rule block_toks_ends)
  obtain y ys where b: "block_toks b = ys @ [y]" "is_separator y" "\<forall>x \<in> set ys. \<not> is_separator x"
    by (rule block_toks_ends)
  from assms have "zs @ z # r = ys @ y # r'" using a b by simp
  from first_marked_split [where P = is_separator, OF this a(2) b(2) a(3) b(3)] show ?thesis
    using a b by auto
qed

lemma block_toks_cancel_right:
  assumes "r @ block_toks a = r' @ block_toks b"
  shows "block_toks a = block_toks b \<and> r = r'"
proof -
  obtain z zs where a: "block_toks a = z # zs" "is_opener z" "\<forall>x \<in> set zs. \<not> is_opener x"
    by (rule block_toks_ends)
  obtain y ys where b: "block_toks b = y # ys" "is_opener y" "\<forall>x \<in> set ys. \<not> is_opener x"
    by (rule block_toks_ends)
  from assms have "rev zs @ z # rev r = rev ys @ y # rev r'"
    using a b by (metis append_Cons append_assoc append_Nil rev.simps(2) rev_append rev_rev_ident)
  moreover have "\<forall>x \<in> set (rev zs). \<not> is_opener x" "\<forall>x \<in> set (rev ys). \<not> is_opener x"
    using a b by auto
  ultimately show ?thesis
    using first_marked_split [of "rev zs" z "rev r" "rev ys" y "rev r'" is_opener] a b by auto
qed

lemma run_tokens_cut:
  assumes "takeWhile (\<lambda>k. \<exists>c. k = Scalar [c] ms st) r = []"
  shows "takeWhile (\<lambda>k. \<exists>c. k = Scalar [c] ms st) (map (\<lambda>c. Scalar [c] ms st) t @ r)
    = map (\<lambda>c. Scalar [c] ms st) t"
  using assms by (induction t) auto

lemma tokens_after_run:
  assumes "unmergeable (Run t ms # xs)" "list_all (inline_ok E) xs"
  shows "takeWhile (\<lambda>k. \<exists>c. k = Scalar [c] (map mark_value ms) st) (concat (map (inline_toks st) xs)) = []"
proof (cases xs)
  case (Cons y ys)
  show ?thesis
  proof (cases y)
    case (Run s ns)
    with Cons assms have "ms \<noteq> ns" "s \<noteq> []" by (auto simp: unmergeable_def)
    with Cons Run show ?thesis by (cases s) auto
  qed (use Cons in simp)
qed simp

lemma unmergeable_tl: "unmergeable (x # xs) \<Longrightarrow> unmergeable xs"
  by (cases xs) (auto simp: unmergeable_def)

lemma inlines_toks_inj:
  assumes "concat (map (inline_toks st) xs) = concat (map (inline_toks st) ys)"
    and "list_all (inline_ok E) xs" "list_all (inline_ok E) ys" "unmergeable xs" "unmergeable ys"
  shows "xs = ys"
  using assms
proof (induction xs arbitrary: ys)
  case Nil
  then show ?case
  proof (cases ys)
    case (Cons y ys')
    with Nil show ?thesis by (cases y) auto
  qed simp
next
  case (Cons x xs)
  obtain y ys' where ys: "ys = y # ys'"
    using Cons.prems(1,2) by (cases ys; cases x) auto
  have "x = y \<and> concat (map (inline_toks st) xs) = concat (map (inline_toks st) ys')"
  proof (cases x)
    case Break
    with Cons.prems ys show ?thesis by (cases y) (auto simp: neq_Nil_conv)
  next
    case (Run t ms)
    with Cons.prems ys obtain s ns where y: "y = Run s ns" by (cases y) (auto simp: neq_Nil_conv)
    from Cons.prems ys Run y have "t \<noteq> []" "s \<noteq> []" by auto
    with Cons.prems(1) ys Run y have "ms = ns" by (cases t; cases s) auto
    let ?w = "takeWhile (\<lambda>k. \<exists>c. k = Scalar [c] (map mark_value ms) st)"
    have "?w (inline_toks st x @ concat (map (inline_toks st) xs)) = inline_toks st x"
      using tokens_after_run [of t ms xs E st] Cons.prems(2,4) Run by (simp add: run_tokens_cut)
    moreover have "?w (inline_toks st y @ concat (map (inline_toks st) ys')) = inline_toks st y"
      using tokens_after_run [of s ns ys' E st] Cons.prems(3,5) ys y \<open>ms = ns\<close> by (simp add: run_tokens_cut)
    moreover have "inline_toks st x @ concat (map (inline_toks st) xs)
        = inline_toks st y @ concat (map (inline_toks st) ys')"
      using Cons.prems(1) ys by simp
    ultimately have eq: "inline_toks st x = inline_toks st y" by metis
    with Run y have "map (\<lambda>c. Scalar [c] (map mark_value ms) st) t = map (\<lambda>c. Scalar [c] (map mark_value ns) st) s"
      by simp
    then have "t = s" using \<open>ms = ns\<close> by (simp add: inj_on_def inj_map_eq_map)
    with eq Cons.prems(1) ys Run y \<open>ms = ns\<close> show ?thesis by simp
  qed
  with Cons ys show ?case by (auto dest: unmergeable_tl)
qed

lemma block_toks_inj:
  assumes "block_toks a = block_toks b" "block_ok E a" "block_ok E b"
  shows "a = b"
proof -
  have inner: "block_inner a = block_inner b" if "style_of a \<noteq> None" "style_of b \<noteq> None"
    using assms(1) that by (auto simp: block_toks_def)
  show ?thesis
  proof (cases a; cases b)
    fix i xs j ys assume ab: "a = Paragraph i xs" "b = Paragraph j ys"
    with inner have "xs = ys"
      using assms(2,3) by (auto simp: block_inner_def intro: inlines_toks_inj)
    with ab assms(1) show ?thesis by (auto simp: block_toks_def)
  next
    fix i l xs j k ys assume ab: "a = Heading i l xs" "b = Heading j k ys"
    with assms(1) have "l = k" "i = j" by (auto simp: block_toks_def)
    with ab inner have "xs = ys"
      using assms(2,3) by (auto simp: block_inner_def intro: inlines_toks_inj)
    with ab \<open>l = k\<close> \<open>i = j\<close> show ?thesis by simp
  qed (use assms(1) in \<open>auto simp: block_toks_def block_inner_def\<close>)
qed

lemma block_toks_nonempty [simp]: "block_toks b \<noteq> []"
  by (auto simp: block_toks_def block_inner_def split: option.split)

lemma document_toks_prefix:
  assumes "document_toks xs = document_toks ys @ r" "list_all (block_ok E) xs" "list_all (block_ok E) ys"
  shows "\<exists>zs. xs = ys @ zs \<and> r = document_toks zs"
  using assms
proof (induction ys arbitrary: xs)
  case (Cons y ys)
  then obtain x xs' where x: "xs = x # xs'" by (cases xs) auto
  with Cons.prems have "block_toks x = block_toks y" "document_toks xs' = document_toks ys @ r"
    using block_toks_cancel_left [of x "document_toks xs'" y "document_toks ys @ r"] by auto
  moreover from this Cons.prems x have "x = y" by (auto intro: block_toks_inj)
  ultimately show ?case using Cons.IH [of xs'] Cons.prems x by auto
qed simp

lemma document_toks_suffix:
  assumes "document_toks xs = r @ document_toks ys" "list_all (block_ok E) xs" "list_all (block_ok E) ys"
  shows "\<exists>zs. xs = zs @ ys \<and> r = document_toks zs"
  using assms
proof (induction ys arbitrary: xs rule: rev_induct)
  case (snoc y ys)
  then obtain x xs' where x: "xs = xs' @ [x]" by (cases xs rule: rev_cases) auto
  with snoc.prems have "block_toks x = block_toks y" "document_toks xs' = r @ document_toks ys"
    using block_toks_cancel_right [of "document_toks xs'" x "r @ document_toks ys" y] by auto
  moreover from this snoc.prems x have "x = y" by (auto intro: block_toks_inj)
  ultimately show ?case using snoc.IH [of xs'] snoc.prems x by auto
qed simp

end
