(* ===== verification/Scope_Proofs.thy ===== *)
theory Scope_Proofs
  imports Scope_Layout
begin

text \<open>
  What an accepted scope check guarantees: blocks outside the selection are unchanged, a
  captured grant accepts the unchanged document, an endpoint sits exactly at its UTF-16 offset
  on a grapheme boundary, a text replacement is the exact text in the inherited formatting,
  and an append keeps every source block and adds only fresh plain paragraphs.
\<close>

section \<open>Ranges stay inside their blocks\<close>

lemma canonical_layout:
  assumes "canonical_snapshot E v = Inr src"
  obtains bs where "document_ok E bs" "src = receipt_of E bs" "snapshot src = document_value bs"
    "token_document (snapshot src) = Inr (layout bs)"
proof -
  from assms obtain bs where "document_ok E bs" "src = receipt_of E bs"
    unfolding canonical_snapshot_def using accepted_receipt by blast
  then show ?thesis
    by (intro that [of bs]) (auto simp: receipt_of_def Let_def token_document_value)
qed

lemma walk_to_bound: "walk_to n m ts = Some k \<Longrightarrow> k < length ts"
  by (induction n m ts arbitrary: k rule: walk_to.induct) (auto split: if_splits)

lemma content_length:
  assumes "i < length bs"
  shows "content_end (spans_from 0 bs ! i) = content_start (spans_from 0 bs ! i) + length (block_inner (bs ! i))"
    "length (document_toks (take i bs)) \<le> content_start (spans_from 0 bs ! i)"
    "content_end (spans_from 0 bs ! i) \<le> length (document_toks (take (Suc i) bs))"
  using assms span_at_content(3) [of "length (document_toks (take i bs))" "bs ! i"]
  by (auto simp: spans_from_nth span_at_content take_Suc_conv_app_nth)

lemma endpoint_token_bound:
  assumes "endpoint_token E (layout bs) i ep = Inr k" "i < length bs"
  shows "content_start (spans_from 0 bs ! i) \<le> k \<and> k \<le> content_end (spans_from 0 bs ! i)"
proof -
  let ?s = "spans_from 0 bs ! i"
  from assms have "(case walk_to 0 (utf16_offset ep) (slice (content_start ?s) (content_end ?s) (document_toks bs)) of
      Some j \<Rightarrow> k = content_start ?s + j | None \<Rightarrow> k = content_end ?s)"
    by (auto simp: endpoint_token_def and_then_eq_Inr Let_def split: option.splits)
  moreover have "length (slice (content_start ?s) (content_end ?s) (document_toks bs)) = length (block_inner (bs ! i))"
    using content_slice [OF assms(2)] by simp
  ultimately show ?thesis
    using content_length(1) [OF assms(2)] walk_to_bound
    by (fastforce split: option.splits)
qed

definition range_in :: "block list \<Rightarrow> token_range \<Rightarrow> bool" where
  "range_in bs r \<longleftrightarrow>
     first_block r \<le> last_block r \<and> last_block r < length bs \<and>
     length (document_toks (take (first_block r) bs)) \<le> range_start r \<and>
     range_start r \<le> range_end r \<and>
     range_end r \<le> length (document_toks (take (Suc (last_block r)) bs)) \<and>
     selected_ids r = Suc (last_block r) - first_block r"

lemma take_Suc_le: "i \<le> j \<Longrightarrow> length (document_toks (take i bs)) \<le> length (document_toks (take j bs))"
proof -
  assume "i \<le> j"
  then have "take j bs = take i bs @ take (j - i) (drop i bs)"
    by (metis add_diff_inverse_nat linorder_not_less take_add)
  then show ?thesis by simp
qed

lemma scope_range_in:
  assumes "scope_range E (layout bs) g = Inr r" "bs \<noteq> []"
  shows "range_in bs r"
proof (cases "grant_kind g")
  case Passage
  with assms obtain sp ep where ends: "endpoint_token E (layout bs) (first_block r) sp = Inr (range_start r)"
      "endpoint_token E (layout bs) (last_block r) ep = Inr (range_end r)"
    and "block_index (layout bs) (block_id_of sp) = Inr (first_block r)"
    "block_index (layout bs) (block_id_of ep) = Inr (last_block r)"
    "range_start r \<le> range_end r" "selected_ids r = last_block r - first_block r + 1"
    "first_block r \<le> last_block r"
    by (auto simp: scope_range_def and_then_eq_Inr not_less split: if_splits)
  moreover from this have "first_block r < length bs" "last_block r < length bs" by (auto dest: block_index_layout)
  ultimately show ?thesis
    using endpoint_token_bound [OF ends(1)] endpoint_token_bound [OF ends(2)]
      content_length(2) [of "first_block r" bs] content_length(3) [of "last_block r" bs]
    by (auto simp: range_in_def)
next
  case Blocks
  with assms obtain sp ep where *: "first_block r \<le> last_block r" "grant_start g = Some sp" "grant_end g = Some ep"
    "block_index (layout bs) (block_id_of sp) = Inr (first_block r)"
    "block_index (layout bs) (block_id_of ep) = Inr (last_block r)"
    "range_start r = token_start (spans_from 0 bs ! first_block r)"
    "range_end r = token_end (spans_from 0 bs ! last_block r)"
    "selected_ids r = last_block r - first_block r + 1"
    by (auto simp: scope_range_def and_then_eq_Inr not_less split: if_splits)
  moreover from this have "first_block r < length bs" "last_block r < length bs" by (auto dest: block_index_layout)
  moreover have "length (document_toks (take (first_block r) bs)) \<le> length (document_toks (take (Suc (last_block r)) bs))"
    using *(1) by (intro take_Suc_le) simp
  ultimately show ?thesis
    by (auto simp: range_in_def spans_from_nth span_at_end take_Suc_conv_app_nth)
next
  case WholeDocument
  with assms have "r = \<lparr>range_start = 0, range_end = length (document_toks bs), first_block = 0,
      last_block = length bs - 1, selected_ids = length bs\<rparr>"
    by (simp add: scope_range_def split: if_splits)
  with assms(2) show ?thesis by (auto simp: range_in_def)
qed (use assms in \<open>simp add: scope_range_def\<close>)

lemma passage_in_block:
  assumes "scope_range E (layout bs) g = Inr r" "grant_kind g = Passage" "first_block r = last_block r"
  shows "style_of (bs ! first_block r) \<noteq> None \<and> content_start (spans_from 0 bs ! first_block r) \<le> range_start r \<and>
    range_end r \<le> content_end (spans_from 0 bs ! first_block r)"
proof -
  from assms obtain sp ep s where *: "first_block r = s" "block_index (layout bs) (block_id_of sp) = Inr s"
    "endpoint_token E (layout bs) s sp = Inr (range_start r)"
    "endpoint_token E (layout bs) s ep = Inr (range_end r)" "span_style (spans_from 0 bs ! s) \<noteq> None"
    by (auto simp: scope_range_def and_then_eq_Inr split: if_splits)
  then have "s < length bs" by (auto dest: block_index_layout)
  with * endpoint_token_bound show ?thesis by (auto simp: spans_from_nth)
qed

lemma stream_split:
  assumes "range_in bs r"
  obtains P S where
    "take (range_start r) (document_toks bs) = document_toks (take (first_block r) bs) @ P"
    "drop (range_end r) (document_toks bs) = S @ document_toks (drop (Suc (last_block r)) bs)"
proof -
  let ?A = "document_toks (take (first_block r) bs)" and ?B = "document_toks (drop (Suc (last_block r)) bs)"
  have l: "document_toks bs = document_toks (take (Suc (last_block r)) bs) @ ?B"
    and f: "document_toks bs = ?A @ document_toks (drop (first_block r) bs)"
    by (metis append_take_drop_id document_toks_simps(3))+
  have "drop (range_end r) (document_toks bs) = drop (range_end r) (document_toks (take (Suc (last_block r)) bs)) @ ?B"
    using assms l by (simp add: range_in_def)
  moreover have "take (range_start r) (document_toks bs)
      = ?A @ take (range_start r - length ?A) (document_toks (drop (first_block r) bs))"
    using assms f by (simp add: range_in_def)
  ultimately show ?thesis using that by blast
qed

section \<open>Everything outside the scope is unchanged\<close>

lemma slice_eq_split:
  assumes "take i xs = a" "drop j xs = c" "i \<le> j" "length a = i"
  shows "xs = a @ slice i j xs @ c"
proof -
  have "drop i xs = slice i j xs @ drop j xs"
    using assms(3) by (metis slice_def append_take_drop_id drop_drop le_add_diff_inverse2)
  then show ?thesis using assms by (metis append_take_drop_id)
qed

definition outside_unchanged ::
  "env \<Rightarrow> scope_request \<Rightarrow> scope_receipt \<Rightarrow> block list \<Rightarrow> block list \<Rightarrow> token_range \<Rightarrow> bool" where
  "outside_unchanged E req rec bs bs' r \<longleftrightarrow>
     canonical_snapshot E (source_snapshot req) = Inr (receipt_of E bs) \<and>
     canonical_snapshot E (result_snapshot req) = Inr (receipt_of E bs') \<and>
     source_hash (scope req) = hash (receipt_of E bs) \<and>
     receipt_source_hash rec = hash (receipt_of E bs) \<and> result_hash rec = hash (receipt_of E bs') \<and>
     source_token_count rec = length (document_toks bs) \<and> result_token_count rec = length (document_toks bs') \<and>
     scope_range E (layout bs) (scope req) = Inr r \<and>
     (\<exists>mid. bs' = take (first_block r) bs @ mid @ drop (Suc (last_block r)) bs) \<and>
     (\<exists>repl. document_toks bs' = take (range_start r) (document_toks bs) @ repl @ drop (range_end r) (document_toks bs) \<and>
             length repl = replacement_token_count rec)"

lemma to_u32_ok [simp]: "to_u32 n e = Inr m \<longleftrightarrow> m = n \<and> n < 2 ^ 32"
  by (auto simp: to_u32_def)

lemma check_scope_grant_ok [simp]:
  "check_scope_grant E src D r g = Inr x \<longleftrightarrow>
     source_hash g = hash src \<and> quote g = plain_text (selected D r) \<and>
     quote_hash g = structured_hash E (selected D r) \<and>
     prefix g \<in> {None, Some (context_prefix D (first_block r) (range_start r))} \<and>
     suffix g \<in> {None, Some (context_suffix D (last_block r) (range_end r))}"
  by (auto simp: check_scope_grant_def)

lemma replacement_tokens_ok:
  assumes "range_start r \<le> range_end r" "range_end r \<le> length (toks D)"
  shows "replacement_tokens D D' r = Inr repl \<longleftrightarrow>
     toks D' = take (range_start r) (toks D) @ repl @ drop (range_end r) (toks D)"
proof
  assume ok: "replacement_tokens D D' r = Inr repl"
  let ?cut = "length (toks D') - length (drop (range_end r) (toks D))"
  have "range_start r \<le> length (toks D)" using assms by simp
  with ok have "take (range_start r) (toks D') = take (range_start r) (toks D)"
    "drop ?cut (toks D') = drop (range_end r) (toks D)" "range_start r \<le> ?cut"
    "repl = slice (range_start r) ?cut (toks D')"
    by (auto simp: replacement_tokens_def Let_def min_absorb2 split: if_splits)
  with \<open>range_start r \<le> length (toks D)\<close>
  show "toks D' = take (range_start r) (toks D) @ repl @ drop (range_end r) (toks D)"
    using slice_eq_split [of "range_start r" "toks D'" "take (range_start r) (toks D)" ?cut] by simp
next
  assume eq: "toks D' = take (range_start r) (toks D) @ repl @ drop (range_end r) (toks D)"
  then show "replacement_tokens D D' r = Inr repl"
    using assms by (simp add: replacement_tokens_def Let_def slice_def)
qed

lemma range_in_bounds:
  assumes "range_in bs r"
  shows "range_start r \<le> range_end r" "range_end r \<le> length (document_toks bs)"
  using assms take_Suc_le [of "Suc (last_block r)" "length bs" bs] by (auto simp: range_in_def)

lemma accepted_scope:
  assumes "validate_scope_impl E req t = Inr rec"
  obtains bs bs' r repl where
    "document_ok E bs" "document_ok E bs'" "range_in bs r"
    "canonical_snapshot E (source_snapshot req) = Inr (receipt_of E bs)"
    "canonical_snapshot E (result_snapshot req) = Inr (receipt_of E bs')"
    "scope_range E (layout bs) (scope req) = Inr r"
    "source_hash (scope req) = hash (receipt_of E bs)" "result_hash rec = hash (receipt_of E bs')"
    "document_toks bs' = take (range_start r) (document_toks bs) @ repl @ drop (range_end r) (document_toks bs)"
    "replacement_token_count rec = length repl"
    "case t of None \<Rightarrow> True | Some s \<Rightarrow> validate_text_fragment (layout bs) r repl s = Inr ()"
    "receipt_source_hash rec = hash (receipt_of E bs)" "source_token_count rec = length (document_toks bs)"
    "result_token_count rec = length (document_toks bs')"
proof -
  from assms obtain src dst where src: "canonical_snapshot E (source_snapshot req) = Inr src"
    and dst: "canonical_snapshot E (result_snapshot req) = Inr dst"
    by (auto simp: validate_scope_impl_def and_then_eq_Inr)
  obtain bs where bs: "document_ok E bs" "src = receipt_of E bs" "token_document (snapshot src) = Inr (layout bs)"
    using canonical_layout [OF src] by metis
  obtain bs' where bs': "document_ok E bs'" "dst = receipt_of E bs'" "token_document (snapshot dst) = Inr (layout bs')"
    using canonical_layout [OF dst] by metis
  from assms src dst bs(3) bs'(3) obtain r repl where r: "scope_range E (layout bs) (scope req) = Inr r"
    and *: "source_hash (scope req) = hash src" "result_hash rec = hash dst"
    "replacement_tokens (layout bs) (layout bs') r = Inr repl" "replacement_token_count rec = length repl"
    "case t of None \<Rightarrow> True | Some s \<Rightarrow> validate_text_fragment (layout bs) r repl s = Inr ()"
    "receipt_source_hash rec = hash src" "source_token_count rec = length (document_toks bs)"
    "result_token_count rec = length (document_toks bs')"
    by (auto simp: validate_scope_impl_def and_then_eq_Inr split: option.splits)
  have rin: "range_in bs r" using scope_range_in [OF r] bs(1) by (auto simp: document_ok_def)
  with *(3) have "document_toks bs' = take (range_start r) (document_toks bs) @ repl @ drop (range_end r) (document_toks bs)"
    using range_in_bounds [OF rin] by (simp add: replacement_tokens_ok)
  with * bs bs' src dst r rin show ?thesis by (intro that [of bs bs' r repl]) auto
qed

lemma outside_blocks:
  assumes "document_toks bs' = take (range_start r) (document_toks bs) @ repl @ drop (range_end r) (document_toks bs)"
    and "range_in bs r" "document_ok E bs" "document_ok E bs'"
  shows "\<exists>mid. bs' = take (first_block r) bs @ mid @ drop (Suc (last_block r)) bs"
proof -
  have ok: "list_all (block_ok E) bs'" "list_all (block_ok E) (take (first_block r) bs)"
    "list_all (block_ok E) (drop (Suc (last_block r)) bs)"
    using assms(3,4) by (auto simp: document_ok_def list_all_iff dest: in_set_takeD in_set_dropD)
  obtain P S where "take (range_start r) (document_toks bs) = document_toks (take (first_block r) bs) @ P"
    and S: "drop (range_end r) (document_toks bs) = S @ document_toks (drop (Suc (last_block r)) bs)"
    using assms(2) by (rule stream_split)
  with assms(1) have "document_toks bs' = document_toks (take (first_block r) bs) @
      (P @ repl @ S @ document_toks (drop (Suc (last_block r)) bs))" by simp
  from document_toks_prefix [OF this ok(1,2)] obtain zs where zs: "bs' = take (first_block r) bs @ zs"
    and "document_toks zs = (P @ repl @ S) @ document_toks (drop (Suc (last_block r)) bs)" by auto
  from document_toks_suffix [OF this(2) _ ok(3)] zs ok(1) show ?thesis by auto
qed

section \<open>A captured grant accepts the unchanged document\<close>

lemma map_slice: "map f (slice i j xs) = slice i j (map f xs)"
  by (simp add: slice_def take_map drop_map)

lemma token_id_block: "x \<in> set (block_toks b) \<Longrightarrow> token_id x = Some i \<Longrightarrow> i = block_id b"
proof (cases "style_of b")
  case None
  then show "x \<in> set (block_toks b) \<Longrightarrow> token_id x = Some i \<Longrightarrow> i = block_id b"
    by (auto simp: block_toks_def block_inner_def)
next
  case (Some st)
  then show "x \<in> set (block_toks b) \<Longrightarrow> token_id x = Some i \<Longrightarrow> i = block_id b"
    using text_inner [of b x] by (auto simp: block_toks_def)
qed

lemma token_id_document: "x \<in> set (document_toks bs) \<Longrightarrow> token_id x = Some i \<Longrightarrow> i \<in> block_id ` set bs"
  by (induction bs) (auto dest: token_id_block)

lemma selected_in_blocks:
  assumes "range_in bs r"
  shows "set (selected (layout bs) r) \<subseteq> set (document_toks (slice (first_block r) (Suc (last_block r)) bs))"
proof -
  have "set (selected (layout bs) r) \<subseteq> set (slice (length (document_toks (take (first_block r) bs)))
      (length (document_toks (take (Suc (last_block r)) bs))) (document_toks bs))"
    unfolding selected_def using assms by (simp add: range_in_def set_slice_mono)
  also have "\<dots> = set (document_toks (slice (first_block r) (Suc (last_block r)) bs))"
    using assms by (simp add: slice_document_toks range_in_def)
  finally show ?thesis .
qed

lemma chosen_ids: "map span_id (selected_spans (layout bs) r) = map block_id (slice (first_block r) (Suc (last_block r)) bs)"
  by (simp add: selected_spans_def map_slice)

lemma slice_subset: "set (slice i j xs) \<subseteq> set xs"
  by (auto simp: slice_def dest: in_set_takeD in_set_dropD)

lemma span_id_image [simp]: "span_id ` set (spans_from n bs) = block_id ` set bs"
  by (induction bs arbitrary: n) auto

lemma span_by_id_layout:
  assumes "i \<in> block_id ` set bs"
  shows "\<exists>s. span_by_id (layout bs) i = Some s"
proof -
  have "fst ` set (map (\<lambda>s. (span_id s, s)) (rev (spans_from 0 bs))) = block_id ` set bs"
    by (simp add: image_image)
  with assms have "map_of (map (\<lambda>s. (span_id s, s)) (rev (spans_from 0 bs))) i \<noteq> None"
    by (simp only: map_of_eq_None_iff) simp
  then show ?thesis by (simp add: span_by_id_def)
qed

lemma identity_policy:
  assumes "range_in bs r"
  shows "validate_ids_and_merge_policy (layout bs) (layout bs) (selected (layout bs) r) r k = Inr ()"
proof -
  let ?ids = "List.map_filter token_id (selected (layout bs) r)"
  let ?chosen = "slice (first_block r) (Suc (last_block r)) bs"
  have chosen: "i \<in> block_id ` set ?chosen" if "i \<in> set ?ids" for i
  proof -
    from that obtain x where "x \<in> set (selected (layout bs) r)" "token_id x = Some i"
      by (auto simp: List.map_filter_def)
    with selected_in_blocks [OF assms] token_id_document show ?thesis by blast
  qed
  have "block_id ` set ?chosen \<subseteq> block_id ` set bs"
    by (rule image_mono) (rule slice_subset)
  then have known: "\<exists>s. span_by_id (layout bs) i = Some s" if "i \<in> set ?ids" for i
    by (rule span_by_id_layout [OF subsetD]) (rule chosen [OF that])
  have "selected_ids r \<le> length bs" using assms by (auto simp: range_in_def)
  then have merge: "check_merge (layout bs) (layout bs) r k sel = Inr ()" for sel
    by (simp add: check_merge_def Let_def)
  have "\<not> list_ex (\<lambda>i. i \<in> set (map block_id bs) \<and> i \<notin> set (map block_id ?chosen)) ?ids"
    using chosen by (auto simp: list_ex_iff)
  moreover have "\<not> list_ex (\<lambda>i. k = Passage \<and> i \<in> set (map block_id bs) \<and> retained_changed (layout bs) (layout bs) i) ?ids"
    using known by (fastforce simp: list_ex_iff retained_changed_def)
  moreover have "\<not> list_ex (\<lambda>i. i \<notin> set (map block_id bs) \<and> i \<notin> set ?ids) (map block_id bs)"
    by (auto simp: list_ex_iff)
  ultimately show ?thesis
    by (simp add: validate_ids_and_merge_policy_def Let_def chosen_ids merge del: set_map)
qed

lemma inline_toks_length: "length (inline_toks st x) \<le> inline_units x"
proof (cases x)
  case (Run t ms)
  have "length t \<le> utf16_len t"
    by (induction t) (auto simp: len_utf16_def)
  with Run show ?thesis by simp
qed simp

lemma block_toks_length: "length (block_toks b) \<le> block_units b + 2"
proof -
  have "length (concat (map (inline_toks st) xs)) \<le> sum_list (map inline_units xs)" for st xs
    using inline_toks_length by (induction xs) (auto intro: add_mono)
  then show ?thesis
    by (auto simp: block_toks_def block_inner_def block_units_def split: option.split)
qed

lemma document_toks_length: "length (document_toks bs) \<le> document_units bs + 2 * length bs"
proof (induction bs)
  case (Cons b bs)
  then show ?case using block_toks_length [of b] by (simp add: document_units_def)
qed simp

lemma document_toks_u32:
  assumes "document_ok E bs"
  shows "length (document_toks bs) < 2 ^ 32"
  using assms document_toks_length [of bs] by (simp add: document_ok_def MAX_BLOCKS_def MAX_UTF16_UNITS_def)

lemma passage_no_boundary:
  assumes "scope_range E (layout bs) g = Inr r" "grant_kind g = Passage" "first_block r = last_block r" "range_in bs r"
  shows "\<not> list_ex is_boundary (selected (layout bs) r)"
proof -
  let ?i = "first_block r"
  have i: "?i < length bs" using assms(4) by (simp add: range_in_def)
  from passage_in_block [OF assms(1-3)] have "style_of (bs ! ?i) \<noteq> None"
    and "set (selected (layout bs) r) \<subseteq> set (slice (content_start (spans_from 0 bs ! ?i))
      (content_end (spans_from 0 bs ! ?i)) (document_toks bs))"
    by (auto simp: selected_def dest: set_slice_mono [THEN subsetD])
  then show ?thesis
    using content_slice [OF i] text_inner by (auto simp: list_ex_iff)
qed

lemma scope_range_fences [simp]:
  "scope_range E D (g\<lparr>source_hash := a, quote := b, quote_hash := c, prefix := p, suffix := q\<rparr>) = scope_range E D g"
  by (cases "grant_kind g") (simp_all add: scope_range_def)

lemma captured_accepts:
  assumes "capture_scope E v g = Inr g'" "prefix g = None" "suffix g = None"
  shows "\<exists>rec bs. validate_scope E \<lparr>source_snapshot = v, result_snapshot = v, scope = g'\<rparr> = Inr rec \<and>
    result_hash rec = source_hash g' \<and> canonical_snapshot E v = Inr (receipt_of E bs) \<and>
    result_token_count rec = length (document_toks bs) \<and> source_token_count rec = length (document_toks bs)"
proof -
  from assms(1) obtain src where kind: "grant_kind g \<noteq> Append" and src: "canonical_snapshot E v = Inr src"
    by (auto simp: capture_scope_def and_then_eq_Inr split: if_splits)
  obtain bs where bs: "document_ok E bs" "src = receipt_of E bs" "token_document (snapshot src) = Inr (layout bs)"
    using canonical_layout [OF src] by metis
  from assms src bs(3) kind obtain r where r: "scope_range E (layout bs) g = Inr r"
    and g': "g' = g\<lparr>source_hash := hash src, quote := plain_text (selected (layout bs) r),
        quote_hash := structured_hash E (selected (layout bs) r),
        prefix := Some (context_prefix (layout bs) (first_block r) (range_start r)),
        suffix := Some (context_suffix (layout bs) (last_block r) (range_end r))\<rparr>"
    by (auto simp: capture_scope_def and_then_eq_Inr)
  have rin: "range_in bs r" using scope_range_in [OF r] bs(1) by (auto simp: document_ok_def)
  let ?sel = "selected (layout bs) r"
  have split: "document_toks bs = take (range_start r) (document_toks bs) @ ?sel @ drop (range_end r) (document_toks bs)"
    unfolding selected_def layout_simps using range_in_bounds [OF rin] by (intro slice_eq_split) auto
  then have repl: "replacement_tokens (layout bs) (layout bs) r = Inr ?sel"
    using range_in_bounds [OF rin] by (simp add: replacement_tokens_ok)
  have "length ?sel \<le> length (document_toks bs)" by (simp add: selected_def slice_def)
  then have small: "length (document_toks bs) < 2 ^ 32" "length ?sel < 2 ^ 32"
    using document_toks_u32 [OF bs(1)] by auto
  have bound: "\<not> (grant_kind g = Passage \<and> first_block r = last_block r \<and> list_ex is_boundary ?sel)"
    using passage_no_boundary [OF r _ _ rin] by blast
  have r': "scope_range E (layout bs) g' = Inr r" and k': "grant_kind g' = grant_kind g"
    using r unfolding g' by simp_all
  have grant: "check_scope_grant E src (layout bs) r g' = Inr ()" unfolding g' by simp
  define rec where "rec = \<lparr>accepted = True, receipt_scope = grant_kind g', receipt_source_hash = hash src,
      result_hash = hash src, receipt_quote = plain_text ?sel, receipt_quote_hash = structured_hash E ?sel,
      receipt_prefix = context_prefix (layout bs) (first_block r) (range_start r),
      receipt_suffix = context_suffix (layout bs) (last_block r) (range_end r),
      source_token_count = length (document_toks bs), result_token_count = length (document_toks bs),
      replacement_token_count = length ?sel\<rparr>"
  have "validate_scope_impl E \<lparr>source_snapshot = v, result_snapshot = v, scope = g'\<rparr> None = Inr rec"
    unfolding validate_scope_impl_def
    using src bs(3) r' grant repl bound identity_policy [OF rin] small k'
    by (simp add: to_u32_def rec_def del: check_scope_grant_ok)
  then show ?thesis
    using kind k' src bs(2) unfolding validate_scope_def
    by (intro exI [of _ rec] exI [of _ bs]) (simp add: rec_def g')
qed

section \<open>Endpoints are exact\<close>

lemma utf16_by_byte_key: "(k, n) \<in> set (utf16_by_byte b v s) \<Longrightarrow> b \<le> k"
  by (induction b v s rule: utf16_by_byte.induct) (fastforce)+

lemma utf16_by_byte_lookup:
  "map_of (utf16_by_byte b v s) k = Some n \<Longrightarrow> \<exists>p q. s = p @ q \<and> n = v + utf16_len p \<and> k = b + blen p"
proof (induction b v s rule: utf16_by_byte.induct)
  case (1 b v)
  then show ?case by (auto split: if_splits)
next
  case (2 b v c s)
  show ?case
  proof (cases "k = b")
    case True
    with 2 show ?thesis by (intro exI [of _ "[]"] exI [of _ "c # s"]) auto
  next
    case False
    with 2 obtain p q where "s = p @ q" "n = v + len_utf16 c + utf16_len p" "k = b + length (utf8_char c) + blen p"
      by auto
    then show ?thesis by (intro exI [of _ "c # p"] exI [of _ q]) auto
  qed
qed

lemma blen_prefix_unique:
  assumes "s = p @ q" "s = p' @ q'" "blen p = blen p'"
  shows "p = p'"
proof -
  from assms(1,2) consider r where "p = p' @ r" | r where "p' = p @ r"
    by (auto simp: append_eq_append_conv2)
  then show ?thesis using assms(3) by cases auto
qed

lemma grapheme_boundary_ok:
  "grapheme_boundary offs bnd (i, g) = Inr out \<longleftrightarrow>
     (\<exists>a b. map_of offs i = Some a \<and> map_of offs (i + blen g) = Some b \<and> out = b # a # bnd)"
  by (auto simp: grapheme_boundary_def and_then_eq_Inr)

text \<open>Every collected boundary is the UTF-16 length of a run of whole graphemes.\<close>

lemma boundaries_graphemes:
  assumes "try_fold (grapheme_boundary (utf16_by_byte 0 0 s)) bnd (grapheme_indices (blen p) gs) = Inr out"
    and "s = p @ concat gs" "p = concat ps"
    and "\<forall>n \<in> set bnd. \<exists>ks ls. ps @ gs = ks @ ls \<and> n = utf16_len (concat ks)"
  shows "\<forall>n \<in> set out. \<exists>ks ls. ps @ gs = ks @ ls \<and> n = utf16_len (concat ks)"
  using assms
proof (induction gs arbitrary: bnd p ps)
  case (Cons g gs)
  from Cons.prems(1) obtain a b where a: "map_of (utf16_by_byte 0 0 s) (blen p) = Some a"
    and b: "map_of (utf16_by_byte 0 0 s) (blen p + blen g) = Some b"
    and rest: "try_fold (grapheme_boundary (utf16_by_byte 0 0 s)) (b # a # bnd)
      (grapheme_indices (blen (p @ g)) gs) = Inr out"
    by (auto simp: grapheme_boundary_ok and_then_eq_Inr)
  from utf16_by_byte_lookup [OF a] obtain x y where "s = x @ y" "a = utf16_len x" "blen p = blen x" by auto
  then have "a = utf16_len (concat ps)"
    using blen_prefix_unique [of s x y p "concat (g # gs)"] Cons.prems(2,3) by auto
  moreover from utf16_by_byte_lookup [OF b] obtain x y where "s = x @ y" "b = utf16_len x" "blen (p @ g) = blen x" by auto
  then have "b = utf16_len (concat (ps @ [g]))"
    using blen_prefix_unique [of s x y "p @ g" "concat gs"] Cons.prems(2,3) by auto
  ultimately have "\<forall>n \<in> set (b # a # bnd). \<exists>ks ls. (ps @ [g]) @ gs = ks @ ls \<and> n = utf16_len (concat ks)"
    using Cons.prems(4) by (auto intro: exI [of _ "ps @ [g]"] exI [of _ ps])
  from Cons.IH [OF rest _ _ this] Cons.prems(2,3) show ?case by simp
qed simp

lemma boundary_offset:
  assumes "graphemes_ok E" "validate_endpoint_boundary E D i n = Inr x" "span_style (spans D ! i) \<noteq> None"
  shows "\<exists>ks ls. graphemes E (span_text (spans D ! i)) = ks @ ls \<and> n = utf16_len (concat ks)"
proof -
  let ?s = "span_text (spans D ! i)"
  from assms(2,3) obtain out where "try_fold (grapheme_boundary (utf16_by_byte 0 0 ?s)) [0]
      (grapheme_indices (blen []) (graphemes E ?s)) = Inr out" "n \<in> set out"
    by (auto simp: validate_endpoint_boundary_def Let_def and_then_eq_Inr split: if_splits)
  moreover have "?s = [] @ concat (graphemes E ?s)" using assms(1) by (simp add: graphemes_ok_def)
  ultimately show ?thesis
    using boundaries_graphemes [of ?s "[0]" "[]" "graphemes E ?s" out "[]"]
    by (force intro: exI [of _ "[]"])
qed

definition scalar_tokens_ok :: "structural_token list \<Rightarrow> bool" where
  "scalar_tokens_ok ts \<longleftrightarrow> (\<forall>t \<in> set ts. \<exists>c. token_text t = [c] \<and> token_width t = len_utf16 c)"

lemma block_inner_scalars:
  assumes "style_of b \<noteq> None"
  shows "scalar_tokens_ok (block_inner b)" "concat (map token_text (block_inner b)) = block_text b"
proof -
  have one: "scalar_tokens_ok (inline_toks st x)" for st x
    by (cases x) (auto simp: scalar_tokens_ok_def len_utf16_def)
  have tx: "concat (map token_text (inline_toks st x)) = inline_text x" for st x
    by (cases x) (auto simp: comp_def)
  have "concat (map token_text (concat (map (inline_toks st) xs))) = concat (map inline_text xs)" for st xs
    by (induction xs) (auto simp: tx)
  then show "scalar_tokens_ok (block_inner b)" "concat (map token_text (block_inner b)) = block_text b"
    using assms one by (auto simp: block_inner_def scalar_tokens_ok_def block_text_def)
qed

lemma scalar_tokens_length: "scalar_tokens_ok ts \<Longrightarrow> length (concat (map token_text ts)) = length ts"
  by (induction ts) (auto simp: scalar_tokens_ok_def)

lemma walk_to_exact:
  assumes "scalar_tokens_ok ts" "concat (map token_text ts) = p @ q"
  shows "walk_to n (n + utf16_len p) ts = (if q = [] then None else Some (length p)) \<and>
    concat (map token_text (take (length p) ts)) = p \<and> sum_list (map token_width (take (length p) ts)) = utf16_len p
    \<and> length ts = length p + length q"
  using assms
proof (induction p arbitrary: n ts)
  case Nil
  then have "length (concat (map token_text ts)) = length ts"
    by (intro scalar_tokens_length)
  with Nil show ?case by (cases ts) auto
next
  case (Cons c p)
  then obtain t ts' where ts: "ts = t # ts'" by (cases ts) auto
  with Cons.prems have t: "token_text t = [c]" "token_width t = len_utf16 c" "scalar_tokens_ok ts'"
    by (auto simp: scalar_tokens_ok_def)
  with ts Cons.prems have "concat (map token_text ts') = p @ q" by simp
  with Cons.IH [OF t(3) this, of "n + len_utf16 c"] ts t len_utf16_pos [of c] show ?case
    by (simp add: add.assoc)
qed

lemma endpoint_exact:
  assumes "graphemes_ok E" "endpoint_token E (layout bs) i ep = Inr k" "i < length bs" "style_of (bs ! i) \<noteq> None"
  shows "\<exists>ks ls. graphemes E (block_text (bs ! i)) = ks @ ls \<and>
    concat (map token_text (slice (content_start (spans_from 0 bs ! i)) k (document_toks bs))) = concat ks \<and>
    sum_list (map token_width (slice (content_start (spans_from 0 bs ! i)) k (document_toks bs))) = utf16_offset ep \<and>
    utf16_offset ep = utf16_len (concat ks)"
proof -
  let ?s = "spans_from 0 bs ! i" and ?in = "block_inner (bs ! i)"
  from assms(2) have "validate_endpoint_boundary E (layout bs) i (utf16_offset ep) = Inr ()"
    by (auto simp: endpoint_token_def and_then_eq_Inr)
  from boundary_offset [OF assms(1) this] assms(3,4) obtain ks ls where
    ks: "graphemes E (block_text (bs ! i)) = ks @ ls" "utf16_offset ep = utf16_len (concat ks)"
    by (auto simp: spans_from_nth)
  have "concat (graphemes E (block_text (bs ! i))) = block_text (bs ! i)"
    using assms(1) by (simp add: graphemes_ok_def)
  define q where "q = concat ls"
  have tx: "concat (map token_text ?in) = concat ks @ q"
    using ks(1) \<open>concat (graphemes E (block_text (bs ! i))) = block_text (bs ! i)\<close>
      block_inner_scalars(2) [OF assms(4)] by (simp add: q_def)
  note walk = walk_to_exact [OF block_inner_scalars(1) [OF assms(4)] tx, of 0]
  have "k = content_start ?s + length (concat ks)"
    using assms(2) walk ks(2) content_slice [OF assms(3)] content_length(1) [OF assms(3)]
    by (auto simp: endpoint_token_def and_then_eq_Inr Let_def split: if_splits)
  moreover have "slice a (a + n) xs = take n (slice a b xs)" if "a + n \<le> b" for a n b and xs :: "structural_token list"
    using that by (simp add: slice_def min_def)
  moreover have "content_start ?s + length (concat ks) \<le> content_end ?s"
    using walk content_length(1) [OF assms(3)] by simp
  ultimately have "slice (content_start ?s) k (document_toks bs) = take (length (concat ks)) ?in"
    using content_slice [OF assms(3)] by metis
  with walk ks show ?thesis by (intro exI [of _ ks] exI [of _ ls]) simp
qed

section \<open>Appended paragraphs\<close>

definition plain_paragraph :: "block \<Rightarrow> bool" where
  "plain_paragraph b \<longleftrightarrow>
     (\<exists>i t. b = Paragraph i [Run t []] \<and> trim t \<noteq> [] \<and> \<not> contains_any t [13, 10])"

lemma plain_paragraph_block:
  assumes "validate_plain_paragraph_block (block_value b) expected = Inr x"
  shows "plain_paragraph b \<and> expected \<in> {None, Some (block_text b)}"
proof -
  from assms obtain i xs where b: "b = Paragraph i xs"
    by (cases b) (auto simp: validate_plain_paragraph_block_def content_entry_def split: if_splits)
  with assms obtain y where xs: "xs = [y]"
    by (cases xs) (auto simp: validate_plain_paragraph_block_def content_entry_def length_Suc_conv
        and_then_eq_Inr split: if_splits)
  with assms b obtain t where "y = Run t []"
    by (cases y) (auto simp: validate_plain_paragraph_block_def content_entry_def and_then_eq_Inr split: if_splits)
  with assms b xs show ?thesis
    by (auto simp: validate_plain_paragraph_block_def content_entry_def and_then_eq_Inr plain_paragraph_def
        block_text_def split: if_splits)
qed

lemma content_of_document [simp]: "content_of (document_value bs) = map block_value bs"
  by (simp add: content_of_def document_value_def)

lemma snapshot_receipt_of [simp]: "snapshot (receipt_of E bs) = document_value bs"
  by (simp add: receipt_of_def Let_def)

lemma appended_blocks_ok:
  assumes "validate_appended_blocks (receipt_of E bs) (layout bs) n ids ps = Inr x"
  shows "n \<le> length bs \<and> (\<forall>b \<in> set (drop n bs). plain_paragraph b \<and> block_id b \<notin> set ids) \<and>
    (\<forall>items. ps = Some items \<longrightarrow> map block_text (drop n bs) = items)"
proof -
  let ?chk = "\<lambda>(index, span).
      if span_id span \<in> set ids then Inl (Refused ''appended paragraph reuses an existing block ID'')
      else if length (map block_value bs) \<le> n + index then Inl (Refused ''append result block is missing'')
      else validate_plain_paragraph_block (map block_value bs ! (n + index)) (map_option (\<lambda>items. items ! index) ps)"
  from assms have n: "n \<le> length bs" and len: "\<And>items. ps = Some items \<Longrightarrow> length items = length bs - n"
    and "try_each ?chk (List.enumerate 0 (drop n (spans_from 0 bs))) = Inr ()"
    by (auto simp: validate_appended_blocks_def Let_def split: if_splits)
  then have chk: "\<forall>p \<in> set (List.enumerate 0 (drop n (spans_from 0 bs))). ?chk p = Inr ()"
    by (simp only: try_each_eq_Inr)
  have each: "plain_paragraph (bs ! (n + j)) \<and> block_id (bs ! (n + j)) \<notin> set ids \<and>
      map_option (\<lambda>items. items ! j) ps \<in> {None, Some (block_text (bs ! (n + j)))}" if j: "j < length bs - n" for j
  proof -
    have "(j, spans_from 0 bs ! (n + j)) \<in> set (List.enumerate 0 (drop n (spans_from 0 bs)))"
      using j by (auto simp: in_set_enumerate_eq)
    with chk have "?chk (j, spans_from 0 bs ! (n + j)) = Inr ()" by blast
    then have "block_id (bs ! (n + j)) \<notin> set ids"
      and "validate_plain_paragraph_block (block_value (bs ! (n + j))) (map_option (\<lambda>items. items ! j) ps) = Inr ()"
      using j by (auto simp: spans_from_nth split: if_splits)
    with plain_paragraph_block show ?thesis by blast
  qed
  have "\<forall>b \<in> set (drop n bs). plain_paragraph b \<and> block_id b \<notin> set ids"
    using each by (auto simp: in_set_conv_nth)
  moreover have "map block_text (drop n bs) = items" if "ps = Some items" for items
    using each len [OF that] that by (intro nth_equalityI) auto
  ultimately show ?thesis using n by blast
qed

lemma placeholder_layout:
  assumes "document_ok E bs"
  shows "is_empty_placeholder (layout bs) \<longleftrightarrow> (\<exists>i. bs = [Paragraph i []])"
proof -
  have "block_text (Paragraph i xs) = [] \<longleftrightarrow> xs = []" if "list_all (inline_ok E) xs" for i xs
  proof (cases xs)
    case (Cons x ys)
    with that show ?thesis by (cases x) (auto simp: block_text_def)
  qed (simp add: block_text_def)
  moreover have "list_all (block_ok E) bs" using assms by (simp add: document_ok_def)
  ultimately show ?thesis
    by (cases bs; cases "hd bs") (auto simp: is_empty_placeholder_def)
qed

text \<open>Where the new blocks start: the empty placeholder is replaced, any other source is kept.\<close>

definition kept_blocks :: "block list \<Rightarrow> block list" where
  "kept_blocks bs = (case bs of [Paragraph i []] \<Rightarrow> [] | _ \<Rightarrow> bs)"

definition appended :: "ustr list \<Rightarrow> block list \<Rightarrow> block list \<Rightarrow> bool" where
  "appended items bs bs' \<longleftrightarrow>
     (\<exists>new. bs' = kept_blocks bs @ new \<and> map block_text new = items \<and> list_all plain_paragraph new \<and>
       (if kept_blocks bs = [] then block_id (hd new) = block_id (hd bs) \<and> block_id ` set (tl new) \<inter> block_id ` set bs = {}
        else block_id ` set new \<inter> block_id ` set bs = {}))"

lemma kept_not_placeholder: "bs \<noteq> [] \<Longrightarrow> \<nexists>i. bs = [Paragraph i []] \<Longrightarrow> kept_blocks bs = bs"
  by (auto simp: kept_blocks_def split: list.split block.split)

lemma appended_to_placeholder:
  assumes "append_to_placeholder (receipt_of E bs') (layout [Paragraph i []]) (layout bs') (Some items) = Inr early"
    and "items \<noteq> []"
  shows "appended items [Paragraph i []] bs' \<and> \<not> early"
proof -
  from assms(2) obtain p ps where items: "items = p # ps" by (cases items) auto
  from assms items obtain b bs'' where bs': "bs' = b # bs''"
    by (cases bs') (auto simp: append_to_placeholder_def)
  from assms(1) items bs' have "block_id b = i" "\<not> early"
    and "validate_plain_paragraph_block (block_value b) (Some p) = Inr ()"
    and "validate_appended_blocks (receipt_of E bs') (layout bs') 1 [i] (Some ps) = Inr ()"
    by (auto simp: append_to_placeholder_def Let_def and_then_eq_Inr split: if_splits)
  with plain_paragraph_block [of b "Some p"] appended_blocks_ok [of E bs' 1 "[i]" "Some ps"] items bs'
  show ?thesis
    by (auto simp: appended_def kept_blocks_def list_all_iff)
qed

lemma appended_after_source:
  assumes "append_after_source (receipt_of E bs') (layout bs) (layout bs') (Some items) = Inr x"
    and "document_ok E bs" "document_ok E bs'" "kept_blocks bs = bs"
  shows "appended items bs bs'"
proof -
  from assms(1) have "take (length (document_toks bs)) (document_toks bs') = document_toks bs"
    and chk: "validate_appended_blocks (receipt_of E bs') (layout bs') (length bs) (map block_id bs) (Some items) = Inr x"
    by (auto simp: append_after_source_def split: if_splits)
  then have "document_toks bs' = document_toks bs @ drop (length (document_toks bs)) (document_toks bs')"
    by (metis append_take_drop_id)
  from document_toks_prefix [OF this] assms(2,3) obtain new where "bs' = bs @ new"
    by (auto simp: document_ok_def)
  with appended_blocks_ok [OF chk] assms(2,4) show ?thesis
    by (auto simp: appended_def list_all_iff document_ok_def)
qed

lemma check_append_grant_ok:
  "check_append_grant src g l q h = Inr x \<Longrightarrow> source_hash g = hash src"
  by (auto simp: check_append_grant_def and_then_eq_Inr split: if_splits)

lemma finish_append_ok:
  "finish_append_receipt src dst D D' q h n = Inr rec \<Longrightarrow> result_hash rec = hash dst"
  by (auto simp: finish_append_receipt_def and_then_eq_Inr)

lemma accepted_append:
  assumes "validate_append E req items = Inr rec"
  obtains bs bs' where "document_ok E bs" "document_ok E bs'"
    "canonical_snapshot E (source_snapshot req) = Inr (receipt_of E bs)"
    "canonical_snapshot E (result_snapshot req) = Inr (receipt_of E bs')"
    "source_hash (scope req) = hash (receipt_of E bs)" "result_hash rec = hash (receipt_of E bs')"
    "appended items bs bs'"
proof -
  from assms obtain src dst where src: "canonical_snapshot E (source_snapshot req) = Inr src"
    and dst: "canonical_snapshot E (result_snapshot req) = Inr dst" and items: "items \<noteq> []"
    by (auto simp: validate_append_def validate_append_impl_def validate_append_paragraphs_def and_then_eq_Inr
        split: if_splits)
  obtain bs where bs: "document_ok E bs" "src = receipt_of E bs" "token_document (snapshot src) = Inr (layout bs)"
    using canonical_layout [OF src] by metis
  obtain bs' where bs': "document_ok E bs'" "dst = receipt_of E bs'" "token_document (snapshot dst) = Inr (layout bs')"
    using canonical_layout [OF dst] by metis
  have ne: "bs \<noteq> []" using bs(1) by (simp add: document_ok_def)
  from assms src dst bs(3) bs'(3) have impl: "validate_append_impl E req (Some items) = Inr rec"
    by (auto simp: validate_append_def and_then_eq_Inr split: if_splits)
  with src dst bs(3) bs'(3) obtain early where
    branch: "(if is_empty_placeholder (layout bs) then append_to_placeholder dst (layout bs) (layout bs') (Some items)
      else and_then (append_after_source dst (layout bs) (layout bs') (Some items)) (\<lambda>_. Inr False)) = Inr early"
    and grant: "source_hash (scope req) = hash src" and rh: "result_hash rec = hash dst"
    by (auto simp: validate_append_impl_def and_then_eq_Inr Let_def
        dest!: check_append_grant_ok split del: if_split split: if_splits(2) dest: finish_append_ok)
  have "appended items bs bs'"
  proof (cases "is_empty_placeholder (layout bs)")
    case True
    then obtain i where "bs = [Paragraph i []]" using placeholder_layout [OF bs(1)] by blast
    with True branch bs'(2) items show ?thesis
      using appended_to_placeholder [of E bs' i items early] by simp
  next
    case False
    then have "kept_blocks bs = bs" using placeholder_layout [OF bs(1)] ne kept_not_placeholder by blast
    with False branch bs bs' show ?thesis
      using appended_after_source [of E bs' bs items] by (auto simp: and_then_eq_Inr)
  qed
  with src dst bs bs' grant rh show ?thesis by (intro that [of bs bs']) auto
qed

text \<open>A text replacement: the range's tokens are the characters of the text, everything else stays.\<close>

definition text_replaced :: "env \<Rightarrow> scope_grant \<Rightarrow> ustr \<Rightarrow> block list \<Rightarrow> block list \<Rightarrow> bool" where
  "text_replaced E g txt bs bs' \<longleftrightarrow> (\<exists>r st. scope_range E (layout bs) g = Inr r \<and>
    span_style (spans (layout bs) ! first_block r) = Some st \<and>
    document_toks bs' = take (range_start r) (document_toks bs)
      @ map (\<lambda>c. Scalar [c] (inherited_marks (selected (layout bs) r)) st) txt
      @ drop (range_end r) (document_toks bs))"

lemma accepted_text:
  assumes "validate_text_replacement E req txt = Inr rec"
  obtains bs bs' where "document_ok E bs" "document_ok E bs'"
    "canonical_snapshot E (source_snapshot req) = Inr (receipt_of E bs)"
    "canonical_snapshot E (result_snapshot req) = Inr (receipt_of E bs')"
    "text_replaced E (scope req) txt bs bs'" "replacement_token_count rec = length txt"
proof -
  from assms have "validate_scope_impl E req (Some txt) = Inr rec"
    by (simp add: validate_text_replacement_def split: if_splits)
  then show ?thesis
  proof (rule accepted_scope)
    fix bs bs' r repl
    assume "case Some txt of None \<Rightarrow> True | Some s \<Rightarrow> validate_text_fragment (layout bs) r repl s = Inr ()"
      and *: "document_ok E bs" "document_ok E bs'" "canonical_snapshot E (source_snapshot req) = Inr (receipt_of E bs)"
      "canonical_snapshot E (result_snapshot req) = Inr (receipt_of E bs')"
      "scope_range E (layout bs) (scope req) = Inr r" "replacement_token_count rec = length repl"
      "document_toks bs' = take (range_start r) (document_toks bs) @ repl @ drop (range_end r) (document_toks bs)"
    then obtain st where "span_style (spans (layout bs) ! first_block r) = Some st"
      "repl = map (\<lambda>c. Scalar [c] (inherited_marks (selected (layout bs) r)) st) txt"
      by (auto simp: validate_text_fragment_def split: option.splits if_splits)
    with * show ?thesis
      by (intro that [of bs bs']) (auto simp: text_replaced_def)
  qed
qed

end
