(* ===== verification/Scope_Properties.thy ===== *)
theory Scope_Properties
  imports Scope_Proofs
begin

text \<open>
  The properties of scope validation, each applied to a concrete request: a one-paragraph
  source, a result with its text replaced, and a result with a paragraph appended.
\<close>

definition sample_source :: "block list" where
  "sample_source = [Paragraph (u ''p1'') [Run (u ''ab'') []], Paragraph (u ''p2'') [Run (u ''cd'') []]]"

definition sample_replaced :: "block list" where
  "sample_replaced = [Paragraph (u ''p1'') [Run (u ''xyb'') []], Paragraph (u ''p2'') [Run (u ''cd'') []]]"

definition sample_extended :: "block list" where
  "sample_extended = sample_source @ [Paragraph (u ''p3'') [Run (u ''New'') []]]"

lemmas sample_defs = sample_source_def sample_replaced_def sample_extended_def

lemma sample_ids: "valid_id (u ''p1'')" "valid_id (u ''p2'')" "valid_id (u ''p3'')"
  by (simp_all add: valid_id_iff)
    (simp_all add: u_def id_byte_def is_ascii_alphanumeric_def is_ascii_alphabetic_def is_ascii_digit_def)

lemma sample_docs_ok:
  "document_ok sample_env sample_source" "document_ok sample_env sample_replaced"
  "document_ok sample_env sample_extended"
  by (simp_all add: document_ok_def sample_defs MAX_BLOCKS_def document_units_def block_units_def
      MAX_UTF16_UNITS_def sample_ids unmergeable_def marks_ok_def)
    (simp_all add: u_def len_utf16_def)

lemma sample_canonical:
  assumes "document_ok sample_env bs" "length (enc (document_value bs)) \<le> 500"
  shows "canonical_snapshot sample_env (document_value bs) = Inr (receipt_of sample_env bs)"
proof -
  have "blen (enc (document_value bs)) \<le> MAX_RAW_BYTES"
    using blen_le [of "enc (document_value bs)"] assms(2) by (simp add: MAX_RAW_BYTES_def)
  then show ?thesis
    using rendered_accepted [OF sample_codec assms(1)]
    by (simp add: canonical_snapshot_def document_value_def)
qed

lemma sample_snapshots:
  "canonical_snapshot sample_env (document_value sample_source) = Inr (receipt_of sample_env sample_source)"
  "canonical_snapshot sample_env (document_value sample_replaced) = Inr (receipt_of sample_env sample_replaced)"
  "canonical_snapshot sample_env (document_value sample_extended) = Inr (receipt_of sample_env sample_extended)"
  by (rule sample_canonical, rule sample_docs_ok, simp add: sample_defs document_value_def content_entry_def)+

lemma sample_layouts:
  "token_document (document_value sample_source) = Inr (layout sample_source)"
  "token_document (document_value sample_replaced) = Inr (layout sample_replaced)"
  "token_document (document_value sample_extended) = Inr (layout sample_extended)"
  using sample_docs_ok by (auto intro: token_document_value)

definition whole_grant :: scope_grant where
  "whole_grant = \<lparr>grant_kind = WholeDocument, grant_start = None, grant_end = None, source_hash = [],
     quote = [], quote_hash = [], prefix = None, suffix = None\<rparr>"

definition passage_grant :: scope_grant where
  "passage_grant = \<lparr>grant_kind = Passage, grant_start = Some \<lparr>block_id_of = u ''p1'', utf16_offset = 0\<rparr>,
     grant_end = Some \<lparr>block_id_of = u ''p1'', utf16_offset = 1\<rparr>, source_hash = [],
     quote = [], quote_hash = [], prefix = None, suffix = None\<rparr>"

definition grant_of :: "scope_grant scope_result \<Rightarrow> scope_grant" where
  "grant_of r = (case r of Inr g \<Rightarrow> g | Inl e \<Rightarrow> whole_grant)"

lemma whole_captured: "is_ok (capture_scope sample_env (document_value sample_source) whole_grant)"
  by (simp add: capture_scope_def sample_snapshots sample_layouts whole_grant_def scope_range_def)

lemma ucodes: "u ''ab'' = [97, 98]" "u ''cd'' = [99, 100]" "u ''xyb'' = [120, 121, 98]" "u ''New'' = [78, 101, 119]"
  by (simp_all add: u_def)

lemma passage_range:
  "scope_range sample_env (layout sample_source) passage_grant
    = Inr \<lparr>range_start = 1, range_end = 2, first_block = 0, last_block = 0, selected_ids = 1\<rparr>"
  by (simp add: scope_range_def passage_grant_def block_index_def layout_def sample_source_def span_at_def
      endpoint_token_def validate_endpoint_boundary_def block_units_def block_text_def ucodes
      len_utf16_def grapheme_boundary_def sample_env_def slice_def document_toks_def block_toks_def block_inner_def)

lemma is_ok_grant: "is_ok r \<Longrightarrow> r = Inr (grant_of r)"
  by (cases r) (auto simp: grant_of_def)

lemma passage_captured: "is_ok (capture_scope sample_env (document_value sample_source) passage_grant)"
  by (simp add: capture_scope_def sample_snapshots sample_layouts passage_range) (simp add: passage_grant_def)

definition passage_request :: scope_request where
  "passage_request = \<lparr>source_snapshot = document_value sample_source,
     result_snapshot = document_value sample_replaced,
     scope = grant_of (capture_scope sample_env (document_value sample_source) passage_grant)\<rparr>"

definition append_request :: scope_request where
  "append_request = \<lparr>source_snapshot = document_value sample_source,
     result_snapshot = document_value sample_extended,
     scope = grant_of (capture_append_scope sample_env (document_value sample_source))\<rparr>"

lemma passage_scope:
  "scope passage_request = passage_grant\<lparr>source_hash := hash (receipt_of sample_env sample_source),
     quote := plain_text (selected (layout sample_source) (projr (scope_range sample_env (layout sample_source) passage_grant))),
     quote_hash := structured_hash sample_env (selected (layout sample_source)
        (projr (scope_range sample_env (layout sample_source) passage_grant))),
     prefix := Some (context_prefix (layout sample_source) 0 1),
     suffix := Some (context_suffix (layout sample_source) 0 2)\<rparr>"
  by (simp add: passage_request_def grant_of_def capture_scope_def sample_snapshots sample_layouts passage_range)
    (simp add: passage_grant_def)

lemma passage_accepted:
  "is_ok (validate_text_replacement sample_env passage_request (u ''xy''))"
proof -
  let ?r = "\<lparr>range_start = 1, range_end = 2, first_block = 0, last_block = 0, selected_ids = 1\<rparr>"
  let ?st = "\<lparr>style_type = u ''paragraph'', style_level = None\<rparr>"
  let ?repl = "[Scalar [120] [] ?st, Scalar [121] [] ?st]"
  have range: "scope_range sample_env (layout sample_source) (scope passage_request) = Inr ?r"
    using passage_range by (simp add: passage_scope del: One_nat_def)
  have grant: "check_scope_grant sample_env (receipt_of sample_env sample_source) (layout sample_source) ?r (scope passage_request) = Inr ()"
    by (simp add: passage_scope passage_range)
  have repl: "replacement_tokens (layout sample_source) (layout sample_replaced) ?r = Inr ?repl"
    by (simp add: replacement_tokens_def layout_def sample_defs document_toks_def block_toks_def block_inner_def
        ucodes slice_def)
  have policy: "validate_ids_and_merge_policy (layout sample_source) (layout sample_replaced) ?repl ?r Passage = Inr ()"
    by (simp add: validate_ids_and_merge_policy_def List.map_filter_def layout_def sample_defs selected_spans_def slice_def)
  have fragment: "validate_text_fragment (layout sample_source) ?r ?repl (u ''xy'') = Inr ()"
    by (simp add: validate_text_fragment_def layout_def sample_source_def selected_spans_def slice_def
        inherited_marks_def List.map_filter_def selected_def document_toks_def block_toks_def block_inner_def ucodes)
      (simp add: u_def)
  have small: "length (document_toks sample_source) < 2 ^ 32" "length (document_toks sample_replaced) < 2 ^ 32"
    using document_toks_u32 sample_docs_ok by blast+
  have kind: "grant_kind (scope passage_request) = Passage" by (simp add: passage_scope) (simp add: passage_grant_def)
  have tx: "\<not> contains_any (u ''xy'') [13, 10]" "utf16_len (u ''xy'') \<le> 100000"
    by (simp_all add: contains_any_def u_def len_utf16_def)
  have snaps: "canonical_snapshot sample_env (source_snapshot passage_request) = Inr (receipt_of sample_env sample_source)"
    "canonical_snapshot sample_env (result_snapshot passage_request) = Inr (receipt_of sample_env sample_replaced)"
    by (simp_all add: passage_request_def sample_snapshots)
  show ?thesis
    using range grant repl policy fragment small kind tx snaps sample_layouts
    by (simp add: validate_text_replacement_def validate_scope_impl_def to_u32_def del: check_scope_grant_ok)
qed

lemma append_accepted: "is_ok (validate_append sample_env append_request [u ''New''])"
proof -
  have d: "document_toks sample_source \<noteq> []" by (simp add: sample_source_def)
  have small: "length (document_toks sample_source) < 2 ^ 32" "length (document_toks sample_extended) < 2 ^ 32"
    using document_toks_u32 sample_docs_ok by blast+
  let ?l = "last (spans_from 0 sample_source)"
  let ?q = "slice (token_start ?l) (token_end ?l) (document_toks sample_source)"
  have ne: "spans_from 0 sample_source \<noteq> []" by (simp add: sample_source_def)
  have scope: "scope append_request = \<lparr>grant_kind = Append, grant_start = None,
      grant_end = Some \<lparr>block_id_of = span_id ?l, utf16_offset = span_units ?l\<rparr>,
      source_hash = hash (receipt_of sample_env sample_source), quote = plain_text ?q,
      quote_hash = structured_hash sample_env ?q, prefix = None, suffix = None\<rparr>"
    using ne by (simp add: append_request_def capture_append_scope_def sample_snapshots sample_layouts Let_def grant_of_def)
  have grant: "check_append_grant (receipt_of sample_env sample_source) (scope append_request) ?l
      (plain_text ?q) (structured_hash sample_env ?q) = Inr ()"
    unfolding check_append_grant_def scope by simp
  have nonblank: "trim (u ''New'') \<noteq> []" "\<not> contains_any (u ''New'') [13, 10]"
    by (auto simp: trim_eq_Nil contains_any_def u_def is_whitespace_def)
  have "validate_plain_paragraph_block (block_value (Paragraph (u ''p3'') [Run (u ''New'') []])) (Some (u ''New'')) = Inr ()"
    using nonblank by (simp add: validate_plain_paragraph_block_def content_entry_def)
  moreover have "drop 2 (spans_from 0 sample_extended) = [span_at (length (document_toks sample_source)) (Paragraph (u ''p3'') [Run (u ''New'') []])]"
    by (simp add: sample_extended_def spans_from_append) (simp add: sample_source_def)
  ultimately have blocks: "validate_appended_blocks (receipt_of sample_env sample_extended) (layout sample_extended) 2
      (map block_id sample_source) (Some [u ''New'']) = Inr ()"
    by (simp add: validate_appended_blocks_def Let_def) (simp add: sample_extended_def sample_source_def)
  have len: "length sample_source = 2" by (simp add: sample_source_def)
  have "append_after_source (receipt_of sample_env sample_extended) (layout sample_source) (layout sample_extended)
      (Some [u ''New'']) = Inr ()"
    using blocks len by (simp add: append_after_source_def) (simp add: sample_extended_def)
  moreover have "\<not> is_empty_placeholder (layout sample_source)"
    using placeholder_layout [OF sample_docs_ok(1)] by (simp add: sample_source_def)
  moreover have "validate_append_paragraphs [u ''New''] = Inr ()"
    using nonblank by (simp add: validate_append_paragraphs_def paragraph_step_def) (simp add: u_def len_utf16_def)
  moreover have "source_snapshot append_request = document_value sample_source"
    "result_snapshot append_request = document_value sample_extended" by (simp_all add: append_request_def)
  ultimately show ?thesis
    using grant small ne sample_layouts sample_snapshots scope
    by (simp add: validate_append_def validate_append_impl_def Let_def to_u32_def finish_append_receipt_def)
qed

section \<open>Properties\<close>

text \<open>
  C3: when a replacement scope is accepted, every block before the first and after the last
  selected block is in the result unchanged and in place, the token stream is the source's
  outside the selected range, and the receipt names the hashes and token counts of exactly these
  two documents, the source's as its source and the result's as its result.
\<close>

theorem scope_outside_unchanged:
  assumes "validate_scope_impl E req t = Inr rec"
  shows "\<exists>bs bs' r. outside_unchanged E req rec bs bs' r"
  using assms
proof (rule accepted_scope)
  fix bs bs' r repl
  assume *: "document_ok E bs" "document_ok E bs'" "range_in bs r"
    "canonical_snapshot E (source_snapshot req) = Inr (receipt_of E bs)"
    "canonical_snapshot E (result_snapshot req) = Inr (receipt_of E bs')"
    "scope_range E (layout bs) (scope req) = Inr r"
    "source_hash (scope req) = hash (receipt_of E bs)" "result_hash rec = hash (receipt_of E bs')"
    "document_toks bs' = take (range_start r) (document_toks bs) @ repl @ drop (range_end r) (document_toks bs)"
    "replacement_token_count rec = length repl"
    "receipt_source_hash rec = hash (receipt_of E bs)" "source_token_count rec = length (document_toks bs)"
    "result_token_count rec = length (document_toks bs')"
  from outside_blocks [OF *(9,3,1,2)] * have "outside_unchanged E req rec bs bs' r"
    by (auto simp: outside_unchanged_def)
  then show ?thesis by blast
qed

lemma passage_impl: "\<exists>rec. validate_scope_impl sample_env passage_request (Some (u ''xy'')) = Inr rec"
  using passage_accepted by (auto simp: is_ok_iff validate_text_replacement_def split: if_splits)

theorem scope_outside_unchanged_witness:
  "\<exists>rec bs bs' r. outside_unchanged sample_env passage_request rec bs bs' r"
  using passage_impl scope_outside_unchanged by blast

text \<open>
  C4: an accepted text replacement is exact: the result's tokens are the source's with the
  selected range replaced by the scalars of the requested text, in the style of the selected
  blocks and with the marks the whole selection shares.
\<close>

theorem text_replacement_exact:
  assumes "validate_text_replacement E req txt = Inr rec"
  shows "\<exists>bs bs' r st. canonical_snapshot E (source_snapshot req) = Inr (receipt_of E bs) \<and>
    canonical_snapshot E (result_snapshot req) = Inr (receipt_of E bs') \<and>
    scope_range E (layout bs) (scope req) = Inr r \<and>
    span_style (spans (layout bs) ! first_block r) = Some st \<and>
    document_toks bs' = take (range_start r) (document_toks bs)
      @ map (\<lambda>c. Scalar [c] (inherited_marks (selected (layout bs) r)) st) txt
      @ drop (range_end r) (document_toks bs) \<and>
    replacement_token_count rec = length txt"
proof -
  from assms obtain bs bs' where "canonical_snapshot E (source_snapshot req) = Inr (receipt_of E bs)"
    "canonical_snapshot E (result_snapshot req) = Inr (receipt_of E bs')" "text_replaced E (scope req) txt bs bs'"
    "replacement_token_count rec = length txt" by (rule accepted_text)
  then show ?thesis unfolding text_replaced_def by blast
qed

theorem text_replacement_exact_witness:
  "\<exists>(rec :: scope_receipt) bs bs' r st. span_style (spans (layout bs) ! first_block r) = Some st \<and>
    document_toks bs' = take (range_start r) (document_toks bs)
      @ map (\<lambda>c. Scalar [c] (inherited_marks (selected (layout bs) r)) st) (u ''xy'')
      @ drop (range_end r) (document_toks bs) \<and> replacement_token_count rec = length (u ''xy'')"
proof -
  obtain rec where "validate_text_replacement sample_env passage_request (u ''xy'') = Inr rec"
    using passage_accepted by (auto simp: is_ok_iff)
  from text_replacement_exact [OF this] show ?thesis by blast
qed

text \<open>
  A grant captured on a document, without context of its own, accepts that document
  unchanged, whatever passage, blocks or whole document it selects; the receipt carries the
  captured hash as the hash of the result.
\<close>

theorem captured_grant_accepts_source:
  assumes "capture_scope E v g = Inr g'" "prefix g = None" "suffix g = None"
  shows "\<exists>rec. validate_scope E \<lparr>source_snapshot = v, result_snapshot = v, scope = g'\<rparr> = Inr rec \<and>
    result_hash rec = source_hash g' \<and> result_token_count rec = source_token_count rec"
  using captured_accepts [OF assms] by auto

theorem captured_grant_accepts_source_witness:
  "\<exists>rec. validate_scope sample_env \<lparr>source_snapshot = document_value sample_source,
      result_snapshot = document_value sample_source, scope = scope passage_request\<rparr> = Inr rec \<and>
    result_hash rec = source_hash (scope passage_request) \<and> result_token_count rec = source_token_count rec"
proof (rule captured_grant_accepts_source)
  show "capture_scope sample_env (document_value sample_source) passage_grant = Inr (scope passage_request)"
    using is_ok_grant [OF passage_captured] by (simp add: passage_request_def)
qed (simp_all add: passage_grant_def)

text \<open>
  C5: the token an endpoint in a text block resolves to is exact: the tokens of the block
  before it spell a run of whole grapheme clusters and are exactly as many UTF-16 units wide
  as the offset says, so no cut ever splits a grapheme or a surrogate pair.
\<close>

theorem endpoint_token_exact:
  assumes "graphemes_ok E" and "canonical_snapshot E v = Inr src"
    and "token_document (snapshot src) = Inr D" and "endpoint_token E D i ep = Inr k"
    and "i < length (spans D)" and "span_style (spans D ! i) \<noteq> None"
  shows "\<exists>ks ls. graphemes E (span_text (spans D ! i)) = ks @ ls \<and>
    concat (map token_text (slice (content_start (spans D ! i)) k (toks D))) = concat ks \<and>
    sum_list (map token_width (slice (content_start (spans D ! i)) k (toks D))) = utf16_offset ep \<and>
    utf16_offset ep = utf16_len (concat ks)"
proof -
  from assms(2) obtain bs where "token_document (snapshot src) = Inr (layout bs)"
    by (rule canonical_layout)
  with assms(3) have D: "D = layout bs" by simp
  then have "i < length bs" "style_of (bs ! i) \<noteq> None" using assms(5,6) by (auto simp: spans_from_nth)
  with endpoint_exact [OF assms(1), of bs i ep k] assms(4) show ?thesis
    by (simp add: D spans_from_nth)
qed

theorem endpoint_token_exact_witness:
  "\<exists>ks ls. graphemes sample_env (span_text (spans (layout sample_source) ! 0)) = ks @ ls \<and>
    concat (map token_text (slice (content_start (spans (layout sample_source) ! 0)) 2 (toks (layout sample_source)))) = concat ks \<and>
    sum_list (map token_width (slice (content_start (spans (layout sample_source) ! 0)) 2 (toks (layout sample_source))))
      = utf16_offset \<lparr>block_id_of = u ''p1'', utf16_offset = 1\<rparr> \<and>
    utf16_offset \<lparr>block_id_of = u ''p1'', utf16_offset = 1\<rparr> = utf16_len (concat ks)"
proof (rule endpoint_token_exact [OF sample_graphemes sample_snapshots(1)])
  show "token_document (snapshot (receipt_of sample_env sample_source)) = Inr (layout sample_source)"
    by (simp add: sample_layouts)
  show "endpoint_token sample_env (layout sample_source) 0 \<lparr>block_id_of = u ''p1'', utf16_offset = 1\<rparr> = Inr 2"
    by (simp add: layout_def sample_source_def span_at_def
      endpoint_token_def validate_endpoint_boundary_def block_units_def block_text_def ucodes
      len_utf16_def grapheme_boundary_def sample_env_def slice_def document_toks_def block_toks_def block_inner_def)
qed (simp_all add: sample_source_def)

text \<open>
  C6: an accepted append keeps every source block and adds exactly the candidate's paragraphs,
  in order, as plain single-line paragraphs under fresh identifiers; an empty placeholder
  paragraph is the only block that is replaced, and its identifier is retained.
\<close>

theorem append_keeps_source:
  assumes "validate_append E req items = Inr rec"
  shows "\<exists>bs bs'. canonical_snapshot E (source_snapshot req) = Inr (receipt_of E bs) \<and>
    canonical_snapshot E (result_snapshot req) = Inr (receipt_of E bs') \<and>
    source_hash (scope req) = hash (receipt_of E bs) \<and> result_hash rec = hash (receipt_of E bs') \<and>
    appended items bs bs'"
  using assms by (rule accepted_append) blast

theorem append_keeps_source_witness:
  "\<exists>bs bs'. canonical_snapshot sample_env (source_snapshot append_request) = Inr (receipt_of sample_env bs) \<and>
    canonical_snapshot sample_env (result_snapshot append_request) = Inr (receipt_of sample_env bs') \<and>
    appended [u ''New''] bs bs'"
proof -
  obtain rec where "validate_append sample_env append_request [u ''New''] = Inr rec"
    using append_accepted by (auto simp: is_ok_iff)
  from append_keeps_source [OF this] show ?thesis by blast
qed

end
