(* ===== verification/Records_Json.thy ===== *)
theory Records_Json
  imports Kernel
begin

text \<open>
  The JSON forms of the records that are stored or hashed: what \<open>serde\<close> derives for \<open>Head\<close>,
  \<open>ProjectAccess\<close>, \<open>AppliedDecision\<close>, \<open>RestoredDecision\<close> and \<open>StoredResult\<close> (camelCase
  names in declaration order, absent options skipped, unknown fields denied). A receipt
  written by \<open>stored_result_text\<close> is read back unchanged by \<open>parse_stored_result\<close>.
\<close>

section \<open>Encoding\<close>

definition head_json :: "head \<Rightarrow> json" where
  "head_json h = JObj [(u ''documentId'', JStr (document_id h)), (u ''version'', JStr (version h)),
     (u ''bodyHash'', JStr (body_hash h))]"

definition access_json :: "project_access \<Rightarrow> json" where
  "access_json a = JObj [(u ''projectId'', JStr (project_id a)), (u ''session'', JStr (session a)),
     (u ''writerLease'', JStr (writer_lease a)), (u ''operationNamespace'', JStr (operation_namespace a))]"

definition applied_json :: "applied_decision \<Rightarrow> json" where
  "applied_json d = JObj [(u ''decisionId'', JStr (decision_id d)), (u ''proposalId'', JStr (proposal_id d)),
     (u ''preparedId'', JStr (prepared_id d)), (u ''beforeRevisionId'', JStr (ap_before_revision_id d)),
     (u ''afterRevisionId'', JStr (ap_after_revision_id d))]"

definition restored_json :: "restored_decision \<Rightarrow> json" where
  "restored_json d = JObj [(u ''revisionId'', JStr (revision_id d)),
     (u ''beforeRevisionId'', JStr (before_revision_id d)), (u ''afterRevisionId'', JStr (after_revision_id d))]"

definition opt_entry :: "ustr \<Rightarrow> ('a \<Rightarrow> json) \<Rightarrow> 'a option \<Rightarrow> (ustr \<times> json) list" where
  "opt_entry k f m = (case m of None \<Rightarrow> [] | Some x \<Rightarrow> [(k, f x)])"

definition stored_result_json :: "stored_result \<Rightarrow> json" where
  "stored_result_json r =
     JObj ([(u ''head'', head_json (res_head r)), (u ''savedGeneration'', JStr (saved_generation r))] @
       opt_entry (u ''applied'') applied_json (applied r) @ opt_entry (u ''restored'') restored_json (restored r))"

definition stored_result_text :: "env \<Rightarrow> stored_result \<Rightarrow> ustr" where
  "stored_result_text E r = json_text E (stored_result_json r)"

section \<open>Decoding\<close>

definition only_fields :: "ustr list \<Rightarrow> jmap \<Rightarrow> unit option" where
  "only_fields ks m = (if list_all (\<lambda>e. fst e \<in> set ks) m then Some () else None)"

definition get_str :: "jmap \<Rightarrow> ustr \<Rightarrow> ustr option" where
  "get_str m k = Option.bind (map_of m k) as_str"

definition get_opt :: "jmap \<Rightarrow> ustr \<Rightarrow> (json \<Rightarrow> 'a option) \<Rightarrow> 'a option option" where
  "get_opt m k f =
    (case map_of m k of None \<Rightarrow> Some None | Some JNull \<Rightarrow> Some None | Some v \<Rightarrow> map_option Some (f v))"

definition head_of_json :: "json \<Rightarrow> head option" where
  "head_of_json v =
    Option.bind (as_obj v) (\<lambda>m.
    Option.bind (only_fields [u ''documentId'', u ''version'', u ''bodyHash''] m) (\<lambda>_.
    Option.bind (get_str m (u ''documentId'')) (\<lambda>d.
    Option.bind (get_str m (u ''version'')) (\<lambda>n.
    Option.bind (get_str m (u ''bodyHash'')) (\<lambda>h.
    Some \<lparr>document_id = d, version = n, body_hash = h\<rparr>)))))"

definition applied_of_json :: "json \<Rightarrow> applied_decision option" where
  "applied_of_json v =
    Option.bind (as_obj v) (\<lambda>m.
    Option.bind (only_fields [u ''decisionId'', u ''proposalId'', u ''preparedId'', u ''beforeRevisionId'',
       u ''afterRevisionId''] m) (\<lambda>_.
    Option.bind (get_str m (u ''decisionId'')) (\<lambda>d.
    Option.bind (get_str m (u ''proposalId'')) (\<lambda>p.
    Option.bind (get_str m (u ''preparedId'')) (\<lambda>r.
    Option.bind (get_str m (u ''beforeRevisionId'')) (\<lambda>b.
    Option.bind (get_str m (u ''afterRevisionId'')) (\<lambda>a.
    Some \<lparr>decision_id = d, proposal_id = p, prepared_id = r, ap_before_revision_id = b,
          ap_after_revision_id = a\<rparr>)))))))"

definition restored_of_json :: "json \<Rightarrow> restored_decision option" where
  "restored_of_json v =
    Option.bind (as_obj v) (\<lambda>m.
    Option.bind (only_fields [u ''revisionId'', u ''beforeRevisionId'', u ''afterRevisionId''] m) (\<lambda>_.
    Option.bind (get_str m (u ''revisionId'')) (\<lambda>r.
    Option.bind (get_str m (u ''beforeRevisionId'')) (\<lambda>b.
    Option.bind (get_str m (u ''afterRevisionId'')) (\<lambda>a.
    Some \<lparr>revision_id = r, before_revision_id = b, after_revision_id = a\<rparr>)))))"

definition stored_result_of_json :: "json \<Rightarrow> stored_result option" where
  "stored_result_of_json v =
    Option.bind (as_obj v) (\<lambda>m.
    Option.bind (only_fields [u ''head'', u ''savedGeneration'', u ''applied'', u ''restored''] m) (\<lambda>_.
    Option.bind (Option.bind (map_of m (u ''head'')) head_of_json) (\<lambda>h.
    Option.bind (get_str m (u ''savedGeneration'')) (\<lambda>g.
    Option.bind (get_opt m (u ''applied'') applied_of_json) (\<lambda>a.
    Option.bind (get_opt m (u ''restored'') restored_of_json) (\<lambda>r.
    Some \<lparr>res_head = h, saved_generation = g, applied = a, restored = r\<rparr>))))))"

text \<open>A text that is not a stored result is \<open>InvalidDocument\<close>, the code of a \<open>serde_json\<close> error.\<close>

definition parse_stored_result :: "env \<Rightarrow> ustr \<Rightarrow> stored_result core_result" where
  "parse_stored_result E s =
    ok_or (core_err ''InvalidDocument'') (Option.bind (json_parse E s) stored_result_of_json)"

section \<open>Round trip\<close>

lemma map_of_obj_of: "distinct (map fst kvs) \<Longrightarrow> map_of (obj_of kvs) = map_of kvs"
proof (induction kvs rule: rev_induct)
  case (snoc e kvs)
  then obtain k v where "e = (k, v)" "k \<notin> fst ` set kvs" by (cases e) auto
  then have "map_of kvs k = None" by (simp add: map_of_eq_None_iff)
  with snoc \<open>e = (k, v)\<close> show ?case
    by (auto simp: obj_of_snoc map_of_obj_insert fun_eq_iff map_add_def split: option.split)
qed (simp add: obj_of_def)

lemma keys_obj_of: "fst ` set (obj_of kvs) = fst ` set kvs"
proof (induction kvs rule: rev_induct)
  case (snoc e kvs)
  then show ?case by (cases e) (auto simp: obj_of_snoc keys_obj_insert)
qed (simp add: obj_of_def)

definition canon_map :: "jmap \<Rightarrow> jmap" where
  "canon_map m = obj_of (sort_key (\<lambda>e. bytes (fst e)) (map (map_prod id canonicalize_value) m))"

lemma canonicalize_obj: "canonicalize_value (JObj m) = JObj (canon_map m)"
  by (simp add: canon_map_def)

lemma map_of_map_prod: "map_of (map (map_prod id f) m) k = map_option f (map_of m k)"
  by (induction m) auto

lemma map_of_sort: "distinct (map fst m) \<Longrightarrow> map_of (sort_key f m) = map_of m"
  by (rule map_of_inject_set [THEN iffD2]) (auto simp: distinct_map)

lemma distinct_sort_keys: "distinct (map g (sort_key f m)) \<longleftrightarrow> distinct (map g m)"
  by (simp add: distinct_map)

lemma canon_map_lookup:
  assumes "distinct (map fst m)"
  shows "map_of (canon_map m) k = map_option canonicalize_value (map_of m k)"
proof -
  let ?m = "map (map_prod id canonicalize_value) m"
  have d: "distinct (map fst ?m)" using assms by (simp add: comp_def)
  then have "distinct (map fst (sort_key (\<lambda>e. bytes (fst e)) ?m))"
    by (simp only: distinct_sort_keys)
  then show ?thesis
    using d by (simp add: canon_map_def map_of_obj_of map_of_sort map_of_map_prod)
qed

lemma canon_map_fields [simp]: "only_fields ks (canon_map m) = only_fields ks m"
proof -
  have "fst ` set (canon_map m) = fst ` set m"
    by (simp add: canon_map_def keys_obj_of image_image)
  then have "(\<forall>e \<in> set (canon_map m). fst e \<in> set ks) \<longleftrightarrow> (\<forall>e \<in> set m. fst e \<in> set ks)"
    by (metis (no_types, lifting) image_iff)
  then show ?thesis by (simp add: only_fields_def list_all_iff)
qed

declare canonicalize_value.simps(6) [simp del]

lemma head_roundtrip: "head_of_json (canonicalize_value (head_json h)) = Some h"
  by (simp add: head_of_json_def head_json_def canonicalize_obj get_str_def canon_map_lookup)
    (simp add: only_fields_def)

lemma applied_roundtrip: "applied_of_json (canonicalize_value (applied_json d)) = Some d"
  by (simp add: applied_of_json_def applied_json_def canonicalize_obj get_str_def canon_map_lookup)
    (simp add: only_fields_def)

lemma restored_roundtrip: "restored_of_json (canonicalize_value (restored_json d)) = Some d"
  by (simp add: restored_of_json_def restored_json_def canonicalize_obj get_str_def canon_map_lookup)
    (simp add: only_fields_def)

lemma not_null:
  "canonicalize_value (applied_json d) \<noteq> JNull" "canonicalize_value (restored_json e) \<noteq> JNull"
  by (simp_all add: applied_json_def restored_json_def canonicalize_obj)

lemma get_opt_lookup:
  "map_of m k = None \<Longrightarrow> get_opt m k f = Some None"
  "map_of m k = Some v \<Longrightarrow> v \<noteq> JNull \<Longrightarrow> get_opt m k f = map_option Some (f v)"
  by (simp_all add: get_opt_def split: json.split)

lemma get_opt_canon:
  assumes "distinct (map fst m)" "map_of m k = map_option g x"
    and "\<And>a. f (canonicalize_value (g a)) = Some a" "\<And>a. canonicalize_value (g a) \<noteq> JNull"
  shows "get_opt (canon_map m) k f = Some x"
proof (cases x)
  case None
  with assms(1,2) show ?thesis by (simp add: get_opt_lookup(1) canon_map_lookup)
next
  case (Some a)
  with assms(1,2) have "map_of (canon_map m) k = Some (canonicalize_value (g a))"
    by (simp add: canon_map_lookup)
  with assms(3,4) Some show ?thesis by (simp add: get_opt_lookup)
qed

lemma stored_result_json_roundtrip:
  "stored_result_of_json (canonicalize_value (stored_result_json r)) = Some r"
proof -
  let ?m = "[(u ''head'', head_json (res_head r)), (u ''savedGeneration'', JStr (saved_generation r))] @
       opt_entry (u ''applied'') applied_json (applied r) @ opt_entry (u ''restored'') restored_json (restored r)"
  have d: "distinct (map fst ?m)"
    by (simp add: opt_entry_def split: option.split)
  have o: "get_opt (canon_map ?m) (u ''applied'') applied_of_json = Some (applied r)"
    "get_opt (canon_map ?m) (u ''restored'') restored_of_json = Some (restored r)"
    by (rule get_opt_canon [OF d _ applied_roundtrip not_null(1)],
        simp add: opt_entry_def split: option.split)
      (rule get_opt_canon [OF d _ restored_roundtrip not_null(2)],
        simp add: opt_entry_def split: option.split)
  have "only_fields [u ''head'', u ''savedGeneration'', u ''applied'', u ''restored''] ?m = Some ()"
    by (simp add: only_fields_def opt_entry_def split: option.split)
  moreover have "map_of (canon_map ?m) (u ''head'') = Some (canonicalize_value (head_json (res_head r)))"
    "get_str (canon_map ?m) (u ''savedGeneration'') = Some (saved_generation r)"
    unfolding get_str_def canon_map_lookup [OF d] by simp_all
  ultimately show ?thesis
    unfolding stored_result_of_json_def stored_result_json_def canonicalize_obj
    using o by (simp add: head_roundtrip del: append_Cons append_Nil)
qed

lemma stored_result_plain: "plain_json (stored_result_json r)"
proof -
  have "json_depth (stored_result_json r) \<le> Suc (Suc 0)"
    by (auto simp: stored_result_json_def head_json_def opt_entry_def applied_json_def restored_json_def
        json_depth_obj split: option.split)
  moreover have "exact_json (stored_result_json r)"
    by (auto simp: stored_result_json_def head_json_def opt_entry_def applied_json_def restored_json_def
        split: option.split)
  ultimately show ?thesis by (simp add: plain_json_def)
qed

lemma parse_stored_result_text:
  "codec_ok E \<Longrightarrow> parse_stored_result E (stored_result_text E r) = Inr r"
  by (simp add: parse_stored_result_def stored_result_text_def codec_roundtrip stored_result_plain
      stored_result_json_roundtrip)

end
