(* ===== verification/Storage.thy ===== *)
theory Storage
  imports Snapshot Records_Json
begin

text \<open>
  The tables of a project database and the typed row access of crates/storage/src/lib.rs.
  A table is the list of its rows; the constraints and triggers of the schema scripts
  (storage/src/001_projects.sql and later) are the conditions under which an insertion fails,
  with the code every SQLite error has (\<open>PersistenceUnavailable\<close>). \<open>in_tx\<close> is an immediate
  transaction: an error rolls it back, and the commit itself may fail with or without taking
  effect (\<open>UncertainOutcome\<close>). Creation times are not kept.
\<close>

section \<open>Tables\<close>

record project_row =
  p_id :: ustr
  p_namespace :: ustr
  p_title :: ustr
  p_format :: nat
  p_metadata :: int
  p_epoch :: int

record document_row =
  d_id :: ustr
  d_kind :: ustr
  d_title :: ustr
  d_metadata :: int
  d_position :: int
  d_version :: int
  d_body :: ustr
  d_hash :: ustr
  d_checkpoint :: "ustr option"
  d_dirty :: bool
  d_trashed :: bool
  d_role :: ustr

record revision_row =
  r_id :: ustr
  r_document :: ustr
  r_version :: int
  r_body :: ustr
  r_hash :: ustr
  r_parent :: "ustr option"
  r_reason :: ustr

record receipt_row =
  c_namespace :: ustr
  c_operation :: ustr
  c_document :: ustr
  c_payload :: ustr
  c_kind :: ustr
  c_result :: ustr

record view_row =
  v_document :: ustr
  v_version :: int
  v_hash :: ustr
  v_anchor_block :: ustr
  v_anchor_offset :: int
  v_focus_block :: ustr
  v_focus_offset :: int

text \<open>Of the receipts of other command families only the operation identities matter here.\<close>

record db =
  project_rows :: "project_row option"
  documents :: "document_row list"
  revisions :: "revision_row list"
  command_receipts :: "receipt_row list"
  workshop_operations :: "(ustr \<times> ustr) list"
  proposal_operations :: "(ustr \<times> ustr) list"
  generation_operations :: "(ustr \<times> ustr) list"
  view_state_row :: "view_row option"

definition sql_error :: core_error where
  "sql_error = core_err ''PersistenceUnavailable''"

section \<open>Statements\<close>

definition find_document :: "db \<Rightarrow> ustr \<Rightarrow> document_row option" where
  "find_document D i = find (\<lambda>d. d_id d = i) (documents D)"

definition find_revision :: "db \<Rightarrow> ustr \<Rightarrow> revision_row option" where
  "find_revision D i = find (\<lambda>r. r_id r = i) (revisions D)"

definition find_revision_at :: "db \<Rightarrow> ustr \<times> int \<Rightarrow> revision_row option" where
  "find_revision_at D k = find (\<lambda>r. (r_document r, r_version r) = k) (revisions D)"

definition find_receipt :: "db \<Rightarrow> ustr \<times> ustr \<Rightarrow> receipt_row option" where
  "find_receipt D k = find (\<lambda>c. (c_namespace c, c_operation c) = k) (command_receipts D)"

definition document_kinds :: "ustr list" where
  "document_kinds = map u [''chapter'', ''note'', ''character'', ''world'', ''theme'', ''hook'', ''scene'']"

definition insert_document_row :: "document_row \<Rightarrow> db \<Rightarrow> db core_result" where
  "insert_document_row d D =
    (if d_id d \<in> d_id ` set (documents D) \<or> d_kind d \<notin> set document_kinds \<or> d_version d < 0 \<or> d_metadata d < 0
     then Inl sql_error else Inr (D\<lparr>documents := documents D @ [d]\<rparr>))"

definition insert_revision_row :: "revision_row \<Rightarrow> db \<Rightarrow> db core_result" where
  "insert_revision_row r D =
    (if r_id r \<in> r_id ` set (revisions D) \<or> r_document r \<notin> d_id ` set (documents D) \<or> r_version r < 0 \<or>
        (r_document r, r_version r) \<in> (\<lambda>x. (r_document x, r_version x)) ` set (revisions D) \<or>
        (case r_parent r of
           None \<Rightarrow> False
         | Some p \<Rightarrow> (r_document r, p) \<notin> (\<lambda>x. (r_document x, r_id x)) ` set (revisions D))
     then Inl sql_error else Inr (D\<lparr>revisions := revisions D @ [r]\<rparr>))"

definition insert_receipt_row :: "receipt_row \<Rightarrow> db \<Rightarrow> db core_result" where
  "insert_receipt_row c D =
    (if (c_namespace c, c_operation c) \<in> (\<lambda>x. (c_namespace x, c_operation x)) ` set (command_receipts D) \<or>
        c_document c \<notin> d_id ` set (documents D) \<or>
        (c_namespace c, c_operation c) \<in> set (proposal_operations D) \<or>
        (c_namespace c, c_operation c) \<in> set (generation_operations D)
     then Inl sql_error else Inr (D\<lparr>command_receipts := command_receipts D @ [c]\<rparr>))"

text \<open>An \<open>UPDATE documents\<close> with its \<open>WHERE\<close> clause: the new database and the number of rows.\<close>

definition update_documents :: "(document_row \<Rightarrow> bool) \<Rightarrow> (document_row \<Rightarrow> document_row) \<Rightarrow> db \<Rightarrow> db \<times> nat" where
  "update_documents w f D =
    (D\<lparr>documents := map (\<lambda>d. if w d then f d else d) (documents D)\<rparr>, length (filter w (documents D)))"

text \<open>
  The compare-and-set that \<open>save\<close> and \<open>restore\<close> write a body with: the row must still be at
  the version and hash that were read.
\<close>

definition replace_body :: "ustr \<Rightarrow> int \<Rightarrow> ustr \<Rightarrow> int \<Rightarrow> ustr \<Rightarrow> ustr \<Rightarrow> db \<Rightarrow> db core_result" where
  "replace_body i v h next_version new_body new_hash D =
    (let (D', changed) = update_documents (\<lambda>d. d_id d = i \<and> d_version d = v \<and> d_hash d = h)
           (\<lambda>d. d\<lparr>d_version := next_version, d_body := new_body, d_hash := new_hash, d_dirty := True\<rparr>) D in
     if changed \<noteq> 1 then Inl (core_err ''VersionConflict'') else Inr D')"

text \<open>\<open>context_source_epoch+1\<close>: past the largest integer the value is no longer an INTEGER.\<close>

definition bump_epoch :: "db \<Rightarrow> db core_result" where
  "bump_epoch D =
    (case project_rows D of
       None \<Rightarrow> Inr D
     | Some p \<Rightarrow>
         if p_epoch p = i64_max then Inl sql_error
         else Inr (D\<lparr>project_rows := Some (p\<lparr>p_epoch := p_epoch p + 1\<rparr>)\<rparr>))"

section \<open>Transactions\<close>

datatype tx_outcome = BeginFailed | Committed | CommitFailed bool

definition in_tx :: "tx_outcome \<Rightarrow> 'd \<Rightarrow> ('d \<Rightarrow> ('a \<times> 'd) core_result) \<Rightarrow> 'a core_result \<times> 'd" where
  "in_tx outcome D f =
    (case outcome of
       BeginFailed \<Rightarrow> (Inl sql_error, D)
     | _ \<Rightarrow>
         (case f D of
            Inl e \<Rightarrow> (Inl e, D)
          | Inr (x, D') \<Rightarrow>
              (case outcome of
                 CommitFailed took_effect \<Rightarrow> (Inl uncertain, if took_effect then D' else D)
               | _ \<Rightarrow> (Inr x, D'))))"

section \<open>Typed row access\<close>

definition check_body :: "env \<Rightarrow> ustr \<Rightarrow> ustr \<Rightarrow> snapshot_receipt core_result" where
  "check_body E text_body h =
    and_then (map_err (\<lambda>_. core_err ''InvalidDocument'') (validate_snapshot_json E text_body)) (\<lambda>valid.
    if hash valid \<noteq> h \<or> canonical_json valid \<noteq> text_body then Inl (core_err ''InvalidDocument'')
    else Inr valid)"

definition read_document_with_role :: "env \<Rightarrow> db \<Rightarrow> ustr \<Rightarrow> document_role \<Rightarrow> document_record core_result" where
  "read_document_with_role E D i expected_role =
    and_then (ok_or (core_err ''DocumentNotFound'')
      (find (\<lambda>d. d_id d = i \<and> \<not> d_trashed d) (documents D))) (\<lambda>row.
    and_then (from_storage (d_role row)) (\<lambda>r.
    if r \<noteq> expected_role then Inl (core_err ''DocumentRoleMismatch'')
    else
      and_then (check_body E (d_body row) (d_hash row)) (\<lambda>valid.
      and_then (parse_stored_version (d_metadata row)) (\<lambda>meta.
      Inr \<lparr>doc_head = \<lparr>document_id = i, version = show_int (d_version row), body_hash = d_hash row\<rparr>,
           title = d_title row, kind = d_kind row, metadata_version = meta, body = snapshot valid,
           last_checkpoint_id = d_checkpoint row, role = r\<rparr>))))"

definition read_document :: "env \<Rightarrow> db \<Rightarrow> ustr \<Rightarrow> document_record core_result" where
  "read_document E D i = read_document_with_role E D i Ordinary"

definition read_revision :: "env \<Rightarrow> db \<Rightarrow> ustr \<Rightarrow> revision core_result" where
  "read_revision E D i =
    and_then (ok_or sql_error (find_revision D i)) (\<lambda>row.
    and_then (check_body E (r_body row) (r_hash row)) (\<lambda>valid.
    Inr \<lparr>rev_id = i, rev_head = \<lparr>document_id = r_document row, version = show_int (r_version row),
           body_hash = r_hash row\<rparr>, rev_body = snapshot valid, reason = r_reason row,
         parent_id = r_parent row\<rparr>))"

text \<open>\<open>new\<close> is the identifier \<open>new_id\<close> draws if a revision has to be written.\<close>

definition checkpoint_at :: "env \<Rightarrow> ustr \<Rightarrow> db \<Rightarrow> document_record \<Rightarrow> ustr \<Rightarrow> (revision \<times> db) core_result" where
  "checkpoint_at E new D doc why =
    and_then (parse_version (version (doc_head doc))) (\<lambda>v.
    case find_revision_at D (document_id (doc_head doc), v) of
      Some row \<Rightarrow> and_then (read_revision E D (r_id row)) (\<lambda>r. Inr (r, D))
    | None \<Rightarrow>
        and_then (insert_revision_row \<lparr>r_id = new, r_document = document_id (doc_head doc), r_version = v,
            r_body = json_text E (body doc), r_hash = body_hash (doc_head doc),
            r_parent = last_checkpoint_id doc, r_reason = why\<rparr> D) (\<lambda>D'.
        let D'' = fst (update_documents (\<lambda>d. d_id d = document_id (doc_head doc))
                         (\<lambda>d. d\<lparr>d_checkpoint := Some new\<rparr>) D') in
        and_then (read_revision E D'' new) (\<lambda>r. Inr (r, D''))))"

definition reused :: core_error where
  "reused = core_err ''OperationIdReusedWithDifferentPayload''"

definition existing_receipt ::
  "env \<Rightarrow> db \<Rightarrow> ustr \<Rightarrow> ustr \<Rightarrow> ustr \<Rightarrow> ustr \<Rightarrow> stored_result option core_result" where
  "existing_receipt E D namespace i operation_kind payload =
    (if (namespace, i) \<in> set (workshop_operations D) then Inl reused
     else if (namespace, i) \<in> set (proposal_operations D) then Inl reused
     else transpose_opt (map_option (\<lambda>row.
            if c_kind row \<noteq> operation_kind \<or> c_payload row \<noteq> payload then Inl reused
            else parse_stored_result E (c_result row)) (find_receipt D (namespace, i))))"

definition insert_receipt ::
  "env \<Rightarrow> db \<Rightarrow> ustr \<Rightarrow> ustr \<Rightarrow> ustr \<Rightarrow> ustr \<Rightarrow> stored_result \<Rightarrow> db core_result" where
  "insert_receipt E D namespace i operation_kind payload result =
    insert_receipt_row \<lparr>c_namespace = namespace, c_operation = i, c_document = document_id (res_head result),
      c_payload = payload, c_kind = operation_kind, c_result = stored_result_text E result\<rparr> D"

section \<open>The tables as append-only logs\<close>

lemma find_receipt_None: "find_receipt D k = None \<longleftrightarrow> k \<notin> (\<lambda>c. (c_namespace c, c_operation c)) ` set (command_receipts D)"
  by (auto simp: find_receipt_def find_None_all)

lemma find_revision_None: "find_revision D i = None \<longleftrightarrow> i \<notin> r_id ` set (revisions D)"
  by (auto simp: find_revision_def find_None_all)

lemma find_revision_at_None:
  "find_revision_at D k = None \<longleftrightarrow> k \<notin> (\<lambda>r. (r_document r, r_version r)) ` set (revisions D)"
  by (auto simp: find_revision_at_def find_None_all)

definition put_receipt :: "db \<Rightarrow> ustr \<times> ustr \<Rightarrow> receipt_row \<Rightarrow> db option" where
  "put_receipt D k c =
    (if k = (c_namespace c, c_operation c)
     then (case insert_receipt_row c D of Inl _ \<Rightarrow> None | Inr D' \<Rightarrow> Some D') else None)"

definition put_revision :: "db \<Rightarrow> ustr \<Rightarrow> revision_row \<Rightarrow> db option" where
  "put_revision D i r =
    (if i = r_id r then (case insert_revision_row r D of Inl _ \<Rightarrow> None | Inr D' \<Rightarrow> Some D') else None)"

definition put_revision_at :: "db \<Rightarrow> ustr \<times> int \<Rightarrow> revision_row \<Rightarrow> db option" where
  "put_revision_at D k r =
    (if k = (r_document r, r_version r)
     then (case insert_revision_row r D of Inl _ \<Rightarrow> None | Inr D' \<Rightarrow> Some D') else None)"

lemma put_receipt_SomeD:
  assumes "put_receipt D k c = Some D'"
  shows "k = (c_namespace c, c_operation c) \<and> find_receipt D k = None \<and>
    D' = D\<lparr>command_receipts := command_receipts D @ [c]\<rparr>"
proof -
  have "find_receipt D (c_namespace c, c_operation c) = None \<longleftrightarrow>
      (c_namespace c, c_operation c) \<notin> (\<lambda>x. (c_namespace x, c_operation x)) ` set (command_receipts D)"
    unfolding find_receipt_def by (rule find_key_None)
  with assms show ?thesis by (auto simp: put_receipt_def insert_receipt_row_def split: if_splits)
qed

lemma find_receipt_snoc:
  assumes "find_receipt D (c_namespace c, c_operation c) = None"
  shows "find_receipt (D\<lparr>command_receipts := command_receipts D @ [c]\<rparr>) k = (if k = (c_namespace c, c_operation c) then Some c else find_receipt D k)"
proof -
  have "(c_namespace c, c_operation c) \<notin> (\<lambda>x. (c_namespace x, c_operation x)) ` set (command_receipts D)"
    using assms unfolding find_receipt_def by (rule find_key_None [where key = "\<lambda>x. (c_namespace x, c_operation x)", THEN iffD1])
  from find_key_snoc [where key = "\<lambda>x. (c_namespace x, c_operation x)", OF this, of k] show ?thesis
    unfolding find_receipt_def by simp
qed

interpretation receipts: keyed_log find_receipt put_receipt
  by unfold_locales (auto dest!: put_receipt_SomeD simp: find_receipt_snoc split: if_splits)

lemma insert_revision_row_SomeD:
  assumes "insert_revision_row r D = Inr D'"
  shows "find_revision D (r_id r) = None \<and> find_revision_at D (r_document r, r_version r) = None \<and>
    D' = D\<lparr>revisions := revisions D @ [r]\<rparr>"
proof -
  have "find_revision_at D (r_document r, r_version r) = None \<longleftrightarrow>
      (r_document r, r_version r) \<notin> (\<lambda>x. (r_document x, r_version x)) ` set (revisions D)"
    unfolding find_revision_at_def by (rule find_key_None)
  with assms show ?thesis
    by (auto simp: insert_revision_row_def find_revision_def find_key_None split: if_splits)
qed

lemma find_revision_snoc:
  "find_revision D (r_id r) = None \<Longrightarrow>
   find_revision (D\<lparr>revisions := revisions D @ [r]\<rparr>) i = (if i = r_id r then Some r else find_revision D i)"
  by (simp add: find_revision_def find_key_None find_key_snoc)

lemma find_revision_at_snoc:
  assumes "find_revision_at D (r_document r, r_version r) = None"
  shows "find_revision_at (D\<lparr>revisions := revisions D @ [r]\<rparr>) k = (if k = (r_document r, r_version r) then Some r else find_revision_at D k)"
proof -
  have "(r_document r, r_version r) \<notin> (\<lambda>x. (r_document x, r_version x)) ` set (revisions D)"
    using assms unfolding find_revision_at_def by (rule find_key_None [where key = "\<lambda>x. (r_document x, r_version x)", THEN iffD1])
  from find_key_snoc [where key = "\<lambda>x. (r_document x, r_version x)", OF this, of k] show ?thesis
    unfolding find_revision_at_def by simp
qed

lemma put_revision_SomeD:
  "put_revision D i r = Some D' \<Longrightarrow> i = r_id r \<and> insert_revision_row r D = Inr D'"
  "put_revision_at D k r = Some D' \<Longrightarrow> k = (r_document r, r_version r) \<and> insert_revision_row r D = Inr D'"
  by (auto simp: put_revision_def put_revision_at_def split: if_splits sum.splits)

interpretation revs: keyed_log find_revision put_revision
  by unfold_locales (auto dest!: put_revision_SomeD insert_revision_row_SomeD simp: find_revision_snoc split: if_splits)

interpretation revs_at: keyed_log find_revision_at put_revision_at
  by unfold_locales (auto dest!: put_revision_SomeD insert_revision_row_SomeD simp: find_revision_at_snoc split: if_splits)

end
