(* ===== verification/View_State.thy ===== *)
theory View_State
  imports Storage Scope
begin

text \<open>
  The saved caret of crates/documents/src/view_state.rs: one row naming a head and two
  endpoints. \<open>read_view_state\<close> re-checks the stored row, \<open>validate_endpoint\<close> accepts an endpoint
  only at a grapheme boundary of its block.
\<close>

record view_state =
  vs_document :: ustr
  vs_head :: head
  vs_anchor :: endpoint
  vs_focus :: endpoint

definition invalid_project :: core_error where
  "invalid_project = core_err ''InvalidProject''"

definition u32_offset :: "int \<Rightarrow> nat core_result" where
  "u32_offset n = (if 0 \<le> n \<and> n < 2 ^ 32 then Inr (nat n) else Inl invalid_project)"

definition read_view_state :: "db \<Rightarrow> view_state option core_result" where
  "read_view_state D =
    (case view_state_row D of
       None \<Rightarrow> Inr None
     | Some row \<Rightarrow>
         and_then (check_id (v_document row)) (\<lambda>_.
         and_then (parse_stored_version (v_version row)) (\<lambda>v.
         if \<not> valid_hash (v_hash row) \<or> v_anchor_offset row < 0 \<or> v_focus_offset row < 0 then Inl invalid_project
         else
         and_then (u32_offset (v_anchor_offset row)) (\<lambda>anchor_offset.
         and_then (u32_offset (v_focus_offset row)) (\<lambda>focus_offset.
         and_then (check_id (v_anchor_block row)) (\<lambda>_.
         and_then (check_id (v_focus_block row)) (\<lambda>_.
         Inr (Some \<lparr>vs_document = v_document row,
           vs_head = \<lparr>document_id = v_document row, version = v, body_hash = v_hash row\<rparr>,
           vs_anchor = \<lparr>block_id_of = v_anchor_block row, utf16_offset = anchor_offset\<rparr>,
           vs_focus = \<lparr>block_id_of = v_focus_block row, utf16_offset = focus_offset\<rparr>\<rparr>))))))))"

text \<open>The UTF-16 offsets at which the grapheme clusters of a text start.\<close>

fun cluster_offsets :: "nat \<Rightarrow> ustr list \<Rightarrow> nat list" where
  "cluster_offsets n [] = []"
| "cluster_offsets n (g # gs) = n # cluster_offsets (n + utf16_len g) gs"

definition add_u32 :: "nat \<Rightarrow> nat \<Rightarrow> nat core_result" where
  "add_u32 offset n =
    (if 2 ^ 32 \<le> n \<or> 2 ^ 32 \<le> offset + n then Inl (core_err ''InvalidDocument'') else Inr (offset + n))"

definition endpoint_step :: "env \<Rightarrow> nat \<times> nat list \<Rightarrow> json \<Rightarrow> (nat \<times> nat list) core_result" where
  "endpoint_step E st inline =
    (case st of (offset, boundaries) \<Rightarrow>
      let t = Option.bind (json_get inline (u ''type'')) as_str in
      if t = Some (u ''text'') then
        and_then (ok_or (core_err ''InvalidDocument'') (Option.bind (json_get inline (u ''text'')) as_str)) (\<lambda>s.
        and_then (ensure (list_all (\<lambda>n. n < 2 ^ 32) (cluster_offsets 0 (graphemes E s)))
                    (core_err ''InvalidDocument'')) (\<lambda>_.
        and_then (add_u32 offset (utf16_len s)) (\<lambda>offset'.
        Inr (offset', offset' # map (\<lambda>n. offset + n) (cluster_offsets 0 (graphemes E s)) @ boundaries))))
      else if t = Some (u ''hardBreak'') then
        and_then (add_u32 offset 1) (\<lambda>offset'. Inr (offset', offset' # boundaries))
      else Inl (core_err ''InvalidDocument''))"

definition validate_endpoint :: "env \<Rightarrow> json \<Rightarrow> endpoint \<Rightarrow> unit core_result" where
  "validate_endpoint E doc_body ep =
    and_then (check_id (block_id_of ep)) (\<lambda>_.
    and_then (ok_or (core_err ''InvalidDocument'')
      (Option.bind (Option.bind (Option.bind (json_get doc_body (u ''body'')) as_obj) (\<lambda>b. map_of b (u ''content''))) as_arr)) (\<lambda>blocks.
    and_then (ok_or (core_err ''InvalidRequest'')
      (find (\<lambda>b. Option.bind (Option.bind (Option.bind (json_get b (u ''attrs'')) as_obj) (\<lambda>a. map_of a (u ''id''))) as_str
               = Some (block_id_of ep)) blocks)) (\<lambda>block.
    let block_type = (case Option.bind (json_get block (u ''type'')) as_str of Some t \<Rightarrow> t | None \<Rightarrow> []) in
    if block_type = u ''sceneBreak'' \<and> utf16_offset ep = 0 then Inr ()
    else if block_type \<notin> {u ''paragraph'', u ''heading''} then Inl (core_err ''InvalidRequest'')
    else
      let content = (case Option.bind (json_get block (u ''content'')) as_arr of Some c \<Rightarrow> c | None \<Rightarrow> []) in
      and_then (try_fold (endpoint_step E) (0, [0]) content) (\<lambda>(offset, boundaries).
      if utf16_offset ep \<notin> set boundaries then Inl (core_err ''InvalidRequest'') else Inr ()))))"

text \<open>Both readers of a saved caret: it is only checked against the head it was saved at.\<close>

definition check_view_state :: "env \<Rightarrow> db \<Rightarrow> view_state \<Rightarrow> view_state option core_result" where
  "check_view_state E D st =
    (case read_document E D (vs_document st) of
       Inl e \<Rightarrow> if code e = ''DocumentNotFound'' then Inr None else Inl e
     | Inr current \<Rightarrow>
         if doc_head current = vs_head st then
           and_then (validate_endpoint E (body current) (vs_anchor st)) (\<lambda>_.
           and_then (validate_endpoint E (body current) (vs_focus st)) (\<lambda>_. Inr (Some st)))
         else Inr (Some st))"

definition validate_stored_view_state :: "env \<Rightarrow> db \<Rightarrow> unit core_result" where
  "validate_stored_view_state E D =
    and_then (read_view_state D) (\<lambda>m.
    case m of None \<Rightarrow> Inr () | Some st \<Rightarrow> and_then (check_view_state E D st) (\<lambda>_. Inr ()))"

definition upsert_view_state :: "view_row \<Rightarrow> db \<Rightarrow> db core_result" where
  "upsert_view_state row D =
    (if v_document row \<notin> d_id ` set (documents D) \<or> v_version row < 0 \<or> v_anchor_offset row < 0 \<or> v_focus_offset row < 0
     then Inl sql_error else Inr (D\<lparr>view_state_row := Some row\<rparr>))"

end
