(* ===== verification/History.thy ===== *)
theory History
  imports Storage
begin

text \<open>
  Document history and whole-document restore (crates/documents/src/history.rs): listing and
  reading revisions, the body of the restore transaction, and the check a stored restore
  receipt must pass on replay and on backup.
\<close>

section \<open>Records\<close>

record revision_summary =
  sum_id :: ustr
  sum_head :: head
  sum_reason :: ustr

record history_page =
  page_items :: "revision_summary list"
  next_before_version :: "ustr option"

record restore_request =
  rr_access :: project_access
  rr_operation :: ustr
  rr_expected :: head
  rr_revision :: ustr
  rr_revision_hash :: ustr
  rr_generation :: ustr

record restore_ack =
  ra_access :: project_access
  ra_operation :: ustr
  ra_already :: bool
  ra_result :: stored_result
  ra_document :: document_record

definition DEFAULT_HISTORY_LIMIT :: nat where
  "DEFAULT_HISTORY_LIMIT = 50"

definition MAX_HISTORY_LIMIT :: nat where
  "MAX_HISTORY_LIMIT = 100"

definition restore_request_json :: "restore_request \<Rightarrow> json" where
  "restore_request_json r = JObj [(u ''access'', access_json (rr_access r)), (u ''operationId'', JStr (rr_operation r)),
     (u ''expected'', head_json (rr_expected r)), (u ''revisionId'', JStr (rr_revision r)),
     (u ''revisionHash'', JStr (rr_revision_hash r)), (u ''localGeneration'', JStr (rr_generation r))]"

section \<open>Reading\<close>

definition ensure_document_exists :: "db \<Rightarrow> ustr \<Rightarrow> unit core_result" where
  "ensure_document_exists D i =
    ensure (list_ex (\<lambda>d. d_id d = i \<and> \<not> d_trashed d \<and> d_role d = u ''ordinary'') (documents D))
      (core_err ''DocumentNotFound'')"

definition ensure_document_retained :: "db \<Rightarrow> ustr \<Rightarrow> unit core_result" where
  "ensure_document_retained D i =
    ensure (list_ex (\<lambda>d. d_id d = i \<and> d_role d = u ''ordinary'') (documents D)) (core_err ''DocumentNotFound'')"

definition read_revision_checked :: "env \<Rightarrow> db \<Rightarrow> ustr \<Rightarrow> ustr \<Rightarrow> revision core_result" where
  "read_revision_checked E D doc i =
    (case find_revision D i of
       None \<Rightarrow> Inl (core_err ''RevisionNotFound'')
     | Some row \<Rightarrow>
         if r_document row \<noteq> doc then Inl (core_err ''RevisionDocumentMismatch'') else read_revision E D i)"

definition read_document_revision :: "env \<Rightarrow> db \<Rightarrow> ustr \<Rightarrow> ustr \<Rightarrow> revision core_result" where
  "read_document_revision E D doc i =
    and_then (check_id doc) (\<lambda>_. and_then (check_id i) (\<lambda>_.
    and_then (ensure_document_retained D doc) (\<lambda>_. read_revision_checked E D doc i)))"

text \<open>
  The rows of the history query: newest first, ties by identifier (the version is unique per
  document, so there are none), at most \<open>limit + 1\<close>.
\<close>

definition history_rows :: "db \<Rightarrow> ustr \<Rightarrow> int option \<Rightarrow> nat \<Rightarrow> revision_row list" where
  "history_rows D doc prior limit =
    take (limit + 1) (rev (sort_key r_version
      (filter (\<lambda>r. r_document r = doc \<and> (case prior of None \<Rightarrow> True | Some v \<Rightarrow> r_version r < v)) (revisions D))))"

definition summarize_row :: "ustr \<Rightarrow> revision_row \<Rightarrow> revision_summary core_result" where
  "summarize_row doc row =
    and_then (check_id (r_id row)) (\<lambda>_.
    if \<not> valid_hash (r_hash row) then Inl (core_err ''InvalidProject'')
    else if r_version row < 0 then Inl (core_err ''InvalidProject'')
    else Inr \<lparr>sum_id = r_id row,
      sum_head = \<lparr>document_id = doc, version = show_int (r_version row), body_hash = r_hash row\<rparr>,
      sum_reason = r_reason row\<rparr>)"

definition list_document_history :: "db \<Rightarrow> ustr \<Rightarrow> ustr option \<Rightarrow> nat \<Rightarrow> history_page core_result" where
  "list_document_history D doc before_version requested =
    and_then (check_id doc) (\<lambda>_.
    and_then (ensure_document_exists D doc) (\<lambda>_.
    let limit = (if requested = 0 then DEFAULT_HISTORY_LIMIT else requested) in
    if MAX_HISTORY_LIMIT < limit then Inl (core_err ''InvalidRequest'')
    else
      and_then (transpose_opt (map_option parse_version before_version)) (\<lambda>prior.
      and_then (try_map (summarize_row doc) (history_rows D doc prior limit)) (\<lambda>items.
      if limit < length items
      then Inr \<lparr>page_items = take limit items,
                next_before_version = Some (version (sum_head (items ! (limit - 1))))\<rparr>
      else Inr \<lparr>page_items = items, next_before_version = None\<rparr>))))"

section \<open>Restore\<close>

definition validate_restore_result :: "env \<Rightarrow> db \<Rightarrow> ustr \<Rightarrow> stored_result \<Rightarrow> unit core_result" where
  "validate_restore_result E D doc result =
    and_then (ok_or (core_err ''InvalidReceipt'') (restored result)) (\<lambda>decision.
    and_then (read_revision_checked E D doc (revision_id decision)) (\<lambda>source.
    and_then (read_revision_checked E D doc (before_revision_id decision)) (\<lambda>prior.
    and_then (read_revision_checked E D doc (after_revision_id decision)) (\<lambda>after.
    and_then (parse_version (version (rev_head prior))) (\<lambda>before_version.
    and_then (parse_version (version (rev_head after))) (\<lambda>after_version.
    and_then (ok_or (core_err ''InvalidProject'') (checked_add_i64 before_version 1)) (\<lambda>expected_after_version.
    and_then (parse_version (version (rev_head source))) (\<lambda>source_version.
    if res_head result \<noteq> rev_head after \<or>
       \<not> is_ok (parse_version (saved_generation result)) \<or>
       body_hash (rev_head source) \<noteq> body_hash (rev_head after) \<or>
       rev_body source \<noteq> rev_body after \<or> source_version > before_version \<or>
       rev_body prior = rev_body after \<or> after_version \<noteq> expected_after_version \<or>
       parent_id after \<noteq> Some (rev_id prior) \<or> applied result \<noteq> None
    then Inl (core_err ''InvalidReceipt'')
    else Inr ()))))))))"

text \<open>
  A restore that has no receipt yet; \<open>new_before\<close> and \<open>new_after\<close> are fresh revision identifiers.
  \<open>restore_write\<close> is the part after the last check: it keeps the old body as a revision, writes the
  restored one and keeps that as a revision too.
\<close>

definition restore_write ::
  "env \<Rightarrow> ustr \<Rightarrow> ustr \<Rightarrow> restore_request \<Rightarrow> ustr \<Rightarrow> document_record \<Rightarrow> revision \<Rightarrow> db \<Rightarrow> (stored_result \<times> db) core_result" where
  "restore_write E new_before new_after req payload prior source D =
    and_then (parse_version (version (doc_head prior))) (\<lambda>v.
    and_then (ok_or (core_err ''VersionLimit'') (checked_add_i64 v 1)) (\<lambda>next_version.
    and_then (checkpoint_at E new_before D prior (u ''beforeRestore'')) (\<lambda>(before_revision, D1).
    and_then (replace_body (document_id (doc_head prior)) v (body_hash (doc_head prior)) next_version
                (json_text E (rev_body source)) (body_hash (rev_head source)) D1) (\<lambda>D2.
    and_then (bump_epoch D2) (\<lambda>D3.
    and_then (read_document E D3 (document_id (doc_head prior))) (\<lambda>after.
    and_then (checkpoint_at E new_after D3 after (u ''afterRestore'')) (\<lambda>(after_revision, D4).
    let result = \<lparr>res_head = doc_head after, saved_generation = rr_generation req, applied = None,
          restored = Some \<lparr>revision_id = rev_id source, before_revision_id = rev_id before_revision,
            after_revision_id = rev_id after_revision\<rparr>\<rparr> in
    and_then (insert_receipt E D4 (operation_namespace (rr_access req)) (rr_operation req) (u ''restore'') payload result)
      (\<lambda>D5. Inr (result, D5)))))))))"

definition restore_fresh ::
  "env \<Rightarrow> ustr \<Rightarrow> ustr \<Rightarrow> restore_request \<Rightarrow> ustr \<Rightarrow> db \<Rightarrow> (stored_result \<times> db) core_result" where
  "restore_fresh E new_before new_after req payload D =
    and_then (read_document E D (document_id (rr_expected req))) (\<lambda>prior.
    and_then (require_head (doc_head prior) (rr_expected req)) (\<lambda>_.
    and_then (read_revision_checked E D (document_id (rr_expected req)) (rr_revision req)) (\<lambda>source.
    if body_hash (rev_head source) \<noteq> rr_revision_hash req then Inl (core_err ''RevisionHashMismatch'')
    else if body_hash (rev_head source) = body_hash (doc_head prior) then Inl (core_err ''NoChanges'')
    else restore_write E new_before new_after req payload prior source D)))"

definition restore_tx ::
  "env \<Rightarrow> ustr \<Rightarrow> ustr \<Rightarrow> restore_request \<Rightarrow> ustr \<Rightarrow> db \<Rightarrow> (restore_ack \<times> db) core_result" where
  "restore_tx E new_before new_after req payload D =
    and_then (existing_receipt E D (operation_namespace (rr_access req)) (rr_operation req) (u ''restore'') payload) (\<lambda>found.
    and_then
      (case found of
         Some result \<Rightarrow>
           and_then (validate_restore_result E D (document_id (rr_expected req)) result) (\<lambda>_. Inr (result, D))
       | None \<Rightarrow> restore_fresh E new_before new_after req payload D) (\<lambda>(result, D').
    and_then (read_document E D' (document_id (rr_expected req))) (\<lambda>document.
    Inr (\<lparr>ra_access = rr_access req, ra_operation = rr_operation req, ra_already = (found \<noteq> None),
          ra_result = result, ra_document = document\<rparr>, D'))))"

definition restore_checks :: "env \<Rightarrow> restore_request \<Rightarrow> ustr core_result" where
  "restore_checks E req =
    and_then (check_id (rr_operation req)) (\<lambda>_.
    and_then (check_id (document_id (rr_expected req))) (\<lambda>_.
    and_then (check_id (rr_revision req)) (\<lambda>_.
    and_then (parse_version (version (rr_expected req))) (\<lambda>_.
    and_then (parse_version (rr_generation req)) (\<lambda>_.
    if \<not> valid_hash (body_hash (rr_expected req)) \<or> \<not> valid_hash (rr_revision_hash req)
    then Inl (core_err ''InvalidRequest'')
    else Inr (logical_hash E (restore_request_json req)))))))"

section \<open>Validating stored receipts\<close>

definition validate_receipt_row :: "env \<Rightarrow> db \<Rightarrow> receipt_row \<Rightarrow> unit core_result" where
  "validate_receipt_row E D row =
    (if \<not> valid_id (c_namespace row) \<or> \<not> valid_id (c_operation row) \<or> \<not> valid_id (c_document row)
     then Inl (core_err ''InvalidProject'')
     else if \<not> valid_hash (c_payload row) then Inl (core_err ''InvalidProject'')
     else if c_kind row = u ''restore'' \<and> \<not> is_ok (ensure_document_retained D (c_document row))
     then Inl (core_err ''InvalidProject'')
     else if c_kind row = u ''adoptChatPreview'' then Inr ()
     else
       and_then (parse_stored_result E (c_result row)) (\<lambda>result.
       case restored result of
         None \<Rightarrow> if c_kind row = u ''restore'' then Inl (core_err ''InvalidProject'') else Inr ()
       | Some decision \<Rightarrow>
           if c_kind row \<noteq> u ''restore'' then Inl (core_err ''InvalidProject'')
           else validate_restore_result E D (c_document row) result))"

definition validate_history_storage :: "env \<Rightarrow> db \<Rightarrow> unit core_result" where
  "validate_history_storage E D = try_each (validate_receipt_row E D) (command_receipts D)"

end
