(* ===== verification/Project_Actor.thy ===== *)
theory Project_Actor
  imports View_State History "HOL-Library.Product_Lexorder"
begin

text \<open>
  The project actor of crates/core/src/projects.rs (\<open>OwnedProject\<close>) and its command loop in
  projects/session.rs: one writer lease, one connection, commands executed one after the
  other. \<open>handle\<close> is one turn of the loop. What the environment decides during a command
  (how the transaction ends, whether the connection can be reopened, whether the folder
  marker can be written, which identifiers are drawn) is a \<open>turn\<close> record given with it.
\<close>

section \<open>State and requests\<close>

record actor =
  store :: db
  connected :: bool
  info :: project_info
  marker :: project_info
  cur_access :: "project_access option"
  renderer_session :: "ustr option"
  retired_sessions :: "ustr list"
  needs_reopen :: bool

record turn =
  tx :: tx_outcome
  close_ok :: bool
  open_ok :: bool
  quick_check_ok :: bool
  marker_ok :: bool
  new_lease :: ustr
  new_first :: ustr
  new_second :: ustr

record create_document_request =
  cd_access :: project_access
  cd_operation :: ustr
  cd_document :: ustr
  cd_title :: ustr
  cd_kind :: ustr
  cd_body :: json

datatype save_cause = Typing | Undo | Redo

record save_request =
  sv_access :: project_access
  sv_operation :: ustr
  sv_expected :: head
  sv_generation :: ustr
  sv_body :: json
  sv_cause :: save_cause

record save_ack =
  ack_project :: ustr
  ack_document :: ustr
  ack_session :: ustr
  ack_namespace :: ustr
  ack_operation :: ustr
  ack_head :: head
  ack_generation :: ustr

datatype checkpoint_reason = Manual | Switch | Close | Source | Export | Interval

record reconcile_request =
  rc_project :: ustr
  rc_namespace :: ustr
  rc_session :: ustr
  rc_document :: ustr
  rc_pending :: "ustr list"

record operation_receipt =
  or_operation :: ustr
  or_kind :: ustr
  or_payload :: ustr
  or_result :: stored_result

record reconciled_document =
  rd_access :: project_access
  rd_document :: document_record
  rd_receipts :: "operation_receipt list"

record project_metadata =
  pm_project :: project_info
  pm_version :: ustr

record attached_project =
  at_metadata :: project_metadata
  at_access :: project_access
  at_documents :: "document_record list"
  at_view :: "view_state option"

fun cause_json :: "save_cause \<Rightarrow> json" where
  "cause_json Typing = JStr (u ''typing'')"
| "cause_json Undo = JStr (u ''undo'')"
| "cause_json Redo = JStr (u ''redo'')"

fun reason_text :: "checkpoint_reason \<Rightarrow> ustr" where
  "reason_text Manual = u ''manual''"
| "reason_text Switch = u ''switch''"
| "reason_text Close = u ''close''"
| "reason_text Source = u ''source''"
| "reason_text Export = u ''export''"
| "reason_text Interval = u ''interval''"

definition save_request_json :: "save_request \<Rightarrow> json" where
  "save_request_json r = JObj [(u ''access'', access_json (sv_access r)), (u ''operationId'', JStr (sv_operation r)),
     (u ''expected'', head_json (sv_expected r)), (u ''localGeneration'', JStr (sv_generation r)),
     (u ''body'', sv_body r), (u ''cause'', cause_json (sv_cause r))]"

definition create_request_json :: "create_document_request \<Rightarrow> json" where
  "create_request_json r = JObj [(u ''access'', access_json (cd_access r)), (u ''operationId'', JStr (cd_operation r)),
     (u ''documentId'', JStr (cd_document r)), (u ''title'', JStr (cd_title r)), (u ''kind'', JStr (cd_kind r)),
     (u ''body'', cd_body r)]"

section \<open>Connection and lease\<close>

type_synonym 'a outcome = "'a core_result \<times> actor"

definition the_db :: "actor \<Rightarrow> db core_result" where
  "the_db P = (if connected P then Inr (store P) else Inl sql_error)"

definition fence_uncertain :: "'a core_result \<Rightarrow> actor \<Rightarrow> actor" where
  "fence_uncertain r P =
    (case r of
       Inl e \<Rightarrow> if code e = ''UncertainOutcome'' then P\<lparr>cur_access := None, needs_reopen := True\<rparr> else P
     | Inr _ \<Rightarrow> P)"

definition recover_connection :: "turn \<Rightarrow> actor \<Rightarrow> unit outcome" where
  "recover_connection t P =
    (if \<not> needs_reopen P then (Inr (), P)
     else if connected P \<and> \<not> close_ok t then (Inl sql_error, P)
     else
       let P' = P\<lparr>connected := False\<rparr> in
       if \<not> open_ok t then (Inl sql_error, P')
       else
         (case project_rows (store P) of
            None \<Rightarrow> (Inl sql_error, P')
          | Some row \<Rightarrow>
              if \<not> quick_check_ok t \<or>
                 (p_id row, p_namespace row) \<noteq> (info_project_id (info P), info_operation_namespace (info P))
              then (Inl (core_err ''InvalidProject''), P')
              else (Inr (), P'\<lparr>connected := True, needs_reopen := False\<rparr>)))"

definition attach :: "turn \<Rightarrow> ustr \<Rightarrow> actor \<Rightarrow> project_access outcome" where
  "attach t sess P =
    (if \<not> valid_id sess then (Inl (core_err ''InvalidRequest''), P)
     else if sess \<in> set (retired_sessions P) then (Inl (core_err ''WriterLeaseExpired''), P)
     else if needs_reopen P then (Inl (core_err ''UncertainOutcome''), P)
     else
       let P' = (if renderer_session P \<noteq> Some sess
                 then (case renderer_session P of
                         None \<Rightarrow> P\<lparr>renderer_session := Some sess\<rparr>
                       | Some old \<Rightarrow> P\<lparr>renderer_session := Some sess, retired_sessions := old # retired_sessions P\<rparr>)
                 else P);
           a = \<lparr>project_id = info_project_id (info P), session = sess, writer_lease = new_lease t,
                operation_namespace = info_operation_namespace (info P)\<rparr>
       in (Inr a, P'\<lparr>cur_access := Some a\<rparr>))"

definition check_access :: "actor \<Rightarrow> project_access \<Rightarrow> unit core_result" where
  "check_access P a =
    (if project_id a \<noteq> info_project_id (info P) \<or> operation_namespace a \<noteq> info_operation_namespace (info P)
     then Inl (core_err ''WrongProjectSession'')
     else
       (case cur_access P of
          None \<Rightarrow> Inl (core_err ''WrongProjectSession'')
        | Some current \<Rightarrow>
            if session current \<noteq> session a \<or> writer_lease current \<noteq> writer_lease a
            then Inl (core_err ''WriterLeaseExpired'') else Inr ()))"

text \<open>The checks of a command, its transaction on the open connection, and its answer.\<close>

definition with_tx :: "turn \<Rightarrow> (db \<Rightarrow> ('a \<times> db) core_result) \<Rightarrow> actor \<Rightarrow> 'a outcome" where
  "with_tx t f P =
    (if \<not> connected P then (Inl sql_error, P)
     else case in_tx (tx t) (store P) f of (r, D) \<Rightarrow> (r, P\<lparr>store := D\<rparr>))"

definition after_checks :: "'a core_result \<Rightarrow> ('a \<Rightarrow> 'b outcome) \<Rightarrow> actor \<Rightarrow> 'b outcome" where
  "after_checks c f P = (case c of Inl e \<Rightarrow> (Inl e, P) | Inr x \<Rightarrow> f x)"

definition read_only :: "'a core_result \<Rightarrow> actor \<Rightarrow> 'a outcome" where
  "read_only r P = (r, P)"

definition map_outcome :: "('a \<Rightarrow> 'b) \<Rightarrow> 'a outcome \<Rightarrow> 'b outcome" where
  "map_outcome f o' = (case o' of (r, P) \<Rightarrow> (and_then r (\<lambda>x. Inr (f x)), P))"

section \<open>Metadata\<close>

definition metadata_of :: "db \<Rightarrow> project_metadata core_result" where
  "metadata_of D =
    and_then (ok_or sql_error (project_rows D)) (\<lambda>row.
    and_then (parse_stored_version (p_metadata row)) (\<lambda>v.
    Inr \<lparr>pm_project = \<lparr>info_project_id = p_id row, info_operation_namespace = p_namespace row,
           info_title = p_title row, format_version = p_format row\<rparr>, pm_version = v\<rparr>))"

definition project_metadata :: "actor \<Rightarrow> project_metadata core_result" where
  "project_metadata P = and_then (the_db P) metadata_of"

definition context_source_epoch :: "actor \<Rightarrow> ustr core_result" where
  "context_source_epoch P =
    and_then (the_db P) (\<lambda>D. and_then (ok_or sql_error (project_rows D)) (\<lambda>row. parse_stored_version (p_epoch row)))"

definition rename_project_tx :: "ustr \<Rightarrow> int \<Rightarrow> db \<Rightarrow> (unit \<times> db) core_result" where
  "rename_project_tx new_title expected D =
    (case project_rows D of
       None \<Rightarrow> Inl (core_err ''MetadataConflict'')
     | Some row \<Rightarrow>
         if p_metadata row \<noteq> expected then Inl (core_err ''MetadataConflict'')
         else if p_metadata row = i64_max \<or> p_epoch row = i64_max then Inl sql_error
         else Inr ((), D\<lparr>project_rows := Some (row\<lparr>p_title := new_title, p_metadata := p_metadata row + 1,
                                              p_epoch := p_epoch row + 1\<rparr>)\<rparr>))"

definition rename_project :: "turn \<Rightarrow> project_access \<Rightarrow> ustr \<Rightarrow> ustr \<Rightarrow> actor \<Rightarrow> project_metadata outcome" where
  "rename_project t a expected_version new_title P =
    after_checks
      (and_then (check_access P a) (\<lambda>_.
       and_then (parse_version expected_version) (\<lambda>expected.
       and_then (validate_title new_title) (\<lambda>_.
       and_then (project_metadata P) (\<lambda>current.
       and_then (parse_version (pm_version current)) (\<lambda>current_version.
       if current_version \<noteq> expected then Inl (core_err ''MetadataConflict'') else Inr (expected, current)))))))
      (\<lambda>(expected, current).
        if info_title (pm_project current) = new_title then (Inr current, P)
        else
          case with_tx t (rename_project_tx new_title expected) P of
            (Inl e, P') \<Rightarrow> (Inl e, P')
          | (Inr _, P') \<Rightarrow>
              (case project_metadata P' of
                 Inl _ \<Rightarrow> (Inl uncertain, P')
               | Inr metadata \<Rightarrow>
                   if \<not> marker_ok t then (Inl uncertain, P')
                   else (Inr metadata,
                         P'\<lparr>marker := pm_project metadata, info := (info P')\<lparr>info_title := new_title\<rparr>\<rparr>))) P"

definition rename_document_tx :: "ustr \<Rightarrow> ustr \<Rightarrow> int \<Rightarrow> db \<Rightarrow> (unit \<times> db) core_result" where
  "rename_document_tx i new_title expected D =
    (let (D', changed) = update_documents (\<lambda>d. d_id d = i \<and> d_metadata d = expected)
           (\<lambda>d. d\<lparr>d_title := new_title, d_metadata := d_metadata d + 1\<rparr>) D in
     if changed \<noteq> 0 \<and> expected = i64_max then Inl sql_error
     else if changed \<noteq> 1 then Inl (core_err ''MetadataConflict'')
     else and_then (bump_epoch D') (\<lambda>D''. Inr ((), D'')))"

definition rename_document ::
  "env \<Rightarrow> turn \<Rightarrow> project_access \<Rightarrow> ustr \<Rightarrow> ustr \<Rightarrow> ustr \<Rightarrow> actor \<Rightarrow> document_record outcome" where
  "rename_document E t a i expected_version new_title P =
    after_checks
      (and_then (check_access P a) (\<lambda>_.
       and_then (check_id i) (\<lambda>_.
       and_then (parse_version expected_version) (\<lambda>expected.
       and_then (validate_title new_title) (\<lambda>_.
       and_then (the_db P) (\<lambda>D.
       and_then (read_document E D i) (\<lambda>current.
       and_then (parse_version (metadata_version current)) (\<lambda>current_version.
       if current_version \<noteq> expected then Inl (core_err ''MetadataConflict'') else Inr (expected, current)))))))))
      (\<lambda>(expected, current).
        if title current = new_title then (Inr current, P)
        else
          case with_tx t (rename_document_tx i new_title expected) P of
            (Inl e, P') \<Rightarrow> (Inl e, P')
          | (Inr _, P') \<Rightarrow>
              (and_then (the_db P') (\<lambda>D. map_err (\<lambda>_. uncertain) (read_document E D i)), P')) P"

section \<open>View state\<close>

definition current_view_state :: "env \<Rightarrow> actor \<Rightarrow> view_state option core_result" where
  "current_view_state E P =
    and_then (the_db P) (\<lambda>D.
    and_then (read_view_state D) (\<lambda>m.
    case m of None \<Rightarrow> Inr None | Some st \<Rightarrow> check_view_state E D st))"

definition view_state :: "env \<Rightarrow> project_access \<Rightarrow> actor \<Rightarrow> view_state option core_result" where
  "view_state E a P = and_then (check_access P a) (\<lambda>_. current_view_state E P)"

definition save_view_state ::
  "env \<Rightarrow> turn \<Rightarrow> project_access \<Rightarrow> head \<Rightarrow> endpoint \<Rightarrow> endpoint \<Rightarrow> actor \<Rightarrow> view_state outcome" where
  "save_view_state E t a h anchor focus P =
    after_checks
      (and_then (check_access P a) (\<lambda>_.
       and_then (the_db P) (\<lambda>D.
       and_then (read_document E D (document_id h)) (\<lambda>current.
       and_then (require_head (doc_head current) h) (\<lambda>_.
       and_then (validate_endpoint E (body current) anchor) (\<lambda>_.
       validate_endpoint E (body current) focus))))))
      (\<lambda>_. with_tx t (\<lambda>D.
          and_then (parse_version (version h)) (\<lambda>v.
          and_then (upsert_view_state \<lparr>v_document = document_id h, v_version = v, v_hash = body_hash h,
              v_anchor_block = block_id_of anchor, v_anchor_offset = int (utf16_offset anchor),
              v_focus_block = block_id_of focus, v_focus_offset = int (utf16_offset focus)\<rparr> D) (\<lambda>D'.
          Inr (\<lparr>vs_document = document_id h, vs_head = h, vs_anchor = anchor, vs_focus = focus\<rparr>, D')))) P) P"

section \<open>Documents\<close>

definition next_position :: "db \<Rightarrow> int" where
  "next_position D =
    (case filter (\<lambda>d. d_role d = u ''ordinary'') (documents D) of
       [] \<Rightarrow> 0 | ds \<Rightarrow> Max (set (map d_position ds)) + 1)"

definition create_document_tx ::
  "env \<Rightarrow> create_document_request \<Rightarrow> snapshot_receipt \<Rightarrow> ustr \<Rightarrow> db \<Rightarrow> (document_record \<times> db) core_result" where
  "create_document_tx E req validated payload D =
    and_then (existing_receipt E D (operation_namespace (cd_access req)) (cd_operation req) (u ''createDocument'') payload) (\<lambda>found.
    case found of
      Some result \<Rightarrow>
        and_then (read_document E D (document_id (res_head result))) (\<lambda>record. Inr (record, D))
    | None \<Rightarrow>
        if i64_max < next_position D then Inl sql_error
        else
        and_then (insert_document_row
          \<lparr>d_id = cd_document req, d_kind = cd_kind req, d_title = cd_title req, d_metadata = 0,
           d_position = next_position D, d_version = 0, d_body = canonical_json validated,
           d_hash = hash validated, d_checkpoint = None, d_dirty = True, d_trashed = False,
           d_role = u ''ordinary''\<rparr> D) (\<lambda>D1.
        and_then (bump_epoch D1) (\<lambda>D2.
        and_then (insert_receipt E D2 (operation_namespace (cd_access req)) (cd_operation req) (u ''createDocument'') payload
          \<lparr>res_head = \<lparr>document_id = cd_document req, version = u ''0'', body_hash = hash validated\<rparr>,
           saved_generation = u ''0'', applied = None, restored = None\<rparr>) (\<lambda>D3.
        and_then (read_document E D3 (cd_document req)) (\<lambda>record. Inr (record, D3))))))"

definition create_document :: "env \<Rightarrow> turn \<Rightarrow> create_document_request \<Rightarrow> actor \<Rightarrow> document_record outcome" where
  "create_document E t req P =
    after_checks
      (and_then (check_access P (cd_access req)) (\<lambda>_.
       and_then (check_id (cd_document req)) (\<lambda>_.
       and_then (check_id (cd_operation req)) (\<lambda>_.
       and_then (validate_title (cd_title req)) (\<lambda>_.
       and_then (ensure (cd_kind req \<in> set document_kinds) (core_err ''InvalidDocument'')) (\<lambda>_.
       map_err (\<lambda>_. core_err ''InvalidDocument'') (validate_snapshot_json E (json_text E (cd_body req)))))))))
      (\<lambda>validated. with_tx t (create_document_tx E req validated (logical_hash E (create_request_json req))) P) P"

definition document_records :: "env \<Rightarrow> actor \<Rightarrow> document_record list core_result" where
  "document_records E P =
    and_then (the_db P) (\<lambda>D.
    try_map (\<lambda>d. read_document E D (d_id d))
      (sort_key (\<lambda>d. (d_position d, bytes (d_id d)))
        (filter (\<lambda>d. \<not> d_trashed d \<and> d_role d = u ''ordinary'') (documents D))))"

definition list_documents :: "env \<Rightarrow> project_access \<Rightarrow> actor \<Rightarrow> document_record list core_result" where
  "list_documents E a P = and_then (check_access P a) (\<lambda>_. document_records E P)"

definition attach_snapshot :: "env \<Rightarrow> turn \<Rightarrow> ustr \<Rightarrow> actor \<Rightarrow> attached_project outcome" where
  "attach_snapshot E t sess P =
    (if \<not> valid_id sess then (Inl (core_err ''InvalidRequest''), P)
     else
       case recover_connection t P of
         (Inl e, P') \<Rightarrow> (Inl e, P')
       | (Inr _, P') \<Rightarrow>
           after_checks
             (and_then (project_metadata P') (\<lambda>m.
              and_then (document_records E P') (\<lambda>ds.
              and_then (current_view_state E P') (\<lambda>v. Inr (m, ds, v)))))
             (\<lambda>(m, ds, v). map_outcome
                (\<lambda>a. \<lparr>at_metadata = m, at_access = a, at_documents = ds, at_view = v\<rparr>) (attach t sess P')) P')"

text \<open>The part of \<open>save\<close> that has no receipt yet; undo and redo checkpoint both sides.\<close>

definition checkpoint_if ::
  "env \<Rightarrow> bool \<Rightarrow> ustr \<Rightarrow> ustr \<Rightarrow> (db \<Rightarrow> document_record core_result) \<Rightarrow> db \<Rightarrow> db core_result" where
  "checkpoint_if E wanted new why read D =
    (if wanted then
       and_then (read D) (\<lambda>doc. and_then (checkpoint_at E new D doc why) (\<lambda>(_, D'). Inr D'))
     else Inr D)"

definition save_body ::
  "env \<Rightarrow> ustr \<Rightarrow> ustr \<Rightarrow> save_request \<Rightarrow> document_record \<Rightarrow> snapshot_receipt \<Rightarrow> db \<Rightarrow> (head \<times> db) core_result" where
  "save_body E new_before new_after req prior validated D =
    (let h = doc_head prior in
     if hash validated \<noteq> body_hash h then
       and_then (checkpoint_if E (sv_cause req \<noteq> Typing) new_before (u ''beforeUndoRedo'') (\<lambda>_. Inr prior) D) (\<lambda>D1.
       and_then (parse_version (version h)) (\<lambda>v.
       and_then (ok_or (core_err ''VersionLimit'') (checked_add_i64 v 1)) (\<lambda>next_version.
       and_then (replace_body (document_id h) v (body_hash h) next_version (canonical_json validated) (hash validated) D1) (\<lambda>D2.
       and_then (bump_epoch D2) (\<lambda>D3.
       and_then (checkpoint_if E (sv_cause req \<noteq> Typing) new_after (u ''afterUndoRedo'')
                   (\<lambda>D'. read_document E D' (document_id h)) D3) (\<lambda>D4.
       Inr (h\<lparr>version := show_int next_version, body_hash := hash validated\<rparr>, D4)))))))
     else Inr (h, D))"

definition save_fresh ::
  "env \<Rightarrow> ustr \<Rightarrow> ustr \<Rightarrow> save_request \<Rightarrow> ustr \<Rightarrow> db \<Rightarrow> (stored_result \<times> db) core_result" where
  "save_fresh E new_before new_after req payload D =
    and_then (read_document E D (document_id (sv_expected req))) (\<lambda>prior.
    and_then (require_head (doc_head prior) (sv_expected req)) (\<lambda>_.
    and_then (map_err (\<lambda>_. core_err ''InvalidDocument'') (validate_snapshot_json E (json_text E (sv_body req)))) (\<lambda>validated.
    and_then (save_body E new_before new_after req prior validated D) (\<lambda>(h', D').
    let result = \<lparr>res_head = h', saved_generation = sv_generation req, applied = None, restored = None\<rparr> in
    and_then (insert_receipt E D' (operation_namespace (sv_access req)) (sv_operation req) (u ''save'') payload result)
      (\<lambda>D''. Inr (result, D''))))))"

definition save_tx ::
  "env \<Rightarrow> ustr \<Rightarrow> ustr \<Rightarrow> save_request \<Rightarrow> ustr \<Rightarrow> db \<Rightarrow> (stored_result \<times> db) core_result" where
  "save_tx E new_before new_after req payload D =
    and_then (existing_receipt E D (operation_namespace (sv_access req)) (sv_operation req) (u ''save'') payload) (\<lambda>found.
    case found of
      Some result \<Rightarrow> Inr (result, D)
    | None \<Rightarrow> save_fresh E new_before new_after req payload D)"

definition save_checks :: "env \<Rightarrow> save_request \<Rightarrow> actor \<Rightarrow> ustr core_result" where
  "save_checks E req P =
    and_then (check_access P (sv_access req)) (\<lambda>_.
    and_then (check_id (sv_operation req)) (\<lambda>_.
    and_then (check_id (document_id (sv_expected req))) (\<lambda>_.
    and_then (parse_version (version (sv_expected req))) (\<lambda>_.
    and_then (parse_version (sv_generation req)) (\<lambda>_.
    Inr (logical_hash E (save_request_json req)))))))"

definition ack_of :: "save_request \<Rightarrow> stored_result \<Rightarrow> save_ack" where
  "ack_of req result =
    \<lparr>ack_project = project_id (sv_access req), ack_document = document_id (res_head result),
     ack_session = session (sv_access req), ack_namespace = operation_namespace (sv_access req),
     ack_operation = sv_operation req, ack_head = res_head result, ack_generation = saved_generation result\<rparr>"

definition save :: "env \<Rightarrow> turn \<Rightarrow> save_request \<Rightarrow> actor \<Rightarrow> save_ack outcome" where
  "save E t req P =
    after_checks (save_checks E req P)
      (\<lambda>payload. map_outcome (ack_of req) (with_tx t (save_tx E (new_first t) (new_second t) req payload) P)) P"

definition checkpoint ::
  "env \<Rightarrow> turn \<Rightarrow> project_access \<Rightarrow> head \<Rightarrow> checkpoint_reason \<Rightarrow> actor \<Rightarrow> revision outcome" where
  "checkpoint E t a expected why P =
    after_checks (check_access P a)
      (\<lambda>_. with_tx t (\<lambda>D.
          and_then (read_document E D (document_id expected)) (\<lambda>record.
          and_then (require_head (doc_head record) expected) (\<lambda>_.
          checkpoint_at E (new_first t) D record (reason_text why)))) P) P"

definition history :: "env \<Rightarrow> project_access \<Rightarrow> ustr \<Rightarrow> actor \<Rightarrow> revision list core_result" where
  "history E a i P =
    and_then (check_access P a) (\<lambda>_.
    and_then (the_db P) (\<lambda>D.
    and_then (read_document E D i) (\<lambda>_.
    try_map (\<lambda>r. read_revision E D (r_id r))
      (rev (sort_key r_version (filter (\<lambda>r. r_document r = i) (revisions D)))))))"

section \<open>Reconciliation\<close>

definition pending_receipt :: "env \<Rightarrow> db \<Rightarrow> ustr \<Rightarrow> ustr \<Rightarrow> ustr \<Rightarrow> operation_receipt list core_result" where
  "pending_receipt E D namespace doc i =
    (case find (\<lambda>c. c_namespace c = namespace \<and> c_operation c = i \<and> c_document c = doc) (command_receipts D) of
       None \<Rightarrow> Inr []
     | Some row \<Rightarrow>
         and_then (parse_stored_result E (c_result row)) (\<lambda>result.
         Inr [\<lparr>or_operation = i, or_kind = c_kind row, or_payload = c_payload row, or_result = result\<rparr>]))"

definition reconcile :: "env \<Rightarrow> turn \<Rightarrow> reconcile_request \<Rightarrow> actor \<Rightarrow> reconciled_document outcome" where
  "reconcile E t req P =
    after_checks
      (and_then (ensure (rc_project req = info_project_id (info P) \<and>
                         rc_namespace req = info_operation_namespace (info P)) (core_err ''WrongProjectSession'')) (\<lambda>_.
       and_then (check_id (rc_session req)) (\<lambda>_.
       and_then (check_id (rc_document req)) (\<lambda>_.
       and_then (ensure (length (rc_pending req) \<le> 64) (core_err ''InvalidRequest'')) (\<lambda>_.
       try_each check_id (rc_pending req))))))
      (\<lambda>_. case recover_connection t P of
         (Inl e, P1) \<Rightarrow> (Inl e, P1)
       | (Inr _, P1) \<Rightarrow>
           (case attach t (rc_session req) P1 of
              (Inl e, P2) \<Rightarrow> (Inl e, P2)
            | (Inr a, P2) \<Rightarrow>
                read_only
                  (and_then (the_db P2) (\<lambda>D.
                   and_then (read_document E D (rc_document req)) (\<lambda>document.
                   and_then (try_map (pending_receipt E D (info_operation_namespace (info P2)) (rc_document req))
                               (rc_pending req)) (\<lambda>receipts.
                   Inr \<lparr>rd_access = a, rd_document = document, rd_receipts = concat receipts\<rparr>)))) P2)) P"

section \<open>History commands\<close>

definition restore_revision :: "env \<Rightarrow> turn \<Rightarrow> restore_request \<Rightarrow> actor \<Rightarrow> restore_ack outcome" where
  "restore_revision E t req P =
    after_checks (and_then (check_access P (rr_access req)) (\<lambda>_. restore_checks E req))
      (\<lambda>payload. with_tx t (restore_tx E (new_first t) (new_second t) req payload) P) P"

definition list_history_command :: "project_access \<Rightarrow> ustr \<Rightarrow> ustr option \<Rightarrow> nat \<Rightarrow> actor \<Rightarrow> history_page core_result" where
  "list_history_command a doc prior limit P =
    and_then (check_access P a) (\<lambda>_. and_then (the_db P) (\<lambda>D. list_document_history D doc prior limit))"

definition read_history_command :: "env \<Rightarrow> project_access \<Rightarrow> ustr \<Rightarrow> ustr \<Rightarrow> actor \<Rightarrow> revision core_result" where
  "read_history_command E a doc i P =
    and_then (check_access P a) (\<lambda>_. and_then (the_db P) (\<lambda>D. read_document_revision E D doc i))"

section \<open>The command loop\<close>

datatype command =
    CAttach ustr
  | CCreate create_document_request
  | CList project_access
  | CRead project_access ustr
  | CSave save_request
  | CCheckpoint project_access head checkpoint_reason
  | CLegacyHistory project_access ustr
  | CReconcile reconcile_request
  | CProjectMetadata
  | CAttachSnapshot ustr
  | CRenameProject project_access ustr ustr
  | CRenameDocument project_access ustr ustr ustr
  | CViewState project_access
  | CSaveViewState project_access head endpoint endpoint
  | CContextSourceEpoch
  | CHistoryList project_access ustr "ustr option" nat
  | CHistoryRead project_access ustr ustr
  | CRestore restore_request

datatype reply =
    RAccess project_access
  | RDocument document_record
  | RDocuments "document_record list"
  | RAck save_ack
  | RRevision revision
  | RRevisions "revision list"
  | RReconciled reconciled_document
  | RMetadata project_metadata
  | RAttached attached_project
  | RView "view_state option"
  | RSavedView view_state
  | REpoch ustr
  | RPage history_page
  | RRestored restore_ack

text \<open>A mutating command fences the actor when its outcome is uncertain.\<close>

definition fenced :: "('a \<Rightarrow> reply) \<Rightarrow> 'a outcome \<Rightarrow> reply outcome" where
  "fenced f o' = (case o' of (r, P) \<Rightarrow> map_outcome f (r, fence_uncertain r P))"

fun handle :: "env \<Rightarrow> turn \<Rightarrow> command \<Rightarrow> actor \<Rightarrow> reply outcome" where
  "handle E t (CAttach sess) P = map_outcome RAccess (attach t sess P)"
| "handle E t (CCreate req) P = fenced RDocument (create_document E t req P)"
| "handle E t (CList a) P = map_outcome RDocuments (read_only (list_documents E a P) P)"
| "handle E t (CRead a i) P = map_outcome RDocument
     (read_only (and_then (check_access P a) (\<lambda>_. and_then (the_db P) (\<lambda>D. read_document E D i))) P)"
| "handle E t (CSave req) P = fenced RAck (save E t req P)"
| "handle E t (CCheckpoint a h why) P = fenced RRevision (checkpoint E t a h why P)"
| "handle E t (CLegacyHistory a i) P = map_outcome RRevisions (read_only (history E a i P) P)"
| "handle E t (CReconcile req) P = map_outcome RReconciled (reconcile E t req P)"
| "handle E t CProjectMetadata P =
     (case recover_connection t P of
        (Inl e, P') \<Rightarrow> (Inl e, P')
      | (Inr _, P') \<Rightarrow> map_outcome RMetadata (read_only (project_metadata P') P'))"
| "handle E t (CAttachSnapshot sess) P = map_outcome RAttached (attach_snapshot E t sess P)"
| "handle E t (CRenameProject a v s) P = fenced RMetadata (rename_project t a v s P)"
| "handle E t (CRenameDocument a i v s) P = fenced RDocument (rename_document E t a i v s P)"
| "handle E t (CViewState a) P = map_outcome RView (read_only (view_state E a P) P)"
| "handle E t (CSaveViewState a h p q) P = fenced RSavedView (save_view_state E t a h p q P)"
| "handle E t CContextSourceEpoch P = map_outcome REpoch (read_only (context_source_epoch P) P)"
| "handle E t (CHistoryList a doc prior limit) P =
     fenced RPage (read_only (list_history_command a doc prior limit P) P)"
| "handle E t (CHistoryRead a doc i) P = fenced RRevision (read_only (read_history_command E a doc i P) P)"
| "handle E t (CRestore req) P = fenced RRestored (restore_revision E t req P)"

text \<open>Runs of the loop.\<close>

inductive step :: "env \<Rightarrow> actor \<Rightarrow> command \<Rightarrow> reply core_result \<Rightarrow> actor \<Rightarrow> bool" for E where
  step_turn: "handle E t c P = (r, P') \<Longrightarrow> step E P c r P'"

inductive runs :: "env \<Rightarrow> actor \<Rightarrow> (command \<times> reply core_result) list \<Rightarrow> actor \<Rightarrow> bool" for E where
  runs_none: "runs E P [] P"
| runs_step: "step E P c r P' \<Longrightarrow> runs E P' cs P'' \<Longrightarrow> runs E P ((c, r) # cs) P''"

inductive_cases stepE: "step E P c r P'"
inductive_cases runs_NilE: "runs E P [] P'"
inductive_cases runs_ConsE: "runs E P (x # cs) P'"

end
