(* ===== verification/Storage_Proofs.thy ===== *)
theory Storage_Proofs
  imports Project_Actor
begin

text \<open>
  How the tables evolve. \<open>grows\<close> relates a database to a later one: revisions and receipts are
  only appended to, documents are never removed, a version never falls and a body changes only
  with its version, and the source epoch moves whenever a source changes. \<open>db_ok\<close> is the
  invariant of the tables. Both are shown for the statements the transactions are made of.
\<close>

section \<open>Growth\<close>

definition doc_grows :: "document_row \<Rightarrow> document_row \<Rightarrow> bool" where
  "doc_grows d d' \<longleftrightarrow>
     d_id d' = d_id d \<and> d_role d' = d_role d \<and> d_kind d' = d_kind d \<and> d_version d \<le> d_version d' \<and>
     (d_version d' = d_version d \<longrightarrow> d_body d' = d_body d \<and> d_hash d' = d_hash d) \<and>
     d_metadata d \<le> d_metadata d' \<and> (d_metadata d' = d_metadata d \<longrightarrow> d_title d' = d_title d)"

definition source_view :: "document_row \<Rightarrow> ustr \<times> ustr \<times> int \<times> ustr \<times> ustr" where
  "source_view d = (d_id d, d_title d, d_version d, d_body d, d_hash d)"

definition epoch_grows :: "db \<Rightarrow> db \<Rightarrow> bool" where
  "epoch_grows D D' \<longleftrightarrow>
     (case (project_rows D, project_rows D') of
        (Some p, Some p') \<Rightarrow>
          p_id p' = p_id p \<and> p_namespace p' = p_namespace p \<and> p_epoch p \<le> p_epoch p' \<and>
          (p_epoch p' = p_epoch p \<longrightarrow>
             p_title p' = p_title p \<and> map source_view (documents D') = map source_view (documents D))
      | (None, None) \<Rightarrow> True
      | _ \<Rightarrow> False)"

definition tables_grow :: "db \<Rightarrow> db \<Rightarrow> bool" where
  "tables_grow D D' \<longleftrightarrow>
     (\<exists>ds xs. documents D' = ds @ xs \<and> list_all2 doc_grows (documents D) ds) \<and>
     (\<exists>rs. revisions D' = revisions D @ rs) \<and> (\<exists>cs. command_receipts D' = command_receipts D @ cs) \<and>
     workshop_operations D' = workshop_operations D \<and> proposal_operations D' = proposal_operations D \<and>
     generation_operations D' = generation_operations D"

definition grows :: "db \<Rightarrow> db \<Rightarrow> bool" where
  "grows D D' \<longleftrightarrow> tables_grow D D' \<and> epoch_grows D D'"

lemma doc_grows_refl [simp]: "doc_grows d d"
  by (simp add: doc_grows_def)

lemma doc_grows_trans: "doc_grows a b \<Longrightarrow> doc_grows b c \<Longrightarrow> doc_grows a c"
  unfolding doc_grows_def by (smt (verit) order.trans order.antisym)

lemma same_documents_prefix: "\<exists>ds. (\<exists>xs. as = ds @ xs) \<and> list_all2 doc_grows as ds"
  by (intro exI [of _ as]) (simp add: list.rel_refl)

lemma tables_grow_refl [simp]: "tables_grow D D"
  by (simp add: tables_grow_def same_documents_prefix)

lemma tables_grow_trans:
  assumes "tables_grow A B" "tables_grow B C"
  shows "tables_grow A C"
proof -
  obtain bs xs where b: "documents B = bs @ xs" "list_all2 doc_grows (documents A) bs"
    using assms(1) by (auto simp: tables_grow_def)
  obtain cs ys where c: "documents C = cs @ ys" "list_all2 doc_grows (documents B) cs"
    using assms(2) by (auto simp: tables_grow_def)
  from c(2) b(1) obtain cs1 cs2 where cs: "cs = cs1 @ cs2" "list_all2 doc_grows bs cs1"
    by (auto simp: list_all2_append1)
  from b(2) cs(2) have "list_all2 doc_grows (documents A) cs1"
    by (rule list_all2_trans [rotated]) (rule doc_grows_trans)
  with c(1) cs(1) have "\<exists>ds zs. documents C = ds @ zs \<and> list_all2 doc_grows (documents A) ds"
    by (intro exI [of _ cs1] exI [of _ "cs2 @ ys"]) simp
  with assms show ?thesis by (auto simp: tables_grow_def)
qed

lemma epoch_grows_refl [simp]: "epoch_grows D D"
  by (simp add: epoch_grows_def split: option.split)

lemma epoch_grows_trans: "epoch_grows A B \<Longrightarrow> epoch_grows B C \<Longrightarrow> epoch_grows A C"
  by (auto simp: epoch_grows_def split: option.splits)

lemma grows_refl [simp]: "grows D D"
  by (simp add: grows_def)

lemma grows_trans: "grows A B \<Longrightarrow> grows B C \<Longrightarrow> grows A C"
  unfolding grows_def using tables_grow_trans epoch_grows_trans by blast

lemma in_tx_cases:
  assumes "in_tx t D f = (r, D')"
  obtains "D' = D" | x where "f D = Inr (x, D')"
  using assms by (auto simp: in_tx_def split: tx_outcome.splits sum.splits prod.splits if_splits)

lemma in_tx_ok:
  "in_tx t D f = (Inr x, D') \<longleftrightarrow> t = Committed \<and> f D = Inr (x, D')"
  by (auto simp: in_tx_def split: tx_outcome.splits sum.splits prod.splits if_splits)

lemma in_tx_err: "f D = Inl e \<Longrightarrow> in_tx t D f = (if t = BeginFailed then Inl sql_error else Inl e, D)"
  by (auto simp: in_tx_def split: tx_outcome.splits)

section \<open>The statements\<close>

lemma update_documents_simps [simp]:
  "documents (fst (update_documents w f D)) = map (\<lambda>d. if w d then f d else d) (documents D)"
  "revisions (fst (update_documents w f D)) = revisions D"
  "command_receipts (fst (update_documents w f D)) = command_receipts D"
  "project_rows (fst (update_documents w f D)) = project_rows D"
  "workshop_operations (fst (update_documents w f D)) = workshop_operations D"
  "proposal_operations (fst (update_documents w f D)) = proposal_operations D"
  "generation_operations (fst (update_documents w f D)) = generation_operations D"
  "view_state_row (fst (update_documents w f D)) = view_state_row D"
  "snd (update_documents w f D) = length (filter w (documents D))"
  by (simp_all add: update_documents_def)

lemma update_documents_grow:
  assumes "\<And>d. d \<in> set (documents D) \<Longrightarrow> w d \<Longrightarrow> doc_grows d (f d)"
  shows "tables_grow D (fst (update_documents w f D))"
proof -
  have "list_all2 doc_grows (documents D) (map (\<lambda>d. if w d then f d else d) (documents D))"
    using assms by (auto simp: list_all2_map2 list_all2_same)
  then show ?thesis
    unfolding tables_grow_def
    by (intro conjI exI [of _ "map (\<lambda>d. if w d then f d else d) (documents D)"] exI [of _ "[]"]) simp_all
qed

lemma bump_epoch_Inr:
  assumes "bump_epoch D = Inr D'"
  shows "documents D' = documents D \<and> revisions D' = revisions D \<and> command_receipts D' = command_receipts D \<and>
    workshop_operations D' = workshop_operations D \<and> proposal_operations D' = proposal_operations D \<and>
    generation_operations D' = generation_operations D \<and> view_state_row D' = view_state_row D \<and>
    project_rows D' = map_option (\<lambda>p. p\<lparr>p_epoch := p_epoch p + 1\<rparr>) (project_rows D)"
  using assms by (auto simp: bump_epoch_def split: option.splits if_splits)

lemma bump_epoch_grow: "bump_epoch D = Inr D' \<Longrightarrow> tables_grow D D'"
  using bump_epoch_Inr [of D D'] by (simp add: tables_grow_def same_documents_prefix)

text \<open>Any change of the documents followed by a bump of the epoch satisfies the epoch law.\<close>

lemma bump_epoch_fences:
  "bump_epoch D1 = Inr D2 \<Longrightarrow> project_rows D1 = project_rows D \<Longrightarrow> epoch_grows D D2"
  using bump_epoch_Inr [of D1 D2] by (auto simp: epoch_grows_def split: option.split)

lemma same_sources_epoch:
  "project_rows D' = project_rows D \<Longrightarrow> map source_view (documents D') = map source_view (documents D) \<Longrightarrow>
   epoch_grows D D'"
  by (auto simp: epoch_grows_def split: option.split)

lemma insert_receipt_Inr:
  "insert_receipt E D ns i k p res = Inr D' \<Longrightarrow>
   find_receipt D (ns, i) = None \<and> D' = D\<lparr>command_receipts := command_receipts D @
     [\<lparr>c_namespace = ns, c_operation = i, c_document = document_id (res_head res), c_payload = p, c_kind = k,
       c_result = stored_result_text E res\<rparr>]\<rparr>"
  unfolding insert_receipt_def insert_receipt_row_def
  by (auto simp: find_receipt_None split: if_splits)

lemma insert_receipt_grows: "insert_receipt E D ns i k p res = Inr D' \<Longrightarrow> grows D D'"
  by (drule insert_receipt_Inr) (auto simp: grows_def tables_grow_def same_documents_prefix intro: same_sources_epoch)

lemma insert_revision_grows: "insert_revision_row r D = Inr D' \<Longrightarrow> grows D D'"
  by (drule insert_revision_row_SomeD) (auto simp: grows_def tables_grow_def same_documents_prefix intro: same_sources_epoch)

lemma and_then_pair: "and_then R (\<lambda>r. Inr (r, X)) = Inr (r, Y) \<Longrightarrow> R = Inr r \<and> Y = X"
  by (cases R) auto

lemma checkpoint_cases:
  assumes "checkpoint_at E new D doc why = Inr (r, D')"
  obtains (existing) row v where "parse_version (version (doc_head doc)) = Inr v"
      "find_revision_at D (document_id (doc_head doc), v) = Some row"
      "read_revision E D (r_id row) = Inr r" "D' = D"
  | (fresh) v D1 where "parse_version (version (doc_head doc)) = Inr v"
      "find_revision_at D (document_id (doc_head doc), v) = None"
      "insert_revision_row \<lparr>r_id = new, r_document = document_id (doc_head doc), r_version = v,
            r_body = json_text E (body doc), r_hash = body_hash (doc_head doc),
            r_parent = last_checkpoint_id doc, r_reason = why\<rparr> D = Inr D1"
      "D' = fst (update_documents (\<lambda>d. d_id d = document_id (doc_head doc)) (\<lambda>d. d\<lparr>d_checkpoint := Some new\<rparr>) D1)"
      "read_revision E D' new = Inr r"
proof -
  let ?i = "document_id (doc_head doc)"
  from assms obtain v where v: "parse_version (version (doc_head doc)) = Inr v"
    by (auto simp: checkpoint_at_def and_then_eq_Inr)
  show ?thesis
  proof (cases "find_revision_at D (?i, v)")
    case (Some row)
    with assms v have "read_revision E D (r_id row) = Inr r" "D' = D"
      by (auto simp: checkpoint_at_def and_then_eq_Inr)
    with v Some show ?thesis by (rule existing)
  next
    case None
    let ?row = "\<lparr>r_id = new, r_document = ?i, r_version = v, r_body = json_text E (body doc),
            r_hash = body_hash (doc_head doc), r_parent = last_checkpoint_id doc, r_reason = why\<rparr>"
    from assms [unfolded checkpoint_at_def v and_then_simps None option.case Let_def]
    obtain D1 where ins: "insert_revision_row ?row D = Inr D1"
      and rest: "and_then (read_revision E (fst (update_documents (\<lambda>d. d_id d = ?i)
          (\<lambda>d. d\<lparr>d_checkpoint := Some new\<rparr>) D1)) new)
        (\<lambda>r. Inr (r, fst (update_documents (\<lambda>d. d_id d = ?i) (\<lambda>d. d\<lparr>d_checkpoint := Some new\<rparr>) D1))) = Inr (r, D')"
      by (erule and_then_okE)
    have eq: "D' = fst (update_documents (\<lambda>d. d_id d = ?i) (\<lambda>d. d\<lparr>d_checkpoint := Some new\<rparr>) D1)"
      by (rule conjunct2 [OF and_then_pair [OF rest]])
    have "read_revision E D' new = Inr r"
      unfolding eq by (rule conjunct1 [OF and_then_pair [OF rest]])
    then show ?thesis by (rule fresh [OF v None ins eq])
  qed
qed

lemma checkpoint_grows: "checkpoint_at E new D doc why = Inr (r, D') \<Longrightarrow> grows D D'"
proof (erule checkpoint_cases)
  fix v D1
  assume ins: "insert_revision_row \<lparr>r_id = new, r_document = document_id (doc_head doc), r_version = v,
            r_body = json_text E (body doc), r_hash = body_hash (doc_head doc),
            r_parent = last_checkpoint_id doc, r_reason = why\<rparr> D = Inr D1"
    and D': "D' = fst (update_documents (\<lambda>d. d_id d = document_id (doc_head doc)) (\<lambda>d. d\<lparr>d_checkpoint := Some new\<rparr>) D1)"
  have "tables_grow D1 D'" unfolding D' by (rule update_documents_grow) (simp add: doc_grows_def)
  moreover have "epoch_grows D1 D'" unfolding D' by (rule same_sources_epoch) (auto simp: source_view_def)
  ultimately have "grows D1 D'" by (simp only: grows_def)
  then show "grows D D'" by (rule grows_trans [OF insert_revision_grows [OF ins]])
qed simp

end
