(* ===== verification/Storage_Invariant.thy ===== *)
theory Storage_Invariant
  imports Storage_Proofs
begin

text \<open>
  The invariant of the tables. A stored body is the canonical text of a well-formed document
  under its own hash; identifiers and versions are unique; a revision is no newer than its
  document, and equals it at the same version; parents are older revisions of the same document;
  and the checkpoint pointer of a document names its newest revision.
\<close>

section \<open>Definition\<close>

definition text_ok :: "env \<Rightarrow> ustr \<Rightarrow> ustr \<Rightarrow> bool" where
  "text_ok E t h \<longleftrightarrow>
     (\<exists>bs. document_ok E bs \<and> t = json_text E (document_value bs) \<and> h = sha256_hex E (bytes t))"

definition document_row_ok :: "env \<Rightarrow> document_row \<Rightarrow> bool" where
  "document_row_ok E d \<longleftrightarrow>
     text_ok E (d_body d) (d_hash d) \<and> 0 \<le> d_version d \<and> d_version d \<le> i64_max \<and>
     0 \<le> d_metadata d \<and> d_metadata d \<le> i64_max \<and> d_role d \<in> range storage_name \<and>
     d_kind d \<in> set document_kinds"

definition revision_row_ok :: "env \<Rightarrow> db \<Rightarrow> revision_row \<Rightarrow> bool" where
  "revision_row_ok E D r \<longleftrightarrow>
     text_ok E (r_body r) (r_hash r) \<and> 0 \<le> r_version r \<and>
     (\<exists>d \<in> set (documents D). d_id d = r_document r \<and> r_version r \<le> d_version d \<and>
        (r_version r = d_version d \<longrightarrow> r_body r = d_body d \<and> r_hash r = d_hash d)) \<and>
     (\<forall>p. r_parent r = Some p \<longrightarrow>
        (\<exists>q \<in> set (revisions D). r_id q = p \<and> r_document q = r_document r \<and> r_version q < r_version r))"

definition checkpoint_ok :: "db \<Rightarrow> document_row \<Rightarrow> bool" where
  "checkpoint_ok D d \<longleftrightarrow>
     (d_checkpoint d = None \<longrightarrow> (\<forall>r \<in> set (revisions D). r_document r \<noteq> d_id d)) \<and>
     (\<forall>i. d_checkpoint d = Some i \<longrightarrow>
        (\<exists>r \<in> set (revisions D). r_id r = i \<and> r_document r = d_id d \<and>
           (\<forall>q \<in> set (revisions D). r_document q = d_id d \<longrightarrow> r_version q \<le> r_version r)))"

definition rev_key :: "revision_row \<Rightarrow> ustr \<times> int" where
  "rev_key r = (r_document r, r_version r)"

definition receipt_key :: "receipt_row \<Rightarrow> ustr \<times> ustr" where
  "receipt_key c = (c_namespace c, c_operation c)"

definition keys_ok :: "db \<Rightarrow> bool" where
  "keys_ok D \<longleftrightarrow> distinct (map d_id (documents D)) \<and> distinct (map r_id (revisions D)) \<and>
     distinct (map rev_key (revisions D)) \<and> distinct (map receipt_key (command_receipts D))"

definition db_ok :: "env \<Rightarrow> db \<Rightarrow> bool" where
  "db_ok E D \<longleftrightarrow> keys_ok D \<and> (\<forall>d \<in> set (documents D). document_row_ok E d \<and> checkpoint_ok D d) \<and>
     (\<forall>r \<in> set (revisions D). revision_row_ok E D r)"

section \<open>Reading rows\<close>

text \<open>What a document record says of the row it was read from.\<close>

definition reflects :: "env \<Rightarrow> document_row \<Rightarrow> document_record \<Rightarrow> bool" where
  "reflects E d rec \<longleftrightarrow>
     doc_head rec = \<lparr>document_id = d_id d, version = show_int (d_version d), body_hash = d_hash d\<rparr> \<and>
     title rec = d_title d \<and> kind rec = d_kind d \<and> last_checkpoint_id rec = d_checkpoint d \<and>
     json_text E (body rec) = d_body d \<and> text_ok E (d_body d) (d_hash d) \<and>
     (\<exists>bs. document_ok E bs \<and> body rec = document_value bs) \<and> metadata_version rec = show_int (d_metadata d)"

lemma receipt_of_simps [simp]:
  "snapshot (receipt_of E bs) = document_value bs"
  "canonical_json (receipt_of E bs) = json_text E (document_value bs)"
  "hash (receipt_of E bs) = sha256_hex E (bytes (json_text E (document_value bs)))"
  by (simp_all add: receipt_of_def Let_def)

lemma check_body_ok:
  assumes "check_body E t h = Inr valid"
  shows "text_ok E t h \<and> json_text E (snapshot valid) = t \<and> hash valid = h \<and>
    (\<exists>bs. document_ok E bs \<and> snapshot valid = document_value bs)"
proof -
  from assms have v: "validate_snapshot_json E t = Inr valid" and eq: "hash valid = h" "canonical_json valid = t"
    by (auto simp: check_body_def and_then_eq_Inr split: if_splits)
  from accepted_receipt [OF v] obtain bs where "document_ok E bs" "valid = receipt_of E bs" by blast
  with eq show ?thesis by (auto simp: text_ok_def)
qed

lemma read_document_ok:
  assumes "read_document E D i = Inr rec"
  obtains d where "d \<in> set (documents D)" "d_id d = i" "\<not> d_trashed d" "d_role d = u ''ordinary''"
    "reflects E d rec" "role rec = Ordinary" "0 \<le> d_metadata d"
proof -
  from assms obtain d valid where d: "find (\<lambda>d. d_id d = i \<and> \<not> d_trashed d) (documents D) = Some d"
    and r: "d_role d = u ''ordinary''" "check_body E (d_body d) (d_hash d) = Inr valid" "0 \<le> d_metadata d"
    and rec: "rec = \<lparr>doc_head = \<lparr>document_id = i, version = show_int (d_version d), body_hash = d_hash d\<rparr>,
           title = d_title d, kind = d_kind d, metadata_version = show_int (d_metadata d), body = snapshot valid,
           last_checkpoint_id = d_checkpoint d, role = Ordinary\<rparr>"
    by (auto simp: read_document_def read_document_with_role_def and_then_eq_Inr parse_stored_version_def
        split: if_splits)
  from find_SomeD [OF d] check_body_ok [OF r(2)] r rec show ?thesis
    by (intro that [of d]) (auto simp: reflects_def)
qed

lemma row_by_id: "keys_ok D \<Longrightarrow> d \<in> set (documents D) \<Longrightarrow> e \<in> set (documents D) \<Longrightarrow> d_id d = d_id e \<Longrightarrow> d = e"
  unfolding keys_ok_def by (meson distinct_map inj_onD)

lemma revision_by_id:
  "keys_ok D \<Longrightarrow> r \<in> set (revisions D) \<Longrightarrow> q \<in> set (revisions D) \<Longrightarrow> r_id r = r_id q \<Longrightarrow> r = q"
  unfolding keys_ok_def by (meson distinct_map inj_onD)

lemma revision_by_key:
  "keys_ok D \<Longrightarrow> r \<in> set (revisions D) \<Longrightarrow> q \<in> set (revisions D) \<Longrightarrow> rev_key r = rev_key q \<Longrightarrow> r = q"
  unfolding keys_ok_def by (meson distinct_map inj_onD)

lemma find_revision_in: "keys_ok D \<Longrightarrow> r \<in> set (revisions D) \<Longrightarrow> find_revision D (r_id r) = Some r"
  unfolding find_revision_def keys_ok_def by (rule find_distinct_key) auto

section \<open>Preservation\<close>

lemma tables_grow_row:
  assumes "tables_grow D D'" "d \<in> set (documents D)"
  shows "\<exists>d' \<in> set (documents D'). doc_grows d d'"
  using assms by (fastforce simp: tables_grow_def list_all2_conv_all_nth in_set_conv_nth)

lemma revision_row_ok_mono:
  assumes "tables_grow D D'" "revision_row_ok E D r"
  shows "revision_row_ok E D' r"
proof -
  from assms(2) obtain d where d: "d \<in> set (documents D)" "d_id d = r_document r" "r_version r \<le> d_version d"
    "r_version r = d_version d \<longrightarrow> r_body r = d_body d \<and> r_hash r = d_hash d"
    by (auto simp: revision_row_ok_def)
  from tables_grow_row [OF assms(1) d(1)] obtain d' where d': "d' \<in> set (documents D')" "doc_grows d d'"
    by blast
  with d have "d_id d' = r_document r \<and> r_version r \<le> d_version d' \<and>
      (r_version r = d_version d' \<longrightarrow> r_body r = d_body d' \<and> r_hash r = d_hash d')"
    by (auto simp: doc_grows_def)
  moreover have "set (revisions D) \<subseteq> set (revisions D')"
    using assms(1) by (auto simp: tables_grow_def)
  ultimately show ?thesis
    using assms(2) d'(1) unfolding revision_row_ok_def by (meson subsetD)
qed

lemma checkpoint_ok_cong:
  "revisions D' = revisions D \<Longrightarrow> d_id d' = d_id d \<Longrightarrow> d_checkpoint d' = d_checkpoint d \<Longrightarrow>
   checkpoint_ok D' d' = checkpoint_ok D d"
  by (simp add: checkpoint_ok_def)

text \<open>An update of the rows that keeps revisions, identities and checkpoints.\<close>

lemma update_rows_ok:
  assumes ok: "db_ok E D"
    and grow: "\<And>d. d \<in> set (documents D) \<Longrightarrow> w d \<Longrightarrow> doc_grows d (f d)"
    and row: "\<And>d. d \<in> set (documents D) \<Longrightarrow> w d \<Longrightarrow> document_row_ok E d \<Longrightarrow> document_row_ok E (f d)"
    and same: "\<And>d. w d \<Longrightarrow> d_checkpoint (f d) = d_checkpoint d"
  shows "db_ok E (fst (update_documents w f D))"
proof -
  let ?D = "fst (update_documents w f D)"
  have id: "d_id (if w d then f d else d) = d_id d" if "d \<in> set (documents D)" for d
    using grow [OF that] by (simp add: doc_grows_def)
  then have "map d_id (documents ?D) = map d_id (documents D)" by simp
  with ok have "keys_ok ?D" by (simp add: db_ok_def keys_ok_def del: map_map)
  moreover have "document_row_ok E d \<and> checkpoint_ok ?D d" if "d \<in> set (documents ?D)" for d
  proof -
    from that obtain e where e: "e \<in> set (documents D)" "d = (if w e then f e else e)" by auto
    with ok row [OF e(1)] same [of e] id [OF e(1)] have "document_row_ok E d"
      "d_id d = d_id e" "d_checkpoint d = d_checkpoint e" by (auto simp: db_ok_def)
    moreover have "checkpoint_ok ?D d = checkpoint_ok D e"
      by (rule checkpoint_ok_cong) (use calculation in auto)
    ultimately show ?thesis using ok e(1) by (simp add: db_ok_def)
  qed
  moreover have "revision_row_ok E ?D r" if "r \<in> set (revisions D)" for r
    using that ok by (intro revision_row_ok_mono [OF update_documents_grow [OF grow]]) (auto simp: db_ok_def)
  ultimately show ?thesis by (simp add: db_ok_def)
qed

lemma same_rows_ok:
  assumes "db_ok E D" "documents D' = documents D" "revisions D' = revisions D"
    and "distinct (map receipt_key (command_receipts D'))"
  shows "db_ok E D'"
  using assms unfolding db_ok_def keys_ok_def checkpoint_ok_def revision_row_ok_def by simp

lemma bump_epoch_ok:
  assumes "bump_epoch D = Inr D'" "db_ok E D"
  shows "db_ok E D'"
  by (rule same_rows_ok [OF assms(2)])
    (use bump_epoch_Inr [OF assms(1)] assms(2) in \<open>simp_all add: db_ok_def keys_ok_def\<close>)

lemma insert_receipt_ok:
  assumes "insert_receipt E D ns i k p res = Inr D'" "db_ok E D"
  shows "db_ok E D'"
proof -
  note ins = insert_receipt_Inr [OF assms(1)]
  from ins have "(ns, i) \<notin> receipt_key ` set (command_receipts D)"
    by (simp add: find_receipt_None receipt_key_def [abs_def])
  with ins assms(2) show ?thesis
    by (intro same_rows_ok [OF assms(2)]) (auto simp: db_ok_def keys_ok_def receipt_key_def)
qed

text \<open>A new document has no revisions yet, because every revision names an existing document.\<close>

lemma insert_document_ok:
  assumes ins: "insert_document_row d D = Inr D'" and ok: "db_ok E D"
    and row: "document_row_ok E d" "d_checkpoint d = None"
  shows "db_ok E D'" "tables_grow D D'"
proof -
  from ins have D': "D' = D\<lparr>documents := documents D @ [d]\<rparr>" and new: "d_id d \<notin> d_id ` set (documents D)"
    by (auto simp: insert_document_row_def split: if_splits)
  have grow: "tables_grow D D'"
    unfolding D' tables_grow_def
    by (intro conjI exI [of _ "documents D"] exI [of _ "[d]"] exI [of _ "[]"]) (simp_all add: list.rel_refl)
  have "checkpoint_ok D' d"
  proof -
    have "r_document r \<noteq> d_id d" if "r \<in> set (revisions D)" for r
      using ok that new by (auto simp: db_ok_def revision_row_ok_def image_iff) metis
    with row(2) show ?thesis by (simp add: checkpoint_ok_def D')
  qed
  moreover have "checkpoint_ok D' e = checkpoint_ok D e" for e
    by (rule checkpoint_ok_cong) (simp_all add: D')
  moreover have "keys_ok D'" using ok new by (auto simp: D' db_ok_def keys_ok_def)
  moreover have "revision_row_ok E D' r" if "r \<in> set (revisions D)" for r
    using that ok by (intro revision_row_ok_mono [OF grow]) (simp add: db_ok_def)
  ultimately show "db_ok E D'" using ok row(1) by (auto simp: D' db_ok_def)
  show "tables_grow D D'" by (rule grow)
qed

text \<open>A checkpoint of a document that reflects its row.\<close>

lemma parse_shown: "0 \<le> n \<Longrightarrow> parse_version (show_int n) = Inr v \<Longrightarrow> v = n"
  by (metis parse_version_nonneg show_int_inj show_parse_version)

lemma fresh_revision_ok:
  assumes ok: "db_ok E D" and d: "d \<in> set (documents D)"
    and none: "find_revision_at D (d_id d, d_version d) = None"
    and ins: "insert_revision_row \<lparr>r_id = new, r_document = d_id d, r_version = d_version d, r_body = d_body d,
        r_hash = d_hash d, r_parent = d_checkpoint d, r_reason = why\<rparr> D = Inr D1"
  shows "db_ok E (fst (update_documents (\<lambda>e. d_id e = d_id d) (\<lambda>e. e\<lparr>d_checkpoint := Some new\<rparr>) D1))"
    (is "db_ok E ?D")
proof -
  let ?r = "\<lparr>r_id = new, r_document = d_id d, r_version = d_version d, r_body = d_body d,
        r_hash = d_hash d, r_parent = d_checkpoint d, r_reason = why\<rparr>"
  from insert_revision_row_SomeD [OF ins] have D1: "D1 = D\<lparr>revisions := revisions D @ [?r]\<rparr>"
    and new: "find_revision D new = None" by auto
  have keys: "keys_ok D" and dok: "document_row_ok E d" "checkpoint_ok D d" using ok d by (auto simp: db_ok_def)
  have older: "r_version r < d_version d" if r: "r \<in> set (revisions D)" "r_document r = d_id d" for r
  proof -
    from ok r(1) have "revision_row_ok E D r" by (simp add: db_ok_def)
    then obtain e where "e \<in> set (documents D)" "d_id e = d_id d" "r_version r \<le> d_version e"
      using r(2) by (auto simp: revision_row_ok_def)
    moreover from this row_by_id [OF keys _ d] have "e = d" by blast
    moreover have "r_version r \<noteq> d_version d"
      using none r unfolding find_revision_at_None by (auto simp: image_iff)
    ultimately show ?thesis by simp
  qed
  have grow: "tables_grow D ?D"
    by (rule tables_grow_trans [OF _ update_documents_grow])
      (use insert_revision_grows [OF ins] in \<open>simp_all add: grows_def doc_grows_def\<close>)
  have "keys_ok ?D"
  proof -
    have "new \<notin> r_id ` set (revisions D)" using new by (simp add: find_revision_None)
    moreover have "rev_key ?r \<notin> rev_key ` set (revisions D)"
      using none by (auto simp: find_revision_at_None rev_key_def image_iff)
    moreover have "map d_id (documents ?D) = map d_id (documents D)" by (simp add: D1)
    ultimately show ?thesis using keys by (simp add: keys_ok_def D1 del: map_map)
  qed
  moreover have "document_row_ok E e \<and> checkpoint_ok ?D e" if "e \<in> set (documents ?D)" for e
  proof -
    from that obtain e0 where e0: "e0 \<in> set (documents D)"
      "e = (if d_id e0 = d_id d then e0\<lparr>d_checkpoint := Some new\<rparr> else e0)" by (auto simp: D1)
    then have ok0: "document_row_ok E e0" "checkpoint_ok D e0" using ok by (auto simp: db_ok_def)
    show ?thesis
    proof (cases "d_id e0 = d_id d")
      case True
      then have "checkpoint_ok ?D e"
        using e0 older by (fastforce simp: checkpoint_ok_def D1)
      with True e0 ok0 show ?thesis by (simp add: document_row_ok_def)
    next
      case False
      with e0 ok0 show ?thesis by (auto simp: checkpoint_ok_def D1)
    qed
  qed
  moreover have "revision_row_ok E ?D r" if "r \<in> set (revisions ?D)" for r
  proof (cases "r \<in> set (revisions D)")
    case True
    with ok show ?thesis by (intro revision_row_ok_mono [OF grow]) (simp add: db_ok_def)
  next
    case False
    with that have r: "r = ?r" by (simp add: D1)
    have "\<exists>q \<in> set (revisions ?D). r_id q = p \<and> r_document q = d_id d \<and> r_version q < d_version d"
      if "d_checkpoint d = Some p" for p
      using that dok(2) older by (auto simp: checkpoint_ok_def D1)
    then have parent: "\<forall>p. r_parent r = Some p \<longrightarrow>
        (\<exists>q \<in> set (revisions ?D). r_id q = p \<and> r_document q = r_document r \<and> r_version q < r_version r)"
      by (simp add: r)
    let ?d = "d\<lparr>d_checkpoint := Some new\<rparr>"
    have "?d \<in> set (documents ?D)" using d by (auto simp: D1 intro!: image_eqI [of _ _ d])
    moreover have "d_id ?d = r_document r \<and> r_version r \<le> d_version ?d \<and>
        (r_version r = d_version ?d \<longrightarrow> r_body r = d_body ?d \<and> r_hash r = d_hash ?d)"
      by (simp add: r)
    ultimately have "\<exists>e \<in> set (documents ?D). d_id e = r_document r \<and> r_version r \<le> d_version e \<and>
        (r_version r = d_version e \<longrightarrow> r_body r = d_body e \<and> r_hash r = d_hash e)" by blast
    with parent dok(1) show ?thesis
      unfolding revision_row_ok_def document_row_ok_def by (simp add: r)
  qed
  ultimately show ?thesis by (simp add: db_ok_def)
qed

lemma checkpoint_ok_at:
  assumes run: "checkpoint_at E new D doc why = Inr (r, D')" and ok: "db_ok E D"
    and d: "d \<in> set (documents D)" "reflects E d doc"
  shows "db_ok E D'"
  using run
proof (cases rule: checkpoint_cases)
  case (existing row v)
  with ok show ?thesis by simp
next
  case (fresh v D1)
  from d(2) have doc: "doc_head doc = \<lparr>document_id = d_id d, version = show_int (d_version d), body_hash = d_hash d\<rparr>"
    "json_text E (body doc) = d_body d" "last_checkpoint_id doc = d_checkpoint d" by (auto simp: reflects_def)
  have "0 \<le> d_version d" using ok d(1) by (simp add: db_ok_def document_row_ok_def)
  with fresh(1) doc(1) have v: "v = d_version d" by (auto dest: parse_shown)
  from fresh_revision_ok [OF ok d(1), of new why D1] fresh(2,3,4) show ?thesis
    by (simp add: doc v)
qed

section \<open>The compare-and-set of a body\<close>

lemma replace_body_Inr:
  assumes "replace_body i v h next_version b g D = Inr D'"
  shows "D' = fst (update_documents (\<lambda>d. d_id d = i \<and> d_version d = v \<and> d_hash d = h)
      (\<lambda>d. d\<lparr>d_version := next_version, d_body := b, d_hash := g, d_dirty := True\<rparr>) D) \<and>
    length (filter (\<lambda>d. d_id d = i \<and> d_version d = v \<and> d_hash d = h) (documents D)) = 1"
  using assms by (auto simp: replace_body_def update_documents_def split: if_splits)

lemma replace_body_grow: "v < next_version \<Longrightarrow> replace_body i v h next_version b g D = Inr D' \<Longrightarrow> tables_grow D D'"
  by (drule replace_body_Inr) (auto simp: doc_grows_def intro: update_documents_grow)

lemma replace_body_ok:
  assumes "replace_body i v h next_version b g D = Inr D'" "db_ok E D"
    and "v < next_version" "next_version \<le> i64_max" "text_ok E b g"
  shows "db_ok E D'"
proof -
  from replace_body_Inr [OF assms(1)] have D': "D' = fst (update_documents (\<lambda>d. d_id d = i \<and> d_version d = v \<and> d_hash d = h)
      (\<lambda>d. d\<lparr>d_version := next_version, d_body := b, d_hash := g, d_dirty := True\<rparr>) D)" by simp
  show ?thesis unfolding D'
    by (rule update_rows_ok [OF assms(2)]) (use assms in \<open>auto simp: doc_grows_def document_row_ok_def\<close>)
qed

end
