(* ===== verification/Transactions.thy ===== *)
theory Transactions
  imports Storage_Invariant
begin

text \<open>
  What the transactions of the commands do, one elimination rule each, and \<open>change\<close>: every
  command either leaves the tables alone or performs exactly one of the transactions below.
  Each of them keeps \<open>db_ok\<close> and only lets the tables grow.
\<close>

section \<open>Elimination rules\<close>

lemma next_version_eq:
  "parse_version s = Inr v \<Longrightarrow> checked_add_i64 v 1 = Some n \<longleftrightarrow> n = v + 1 \<and> v < i64_max"
  by (drule parse_version_nonneg) (auto simp: checked_add_i64_def i64_max_def)

lemma checkpoint_if_cases:
  assumes "checkpoint_if E wanted new why read D = Inr D'"
  obtains "\<not> wanted" "D' = D"
  | doc r where "wanted" "read D = Inr doc" "checkpoint_at E new D doc why = Inr (r, D')"
  using assms by (auto simp: checkpoint_if_def and_then_eq_Inr split: if_splits)

lemma save_body_cases:
  assumes "save_body E a b req before valid D = Inr (h', D')"
  obtains (same) "hash valid = body_hash (doc_head before)" "h' = doc_head before" "D' = D"
  | (changed) v D1 D2 D3 where "hash valid \<noteq> body_hash (doc_head before)"
      "parse_version (version (doc_head before)) = Inr v" "v < i64_max"
      "checkpoint_if E (sv_cause req \<noteq> Typing) a (u ''beforeUndoRedo'') (\<lambda>_. Inr before) D = Inr D1"
      "replace_body (document_id (doc_head before)) v (body_hash (doc_head before)) (v + 1)
         (canonical_json valid) (hash valid) D1 = Inr D2"
      "bump_epoch D2 = Inr D3"
      "checkpoint_if E (sv_cause req \<noteq> Typing) b (u ''afterUndoRedo'')
         (\<lambda>D'. read_document E D' (document_id (doc_head before))) D3 = Inr D'"
      "h' = (doc_head before)\<lparr>version := show_int (v + 1), body_hash := hash valid\<rparr>"
proof (cases "hash valid = body_hash (doc_head before)")
  case True
  with assms show ?thesis by (intro same) (simp_all add: save_body_def)
next
  case False
  with assms show ?thesis
    unfolding save_body_def Let_def if_P [OF False] by (elim and_then_okE) (auto simp: next_version_eq intro: changed)
qed

lemma save_fresh_cases:
  assumes "save_fresh E a b req payload D = Inr (res, D')"
  obtains before v valid D1 where "read_document E D (document_id (sv_expected req)) = Inr before"
    "doc_head before = sv_expected req" "parse_version (version (sv_expected req)) = Inr v"
    "validate_snapshot_json E (json_text E (sv_body req)) = Inr valid"
    "save_body E a b req before valid D = Inr (res_head res, D1)"
    "res = \<lparr>res_head = res_head res, saved_generation = sv_generation req, applied = None, restored = None\<rparr>"
    "insert_receipt E D1 (operation_namespace (sv_access req)) (sv_operation req) (u ''save'') payload res = Inr D'"
  using assms unfolding save_fresh_def Let_def
  by (elim and_then_okE) (auto simp: and_then_eq_Inr split: prod.splits)

lemma save_tx_cases:
  assumes "save_tx E a b req payload D = Inr (res, D')"
  obtains (replay) "existing_receipt E D (operation_namespace (sv_access req)) (sv_operation req) (u ''save'') payload
      = Inr (Some res)" "D' = D"
  | (fresh) "existing_receipt E D (operation_namespace (sv_access req)) (sv_operation req) (u ''save'') payload
      = Inr None" "save_fresh E a b req payload D = Inr (res, D')"
  using assms unfolding save_tx_def by (elim and_then_okE) (auto split: option.splits)

lemma create_document_cases:
  assumes "create_document_tx E req valid payload D = Inr (rec, D')"
  obtains (replay) "D' = D"
  | (fresh) p D1 D2 where "insert_document_row
          \<lparr>d_id = cd_document req, d_kind = cd_kind req, d_title = cd_title req, d_metadata = 0,
           d_position = p, d_version = 0, d_body = canonical_json valid, d_hash = hash valid,
           d_checkpoint = None, d_dirty = True, d_trashed = False, d_role = u ''ordinary''\<rparr> D = Inr D1"
      "bump_epoch D1 = Inr D2"
      "insert_receipt E D2 (operation_namespace (cd_access req)) (cd_operation req) (u ''createDocument'') payload
          \<lparr>res_head = \<lparr>document_id = cd_document req, version = u ''0'', body_hash = hash valid\<rparr>,
           saved_generation = u ''0'', applied = None, restored = None\<rparr> = Inr D'"
      "read_document E D' (cd_document req) = Inr rec"
      "existing_receipt E D (operation_namespace (cd_access req)) (cd_operation req) (u ''createDocument'') payload = Inr None"
  using assms unfolding create_document_tx_def
  by (elim and_then_okE) (auto simp: and_then_eq_Inr split: option.splits if_splits)

lemma rename_document_cases:
  assumes "rename_document_tx i s n D = Inr (x, D')"
  obtains "bump_epoch (fst (update_documents (\<lambda>d. d_id d = i \<and> d_metadata d = n)
      (\<lambda>d. d\<lparr>d_title := s, d_metadata := d_metadata d + 1\<rparr>) D)) = Inr D'"
    "n \<noteq> i64_max"
  using assms unfolding rename_document_tx_def
  by (auto simp: update_documents_def and_then_eq_Inr split: if_splits)

lemma rename_project_cases:
  assumes "rename_project_tx s n D = Inr (x, D')"
  obtains p where "project_rows D = Some p" "p_metadata p = n"
    "D' = D\<lparr>project_rows := Some (p\<lparr>p_title := s, p_metadata := p_metadata p + 1, p_epoch := p_epoch p + 1\<rparr>)\<rparr>"
  using assms by (auto simp: rename_project_tx_def split: option.splits if_splits)

lemma restore_write_cases:
  assumes "restore_write E a b req payload before source D = Inr (res, D')"
  obtains v br D1 D2 D3 aft ar D4 where
    "parse_version (version (doc_head before)) = Inr v" "v < i64_max"
    "checkpoint_at E a D before (u ''beforeRestore'') = Inr (br, D1)"
    "replace_body (document_id (doc_head before)) v (body_hash (doc_head before)) (v + 1)
       (json_text E (rev_body source)) (body_hash (rev_head source)) D1 = Inr D2"
    "bump_epoch D2 = Inr D3"
    "read_document E D3 (document_id (doc_head before)) = Inr aft"
    "checkpoint_at E b D3 aft (u ''afterRestore'') = Inr (ar, D4)"
    "res = \<lparr>res_head = doc_head aft, saved_generation = rr_generation req, applied = None,
       restored = Some \<lparr>revision_id = rev_id source, before_revision_id = rev_id br, after_revision_id = rev_id ar\<rparr>\<rparr>"
    "insert_receipt E D4 (operation_namespace (rr_access req)) (rr_operation req) (u ''restore'') payload res = Inr D'"
proof -
  from assms obtain v D1 br where v: "parse_version (version (doc_head before)) = Inr v" "v < i64_max"
    and c: "checkpoint_at E a D before (u ''beforeRestore'') = Inr (br, D1)"
    unfolding restore_write_def Let_def by (elim and_then_okE) (auto simp: next_version_eq)
  from v have n: "checked_add_i64 v 1 = Some (v + 1)" by (simp add: next_version_eq)
  note rest = assms [unfolded restore_write_def Let_def v(1) n c and_then_simps ok_or_simps prod.case]
  from rest obtain D2 D3 aft where
    w: "replace_body (document_id (doc_head before)) v (body_hash (doc_head before)) (v + 1)
       (json_text E (rev_body source)) (body_hash (rev_head source)) D1 = Inr D2" "bump_epoch D2 = Inr D3"
      "read_document E D3 (document_id (doc_head before)) = Inr aft" by (elim and_then_okE)
  note rest' = rest [unfolded w and_then_simps]
  from rest' obtain ar D4 where c': "checkpoint_at E b D3 aft (u ''afterRestore'') = Inr (ar, D4)"
    by (elim and_then_okE) auto
  note rest'' = rest' [unfolded c' and_then_simps prod.case]
  from rest'' have "res = \<lparr>res_head = doc_head aft, saved_generation = rr_generation req, applied = None,
       restored = Some \<lparr>revision_id = rev_id source, before_revision_id = rev_id br, after_revision_id = rev_id ar\<rparr>\<rparr>"
    by (elim and_then_okE) simp
  moreover from rest'' this have
    "insert_receipt E D4 (operation_namespace (rr_access req)) (rr_operation req) (u ''restore'') payload res = Inr D'"
    by (elim and_then_okE) simp
  ultimately show ?thesis by (rule that [OF v c w c'])
qed

lemma restore_fresh_cases:
  assumes "restore_fresh E a b req payload D = Inr (res, D')"
  obtains before source where
    "read_document E D (document_id (rr_expected req)) = Inr before"
    "doc_head before = rr_expected req"
    "read_revision_checked E D (document_id (rr_expected req)) (rr_revision req) = Inr source"
    "body_hash (rev_head source) = rr_revision_hash req"
    "body_hash (rev_head source) \<noteq> body_hash (doc_head before)"
    "restore_write E a b req payload before source D = Inr (res, D')"
  using assms unfolding restore_fresh_def by (elim and_then_okE) (auto split: if_splits)

lemma restore_tx_cases:
  assumes "restore_tx E a b req payload D = Inr (ack, D')"
  obtains (replay) result document where "existing_receipt E D (operation_namespace (rr_access req)) (rr_operation req) (u ''restore'') payload
      = Inr (Some result)" "D' = D" "validate_restore_result E D (document_id (rr_expected req)) result = Inr ()"
      "read_document E D (document_id (rr_expected req)) = Inr document"
      "ack = \<lparr>ra_access = rr_access req, ra_operation = rr_operation req, ra_already = True,
          ra_result = result, ra_document = document\<rparr>"
  | (fresh) result document where "existing_receipt E D (operation_namespace (rr_access req)) (rr_operation req) (u ''restore'') payload
      = Inr None" "restore_fresh E a b req payload D = Inr (result, D')"
      "read_document E D' (document_id (rr_expected req)) = Inr document"
      "ack = \<lparr>ra_access = rr_access req, ra_operation = rr_operation req, ra_already = False,
          ra_result = result, ra_document = document\<rparr>"
proof -
  from assms obtain prior where p: "existing_receipt E D (operation_namespace (rr_access req)) (rr_operation req) (u ''restore'') payload
      = Inr prior" unfolding restore_tx_def by (elim and_then_okE)
  note rest = assms [unfolded restore_tx_def p and_then_simps]
  show ?thesis
  proof (cases prior)
    case None
    with rest show ?thesis by (elim and_then_okE) (auto simp: and_then_eq_Inr intro: fresh [OF p [unfolded None]])
  next
    case (Some result)
    with rest show ?thesis by (elim and_then_okE) (auto simp: and_then_eq_Inr intro: replay [OF p [unfolded Some]])
  qed
qed

section \<open>Growth and the invariant\<close>

text \<open>The two facts every transaction is shown to satisfy.\<close>

definition safe_change :: "env \<Rightarrow> db \<Rightarrow> db \<Rightarrow> bool" where
  "safe_change E D D' \<longleftrightarrow> grows D D' \<and> (db_ok E D \<longrightarrow> db_ok E D')"

lemma safe_change_refl [simp]: "safe_change E D D"
  by (simp add: safe_change_def)

lemma safe_change_trans: "safe_change E A B \<Longrightarrow> safe_change E B C \<Longrightarrow> safe_change E A C"
  using grows_trans by (auto simp: safe_change_def)

lemma insert_receipt_safe: "insert_receipt E D ns i k p res = Inr D' \<Longrightarrow> safe_change E D D'"
  by (simp add: safe_change_def insert_receipt_grows insert_receipt_ok)

text \<open>
  A checkpoint needs its record to reflect the row it was read from, which \<open>read_document\<close> on
  the same database gives.
\<close>

lemma checkpoint_safe:
  assumes "checkpoint_at E new D doc why = Inr (r, D')" "read_document E D i = Inr doc"
  shows "safe_change E D D'"
  unfolding safe_change_def
  using checkpoint_grows [OF assms(1)] read_document_ok [OF assms(2)] checkpoint_ok_at [OF assms(1)] by metis

lemma checkpoint_if_safe:
  assumes "checkpoint_if E wanted new why read D = Inr D'" "\<And>doc. read D = Inr doc \<Longrightarrow> \<exists>i. read_document E D i = Inr doc"
  shows "safe_change E D D'"
  using assms(1) by (cases rule: checkpoint_if_cases) (use assms(2) checkpoint_safe in \<open>auto\<close>)

text \<open>A body is written with a bump of the epoch: together they satisfy the growth laws.\<close>

lemma write_safe:
  assumes w: "replace_body i v h (v + 1) b g D1 = Inr D2" and e: "bump_epoch D2 = Inr D3"
    and v: "v < i64_max" and t: "db_ok E D1 \<Longrightarrow> text_ok E b g"
  shows "safe_change E D1 D3"
proof -
  have "tables_grow D1 D2" by (rule replace_body_grow [OF _ w]) simp
  from tables_grow_trans [OF this bump_epoch_grow [OF e]] have "tables_grow D1 D3" .
  moreover have "epoch_grows D1 D3"
    using replace_body_Inr [OF w] by (intro bump_epoch_fences [OF e]) simp
  moreover have "db_ok E D1 \<Longrightarrow> db_ok E D3"
    using v t by (intro bump_epoch_ok [OF e] replace_body_ok [OF w]) auto
  ultimately show ?thesis by (simp add: safe_change_def grows_def)
qed

lemma receipt_text_ok: "validate_snapshot_json E s = Inr valid \<Longrightarrow> text_ok E (canonical_json valid) (hash valid)"
  by (drule accepted_receipt) (auto simp: text_ok_def)

lemma save_body_safe:
  assumes run: "save_body E a b req before valid D = Inr (h', D')"
    and "read_document E D i = Inr before" and "validate_snapshot_json E s = Inr valid"
  shows "safe_change E D D'"
  using run
proof (cases rule: save_body_cases)
  case (changed v D1 D2 D3)
  have "safe_change E D D1" using changed(4) assms(2) by (intro checkpoint_if_safe) auto
  moreover have "safe_change E D1 D3"
    using assms(3) changed by (intro write_safe [OF changed(5,6,3)] receipt_text_ok)
  moreover have "safe_change E D3 D'" using changed(7) by (rule checkpoint_if_safe) auto
  ultimately show ?thesis by (meson safe_change_trans)
qed simp

lemma save_tx_safe: "save_tx E a b req payload D = Inr (res, D') \<Longrightarrow> safe_change E D D'"
proof (erule save_tx_cases)
  assume "save_fresh E a b req payload D = Inr (res, D')"
  then show "safe_change E D D'"
    by (rule save_fresh_cases) (meson safe_change_trans save_body_safe insert_receipt_safe)
qed simp

lemma checkpoint_documents: "checkpoint_at E new D doc why = Inr (r, D') \<Longrightarrow>
   map (\<lambda>d. d\<lparr>d_checkpoint := None\<rparr>) (documents D') = map (\<lambda>d. d\<lparr>d_checkpoint := None\<rparr>) (documents D)"
  by (erule checkpoint_cases) (auto dest!: insert_revision_row_SomeD)

lemma read_revision_ok:
  assumes "read_revision_checked E D doc i = Inr r"
  obtains q where "find_revision D i = Some q" "r_document q = doc" "text_ok E (r_body q) (r_hash q)"
    "json_text E (rev_body r) = r_body q" "rev_head r = \<lparr>document_id = doc, version = show_int (r_version q), body_hash = r_hash q\<rparr>"
    "rev_id r = i" "parent_id r = r_parent q" "\<exists>bs. document_ok E bs \<and> rev_body r = document_value bs"
proof -
  from assms obtain q valid where q: "find_revision D i = Some q" "r_document q = doc"
    and c: "check_body E (r_body q) (r_hash q) = Inr valid"
    and r: "r = \<lparr>rev_id = i, rev_head = \<lparr>document_id = doc, version = show_int (r_version q), body_hash = r_hash q\<rparr>,
       rev_body = snapshot valid, reason = r_reason q, parent_id = r_parent q\<rparr>"
    by (auto simp: read_revision_checked_def read_revision_def and_then_eq_Inr split: option.splits if_splits)
  from check_body_ok [OF c] q r show ?thesis by (intro that [of q]) auto
qed

lemma restore_fresh_safe:
  assumes "restore_fresh E a b req payload D = Inr (res, D')"
  shows "safe_change E D D'"
  using assms
proof (rule restore_fresh_cases)
  fix before source
  assume b: "read_document E D (document_id (rr_expected req)) = Inr before"
    and s: "read_revision_checked E D (document_id (rr_expected req)) (rr_revision req) = Inr source"
    and "restore_write E a b req payload before source D = Inr (res, D')"
  from this(3) show "safe_change E D D'"
  proof (rule restore_write_cases)
    fix v br D1 D2 D3 aft ar D4
    assume v: "v < i64_max" and c: "checkpoint_at E a D before (u ''beforeRestore'') = Inr (br, D1)"
      and w: "replace_body (document_id (doc_head before)) v (body_hash (doc_head before)) (v + 1)
         (json_text E (rev_body source)) (body_hash (rev_head source)) D1 = Inr D2"
      and e: "bump_epoch D2 = Inr D3"
      and r: "read_document E D3 (document_id (doc_head before)) = Inr aft"
      and c': "checkpoint_at E b D3 aft (u ''afterRestore'') = Inr (ar, D4)"
      and i: "insert_receipt E D4 (operation_namespace (rr_access req)) (rr_operation req) (u ''restore'') payload res = Inr D'"
    have "text_ok E (json_text E (rev_body source)) (body_hash (rev_head source))"
      by (rule read_revision_ok [OF s]) simp
    then have "safe_change E D1 D3" using v by (intro write_safe [OF w e])
    with checkpoint_safe [OF c b] checkpoint_safe [OF c' r] insert_receipt_safe [OF i]
    show "safe_change E D D'" by (meson safe_change_trans)
  qed
qed

lemma restore_tx_safe: "restore_tx E a b req payload D = Inr (ack, D') \<Longrightarrow> safe_change E D D'"
  by (erule restore_tx_cases) (simp_all add: restore_fresh_safe)

lemma insert_document_grow:
  assumes "insert_document_row d D = Inr D'"
  shows "tables_grow D D'"
proof -
  from assms have D': "D' = D\<lparr>documents := documents D @ [d]\<rparr>"
    by (auto simp: insert_document_row_def split: if_splits)
  show ?thesis
    unfolding D' tables_grow_def
    by (intro conjI exI [of _ "documents D"] exI [of _ "[d]"] exI [of _ "[]"]) (simp_all add: list.rel_refl)
qed

lemma create_document_safe:
  assumes run: "create_document_tx E req valid payload D = Inr (rec, D')"
    and v: "validate_snapshot_json E s = Inr valid" and k: "cd_kind req \<in> set document_kinds"
  shows "safe_change E D D'"
  using run
proof (cases rule: create_document_cases)
  case (fresh p D1 D2)
  have row: "document_row_ok E \<lparr>d_id = cd_document req, d_kind = cd_kind req, d_title = cd_title req, d_metadata = 0,
           d_position = p, d_version = 0, d_body = canonical_json valid, d_hash = hash valid,
           d_checkpoint = None, d_dirty = True, d_trashed = False, d_role = u ''ordinary''\<rparr>"
    using receipt_text_ok [OF v] k by (auto simp: document_row_ok_def i64_max_def intro: range_eqI [of _ _ Ordinary])
  have grow: "tables_grow D D1"
    using fresh(1) by (rule insert_document_grow)
  have "project_rows D1 = project_rows D" using fresh(1) by (auto simp: insert_document_row_def split: if_splits)
  then have "grows D D2"
    using tables_grow_trans [OF grow bump_epoch_grow [OF fresh(2)]] bump_epoch_fences [OF fresh(2)]
    by (simp add: grows_def)
  moreover have "db_ok E D \<Longrightarrow> db_ok E D2"
    using insert_document_ok(1) [OF fresh(1) _ row] bump_epoch_ok [OF fresh(2)] by simp
  ultimately have "safe_change E D D2" by (simp add: safe_change_def)
  with insert_receipt_safe [OF fresh(3)] show ?thesis by (rule safe_change_trans [rotated])
qed simp

lemma rename_document_safe: "rename_document_tx i s n D = Inr (x, D') \<Longrightarrow> safe_change E D D'"
proof (erule rename_document_cases)
  let ?D = "fst (update_documents (\<lambda>d. d_id d = i \<and> d_metadata d = n)
      (\<lambda>d. d\<lparr>d_title := s, d_metadata := d_metadata d + 1\<rparr>) D)"
  assume e: "bump_epoch ?D = Inr D'" and n: "n \<noteq> i64_max"
  have "tables_grow D ?D" by (rule update_documents_grow) (simp add: doc_grows_def)
  from tables_grow_trans [OF this bump_epoch_grow [OF e]] have "grows D D'"
    using bump_epoch_fences [OF e] by (simp add: grows_def)
  moreover have "db_ok E D \<Longrightarrow> db_ok E ?D"
    by (rule update_rows_ok) (use n in \<open>auto simp: doc_grows_def document_row_ok_def\<close>)
  ultimately show "safe_change E D D'" using bump_epoch_ok [OF e] by (simp add: safe_change_def)
qed

lemma same_tables_safe:
  assumes "documents D' = documents D" "revisions D' = revisions D" "command_receipts D' = command_receipts D"
    "workshop_operations D' = workshop_operations D" "proposal_operations D' = proposal_operations D"
    "generation_operations D' = generation_operations D" "epoch_grows D D'"
  shows "safe_change E D D'"
proof -
  have "db_ok E D'" if ok: "db_ok E D"
  proof (rule same_rows_ok [OF ok assms(1,2)])
    show "distinct (map receipt_key (command_receipts D'))" using ok by (simp add: assms(3) db_ok_def keys_ok_def)
  qed
  moreover have "tables_grow D D'" using assms by (simp add: tables_grow_def same_documents_prefix)
  ultimately show ?thesis using assms(7) by (simp add: safe_change_def grows_def)
qed

lemma rename_project_safe: "rename_project_tx s n D = Inr (x, D') \<Longrightarrow> safe_change E D D'"
  by (erule rename_project_cases) (auto simp: epoch_grows_def intro!: same_tables_safe)

lemma upsert_view_safe: "upsert_view_state row D = Inr D' \<Longrightarrow> safe_change E D D'"
  by (rule same_tables_safe) (auto simp: upsert_view_state_def epoch_grows_def split: if_splits option.splits)

end
