(* ===== verification/Restore_Proofs.thy ===== *)
theory Restore_Proofs
  imports Transactions
begin

text \<open>
  A committed restore passes, immediately and forever after, the check that \<open>history.rs\<close> applies
  to restore receipts on replay and on backup (\<open>validate_restore_result\<close>).
\<close>

section \<open>Revisions are never lost\<close>

lemma find_revision_mono: "tables_grow D D' \<Longrightarrow> find_revision D i = Some r \<Longrightarrow> find_revision D' i = Some r"
  by (auto simp: tables_grow_def find_revision_def find_append)

lemma read_revision_checked_mono:
  assumes "tables_grow D D'" "read_revision_checked E D doc i = Inr r"
  shows "read_revision_checked E D' doc i = Inr r"
proof -
  from assms(2) obtain q where "find_revision D i = Some q"
    by (auto simp: read_revision_checked_def split: option.splits)
  with find_revision_mono [OF assms(1) this] assms(2) show ?thesis
    by (simp add: read_revision_checked_def read_revision_def split: if_splits)
qed

lemma document_retained_mono:
  assumes "tables_grow D D'" "ensure_document_retained D i = Inr ()"
  shows "ensure_document_retained D' i = Inr ()"
proof -
  from assms(2) obtain d where d: "d \<in> set (documents D)" "d_id d = i" "d_role d = u ''ordinary''"
    by (auto simp: ensure_document_retained_def list_ex_iff)
  with tables_grow_row [OF assms(1) d(1)] show ?thesis
    by (auto simp: ensure_document_retained_def list_ex_iff doc_grows_def)
qed

text \<open>What the check establishes, as one conjunction.\<close>

lemma validate_restore_result_eq:
  "validate_restore_result E D doc res = Inr () \<longleftrightarrow>
    (\<exists>x src bef aft bv sv. restored res = Some x \<and>
       read_revision_checked E D doc (revision_id x) = Inr src \<and>
       read_revision_checked E D doc (before_revision_id x) = Inr bef \<and>
       read_revision_checked E D doc (after_revision_id x) = Inr aft \<and>
       parse_version (version (rev_head bef)) = Inr bv \<and> bv < i64_max \<and>
       parse_version (version (rev_head aft)) = Inr (bv + 1) \<and>
       parse_version (version (rev_head src)) = Inr sv \<and> sv \<le> bv \<and>
       res_head res = rev_head aft \<and> is_ok (parse_version (saved_generation res)) \<and>
       body_hash (rev_head src) = body_hash (rev_head aft) \<and> rev_body src = rev_body aft \<and>
       rev_body bef \<noteq> rev_body aft \<and> parent_id aft = Some (rev_id bef) \<and> applied res = None)"
  (is "?L \<longleftrightarrow> ?R")
proof
  assume ?L
  then obtain x src bef aft bv av n sv where f: "restored res = Some x"
    "read_revision_checked E D doc (revision_id x) = Inr src"
    "read_revision_checked E D doc (before_revision_id x) = Inr bef"
    "read_revision_checked E D doc (after_revision_id x) = Inr aft"
    "parse_version (version (rev_head bef)) = Inr bv"
    "parse_version (version (rev_head aft)) = Inr av" "checked_add_i64 bv 1 = Some n"
    "parse_version (version (rev_head src)) = Inr sv"
    and c: "res_head res = rev_head aft" "is_ok (parse_version (saved_generation res))"
      "body_hash (rev_head src) = body_hash (rev_head aft)" "rev_body src = rev_body aft" "sv \<le> bv"
      "rev_body bef \<noteq> rev_body aft" "av = n" "parent_id aft = Some (rev_id bef)" "applied res = None"
    unfolding validate_restore_result_def by (elim and_then_okE) (auto split: if_splits)
  from f(5,7) have "n = bv + 1" "bv < i64_max" by (simp_all add: next_version_eq)
  with f c show ?R by blast
next
  have incr: "checked_add_i64 bv 1 = Some (bv + 1)" if "parse_version s = Inr bv" "bv < i64_max" for s bv
    using that by (simp add: next_version_eq)
  assume ?R
  then show ?L by (auto simp: validate_restore_result_def incr)
qed

lemma validate_restore_result_mono:
  "tables_grow D D' \<Longrightarrow> validate_restore_result E D doc res = Inr () \<Longrightarrow> validate_restore_result E D' doc res = Inr ()"
  unfolding validate_restore_result_eq using read_revision_checked_mono [of D D' E doc] by meson

section \<open>What a checkpoint returns\<close>

lemma newest_revision:
  assumes ok: "db_ok E D" and d: "d \<in> set (documents D)" and r: "r \<in> set (revisions D)" "r_document r = d_id d"
  shows "r_version r \<le> d_version d" "r_version r = d_version d \<Longrightarrow> r_body r = d_body d \<and> r_hash r = d_hash d"
    "r_version r = d_version d \<Longrightarrow> d_checkpoint d = Some (r_id r)"
proof -
  from ok d r have keys: "keys_ok D" "checkpoint_ok D d" and "revision_row_ok E D r" by (auto simp: db_ok_def)
  then obtain e where e: "e \<in> set (documents D)" "d_id e = r_document r" "r_version r \<le> d_version e"
    "r_version r = d_version e \<longrightarrow> r_body r = d_body e \<and> r_hash r = d_hash e"
    by (auto simp: revision_row_ok_def)
  from row_by_id [OF keys(1) e(1) d] e(2) r(2) have "e = d" by simp
  with e show le: "r_version r \<le> d_version d"
    and "r_version r = d_version d \<Longrightarrow> r_body r = d_body d \<and> r_hash r = d_hash d" by simp_all
  assume eq: "r_version r = d_version d"
  from keys(2) r obtain q where q: "q \<in> set (revisions D)" "d_checkpoint d = Some (r_id q)" "r_document q = d_id d"
    "r_version r \<le> r_version q" by (cases "d_checkpoint d") (auto simp: checkpoint_ok_def)
  from ok q(1) have "revision_row_ok E D q" by (simp add: db_ok_def)
  then obtain e' where "e' \<in> set (documents D)" "d_id e' = r_document q" "r_version q \<le> d_version e'"
    by (auto simp: revision_row_ok_def)
  with row_by_id [OF keys(1) _ d, of e'] q(3) have "r_version q \<le> d_version d" by simp
  with q eq r(2) have "rev_key q = rev_key r" by (simp add: rev_key_def)
  with revision_by_key [OF keys(1) q(1) r(1)] q(2) show "d_checkpoint d = Some (r_id r)" by simp
qed

lemma document_text_inj:
  assumes "codec_ok E" "json_text E a = json_text E b"
    and "\<exists>bs. document_ok E bs \<and> a = document_value bs" "\<exists>bs. document_ok E bs \<and> b = document_value bs"
  shows "a = b"
  using assms by (intro json_text_inj [OF assms(1)]) (auto simp: document_plain)

lemma checkpoint_result:
  assumes run: "checkpoint_at E new D doc why = Inr (r, D')" and ok: "db_ok E D"
    and d: "d \<in> set (documents D)" "reflects E d doc"
  obtains q where "find_revision D' (rev_id r) = Some q" "r_document q = d_id d" "r_version q = d_version d"
    "r_body q = d_body d" "r_hash q = d_hash d" "read_revision E D' (rev_id r) = Inr r"
    "d\<lparr>d_checkpoint := Some (rev_id r)\<rparr> \<in> set (documents D')"
    "find_revision_at D (d_id d, d_version d) = None \<Longrightarrow> r_parent q = d_checkpoint d"
  using run
proof (cases rule: checkpoint_cases)
  from d(2) have doc: "doc_head doc = \<lparr>document_id = d_id d, version = show_int (d_version d), body_hash = d_hash d\<rparr>"
    "json_text E (body doc) = d_body d" "last_checkpoint_id doc = d_checkpoint d" by (auto simp: reflects_def)
  have nonneg: "0 \<le> d_version d" using ok d(1) by (simp add: db_ok_def document_row_ok_def)
  {
    case (existing row v)
    with doc(1) nonneg have v: "v = d_version d" by (auto dest: parse_shown)
    from find_SomeD [OF existing(2) [unfolded find_revision_at_def]] v doc(1)
    have row: "row \<in> set (revisions D)" "r_document row = d_id d" "r_version row = d_version d" by auto
    from existing(3) have id: "rev_id r = r_id row" by (auto simp: read_revision_def and_then_eq_Inr)
    have keys: "keys_ok D" using ok by (simp add: db_ok_def)
    have "d\<lparr>d_checkpoint := Some (rev_id r)\<rparr> = d"
      using newest_revision(3) [OF ok d(1) row] id by simp
    with d(1) show ?thesis
      using row newest_revision(2) [OF ok d(1) row] existing find_revision_in [OF keys row(1)] id v doc(1)
      by (intro that [of row]) simp_all
  next
    case (fresh v D1)
    with doc(1) nonneg have v: "v = d_version d" by (auto dest: parse_shown)
    let ?q = "\<lparr>r_id = new, r_document = d_id d, r_version = d_version d, r_body = d_body d,
        r_hash = d_hash d, r_parent = d_checkpoint d, r_reason = why\<rparr>"
    from fresh(3) insert_revision_row_SomeD [OF fresh(3)] have D1: "D1 = D\<lparr>revisions := revisions D @ [?q]\<rparr>"
      and none: "find_revision D new = None" by (auto simp: doc v)
    from fresh(5) have id: "rev_id r = new" by (auto simp: read_revision_def and_then_eq_Inr)
    have "find_revision D' new = Some ?q"
      using none find_revision_snoc [of D ?q new] by (simp add: fresh(4) D1 find_revision_def)
    moreover have "d\<lparr>d_checkpoint := Some new\<rparr> \<in> set (documents D')"
      using d(1) doc(1) by (auto simp: fresh(4) D1 intro!: image_eqI [of _ _ d])
    ultimately show ?thesis using fresh(5) id by (intro that [of ?q]) simp_all
  }
qed

section \<open>A fresh restore\<close>

text \<open>The row after the compare-and-set, and that no revision has its version yet.\<close>

lemma replaced_row:
  assumes w: "replace_body i v h (v + 1) b g D = Inr D'" and keys: "keys_ok D"
    and d: "d \<in> set (documents D)" "d_id d = i"
  shows "d_version d = v \<and> d_hash d = h \<and>
    d\<lparr>d_version := v + 1, d_body := b, d_hash := g, d_dirty := True\<rparr> \<in> set (documents D')"
proof -
  from replace_body_Inr [OF w] have D': "D' = fst (update_documents (\<lambda>d. d_id d = i \<and> d_version d = v \<and> d_hash d = h)
      (\<lambda>d. d\<lparr>d_version := v + 1, d_body := b, d_hash := g, d_dirty := True\<rparr>) D)"
    and "filter (\<lambda>d. d_id d = i \<and> d_version d = v \<and> d_hash d = h) (documents D) \<noteq> []" by auto
  then obtain e where e: "e \<in> set (documents D)" "d_id e = i" "d_version e = v" "d_hash e = h"
    by (auto simp: filter_empty_conv)
  with row_by_id [OF keys _ d(1)] d(2) have "e = d" by simp
  with e show ?thesis by (auto simp: D' intro!: image_eqI [of _ _ d])
qed

lemma no_revision_above:
  assumes "db_ok E D" "d \<in> set (documents D)" "d_version d < n"
  shows "find_revision_at D (d_id d, n) = None"
proof -
  have "(d_id d, n) \<noteq> (r_document r, r_version r)" if "r \<in> set (revisions D)" for r
    using newest_revision(1) [OF assms(1,2) that] assms(3) by auto
  then show ?thesis by (auto simp: find_revision_at_None)
qed

lemma replace_body_revisions: "replace_body i v h n b g D = Inr D' \<Longrightarrow> revisions D' = revisions D"
  by (drule replace_body_Inr) simp

text \<open>
  A body written between two checkpoints, as \<open>restore\<close> and undo do it: both bodies are kept as
  revisions, the second linked to the first.
\<close>

lemma checkpointed_write:
  assumes ok: "db_ok E D" and rd: "read_document E D i = Inr before" and new: "text_ok E b g"
    and pv: "parse_version (version (doc_head before)) = Inr v" and lt: "v < i64_max"
    and c: "checkpoint_at E id1 D before why1 = Inr (br, D1)"
    and w: "replace_body (document_id (doc_head before)) v (body_hash (doc_head before)) (v + 1) b g D1 = Inr D2"
    and e: "bump_epoch D2 = Inr D3"
    and r: "read_document E D3 (document_id (doc_head before)) = Inr aft"
    and c': "checkpoint_at E id2 D3 aft why2 = Inr (ar, D4)"
  obtains d q p where "d \<in> set (documents D)" "d_id d = i" "reflects E d before" "v = d_version d"
    "find_revision D4 (rev_id br) = Some q" "r_document q = i" "r_version q = v" "r_body q = d_body d" "r_hash q = d_hash d"
    "is_ok (read_revision E D4 (rev_id br))"
    "find_revision D4 (rev_id ar) = Some p" "r_document p = i" "r_version p = v + 1" "r_body p = b" "r_hash p = g"
    "is_ok (read_revision E D4 (rev_id ar))" "r_parent p = Some (rev_id br)"
    "doc_head aft = \<lparr>document_id = i, version = show_int (v + 1), body_hash = g\<rparr>" "tables_grow D D4"
proof -
  from rd obtain d where d: "d \<in> set (documents D)" "d_id d = i" "reflects E d before"
    by (rule read_document_ok)
  then have head: "doc_head before = \<lparr>document_id = i, version = show_int (d_version d), body_hash = d_hash d\<rparr>"
    by (auto simp: reflects_def)
  have nonneg: "0 \<le> d_version d" using ok d(1) by (simp add: db_ok_def document_row_ok_def)
  from pv head nonneg have v: "v = d_version d" by (auto dest: parse_shown)
  from checkpoint_result [OF c ok d(1,3)] obtain q where q: "find_revision D1 (rev_id br) = Some q" "r_document q = i"
    "r_version q = d_version d" "r_body q = d_body d" "r_hash q = d_hash d" "read_revision E D1 (rev_id br) = Inr br"
    and d1: "d\<lparr>d_checkpoint := Some (rev_id br)\<rparr> \<in> set (documents D1)" (is "?d1 \<in> _") using d(2) by metis
  have ok1: "db_ok E D1" using checkpoint_safe [OF c rd] ok by (simp add: safe_change_def)
  have s13: "safe_change E D1 D3" using lt new by (intro write_safe [OF w e])
  then have ok3: "db_ok E D3" using ok1 by (simp add: safe_change_def)
  let ?d3 = "?d1\<lparr>d_version := v + 1, d_body := b, d_hash := g, d_dirty := True\<rparr>"
  have keys1: "keys_ok D1" using ok1 by (simp add: db_ok_def)
  have d3: "?d3 \<in> set (documents D3)"
    using replaced_row [OF w keys1 d1] bump_epoch_Inr [OF e] head d(2) by simp
  from r obtain d3' where d3': "d3' \<in> set (documents D3)" "d_id d3' = i" "reflects E d3' aft"
    using head by (auto elim: read_document_ok)
  have keys3: "keys_ok D3" using ok3 by (simp add: db_ok_def)
  from row_by_id [OF keys3 d3'(1) d3] d(2) d3'(2) have eq: "d3' = ?d3" by simp
  have none: "find_revision_at D3 (i, v + 1) = None"
    using no_revision_above [OF ok1 d1, of "v + 1"] v d(2) replace_body_revisions [OF w] bump_epoch_Inr [OF e]
    by (simp add: find_revision_at_def)
  from checkpoint_result [OF c' ok3 d3'(1,3)] obtain p where p: "find_revision D4 (rev_id ar) = Some p"
    "r_document p = i" "r_version p = v + 1" "r_body p = b"
    "r_hash p = g" "read_revision E D4 (rev_id ar) = Inr ar" "r_parent p = Some (rev_id br)"
    using none d(2) unfolding eq by auto
  have g34: "tables_grow D3 D4" using checkpoint_grows [OF c'] by (simp add: grows_def)
  have g13: "tables_grow D1 D3" using s13 by (simp add: safe_change_def grows_def)
  have g1: "tables_grow D1 D4" by (meson tables_grow_trans g13 g34)
  have g: "tables_grow D D4" using checkpoint_grows [OF c] g1 by (auto simp: grows_def intro: tables_grow_trans)
  have q': "find_revision D4 (rev_id br) = Some q" by (rule find_revision_mono [OF g1 q(1)])
  then have "is_ok (read_revision E D4 (rev_id br))" using q(1,6) by (simp add: read_revision_def is_ok_iff)
  with d v q p q' g d3'(3) show thesis
    by (intro that [of d q p]) (simp_all add: eq reflects_def)
qed

text \<open>What a fresh restore leaves behind.\<close>

lemma restore_outcome:
  assumes run: "restore_write E a b req payload before source D = Inr (res, D')"
    and ok: "db_ok E D" and rd: "read_document E D i = Inr before"
    and src: "text_ok E (json_text E (rev_body source)) (body_hash (rev_head source))"
  obtains d q p x where "d \<in> set (documents D)" "d_id d = i" "reflects E d before" "d_version d < i64_max"
    "restored res = Some x" "revision_id x = rev_id source" "applied res = None" "saved_generation res = rr_generation req"
    "res_head res = \<lparr>document_id = i, version = show_int (d_version d + 1), body_hash = body_hash (rev_head source)\<rparr>"
    "find_revision D' (before_revision_id x) = Some q" "r_document q = i" "r_version q = d_version d"
    "r_body q = d_body d" "r_hash q = d_hash d" "is_ok (read_revision E D' (before_revision_id x))"
    "find_revision D' (after_revision_id x) = Some p" "r_document p = i" "r_version p = d_version d + 1"
    "r_body p = json_text E (rev_body source)" "r_hash p = body_hash (rev_head source)"
    "is_ok (read_revision E D' (after_revision_id x))" "r_parent p = Some (before_revision_id x)"
    "tables_grow D D'"
  using run
proof (rule restore_write_cases)
  fix v br D1 D2 D3 aft ar D4
  assume pv: "parse_version (version (doc_head before)) = Inr v" and lt: "v < i64_max"
    and c: "checkpoint_at E a D before (u ''beforeRestore'') = Inr (br, D1)"
    and w: "replace_body (document_id (doc_head before)) v (body_hash (doc_head before)) (v + 1)
         (json_text E (rev_body source)) (body_hash (rev_head source)) D1 = Inr D2"
    and e: "bump_epoch D2 = Inr D3"
    and r: "read_document E D3 (document_id (doc_head before)) = Inr aft"
    and c': "checkpoint_at E b D3 aft (u ''afterRestore'') = Inr (ar, D4)"
    and res: "res = \<lparr>res_head = doc_head aft, saved_generation = rr_generation req, applied = None,
       restored = Some \<lparr>revision_id = rev_id source, before_revision_id = rev_id br, after_revision_id = rev_id ar\<rparr>\<rparr>"
    and ins: "insert_receipt E D4 (operation_namespace (rr_access req)) (rr_operation req) (u ''restore'') payload res = Inr D'"
  note D' = insert_receipt_Inr [OF ins, THEN conjunct2]
  have g4: "tables_grow D4 D'" using insert_receipt_grows [OF ins] by (simp add: grows_def)
  show thesis
  proof (rule checkpointed_write [OF ok rd src pv lt c w e r c'])
    fix d q p
    assume a: "d \<in> set (documents D)" "d_id d = i" "reflects E d before" "v = d_version d"
      "find_revision D4 (rev_id br) = Some q" "r_document q = i" "r_version q = v" "r_body q = d_body d" "r_hash q = d_hash d"
      "is_ok (read_revision E D4 (rev_id br))"
      "find_revision D4 (rev_id ar) = Some p" "r_document p = i" "r_version p = v + 1"
      "r_body p = json_text E (rev_body source)" "r_hash p = body_hash (rev_head source)"
      "is_ok (read_revision E D4 (rev_id ar))" "r_parent p = Some (rev_id br)"
      "doc_head aft = \<lparr>document_id = i, version = show_int (v + 1), body_hash = body_hash (rev_head source)\<rparr>" "tables_grow D D4"
    have "read_revision E D' j = read_revision E D4 j" "find_revision D' j = find_revision D4 j" for j
      by (simp_all add: D' read_revision_def find_revision_def)
    with a lt tables_grow_trans [OF a(19) g4] show thesis
      by (intro that [of d "\<lparr>revision_id = rev_id source, before_revision_id = rev_id br, after_revision_id = rev_id ar\<rparr>" q p])
        (simp_all add: res)
  qed
qed

lemma read_checked:
  assumes "find_revision D i = Some q" "is_ok (read_revision E D i)"
  obtains r where "read_revision_checked E D (r_document q) i = Inr r" "rev_id r = i" "parent_id r = r_parent q"
    "rev_head r = \<lparr>document_id = r_document q, version = show_int (r_version q), body_hash = r_hash q\<rparr>"
    "json_text E (rev_body r) = r_body q" "text_ok E (r_body q) (r_hash q)"
    "\<exists>bs. document_ok E bs \<and> rev_body r = document_value bs"
proof -
  from assms obtain r where r: "read_revision_checked E D (r_document q) i = Inr r"
    by (auto simp: read_revision_checked_def is_ok_iff)
  show ?thesis by (rule read_revision_ok [OF r]) (use assms(1) r in \<open>auto intro: that\<close>)
qed

lemma restore_validates:
  assumes codec: "codec_ok E" and ok: "db_ok E D" and g: "is_ok (parse_version (rr_generation req))"
    and run: "restore_fresh E a b req payload D = Inr (res, D')"
  shows "validate_restore_result E D' (document_id (rr_expected req)) res = Inr ()"
  using run
proof (rule restore_fresh_cases)
  let ?i = "document_id (rr_expected req)"
  fix before source
  assume rd: "read_document E D ?i = Inr before"
    and rs: "read_revision_checked E D ?i (rr_revision req) = Inr source"
    and neq: "body_hash (rev_head source) \<noteq> body_hash (doc_head before)"
    and w: "restore_write E a b req payload before source D = Inr (res, D')"
  from rs obtain s where s: "find_revision D (rr_revision req) = Some s" "r_document s = ?i"
    "text_ok E (r_body s) (r_hash s)" "json_text E (rev_body source) = r_body s" "rev_id source = rr_revision req"
    "rev_head source = \<lparr>document_id = ?i, version = show_int (r_version s), body_hash = r_hash s\<rparr>"
    "\<exists>bs. document_ok E bs \<and> rev_body source = document_value bs" by (rule read_revision_ok)
  then have src: "text_ok E (json_text E (rev_body source)) (body_hash (rev_head source))" by simp
  show "validate_restore_result E D' ?i res = Inr ()"
  proof (rule restore_outcome [OF w ok rd src])
    fix d q p x
    assume d: "d \<in> set (documents D)" "d_id d = ?i" "reflects E d before" "d_version d < i64_max"
      and res: "restored res = Some x" "revision_id x = rev_id source" "applied res = None"
        "saved_generation res = rr_generation req"
        "res_head res = \<lparr>document_id = ?i, version = show_int (d_version d + 1), body_hash = body_hash (rev_head source)\<rparr>"
      and q: "find_revision D' (before_revision_id x) = Some q" "r_document q = ?i" "r_version q = d_version d"
        "r_body q = d_body d" "r_hash q = d_hash d" "is_ok (read_revision E D' (before_revision_id x))"
      and p: "find_revision D' (after_revision_id x) = Some p" "r_document p = ?i" "r_version p = d_version d + 1"
        "r_body p = json_text E (rev_body source)" "r_hash p = body_hash (rev_head source)"
        "is_ok (read_revision E D' (after_revision_id x))" "r_parent p = Some (before_revision_id x)"
      and grow: "tables_grow D D'"
    from read_checked [OF q(1,6)] obtain bef where bef: "read_revision_checked E D' ?i (before_revision_id x) = Inr bef"
      "rev_id bef = before_revision_id x" "json_text E (rev_body bef) = r_body q" "text_ok E (r_body q) (r_hash q)"
      "rev_head bef = \<lparr>document_id = ?i, version = show_int (r_version q), body_hash = r_hash q\<rparr>"
      "\<exists>bs. document_ok E bs \<and> rev_body bef = document_value bs" using q(2) by metis
    from read_checked [OF p(1,6)] obtain aft where aft: "read_revision_checked E D' ?i (after_revision_id x) = Inr aft"
      "parent_id aft = r_parent p" "json_text E (rev_body aft) = r_body p" "text_ok E (r_body p) (r_hash p)"
      "rev_head aft = \<lparr>document_id = ?i, version = show_int (r_version p), body_hash = r_hash p\<rparr>"
      "\<exists>bs. document_ok E bs \<and> rev_body aft = document_value bs" using p(2) by metis
    from s(1) have sin: "s \<in> set (revisions D)" by (auto simp: find_revision_def dest: find_SomeD)
    from newest_revision(1) [OF ok d(1) sin] s(2) d(2) have le: "r_version s \<le> d_version d" by simp
    have nonneg: "0 \<le> r_version s" "0 \<le> d_version d"
      using ok sin d(1) by (auto simp: db_ok_def revision_row_ok_def document_row_ok_def)
    have same: "rev_body source = rev_body aft"
      using aft(3,6) p(4) s(7) by (intro document_text_inj [OF codec]) simp_all
    have "rev_body bef \<noteq> rev_body aft"
    proof
      assume "rev_body bef = rev_body aft"
      then have "r_hash q = r_hash p" using bef(3,4) aft(3,4) by (auto simp: text_ok_def)
      with neq d(3) p(5) q(5) show False by (simp add: reflects_def)
    qed
    moreover from read_revision_checked_mono [OF grow rs] s(5)
    have "read_revision_checked E D' ?i (rev_id source) = Inr source" by simp
    ultimately show ?thesis
      unfolding validate_restore_result_eq
      using res bef aft q p same s le nonneg d(4) g parse_version_show
      by (intro exI [of _ x] exI [of _ source] exI [of _ bef] exI [of _ aft] exI [of _ "d_version d"]
          exI [of _ "r_version s"]) simp
  qed
qed

end
