(* ===== verification/Receipt_Proofs.thy ===== *)
theory Receipt_Proofs
  imports Restore_Proofs
begin

text \<open>
  Receipts: \<open>history_ok\<close> says that every stored receipt passes \<open>validate_history_storage\<close>, and
  \<open>change\<close> is the list of transactions a command can perform; each of them preserves \<open>history_ok\<close>,
  \<open>db_ok\<close> and the growth laws.
\<close>

section \<open>The check of a receipt row\<close>

lemma receipt_row_eq:
  "validate_receipt_row E D c = Inr () \<longleftrightarrow>
     valid_id (c_namespace c) \<and> valid_id (c_operation c) \<and> valid_id (c_document c) \<and> valid_hash (c_payload c) \<and>
     (c_kind c = u ''restore'' \<longrightarrow> ensure_document_retained D (c_document c) = Inr ()) \<and>
     (c_kind c = u ''adoptChatPreview'' \<or>
       (\<exists>res. parse_stored_result E (c_result c) = Inr res \<and>
          (restored res = None \<longrightarrow> c_kind c \<noteq> u ''restore'') \<and>
          (restored res \<noteq> None \<longrightarrow> c_kind c = u ''restore'' \<and> validate_restore_result E D (c_document c) res = Inr ())))"
  unfolding validate_receipt_row_def is_ok_iff
  by (cases "parse_stored_result E (c_result c)") (auto simp: and_then_eq_Inr split: option.splits if_splits)

definition history_ok :: "env \<Rightarrow> db \<Rightarrow> bool" where
  "history_ok E D \<longleftrightarrow> (\<forall>c \<in> set (command_receipts D). validate_receipt_row E D c = Inr ())"

lemma history_ok_iff: "history_ok E D \<longleftrightarrow> validate_history_storage E D = Inr ()"
  by (simp add: history_ok_def validate_history_storage_def try_each_eq_Inr)

lemma receipt_row_mono:
  assumes "tables_grow D D'" "validate_receipt_row E D c = Inr ()"
  shows "validate_receipt_row E D' c = Inr ()"
  using assms(2) document_retained_mono [OF assms(1)] validate_restore_result_mono [OF assms(1)]
  unfolding receipt_row_eq by auto

lemma history_ok_mono:
  "tables_grow D D' \<Longrightarrow> command_receipts D' = command_receipts D \<Longrightarrow> history_ok E D \<Longrightarrow> history_ok E D'"
  by (simp add: history_ok_def receipt_row_mono)

lemma history_ok_insert:
  assumes ins: "insert_receipt E D ns i k p res = Inr D'" and ok: "history_ok E D"
    and new: "validate_receipt_row E D' \<lparr>c_namespace = ns, c_operation = i, c_document = document_id (res_head res),
        c_payload = p, c_kind = k, c_result = stored_result_text E res\<rparr> = Inr ()"
  shows "history_ok E D'"
proof -
  have "tables_grow D D'" using insert_receipt_grows [OF ins] by (simp add: grows_def)
  with ok new insert_receipt_Inr [OF ins] show ?thesis
    by (auto simp: history_ok_def receipt_row_mono)
qed

lemma plain_receipt_ok:
  assumes "codec_ok E" "digest_ok E" "valid_id ns" "valid_id i" "valid_id (document_id (res_head res))"
    "restored res = None" "k \<noteq> u ''restore''"
  shows "validate_receipt_row E D' \<lparr>c_namespace = ns, c_operation = i, c_document = document_id (res_head res),
        c_payload = logical_hash E j, c_kind = k, c_result = stored_result_text E res\<rparr> = Inr ()"
  unfolding receipt_row_eq
  using assms by (simp add: parse_stored_result_text logical_hash_def sha256_hex_valid)

section \<open>Receipts are only written by \<open>insert_receipt\<close>\<close>

lemma checkpoint_receipts: "checkpoint_at E new D doc why = Inr (r, D') \<Longrightarrow> command_receipts D' = command_receipts D"
  by (erule checkpoint_cases) (auto dest!: insert_revision_row_SomeD)

lemma checkpoint_if_receipts:
  "checkpoint_if E wanted new why read D = Inr D' \<Longrightarrow> command_receipts D' = command_receipts D"
  by (erule checkpoint_if_cases) (auto dest: checkpoint_receipts)

lemma write_receipts:
  "replace_body i v h n b g D1 = Inr D2 \<Longrightarrow> bump_epoch D2 = Inr D3 \<Longrightarrow> command_receipts D3 = command_receipts D1"
  by (drule replace_body_Inr, drule bump_epoch_Inr) simp

lemma save_body_receipts:
  "save_body E a b req before valid D = Inr (h', D') \<Longrightarrow> command_receipts D' = command_receipts D"
  by (erule save_body_cases) (auto dest!: checkpoint_if_receipts write_receipts)

section \<open>The transactions a command performs\<close>

inductive change :: "env \<Rightarrow> ustr \<Rightarrow> db \<Rightarrow> db \<Rightarrow> bool" for E ns where
  unchanged: "change E ns D D"
| project_renamed: "rename_project_tx s n D = Inr ((), D') \<Longrightarrow> change E ns D D'"
| document_renamed: "rename_document_tx i s n D = Inr ((), D') \<Longrightarrow> change E ns D D'"
| caret_saved: "upsert_view_state row D = Inr D' \<Longrightarrow> change E ns D D'"
| document_created: "validate_snapshot_json E s = Inr valid \<Longrightarrow> cd_kind req \<in> set document_kinds \<Longrightarrow>
    valid_id (cd_document req) \<Longrightarrow> valid_id (cd_operation req) \<Longrightarrow> operation_namespace (cd_access req) = ns \<Longrightarrow>
    create_document_tx E req valid (logical_hash E (create_request_json req)) D = Inr (rec, D') \<Longrightarrow> change E ns D D'"
| body_saved: "valid_id (sv_operation req) \<Longrightarrow> valid_id (document_id (sv_expected req)) \<Longrightarrow>
    operation_namespace (sv_access req) = ns \<Longrightarrow>
    save_tx E a b req (logical_hash E (save_request_json req)) D = Inr (res, D') \<Longrightarrow> change E ns D D'"
| checkpointed: "read_document E D i = Inr doc \<Longrightarrow> checkpoint_at E a D doc why = Inr (r, D') \<Longrightarrow> change E ns D D'"
| revision_restored: "restore_checks E req = Inr payload \<Longrightarrow> operation_namespace (rr_access req) = ns \<Longrightarrow>
    restore_tx E a b req payload D = Inr (ack, D') \<Longrightarrow> change E ns D D'"

lemma change_safe: "change E ns D D' \<Longrightarrow> safe_change E D D'"
proof (induction rule: change.induct)
  case (document_created s valid req D rec D')
  from document_created(6,1,2) show ?case by (rule create_document_safe)
next
  case (checkpointed D i doc a why r D')
  from checkpointed(2,1) show ?case by (rule checkpoint_safe)
qed (auto intro: rename_project_safe rename_document_safe upsert_view_safe save_tx_safe restore_tx_safe)

lemma change_grows: "change E ns D D' \<Longrightarrow> grows D D'"
  using change_safe by (auto simp: safe_change_def)

lemma change_ok: "change E ns D D' \<Longrightarrow> db_ok E D \<Longrightarrow> db_ok E D'"
  using change_safe by (auto simp: safe_change_def)

lemma restore_checks_ok:
  assumes "restore_checks E req = Inr payload"
  shows "valid_id (rr_operation req) \<and> valid_id (document_id (rr_expected req)) \<and>
    is_ok (parse_version (rr_generation req)) \<and> payload = logical_hash E (restore_request_json req)"
  using assms by (auto simp: restore_checks_def and_then_eq_Inr split: if_splits)

lemma save_history:
  assumes E: "codec_ok E" "digest_ok E" and ns: "valid_id ns" "operation_namespace (sv_access req) = ns"
    and ids: "valid_id (sv_operation req)" "valid_id (document_id (sv_expected req))"
    and run: "save_tx E a b req (logical_hash E (save_request_json req)) D = Inr (res, D')" and ok: "history_ok E D"
  shows "history_ok E D'"
  using run
proof (cases rule: save_tx_cases)
  case replay
  with ok show ?thesis by simp
next
  case fresh
  from fresh(2) show ?thesis
  proof (rule save_fresh_cases)
    fix before v valid D1
    assume rd: "read_document E D (document_id (sv_expected req)) = Inr before" "doc_head before = sv_expected req"
      and va: "validate_snapshot_json E (json_text E (sv_body req)) = Inr valid"
      and sb: "save_body E a b req before valid D = Inr (res_head res, D1)"
      and res: "res = \<lparr>res_head = res_head res, saved_generation = sv_generation req, applied = None, restored = None\<rparr>"
      and ins: "insert_receipt E D1 (operation_namespace (sv_access req)) (sv_operation req) (u ''save'')
        (logical_hash E (save_request_json req)) res = Inr D'"
    have "tables_grow D D1" using save_body_safe [OF sb rd(1) va] by (simp add: safe_change_def grows_def)
    from history_ok_mono [OF this save_body_receipts [OF sb] ok] have "history_ok E D1" .
    moreover have "document_id (res_head res) = document_id (sv_expected req)"
      using sb by (cases rule: save_body_cases) (simp_all add: rd(2))
    moreover have "restored res = None" by (subst res) simp
    ultimately show "history_ok E D'"
      using E ns ids by (intro history_ok_insert [OF ins] plain_receipt_ok) (simp_all add: u_def)
  qed
qed

lemma create_history:
  assumes E: "codec_ok E" "digest_ok E" and ns: "valid_id ns" "operation_namespace (cd_access req) = ns"
    and ids: "valid_id (cd_operation req)" "valid_id (cd_document req)"
    and run: "create_document_tx E req valid (logical_hash E (create_request_json req)) D = Inr (rec, D')"
    and ok: "history_ok E D"
  shows "history_ok E D'"
  using run
proof (cases rule: create_document_cases)
  case replay
  with ok show ?thesis by simp
next
  case (fresh p D1 D2)
  have "tables_grow D D2"
    using tables_grow_trans [OF insert_document_grow [OF fresh(1)] bump_epoch_grow [OF fresh(2)]] .
  moreover have "command_receipts D2 = command_receipts D"
    using fresh(1) bump_epoch_Inr [OF fresh(2)] by (auto simp: insert_document_row_def split: if_splits)
  ultimately have "history_ok E D2" using ok by (rule history_ok_mono)
  then show ?thesis using E ns ids by (intro history_ok_insert [OF fresh(3)] plain_receipt_ok) (simp_all add: u_def)
qed

lemma restore_history:
  assumes E: "codec_ok E" "digest_ok E" and ns: "valid_id ns" "operation_namespace (rr_access req) = ns"
    and checks: "restore_checks E req = Inr payload"
    and run: "restore_tx E a b req payload D = Inr (ack, D')" and ok: "history_ok E D" "db_ok E D"
  shows "history_ok E D'"
  using run
proof (cases rule: restore_tx_cases)
  case (replay result document)
  with ok show ?thesis by simp
next
  case (fresh res document)
  note c = restore_checks_ok [OF checks]
  from fresh(2) show ?thesis
  proof (rule restore_fresh_cases)
    fix before source
    assume rd: "read_document E D (document_id (rr_expected req)) = Inr before"
      and rs: "read_revision_checked E D (document_id (rr_expected req)) (rr_revision req) = Inr source"
      and w: "restore_write E a b req payload before source D = Inr (res, D')"
    have src: "text_ok E (json_text E (rev_body source)) (body_hash (rev_head source))"
      by (rule read_revision_ok [OF rs]) simp
    from rd obtain d where d: "d \<in> set (documents D)" "d_id d = document_id (rr_expected req)"
      "d_role d = u ''ordinary''" "reflects E d before" by (rule read_document_ok)
    have grow: "tables_grow D D'" using restore_fresh_safe [OF fresh(2)] by (simp add: safe_change_def grows_def)
    have ret: "ensure_document_retained D' (document_id (rr_expected req)) = Inr ()"
      using d by (intro document_retained_mono [OF grow]) (auto simp: ensure_document_retained_def list_ex_iff)
    have val: "validate_restore_result E D' (document_id (rr_expected req)) res = Inr ()"
      using c by (intro restore_validates [OF E(1) ok(2) _ fresh(2)]) simp
    from restore_outcome [OF w ok(2) rd src] obtain x where
      x: "restored res = Some x" "document_id (res_head res) = document_id (rr_expected req)"
      by (metis head.select_convs(1))
    from w show ?thesis
    proof (rule restore_write_cases)
      fix v br D1 D2 D3 aft ar D4
      assume c1: "checkpoint_at E a D before (u ''beforeRestore'') = Inr (br, D1)"
        and w1: "replace_body (document_id (doc_head before)) v (body_hash (doc_head before)) (v + 1)
           (json_text E (rev_body source)) (body_hash (rev_head source)) D1 = Inr D2" "bump_epoch D2 = Inr D3"
        and r1: "read_document E D3 (document_id (doc_head before)) = Inr aft"
        and lt: "v < i64_max"
        and c2: "checkpoint_at E b D3 aft (u ''afterRestore'') = Inr (ar, D4)"
        and ins: "insert_receipt E D4 (operation_namespace (rr_access req)) (rr_operation req) (u ''restore'') payload res = Inr D'"
      have "command_receipts D4 = command_receipts D"
        using checkpoint_receipts [OF c1] write_receipts [OF w1] checkpoint_receipts [OF c2] by simp
      moreover have "tables_grow D D4"
      proof -
        have "tables_grow D1 D3"
          using write_safe [OF w1 lt] src by (simp add: safe_change_def grows_def)
        with checkpoint_grows [OF c1] checkpoint_grows [OF c2] show ?thesis
          unfolding grows_def by (meson tables_grow_trans)
      qed
      ultimately have "history_ok E D4" using ok(1) by (intro history_ok_mono [of D D4]) auto
      moreover have "validate_receipt_row E D' \<lparr>c_namespace = ns, c_operation = rr_operation req,
          c_document = document_id (res_head res), c_payload = payload, c_kind = u ''restore'',
          c_result = stored_result_text E res\<rparr> = Inr ()"
        unfolding receipt_row_eq
        using E ns c ret val x by (simp add: parse_stored_result_text logical_hash_def sha256_hex_valid)
      ultimately show ?thesis using ns(2) by (intro history_ok_insert [OF ins]) simp_all
    qed
  qed
qed

lemma change_history:
  assumes "change E ns D D'" "codec_ok E" "digest_ok E" "valid_id ns" "history_ok E D" "db_ok E D"
  shows "history_ok E D'"
  using assms
proof (induction rule: change.induct)
  case (document_created s valid req D rec D')
  note p = document_created.prems and h = document_created.hyps
  show ?case by (rule create_history [OF p(1-3) h(5,4,3,6) p(4)])
next
  case (body_saved req a b D res D')
  note p = body_saved.prems and h = body_saved.hyps
  show ?case by (rule save_history [OF p(1-3) h(3,1,2,4) p(4)])
next
  case (revision_restored req payload a b D ack D')
  note p = revision_restored.prems and h = revision_restored.hyps
  show ?case by (rule restore_history [OF p(1-3) h(2,1,3) p(4,5)])
next
  case (project_renamed s n D D')
  then have "safe_change E D D'" by (intro rename_project_safe)
  with project_renamed show ?case
    by (intro history_ok_mono [of D D']) (auto simp: safe_change_def grows_def elim: rename_project_cases)
next
  case (document_renamed i s n D D')
  then have "safe_change E D D'" by (intro rename_document_safe)
  with document_renamed show ?case
    by (intro history_ok_mono [of D D']) (auto simp: safe_change_def grows_def dest!: bump_epoch_Inr elim!: rename_document_cases)
next
  case (caret_saved row D D')
  then have "safe_change E D D'" by (intro upsert_view_safe)
  with caret_saved show ?case
    by (intro history_ok_mono [of D D']) (auto simp: safe_change_def grows_def upsert_view_state_def split: if_splits)
next
  case (checkpointed D i doc a why r D')
  from checkpoint_safe [OF checkpointed(2,1)] checkpoint_receipts [OF checkpointed(2)] checkpointed show ?case
    by (intro history_ok_mono [of D D']) (auto simp: safe_change_def grows_def)
qed simp

end
