(* ===== verification/Actor_Proofs.thy ===== *)
theory Actor_Proofs
  imports Receipt_Proofs
begin

text \<open>
  The actor against its tables and its lease. \<open>handle_change\<close>: a turn of the loop changes the
  tables by one \<open>change\<close>. \<open>lease_ok\<close>: the lease invariant. Both lift to runs of the loop, and the
  properties of the loop are read off them.
\<close>

section \<open>One turn changes the tables by one transaction\<close>

lemma snd_fenced [simp]:
  "store (snd (fenced f o')) = store (snd o')"
  "info (snd (fenced f o')) = info (snd o')"
  "renderer_session (snd (fenced f o')) = renderer_session (snd o')"
  "retired_sessions (snd (fenced f o')) = retired_sessions (snd o')"
  by (auto simp: fenced_def map_outcome_def fence_uncertain_def split: prod.split sum.split)

lemma snd_map_outcome [simp]: "snd (map_outcome f o') = snd o'"
  by (simp add: map_outcome_def split: prod.split)

lemma snd_read_only [simp]: "snd (read_only r P) = P"
  by (simp add: read_only_def)

lemma after_checks_change:
  assumes "\<And>x. c = Inr x \<Longrightarrow> change E ns (store P) (store (snd (f x)))"
  shows "change E ns (store P) (store (snd (after_checks c f P)))"
  using assms by (cases c) (auto simp: after_checks_def intro: change.unchanged)

lemma with_tx_change:
  assumes "\<And>x D'. f (store P) = Inr (x, D') \<Longrightarrow> change E ns (store P) D'"
  shows "change E ns (store P) (store (snd (with_tx t f P)))"
proof (cases "connected P")
  case True
  obtain r D' where run: "in_tx (tx t) (store P) f = (r, D')" by (cases "in_tx (tx t) (store P) f")
  with True have "store (snd (with_tx t f P)) = D'" by (simp add: with_tx_def)
  with in_tx_cases [OF run] assms show ?thesis by (metis change.unchanged)
qed (simp add: with_tx_def change.unchanged)

lemma with_tx_rest:
  "info (snd (with_tx t f P)) = info P" "cur_access (snd (with_tx t f P)) = cur_access P"
  "renderer_session (snd (with_tx t f P)) = renderer_session P"
  "retired_sessions (snd (with_tx t f P)) = retired_sessions P"
  "needs_reopen (snd (with_tx t f P)) = needs_reopen P"
  by (auto simp: with_tx_def split: prod.split)

lemma with_tx_runD:
  "with_tx t f P = (r, P') \<Longrightarrow> info P' = info P \<and> cur_access P' = cur_access P \<and>
   renderer_session P' = renderer_session P \<and> retired_sessions P' = retired_sessions P"
  using with_tx_rest [of t f P] by simp

lemma recover_store [simp]:
  "store (snd (recover_connection t P)) = store P"
  "info (snd (recover_connection t P)) = info P"
  "cur_access (snd (recover_connection t P)) = cur_access P"
  "renderer_session (snd (recover_connection t P)) = renderer_session P"
  "retired_sessions (snd (recover_connection t P)) = retired_sessions P"
  by (auto simp: recover_connection_def Let_def split: option.split)

lemma attach_store [simp]:
  "store (snd (attach t s P)) = store P" "info (snd (attach t s P)) = info P"
  by (auto simp: attach_def Let_def split: option.split)

text \<open>The same facts for a run that is already split into its answer and state.\<close>

lemma recover_runD:
  "recover_connection t P = (r, P') \<Longrightarrow>
   store P' = store P \<and> info P' = info P \<and> cur_access P' = cur_access P \<and>
   renderer_session P' = renderer_session P \<and> retired_sessions P' = retired_sessions P"
  using recover_store [of t P] by simp

lemma attach_runD: "attach t s P = (r, P') \<Longrightarrow> store P' = store P \<and> info P' = info P"
  using attach_store [of t s P] by simp

lemma after_checks_same: "(\<And>x. g (snd (f x)) = g P) \<Longrightarrow> g (snd (after_checks c f P)) = g P"
  by (cases c) (auto simp: after_checks_def)

lemma reconcile_store:
  "store (snd (reconcile E t req P)) = store P" "info (snd (reconcile E t req P)) = info P"
proof -
  obtain r P1 where rc: "recover_connection t P = (r, P1)" by (cases "recover_connection t P")
  obtain q P2 where at: "attach t (rc_session req) P1 = (q, P2)" by (cases "attach t (rc_session req) P1")
  have same: "store P1 = store P" "info P1 = info P" "store P2 = store P" "info P2 = info P"
    using recover_runD [OF rc] attach_runD [OF at] by simp_all
  show "store (snd (reconcile E t req P)) = store P" "info (snd (reconcile E t req P)) = info P"
    unfolding reconcile_def rc at prod.case
    by (rule after_checks_same, cases r; cases q; simp add: at same)+
qed

lemma attach_snapshot_store:
  "store (snd (attach_snapshot E t s P)) = store P" "info (snd (attach_snapshot E t s P)) = info P"
proof -
  obtain r P' where rc: "recover_connection t P = (r, P')" by (cases "recover_connection t P")
  have "store (snd (after_checks c (\<lambda>(m, ds, v). map_outcome (k m ds v) (attach t s P')) P')) = store P'"
    "info (snd (after_checks c (\<lambda>(m, ds, v). map_outcome (k m ds v) (attach t s P')) P')) = info P'"
    for k :: "project_metadata \<Rightarrow> document_record list \<Rightarrow> view_state option \<Rightarrow> project_access \<Rightarrow> attached_project" and c
    by (rule after_checks_same, simp split: prod.split)+
  with recover_runD [OF rc] show "store (snd (attach_snapshot E t s P)) = store P"
    "info (snd (attach_snapshot E t s P)) = info P"
    by (simp_all add: attach_snapshot_def rc split: sum.split)
qed

lemma access_namespace:
  "check_access P a = Inr () \<Longrightarrow> operation_namespace a = info_operation_namespace (info P)"
  by (auto simp: check_access_def split: if_splits)

lemma rename_project_change: "change E ns (store P) (store (snd (rename_project t a v s P)))"
proof -
  have "change E ns (store P) (store (snd (with_tx t (rename_project_tx s n) P)))" for n
    by (rule with_tx_change) (auto intro: change.project_renamed)
  then show ?thesis
    unfolding rename_project_def
    by (intro after_checks_change)
      (auto simp: change.unchanged split: prod.split sum.split, (metis snd_conv)+)
qed

lemma rename_document_change: "change E ns (store P) (store (snd (rename_document E t a i v s P)))"
proof -
  have "change E ns (store P) (store (snd (with_tx t (rename_document_tx i s n) P)))" for n
    by (rule with_tx_change) (auto intro: change.document_renamed)
  then show ?thesis
    unfolding rename_document_def
    by (intro after_checks_change)
      (auto simp: change.unchanged split: prod.split sum.split, (metis snd_conv)+)
qed

lemma save_view_change: "change E ns (store P) (store (snd (save_view_state E t a h p q P)))"
  unfolding save_view_state_def
  by (intro after_checks_change with_tx_change) (auto simp: and_then_eq_Inr intro: change.caret_saved)

lemma checkpoint_change: "change E ns (store P) (store (snd (checkpoint E t a h why P)))"
  unfolding checkpoint_def
  by (intro after_checks_change with_tx_change) (auto simp: and_then_eq_Inr intro: change.checkpointed)

lemma save_change:
  "change E (info_operation_namespace (info P)) (store P) (store (snd (save E t req P)))"
  unfolding save_def
proof (intro after_checks_change)
  fix payload
  assume c: "save_checks E req P = Inr payload"
  then have "check_access P (sv_access req) = Inr ()" "valid_id (sv_operation req)"
    "valid_id (document_id (sv_expected req))" "payload = logical_hash E (save_request_json req)"
    by (auto simp: save_checks_def and_then_eq_Inr)
  then show "change E (info_operation_namespace (info P)) (store P)
      (store (snd (map_outcome (ack_of req) (with_tx t (save_tx E (new_first t) (new_second t) req payload) P))))"
    unfolding snd_map_outcome
    by (intro with_tx_change) (rule change.body_saved [where req = req], auto dest: access_namespace)
qed

lemma create_change:
  "change E (info_operation_namespace (info P)) (store P) (store (snd (create_document E t req P)))"
  unfolding create_document_def
proof (intro after_checks_change with_tx_change)
  fix valid rec D'
  assume "and_then (check_access P (cd_access req)) (\<lambda>_.
       and_then (check_id (cd_document req)) (\<lambda>_.
       and_then (check_id (cd_operation req)) (\<lambda>_.
       and_then (validate_title (cd_title req)) (\<lambda>_.
       and_then (ensure (cd_kind req \<in> set document_kinds) (core_err ''InvalidDocument'')) (\<lambda>_.
       map_err (\<lambda>_. core_err ''InvalidDocument'') (validate_snapshot_json E (json_text E (cd_body req)))))))) = Inr valid"
    and run: "create_document_tx E req valid (logical_hash E (create_request_json req)) (store P) = Inr (rec, D')"
  then have "check_access P (cd_access req) = Inr ()" "valid_id (cd_document req)" "valid_id (cd_operation req)"
    "cd_kind req \<in> set document_kinds" "validate_snapshot_json E (json_text E (cd_body req)) = Inr valid"
    by (auto simp: and_then_eq_Inr)
  with run show "change E (info_operation_namespace (info P)) (store P) D'"
    by (intro change.document_created [where req = req]) (auto dest: access_namespace)
qed

lemma restore_change:
  "change E (info_operation_namespace (info P)) (store P) (store (snd (restore_revision E t req P)))"
  unfolding restore_revision_def
proof (intro after_checks_change with_tx_change)
  fix payload ack D'
  assume "and_then (check_access P (rr_access req)) (\<lambda>_. restore_checks E req) = Inr payload"
    and "restore_tx E (new_first t) (new_second t) req payload (store P) = Inr (ack, D')"
  then show "change E (info_operation_namespace (info P)) (store P) D'"
    by (intro change.revision_restored [where req = req]) (auto simp: and_then_eq_Inr dest: access_namespace)
qed

lemma handle_change:
  "change E (info_operation_namespace (info P)) (store P) (store (snd (handle E t c P)))"
proof (cases c)
  case CProjectMetadata
  have "store (snd (handle E t c P)) = store P"
    by (cases "recover_connection t P") (auto simp: CProjectMetadata split: sum.split dest: recover_runD)
  then show ?thesis by (simp add: change.unchanged)
qed (simp_all add: change.unchanged reconcile_store attach_snapshot_store rename_project_change
    rename_document_change save_view_change checkpoint_change save_change create_change restore_change)

section \<open>The identity of the project\<close>

definition same_identity :: "actor \<Rightarrow> actor \<Rightarrow> bool" where
  "same_identity P P' \<longleftrightarrow> info_project_id (info P') = info_project_id (info P) \<and>
     info_operation_namespace (info P') = info_operation_namespace (info P)"

lemma rename_project_info: "same_identity P (snd (rename_project t a v s P))"
proof -
  have "info_project_id (info (snd (rename_project t a v s P))) = info_project_id (info P)"
    unfolding rename_project_def
    by (rule after_checks_same [where g = "\<lambda>P. info_project_id (info P)"])
      (auto split: prod.split sum.split dest: with_tx_runD)
  moreover have "info_operation_namespace (info (snd (rename_project t a v s P))) = info_operation_namespace (info P)"
    unfolding rename_project_def
    by (rule after_checks_same [where g = "\<lambda>P. info_operation_namespace (info P)"])
      (auto split: prod.split sum.split dest: with_tx_runD)
  ultimately show ?thesis by (simp add: same_identity_def)
qed

lemma with_tx_commands_info:
  "info (snd (create_document E t req P)) = info P"
  "info (snd (save E t sreq P)) = info P"
  "info (snd (checkpoint E t a h why P)) = info P"
  "info (snd (save_view_state E t a h p q P)) = info P"
  "info (snd (restore_revision E t rreq P)) = info P"
  unfolding create_document_def save_def checkpoint_def save_view_state_def restore_revision_def
  by (rule after_checks_same, simp add: with_tx_rest)+

lemma rename_document_info: "info (snd (rename_document E t a i v s P)) = info P"
  unfolding rename_document_def
  by (rule after_checks_same)
    (auto split: prod.split sum.split dest: with_tx_runD)

lemma handle_identity: "same_identity P (snd (handle E t c P))"
proof (cases c)
  case CProjectMetadata
  then show ?thesis
    by (cases "recover_connection t P") (auto simp: same_identity_def split: sum.split dest: recover_runD)
next
  case (CRenameProject a v s)
  then show ?thesis using rename_project_info [of P t a v s] by (simp add: same_identity_def)
qed (simp_all add: same_identity_def reconcile_store attach_snapshot_store with_tx_commands_info rename_document_info)

section \<open>Runs\<close>

text \<open>An invariant of the tables that every change preserves holds along a run.\<close>

lemma runs_induct_db:
  assumes "runs E P cs P'" "I (store P)"
    and "\<And>D D'. change E (info_operation_namespace (info P)) D D' \<Longrightarrow> I D \<Longrightarrow> I D'"
  shows "I (store P') \<and> same_identity P P'"
  using assms
proof (induction rule: runs.induct)
  case (runs_none P)
  then show ?case by (simp add: same_identity_def)
next
  case (runs_step P c r P' cs P'')
  from runs_step(1) obtain t where "handle E t c P = (r, P')" by (rule stepE)
  then have ch: "change E (info_operation_namespace (info P)) (store P) (store P')" and id: "same_identity P P'"
    using handle_change [of E P t c] handle_identity [of P E t c] by simp_all
  from runs_step.prems(2) [OF ch runs_step.prems(1)] runs_step.IH runs_step.prems(2) id
  show ?case by (simp add: same_identity_def)
qed

lemma runs_identity: "runs E P cs P' \<Longrightarrow> same_identity P P'"
  using runs_induct_db [of E P cs P' "\<lambda>_. True"] by simp

lemma runs_grows: "runs E P cs P' \<Longrightarrow> grows (store P) (store P')"
  using runs_induct_db [of E P cs P' "grows (store P)"] change_grows grows_trans by (metis grows_refl)

lemma runs_db_ok: "runs E P cs P' \<Longrightarrow> db_ok E (store P) \<Longrightarrow> db_ok E (store P')"
  using runs_induct_db [of E P cs P' "db_ok E"] change_ok by metis

lemma runs_history_ok:
  assumes "runs E P cs P'" "codec_ok E" "digest_ok E" "valid_id (info_operation_namespace (info P))"
    "db_ok E (store P)" "history_ok E (store P)"
  shows "history_ok E (store P')"
proof -
  have "(db_ok E (store P') \<and> history_ok E (store P')) \<and> same_identity P P'"
    by (rule runs_induct_db [OF assms(1), where I = "\<lambda>D. db_ok E D \<and> history_ok E D"])
      (use assms change_ok change_history in blast)+
  then show ?thesis by simp
qed

section \<open>The lease\<close>

definition lease_ok :: "actor \<Rightarrow> bool" where
  "lease_ok P \<longleftrightarrow>
     (\<forall>a. cur_access P = Some a \<longrightarrow> renderer_session P = Some (session a)) \<and>
     (\<forall>s. renderer_session P = Some s \<longrightarrow> s \<notin> set (retired_sessions P))"

text \<open>What a turn may do to the lease: nothing, drop it, or attach a session that is not retired.\<close>

definition lease_step :: "actor \<Rightarrow> actor \<Rightarrow> bool" where
  "lease_step P P' \<longleftrightarrow> set (retired_sessions P) \<subseteq> set (retired_sessions P') \<and> (lease_ok P \<longrightarrow> lease_ok P')"

lemma lease_step_same:
  "renderer_session P' = renderer_session P \<Longrightarrow> retired_sessions P' = retired_sessions P \<Longrightarrow>
   cur_access P' = cur_access P \<or> cur_access P' = None \<Longrightarrow> lease_step P P'"
  by (auto simp: lease_step_def lease_ok_def)

lemma lease_step_trans: "lease_step A B \<Longrightarrow> lease_step B C \<Longrightarrow> lease_step A C"
  by (auto simp: lease_step_def)

lemma attach_lease: "lease_step P (snd (attach t s P))"
  by (auto simp: attach_def Let_def lease_step_def lease_ok_def split: option.split)

lemma recover_lease: "lease_step P (snd (recover_connection t P))"
  by (rule lease_step_same) simp_all

lemma fenced_lease: "lease_step P (snd o') \<Longrightarrow> lease_step P (snd (fenced f o'))"
proof (erule lease_step_trans)
  show "lease_step (snd o') (snd (fenced f o'))"
    by (rule lease_step_same) (auto simp: fenced_def map_outcome_def fence_uncertain_def split: prod.split sum.split)
qed

lemma after_checks_lease:
  "(\<And>x. lease_step P (snd (f x))) \<Longrightarrow> lease_step P (snd (after_checks c f P))"
  by (cases c) (auto simp: after_checks_def intro: lease_step_same)

lemma with_tx_lease: "lease_step P (snd (with_tx t f P))"
  by (rule lease_step_same) (simp_all add: with_tx_rest)

lemma with_tx_command_leases:
  "lease_step P (snd (create_document E t req P))"
  "lease_step P (snd (save E t sreq P))"
  "lease_step P (snd (checkpoint E t a h why P))"
  "lease_step P (snd (save_view_state E t a h p q P))"
  "lease_step P (snd (restore_revision E t rreq P))"
  unfolding create_document_def save_def checkpoint_def save_view_state_def restore_revision_def
  by (rule after_checks_lease, simp add: with_tx_lease)+

lemma rename_leases:
  "lease_step P (snd (rename_document E t a i v s P))" "lease_step P (snd (rename_project t a v s P))"
proof -
  show "lease_step P (snd (rename_document E t a i v s P))"
    unfolding rename_document_def
    by (rule after_checks_lease) (auto intro!: lease_step_same split: prod.split sum.split dest: with_tx_runD)
  show "lease_step P (snd (rename_project t a v s P))"
    unfolding rename_project_def
    by (rule after_checks_lease) (auto intro!: lease_step_same split: prod.split sum.split dest: with_tx_runD)
qed

lemma attach_snapshot_lease: "lease_step P (snd (attach_snapshot E t s P))"
proof -
  obtain r P' where rc: "recover_connection t P = (r, P')" by (cases "recover_connection t P")
  have "lease_step P' (snd (after_checks c (\<lambda>(m, ds, v). map_outcome (k m ds v) (attach t s P')) P'))"
    for k :: "project_metadata \<Rightarrow> document_record list \<Rightarrow> view_state option \<Rightarrow> project_access \<Rightarrow> attached_project" and c
    by (rule after_checks_lease) (simp add: attach_lease split: prod.split)
  moreover have "lease_step P P'" using recover_lease [of P t] by (simp add: rc)
  ultimately show ?thesis
    by (auto simp: attach_snapshot_def rc split: sum.split intro: lease_step_same lease_step_trans)
qed

lemma reconcile_lease: "lease_step P (snd (reconcile E t req P))"
proof -
  obtain r P1 where rc: "recover_connection t P = (r, P1)" by (cases "recover_connection t P")
  obtain q P2 where at: "attach t (rc_session req) P1 = (q, P2)" by (cases "attach t (rc_session req) P1")
  have "lease_step P P1" "lease_step P P2"
    using recover_lease [of P t] attach_lease [of P1 t "rc_session req"] lease_step_trans by (simp_all add: rc at)
  then show ?thesis
    unfolding reconcile_def rc at prod.case
    by (intro after_checks_lease) (cases r; cases q; simp add: at)
qed

lemma handle_lease: "lease_step P (snd (handle E t c P))"
proof (cases c)
  case CProjectMetadata
  then show ?thesis
    using recover_lease [of P t] by (cases "recover_connection t P") (auto split: sum.split)
qed (simp_all add: attach_lease reconcile_lease attach_snapshot_lease fenced_lease with_tx_command_leases
    rename_leases lease_step_same)

lemma runs_lease: "runs E P cs P' \<Longrightarrow> lease_step P P'"
proof (induction rule: runs.induct)
  case (runs_none P)
  then show ?case by (simp add: lease_step_same)
next
  case (runs_step P c r P' cs P'')
  from runs_step(1) obtain t where "handle E t c P = (r, P')" by (rule stepE)
  with handle_lease [of P E t c] runs_step.IH show ?case by (auto intro: lease_step_trans)
qed

text \<open>A retired session has no access, and cannot attach again.\<close>

lemma retired_no_access:
  assumes "lease_ok P" "session a \<in> set (retired_sessions P)"
  shows "\<exists>e. check_access P a = Inl e"
  using assms by (auto simp: check_access_def lease_ok_def split: option.split)

lemma retired_no_attach:
  "s \<in> set (retired_sessions P) \<Longrightarrow> \<exists>e. attach t s P = (Inl e, P)"
  by (simp add: attach_def)

section \<open>After an uncertain outcome\<close>

fun writes :: "command \<Rightarrow> project_access option" where
  "writes (CCreate req) = Some (cd_access req)"
| "writes (CSave req) = Some (sv_access req)"
| "writes (CCheckpoint a _ _) = Some a"
| "writes (CRenameProject a _ _) = Some a"
| "writes (CRenameDocument a _ _ _) = Some a"
| "writes (CSaveViewState a _ _ _) = Some a"
| "writes (CRestore req) = Some (rr_access req)"
| "writes _ = None"

fun recovers :: "command \<Rightarrow> bool" where
  "recovers (CReconcile _) \<longleftrightarrow> True"
| "recovers CProjectMetadata \<longleftrightarrow> True"
| "recovers (CAttachSnapshot _) \<longleftrightarrow> True"
| "recovers _ \<longleftrightarrow> False"

text \<open>Without access a writing command fails before it touches the tables.\<close>

lemma no_access_no_write:
  assumes "writes c = Some a" "check_access P a = Inl e"
  shows "\<exists>e' P'. handle E t c P = (Inl e', P') \<and> store P' = store P"
  using assms
  by (cases c) (auto simp: create_document_def save_def save_checks_def checkpoint_def rename_project_def
      rename_document_def save_view_state_def restore_revision_def after_checks_def fenced_def map_outcome_def
      fence_uncertain_def)

definition locked :: "actor \<Rightarrow> bool" where
  "locked P \<longleftrightarrow> cur_access P = None \<and> needs_reopen P"

lemma locked_no_access: "locked P \<Longrightarrow> check_access P a = Inl (core_err ''WrongProjectSession'')"
  by (simp add: check_access_def locked_def)

lemma uncertain_locks:
  assumes "handle E t c P = (Inl e, P')" "writes c \<noteq> None" "code e = ''UncertainOutcome''"
  shows "locked P'"
  using assms(1,2) by (cases c) (auto simp: fenced_def map_outcome_def fence_uncertain_def locked_def
      and_then_eq_Inl assms(3) split: prod.splits sum.splits)

lemma locked_step:
  assumes "locked P" "handle E t c P = (r, P')" "\<not> recovers c"
  shows "locked P' \<and> store P' = store P \<and> (writes c \<noteq> None \<longrightarrow> (\<exists>e. r = Inl e))"
proof (cases "writes c")
  case None
  with assms show ?thesis
    by (cases c) (auto simp: attach_def locked_def map_outcome_def read_only_def fenced_def fence_uncertain_def
        split: if_splits sum.splits)
next
  case (Some a)
  with assms locked_no_access [OF assms(1), of a] show ?thesis
    by (cases c) (auto simp: create_document_def save_def save_checks_def checkpoint_def rename_project_def
      rename_document_def save_view_state_def restore_revision_def after_checks_def fenced_def map_outcome_def
      fence_uncertain_def locked_def)
qed

lemma locked_runs:
  "runs E P cs P' \<Longrightarrow> locked P \<Longrightarrow> \<forall>(c, r) \<in> set cs. \<not> recovers c \<Longrightarrow>
   locked P' \<and> store P' = store P \<and> (\<forall>(c, r) \<in> set cs. writes c \<noteq> None \<longrightarrow> (\<exists>e. r = Inl e))"
proof (induction rule: runs.induct)
  case (runs_step P c r P' cs P'')
  from runs_step(1) obtain t where "handle E t c P = (r, P')" by (rule stepE)
  with runs_step.prems locked_step [of P E t c r P'] runs_step.IH show ?case by auto
qed simp

end
