(* ===== verification/Save_Proofs.thy ===== *)
theory Save_Proofs
  imports Actor_Proofs
begin

text \<open>
  Saving: what a committed save writes, and why a repeated request finds its receipt.
\<close>

lemma check_id_valid: "valid_id i \<Longrightarrow> check_id i = Inr ()"
  by simp

section \<open>Receipts of earlier requests\<close>

lemma existing_receipt_none:
  "existing_receipt E D ns i k p = Inr None \<longleftrightarrow>
   (ns, i) \<notin> set (workshop_operations D) \<and> (ns, i) \<notin> set (proposal_operations D) \<and> find_receipt D (ns, i) = None"
  by (cases "find_receipt D (ns, i)")
    (auto simp: existing_receipt_def transpose_opt_eq_Inr split: if_splits)

lemma existing_receipt_found:
  "(ns, i) \<notin> set (workshop_operations D) \<Longrightarrow> (ns, i) \<notin> set (proposal_operations D) \<Longrightarrow>
   find_receipt D (ns, i) = Some row \<Longrightarrow>
   existing_receipt E D ns i k p =
     (if c_kind row \<noteq> k \<or> c_payload row \<noteq> p then Inl reused
      else and_then (parse_stored_result E (c_result row)) (\<lambda>res. Inr (Some res)))"
  by (cases "parse_stored_result E (c_result row)") (auto simp: existing_receipt_def)

lemma inserted_receipt_found:
  assumes "insert_receipt E D ns i k p res = Inr D'"
  shows "find_receipt D' (ns, i) = Some \<lparr>c_namespace = ns, c_operation = i, c_document = document_id (res_head res),
    c_payload = p, c_kind = k, c_result = stored_result_text E res\<rparr>"
proof -
  let ?row = "\<lparr>c_namespace = ns, c_operation = i, c_document = document_id (res_head res),
    c_payload = p, c_kind = k, c_result = stored_result_text E res\<rparr>"
  have "put_receipt D (ns, i) ?row = Some D'" using assms by (simp add: put_receipt_def insert_receipt_def)
  then show ?thesis by (rule receipts.lookup_inserted)
qed

text \<open>A receipt, once written, is what every later database shows for its operation.\<close>

lemma find_receipt_mono:
  "tables_grow D D' \<Longrightarrow> find_receipt D k = Some row \<Longrightarrow> find_receipt D' k = Some row"
  by (auto simp: tables_grow_def find_receipt_def find_append)

lemma replayed_receipt:
  assumes "codec_ok E" "existing_receipt E D0 ns i k p = Inr None" "tables_grow D0 D'" "tables_grow D D'"
    and "insert_receipt E D1 ns i k p res = Inr D"
  shows "existing_receipt E D' ns i k p = Inr (Some res)"
proof -
  have "(ns, i) \<notin> set (workshop_operations D')" "(ns, i) \<notin> set (proposal_operations D')"
    using assms(2,3) by (auto simp: existing_receipt_none tables_grow_def)
  with find_receipt_mono [OF assms(4) inserted_receipt_found [OF assms(5)]] assms(1) show ?thesis
    by (simp add: existing_receipt_found parse_stored_result_text)
qed

section \<open>The head a save answers with\<close>

definition row_head :: "document_row \<Rightarrow> head" where
  "row_head d = \<lparr>document_id = d_id d, version = show_int (d_version d), body_hash = d_hash d\<rparr>"

lemma checkpoint_if_heads:
  assumes "checkpoint_if E wanted new why read D = Inr D'"
  shows "row_head ` set (documents D') = row_head ` set (documents D)"
  using assms
proof (cases rule: checkpoint_if_cases)
  case (2 doc r)
  have "row_head (d\<lparr>d_checkpoint := c\<rparr>) = row_head d" for d c by (simp add: row_head_def)
  then have "map row_head ds = map (row_head \<circ> (\<lambda>d. d\<lparr>d_checkpoint := None\<rparr>)) ds" for ds by simp
  then have "map row_head (documents D') = map row_head (documents D)"
    using checkpoint_documents [OF 2(3)] by (metis map_map)
  then show ?thesis by (metis set_map)
qed simp

lemma save_body_head:
  assumes run: "save_body E a b req before valid D = Inr (h, D')" and rd: "read_document E D i = Inr before"
  shows "h \<in> row_head ` set (documents D')"
  using run
proof (cases rule: save_body_cases)
  case same
  from rd obtain d where "d \<in> set (documents D)" "reflects E d before" by (rule read_document_ok)
  with same show ?thesis by (auto simp: reflects_def row_head_def)
next
  case (changed v D1 D2 D3)
  let ?w = "\<lambda>d. d_id d = document_id (doc_head before) \<and> d_version d = v \<and> d_hash d = body_hash (doc_head before)"
  let ?f = "\<lambda>d. d\<lparr>d_version := v + 1, d_body := canonical_json valid, d_hash := hash valid, d_dirty := True\<rparr>"
  from replace_body_Inr [OF changed(5)] have "filter ?w (documents D1) \<noteq> []"
    and D2: "documents D2 = map (\<lambda>d. if ?w d then ?f d else d) (documents D1)" by auto
  then obtain e where "e \<in> set (documents D1)" "?w e" by (auto simp: filter_empty_conv)
  then have "?f e \<in> set (documents D3)" "row_head (?f e) = h"
    using D2 bump_epoch_Inr [OF changed(6)] changed(8) by (auto simp: row_head_def)
  with checkpoint_if_heads [OF changed(7)] show ?thesis by (metis imageI)
qed

lemma save_fresh_head:
  assumes "save_fresh E a b req payload D = Inr (res, D')"
  shows "res_head res \<in> row_head ` set (documents D') \<and> saved_generation res = sv_generation req \<and>
    (\<exists>D1. insert_receipt E D1 (operation_namespace (sv_access req)) (sv_operation req) (u ''save'') payload res = Inr D')"
  using assms
proof (rule save_fresh_cases)
  fix before v valid D1
  assume rd: "read_document E D (document_id (sv_expected req)) = Inr before"
    and sb: "save_body E a b req before valid D = Inr (res_head res, D1)"
    and res: "res = \<lparr>res_head = res_head res, saved_generation = sv_generation req, applied = None, restored = None\<rparr>"
    and ins: "insert_receipt E D1 (operation_namespace (sv_access req)) (sv_operation req) (u ''save'') payload res = Inr D'"
  have "saved_generation res = sv_generation req" by (subst res) simp
  with save_body_head [OF sb rd] ins insert_receipt_Inr [OF ins] show ?thesis by auto
qed

text \<open>An undo or redo keeps the body it replaces and the body it writes.\<close>

lemma save_body_undo:
  assumes ok: "db_ok E D" and rd: "read_document E D i = Inr before" and va: "validate_snapshot_json E s = Inr valid"
    and run: "save_body E a b req before valid D = Inr (h, D')"
    and undo: "sv_cause req \<noteq> Typing" and new: "h \<noteq> doc_head before"
  obtains d q p where "d \<in> set (documents D)" "d_id d = i" "row_head d = doc_head before"
    "q \<in> set (revisions D')" "r_document q = i" "r_version q = d_version d" "r_body q = d_body d" "r_hash q = d_hash d"
    "p \<in> set (revisions D')" "r_document p = i" "r_version p = d_version d + 1" "r_body p = canonical_json valid"
    "h = \<lparr>document_id = i, version = show_int (d_version d + 1), body_hash = r_hash p\<rparr>" "r_parent p = Some (r_id q)"
  using run
proof (cases rule: save_body_cases)
  case same
  with new show ?thesis by simp
next
  case (changed v D1 D2 D3)
  from changed(4) undo obtain br where c: "checkpoint_at E a D before (u ''beforeUndoRedo'') = Inr (br, D1)"
    by (auto elim: checkpoint_if_cases)
  from changed(7) undo obtain aft ar where r: "read_document E D3 (document_id (doc_head before)) = Inr aft"
    and c': "checkpoint_at E b D3 aft (u ''afterUndoRedo'') = Inr (ar, D')"
    by (auto elim: checkpoint_if_cases)
  show ?thesis
  proof (rule checkpointed_write [OF ok rd receipt_text_ok [OF va] changed(2,3) c changed(5,6) r c'])
    fix d q p
    assume d: "d \<in> set (documents D)" "d_id d = i" "reflects E d before" "v = d_version d"
      and q: "find_revision D' (rev_id br) = Some q" "r_document q = i" "r_version q = v" "r_body q = d_body d" "r_hash q = d_hash d"
      and p: "find_revision D' (rev_id ar) = Some p" "r_document p = i" "r_version p = v + 1"
        "r_body p = canonical_json valid" "r_hash p = hash valid" "r_parent p = Some (rev_id br)"
      and aft: "doc_head aft = \<lparr>document_id = i, version = show_int (v + 1), body_hash = hash valid\<rparr>"
    have "q \<in> set (revisions D')" "p \<in> set (revisions D')" "r_id q = rev_id br"
      using find_SomeD [OF q(1) [unfolded find_revision_def]] find_SomeD [OF p(1) [unfolded find_revision_def]] by simp_all
    with d q p changed(8) show ?thesis
      by (intro that [of d q p]) (auto simp: reflects_def row_head_def)
  qed
qed

section \<open>The request hash does not depend on the lease\<close>

lemma save_request_lease:
  assumes "project_id a = project_id (sv_access req)" "operation_namespace a = operation_namespace (sv_access req)"
  shows "logical_hash E (save_request_json (req\<lparr>sv_access := a\<rparr>)) = logical_hash E (save_request_json req)"
  using assms by (simp add: logical_hash_def strip_lease_def save_request_json_def access_json_def obj_remove_def)

section \<open>Rows by identity\<close>

definition set_row :: "document_row \<Rightarrow> db \<Rightarrow> db" where
  "set_row d D = D\<lparr>documents := map (\<lambda>e. if d_id e = d_id d then d else e) (documents D)\<rparr>"

lemma filter_row:
  "distinct (map d_id ds) \<Longrightarrow> d \<in> set ds \<Longrightarrow> Q d \<Longrightarrow> filter (\<lambda>e. d_id e = d_id d \<and> Q e) ds = [d]"
proof (induction ds)
  case (Cons e ds)
  show ?case
  proof (cases "e = d")
    case True
    then have "filter (\<lambda>e. d_id e = d_id d \<and> Q e) ds = []"
      using Cons.prems(1) by (auto simp: filter_empty_conv image_iff)
    with True Cons.prems(3) show ?thesis by simp
  next
    case False
    with Cons.prems have "d \<in> set ds" by simp
    with Cons.prems(1) have "d_id e \<noteq> d_id d" by (auto simp: image_iff)
    with Cons \<open>d \<in> set ds\<close> show ?thesis by simp
  qed
qed simp

lemma replace_body_eq:
  assumes keys: "keys_ok D" and d: "d \<in> set (documents D)"
  shows "replace_body (d_id d) (d_version d) (d_hash d) n b g D =
    Inr (set_row (d\<lparr>d_version := n, d_body := b, d_hash := g, d_dirty := True\<rparr>) D)"
proof -
  let ?w = "\<lambda>e. d_id e = d_id d \<and> d_version e = d_version d \<and> d_hash e = d_hash d"
  have "filter ?w (documents D) = [d]"
    using keys d by (intro filter_row) (simp_all add: keys_ok_def)
  moreover have "map (\<lambda>e. if ?w e then e\<lparr>d_version := n, d_body := b, d_hash := g, d_dirty := True\<rparr> else e) (documents D)
      = map (\<lambda>e. if d_id e = d_id d then d\<lparr>d_version := n, d_body := b, d_hash := g, d_dirty := True\<rparr> else e) (documents D)"
    using row_by_id [OF keys _ d] by (intro map_cong) auto
  ultimately show ?thesis by (simp add: replace_body_def update_documents_def set_row_def)
qed

lemma bump_epoch_eq:
  "project_rows D = Some p \<Longrightarrow> p_epoch p < i64_max \<Longrightarrow>
   bump_epoch D = Inr (D\<lparr>project_rows := Some (p\<lparr>p_epoch := p_epoch p + 1\<rparr>)\<rparr>)"
  by (simp add: bump_epoch_def)

lemma insert_receipt_eq:
  assumes "(ns, i) \<notin> receipt_key ` set (command_receipts D)" "document_id (res_head res) \<in> d_id ` set (documents D)"
    "(ns, i) \<notin> set (proposal_operations D)" "(ns, i) \<notin> set (generation_operations D)"
  shows "insert_receipt E D ns i k p res = Inr (D\<lparr>command_receipts := command_receipts D @
    [\<lparr>c_namespace = ns, c_operation = i, c_document = document_id (res_head res), c_payload = p, c_kind = k,
      c_result = stored_result_text E res\<rparr>]\<rparr>)"
  using assms(2,3,4) assms(1) [unfolded receipt_key_def [abs_def]]
  by (simp add: insert_receipt_def insert_receipt_row_def)

text \<open>A successful read, from the row and the check of its body.\<close>

lemma read_document_row:
  "find (\<lambda>d. d_id d = i \<and> \<not> d_trashed d) (documents D) = Some d \<Longrightarrow> d_role d = u ''ordinary'' \<Longrightarrow>
   check_body E (d_body d) (d_hash d) = Inr valid \<Longrightarrow> 0 \<le> d_metadata d \<Longrightarrow>
   read_document E D i = Inr \<lparr>doc_head = \<lparr>document_id = i, version = show_int (d_version d), body_hash = d_hash d\<rparr>,
     title = d_title d, kind = d_kind d, metadata_version = show_int (d_metadata d), body = snapshot valid,
     last_checkpoint_id = d_checkpoint d, role = Ordinary\<rparr>"
  by (simp add: read_document_def read_document_with_role_def from_storage_def parse_stored_version_def)

section \<open>A typed save that changes the body\<close>

definition operation_unused :: "db \<Rightarrow> ustr \<times> ustr \<Rightarrow> bool" where
  "operation_unused D k \<longleftrightarrow> k \<notin> receipt_key ` set (command_receipts D) \<and> k \<notin> set (workshop_operations D) \<and>
     k \<notin> set (proposal_operations D) \<and> k \<notin> set (generation_operations D)"

lemma unused_no_receipt: "operation_unused D (ns, i) \<Longrightarrow> existing_receipt E D ns i k p = Inr None"
  by (auto simp: operation_unused_def existing_receipt_none find_receipt_None receipt_key_def)

text \<open>The database after it: the row, the epoch and one receipt.\<close>

definition saved_result :: "save_request \<Rightarrow> int \<Rightarrow> ustr \<Rightarrow> stored_result" where
  "saved_result req n h = \<lparr>res_head = (sv_expected req)\<lparr>version := show_int n, body_hash := h\<rparr>,
     saved_generation = sv_generation req, applied = None, restored = None\<rparr>"

definition saved_db :: "env \<Rightarrow> save_request \<Rightarrow> document_row \<Rightarrow> snapshot_receipt \<Rightarrow> project_row \<Rightarrow> db \<Rightarrow> db" where
  "saved_db E req d valid p D =
    (set_row (d\<lparr>d_version := d_version d + 1, d_body := canonical_json valid, d_hash := hash valid, d_dirty := True\<rparr>) D)
      \<lparr>project_rows := Some (p\<lparr>p_epoch := p_epoch p + 1\<rparr>),
       command_receipts := command_receipts D @
         [\<lparr>c_namespace = operation_namespace (sv_access req), c_operation = sv_operation req,
           c_document = document_id (sv_expected req), c_payload = logical_hash E (save_request_json req),
           c_kind = u ''save'', c_result = stored_result_text E (saved_result req (d_version d + 1) (hash valid))\<rparr>]\<rparr>"

lemma set_row_simps [simp]:
  "project_rows (set_row d D) = project_rows D" "command_receipts (set_row d D) = command_receipts D"
  "proposal_operations (set_row d D) = proposal_operations D" "generation_operations (set_row d D) = generation_operations D"
  "workshop_operations (set_row d D) = workshop_operations D" "revisions (set_row d D) = revisions D"
  by (simp_all add: set_row_def)

lemma set_row_ids [simp]: "map d_id (documents (set_row d D)) = map d_id (documents D)"
  by (simp add: set_row_def)

lemma set_row_id_set [simp]: "d_id ` set (documents (set_row d D)) = d_id ` set (documents D)"
  using set_row_ids [of d D] by (metis set_map)

lemma save_body_typing:
  assumes keys: "keys_ok D" and d: "d \<in> set (documents D)"
    and head: "doc_head before = \<lparr>document_id = d_id d, version = show_int (d_version d), body_hash = d_hash d\<rparr>"
    and typing: "sv_cause req = Typing" and new: "hash valid \<noteq> d_hash d"
    and v: "0 \<le> d_version d" "d_version d < i64_max"
    and p: "project_rows D = Some p" "p_epoch p < i64_max"
  shows "save_body E a b req before valid D =
    Inr ((doc_head before)\<lparr>version := show_int (d_version d + 1), body_hash := hash valid\<rparr>,
      (set_row (d\<lparr>d_version := d_version d + 1, d_body := canonical_json valid, d_hash := hash valid, d_dirty := True\<rparr>) D)
        \<lparr>project_rows := Some (p\<lparr>p_epoch := p_epoch p + 1\<rparr>)\<rparr>)"
proof -
  have pv: "parse_version (show_int (d_version d)) = Inr (d_version d)" using v by (intro parse_version_show) simp_all
  then have n: "checked_add_i64 (d_version d) 1 = Some (d_version d + 1)" using v(2) by (simp add: next_version_eq)
  show ?thesis
    using new p by (simp add: save_body_def head pv n checkpoint_if_def typing replace_body_eq [OF keys d] bump_epoch_eq)
qed

lemma save_tx_typing:
  assumes ok: "db_ok E D" and rd: "read_document E D (document_id (sv_expected req)) = Inr before"
    and head: "doc_head before = sv_expected req"
    and va: "validate_snapshot_json E (json_text E (sv_body req)) = Inr valid"
    and typing: "sv_cause req = Typing" and new: "hash valid \<noteq> body_hash (sv_expected req)"
    and d: "d \<in> set (documents D)" "d_id d = document_id (sv_expected req)" and v: "d_version d < i64_max"
    and p: "project_rows D = Some p" "p_epoch p < i64_max"
    and fresh: "operation_unused D (operation_namespace (sv_access req), sv_operation req)"
  shows "save_tx E a b req (logical_hash E (save_request_json req)) D =
    Inr (saved_result req (d_version d + 1) (hash valid), saved_db E req d valid p D)"
proof -
  from rd obtain e where e: "e \<in> set (documents D)" "d_id e = document_id (sv_expected req)" "reflects E e before"
    by (rule read_document_ok)
  have keys: "keys_ok D" using ok by (simp add: db_ok_def)
  from row_by_id [OF keys e(1) d(1)] e(2) d(2) have "e = d" by simp
  with e(3) have h: "doc_head before = \<lparr>document_id = d_id d, version = show_int (d_version d), body_hash = d_hash d\<rparr>"
    by (simp add: reflects_def)
  have nonneg: "0 \<le> d_version d" using ok d(1) by (simp add: db_ok_def document_row_ok_def)
  have pv: "parse_version (version (sv_expected req)) = Inr (d_version d)"
    using v nonneg unfolding head [symmetric] h by (simp add: parse_version_show)
  have "save_body E a b req before valid D =
    Inr ((sv_expected req)\<lparr>version := show_int (d_version d + 1), body_hash := hash valid\<rparr>,
      (set_row (d\<lparr>d_version := d_version d + 1, d_body := canonical_json valid, d_hash := hash valid, d_dirty := True\<rparr>) D)
        \<lparr>project_rows := Some (p\<lparr>p_epoch := p_epoch p + 1\<rparr>)\<rparr>)" (is "_ = Inr (?h, ?D)")
    using save_body_typing [OF keys d(1) h typing _ nonneg v p, of valid E a b] new h head by simp
  moreover have "insert_receipt E ?D (operation_namespace (sv_access req)) (sv_operation req) (u ''save'')
      (logical_hash E (save_request_json req)) (saved_result req (d_version d + 1) (hash valid)) =
      Inr (saved_db E req d valid p D)"
  proof (subst insert_receipt_eq)
    show "document_id (res_head (saved_result req (d_version d + 1) (hash valid))) \<in> d_id ` set (documents ?D)"
      using d by (auto simp: saved_result_def intro: rev_image_eqI)
  qed (use fresh in \<open>simp_all add: operation_unused_def saved_db_def saved_result_def\<close>)
  ultimately show ?thesis
    using unused_no_receipt [OF fresh] rd head va pv
    by (simp add: save_tx_def save_fresh_def Let_def saved_result_def require_head_def)
qed

end
