(* ===== verification/Sample_Project.thy ===== *)
theory Sample_Project
  imports Save_Proofs
begin

text \<open>
  A concrete project for the witnesses: one chapter at version 3 in an open project, a lease held
  by the session \<open>s1\<close>, and an edited body with a save request for it.
\<close>

definition sample_hash :: "block list \<Rightarrow> ustr" where
  "sample_hash bs = sha256_hex sample_env (bytes (enc (document_value bs)))"

definition sample_edit :: "block list" where
  "sample_edit = [Paragraph (u ''p1'') [Run (u ''New'') []]]"

definition sample_row :: document_row where
  "sample_row = \<lparr>d_id = u ''doc'', d_kind = u ''chapter'', d_title = u ''One'', d_metadata = 0, d_position = 0,
     d_version = 3, d_body = enc (document_value sample_document), d_hash = sample_hash sample_document,
     d_checkpoint = None, d_dirty = False, d_trashed = False, d_role = u ''ordinary''\<rparr>"

definition sample_project :: project_row where
  "sample_project = \<lparr>p_id = u ''p'', p_namespace = u ''ns'', p_title = u ''Book'', p_format = 1, p_metadata = 0, p_epoch = 5\<rparr>"

definition sample_db :: db where
  "sample_db = \<lparr>project_rows = Some sample_project, documents = [sample_row], revisions = [], command_receipts = [],
     workshop_operations = [], proposal_operations = [], generation_operations = [], view_state_row = None\<rparr>"

definition sample_info :: project_info where
  "sample_info = \<lparr>info_project_id = u ''p'', info_operation_namespace = u ''ns'', info_title = u ''Book'', format_version = 1\<rparr>"

definition sample_access :: "string \<Rightarrow> string \<Rightarrow> project_access" where
  "sample_access s l = \<lparr>project_id = u ''p'', session = u s, writer_lease = u l, operation_namespace = u ''ns''\<rparr>"

definition sample_actor :: actor where
  "sample_actor = \<lparr>store = sample_db, connected = True, info = sample_info, marker = sample_info,
     cur_access = Some (sample_access ''s1'' ''l1''), renderer_session = Some (u ''s1''), retired_sessions = [],
     needs_reopen = False\<rparr>"

definition sample_turn :: "tx_outcome \<Rightarrow> turn" where
  "sample_turn o' = \<lparr>tx = o', close_ok = True, open_ok = True, quick_check_ok = True, marker_ok = True,
     new_lease = u ''l2'', new_first = u ''r1'', new_second = u ''r2''\<rparr>"

definition sample_head :: head where
  "sample_head = \<lparr>document_id = u ''doc'', version = u ''3'', body_hash = sample_hash sample_document\<rparr>"

definition sample_save :: "save_cause \<Rightarrow> save_request" where
  "sample_save cause = \<lparr>sv_access = sample_access ''s1'' ''l1'', sv_operation = u ''op1'', sv_expected = sample_head,
     sv_generation = u ''1'', sv_body = document_value sample_edit, sv_cause = cause\<rparr>"

lemma sample_save_sel [simp]:
  "sv_access (sample_save c) = sample_access ''s1'' ''l1''" "sv_operation (sample_save c) = u ''op1''"
  "sv_expected (sample_save c) = sample_head" "sv_generation (sample_save c) = u ''1''"
  "sv_body (sample_save c) = document_value sample_edit" "sv_cause (sample_save c) = c"
  by (simp_all add: sample_save_def)

lemma sample_actor_sel [simp]:
  "store sample_actor = sample_db" "connected sample_actor" "info sample_actor = sample_info"
  "cur_access sample_actor = Some (sample_access ''s1'' ''l1'')" "renderer_session sample_actor = Some (u ''s1'')"
  "retired_sessions sample_actor = []" "\<not> needs_reopen sample_actor"
  by (simp_all add: sample_actor_def)

lemma sample_turn_sel [simp]:
  "tx (sample_turn o') = o'" "new_first (sample_turn o') = u ''r1''" "new_second (sample_turn o') = u ''r2''"
  "new_lease (sample_turn o') = u ''l2''"
  by (simp_all add: sample_turn_def)

lemma sample_access_sel [simp]:
  "session (sample_access s l) = u s" "operation_namespace (sample_access s l) = u ''ns''"
  "project_id (sample_access s l) = u ''p''" "writer_lease (sample_access s l) = u l"
  by (simp_all add: sample_access_def)

lemma sample_head_sel [simp]: "document_id sample_head = u ''doc''" "version sample_head = u ''3''"
  "body_hash sample_head = sample_hash sample_document"
  by (simp_all add: sample_head_def)

lemma sample_hashes: "sample_hash sample_edit \<noteq> sample_hash sample_document"
  by code_simp

lemma sample_three: "show_int 3 = u ''3''"
  by code_simp

lemma sample_valid_ids: "valid_id (u ''doc'')" "valid_id (u ''op1'')" "valid_id (u ''ns'')" "valid_id (u ''s1'')" "valid_id (u ''s2'')"
  by code_simp+

lemma sample_versions: "parse_version (u ''3'') = Inr 3" "parse_version (u ''1'') = Inr 1"
  by code_simp+

lemma sample_hash_valid: "valid_hash (sample_hash bs)"
  unfolding sample_hash_def by (rule sha256_hex_valid [OF sample_digest])

text \<open>Stored bodies are kept folded, so that the commands evaluate without rendering them.\<close>

definition sample_text :: "block list \<Rightarrow> ustr" where
  "sample_text bs = enc (document_value bs)"

lemma sample_edit_ok: "document_ok sample_env sample_edit"
  by (simp add: document_ok_def sample_edit_def MAX_BLOCKS_def document_units_def block_units_def
      MAX_UTF16_UNITS_def valid_id_iff unmergeable_def marks_ok_def)
    (simp add: u_def id_byte_def is_ascii_alphanumeric_def is_ascii_alphabetic_def is_ascii_digit_def
      len_utf16_def)

lemma sample_edit_size: "blen (enc (document_value sample_edit)) \<le> MAX_RAW_BYTES"
proof -
  have "length (enc (document_value sample_edit)) \<le> 500"
    by (simp add: document_value_def sample_edit_def content_entry_def)
  with blen_le [of "enc (document_value sample_edit)"] show ?thesis
    by (simp add: MAX_RAW_BYTES_def)
qed

lemma sample_accepted:
  "validate_snapshot_json sample_env (sample_text sample_document) = Inr (receipt_of sample_env sample_document)"
  "validate_snapshot_json sample_env (sample_text sample_edit) = Inr (receipt_of sample_env sample_edit)"
  using rendered_accepted [OF sample_codec sample_document_ok sample_document_size]
    rendered_accepted [OF sample_codec sample_edit_ok] sample_edit_size by (simp_all add: sample_text_def)

lemma sample_receipt_hash: "sha256_hex sample_env (bytes (enc (document_value bs))) = sample_hash bs"
  by (simp add: sample_hash_def)

lemma sample_text_hash: "sha256_hex sample_env (bytes (sample_text bs)) = sample_hash bs"
  by (simp add: sample_text_def sample_hash_def)

lemma sample_bodies:
  "check_body sample_env (sample_text sample_document) (sample_hash sample_document) = Inr (receipt_of sample_env sample_document)"
  "check_body sample_env (sample_text sample_edit) (sample_hash sample_edit) = Inr (receipt_of sample_env sample_edit)"
  by (simp_all add: check_body_def sample_accepted sample_receipt_hash) (simp_all add: sample_text_def)

lemma sample_row_eq: "sample_row = \<lparr>d_id = u ''doc'', d_kind = u ''chapter'', d_title = u ''One'', d_metadata = 0, d_position = 0,
     d_version = 3, d_body = sample_text sample_document, d_hash = sample_hash sample_document,
     d_checkpoint = None, d_dirty = False, d_trashed = False, d_role = u ''ordinary''\<rparr>"
  by (simp add: sample_row_def sample_text_def)

lemma show_int_zero: "show_int 0 = u ''0''"
  by code_simp

lemma sample_db_ok: "db_ok sample_env sample_db"
proof -
  have "document_row_ok sample_env sample_row"
    using sample_document_ok
    by (auto simp: document_row_ok_def sample_row_def text_ok_def sample_hash_def i64_max_def document_kinds_def
        intro: range_eqI [of _ _ Ordinary])
  then show ?thesis
    by (simp add: db_ok_def keys_ok_def sample_db_def checkpoint_ok_def sample_row_def)
qed

lemma sample_history_ok: "history_ok sample_env sample_db"
  by (simp add: history_ok_def sample_db_def)

lemma sample_access_ok: "check_access sample_actor (sample_access ''s1'' ''l1'') = Inr ()"
  by (simp add: check_access_def sample_actor_def sample_access_def sample_info_def)

lemma sample_read:
  "read_document sample_env sample_db (u ''doc'') = Inr \<lparr>doc_head = sample_head, title = u ''One'', kind = u ''chapter'',
     metadata_version = u ''0'', body = document_value sample_document, last_checkpoint_id = None, role = Ordinary\<rparr>"
  using read_document_row [of "u ''doc''" sample_db sample_row sample_env "receipt_of sample_env sample_document"]
  by (simp add: sample_db_def sample_row_eq sample_bodies sample_head_def sample_three show_int_zero)

lemma sample_unused: "operation_unused sample_db k"
  by (simp add: operation_unused_def sample_db_def)

lemma sample_i64: "i64_max = 9223372036854775807"
  by (simp add: i64_max_def)

lemma sample_four: "parse_version (show_int 4) = Inr 4"
  by (intro parse_version_show) (simp_all add: sample_i64)

text \<open>The database after an undo of the sample body: both bodies are kept as revisions.\<close>

definition sample_revisions :: "revision_row list" where
  "sample_revisions =
    [\<lparr>r_id = u ''r1'', r_document = u ''doc'', r_version = 3, r_body = sample_text sample_document,
      r_hash = sample_hash sample_document, r_parent = None, r_reason = u ''beforeUndoRedo''\<rparr>,
     \<lparr>r_id = u ''r2'', r_document = u ''doc'', r_version = 4, r_body = sample_text sample_edit,
      r_hash = sample_hash sample_edit, r_parent = Some (u ''r1''), r_reason = u ''afterUndoRedo''\<rparr>]"

definition sample_undone :: "receipt_row list \<Rightarrow> db" where
  "sample_undone cs = sample_db\<lparr>project_rows := Some (sample_project\<lparr>p_epoch := 6\<rparr>),
     documents := [sample_row\<lparr>d_version := 4, d_body := sample_text sample_edit, d_hash := sample_hash sample_edit,
       d_dirty := True, d_checkpoint := Some (u ''r2'')\<rparr>],
     revisions := sample_revisions, command_receipts := cs\<rparr>"

definition sample_undo_result :: stored_result where
  "sample_undo_result = \<lparr>res_head = \<lparr>document_id = u ''doc'', version = show_int 4, body_hash = sample_hash sample_edit\<rparr>,
     saved_generation = u ''1'', applied = None, restored = None\<rparr>"

definition sample_receipt :: "ustr \<Rightarrow> receipt_row" where
  "sample_receipt payload = \<lparr>c_namespace = u ''ns'', c_operation = u ''op1'', c_document = u ''doc'', c_payload = payload,
     c_kind = u ''save'', c_result = stored_result_text sample_env sample_undo_result\<rparr>"

lemmas sample_folds = sample_bodies sample_accepted sample_text_hash sample_text_def [symmetric]
  sample_i64 sample_four sample_versions

lemmas sample_statements = find_revision_at_def insert_revision_row_def update_documents_def read_revision_def
  find_revision_def checked_add_i64_def replace_body_def bump_epoch_def read_document_row insert_receipt_def
  insert_receipt_row_def

lemma sample_undo_tx:
  "save_tx sample_env (u ''r1'') (u ''r2'') (sample_save Undo) payload sample_db =
    Inr (sample_undo_result, sample_undone [sample_receipt payload])"
  using sample_hashes
  by (simp add: save_tx_def unused_no_receipt [OF sample_unused] save_fresh_def sample_save_def sample_head_def sample_read
      require_head_def sample_folds save_body_def Let_def checkpoint_if_def checkpoint_at_def,
    simp add: sample_db_def sample_row_eq sample_project_def sample_folds sample_statements,
    simp add: sample_access_def sample_undone_def sample_db_def sample_row_eq sample_revisions_def sample_receipt_def
      sample_undo_result_def sample_project_def)

text \<open>Restoring the first body from there.\<close>

definition sample_restore :: restore_request where
  "sample_restore = \<lparr>rr_access = sample_access ''s1'' ''l1'', rr_operation = u ''op2'',
     rr_expected = \<lparr>document_id = u ''doc'', version = show_int 4, body_hash = sample_hash sample_edit\<rparr>,
     rr_revision = u ''r1'', rr_revision_hash = sample_hash sample_document, rr_generation = u ''1''\<rparr>"

lemma sample_five: "parse_version (show_int 5) = Inr 5"
  by (intro parse_version_show) (simp_all add: sample_i64)

lemma sample_restore_tx:
  "\<exists>ack D'. restore_tx sample_env (u ''r3'') (u ''r4'') sample_restore payload (sample_undone [sample_receipt p]) = Inr (ack, D') \<and> \<not> ra_already ack"
  using sample_hashes
  by (simp add: restore_tx_def existing_receipt_def find_receipt_def sample_undone_def sample_db_def sample_receipt_def
      sample_restore_def sample_access_def,
    simp add: restore_fresh_def sample_folds sample_statements sample_row_eq require_head_def read_revision_checked_def
      sample_revisions_def restore_write_def checkpoint_at_def,
    simp add: sample_folds sample_five sample_statements sample_project_def,
    simp add: Let_def sample_folds sample_statements)

text \<open>The commands of the witnesses.\<close>

lemma sample_save_checks:
  "save_checks sample_env (sample_save cause) sample_actor = Inr (logical_hash sample_env (save_request_json (sample_save cause)))"
  by (simp add: save_checks_def sample_access_ok check_id_valid sample_valid_ids sample_versions)

lemma sample_undo:
  "handle sample_env (sample_turn Committed) (CSave (sample_save Undo)) sample_actor =
    (Inr (RAck (ack_of (sample_save Undo) sample_undo_result)),
     sample_actor\<lparr>store := sample_undone [sample_receipt (logical_hash sample_env (save_request_json (sample_save Undo)))]\<rparr>)"
proof -
  show ?thesis
    by (simp add: save_def after_checks_def sample_save_checks with_tx_def in_tx_def sample_undo_tx
        fenced_def map_outcome_def fence_uncertain_def)
qed

end
