(* ===== verification/Actor_Properties.thy ===== *)
theory Actor_Properties
  imports Sample_Project
begin

text \<open>
  What the project actor promises its clients: saves are compare-and-set and idempotent under
  retry, nothing that was stored is lost, a superseded session is fenced out, and an uncertain
  outcome blocks every write until the store has been looked at again.
\<close>

section \<open>Saving\<close>

lemma save_handled:
  assumes "save_checks E req P = Inr payload" "connected P" "tx t = Committed"
    and "save_tx E (new_first t) (new_second t) req payload (store P) = Inr (res, D)"
  shows "handle E t (CSave req) P = (Inr (RAck (ack_of req res)), P\<lparr>store := D\<rparr>)"
  using assms by (simp add: save_def after_checks_def with_tx_def in_tx_def fenced_def map_outcome_def fence_uncertain_def)

text \<open>
  C7: an accepted typing save of a changed body at the current head moves the document to the
  next version with the validated canonical body, bumps the source epoch, records one receipt,
  and changes nothing else; the acknowledgement carries the new head.
\<close>

theorem save_commits:
  assumes "db_ok E (store P)" "connected P" "tx t = Committed" "save_checks E req P = Inr payload"
    and "read_document E (store P) (document_id (sv_expected req)) = Inr before" "doc_head before = sv_expected req"
    and "validate_snapshot_json E (json_text E (sv_body req)) = Inr valid"
    and "sv_cause req = Typing" "hash valid \<noteq> body_hash (sv_expected req)"
    and "d \<in> set (documents (store P))" "d_id d = document_id (sv_expected req)" "d_version d < i64_max"
    and "project_rows (store P) = Some p" "p_epoch p < i64_max"
    and "operation_unused (store P) (operation_namespace (sv_access req), sv_operation req)"
  shows "handle E t (CSave req) P =
    (Inr (RAck (ack_of req (saved_result req (d_version d + 1) (hash valid)))),
     P\<lparr>store := saved_db E req d valid p (store P)\<rparr>)"
proof -
  have "payload = logical_hash E (save_request_json req)"
    using assms(4) by (auto simp: save_checks_def and_then_eq_Inr)
  with save_tx_typing [OF assms(1,5,6,7,8,9,10,11,12,13,14,15)] save_handled [OF assms(4,2,3)] show ?thesis by simp
qed

theorem save_commits_witness:
  "handle sample_env (sample_turn Committed) (CSave (sample_save Typing)) sample_actor =
    (Inr (RAck (ack_of (sample_save Typing) (saved_result (sample_save Typing) 4 (sample_hash sample_edit)))),
     sample_actor\<lparr>store := saved_db sample_env (sample_save Typing) sample_row (receipt_of sample_env sample_edit)
       sample_project sample_db\<rparr>)"
proof -
  have "sample_row \<in> set (documents sample_db)" "d_id sample_row = u ''doc''" "d_version sample_row = 3"
    "project_rows sample_db = Some sample_project" "p_epoch sample_project < i64_max"
    by (simp_all add: sample_db_def sample_row_eq sample_project_def sample_i64)
  then show ?thesis
    using sample_hashes save_commits [OF _ _ _ sample_save_checks, of "sample_turn Committed" Typing _
        "receipt_of sample_env sample_edit" sample_row sample_project]
    by (simp add: sample_db_ok sample_read sample_folds sample_unused)
qed

text \<open>
  C8: a save made against any other head is refused with the document's current head, and
  changes nothing.
\<close>

theorem save_conflict:
  assumes "connected P" "tx t \<noteq> BeginFailed" "save_checks E req P = Inr payload"
    and "read_document E (store P) (document_id (sv_expected req)) = Inr before" "doc_head before \<noteq> sv_expected req"
    and "operation_unused (store P) (operation_namespace (sv_access req), sv_operation req)"
  shows "handle E t (CSave req) P = (Inl \<lparr>code = ''VersionConflict'', current_head = Some (doc_head before)\<rparr>, P)"
proof -
  from assms(3) obtain v where v: "parse_version (version (sv_expected req)) = Inr v"
    by (auto simp: save_checks_def and_then_eq_Inr)
  have "save_tx E a b req payload (store P) = Inl \<lparr>code = ''VersionConflict'', current_head = Some (doc_head before)\<rparr>" for a b
    using assms(4,5) unused_no_receipt [OF assms(6)] v
    by (simp add: save_tx_def save_fresh_def require_head_def core_err_def)
  then show ?thesis
    using assms(1,2,3)
    by (simp add: save_def after_checks_def with_tx_def in_tx_err fenced_def map_outcome_def fence_uncertain_def)
qed

theorem save_conflict_witness:
  "handle sample_env (sample_turn Committed) (CSave ((sample_save Typing)\<lparr>sv_expected := sample_head\<lparr>version := u ''1''\<rparr>\<rparr>)) sample_actor =
    (Inl \<lparr>code = ''VersionConflict'', current_head = Some sample_head\<rparr>, sample_actor)"
proof -
  let ?req = "(sample_save Typing)\<lparr>sv_expected := sample_head\<lparr>version := u ''1''\<rparr>\<rparr>"
  have "save_checks sample_env ?req sample_actor = Inr (logical_hash sample_env (save_request_json ?req))"
    by (simp add: save_checks_def sample_access_ok check_id_valid sample_valid_ids sample_versions)
  from save_conflict [OF _ _ this] show ?thesis
    by (simp add: sample_read sample_unused) (simp add: sample_head_def)
qed

text \<open>What a save that took effect did, for the properties that follow.\<close>

lemma save_took_effect:
  assumes first: "handle E t (CSave req) P = (r, P1)" and took_effect: "store P1 \<noteq> store P"
  obtains payload res where "save_checks E req P = Inr payload"
    "save_fresh E (new_first t) (new_second t) req payload (store P) = Inr (res, store P1)"
    "existing_receipt E (store P) (operation_namespace (sv_access req)) (sv_operation req) (u ''save'') payload = Inr None"
    "save_tx E (new_first t) (new_second t) req payload (store P) = Inr (res, store P1)"
    "\<forall>x. r = Inr x \<longrightarrow> x = RAck (ack_of req res)"
proof -
  let ?P = "save E t req P"
  have P1: "store P1 = store (snd ?P)" using first snd_fenced(1) [of RAck ?P] by simp
  obtain payload where checks: "save_checks E req P = Inr payload" and conn: "connected P"
    using took_effect P1 by (cases "save_checks E req P") (auto simp: save_def after_checks_def with_tx_def split: if_splits)
  obtain q D where run: "in_tx (tx t) (store P) (save_tx E (new_first t) (new_second t) req payload) = (q, D)"
    by (cases "in_tx (tx t) (store P) (save_tx E (new_first t) (new_second t) req payload)")
  have q: "?P = map_outcome (ack_of req) (q, P\<lparr>store := D\<rparr>)"
    using run conn by (simp add: save_def after_checks_def checks with_tx_def)
  then have D: "D = store P1" using P1 by simp
  from in_tx_cases [OF run] took_effect D obtain res
    where tx: "save_tx E (new_first t) (new_second t) req payload (store P) = Inr (res, store P1)" by metis
  have answer: "\<forall>x. r = Inr x \<longrightarrow> x = RAck (ack_of req res)"
    using run tx first q by (cases "tx t") (auto simp: in_tx_def D fenced_def map_outcome_def and_then_eq_Inr)
  from tx took_effect have none: "existing_receipt E (store P) (operation_namespace (sv_access req)) (sv_operation req) (u ''save'') payload
      = Inr None" and fresh: "save_fresh E (new_first t) (new_second t) req payload (store P) = Inr (res, store P1)"
    by (auto elim: save_tx_cases)
  show thesis by (rule that [OF checks fresh none tx answer])
qed

text \<open>
  C9: a save whose acknowledgement was lost can be repeated. Once a save has taken effect, whatever
  answer it got, the same request under any later lease of the project answers with the head that
  was stored then, and changes nothing, however the project went on in between.
\<close>

theorem save_retry:
  assumes codec: "codec_ok E" and first: "handle E t (CSave req) P = (r, P1)" and took_effect: "store P1 \<noteq> store P"
    and later: "runs E P1 cs P2" and lease: "check_access P2 a = Inr ()" and open_again: "connected P2" "tx t2 = Committed"
  shows "\<exists>res d. handle E t2 (CSave (req\<lparr>sv_access := a\<rparr>)) P2 = (Inr (RAck (ack_of (req\<lparr>sv_access := a\<rparr>) res)), P2) \<and>
    (\<forall>x. r = Inr x \<longrightarrow> x = RAck (ack_of req res)) \<and> saved_generation res = sv_generation req \<and>
    d \<in> set (documents (store P1)) \<and> res_head res = row_head d"
proof -
  from save_took_effect [OF first took_effect] obtain payload res where checks: "save_checks E req P = Inr payload"
    and fresh: "save_fresh E (new_first t) (new_second t) req payload (store P) = Inr (res, store P1)"
    and none: "existing_receipt E (store P) (operation_namespace (sv_access req)) (sv_operation req) (u ''save'') payload = Inr None"
    and tx: "save_tx E (new_first t) (new_second t) req payload (store P) = Inr (res, store P1)"
    and answer: "\<forall>x. r = Inr x \<longrightarrow> x = RAck (ack_of req res)" by blast
  have r2: "existing_receipt E (store P2) (operation_namespace (sv_access req)) (sv_operation req) (u ''save'') payload
      = Inr (Some res)"
  proof -
    have "tables_grow (store P1) (store P2)" using runs_grows [OF later] by (simp add: grows_def)
    moreover have "tables_grow (store P) (store P1)"
      using save_tx_safe [OF tx] by (simp add: safe_change_def grows_def)
    ultimately show ?thesis
      using save_fresh_head [OF fresh] by (meson replayed_receipt codec none tables_grow_trans)
  qed
  have id: "same_identity P P2"
    using handle_identity [of P E t "CSave req", unfolded first] runs_identity [OF later] by (simp add: same_identity_def)
  from checks have acc: "check_access P (sv_access req) = Inr ()" and payload: "payload = logical_hash E (save_request_json req)"
    and rest: "valid_id (sv_operation req)" "valid_id (document_id (sv_expected req))"
      "\<exists>v. parse_version (version (sv_expected req)) = Inr v" "\<exists>g. parse_version (sv_generation req) = Inr g"
    by (auto simp: save_checks_def and_then_eq_Inr)
  have same: "project_id a = project_id (sv_access req)" "operation_namespace a = operation_namespace (sv_access req)"
    using acc lease id by (auto simp: check_access_def same_identity_def split: if_splits)
  have c2: "save_checks E (req\<lparr>sv_access := a\<rparr>) P2 = Inr payload"
    using lease rest by (auto simp: save_checks_def check_id_valid payload save_request_lease [OF same])
  have t2: "save_tx E (new_first t2) (new_second t2) (req\<lparr>sv_access := a\<rparr>) payload (store P2) = Inr (res, store P2)"
    using r2 same by (simp add: save_tx_def)
  have "handle E t2 (CSave (req\<lparr>sv_access := a\<rparr>)) P2 = (Inr (RAck (ack_of (req\<lparr>sv_access := a\<rparr>) res)), P2)"
    using save_handled [OF c2 open_again t2] by simp
  with answer save_fresh_head [OF fresh] show ?thesis by blast
qed

text \<open>The lost acknowledgement of the witness: the commit took effect, the client saw an error and reconciled.\<close>

definition sample_payload :: ustr where
  "sample_payload = logical_hash sample_env (save_request_json (sample_save Undo))"

definition sample_locked :: actor where
  "sample_locked = sample_actor\<lparr>store := sample_undone [sample_receipt sample_payload], cur_access := None, needs_reopen := True\<rparr>"

definition sample_reconcile :: reconcile_request where
  "sample_reconcile = \<lparr>rc_project = u ''p'', rc_namespace = u ''ns'', rc_session = u ''s2'', rc_document = u ''doc'',
     rc_pending = [u ''op1'']\<rparr>"

definition sample_reconciled :: actor where
  "sample_reconciled = sample_locked\<lparr>cur_access := Some (sample_access ''s2'' ''l2''), renderer_session := Some (u ''s2''),
     retired_sessions := [u ''s1''], needs_reopen := False\<rparr>"

lemma sample_lost:
  "handle sample_env (sample_turn (CommitFailed True)) (CSave (sample_save Undo)) sample_actor = (Inl uncertain, sample_locked)"
  by (simp add: save_def after_checks_def sample_save_checks with_tx_def in_tx_def sample_undo_tx fenced_def map_outcome_def
      fence_uncertain_def sample_locked_def sample_payload_def uncertain_def)

lemma sample_reconcile_step: "\<exists>r. step sample_env sample_locked (CReconcile sample_reconcile) r sample_reconciled"
proof -
  let ?t = "sample_turn Committed"
  have "project_rows (store sample_locked) = Some (sample_project\<lparr>p_epoch := 6\<rparr>)"
    by (simp add: sample_locked_def sample_undone_def)
  then have "recover_connection ?t sample_locked = (Inr (), sample_locked\<lparr>needs_reopen := False\<rparr>)"
    by (simp add: recover_connection_def sample_locked_def sample_turn_def sample_project_def sample_info_def sample_actor_def)
  moreover have "attach ?t (u ''s2'') (sample_locked\<lparr>needs_reopen := False\<rparr>) = (Inr (sample_access ''s2'' ''l2''), sample_reconciled)"
    by (simp add: attach_def sample_locked_def sample_reconciled_def sample_valid_ids sample_access_def sample_info_def Let_def
        sample_actor_def)
  ultimately have "snd (handle sample_env ?t (CReconcile sample_reconcile) sample_locked) = sample_reconciled"
    by (simp add: reconcile_def after_checks_def sample_reconcile_def sample_locked_def sample_info_def check_id_valid sample_valid_ids)
  then have "handle sample_env ?t (CReconcile sample_reconcile) sample_locked =
      (fst (handle sample_env ?t (CReconcile sample_reconcile) sample_locked), sample_reconciled)"
    by (metis prod.collapse)
  then show ?thesis by (blast intro: step_turn)
qed

theorem save_retry_witness:
  "\<exists>res d. handle sample_env (sample_turn Committed) (CSave ((sample_save Undo)\<lparr>sv_access := sample_access ''s2'' ''l2''\<rparr>)) sample_reconciled =
      (Inr (RAck (ack_of ((sample_save Undo)\<lparr>sv_access := sample_access ''s2'' ''l2''\<rparr>) res)), sample_reconciled) \<and>
    saved_generation res = u ''1'' \<and> d \<in> set (documents (store sample_locked)) \<and> res_head res = row_head d"
proof -
  obtain r where "runs sample_env sample_locked [(CReconcile sample_reconcile, r)] sample_reconciled"
    using sample_reconcile_step by (blast intro: runs_step runs_none)
  moreover have "store sample_locked \<noteq> store sample_actor"
    by (simp add: sample_locked_def sample_undone_def sample_db_def sample_project_def)
  moreover have "check_access sample_reconciled (sample_access ''s2'' ''l2'') = Inr ()" "connected sample_reconciled"
    by (simp_all add: check_access_def sample_reconciled_def sample_locked_def sample_info_def)
  ultimately show ?thesis
    using save_retry [OF sample_codec sample_lost, of "[(CReconcile sample_reconcile, r)]" sample_reconciled
        "sample_access ''s2'' ''l2''" "sample_turn Committed"] by auto
qed

text \<open>
  An operation identity cannot be reused for another request: once a receipt is stored under it,
  a save whose payload or kind differs is refused, and changes nothing.
\<close>

theorem operation_reuse_refused:
  assumes "save_checks E req P = Inr payload" "connected P" "tx t \<noteq> BeginFailed"
    and "find_receipt (store P) (operation_namespace (sv_access req), sv_operation req) = Some row"
    and "c_kind row \<noteq> u ''save'' \<or> c_payload row \<noteq> payload"
  shows "handle E t (CSave req) P = (Inl reused, P)"
proof -
  have "save_tx E a b req payload (store P) = Inl reused" for a b
    using assms(4,5) by (simp add: save_tx_def existing_receipt_def)
  then show ?thesis
    using assms(1-3)
    by (simp add: save_def after_checks_def with_tx_def in_tx_err fenced_def map_outcome_def fence_uncertain_def reused_def)
qed

theorem operation_reuse_refused_witness:
  "handle sample_env (sample_turn Committed) (CSave (sample_save Typing))
     (sample_actor\<lparr>store := sample_undone [sample_receipt (u ''other'')]\<rparr>) =
   (Inl reused, sample_actor\<lparr>store := sample_undone [sample_receipt (u ''other'')]\<rparr>)"
proof -
  let ?P = "sample_actor\<lparr>store := sample_undone [sample_receipt (u ''other'')]\<rparr>"
  let ?payload = "logical_hash sample_env (save_request_json (sample_save Typing))"
  have "save_checks sample_env (sample_save Typing) ?P = Inr ?payload"
    by (simp add: save_checks_def check_access_def check_id_valid sample_valid_ids sample_versions sample_info_def)
  moreover have "valid_hash ?payload" by (simp add: logical_hash_def sha256_hex_valid sample_digest)
  then have "length (u ''other'') \<noteq> length ?payload" by (simp add: valid_hash_iff u_def)
  then have "u ''other'' \<noteq> ?payload" by (rule contrapos_nn) (rule arg_cong)
  moreover have "find_receipt (store ?P) (u ''ns'', u ''op1'') = Some (sample_receipt (u ''other''))"
    by (simp add: find_receipt_def sample_undone_def sample_receipt_def)
  ultimately show ?thesis
    using operation_reuse_refused [of sample_env "sample_save Typing" ?P ?payload "sample_turn Committed" "sample_receipt (u ''other'')"]
    by (simp add: sample_receipt_def)
qed

text \<open>
  Undo and redo lose nothing. When such a save has moved a document, both the replaced body and
  the written one are stored as revisions at their versions, the second a child of the first.
\<close>

theorem undo_keeps_both_bodies:
  assumes "db_ok E (store P)" and "handle E t (CSave req) P = (Inr (RAck ack), P1)"
    and "store P1 \<noteq> store P" and "sv_cause req \<noteq> Typing" and "ack_head ack \<noteq> sv_expected req"
  shows "\<exists>d q p valid. d \<in> set (documents (store P)) \<and> row_head d = sv_expected req \<and>
    q \<in> set (revisions (store P1)) \<and> r_document q = d_id d \<and> r_version q = d_version d \<and> r_body q = d_body d \<and>
    p \<in> set (revisions (store P1)) \<and> r_document p = d_id d \<and> r_parent p = Some (r_id q) \<and>
    ack_head ack = \<lparr>document_id = r_document p, version = show_int (r_version p), body_hash = r_hash p\<rparr> \<and>
    validate_snapshot_json E (json_text E (sv_body req)) = Inr valid \<and> r_body p = canonical_json valid"
proof -
  from save_took_effect [OF assms(2,3)] obtain payload res
    where fresh: "save_fresh E (new_first t) (new_second t) req payload (store P) = Inr (res, store P1)"
      and "\<forall>x. Inr (RAck ack) = Inr x \<longrightarrow> x = RAck (ack_of req res)" by blast
  then have ack: "ack_head ack = res_head res" by (simp add: ack_of_def)
  from fresh show ?thesis
  proof (rule save_fresh_cases)
    fix before v valid D1
    assume rd: "read_document E (store P) (document_id (sv_expected req)) = Inr before" "doc_head before = sv_expected req"
      and va: "validate_snapshot_json E (json_text E (sv_body req)) = Inr valid"
      and sb: "save_body E (new_first t) (new_second t) req before valid (store P) = Inr (res_head res, D1)"
      and ins: "insert_receipt E D1 (operation_namespace (sv_access req)) (sv_operation req) (u ''save'') payload res = Inr (store P1)"
    have rev: "revisions (store P1) = revisions D1" using insert_receipt_Inr [OF ins] by simp
    have "res_head res \<noteq> doc_head before" using assms(5) ack rd(2) by simp
    from save_body_undo [OF assms(1) rd(1) va sb assms(4) this] show ?thesis
      using va rd(2) unfolding ack rev by (smt (verit))
  qed
qed

theorem undo_keeps_both_bodies_witness:
  "\<exists>d q p valid. d \<in> set (documents sample_db) \<and> row_head d = sample_head \<and>
    q \<in> set sample_revisions \<and> r_document q = d_id d \<and> r_version q = d_version d \<and> r_body q = d_body d \<and>
    p \<in> set sample_revisions \<and> r_document p = d_id d \<and> r_parent p = Some (r_id q) \<and>
    res_head sample_undo_result = \<lparr>document_id = r_document p, version = show_int (r_version p), body_hash = r_hash p\<rparr> \<and>
    validate_snapshot_json sample_env (sample_text sample_edit) = Inr valid \<and> r_body p = canonical_json valid"
proof -
  have "sample_undone cs \<noteq> sample_db" for cs by (simp add: sample_undone_def sample_db_def sample_project_def)
  moreover have "res_head sample_undo_result \<noteq> sample_head"
    using sample_hashes by (simp add: sample_undo_result_def sample_head_def)
  ultimately show ?thesis
    using undo_keeps_both_bodies [OF _ sample_undo] by (simp add: sample_db_ok ack_of_def sample_text_def sample_undone_def)
qed

text \<open>
  C10: the invariant of the tables holds along every run of the command loop: bodies are canonical
  texts of well-formed documents under their own hashes, identities and versions are unique,
  revisions and checkpoint pointers agree with the documents they belong to.
\<close>

theorem runs_keep_tables_ok:
  assumes "runs E P cs P'" and "db_ok E (store P)"
  shows "db_ok E (store P')"
  using assms by (rule runs_db_ok)

lemma sample_run: "runs sample_env sample_actor [(CSave (sample_save Undo), Inr (RAck (ack_of (sample_save Undo) sample_undo_result)))]
    (sample_actor\<lparr>store := sample_undone [sample_receipt sample_payload]\<rparr>)"
  unfolding sample_payload_def by (rule runs_step [OF step_turn [OF sample_undo] runs_none])

theorem runs_keep_tables_ok_witness: "db_ok sample_env (sample_undone [sample_receipt sample_payload])"
  using runs_keep_tables_ok [OF sample_run] by (simp add: sample_db_ok)

text \<open>
  C11: nothing that was stored is lost or rewritten along a run: revisions and receipts are only
  appended to, documents stay with their role and kind, a version or metadata version never falls,
  a body or title changes only with it, and the source epoch moves whenever a source changes.
\<close>

theorem runs_only_grow:
  assumes "runs E P cs P'"
  shows "grows (store P) (store P')"
  using assms by (rule runs_grows)

theorem runs_only_grow_witness: "grows sample_db (sample_undone [sample_receipt sample_payload])"
  using runs_only_grow [OF sample_run] by simp

text \<open>
  C12: the check a backup makes of the stored receipts (\<open>validate_history_storage\<close>) succeeds after
  every run that started from a history in order: in particular every restore the actor has
  acknowledged still passes \<open>validate_restore_result\<close>.
\<close>

theorem runs_keep_history_valid:
  assumes "runs E P cs P'" and "codec_ok E" and "digest_ok E" and "valid_id (info_operation_namespace (info P))"
    and "db_ok E (store P)" and "validate_history_storage E (store P) = Inr ()"
  shows "validate_history_storage E (store P') = Inr ()"
  using assms runs_history_ok [OF assms(1-5)] by (simp add: history_ok_iff)

theorem runs_keep_history_valid_witness:
  "validate_history_storage sample_env (sample_undone [sample_receipt sample_payload]) = Inr ()"
  using runs_keep_history_valid [OF sample_run sample_codec sample_digest] sample_history_ok
  by (simp add: sample_db_ok history_ok_iff sample_info_def sample_valid_ids)

section \<open>Sessions\<close>

text \<open>
  C13: one writer at a time. Once another session has attached, the session it replaced is
  fenced out for good: whatever happens later, its commands that write answer with an error and
  change nothing, and it cannot attach again.
\<close>

theorem superseded_session_fenced:
  assumes "lease_ok P" and "renderer_session P = Some old" and "s \<noteq> old"
    and "attach t s P = (Inr lease, P1)" and "runs E P1 cs P2"
    and "writes c = Some a" and "session a = old"
  shows "(\<exists>e P3. handle E t2 c P2 = (Inl e, P3) \<and> store P3 = store P2) \<and> (\<exists>e. attach t2 old P2 = (Inl e, P2))"
proof -
  from assms(2-4) have "old \<in> set (retired_sessions P1)"
    by (auto simp: attach_def Let_def split: if_splits)
  moreover have "lease_ok P1" using attach_lease [of P t s] assms(1,4) by (simp add: lease_step_def)
  ultimately have "old \<in> set (retired_sessions P2)" "lease_ok P2"
    using runs_lease [OF assms(5)] by (auto simp: lease_step_def)
  with assms(6,7) show ?thesis
    using retired_no_access [of P2 a] retired_no_attach [of old P2] no_access_no_write [of c a P2] by blast
qed

theorem superseded_session_fenced_witness:
  "\<exists>P1. (\<exists>e P3. handle sample_env (sample_turn Committed) (CSave (sample_save Typing)) P1 = (Inl e, P3) \<and> store P3 = store P1) \<and>
    (\<exists>e. attach (sample_turn Committed) (u ''s1'') P1 = (Inl e, P1))"
proof -
  obtain lease P1 where at: "attach (sample_turn Committed) (u ''s2'') sample_actor = (Inr lease, P1)"
    by (simp add: attach_def sample_valid_ids Let_def)
  have "lease_ok sample_actor" by (simp add: lease_ok_def)
  from superseded_session_fenced [OF this _ _ at runs_none, of "u ''s1''" "CSave (sample_save Typing)" "sample_access ''s1'' ''l1''"
      sample_env "sample_turn Committed"]
  show ?thesis by (intro exI [of _ P1]) simp
qed

text \<open>
  C14: an uncertain outcome blocks. After a writing command answered \<open>UncertainOutcome\<close>, every
  command that writes fails and the tables stay as they are, until a client reconciles, attaches
  with a snapshot or asks for the project metadata: the three that reopen the store.
\<close>

theorem uncertain_outcome_blocks:
  assumes "handle E t c P = (Inl e, P1)" and "writes c \<noteq> None" and "code e = ''UncertainOutcome''"
    and "runs E P1 cs P2" and "\<forall>(c, r) \<in> set cs. \<not> recovers c"
  shows "store P2 = store P1 \<and> cur_access P2 = None \<and>
    (\<forall>(c, r) \<in> set cs. writes c \<noteq> None \<longrightarrow> (\<exists>e. r = Inl e))"
  using locked_runs [OF assms(4) uncertain_locks [OF assms(1-3)] assms(5)] by (simp add: locked_def)

theorem uncertain_outcome_blocks_witness:
  "\<exists>r P2. runs sample_env sample_locked [(CSave (sample_save Typing), r)] P2 \<and> store P2 = store sample_locked \<and> (\<exists>e. r = Inl e)"
proof -
  obtain r P2 where "handle sample_env (sample_turn Committed) (CSave (sample_save Typing)) sample_locked = (r, P2)"
    by fastforce
  then have run: "runs sample_env sample_locked [(CSave (sample_save Typing), r)] P2"
    by (blast intro: runs_step step_turn runs_none)
  with uncertain_outcome_blocks [OF sample_lost _ _ run] show ?thesis by (auto simp: uncertain_def)
qed

section \<open>Restore\<close>

lemma restore_ran:
  assumes "handle E t (CRestore req) P = (Inr (RRestored ack), P1)"
  obtains payload where "restore_tx E (new_first t) (new_second t) req payload (store P) = Inr (ack, store P1)"
proof -
  from assms obtain payload where "with_tx t (restore_tx E (new_first t) (new_second t) req payload) P = (Inr ack, P1)"
    by (cases "and_then (check_access P (rr_access req)) (\<lambda>_. restore_checks E req)")
      (auto simp: fenced_def map_outcome_def restore_revision_def after_checks_def and_then_eq_Inr fence_uncertain_def
        split: prod.splits sum.splits)
  then show thesis by (auto intro: that simp: with_tx_def in_tx_ok split: if_splits prod.splits)
qed

text \<open>
  C15: an acknowledged restore wrote exactly the selected revision's body one version up, and kept
  what it replaced: the receipt names a revision with the replaced body and, as its child, one with
  the restored body.
\<close>

theorem restore_keeps_replaced_body:
  assumes "db_ok E (store P)" and "handle E t (CRestore req) P = (Inr (RRestored ack), P1)" and "\<not> ra_already ack"
  shows "\<exists>x d src q p. restored (ra_result ack) = Some x \<and>
    d \<in> set (documents (store P)) \<and> row_head d = rr_expected req \<and>
    src \<in> set (revisions (store P)) \<and> r_id src = rr_revision req \<and> r_document src = d_id d \<and>
    q \<in> set (revisions (store P1)) \<and> r_id q = before_revision_id x \<and> r_body q = d_body d \<and> r_version q = d_version d \<and>
    p \<in> set (revisions (store P1)) \<and> r_id p = after_revision_id x \<and> r_body p = r_body src \<and> r_parent p = Some (r_id q) \<and>
    res_head (ra_result ack) = \<lparr>document_id = d_id d, version = show_int (d_version d + 1), body_hash = r_hash src\<rparr>"
proof -
  from restore_ran [OF assms(2)] obtain payload
    where "restore_tx E (new_first t) (new_second t) req payload (store P) = Inr (ack, store P1)" .
  then show ?thesis
  proof (cases rule: restore_tx_cases)
    case (replay result document)
    with assms(3) show ?thesis by simp
  next
    case (fresh res document)
    from fresh(2) show ?thesis
    proof (rule restore_fresh_cases)
      fix before source
      assume rd: "read_document E (store P) (document_id (rr_expected req)) = Inr before" "doc_head before = rr_expected req"
        and rs: "read_revision_checked E (store P) (document_id (rr_expected req)) (rr_revision req) = Inr source"
        and w: "restore_write E (new_first t) (new_second t) req payload before source (store P) = Inr (res, store P1)"
      from rs obtain s where s: "find_revision (store P) (rr_revision req) = Some s" "r_document s = document_id (rr_expected req)"
        "text_ok E (r_body s) (r_hash s)" "json_text E (rev_body source) = r_body s" "body_hash (rev_head source) = r_hash s"
        by (rule read_revision_ok) auto
      from s have src: "text_ok E (json_text E (rev_body source)) (body_hash (rev_head source))" by simp
      show ?thesis
      proof (rule restore_outcome [OF w assms(1) rd(1) src])
        fix d q p x
        assume d: "d \<in> set (documents (store P))" "d_id d = document_id (rr_expected req)" "reflects E d before"
          and x: "restored res = Some x"
            "res_head res = \<lparr>document_id = document_id (rr_expected req), version = show_int (d_version d + 1), body_hash = body_hash (rev_head source)\<rparr>"
          and q: "find_revision (store P1) (before_revision_id x) = Some q" "r_version q = d_version d" "r_body q = d_body d"
          and p: "find_revision (store P1) (after_revision_id x) = Some p" "r_body p = json_text E (rev_body source)"
            "r_parent p = Some (before_revision_id x)"
        have "s \<in> set (revisions (store P)) \<and> r_id s = rr_revision req"
          "q \<in> set (revisions (store P1)) \<and> r_id q = before_revision_id x"
          "p \<in> set (revisions (store P1)) \<and> r_id p = after_revision_id x"
          using s(1) q(1) p(1) find_SomeD by (fastforce simp: find_revision_def)+
        moreover have "row_head d = rr_expected req" using d(3) rd(2) by (simp add: reflects_def row_head_def)
        ultimately show ?thesis
          using d x q p s fresh(4)
          by (intro exI [of _ x] exI [of _ d] exI [of _ s] exI [of _ q] exI [of _ p]) simp
      qed
    qed
  qed
qed

lemma sample_restore_run:
  "\<exists>t ack P1. handle sample_env t (CRestore sample_restore) (sample_actor\<lparr>store := sample_undone [sample_receipt sample_payload]\<rparr>) =
    (Inr (RRestored ack), P1) \<and> \<not> ra_already ack"
proof -
  let ?P = "sample_actor\<lparr>store := sample_undone [sample_receipt sample_payload]\<rparr>"
  let ?t = "(sample_turn Committed)\<lparr>new_first := u ''r3'', new_second := u ''r4''\<rparr>"
  have ids: "valid_id (u ''op2'')" "valid_id (u ''r1'')" by code_simp+
  obtain payload where checks: "restore_checks sample_env sample_restore = Inr payload"
    by (simp add: restore_checks_def sample_restore_def check_id_valid ids sample_valid_ids sample_versions sample_four sample_hash_valid)
  obtain ack D where "restore_tx sample_env (u ''r3'') (u ''r4'') sample_restore payload (sample_undone [sample_receipt sample_payload]) = Inr (ack, D)"
    and new: "\<not> ra_already ack" using sample_restore_tx by blast
  moreover have "check_access ?P (rr_access sample_restore) = Inr ()"
    by (simp add: check_access_def sample_restore_def sample_info_def)
  ultimately have "handle sample_env ?t (CRestore sample_restore) ?P = (Inr (RRestored ack), ?P\<lparr>store := D\<rparr>)"
    by (simp add: restore_revision_def after_checks_def with_tx_def in_tx_def checks fenced_def map_outcome_def fence_uncertain_def)
  with new show ?thesis by blast
qed

theorem restore_keeps_replaced_body_witness:
  "\<exists>(ack :: restore_ack) (D :: db) x d src q p. restored (ra_result ack) = Some x \<and>
    d \<in> set (documents (sample_undone [sample_receipt sample_payload])) \<and> row_head d = rr_expected sample_restore \<and>
    src \<in> set sample_revisions \<and> r_id src = u ''r1'' \<and>
    q \<in> set (revisions D) \<and> r_id q = before_revision_id x \<and> r_body q = d_body d \<and>
    p \<in> set (revisions D) \<and> r_id p = after_revision_id x \<and> r_body p = r_body src \<and> r_parent p = Some (r_id q)"
proof -
  let ?P = "sample_actor\<lparr>store := sample_undone [sample_receipt sample_payload]\<rparr>"
  obtain t ack P1 where run: "handle sample_env t (CRestore sample_restore) ?P = (Inr (RRestored ack), P1)" "\<not> ra_already ack"
    using sample_restore_run by blast
  have "db_ok sample_env (store ?P)" using runs_db_ok [OF sample_run] by (simp add: sample_db_ok)
  from restore_keeps_replaced_body [OF this run] obtain x d src q p where
    "restored (ra_result ack) = Some x" "d \<in> set (documents (store ?P))" "row_head d = rr_expected sample_restore"
    "src \<in> set (revisions (store ?P))" "r_id src = rr_revision sample_restore"
    "q \<in> set (revisions (store P1))" "r_id q = before_revision_id x" "r_body q = d_body d"
    "p \<in> set (revisions (store P1))" "r_id p = after_revision_id x" "r_body p = r_body src" "r_parent p = Some (r_id q)"
    by blast
  then show ?thesis
    by (intro exI [of _ ack] exI [of _ "store P1"] exI [of _ x] exI [of _ d] exI [of _ src] exI [of _ q] exI [of _ p])
      (simp add: sample_restore_def sample_undone_def)
qed

end
