(* ===== verification/History_Properties.thy ===== *)
theory History_Properties
  imports Sample_Project
begin

text \<open>
  Paging through a document's history: consecutive pages, each asked for at the cursor of the one
  before, list the revisions newest first, without a gap or a repetition.
\<close>

section \<open>The whole list\<close>

definition revisions_before :: "db \<Rightarrow> ustr \<Rightarrow> int option \<Rightarrow> revision_row list" where
  "revisions_before D doc prior = rev (sort_key r_version
     (filter (\<lambda>r. r_document r = doc \<and> (case prior of None \<Rightarrow> True | Some v \<Rightarrow> r_version r < v)) (revisions D)))"

lemma in_revisions_before:
  "r \<in> set (revisions_before D doc prior) \<longleftrightarrow>
   r \<in> set (revisions D) \<and> r_document r = doc \<and> (\<forall>v. prior = Some v \<longrightarrow> r_version r < v)"
  by (auto simp: revisions_before_def split: option.splits)

lemma history_rows_take: "history_rows D doc prior n = take (n + 1) (revisions_before D doc prior)"
  by (simp add: history_rows_def revisions_before_def)

definition newest_first :: "revision_row list \<Rightarrow> bool" where
  "newest_first rs \<longleftrightarrow> sorted_wrt (\<lambda>r q. r_version q < r_version r) rs"

lemma revisions_before_sorted:
  assumes "keys_ok D"
  shows "newest_first (revisions_before D doc prior)"
proof -
  let ?rs = "filter (\<lambda>r. r_document r = doc \<and> (case prior of None \<Rightarrow> True | Some v \<Rightarrow> r_version r < v)) (revisions D)"
  have "distinct (map rev_key ?rs)" using assms by (simp add: keys_ok_def distinct_map_filter)
  then have "distinct (map r_version ?rs)"
    by (auto simp: distinct_map inj_on_def rev_key_def)
  then have "distinct (map r_version (sort_key r_version ?rs))" by (simp add: distinct_map)
  then have "sorted_wrt (<) (map r_version (sort_key r_version ?rs))" by (simp add: strict_sorted_iff)
  then show ?thesis
    by (simp add: newest_first_def revisions_before_def sorted_wrt_rev sorted_wrt_map)
qed

text \<open>Below the version of an entry lie exactly the entries after it.\<close>

lemma filter_below:
  "newest_first rs \<Longrightarrow> k < length rs \<Longrightarrow> filter (\<lambda>r. r_version r < r_version (rs ! k)) rs = drop (Suc k) rs"
proof (induction rs arbitrary: k)
  case (Cons r rs)
  show ?case
  proof (cases k)
    case 0
    with Cons.prems have "filter (\<lambda>q. r_version q < r_version r) rs = rs"
      by (simp add: newest_first_def filter_id_conv)
    with 0 show ?thesis by simp
  next
    case (Suc j)
    with Cons have "filter (\<lambda>q. r_version q < r_version (rs ! j)) rs = drop (Suc j) rs"
      by (simp add: newest_first_def)
    moreover have "rs ! j \<in> set rs" using Cons.prems(2) Suc by simp
    then have "\<not> r_version r < r_version (rs ! j)" using Cons.prems(1) by (auto simp: newest_first_def)
    ultimately show ?thesis using Suc by simp
  qed
qed simp

lemma revisions_before_cursor:
  assumes "keys_ok D" "k < length (revisions_before D doc prior)"
  shows "revisions_before D doc (Some (r_version (revisions_before D doc prior ! k))) = drop (Suc k) (revisions_before D doc prior)"
proof -
  let ?rs = "revisions_before D doc prior" and ?v = "r_version (revisions_before D doc prior ! k)"
  have "?rs ! k \<in> set ?rs" using assms(2) by simp
  then have "\<forall>v. prior = Some v \<longrightarrow> ?v < v" by (simp add: in_revisions_before)
  then have "revisions_before D doc (Some ?v) = filter (\<lambda>r. r_version r < ?v) ?rs"
    unfolding revisions_before_def rev_filter [symmetric] filter_sort filter_filter
    by (intro arg_cong [where f = rev] arg_cong [where f = "sort_key r_version"] filter_cong) (auto split: option.splits)
  with filter_below [OF revisions_before_sorted [OF assms(1)] assms(2)] show ?thesis by simp
qed

section \<open>Pages\<close>

lemma summaries:
  "try_map (summarize_row doc) rows = Inr items \<Longrightarrow>
   map sum_id items = map r_id rows \<and> map (\<lambda>i. version (sum_head i)) items = map (\<lambda>r. show_int (r_version r)) rows"
  by (induction rows arbitrary: items) (auto simp: and_then_eq_Inr summarize_row_def split: if_splits)

definition page_limit :: "nat \<Rightarrow> nat" where
  "page_limit n = (if n = 0 then DEFAULT_HISTORY_LIMIT else n)"

lemma page_content:
  assumes run: "list_document_history D doc bv n = Inr page"
  obtains prior where "transpose_opt (map_option parse_version bv) = Inr prior"
    "map sum_id (page_items page) = map r_id (take (page_limit n) (revisions_before D doc prior))"
    "next_before_version page = (if page_limit n < length (revisions_before D doc prior)
       then Some (show_int (r_version (revisions_before D doc prior ! (page_limit n - 1)))) else None)"
    "0 < page_limit n" "page_limit n \<le> MAX_HISTORY_LIMIT"
proof -
  let ?m = "page_limit n"
  from run obtain prior items where p: "transpose_opt (map_option parse_version bv) = Inr prior"
    and items: "try_map (summarize_row doc) (history_rows D doc prior ?m) = Inr items" and le: "?m \<le> MAX_HISTORY_LIMIT"
    and page: "page = (if ?m < length items
      then \<lparr>page_items = take ?m items, next_before_version = Some (version (sum_head (items ! (?m - 1))))\<rparr>
      else \<lparr>page_items = items, next_before_version = None\<rparr>)"
    unfolding list_document_history_def page_limit_def Let_def
    by (elim and_then_okE) (auto simp: and_then_eq_Inr split: if_splits)
  let ?rs = "revisions_before D doc prior"
  have pos: "0 < ?m" by (simp add: page_limit_def DEFAULT_HISTORY_LIMIT_def)
  note s = summaries [OF items]
  have len: "length items = min (?m + 1) (length ?rs)"
    using try_map_length [OF items] by (simp add: history_rows_take)
  have ids: "map sum_id items = map r_id (take (?m + 1) ?rs)" using s by (simp add: history_rows_take)
  have "map sum_id (page_items page) = map r_id (take ?m ?rs)"
  proof (cases "?m < length items")
    case True
    then have "map sum_id (page_items page) = take ?m (map sum_id items)" by (simp add: page take_map)
    also have "\<dots> = map r_id (take ?m ?rs)" by (simp add: ids take_map)
    finally show ?thesis .
  next
    case False
    with len have "length ?rs \<le> ?m" by simp
    with False ids show ?thesis by (simp add: page)
  qed
  moreover have "version (sum_head (items ! (?m - 1))) = show_int (r_version (?rs ! (?m - 1)))" if "?m < length items"
  proof -
    have "map (\<lambda>i. version (sum_head i)) items ! (?m - 1) = map (\<lambda>r. show_int (r_version r)) (take (?m + 1) ?rs) ! (?m - 1)"
      using s by (simp add: history_rows_take)
    with that len pos show ?thesis by simp
  qed
  ultimately show thesis
    using p le pos len by (intro that [of prior]) (auto simp: page)
qed

text \<open>
  C22: two consecutive pages of a history, the second asked for at the cursor of the first, together
  list the revisions of the document below the first cursor, newest first, each exactly once.
\<close>

theorem history_pages_continue:
  assumes "db_ok E D" and "list_document_history D doc bv n = Inr page"
    and "next_before_version page = Some cursor" and "list_document_history D doc (Some cursor) m = Inr page2"
  shows "\<exists>prior. transpose_opt (map_option parse_version bv) = Inr prior \<and> length (page_items page) = page_limit n \<and>
    map sum_id (page_items page) @ map sum_id (page_items page2) =
    map r_id (take (page_limit n + page_limit m) (revisions_before D doc prior))"
proof -
  obtain prior where p: "transpose_opt (map_option parse_version bv) = Inr prior"
    and ids: "map sum_id (page_items page) = map r_id (take (page_limit n) (revisions_before D doc prior))"
    and nxt: "next_before_version page = (if page_limit n < length (revisions_before D doc prior)
       then Some (show_int (r_version (revisions_before D doc prior ! (page_limit n - 1)))) else None)"
    and pos: "0 < page_limit n" by (rule page_content [OF assms(2)])
  let ?rs = "revisions_before D doc prior" and ?k = "page_limit n - 1"
  from nxt assms(3) have lt: "page_limit n < length ?rs" and c: "cursor = show_int (r_version (?rs ! ?k))"
    by (auto split: if_splits)
  have keys: "keys_ok D" using assms(1) by (simp add: db_ok_def)
  have "?rs ! ?k \<in> set ?rs" using lt by simp
  then have "?rs ! ?k \<in> set (revisions D)" by (simp add: in_revisions_before)
  then have "revision_row_ok E D (?rs ! ?k)" using assms(1) by (simp add: db_ok_def)
  then obtain d where "d \<in> set (documents D)" "r_version (?rs ! ?k) \<le> d_version d" "0 \<le> r_version (?rs ! ?k)"
    by (auto simp: revision_row_ok_def)
  then have "0 \<le> r_version (?rs ! ?k)" "r_version (?rs ! ?k) \<le> i64_max"
    using assms(1) by (auto simp: db_ok_def document_row_ok_def)
  then have pc: "parse_version cursor = Inr (r_version (?rs ! ?k))" by (simp add: c parse_version_show)
  obtain prior2 where "transpose_opt (map_option parse_version (Some cursor)) = Inr prior2"
    and ids2: "map sum_id (page_items page2) = map r_id (take (page_limit m) (revisions_before D doc prior2))"
    by (rule page_content [OF assms(4)])
  with pc have "prior2 = Some (r_version (?rs ! ?k))" by simp
  then have "revisions_before D doc prior2 = drop (page_limit n) ?rs"
    using revisions_before_cursor [OF keys, of ?k doc prior] lt pos by simp
  moreover have "length (page_items page) = page_limit n"
    using arg_cong [OF ids, of length] lt by simp
  ultimately show ?thesis
    using p ids ids2 by (intro exI [of _ prior]) (simp add: take_add)
qed

lemma sample_page:
  "list_document_history (sample_undone cs) (u ''doc'') None 1 =
    Inr \<lparr>page_items = [\<lparr>sum_id = u ''r2'', sum_head = \<lparr>document_id = u ''doc'', version = show_int 4,
        body_hash = sample_hash sample_edit\<rparr>, sum_reason = u ''afterUndoRedo''\<rparr>], next_before_version = Some (show_int 4)\<rparr>"
proof -
  have "valid_id (u ''r1'')" "valid_id (u ''r2'')" by code_simp+
  then show ?thesis
    by (simp add: list_document_history_def check_id_valid sample_valid_ids ensure_document_exists_def sample_undone_def sample_row_eq
        history_rows_def sample_revisions_def summarize_row_def sample_hash_valid MAX_HISTORY_LIMIT_def)
qed

lemma sample_next_page:
  "list_document_history (sample_undone cs) (u ''doc'') (Some (show_int 4)) 1 =
    Inr \<lparr>page_items = [\<lparr>sum_id = u ''r1'', sum_head = \<lparr>document_id = u ''doc'', version = show_int 3,
        body_hash = sample_hash sample_document\<rparr>, sum_reason = u ''beforeUndoRedo''\<rparr>], next_before_version = None\<rparr>"
proof -
  have "valid_id (u ''r1'')" "valid_id (u ''r2'')" by code_simp+
  then show ?thesis
    by (simp add: list_document_history_def check_id_valid sample_valid_ids ensure_document_exists_def sample_undone_def sample_row_eq
        history_rows_def sample_revisions_def summarize_row_def sample_hash_valid MAX_HISTORY_LIMIT_def sample_four)
qed

theorem history_pages_continue_witness:
  "\<exists>page2. list_document_history (sample_undone [sample_receipt (u ''x'')]) (u ''doc'') (Some (show_int 4)) 1 = Inr page2 \<and>
    [u ''r2''] @ map sum_id (page_items page2) =
    map r_id (take 2 (revisions_before (sample_undone [sample_receipt (u ''x'')]) (u ''doc'') None))"
proof -
  have "db_ok sample_env (sample_undone [sample_receipt (u ''x'')])"
    using save_tx_safe [OF sample_undo_tx] sample_db_ok by (simp add: safe_change_def)
  from history_pages_continue [OF this sample_page _ sample_next_page]
  have "map r_id (take 2 (revisions_before (sample_undone [sample_receipt (u ''x'')]) (u ''doc'') None)) = [u ''r2'', u ''r1'']"
    by (simp add: page_limit_def numeral_2_eq_2)
  then show ?thesis unfolding sample_next_page by simp
qed

end
