(* ===== verification/Adapter.thy ===== *)
theory Adapter
  imports Json
begin

text \<open>
  The provider boundary of crates/providers: the transport types of src/adapter.rs and the parts
  of src/openai_compatible.rs that do not depend on the network: the request body, the response
  parser of a complete answer and the field checks the streaming parser shares
  (\<open>parse_usage\<close>, \<open>validate_finish_reason\<close>, \<open>finish_reason_error\<close>, \<open>has_refusal\<close>,
  \<open>has_tool_call\<close>). \<open>String::from_utf8\<close> is \<open>utf8_decode\<close>, shown to accept exactly the encodings
  of scalar values.
\<close>

section \<open>Types\<close>

datatype message_role = RoleSystem | RoleDeveloper | RoleUser | RoleAssistant

fun role_as_str :: "message_role \<Rightarrow> ustr" where
  "role_as_str RoleSystem = u ''system''"
| "role_as_str RoleDeveloper = u ''developer''"
| "role_as_str RoleUser = u ''user''"
| "role_as_str RoleAssistant = u ''assistant''"

record chat_message =
  msg_role :: message_role
  msg_content :: ustr

datatype response_format = PlainText | JsonObject

record chat_request =
  req_model :: ustr
  req_messages :: "chat_message list"
  req_reasoning_effort :: "ustr option"
  req_service_tier :: "ustr option"
  req_response_format :: response_format
  req_max_output_tokens :: "32 word option"

record usage =
  input_tokens :: "u64 option"
  output_tokens :: "u64 option"
  total_tokens :: "u64 option"

definition default_usage :: usage where
  "default_usage = \<lparr>input_tokens = None, output_tokens = None, total_tokens = None\<rparr>"

record chat_response =
  chat_text :: ustr
  chat_model :: "ustr option"
  chat_finish_reason :: "ustr option"
  chat_usage :: usage

datatype stream_event =
    RoleEvent message_role
  | ContentDelta ustr
  | ReasoningDelta ustr
  | UsageEvent usage

datatype provider_error_kind =
    Configuration | Authentication | Http | Network | InvalidResponse | Protocol | LimitExceeded
  | Cancelled | Truncated | Refused | ToolCall | Incomplete

record provider_error =
  err_kind :: provider_error_kind
  err_status :: "16 word option"
  err_detail :: string
  partial_text :: ustr

type_synonym 'a provider_result = "provider_error + 'a"

definition perr :: "provider_error_kind \<Rightarrow> string \<Rightarrow> provider_error" where
  "perr k d = \<lparr>err_kind = k, err_status = None, err_detail = d, partial_text = []\<rparr>"

definition with_partial :: "ustr \<Rightarrow> provider_error \<Rightarrow> provider_error" where
  "with_partial t e = e\<lparr>partial_text := t\<rparr>"

definition with_status :: "16 word \<Rightarrow> provider_error \<Rightarrow> provider_error" where
  "with_status s e = e\<lparr>err_status := Some s\<rparr>"

lemma with_partial_twice [simp]: "with_partial t (with_partial s e) = with_partial t e"
  by (simp add: with_partial_def)

lemma partial_with_partial [simp]:
  "partial_text (with_partial t e) = t" "err_kind (with_partial t e) = err_kind e"
  by (simp_all add: with_partial_def)

lemma perr_sel [simp]: "err_kind (perr k d) = k" "partial_text (perr k d) = []"
  by (simp_all add: perr_def)

section \<open>Decoding UTF-8\<close>

function utf8_decode :: "nat list \<Rightarrow> ustr option" where
  "utf8_decode bs =
    (if bs = [] then Some []
     else let c = utf8_first bs in
       if valid_scalar c \<and> starts_with bs (utf8_char c)
       then map_option ((#) c) (utf8_decode (drop (length (utf8_char c)) bs))
       else None)"
  by pat_completeness auto

termination utf8_decode
proof (relation "measure length")
  fix bs :: "nat list" and c
  assume "\<not> bs = []"
  then show "(drop (length (utf8_char c)) bs, bs) \<in> measure length"
    using utf8_char_length_pos [of c] by (cases bs) auto
qed simp

declare utf8_decode.simps [simp del]

lemma utf8_decode_Nil [simp]: "utf8_decode [] = Some []"
  by (simp add: utf8_decode.simps)

lemma utf8_decode_char:
  "valid_scalar c \<Longrightarrow> utf8_decode (utf8_char c @ bs) = map_option ((#) c) (utf8_decode bs)"
  using utf8_char_length_pos [of c] by (subst utf8_decode.simps) (auto simp: Let_def utf8_first_encode)

lemma utf8_decode_bytes: "list_all valid_scalar s \<Longrightarrow> utf8_decode (bytes s) = Some s"
  by (induction s) (auto simp: utf8_decode_char)

lemma utf8_decode_Some: "utf8_decode bs = Some s \<Longrightarrow> bytes s = bs \<and> list_all valid_scalar s"
proof (induction bs arbitrary: s rule: utf8_decode.induct)
  case (1 bs)
  show ?case
  proof (cases "bs = []")
    case True
    with 1 show ?thesis by simp
  next
    case False
    define c where "c = utf8_first bs"
    have step: "utf8_decode bs = (if valid_scalar c \<and> starts_with bs (utf8_char c)
        then map_option ((#) c) (utf8_decode (drop (length (utf8_char c)) bs)) else None)"
      using False by (subst utf8_decode.simps) (simp add: c_def Let_def)
    from 1(2) have ok: "valid_scalar c \<and> starts_with bs (utf8_char c)"
      unfolding step by (rule contrapos_pp) auto
    with 1(2) obtain t where
      t: "s = c # t" "utf8_decode (drop (length (utf8_char c)) bs) = Some t"
      unfolding step by auto
    from ok obtain r where r: "bs = utf8_char c @ r" by (auto simp: starts_with_iff)
    from 1(1) [OF False c_def ok t(2)] ok t r show ?thesis by simp
  qed
qed

lemma utf8_decode_iff: "utf8_decode bs = Some s \<longleftrightarrow> bytes s = bs \<and> list_all valid_scalar s"
  using utf8_decode_Some utf8_decode_bytes by blast

text \<open>\<open>serde_json::from_slice\<close>: the same parser on the bytes of the text.\<close>

definition json_parse_bytes :: "env \<Rightarrow> nat list \<Rightarrow> json option" where
  "json_parse_bytes E bs = Option.bind (utf8_decode bs) (json_parse E)"

section \<open>Field checks\<close>

definition integer :: "jmap \<Rightarrow> ustr \<Rightarrow> u64 option provider_result" where
  "integer m k =
    (case map_of m k of
       None \<Rightarrow> Inr None
     | Some v \<Rightarrow> ok_or (perr InvalidResponse ''provider usage contains a non-integer counter'')
                   (map_option Some (as_u64 v)))"

definition parse_usage :: "json option \<Rightarrow> usage provider_result" where
  "parse_usage value =
    (case value of
       None \<Rightarrow> Inr default_usage
     | Some v \<Rightarrow>
         and_then (ok_or (perr InvalidResponse ''provider usage is not an object'') (as_obj v)) (\<lambda>m.
         and_then (integer m (u ''prompt_tokens'')) (\<lambda>i.
         and_then (integer m (u ''completion_tokens'')) (\<lambda>out.
         and_then (integer m (u ''total_tokens'')) (\<lambda>t.
           Inr \<lparr>input_tokens = i, output_tokens = out, total_tokens = t\<rparr>)))))"

fun validate_finish_reason :: "json option \<Rightarrow> ustr option provider_result" where
  "validate_finish_reason None = Inr None"
| "validate_finish_reason (Some JNull) = Inr None"
| "validate_finish_reason (Some (JStr reason)) = Inr (Some reason)"
| "validate_finish_reason (Some _) = Inl (perr Protocol ''provider finish reason was not a string'')"

definition finish_reason_error :: "ustr option \<Rightarrow> ustr \<Rightarrow> provider_error option" where
  "finish_reason_error reason partial =
    (case reason of
       None \<Rightarrow> None
     | Some r \<Rightarrow>
         if r = u ''stop'' then None
         else Some (with_partial partial
           (if r = u ''length'' \<or> r = u ''content_filter''
            then perr Incomplete ''provider stopped before completing a text response''
            else if r = u ''tool_calls'' \<or> r = u ''function_call''
            then perr ToolCall ''provider returned a tool call''
            else if r = u ''refusal'' then perr Refused ''provider refused the request''
            else perr Protocol ''provider returned an unsupported finish reason'')))"

fun has_refusal :: "json option \<Rightarrow> bool provider_result" where
  "has_refusal None = Inr False"
| "has_refusal (Some JNull) = Inr False"
| "has_refusal (Some (JStr s)) = Inr (s \<noteq> [])"
| "has_refusal (Some _) = Inl (perr Protocol ''provider refusal was not a string'')"

fun has_tool_call :: "json option \<Rightarrow> bool provider_result" where
  "has_tool_call None = Inr False"
| "has_tool_call (Some JNull) = Inr False"
| "has_tool_call (Some (JArr vs)) = Inr (vs \<noteq> [])"
| "has_tool_call (Some (JObj m)) = Inr (m \<noteq> [])"
| "has_tool_call (Some _) = Inl (perr Protocol ''provider tool call was not an object or array'')"

lemma finish_reason_error_None:
  "finish_reason_error r p = None \<longleftrightarrow> r = None \<or> r = Some (u ''stop'')"
  by (auto simp: finish_reason_error_def split: option.splits)

lemma finish_reason_error_partial: "finish_reason_error r p = Some e \<Longrightarrow> partial_text e = p"
  by (auto simp: finish_reason_error_def split: option.splits if_splits)

section \<open>A complete response\<close>

definition parse_chat_response :: "json \<Rightarrow> chat_response provider_result" where
  "parse_chat_response v =
    (if json_get v (u ''error'') \<noteq> None
     then Inl (perr Http ''provider returned an error envelope'')
     else
       and_then (ok_or (perr InvalidResponse ''provider response has no choices'')
                   (Option.bind (json_get v (u ''choices'')) as_arr)) (\<lambda>choices.
       and_then (ok_or (perr InvalidResponse ''provider returned no choices'')
                   (case choices of [] \<Rightarrow> None | c # _ \<Rightarrow> Some c)) (\<lambda>choice.
       and_then (ok_or (perr InvalidResponse ''provider choice has no message'')
                   (Option.bind (json_get choice (u ''message'')) as_obj)) (\<lambda>message.
       and_then (has_refusal (map_of message (u ''refusal''))) (\<lambda>refused.
       if refused then Inl (perr Refused ''provider refused the request'')
       else
       and_then (has_tool_call (map_of message (u ''tool_calls''))) (\<lambda>tool.
       and_then (if tool then Inr True else has_tool_call (map_of message (u ''function_call''))) (\<lambda>tool.
       if tool then Inl (perr ToolCall ''provider returned a tool call instead of text'')
       else
       and_then (ok_or (perr InvalidResponse ''provider message content is not text'')
                   (Option.bind (map_of message (u ''content'')) as_str)) (\<lambda>text.
       and_then (validate_finish_reason (json_get choice (u ''finish_reason''))) (\<lambda>reason.
       case finish_reason_error reason text of
         Some e \<Rightarrow> Inl e
       | None \<Rightarrow>
           if text = [] then Inl (perr InvalidResponse ''provider returned an empty assistant message'')
           else
             and_then (parse_usage (json_get v (u ''usage''))) (\<lambda>us.
             Inr \<lparr>chat_text = text, chat_model = Option.bind (json_get v (u ''model'')) as_str,
                  chat_finish_reason = reason, chat_usage = us\<rparr>))))))))))"

definition check_json_text :: "env \<Rightarrow> response_format \<Rightarrow> ustr \<Rightarrow> unit provider_result" where
  "check_json_text E fmt text =
    (if fmt = JsonObject then
       and_then (ok_or (with_partial text
           (perr InvalidResponse ''provider JSON response content was not valid JSON''))
           (json_parse E text)) (\<lambda>parsed.
       ensure (as_obj parsed \<noteq> None) (with_partial text
         (perr InvalidResponse ''provider JSON response content was not an object'')))
     else Inr ())"

definition parse_response :: "env \<Rightarrow> nat list \<Rightarrow> response_format \<Rightarrow> chat_response provider_result" where
  "parse_response E bs fmt =
    and_then (ok_or (perr InvalidResponse ''provider returned invalid JSON'') (json_parse_bytes E bs)) (\<lambda>v.
    and_then (parse_chat_response v) (\<lambda>r.
    and_then (check_json_text E fmt (chat_text r)) (\<lambda>_. Inr r)))"

section \<open>The request\<close>

definition message_value :: "chat_message \<Rightarrow> json" where
  "message_value m = JObj (obj_of [(u ''role'', JStr (role_as_str (msg_role m))),
     (u ''content'', JStr (msg_content m))])"

definition opt_entry :: "string \<Rightarrow> ('a \<Rightarrow> json) \<Rightarrow> 'a option \<Rightarrow> (ustr \<times> json) list" where
  "opt_entry k f m = (case m of None \<Rightarrow> [] | Some x \<Rightarrow> [(u k, f x)])"

definition request_value :: "chat_request \<Rightarrow> bool \<Rightarrow> json" where
  "request_value r stream = JObj (obj_of
     ([(u ''model'', JStr (req_model r)), (u ''messages'', JArr (map message_value (req_messages r))),
       (u ''stream'', JBool stream)]
      @ opt_entry ''reasoning_effort'' JStr (req_reasoning_effort r)
      @ opt_entry ''service_tier'' JStr (req_service_tier r)
      @ opt_entry ''max_completion_tokens'' (\<lambda>n. JNum (PosInt (ucast n))) (req_max_output_tokens r)
      @ (if req_response_format r = JsonObject
         then [(u ''response_format'', JObj [(u ''type'', JStr (u ''json_object''))])] else [])))"

definition request_body :: "env \<Rightarrow> nat \<Rightarrow> chat_request \<Rightarrow> bool \<Rightarrow> nat list provider_result" where
  "request_body E max_bytes r stream =
    (if trim (req_model r) = [] then Inl (perr Configuration ''model must not be empty'')
     else if req_messages r = [] then Inl (perr Configuration ''messages must not be empty'')
     else let bs = bytes (json_text E (request_value r stream)) in
       if max_bytes < length bs then Inl (perr LimitExceeded ''request exceeds configured body limit'')
       else Inr bs)"

definition status_error :: "16 word \<Rightarrow> provider_error" where
  "status_error s = with_status s
     (perr (if s = 401 \<or> s = 403 then Authentication else Http) ''provider rejected the request'')"

definition is_success :: "16 word \<Rightarrow> bool" where
  "is_success s \<longleftrightarrow> 200 \<le> s \<and> s < 300"

lemma status_error_partial [simp]: "partial_text (status_error s) = []"
  by (simp add: status_error_def with_status_def perr_def)

text \<open>
  One wait for the next piece of the body: bytes, a transport failure or the user's cancellation.
  The end of the list is the end of the body.
\<close>

datatype poll = Chunk "nat list" | ReadFailed | CancelSeen

fun read_bounded :: "nat \<Rightarrow> nat list \<Rightarrow> poll list \<Rightarrow> nat list provider_result" where
  "read_bounded max_bytes bs [] = Inr bs"
| "read_bounded max_bytes bs (CancelSeen # _) = Inl (perr Cancelled ''request cancelled'')"
| "read_bounded max_bytes bs (ReadFailed # _) =
     Inl (perr Network ''provider response could not be read'')"
| "read_bounded max_bytes bs (Chunk c # ps) =
     (if max_bytes - length bs < length c
      then Inl (perr LimitExceeded ''provider response exceeds configured body limit'')
      else read_bounded max_bytes (bs @ c) ps)"

text \<open>\<open>complete_async\<close> from the response headers on.\<close>

definition complete_response ::
  "env \<Rightarrow> nat \<Rightarrow> response_format \<Rightarrow> 16 word \<Rightarrow> poll list \<Rightarrow> chat_response provider_result" where
  "complete_response E max_bytes fmt http_status polls =
    (if \<not> is_success http_status then Inl (status_error http_status)
     else and_then (read_bounded max_bytes [] polls) (\<lambda>bs. parse_response E bs fmt))"

definition parse_models :: "env \<Rightarrow> nat list \<Rightarrow> ustr list provider_result" where
  "parse_models E bs =
    and_then (ok_or (perr InvalidResponse ''provider returned invalid model JSON'') (json_parse_bytes E bs)) (\<lambda>v.
    and_then (ok_or (perr InvalidResponse ''provider model response has no data array'')
        (Option.bind (json_get v (u ''data'')) as_arr)) (\<lambda>data.
    try_map (\<lambda>item. ok_or (perr InvalidResponse ''provider model entry has no id'')
        (Option.bind (json_get item (u ''id'')) as_str)) data))"

lemma read_bounded_ok:
  "read_bounded n bs ps = Inr r \<Longrightarrow> length bs \<le> n \<Longrightarrow> length r \<le> n"
  by (induction n bs ps rule: read_bounded.induct) (auto split: if_splits)

lemma read_bounded_chunks:
  "length (bs @ concat cs) \<le> n \<Longrightarrow> read_bounded n bs (map Chunk cs) = Inr (bs @ concat cs)"
  by (induction cs arbitrary: bs) auto

lemma parse_chat_response_ok:
  assumes "parse_chat_response v = Inr r"
  shows "chat_text r \<noteq> []" and "chat_finish_reason r \<in> {None, Some (u ''stop'')}"
  using assms unfolding parse_chat_response_def
  by (auto simp: and_then_eq_Inr finish_reason_error_None split: if_splits option.splits)

end
