(* ===== verification/Sse.thy ===== *)
theory Sse
  imports Adapter
begin

text \<open>
  The streaming parser \<open>SseParser\<close> of crates/providers/src/openai_compatible.rs and the loop of
  \<open>stream_response_async\<close> around it. A method is a step on the parser's state that also returns
  the events it passed to \<open>on_event\<close>, in order: on an error the state and the events reached so
  far remain, as they do in the code, which reads the text delivered so far from the failed
  parser. The waits for the network are the list of \<open>poll\<close>s.
\<close>

section \<open>State and steps\<close>

record sse =
  sse_buffer :: "nat list"
  sse_event_data :: "ustr list"
  sse_total_bytes :: nat
  sse_max_line_bytes :: nat
  sse_done :: bool
  sse_text :: ustr
  sse_model :: "ustr option"
  sse_finish_reason :: "ustr option"
  sse_usage :: "usage option"
  sse_saw_choice :: bool

definition sse_new :: "nat \<Rightarrow> sse" where
  "sse_new max_line_bytes =
    \<lparr>sse_buffer = [], sse_event_data = [], sse_total_bytes = 0, sse_max_line_bytes = max_line_bytes,
     sse_done = False, sse_text = [], sse_model = None, sse_finish_reason = None, sse_usage = None,
     sse_saw_choice = False\<rparr>"

type_synonym 'a sse_step = "sse \<Rightarrow> 'a provider_result \<times> sse \<times> stream_event list"

definition ret :: "'a \<Rightarrow> 'a sse_step" where
  "ret x p = (Inr x, p, [])"

definition lift_result :: "'a provider_result \<Rightarrow> 'a sse_step" where
  "lift_result r p = (r, p, [])"

definition modify :: "(sse \<Rightarrow> sse) \<Rightarrow> unit sse_step" where
  "modify f p = (Inr (), f p, [])"

definition emit :: "stream_event \<Rightarrow> unit sse_step" where
  "emit e p = (Inr (), p, [e])"

definition inspect :: "(sse \<Rightarrow> 'a sse_step) \<Rightarrow> 'a sse_step" where
  "inspect f p = f p p"

definition bind_step :: "'a sse_step \<Rightarrow> ('a \<Rightarrow> 'b sse_step) \<Rightarrow> 'b sse_step" where
  "bind_step m f p =
    (case m p of (Inl e, q, out) \<Rightarrow> (Inl e, q, out)
     | (Inr x, q, out) \<Rightarrow> (case f x q of (r, q', out') \<Rightarrow> (r, q', out @ out')))"

abbreviation seq_step :: "unit sse_step \<Rightarrow> 'b sse_step \<Rightarrow> 'b sse_step" where
  "seq_step m n \<equiv> bind_step m (\<lambda>_. n)"

abbreviation fail_step :: "provider_error \<Rightarrow> 'a sse_step" where
  "fail_step e \<equiv> lift_result (Inl e)"

section \<open>One event\<close>

definition push_content :: "ustr \<Rightarrow> unit sse_step" where
  "push_content s = seq_step (modify (\<lambda>p. p\<lparr>sse_text := sse_text p @ s\<rparr>)) (emit (ContentDelta s))"

definition role_of :: "ustr \<Rightarrow> message_role provider_result" where
  "role_of r =
    (if r = u ''system'' then Inr RoleSystem
     else if r = u ''developer'' then Inr RoleDeveloper
     else if r = u ''user'' then Inr RoleUser
     else if r = u ''assistant'' then Inr RoleAssistant
     else Inl (perr Protocol ''provider returned an unsupported message role''))"

definition on_role :: "jmap \<Rightarrow> unit sse_step" where
  "on_role delta =
    (case map_of delta (u ''role'') of
       None \<Rightarrow> ret ()
     | Some v \<Rightarrow>
         bind_step (lift_result (ok_or (perr Protocol ''provider role was not a string'') (as_str v))) (\<lambda>r.
         bind_step (lift_result (role_of r)) (\<lambda>role. emit (RoleEvent role))))"

definition on_content :: "jmap \<Rightarrow> unit sse_step" where
  "on_content delta =
    (case map_of delta (u ''content'') of
       None \<Rightarrow> ret ()
     | Some v \<Rightarrow>
         if v = JNull then ret ()
         else bind_step (lift_result (ok_or (perr Protocol ''provider content delta was not a string'')
                (as_str v))) push_content)"

definition on_reasoning :: "ustr \<Rightarrow> jmap \<Rightarrow> unit sse_step" where
  "on_reasoning key delta =
    (case map_of delta key of
       None \<Rightarrow> ret ()
     | Some v \<Rightarrow>
         if v = JNull then ret ()
         else bind_step (lift_result (ok_or (perr Protocol ''provider reasoning delta was not a string'')
                (as_str v))) (\<lambda>s. emit (ReasoningDelta s)))"

definition on_finish_reason :: "ustr option \<Rightarrow> unit sse_step" where
  "on_finish_reason reason =
    (case reason of
       None \<Rightarrow> ret ()
     | Some r \<Rightarrow> inspect (\<lambda>p.
         case finish_reason_error (Some r) (sse_text p) of
           Some e \<Rightarrow> fail_step e
         | None \<Rightarrow> modify (\<lambda>p. p\<lparr>sse_finish_reason := Some r\<rparr>)))"

definition on_delta :: "ustr option \<Rightarrow> jmap \<Rightarrow> unit sse_step" where
  "on_delta reason delta =
    bind_step (lift_result (has_refusal (map_of delta (u ''refusal'')))) (\<lambda>refused.
    if refused then inspect (\<lambda>p. fail_step (with_partial (sse_text p)
      (perr Refused ''provider refused the request'')))
    else
    bind_step (lift_result (has_tool_call (map_of delta (u ''tool_calls'')))) (\<lambda>tool.
    bind_step (if tool then ret True else lift_result (has_tool_call (map_of delta (u ''function_call'')))) (\<lambda>tool.
    if tool then inspect (\<lambda>p. fail_step (with_partial (sse_text p)
      (perr ToolCall ''provider returned a tool call instead of text'')))
    else
    seq_step (on_role delta)
    (seq_step (on_content delta)
    (seq_step (on_reasoning (u ''reasoning'') delta)
    (seq_step (on_reasoning (u ''reasoning_content'') delta)
    (on_finish_reason reason)))))))"

definition on_choice :: "jmap \<Rightarrow> unit sse_step" where
  "on_choice choice =
    seq_step (modify (\<lambda>p. p\<lparr>sse_saw_choice := True\<rparr>))
    (bind_step (lift_result (validate_finish_reason (map_of choice (u ''finish_reason'')))) (\<lambda>reason.
    bind_step (lift_result (ok_or (perr Protocol ''provider stream choice has no delta'')
      (map_of choice (u ''delta'')))) (\<lambda>delta.
    bind_step (lift_result (ok_or (perr Protocol ''provider stream delta was not an object'')
      (as_obj delta))) (on_delta reason))))"

definition or_usage :: "string \<Rightarrow> unit sse_step" where
  "or_usage d = inspect (\<lambda>p. if sse_usage p \<noteq> None then ret () else fail_step (perr Protocol d))"

definition on_choices :: "json option \<Rightarrow> unit sse_step" where
  "on_choices choices_value =
    (case choices_value of
       None \<Rightarrow> or_usage ''provider stream event has no choices array''
     | Some cv \<Rightarrow>
         bind_step (lift_result (ok_or (perr Protocol ''provider stream choices was not an array'')
           (as_arr cv))) (\<lambda>choices.
         case choices of
           [] \<Rightarrow> or_usage ''provider stream event has no choice''
         | choice # _ \<Rightarrow>
             bind_step (lift_result (ok_or (perr Protocol ''provider stream choice was not an object'')
               (as_obj choice))) on_choice))"

definition on_usage :: "json option \<Rightarrow> unit sse_step" where
  "on_usage us =
    (case us of
       None \<Rightarrow> ret ()
     | Some v \<Rightarrow> bind_step (lift_result (parse_usage (Some v))) (\<lambda>parsed.
         seq_step (modify (\<lambda>p. p\<lparr>sse_usage := Some parsed\<rparr>)) (emit (UsageEvent parsed))))"

definition on_model :: "json option \<Rightarrow> unit sse_step" where
  "on_model m =
    (case Option.bind m as_str of
       None \<Rightarrow> ret ()
     | Some s \<Rightarrow> modify (\<lambda>p. p\<lparr>sse_model := Some s\<rparr>))"

definition on_value :: "json \<Rightarrow> unit sse_step" where
  "on_value v =
    (if json_get v (u ''error'') \<noteq> None
     then fail_step (perr Http ''provider returned an error envelope'')
     else
       seq_step (on_model (json_get v (u ''model'')))
       (seq_step (on_usage (json_get v (u ''usage'')))
       (on_choices (json_get v (u ''choices'')))))"

definition on_data :: "env \<Rightarrow> ustr \<Rightarrow> unit sse_step" where
  "on_data E data =
    (if data = u ''[DONE]'' then modify (\<lambda>p. p\<lparr>sse_done := True\<rparr>)
     else bind_step (lift_result (ok_or (perr Protocol ''provider SSE data was not valid JSON'')
            (json_parse E data))) on_value)"

definition dispatch :: "env \<Rightarrow> unit sse_step" where
  "dispatch E = inspect (\<lambda>p.
    if sse_event_data p = [] then ret ()
    else
      seq_step (modify (\<lambda>p. p\<lparr>sse_event_data := []\<rparr>))
      (on_data E (join_str [10] (sse_event_data p))))"

section \<open>Lines\<close>

definition strip_prefix :: "ustr \<Rightarrow> ustr \<Rightarrow> ustr option" where
  "strip_prefix p s = (if starts_with s p then Some (drop (length p) s) else None)"

definition strip_cr :: "ustr \<Rightarrow> ustr" where
  "strip_cr s = (if s \<noteq> [] \<and> last s = 13 then butlast s else s)"

definition strip_space :: "ustr \<Rightarrow> ustr" where
  "strip_space s = (case strip_prefix [32] s of None \<Rightarrow> s | Some r \<Rightarrow> r)"

definition decode_line :: "nat list \<Rightarrow> ustr sse_step" where
  "decode_line line = lift_result
    (ok_or (perr Protocol ''provider SSE was not UTF-8'') (map_option strip_cr (utf8_decode line)))"

definition push_data :: "ustr \<Rightarrow> unit sse_step" where
  "push_data line =
    (case strip_prefix (u ''data:'') line of
       None \<Rightarrow> ret ()
     | Some d \<Rightarrow> modify (\<lambda>p. p\<lparr>sse_event_data := sse_event_data p @ [strip_space d]\<rparr>))"

definition line_too_long :: provider_error where
  "line_too_long = perr LimitExceeded ''SSE line exceeds configured limit''"

text \<open>One line of the loop of \<open>feed\<close>, without its line feed.\<close>

definition on_line :: "env \<Rightarrow> nat list \<Rightarrow> unit sse_step" where
  "on_line E line = inspect (\<lambda>p.
    if sse_max_line_bytes p < length line then fail_step line_too_long
    else
      bind_step (decode_line line) (\<lambda>s.
      if s = [] then dispatch E else push_data s))"

fun split_line :: "nat list \<Rightarrow> (nat list \<times> nat list) option" where
  "split_line [] = None"
| "split_line (b # bs) =
     (if b = 10 then Some ([], bs)
      else map_option (map_prod ((#) b) id) (split_line bs))"

lemma split_line_length: "split_line bs = Some (line, rest) \<Longrightarrow> length rest < length bs"
  by (induction bs arbitrary: line) (auto split: if_splits)

function feed_lines :: "env \<Rightarrow> nat list \<Rightarrow> unit sse_step" where
  "feed_lines E bs p =
    (case split_line bs of
       None \<Rightarrow>
         (if sse_max_line_bytes p < length bs then fail_step line_too_long (p\<lparr>sse_buffer := bs\<rparr>)
          else ret () (p\<lparr>sse_buffer := bs\<rparr>))
     | Some (line, rest) \<Rightarrow>
         bind_step (on_line E line) (\<lambda>_ q. if sse_done q then ret () q else feed_lines E rest q)
           (p\<lparr>sse_buffer := rest\<rparr>))"
  by pat_completeness auto

termination
  by (relation "measure (\<lambda>(E, bs, p). length bs)") (auto dest: split_line_length)

declare feed_lines.simps [simp del]

definition feed :: "env \<Rightarrow> nat list \<Rightarrow> unit sse_step" where
  "feed E bs = inspect (\<lambda>p. if sse_done p then ret () else feed_lines E (sse_buffer p @ bs))"

definition finish_line :: "unit sse_step" where
  "finish_line = inspect (\<lambda>p.
    if sse_buffer p = [] then ret ()
    else if sse_max_line_bytes p < length (sse_buffer p) then fail_step line_too_long
    else
      seq_step (modify (\<lambda>p. p\<lparr>sse_buffer := []\<rparr>))
      (bind_step (decode_line (sse_buffer p)) push_data))"

definition finish :: "env \<Rightarrow> unit sse_step" where
  "finish E = inspect (\<lambda>p. if sse_done p then ret () else seq_step finish_line (dispatch E))"

section \<open>The stream\<close>

definition usize_max :: nat where
  "usize_max = 2 ^ 64 - 1"

definition count_bytes :: "nat \<Rightarrow> unit sse_step" where
  "count_bytes n = modify (\<lambda>p. p\<lparr>sse_total_bytes := min usize_max (sse_total_bytes p + n)\<rparr>)"

text \<open>Every error of the loop carries the text of the parser at that point.\<close>

definition keep_text :: "'a sse_step \<Rightarrow> 'a sse_step" where
  "keep_text m p = (case m p of (r, q, out) \<Rightarrow> (map_err (with_partial (sse_text q)) r, q, out))"

fun stream_loop :: "env \<Rightarrow> nat \<Rightarrow> poll list \<Rightarrow> unit sse_step" where
  "stream_loop E max_bytes [] p = ret () p"
| "stream_loop E max_bytes (w # ws) p =
     (if sse_done p then ret () p
      else case w of
        CancelSeen \<Rightarrow> keep_text (fail_step (perr Cancelled ''request cancelled'')) p
      | ReadFailed \<Rightarrow> keep_text (fail_step (perr Network ''provider stream could not be read'')) p
      | Chunk c \<Rightarrow>
          seq_step (count_bytes (length c))
            (seq_step (inspect (\<lambda>p. if max_bytes < sse_total_bytes p
                then keep_text (fail_step
                  (perr LimitExceeded ''provider stream exceeds configured body limit''))
                else keep_text (feed E c)))
              (stream_loop E max_bytes ws)) p)"

definition stream_end :: "env \<Rightarrow> response_format \<Rightarrow> chat_response sse_step" where
  "stream_end E fmt =
    seq_step (keep_text (finish E))
    (keep_text (inspect (\<lambda>p.
      if \<not> sse_done p then fail_step (perr Truncated ''provider stream ended before [DONE]'')
      else if \<not> sse_saw_choice p \<or> sse_text p = []
      then fail_step (perr InvalidResponse ''provider stream completed without assistant text'')
      else bind_step (lift_result (check_json_text E fmt (sse_text p))) (\<lambda>_.
        ret \<lparr>chat_text = sse_text p, chat_model = sse_model p,
             chat_finish_reason = sse_finish_reason p,
             chat_usage = (case sse_usage p of None \<Rightarrow> default_usage | Some us \<Rightarrow> us)\<rparr>))))"

definition stream_response ::
  "env \<Rightarrow> nat \<Rightarrow> nat \<Rightarrow> response_format \<Rightarrow> 16 word \<Rightarrow> poll list \<Rightarrow>
   chat_response provider_result \<times> stream_event list" where
  "stream_response E max_bytes max_line fmt http_status polls =
    (if \<not> is_success http_status then (Inl (status_error http_status), [])
     else case seq_step (stream_loop E max_bytes polls) (stream_end E fmt) (sse_new max_line) of
       (r, p, out) \<Rightarrow> (r, out))"

end
