(* ===== verification/Sse_Proofs.thy ===== *)
theory Sse_Proofs
  imports Sse
begin

text \<open>
  Reasoning about the streaming parser. A relation between the state before, the events emitted
  and the state after that is reflexive and transitive is kept by a whole method as soon as each
  field update and each emitted event keeps it (locales \<open>step_relation\<close> to
  \<open>stream_relation\<close>, one per layer of the parser); the interpretations give the delivered text and the untouched fields.
  \<open>frame\<close> says that handling an event neither reads nor writes the byte buffer, which gives
  \<open>feed_lines_append\<close>: feeding more bytes is feeding them afterwards.
\<close>

section \<open>Relations kept by a step\<close>

definition keeps :: "(sse \<Rightarrow> stream_event list \<Rightarrow> sse \<Rightarrow> bool) \<Rightarrow> 'a sse_step \<Rightarrow> bool" where
  "keeps R m \<longleftrightarrow> (\<forall>p r q out. m p = (r, q, out) \<longrightarrow> R p out q)"

lemma keepsI: "(\<And>p r q out. m p = (r, q, out) \<Longrightarrow> R p out q) \<Longrightarrow> keeps R m"
  by (simp add: keeps_def)

lemma keepsD: "keeps R m \<Longrightarrow> m p = (r, q, out) \<Longrightarrow> R p out q"
  by (simp add: keeps_def)

lemma bind_step_cases:
  assumes "bind_step m f p = (r, q, out)"
  obtains e where "m p = (Inl e, q, out)" "r = Inl e"
  | x s out1 out2 where "m p = (Inr x, s, out1)" "f x s = (r, q, out2)" "out = out1 @ out2"
  using assms by (auto simp: bind_step_def split: prod.splits sum.splits)

lemma bind_step_Inl: "m p = (Inl e, q, out) \<Longrightarrow> bind_step m f p = (Inl e, q, out)"
  by (simp add: bind_step_def)

lemma bind_step_Inr:
  "m p = (Inr x, q, out) \<Longrightarrow> bind_step m f p = (case f x q of (r, q', out') \<Rightarrow> (r, q', out @ out'))"
  by (simp add: bind_step_def)

lemma step_simps [simp]:
  "ret x p = (Inr x, p, [])"
  "lift_result r p = (r, p, [])"
  "modify g p = (Inr (), g p, [])"
  "emit e p = (Inr (), p, [e])"
  "inspect h p = h p p"
  by (simp_all add: ret_def lift_result_def modify_def emit_def inspect_def)

lemma bind_step_simps [simp]:
  "bind_step (ret x) f p = f x p"
  "bind_step (lift_result (Inr x)) f p = f x p"
  "bind_step (lift_result (Inl e)) f p = (Inl e, p, [])"
  "bind_step (modify g) k p = k () (g p)"
  "bind_step (emit ev) k p = (case k () p of (r, q, out) \<Rightarrow> (r, q, ev # out))"
  "bind_step (inspect h) f p = bind_step (h p) f p"
  by (simp_all add: bind_step_def split: prod.splits)

lemma bind_step_assoc: "bind_step (bind_step m f) g p = bind_step m (\<lambda>x. bind_step (f x) g) p"
  by (auto simp: bind_step_def split: prod.splits sum.splits)

locale step_relation =
  fixes R :: "sse \<Rightarrow> stream_event list \<Rightarrow> sse \<Rightarrow> bool"
  assumes R_refl: "R p [] p"
    and R_trans: "R p out q \<Longrightarrow> R q out' q' \<Longrightarrow> R p (out @ out') q'"
begin

lemma keeps_pure: "keeps R (ret x)" "keeps R (lift_result r)"
  by (auto simp: keeps_def R_refl)

lemma keeps_bind: "keeps R m \<Longrightarrow> (\<And>x. keeps R (f x)) \<Longrightarrow> keeps R (bind_step m f)"
  by (rule keepsI, erule bind_step_cases) (auto intro: R_trans dest: keepsD)

lemma keeps_inspect: "(\<And>p. keeps R (h p)) \<Longrightarrow> keeps R (inspect h)"
  by (auto simp: keeps_def)

lemma keeps_keep_text: "keeps R m \<Longrightarrow> keeps R (keep_text m)"
  by (auto simp: keeps_def keep_text_def split: prod.splits)

lemma keeps_after: "R p0 out1 p \<Longrightarrow> m p = (r, q, out2) \<Longrightarrow> keeps R m \<Longrightarrow> R p0 (out1 @ out2) q"
  by (blast intro: R_trans dest: keepsD)

lemmas keeps_rules = keeps_pure keeps_bind keeps_inspect keeps_keep_text

end

text \<open>Relations kept by the handling of one JSON value.\<close>

locale value_relation = step_relation +
  assumes at_choice: "R p [] (p\<lparr>sse_saw_choice := True\<rparr>)"
    and at_model: "R p [] (p\<lparr>sse_model := Some s\<rparr>)"
    and at_finish: "R p [] (p\<lparr>sse_finish_reason := Some (u ''stop'')\<rparr>)"
    and at_usage: "R p [UsageEvent us] (p\<lparr>sse_usage := Some us\<rparr>)"
    and at_content: "R p [ContentDelta s] (p\<lparr>sse_text := sse_text p @ s\<rparr>)"
    and at_role: "R p [RoleEvent ro] p"
    and at_reasoning: "R p [ReasoningDelta s] p"
begin

lemma keeps_push_content: "keeps R (push_content s)"
  by (auto simp: keeps_def push_content_def at_content)

lemma keeps_on_usage: "keeps R (on_usage us)"
proof -
  have "keeps R (seq_step (modify (sse_usage_update (\<lambda>_. Some v))) (emit (UsageEvent v)))" for v
    by (auto simp: keeps_def at_usage)
  then show ?thesis
    by (cases us) (auto simp: on_usage_def intro: keeps_pure keeps_bind)
qed

lemma keeps_updates:
  "keeps R (modify (sse_saw_choice_update (\<lambda>_. True)))"
  "keeps R (modify (sse_model_update (\<lambda>_. Some s)))"
  "keeps R (modify (sse_finish_reason_update (\<lambda>_. Some (u ''stop''))))"
  "keeps R (emit (RoleEvent ro))"
  "keeps R (emit (ReasoningDelta s))"
  by (auto simp: keeps_def at_choice at_model at_finish at_role at_reasoning)

lemmas event_rules = keeps_rules keeps_updates keeps_push_content keeps_on_usage

lemma keeps_on_finish_reason: "keeps R (on_finish_reason reason)"
  unfolding on_finish_reason_def
  by (auto intro!: event_rules dest!: iffD1 [OF finish_reason_error_None] split: option.splits)

lemma keeps_fields: "keeps R (on_role delta)" "keeps R (on_content delta)" "keeps R (on_reasoning k delta)"
  unfolding on_role_def on_content_def on_reasoning_def
  by (cases "map_of delta (u ''role'')"; cases "map_of delta (u ''content'')"; cases "map_of delta k";
      auto intro!: event_rules)+

lemma keeps_if: "keeps R m \<Longrightarrow> keeps R n \<Longrightarrow> keeps R (if b then m else n)"
  by simp

lemma keeps_on_delta: "keeps R (on_delta reason delta)"
  unfolding on_delta_def by (intro keeps_if event_rules keeps_fields keeps_on_finish_reason)

lemma keeps_on_choices: "keeps R (on_choices cv)"
  unfolding on_choices_def on_choice_def or_usage_def
  by (auto intro!: event_rules keeps_on_delta split: option.splits list.splits)

lemma keeps_on_value: "keeps R (on_value v)"
  unfolding on_value_def on_model_def
  by (auto intro!: event_rules keeps_on_choices split: option.splits)

end

text \<open>Relations kept by the handling of one event.\<close>

locale event_relation = value_relation +
  assumes at_done: "R p [] (p\<lparr>sse_done := True\<rparr>)"
begin

lemma keeps_on_data: "keeps R (on_data E d)"
proof -
  have "keeps R (modify (sse_done_update (\<lambda>_. True)))" by (auto simp: keeps_def at_done)
  then show ?thesis unfolding on_data_def by (auto intro!: event_rules keeps_on_value)
qed

end

text \<open>Relations kept by one line.\<close>

locale line_relation = event_relation +
  assumes at_data: "R p [] (p\<lparr>sse_event_data := d\<rparr>)"
begin

lemma keeps_dispatch: "keeps R (dispatch E)"
proof -
  have "keeps R (modify (sse_event_data_update (\<lambda>_. [])))" by (auto simp: keeps_def at_data)
  then show ?thesis unfolding dispatch_def by (auto intro!: event_rules keeps_on_data)
qed

lemma keeps_push_data: "keeps R (push_data s)"
proof -
  have "keeps R (modify (\<lambda>p. p\<lparr>sse_event_data := sse_event_data p @ [d]\<rparr>))" for d
    by (auto simp: keeps_def at_data)
  then show ?thesis by (auto simp: push_data_def intro!: event_rules split: option.splits)
qed

lemma keeps_on_line: "keeps R (on_line E line)"
  unfolding on_line_def decode_line_def by (auto intro!: event_rules keeps_dispatch keeps_push_data)

end

text \<open>Relations kept by the whole parser.\<close>

locale stream_relation = line_relation +
  assumes at_buffer: "R p [] (p\<lparr>sse_buffer := bs\<rparr>)"
    and at_total: "R p [] (p\<lparr>sse_total_bytes := n\<rparr>)"
begin

lemma keeps_feed_lines: "feed_lines E bs p = (r, q, out) \<Longrightarrow> R p out q"
proof (induction E bs p arbitrary: r q out rule: feed_lines.induct)
  case (1 E bs p)
  show ?case
  proof (cases "split_line bs")
    case None
    with 1(2) show ?thesis by (subst (asm) feed_lines.simps) (auto simp: at_buffer split: if_splits)
  next
    case (Some lr)
    obtain line rest where lr: "split_line bs = Some (line, rest)" using Some by (cases lr) auto
    let ?p = "p\<lparr>sse_buffer := rest\<rparr>"
    have buf: "R p [] ?p" by (rule at_buffer)
    from 1(2) have run: "bind_step (on_line E line) (\<lambda>_ q. if sse_done q then ret () q else feed_lines E rest q) ?p = (r, q, out)"
      by (subst (asm) feed_lines.simps) (simp add: lr)
    then show ?thesis
    proof (cases rule: bind_step_cases)
      case (1 e)
      then have "R ?p out q" by (intro keepsD [OF keeps_on_line])
      then show ?thesis using R_trans [OF buf] by simp
    next
      case (2 x s out1 out2)
      from 2(1) have "R ?p out1 s" by (rule keepsD [OF keeps_on_line])
      then have "R p out1 s" using R_trans [OF buf] by simp
      moreover have "R s out2 q"
      proof (cases "sse_done s")
        case True
        with 2 show ?thesis by (simp add: R_refl)
      next
        case False
        with 2(2) have "feed_lines E rest s = (r, q, out2)" by simp
        from "1.IH" [OF lr refl False this] show ?thesis .
      qed
      ultimately show ?thesis using 2(3) by (simp add: R_trans)
    qed
  qed
qed

lemma keeps_feed: "keeps R (feed E bs)"
proof -
  have "keeps R (feed_lines E c)" for c by (rule keepsI) (rule keeps_feed_lines)
  then show ?thesis unfolding feed_def by (auto intro!: event_rules)
qed

lemma keeps_finish: "keeps R (finish E)"
proof -
  have "keeps R (modify (sse_buffer_update (\<lambda>_. [])))" by (auto simp: keeps_def at_buffer)
  then show ?thesis unfolding finish_def finish_line_def decode_line_def
    by (auto intro!: event_rules keeps_dispatch keeps_push_data)
qed

lemma keeps_count_bytes: "keeps R (count_bytes n)"
  by (auto simp: keeps_def count_bytes_def at_total)

lemma keeps_stream_loop: "stream_loop E m ws p = (r, q, out) \<Longrightarrow> R p out q"
proof (induction ws arbitrary: p r q out)
  case (Cons w ws)
  have "keeps R (stream_loop E m ws)" by (rule keepsI) (rule Cons.IH)
  then have chunk: "keeps R (seq_step (count_bytes (length c))
      (seq_step (inspect (\<lambda>p. if m < sse_total_bytes p then keep_text (fail_step err) else keep_text (feed E c)))
        (stream_loop E m ws)))" for c err
    by (auto intro!: event_rules keeps_feed keeps_count_bytes)
  show ?case
  proof (cases w)
    case (Chunk c)
    with Cons.prems show ?thesis
      by (auto simp: R_refl simp del: bind_step_simps step_simps split: if_splits
          intro: keepsD [OF chunk])
        (simp add: R_refl)
  qed (use Cons.prems in \<open>auto simp: R_refl keep_text_def split: if_splits\<close>)
qed (simp add: R_refl)

lemma keeps_stream_end: "keeps R (stream_end E fmt)"
  unfolding stream_end_def by (auto intro!: event_rules keeps_finish)

end


section \<open>What is delivered and what is left alone\<close>

fun content :: "stream_event list \<Rightarrow> ustr" where
  "content [] = []"
| "content (ContentDelta s # es) = s @ content es"
| "content (_ # es) = content es"

lemma content_append [simp]: "content (es @ fs) = content es @ content fs"
  by (induction es rule: content.induct) auto

definition text_log :: "sse \<Rightarrow> stream_event list \<Rightarrow> sse \<Rightarrow> bool" where
  "text_log p out q \<longleftrightarrow> sse_text q = sse_text p @ content out"

interpretation delivered: stream_relation text_log
  by unfold_locales (auto simp: text_log_def)

definition same_frame :: "sse \<Rightarrow> stream_event list \<Rightarrow> sse \<Rightarrow> bool" where
  "same_frame p out q \<longleftrightarrow> sse_buffer q = sse_buffer p \<and> sse_total_bytes q = sse_total_bytes p
     \<and> sse_max_line_bytes q = sse_max_line_bytes p"

interpretation wire: line_relation same_frame
  by unfold_locales (auto simp: same_frame_def)

definition same_limit :: "sse \<Rightarrow> stream_event list \<Rightarrow> sse \<Rightarrow> bool" where
  "same_limit p out q \<longleftrightarrow> sse_max_line_bytes q = sse_max_line_bytes p"

interpretation limit: stream_relation same_limit
  by unfold_locales (auto simp: same_limit_def)

text \<open>Handling the data of an event leaves the line fields alone.\<close>

definition same_lines :: "sse \<Rightarrow> stream_event list \<Rightarrow> sse \<Rightarrow> bool" where
  "same_lines p out q \<longleftrightarrow> sse_event_data q = sse_event_data p \<and> same_frame p out q"

interpretation event_data: event_relation same_lines
  by unfold_locales (auto simp: same_lines_def same_frame_def)

text \<open>Only the \<open>[DONE]\<close> event finishes the stream.\<close>

definition same_done :: "sse \<Rightarrow> stream_event list \<Rightarrow> sse \<Rightarrow> bool" where
  "same_done p out q \<longleftrightarrow> sse_done q = sse_done p"

interpretation open_stream: value_relation same_done
  by unfold_locales (auto simp: same_done_def)

text \<open>A stored terminal reason is \<open>stop\<close>; the stored usage is the one reported last.\<close>

definition good_reason :: "sse \<Rightarrow> stream_event list \<Rightarrow> sse \<Rightarrow> bool" where
  "good_reason p out q \<longleftrightarrow> sse_finish_reason q = sse_finish_reason p \<or> sse_finish_reason q = Some (u ''stop'')"

interpretation terminal: stream_relation good_reason
  by unfold_locales (auto simp: good_reason_def)

fun last_usage :: "usage option \<Rightarrow> stream_event list \<Rightarrow> usage option" where
  "last_usage us [] = us"
| "last_usage us (UsageEvent v # es) = last_usage (Some v) es"
| "last_usage us (_ # es) = last_usage us es"

lemma last_usage_append [simp]: "last_usage us (es @ fs) = last_usage (last_usage us es) fs"
  by (induction us es rule: last_usage.induct) auto

definition usage_log :: "sse \<Rightarrow> stream_event list \<Rightarrow> sse \<Rightarrow> bool" where
  "usage_log p out q \<longleftrightarrow> sse_usage q = last_usage (sse_usage p) out"

interpretation reported: stream_relation usage_log
  by unfold_locales (auto simp: usage_log_def)

section \<open>Handling an event does not look at the bytes\<close>

definition frame :: "'a sse_step \<Rightarrow> bool" where
  "frame m \<longleftrightarrow> (\<forall>p b n. m (p\<lparr>sse_buffer := b, sse_total_bytes := n\<rparr>) =
     (case m p of (r, q, out) \<Rightarrow> (r, q\<lparr>sse_buffer := b, sse_total_bytes := n\<rparr>, out)))"

named_theorems frame_intro \<open>steps that do not look at the bytes\<close>

lemma frameD_both: "frame m \<Longrightarrow> m p = (r, q, out) \<Longrightarrow>
    m (p\<lparr>sse_buffer := b, sse_total_bytes := n\<rparr>) = (r, q\<lparr>sse_buffer := b, sse_total_bytes := n\<rparr>, out)"
  by (simp add: frame_def)

lemma frame_unchanged:
  assumes "frame m" and "m p = (r, q, out)"
  shows "sse_buffer q = sse_buffer p" "sse_total_bytes q = sse_total_bytes p"
proof -
  have "q = q\<lparr>sse_buffer := sse_buffer p, sse_total_bytes := sse_total_bytes p\<rparr>"
    using frameD_both [OF assms, where b = "sse_buffer p" and n = "sse_total_bytes p"] assms(2) by simp
  then show "sse_buffer q = sse_buffer p" "sse_total_bytes q = sse_total_bytes p"
    by (metis sse.select_convs(1) sse.surjective sse.update_convs(1,3),
        metis sse.select_convs(3) sse.surjective sse.update_convs(3))
qed

lemma frame_total: "frame m \<Longrightarrow> m p = (r, q, out) \<Longrightarrow>
    m (p\<lparr>sse_total_bytes := n\<rparr>) = (r, q\<lparr>sse_total_bytes := n\<rparr>, out)"
  using frameD_both [where p = p and b = "sse_buffer p" and n = n] frame_unchanged(1) by fastforce

lemma frameD: "frame m \<Longrightarrow> m p = (r, q, out) \<Longrightarrow> m (p\<lparr>sse_buffer := b\<rparr>) = (r, q\<lparr>sse_buffer := b\<rparr>, out)"
  using frameD_both [where p = p and b = b and n = "sse_total_bytes p"] frame_unchanged(2) by fastforce

lemma frame_basic [frame_intro]:
  "frame (ret x)" "frame (lift_result r)" "frame (emit e)"
  by (auto simp: frame_def)

lemma frame_bind [frame_intro]: "frame m \<Longrightarrow> (\<And>x. frame (f x)) \<Longrightarrow> frame (bind_step m f)"
  by (auto simp: frame_def bind_step_def split: prod.splits sum.splits)

lemma frame_inspect: "(\<And>p b n. h (p\<lparr>sse_buffer := b, sse_total_bytes := n\<rparr>) = h p) \<Longrightarrow> (\<And>p. frame (h p)) \<Longrightarrow> frame (inspect h)"
  by (auto simp: frame_def)

lemma frame_modify [frame_intro]:
  "frame (modify (sse_event_data_update f0))" "frame (modify (sse_done_update f1))"
  "frame (modify (sse_saw_choice_update f2))" "frame (modify (sse_model_update f3))"
  "frame (modify (sse_finish_reason_update f4))" "frame (modify (sse_usage_update f5))"
  "frame (modify (\<lambda>p. p\<lparr>sse_text := sse_text p @ s\<rparr>))"
  "frame (modify (\<lambda>p. p\<lparr>sse_event_data := sse_event_data p @ [d]\<rparr>))"
  by (auto simp: frame_def)

lemma frame_on_field [frame_intro]:
  "frame (on_role delta)" "frame (on_content delta)" "frame (on_reasoning k delta)"
  unfolding on_role_def on_content_def on_reasoning_def push_content_def
  by (cases "map_of delta (u ''role'')"; cases "map_of delta (u ''content'')"; cases "map_of delta k";
      simp add: frame_intro)+

lemma frame_on_finish_reason [frame_intro]: "frame (on_finish_reason reason)"
  unfolding on_finish_reason_def
  by (cases reason) (auto intro!: frame_intro frame_inspect split: option.splits)

lemma frame_fail_text [frame_intro]: "frame (inspect (\<lambda>p. fail_step (with_partial (sse_text p) e)))"
  by (simp add: frame_def)

lemma frame_if [frame_intro]: "frame m \<Longrightarrow> frame n \<Longrightarrow> frame (if b then m else n)"
  by simp

lemma frame_on_delta: "frame (on_delta reason delta)"
  unfolding on_delta_def by (intro frame_intro)

lemma frame_on_choices: "frame (on_choices cv)"
  unfolding on_choices_def on_choice_def or_usage_def
  by (auto intro!: frame_intro frame_inspect frame_on_delta split: option.splits list.splits)

lemma frame_on_data: "frame (on_data E d)"
  unfolding on_data_def on_value_def on_model_def on_usage_def
  by (auto intro!: frame_intro frame_on_choices split: option.splits)

lemma frame_on_line: "frame (on_line E line)"
  unfolding on_line_def decode_line_def push_data_def dispatch_def
  by (auto intro!: frame_intro frame_inspect frame_on_data split: option.splits)

section \<open>Feeding more bytes\<close>

lemma split_line_append:
  "split_line (bs @ cs) =
    (case split_line bs of
       Some (line, rest) \<Rightarrow> Some (line, rest @ cs)
     | None \<Rightarrow> (case split_line cs of None \<Rightarrow> None | Some (line, rest) \<Rightarrow> Some (bs @ line, rest)))"
  by (induction bs) (auto split: option.splits)

text \<open>
  After a successful call the parser waits for a line feed within the limit, or is done.
\<close>

definition settled :: "sse \<Rightarrow> bool" where
  "settled p \<longleftrightarrow> sse_done p \<or> (split_line (sse_buffer p) = None \<and> length (sse_buffer p) \<le> sse_max_line_bytes p)"

lemma feed_lines_None: "split_line bs = None \<Longrightarrow>
    feed_lines E bs p = (if sse_max_line_bytes p < length bs then (Inl line_too_long, p\<lparr>sse_buffer := bs\<rparr>, [])
      else (Inr (), p\<lparr>sse_buffer := bs\<rparr>, []))"
  by (subst feed_lines.simps) simp

lemma feed_lines_Some: "split_line bs = Some (line, rest) \<Longrightarrow>
    feed_lines E bs p = bind_step (on_line E line)
      (\<lambda>_ q. if sse_done q then ret () q else feed_lines E rest q) (p\<lparr>sse_buffer := rest\<rparr>)"
  by (subst feed_lines.simps) simp

lemma feed_lines_cases:
  assumes "feed_lines E bs p = (r, q, out)"
  obtains (short) "split_line bs = None" "length bs \<le> sse_max_line_bytes p" "r = Inr ()"
      "q = p\<lparr>sse_buffer := bs\<rparr>" "out = []"
  | (long) "split_line bs = None" "sse_max_line_bytes p < length bs" "r = Inl line_too_long"
      "q = p\<lparr>sse_buffer := bs\<rparr>" "out = []"
  | (bad_line) line rest e where "split_line bs = Some (line, rest)" "r = Inl e"
      "on_line E line (p\<lparr>sse_buffer := rest\<rparr>) = (Inl e, q, out)"
  | (last_line) line rest where "split_line bs = Some (line, rest)" "r = Inr ()" "sse_done q"
      "on_line E line (p\<lparr>sse_buffer := rest\<rparr>) = (Inr (), q, out)"
  | (next_line) line rest s out1 out2 where "split_line bs = Some (line, rest)"
      "on_line E line (p\<lparr>sse_buffer := rest\<rparr>) = (Inr (), s, out1)" "\<not> sse_done s"
      "feed_lines E rest s = (r, q, out2)" "out = out1 @ out2"
proof (cases "split_line bs")
  case None
  with assms short long show ?thesis by (auto simp: feed_lines_None split: if_splits)
next
  case (Some lr)
  obtain line rest where lr: "split_line bs = Some (line, rest)" using Some by (cases lr) auto
  with assms have "bind_step (on_line E line) (\<lambda>_ q. if sse_done q then ret () q else feed_lines E rest q)
      (p\<lparr>sse_buffer := rest\<rparr>) = (r, q, out)"
    by (simp add: feed_lines_Some)
  then show ?thesis
    by (rule bind_step_cases) (use lr bad_line last_line next_line in \<open>auto split: if_splits\<close>)
qed

lemma feed_lines_old_buffer [simp]: "feed_lines E bs (p\<lparr>sse_buffer := b\<rparr>) = feed_lines E bs p"
  by (subst (1 2) feed_lines.simps) (simp split: option.splits)

lemma feed_lines_settled: "feed_lines E bs p = (Inr (), q, out) \<Longrightarrow> settled q"
proof (induction E bs p arbitrary: q out rule: feed_lines.induct)
  case (1 E bs p)
  from 1(2) show ?case
  proof (cases rule: feed_lines_cases)
    case (next_line line rest s out1 out2)
    from 1(1) [OF this(1) refl this(3,4)] show ?thesis .
  qed (auto simp: settled_def)
qed

lemma on_line_too_long: "sse_max_line_bytes p < length line \<Longrightarrow> on_line E line p = (Inl line_too_long, p, [])"
  by (simp add: on_line_def)

text \<open>
  What a call reports about a first part of the bytes is what it reports about all of them, when
  it fails or finishes; otherwise the rest is fed to the state it leaves.
\<close>

lemma feed_lines_append_stop:
  assumes "feed_lines E bs p = (r, q, out)" and "\<not> sse_done p" and "r \<noteq> Inr () \<or> sse_done q"
  shows "\<exists>b. feed_lines E (bs @ cs) p = (r, q\<lparr>sse_buffer := b\<rparr>, out)"
  using assms
proof (induction E bs p arbitrary: r q out rule: feed_lines.induct)
  case (1 E bs p)
  from 1(2) show ?case
  proof (cases rule: feed_lines_cases)
    case short
    with 1(3,4) show ?thesis by simp
  next
    case long
    then have "\<exists>b. feed_lines E (bs @ cs) p = (Inl line_too_long, p\<lparr>sse_buffer := b\<rparr>, [])"
      by (cases "split_line cs")
        (auto simp: feed_lines_None feed_lines_Some split_line_append on_line_too_long bind_step_def)
    with long show ?thesis by simp
  next
    case (bad_line line rest e)
    then have "on_line E line (p\<lparr>sse_buffer := rest @ cs\<rparr>) = (Inl e, q\<lparr>sse_buffer := rest @ cs\<rparr>, out)"
      using frameD [OF frame_on_line bad_line(3), of "rest @ cs"] by simp
    with bad_line show ?thesis
      by (auto simp: feed_lines_Some split_line_append bind_step_Inl)
  next
    case (last_line line rest)
    then have "on_line E line (p\<lparr>sse_buffer := rest @ cs\<rparr>) = (Inr (), q\<lparr>sse_buffer := rest @ cs\<rparr>, out)"
      using frameD [OF frame_on_line last_line(4), of "rest @ cs"] by simp
    with last_line show ?thesis
      by (auto simp: feed_lines_Some split_line_append bind_step_Inr)
  next
    case (next_line line rest s out1 out2)
    from 1(1) [OF next_line(1) refl next_line(3) next_line(4) next_line(3) 1(4)]
    obtain b where b: "feed_lines E (rest @ cs) s = (r, q\<lparr>sse_buffer := b\<rparr>, out2)" ..
    have "on_line E line (p\<lparr>sse_buffer := rest @ cs\<rparr>) = (Inr (), s\<lparr>sse_buffer := rest @ cs\<rparr>, out1)"
      using frameD [OF frame_on_line next_line(2), of "rest @ cs"] by simp
    with next_line b show ?thesis
      by (auto simp: feed_lines_Some split_line_append bind_step_Inr)
  qed
qed

lemma feed_lines_append:
  assumes "feed_lines E bs p = (Inr (), q, out)" and "\<not> sse_done q"
  shows "feed_lines E (bs @ cs) p = (case feed_lines E (sse_buffer q @ cs) q of (r, q', out') \<Rightarrow> (r, q', out @ out'))"
  using assms
proof (induction E bs p arbitrary: q out rule: feed_lines.induct)
  case (1 E bs p)
  from 1(2) show ?case
  proof (cases rule: feed_lines_cases)
    case (next_line line rest s out1 out2)
    from 1(1) [OF next_line(1) refl next_line(3) next_line(4) 1(3)]
    have IH: "feed_lines E (rest @ cs) s
        = (case feed_lines E (sse_buffer q @ cs) q of (r, q', out') \<Rightarrow> (r, q', out2 @ out'))" .
    have "on_line E line (p\<lparr>sse_buffer := rest @ cs\<rparr>) = (Inr (), s\<lparr>sse_buffer := rest @ cs\<rparr>, out1)"
      using frameD [OF frame_on_line next_line(2), of "rest @ cs"] by simp
    with next_line IH show ?thesis
      by (auto simp: feed_lines_Some split_line_append bind_step_Inr split: prod.splits)
  qed (use 1(3) in \<open>auto split: prod.splits\<close>)
qed

lemma feed_lines_total:
  "feed_lines E bs p = (r, q, out) \<Longrightarrow>
   feed_lines E bs (p\<lparr>sse_total_bytes := n\<rparr>) = (r, q\<lparr>sse_total_bytes := n\<rparr>, out)"
proof (induction E bs p arbitrary: r q out rule: feed_lines.induct)
  case (1 E bs p)
  have on_line: "on_line E line (p\<lparr>sse_total_bytes := n, sse_buffer := rest\<rparr>) = (r', s\<lparr>sse_total_bytes := n\<rparr>, out')"
    if "on_line E line (p\<lparr>sse_buffer := rest\<rparr>) = (r', s, out')" for line rest r' s out'
  proof -
    have "p\<lparr>sse_total_bytes := n, sse_buffer := rest\<rparr> = p\<lparr>sse_buffer := rest, sse_total_bytes := n\<rparr>" by simp
    with frame_total [OF frame_on_line that, of n] show ?thesis by (simp only:)
  qed
  from 1(2) show ?case
  proof (cases rule: feed_lines_cases)
    case (bad_line line rest e)
    with on_line [OF bad_line(3)] show ?thesis by (simp add: feed_lines_Some bind_step_Inl)
  next
    case (last_line line rest)
    with on_line [OF last_line(4)] show ?thesis by (simp add: feed_lines_Some bind_step_Inr)
  next
    case (next_line line rest s out1 out2)
    have "feed_lines E rest (s\<lparr>sse_total_bytes := n\<rparr>) = (r, q\<lparr>sse_total_bytes := n\<rparr>, out2)"
      by (rule 1(1) [OF next_line(1) refl next_line(3,4)])
    with next_line on_line [OF next_line(2)] show ?thesis by (simp add: feed_lines_Some bind_step_Inr)
  qed (simp_all add: feed_lines_None)
qed

section \<open>The stream and its pieces\<close>

text \<open>
  What the caller can still observe of an outcome: after an error or \<open>[DONE]\<close> the unread bytes
  play no role, and the byte count is read by the limit check only.
\<close>

definition erase :: "unit provider_result \<times> sse \<times> stream_event list \<Rightarrow> unit provider_result \<times> sse \<times> stream_event list" where
  "erase x = (case x of (r, q, out) \<Rightarrow>
     (r, (if r = Inr () \<and> \<not> sse_done q then q\<lparr>sse_total_bytes := 0\<rparr>
          else q\<lparr>sse_total_bytes := 0, sse_buffer := []\<rparr>), out))"

definition prepend :: "stream_event list \<Rightarrow> 'a \<times> sse \<times> stream_event list \<Rightarrow> 'a \<times> sse \<times> stream_event list" where
  "prepend es x = (case x of (r, q, out) \<Rightarrow> (r, q, es @ out))"

lemma erase_prepend: "erase (prepend es x) = prepend es (erase x)"
  by (simp add: erase_def prepend_def split: prod.splits)

lemma feed_lines_append':
  "feed_lines E bs p = (Inr (), q, out) \<Longrightarrow> \<not> sse_done q \<Longrightarrow>
   feed_lines E (bs @ cs) p = prepend out (feed_lines E (sse_buffer q @ cs) q)"
  by (simp add: prepend_def feed_lines_append)

lemma keep_text_prepend: "keep_text (\<lambda>p. prepend es (m p)) p = prepend es (keep_text m p)"
  by (simp add: keep_text_def prepend_def split: prod.splits)

lemma feed_done [simp]: "sse_done p \<Longrightarrow> feed E bs p = (Inr (), p, [])"
  by (simp add: feed_def)

lemma feed_open: "\<not> sse_done p \<Longrightarrow> feed E bs p = feed_lines E (sse_buffer p @ bs) p"
  by (simp add: feed_def)

lemma feed_nothing: "settled p \<Longrightarrow> feed E [] p = (Inr (), p, [])"
  by (cases "sse_done p") (auto simp: feed_open settled_def feed_lines_None)

lemma feed_settles: "feed E bs p = (Inr (), q, out) \<Longrightarrow> settled q"
  by (cases "sse_done p") (auto simp: feed_open intro: feed_lines_settled, simp add: settled_def)

lemma feed_keeps_total:
  assumes "feed E bs p = (r, q, out)"
  shows "sse_total_bytes q = sse_total_bytes p"
proof (cases "sse_done p")
  case False
  with assms have "feed_lines E (sse_buffer p @ bs) p = (r, q, out)" by (simp add: feed_open)
  from feed_lines_total [OF this, of "sse_total_bytes p"] this
  have "q = q\<lparr>sse_total_bytes := sse_total_bytes p\<rparr>" by simp
  then show ?thesis by (metis sse.select_convs(3) sse.surjective sse.update_convs(3))
qed (use assms in simp)

lemma feed_any_total: "erase (keep_text (feed E bs) (p\<lparr>sse_total_bytes := n\<rparr>)) = erase (keep_text (feed E bs) p)"
proof (cases "feed_lines E (sse_buffer p @ bs) p")
  case (fields r q out)
  with feed_lines_total [OF fields, of n] show ?thesis
    by (cases "sse_done p"; cases r) (auto simp: feed_open keep_text_def erase_def)
qed

lemma feed_append_stop:
  assumes "feed E bs p = (r, q, out)" and "r \<noteq> Inr () \<or> sse_done q"
  shows "erase (keep_text (feed E (bs @ cs)) p) = erase (keep_text (feed E bs) p)"
proof (cases "sse_done p")
  case False
  with assms have "feed_lines E (sse_buffer p @ bs) p = (r, q, out)" by (simp add: feed_open)
  from feed_lines_append_stop [OF this False assms(2), of cs]
  obtain b where "feed_lines E ((sse_buffer p @ bs) @ cs) p = (r, q\<lparr>sse_buffer := b\<rparr>, out)" ..
  with False assms show ?thesis
    by (cases r) (auto simp: feed_open keep_text_def erase_def)
qed (simp add: keep_text_def)

lemma feed_append_next:
  assumes "feed E bs p = (Inr (), q, out)" and "\<not> sse_done q"
  shows "keep_text (feed E (bs @ cs)) p = prepend out (keep_text (feed E cs) q)"
proof -
  have "\<not> sse_done p" using assms by auto
  with assms have "feed_lines E (sse_buffer p @ bs) p = (Inr (), q, out)" by (simp add: feed_open)
  from feed_lines_append' [OF this assms(2), of cs] \<open>\<not> sse_done p\<close> assms(2) show ?thesis
    by (simp add: feed_open keep_text_def prepend_def split: prod.splits)
qed

lemma stream_loop_chunks:
  assumes "settled p" and "sse_total_bytes p + length (concat cs) \<le> max_bytes"
  shows "erase (stream_loop E max_bytes (map Chunk cs) p) = erase (keep_text (feed E (concat cs)) p)"
  using assms
proof (induction cs arbitrary: p)
  case Nil
  then show ?case by (simp add: keep_text_def feed_nothing)
next
  case (Cons c cs)
  define p1 where "p1 = p\<lparr>sse_total_bytes := min usize_max (sse_total_bytes p + length c)\<rparr>"
  have room: "\<not> max_bytes < sse_total_bytes p1" "sse_total_bytes p1 + length (concat cs) \<le> max_bytes"
    using Cons.prems(2) by (auto simp: p1_def)
  show ?case
  proof (cases "sse_done p")
    case True
    then show ?thesis by (simp add: keep_text_def)
  next
    case False
    have loop: "stream_loop E max_bytes (map Chunk (c # cs)) p
        = bind_step (keep_text (feed E c)) (\<lambda>_. stream_loop E max_bytes (map Chunk cs)) p1"
      using False room(1) by (simp add: count_bytes_def p1_def [symmetric])
    have "erase (stream_loop E max_bytes (map Chunk (c # cs)) p) = erase (keep_text (feed E (c @ concat cs)) p1)"
    proof (cases "feed E c p1")
      case (fields r q out)
      show ?thesis
      proof (cases "r = Inr () \<and> \<not> sse_done q")
        case True
        with fields have q: "settled q" "sse_total_bytes q = sse_total_bytes p1"
          by (auto intro: feed_settles feed_keeps_total)
        have "stream_loop E max_bytes (map Chunk (c # cs)) p
            = prepend out (stream_loop E max_bytes (map Chunk cs) q)"
          unfolding loop using True fields by (simp add: bind_step_def keep_text_def prepend_def split: prod.splits)
        moreover have "keep_text (feed E (c @ concat cs)) p1 = prepend out (keep_text (feed E (concat cs)) q)"
          using True fields by (intro feed_append_next) auto
        ultimately show ?thesis
          using Cons.IH [OF q(1)] q(2) room(2) by (simp add: erase_prepend)
      next
        case stop: False
        have "stream_loop E max_bytes (map Chunk (c # cs)) p = keep_text (feed E c) p1"
          unfolding loop using stop fields by (cases r; cases cs) (auto simp: bind_step_def keep_text_def)
        moreover have "erase (keep_text (feed E (c @ concat cs)) p1) = erase (keep_text (feed E c) p1)"
          using stop fields by (intro feed_append_stop) auto
        ultimately show ?thesis by simp
      qed
    qed
    also have "\<dots> = erase (keep_text (feed E (concat (c # cs))) p)"
      by (simp add: p1_def feed_any_total)
    finally show ?thesis .
  qed
qed

end
