(* ===== verification/Sse_Properties.thy ===== *)
theory Sse_Properties
  imports Sse_Proofs Sample_Env
begin

text \<open>
  The streaming answer as the caller sees it: how the body is cut into pieces does not matter, a
  body written as server-sent events is read as the sequence of its events, the reported text is
  the text delivered, on success and on every failure, and a successful answer is complete.
\<close>

section \<open>The end of the stream\<close>

definition total_free :: "'a sse_step \<Rightarrow> bool" where
  "total_free m \<longleftrightarrow> (\<forall>p n. m (p\<lparr>sse_total_bytes := n\<rparr>) = (case m p of (r, q, out) \<Rightarrow> (r, q\<lparr>sse_total_bytes := n\<rparr>, out)))"

lemma total_free_rules:
  "total_free (ret x)" "total_free (lift_result r)"
  "total_free m \<Longrightarrow> (\<And>x. total_free (f x)) \<Longrightarrow> total_free (bind_step m f)"
  "(\<And>p n. h (p\<lparr>sse_total_bytes := n\<rparr>) = h p) \<Longrightarrow> (\<And>p. total_free (h p)) \<Longrightarrow> total_free (inspect h)"
  "total_free m \<Longrightarrow> total_free (keep_text m)"
  "total_free (modify (sse_buffer_update g))"
  by (auto simp: total_free_def bind_step_def keep_text_def split: prod.splits sum.splits)

lemma total_free_frame: "frame m \<Longrightarrow> total_free m"
  using frame_total by (auto simp: total_free_def split: prod.splits)

lemma total_free_finish: "total_free (finish E)"
proof -
  have "frame (dispatch E)" "frame (push_data s)" for s
    unfolding dispatch_def push_data_def
    by (auto intro!: frame_intro frame_inspect frame_on_data split: option.splits)
  then have "total_free (dispatch E)" "total_free (push_data s)" for s
    by (auto intro: total_free_frame)
  then show ?thesis unfolding finish_def finish_line_def decode_line_def
    by (auto intro!: total_free_rules)
qed

lemma total_free_stream_end: "total_free (stream_end E fmt)"
  unfolding stream_end_def by (auto intro!: total_free_rules total_free_finish)

text \<open>The observable part of an outcome.\<close>

definition observe :: "'a \<times> sse \<times> stream_event list \<Rightarrow> 'a \<times> stream_event list" where
  "observe x = (case x of (r, q, out) \<Rightarrow> (r, out))"

lemma stream_end_total: "observe (stream_end E fmt (q\<lparr>sse_total_bytes := n\<rparr>)) = observe (stream_end E fmt q)"
  using total_free_stream_end [of E fmt]
  by (auto simp: observe_def total_free_def split: prod.splits)

lemma finish_done [simp]: "sse_done p \<Longrightarrow> finish E p = (Inr (), p, [])"
  by (simp add: finish_def)

lemma keep_text_ok: "m p = (Inr x, q, out) \<Longrightarrow> keep_text m p = (Inr x, q, out)"
  by (simp add: keep_text_def)

lemma stream_end_done:
  "sse_done q \<Longrightarrow> observe (stream_end E fmt (q\<lparr>sse_total_bytes := 0, sse_buffer := []\<rparr>)) = observe (stream_end E fmt q)"
  by (simp add: stream_end_def observe_def bind_step_Inr [OF keep_text_ok] keep_text_def bind_step_def
      split: prod.splits sum.splits)

lemma observe_erase:
  assumes "erase x = erase y"
  shows "observe (bind_step (\<lambda>_. x) (\<lambda>_. stream_end E fmt) p) = observe (bind_step (\<lambda>_. y) (\<lambda>_. stream_end E fmt) p)"
proof -
  have eq: "observe (bind_step (\<lambda>_. x) (\<lambda>_. stream_end E fmt) p)
    = observe (bind_step (\<lambda>_. erase x) (\<lambda>_. stream_end E fmt) p)" for x
  proof (cases x)
    case (fields r q out)
    have obs: "observe (case stream_end E fmt q' of (r', q', out') \<Rightarrow> (r', q', out @ out'))
        = (fst (observe (stream_end E fmt q')), out @ snd (observe (stream_end E fmt q')))" for q'
      by (simp add: observe_def split: prod.splits)
    show ?thesis
      using fields stream_end_total [where q = q and n = 0] stream_end_done [where q = q]
      by (cases r) (auto simp: erase_def bind_step_def obs, simp_all add: observe_def)
  qed
  show ?thesis using eq [of x] eq [of y] assms by (simp only:)
qed

lemma stream_response_observe:
  "is_success s \<Longrightarrow> stream_response E mb ml fmt s ps =
   observe (bind_step (\<lambda>_. stream_loop E mb ps (sse_new ml)) (\<lambda>_. stream_end E fmt) (sse_new ml))"
  by (simp add: stream_response_def observe_def bind_step_def)

lemma settled_new: "settled (sse_new ml)"
  by (simp add: settled_def sse_new_def)

lemma stream_response_whole:
  assumes "is_success s" and "length (concat cs) \<le> mb"
  shows "stream_response E mb ml fmt s (map Chunk cs) =
    observe (bind_step (keep_text (feed E (concat cs))) (\<lambda>_. stream_end E fmt) (sse_new ml))"
proof -
  have "erase (stream_loop E mb (map Chunk cs) (sse_new ml)) = erase (keep_text (feed E (concat cs)) (sse_new ml))"
    using assms(2) by (intro stream_loop_chunks settled_new) (simp add: sse_new_def)
  from observe_erase [OF this] show ?thesis
    by (simp add: stream_response_observe [OF assms(1)] bind_step_def)
qed

section \<open>Server-sent events\<close>

text \<open>
  The wire format. A line is a data line, with or without the optional space after the colon, or
  any other line (a comment, an \<open>event:\<close>, \<open>id:\<close> or \<open>retry:\<close> field, an unknown field); it ends in a
  line feed or in carriage return and line feed. An event is a list of lines closed by an empty
  line.
\<close>

datatype wire_line = DataLine bool ustr bool | OtherLine ustr bool

type_synonym wire_event = "wire_line list \<times> bool"

definition eol :: "bool \<Rightarrow> ustr" where
  "eol cr = (if cr then [13, 10] else [10])"

fun line_text :: "wire_line \<Rightarrow> ustr" where
  "line_text (DataLine sp d cr) = u ''data:'' @ (if sp then [32] else []) @ d"
| "line_text (OtherLine s cr) = s"

fun line_cr :: "wire_line \<Rightarrow> bool" where
  "line_cr (DataLine sp d cr) = cr"
| "line_cr (OtherLine s cr) = cr"

fun line_data :: "wire_line \<Rightarrow> ustr list" where
  "line_data (DataLine sp d cr) = [d]"
| "line_data (OtherLine s cr) = []"

definition line_bytes :: "wire_line \<Rightarrow> nat list" where
  "line_bytes l = bytes (line_text l) @ eol (line_cr l)"

definition event_bytes :: "wire_event \<Rightarrow> nat list" where
  "event_bytes ev = concat (map line_bytes (fst ev)) @ eol (snd ev)"

text \<open>
  The data of the events: the data lines of an event joined by line feeds; an event without a data
  line has none.
\<close>

definition events_data :: "wire_event list \<Rightarrow> ustr list" where
  "events_data evs = map (join_str [10]) (filter (\<lambda>f. f \<noteq> []) (map (\<lambda>ev. concat (map line_data (fst ev))) evs))"

text \<open>
  What makes a line one line of the kind it is declared as: its text is Unicode text without a line
  feed, a carriage return before a bare line feed would be taken for part of the line end, a space
  at the start of data needs the optional space before it, another line is not empty and does not
  begin with \<open>data:\<close>; and it keeps to the parser's limit on lines.
\<close>

definition good_line :: "nat \<Rightarrow> wire_line \<Rightarrow> bool" where
  "good_line ml l \<longleftrightarrow> list_all valid_scalar (line_text l) \<and> 10 \<notin> set (line_text l) \<and>
     (line_cr l \<or> last (line_text l) \<noteq> 13) \<and>
     blen (line_text l) + (if line_cr l then 1 else 0) \<le> ml \<and>
     (case l of DataLine sp d cr \<Rightarrow> sp \<or> \<not> starts_with d [32]
      | OtherLine t cr \<Rightarrow> t \<noteq> [] \<and> \<not> starts_with t (u ''data:''))"

definition good_event :: "nat \<Rightarrow> wire_event \<Rightarrow> bool" where
  "good_event ml ev \<longleftrightarrow> list_all (good_line ml) (fst ev) \<and> (snd ev \<longrightarrow> 1 \<le> ml)"

text \<open>The reading of the data of a list of events, without the bytes.\<close>

fun read_events :: "env \<Rightarrow> ustr list \<Rightarrow> unit sse_step" where
  "read_events E [] p = ret () p"
| "read_events E (d # ds) p =
     bind_step (on_data E d) (\<lambda>_ q. if sse_done q then ret () q else read_events E ds q) p"

lemma split_line_no_lf: "10 \<notin> set l \<Longrightarrow> split_line (l @ 10 # r) = Some (l, r)"
  by (induction l) auto

lemma bytes_no_lf: "10 \<notin> set d \<Longrightarrow> 10 \<notin> set (bytes d)"
proof (induction d)
  case (Cons c d)
  have "10 \<notin> set (utf8_char c)"
    using Cons.prems utf8_char_non_ascii [of c 10] by (cases "c < 128") auto
  with Cons show ?case by simp
qed simp

lemma data_prefix: "u ''data:'' = [100, 97, 116, 97, 58]"
  by (simp add: u_def)

text \<open>The bytes of a line up to the line feed, which the parser decodes.\<close>

definition line_body :: "wire_line \<Rightarrow> ustr" where
  "line_body l = line_text l @ (if line_cr l then [13] else [])"

lemma bytes_cr [simp]: "bytes [13] = [13]"
  by (simp add: utf8_char_def)

lemma line_bytes_body: "line_bytes l @ bs = bytes (line_body l) @ 10 # bs"
  by (simp add: line_bytes_def line_body_def eol_def utf8_char_def)

lemma line_text_nonempty: "good_line ml l \<Longrightarrow> line_text l \<noteq> []"
  by (cases l) (auto simp: good_line_def data_prefix)

lemma on_line_body:
  assumes "good_line ml l" and "sse_max_line_bytes p = ml"
  shows "on_line E (bytes (line_body l)) p = (Inr (), p\<lparr>sse_event_data := sse_event_data p @ line_data l\<rparr>, [])"
proof -
  have "list_all valid_scalar (line_body l)"
    using assms(1) by (simp add: good_line_def line_body_def valid_scalar_def)
  then have "utf8_decode (bytes (line_body l)) = Some (line_body l)" by (rule utf8_decode_bytes)
  moreover have "strip_cr (line_body l) = line_text l"
    using assms(1) by (auto simp: strip_cr_def line_body_def good_line_def)
  moreover have "\<not> ml < length (bytes (line_body l))"
    using assms(1) by (auto simp: good_line_def line_body_def blen_def utf8_char_def)
  moreover have "push_data (line_text l) p = (Inr (), p\<lparr>sse_event_data := sse_event_data p @ line_data l\<rparr>, [])"
    using assms(1) by (cases l) (auto simp: good_line_def push_data_def strip_prefix_def strip_space_def data_prefix)
  ultimately show ?thesis
    using assms(2) line_text_nonempty [OF assms(1)] by (simp add: on_line_def decode_line_def)
qed

lemma on_line_blank:
  assumes "cr \<Longrightarrow> 1 \<le> sse_max_line_bytes p"
  shows "on_line E (if cr then [13] else []) p = dispatch E p"
  using assms by (auto simp: on_line_def decode_line_def strip_cr_def utf8_decode_bytes [of "[13]", simplified] valid_scalar_def)

lemma on_data_lines: "on_data E d p = (r, q, out) \<Longrightarrow> same_lines p out q"
  by (rule keepsD [OF event_data.keeps_on_data])

lemma update_same: "sse_event_data p = d \<Longrightarrow> p\<lparr>sse_event_data := d\<rparr> = p" "sse_buffer p = b \<Longrightarrow> p\<lparr>sse_buffer := b\<rparr> = p"
  by auto

lemma feed_lines_any_buffer: "feed_lines E bs (p\<lparr>sse_buffer := b\<rparr>) = feed_lines E bs p"
  by (subst (1 2) feed_lines.simps) (simp split: option.splits)

lemma feed_lines_any_data_buffer:
  "feed_lines E bs (p\<lparr>sse_buffer := b, sse_event_data := d\<rparr>) = feed_lines E bs (p\<lparr>sse_event_data := d\<rparr>)"
  by (subst (1 2) feed_lines.simps) (simp split: option.splits)

lemma feed_lines_line:
  assumes "good_line ml l" and "sse_max_line_bytes p = ml" and "\<not> sse_done p"
  shows "feed_lines E (line_bytes l @ bs) p = feed_lines E bs (p\<lparr>sse_event_data := sse_event_data p @ line_data l\<rparr>)"
proof -
  have "10 \<notin> set (bytes (line_body l))"
    using assms(1) by (intro bytes_no_lf) (simp add: good_line_def line_body_def)
  then have line: "split_line (line_bytes l @ bs) = Some (bytes (line_body l), bs)"
    unfolding line_bytes_body by (rule split_line_no_lf)
  have "on_line E (bytes (line_body l)) (p\<lparr>sse_buffer := bs\<rparr>)
      = (Inr (), p\<lparr>sse_buffer := bs, sse_event_data := sse_event_data p @ line_data l\<rparr>, [])"
    using assms on_line_body [of ml l "p\<lparr>sse_buffer := bs\<rparr>" E] by simp
  then show ?thesis
    using assms(3)
    by (simp add: feed_lines_any_data_buffer feed_lines_Some [OF line] bind_step_Inr [where m = "on_line E (bytes (line_body l))"] split: prod.splits)
qed

lemma feed_lines_lines:
  assumes "list_all (good_line ml) ls" and "sse_max_line_bytes p = ml" and "\<not> sse_done p"
  shows "feed_lines E (concat (map line_bytes ls) @ bs) p
    = feed_lines E bs (p\<lparr>sse_event_data := sse_event_data p @ concat (map line_data ls)\<rparr>)"
  using assms
proof (induction ls arbitrary: p)
  case (Cons l ls)
  then show ?case
    using feed_lines_line [of ml l p E "concat (map line_bytes ls) @ bs"] by simp
qed (simp add: update_same)

lemma feed_lines_blank:
  assumes "cr \<Longrightarrow> 1 \<le> sse_max_line_bytes p" and "\<not> sse_done p"
  shows "feed_lines E (eol cr @ bs) p =
    (if sse_event_data p = [] then feed_lines E bs p
     else bind_step (on_data E (join_str [10] (sse_event_data p)))
       (\<lambda>_ q. if sse_done q then ret () q else feed_lines E bs q) (p\<lparr>sse_buffer := bs, sse_event_data := []\<rparr>))"
proof -
  have line: "split_line (eol cr @ bs) = Some (if cr then [13] else [], bs)"
    by (simp add: eol_def)
  have "on_line E (if cr then [13] else []) (p\<lparr>sse_buffer := bs\<rparr>) = dispatch E (p\<lparr>sse_buffer := bs\<rparr>)"
    using assms(1) by (intro on_line_blank) simp
  then show ?thesis
    using assms(2) feed_lines_any_buffer [where p = p and b = bs]
    by (simp add: feed_lines_Some [OF line] bind_step_def [where m = "on_line E (if cr then [13] else [])"] dispatch_def
      bind_step_def [where m = "on_data E d" for d] split: prod.splits)
qed

lemma feed_lines_event:
  assumes "good_event ml ev" and "sse_max_line_bytes p = ml" and "sse_event_data p = []" and "\<not> sse_done p"
  shows "feed_lines E (event_bytes ev @ bs) p =
    (case events_data [ev] of [] \<Rightarrow> feed_lines E bs p
     | d # _ \<Rightarrow> bind_step (on_data E d) (\<lambda>_ q. if sse_done q then ret () q else feed_lines E bs q) (p\<lparr>sse_buffer := bs\<rparr>))"
proof -
  let ?f = "concat (map line_data (fst ev))"
  have "feed_lines E (event_bytes ev @ bs) p = feed_lines E (eol (snd ev) @ bs) (p\<lparr>sse_event_data := ?f\<rparr>)"
    using assms feed_lines_lines [of ml "fst ev" p E "eol (snd ev) @ bs"]
    by (simp add: event_bytes_def good_event_def)
  also have "\<dots> = (if ?f = [] then feed_lines E bs p
      else bind_step (on_data E (join_str [10] ?f))
        (\<lambda>_ q. if sse_done q then ret () q else feed_lines E bs q) (p\<lparr>sse_buffer := bs\<rparr>))"
    using assms by (subst feed_lines_blank) (auto simp: good_event_def update_same)
  finally show ?thesis by (simp add: events_data_def)
qed

lemma events_data_Cons: "events_data (ev # evs) = events_data [ev] @ events_data evs"
  by (simp add: events_data_def)

lemma events_data_single: "events_data [ev] = [] \<or> (\<exists>d. events_data [ev] = [d])"
  by (simp add: events_data_def)

lemma feed_lines_events:
  assumes "\<forall>ev \<in> set evs. good_event ml ev" and "sse_max_line_bytes p = ml" and "sse_event_data p = []"
    and "\<not> sse_done p" and "sse_buffer p = []"
  shows "erase (feed_lines E (concat (map event_bytes evs)) p) = erase (read_events E (events_data evs) p)"
  using assms
proof (induction evs arbitrary: p)
  case Nil
  then show ?case by (simp add: feed_lines_None update_same events_data_def)
next
  case (Cons ev evs)
  let ?bs = "concat (map event_bytes evs)" and ?ds = "events_data evs"
  have ev: "feed_lines E (concat (map event_bytes (ev # evs))) p = (case events_data [ev] of [] \<Rightarrow> feed_lines E ?bs p
     | d # _ \<Rightarrow> bind_step (on_data E d) (\<lambda>_ q. if sse_done q then ret () q else feed_lines E ?bs q) (p\<lparr>sse_buffer := ?bs\<rparr>))"
    using Cons.prems feed_lines_event [of ml ev p E ?bs] by simp
  from events_data_single [of ev] show ?case
  proof
    assume "events_data [ev] = []"
    with ev Cons.prems Cons.IH [of p] show ?case by (simp add: events_data_Cons [of ev evs])
  next
    assume "\<exists>d. events_data [ev] = [d]"
    then obtain d where d: "events_data [ev] = [d]" by blast
    then have ds: "events_data (ev # evs) = d # ?ds" by (simp add: events_data_Cons [of ev evs])
    have feed: "feed_lines E (concat (map event_bytes (ev # evs))) p =
        bind_step (on_data E d) (\<lambda>_ q. if sse_done q then ret () q else feed_lines E ?bs q) (p\<lparr>sse_buffer := ?bs\<rparr>)"
      using ev d by simp
    show ?case
    proof (cases "on_data E d p")
      case (fields r q out)
      from on_data_lines [OF fields] Cons.prems have q: "sse_max_line_bytes q = ml" "sse_event_data q = []" "sse_buffer q = []"
        by (auto simp: same_lines_def same_frame_def)
      have data: "on_data E d (p\<lparr>sse_buffer := ?bs\<rparr>) = (r, q\<lparr>sse_buffer := ?bs\<rparr>, out)"
        using frameD [OF frame_on_data fields] .
      show ?thesis
      proof (cases "r = Inr () \<and> \<not> sse_done q")
        case True
        then have "erase (feed_lines E ?bs q) = erase (read_events E ?ds q)"
          using Cons.prems(1) q by (intro Cons.IH) auto
        moreover have "feed_lines E (concat (map event_bytes (ev # evs))) p = prepend out (feed_lines E ?bs q)"
          using True data unfolding feed
          by (simp add: bind_step_def prepend_def feed_lines_any_buffer split: prod.splits)
        moreover have "read_events E (d # ?ds) p = prepend out (read_events E ?ds q)"
          using True fields by (simp add: bind_step_def prepend_def split: prod.splits)
        ultimately show ?thesis unfolding ds by (simp add: erase_prepend)
      next
        case False
        then show ?thesis
          using data fields unfolding feed ds by (cases r) (auto simp: bind_step_def erase_def)
      qed
    qed
  qed
qed

lemma erase_keep_text: "erase (m p) = erase (n p) \<Longrightarrow> erase (keep_text m p) = erase (keep_text n p)"
proof -
  have "erase (keep_text h p) = (case erase (h p) of (r, q, out) \<Rightarrow> (map_err (with_partial (sse_text q)) r, q, out))" for h
    by (cases "h p"; cases "fst (h p)") (auto simp: erase_def keep_text_def)
  then show "erase (m p) = erase (n p) \<Longrightarrow> erase (keep_text m p) = erase (keep_text n p)" by simp
qed

lemma stream_response_events:
  assumes "is_success s" and "\<forall>ev \<in> set evs. good_event ml ev"
    and "concat cs = concat (map event_bytes evs)" and "length (concat cs) \<le> mb"
  shows "stream_response E mb ml fmt s (map Chunk cs) =
    observe (bind_step (keep_text (read_events E (events_data evs))) (\<lambda>_. stream_end E fmt) (sse_new ml))"
proof -
  have "feed E (concat cs) (sse_new ml) = feed_lines E (concat cs) (sse_new ml)"
    by (subst feed_open) (simp_all add: sse_new_def)
  moreover have "erase (feed_lines E (concat (map event_bytes evs)) (sse_new ml)) = erase (read_events E (events_data evs) (sse_new ml))"
    using assms(2) by (intro feed_lines_events) (simp_all add: sse_new_def)
  ultimately have "erase (keep_text (feed E (concat cs)) (sse_new ml)) = erase (keep_text (read_events E (events_data evs)) (sse_new ml))"
    using assms(3) by (intro erase_keep_text) simp
  from observe_erase [OF this] show ?thesis
    using assms(1,4) by (simp add: stream_response_whole bind_step_def)
qed

section \<open>A sample stream\<close>

definition hello_value :: json where
  "hello_value = JObj [(u ''choices'', JArr [JObj [(u ''delta'', JObj [(u ''content'', JStr (u ''Hello''))])]])]"

definition hello_data :: ustr where
  "hello_data = json_text sample_env hello_value"

definition hello_answer :: chat_response where
  "hello_answer = \<lparr>chat_text = u ''Hello'', chat_model = None, chat_finish_reason = None, chat_usage = default_usage\<rparr>"

lemma hello_data_eq: "hello_data = [7, 1, 7, 99, 104, 111, 105, 99, 101, 115, 6, 1, 7, 1, 5, 100, 101, 108,
  116, 97, 7, 1, 7, 99, 111, 110, 116, 101, 110, 116, 5, 5, 72, 101, 108, 108, 111]"
  by (simp add: hello_data_def hello_value_def sample_env_def u_def)

lemma done_eq: "u ''[DONE]'' = [91, 68, 79, 78, 69, 93]"
  by (simp add: u_def)

definition hello_event :: wire_event where
  "hello_event = ([OtherLine (u '': keep-alive'') True, DataLine True hello_data True], True)"

definition done_event :: wire_event where
  "done_event = ([DataLine False (u ''[DONE]'') False, OtherLine (u ''id: 2'') False], False)"

lemma good_hello: "\<forall>ev \<in> set [hello_event, done_event]. good_event 500 ev"
  by (simp add: good_event_def good_line_def hello_event_def done_event_def hello_data_eq u_def valid_scalar_def utf8_char_def)

lemma hello_events_data: "events_data [hello_event, done_event] = [hello_data, u ''[DONE]'']"
  "events_data [hello_event] = [hello_data]"
  by (simp_all add: events_data_def hello_event_def done_event_def)

lemmas hello_bytes = hello_event_def done_event_def event_bytes_def line_bytes_def eol_def hello_data_eq u_def

lemma parse_hello: "json_parse sample_env hello_data = Some hello_value"
proof -
  have "wf_json hello_value" by (simp add: hello_value_def u_def)
  moreover have "plain_json hello_value" by (simp add: hello_value_def plain_json_def json_depth.simps)
  ultimately show ?thesis using codec_roundtrip_wf [OF sample_codec] by (simp add: hello_data_def)
qed

lemma read_hello: "on_data sample_env hello_data p = (Inr (),
    p\<lparr>sse_saw_choice := True, sse_text := sse_text p @ u ''Hello''\<rparr>, [ContentDelta (u ''Hello'')])"
proof -
  have "hello_data \<noteq> u ''[DONE]''" by (simp add: hello_data_eq done_eq)
  then show ?thesis
    by (simp add: bind_step_def [of "bind_step m f" for m f] on_data_def parse_hello on_value_def hello_value_def on_model_def on_usage_def on_choices_def
        on_choice_def on_delta_def on_role_def on_content_def on_reasoning_def on_finish_reason_def push_content_def)
qed

definition hello_chunks :: "nat list list" where
  "hello_chunks = [event_bytes hello_event @ [100], drop 1 (event_bytes done_event)]"

lemma hello_chunks_wire: "concat hello_chunks = concat (map event_bytes [hello_event, done_event])"
  by (simp add: hello_chunks_def hello_bytes utf8_char_def)

lemma hello_chunks_length: "length (concat hello_chunks) \<le> 1000"
  by (simp add: hello_chunks_def hello_bytes utf8_char_def)

lemma hello_read: "observe (bind_step (keep_text (read_events sample_env [hello_data, u ''[DONE]'']))
    (\<lambda>_. stream_end sample_env PlainText) (sse_new 500)) = (Inr hello_answer, [ContentDelta (u ''Hello'')])"
  by (simp add: bind_step_def keep_text_def read_hello on_data_def [where data = "u ''[DONE]''"] sse_new_def
      observe_def stream_end_def finish_def check_json_text_def hello_answer_def)

lemma hello_stream: "stream_response sample_env 1000 500 PlainText 200 (map Chunk hello_chunks)
    = (Inr hello_answer, [ContentDelta (u ''Hello'')])"
  using stream_response_events [OF _ good_hello hello_chunks_wire hello_chunks_length] hello_read
    hello_events_data
  by (simp add: is_success_def)

lemma hello_event_length: "length (event_bytes hello_event) = 61"
  by (simp add: hello_bytes utf8_char_def)

lemma hello_cancelled: "stream_response sample_env 1000 500 PlainText 200 [Chunk (event_bytes hello_event), CancelSeen]
    = (Inl (with_partial (u ''Hello'') (perr Cancelled ''request cancelled'')), [ContentDelta (u ''Hello'')])"
proof -
  let ?p = "sse_new 500\<lparr>sse_total_bytes := 61\<rparr>"
  let ?q = "?p\<lparr>sse_saw_choice := True, sse_text := u ''Hello''\<rparr>"
  have "feed_lines sample_env (event_bytes hello_event) ?p = (Inr (), ?q, [ContentDelta (u ''Hello'')])"
    using feed_lines_event [of 500 hello_event ?p sample_env "[]"] good_hello
    by (simp add: hello_events_data sse_new_def bind_step_def read_hello feed_lines_None)
  then have "feed sample_env (event_bytes hello_event) ?p = (Inr (), ?q, [ContentDelta (u ''Hello'')])"
    by (subst feed_open) (simp_all add: sse_new_def)
  then show ?thesis using hello_event_length
    by (simp add: stream_response_def is_success_def count_bytes_def sse_new_def usize_max_def bind_step_def keep_text_def)
qed

section \<open>Properties\<close>

text \<open>
  C23: how the network cuts the body into pieces does not matter: two sequences of chunks of the
  same bytes, within the response limit, give the same answer or the same error and the same
  events in the same order.
\<close>

theorem stream_chunking:
  assumes "concat cs = concat ds" and "length (concat cs) \<le> mb"
  shows "stream_response E mb ml fmt s (map Chunk cs) = stream_response E mb ml fmt s (map Chunk ds)"
proof (cases "is_success s")
  case True
  with assms show ?thesis by (simp add: stream_response_whole)
qed (simp add: stream_response_def)

lemma stream_chunking_witness:
  "stream_response sample_env 1000 500 PlainText 200 [Chunk (concat hello_chunks)]
    = (Inr hello_answer, [ContentDelta (u ''Hello'')])"
  using stream_chunking [of hello_chunks "[concat hello_chunks]" 1000 sample_env 500 PlainText 200]
    hello_chunks_length hello_stream by simp

text \<open>
  C24: a body made of complete server-sent events, within the response limit and with lines within
  the line limit, is read as the sequence of the events' data however it is cut into chunks: the
  data lines of an event are joined by line feeds, lines may end in a line feed or in carriage
  return and line feed, the optional space after the colon is dropped, and comments, other fields
  and events without data change nothing; the answer, the error and the reported events are those
  of handling the data one after the other until \<open>[DONE]\<close>.
\<close>

theorem stream_reads_events:
  assumes "is_success s" and "\<forall>ev \<in> set evs. good_event ml ev"
    and "concat cs = concat (map event_bytes evs)" and "length (concat cs) \<le> mb"
  shows "stream_response E mb ml fmt s (map Chunk cs) =
    observe (bind_step (keep_text (read_events E (events_data evs))) (\<lambda>_. stream_end E fmt) (sse_new ml))"
  by (rule stream_response_events [OF assms])

lemma stream_reads_events_witness:
  "stream_response sample_env 1000 500 PlainText 200 (map Chunk hello_chunks)
    = (Inr hello_answer, [ContentDelta (u ''Hello'')])"
  using stream_reads_events [OF _ good_hello hello_chunks_wire hello_chunks_length] hello_read
    hello_events_data
  by (simp add: is_success_def)

lemma stream_success_cases:
  assumes "stream_response E mb ml fmt s polls = (Inr r, out)"
  obtains p q out1 out2 where "is_success s" "stream_loop E mb polls (sse_new ml) = (Inr (), p, out1)"
    "keep_text (finish E) p = (Inr (), q, out2)" "out = out1 @ out2" "sse_done q" "sse_saw_choice q"
    "sse_text q \<noteq> []" "check_json_text E fmt (sse_text q) = Inr ()"
    "r = \<lparr>chat_text = sse_text q, chat_model = sse_model q, chat_finish_reason = sse_finish_reason q,
          chat_usage = (case sse_usage q of None \<Rightarrow> default_usage | Some us \<Rightarrow> us)\<rparr>"
proof -
  from assms have s: "is_success s" by (auto simp: stream_response_def split: if_splits)
  with assms obtain t where "bind_step (stream_loop E mb polls) (\<lambda>_. stream_end E fmt) (sse_new ml) = (Inr r, t, out)"
    by (auto simp: stream_response_def split: prod.splits)
  then obtain p out1 out3 where loop: "stream_loop E mb polls (sse_new ml) = (Inr (), p, out1)"
    and "end": "stream_end E fmt p = (Inr r, t, out3)" and out: "out = out1 @ out3"
    by (rule bind_step_cases) auto
  from "end" obtain q out2 out4 where fin: "keep_text (finish E) p = (Inr (), q, out2)"
    and last: "keep_text (inspect (\<lambda>p. if \<not> sse_done p
      then fail_step (perr Truncated ''provider stream ended before [DONE]'')
      else if \<not> sse_saw_choice p \<or> sse_text p = []
      then fail_step (perr InvalidResponse ''provider stream completed without assistant text'')
      else bind_step (lift_result (check_json_text E fmt (sse_text p))) (\<lambda>_.
        ret \<lparr>chat_text = sse_text p, chat_model = sse_model p, chat_finish_reason = sse_finish_reason p,
             chat_usage = (case sse_usage p of None \<Rightarrow> default_usage | Some us \<Rightarrow> us)\<rparr>))) q = (Inr r, t, out4)"
    and out3: "out3 = out2 @ out4"
    unfolding stream_end_def by (rule bind_step_cases) auto
  from last show ?thesis
    using that [OF s loop fin] out out3
    by (cases "check_json_text E fmt (sse_text q)") (auto simp: keep_text_def split: if_splits)
qed

lemma loop_and_finish:
  assumes "stream_loop E mb polls p0 = (Inr (), p, out1)" and "keep_text (finish E) p = (Inr (), q, out2)"
  shows "text_log p0 (out1 @ out2) q" "good_reason p0 (out1 @ out2) q" "usage_log p0 (out1 @ out2) q"
proof -
  show "text_log p0 (out1 @ out2) q"
    by (rule delivered.keeps_after [where m = "keep_text (finish E)", OF delivered.keeps_stream_loop [OF assms(1)] assms(2)])
      (intro delivered.keeps_keep_text delivered.keeps_finish)
  show "good_reason p0 (out1 @ out2) q"
    by (rule terminal.keeps_after [where m = "keep_text (finish E)", OF terminal.keeps_stream_loop [OF assms(1)] assms(2)])
      (intro terminal.keeps_keep_text terminal.keeps_finish)
  show "usage_log p0 (out1 @ out2) q"
    by (rule reported.keeps_after [where m = "keep_text (finish E)", OF reported.keeps_stream_loop [OF assms(1)] assms(2)])
      (intro reported.keeps_keep_text reported.keeps_finish)
qed

text \<open>
  C25: a successful streamed answer is complete: its text is exactly the text reported piece by
  piece and is not empty, its terminal reason, if any, is \<open>stop\<close>, its usage is the one reported
  last, the response had a success status, and in JSON mode the text is a JSON object.
\<close>

theorem stream_success_complete:
  assumes "stream_response E mb ml fmt s polls = (Inr r, out)"
  shows "chat_text r = content out \<and> chat_text r \<noteq> []
    \<and> chat_finish_reason r \<in> {None, Some (u ''stop'')}
    \<and> chat_usage r = (case last_usage None out of None \<Rightarrow> default_usage | Some us \<Rightarrow> us)
    \<and> is_success s
    \<and> (fmt = JsonObject \<longrightarrow> (\<exists>m. json_parse E (chat_text r) = Some (JObj m)))"
  using assms
proof (rule stream_success_cases)
  fix p q out1 out2
  assume run: "stream_loop E mb polls (sse_new ml) = (Inr (), p, out1)" "keep_text (finish E) p = (Inr (), q, out2)"
    and out: "out = out1 @ out2" and q: "sse_text q \<noteq> []" "check_json_text E fmt (sse_text q) = Inr ()"
    and s: "is_success s"
    and r: "r = \<lparr>chat_text = sse_text q, chat_model = sse_model q, chat_finish_reason = sse_finish_reason q,
          chat_usage = (case sse_usage q of None \<Rightarrow> default_usage | Some us \<Rightarrow> us)\<rparr>"
  note logs = loop_and_finish [OF run, folded out]
  have "fmt = JsonObject \<longrightarrow> (\<exists>m. json_parse E (sse_text q) = Some (JObj m))"
    using q(2) by (auto simp: check_json_text_def and_then_eq_Inr)
  with logs q(1) r s show ?thesis
    by (auto simp: text_log_def good_reason_def usage_log_def sse_new_def)
qed

lemma stream_success_complete_witness:
  "chat_text hello_answer = content [ContentDelta (u ''Hello'')] \<and> is_success 200"
  using stream_success_complete [OF hello_stream] by simp

text \<open>An error that reports the text of the state it is raised in.\<close>

definition labelled :: "'a sse_step \<Rightarrow> bool" where
  "labelled m \<longleftrightarrow> (\<forall>p e q out. m p = (Inl e, q, out) \<longrightarrow> partial_text e = sse_text q)"

lemma labelledD: "labelled m \<Longrightarrow> m p = (Inl e, q, out) \<Longrightarrow> partial_text e = sse_text q"
  by (auto simp: labelled_def)

lemma labelled_bind: "labelled m \<Longrightarrow> (\<And>x. labelled (g x)) \<Longrightarrow> labelled (bind_step m g)"
  by (subst labelled_def) (auto elim!: bind_step_cases dest: labelledD)

lemma labelled_basic:
  "labelled (ret x)" "labelled (modify f)" "labelled (keep_text m)"
  "(\<And>p. labelled (h p)) \<Longrightarrow> labelled (inspect h)"
  by (auto simp: labelled_def keep_text_def map_err_def split: prod.splits sum.splits)

lemmas labelled_rules = labelled_basic labelled_bind

lemma labelled_stream_loop: "labelled (stream_loop E mb ws)"
proof (induction ws)
  case (Cons w ws)
  then have chunk: "labelled (seq_step (count_bytes n) (seq_step (inspect (\<lambda>p. if mb < sse_total_bytes p
      then keep_text (fail_step err) else keep_text (feed E c))) (stream_loop E mb ws)))" for n c err
    unfolding count_bytes_def by (intro labelled_rules) (simp add: labelled_rules)
  show ?case
    by (cases w; subst labelled_def)
      (auto simp del: bind_step_simps split: if_splits dest: labelledD [OF chunk] labelledD [OF labelled_basic(3)])
qed (simp add: labelled_def)

lemma labelled_stream_end: "labelled (stream_end E fmt)"
  unfolding stream_end_def by (intro labelled_rules)

text \<open>
  C26: whatever goes wrong, the error carries exactly the text that was delivered before it.
\<close>

theorem stream_error_keeps_text:
  assumes "stream_response E mb ml fmt s polls = (Inl e, out)"
  shows "partial_text e = content out"
proof (cases "is_success s")
  case True
  define m where "m = bind_step (stream_loop E mb polls) (\<lambda>_. stream_end E fmt)"
  from True assms obtain q where run: "m (sse_new ml) = (Inl e, q, out)"
    by (auto simp: m_def stream_response_def split: prod.splits)
  have "labelled m" unfolding m_def by (intro labelled_rules labelled_stream_loop labelled_stream_end)
  with run have "partial_text e = sse_text q" by (auto simp: labelled_def)
  moreover have "keeps text_log (stream_loop E mb polls)"
    by (rule keepsI) (rule delivered.keeps_stream_loop)
  then have "keeps text_log m" unfolding m_def by (intro delivered.keeps_bind delivered.keeps_stream_end)
  with run have "text_log (sse_new ml) out q" by (auto dest: keepsD)
  ultimately show ?thesis by (simp add: text_log_def sse_new_def)
qed (use assms in \<open>auto simp: stream_response_def\<close>)

lemma stream_error_keeps_text_witness:
  "partial_text (with_partial (u ''Hello'') (perr Cancelled ''request cancelled'')) = content [ContentDelta (u ''Hello'')]"
  by (rule stream_error_keeps_text [OF hello_cancelled])

section \<open>The end marker\<close>

lemma on_data_open:
  assumes "on_data E d p = (r, q, out)" and "d \<noteq> u ''[DONE]''"
  shows "sse_done q = sse_done p"
proof -
  have "keeps same_done (on_data E d)"
    using assms(2) unfolding on_data_def by (auto intro!: open_stream.keeps_rules open_stream.keeps_on_value)
  with assms(1) show ?thesis by (auto dest: keepsD simp: same_done_def)
qed

lemma read_events_open:
  assumes "u ''[DONE]'' \<notin> set ds" and "read_events E ds p = (Inr (), q, out)" and "\<not> sse_done p"
    and "sse_buffer p = []" and "sse_event_data p = []"
  shows "\<not> sse_done q \<and> sse_buffer q = [] \<and> sse_event_data q = []"
  using assms
proof (induction ds arbitrary: p out)
  case (Cons d ds)
  from Cons.prems(2) show ?case unfolding read_events.simps
  proof (rule bind_step_cases)
    fix x s out1 out2
    assume s: "on_data E d p = (Inr x, s, out1)"
      and rest: "(if sse_done s then ret () s else read_events E ds s) = (Inr (), q, out2)"
    have "\<not> sse_done s" using Cons.prems on_data_open [OF s] by auto
    moreover have "sse_buffer s = []" "sse_event_data s = []"
      using on_data_lines [OF s] Cons.prems(4,5) by (auto simp: same_lines_def same_frame_def)
    ultimately show ?thesis using rest Cons.prems(1) Cons.IH [of s out2] by simp
  qed simp
qed simp

text \<open>
  Without the \<open>[DONE]\<close> event no answer is accepted: a body of events that ends early is an
  error, however much text it delivered and whatever terminal reason it gave.
\<close>

theorem stream_without_done_fails:
  assumes "is_success s" and "\<forall>ev \<in> set evs. good_event ml ev" and "u ''[DONE]'' \<notin> set (events_data evs)"
    and "concat cs = concat (map event_bytes evs)" and "length (concat cs) \<le> mb"
  shows "\<exists>e out. stream_response E mb ml fmt s (map Chunk cs) = (Inl e, out)"
proof -
  have resp: "stream_response E mb ml fmt s (map Chunk cs) =
      observe (bind_step (keep_text (read_events E (events_data evs))) (\<lambda>_. stream_end E fmt) (sse_new ml))"
    by (rule stream_response_events [OF assms(1,2,4,5)])
  show ?thesis
  proof (cases "read_events E (events_data evs) (sse_new ml)")
    case (fields r q out)
    show ?thesis
    proof (cases r)
      case (Inl e)
      with fields show ?thesis unfolding resp by (simp add: keep_text_def bind_step_def observe_def)
    next
      case (Inr x)
      with fields have q: "\<not> sse_done q" "sse_buffer q = []" "sse_event_data q = []"
        using read_events_open [OF assms(3), of E "sse_new ml" q out] by (auto simp: sse_new_def)
      then have "keep_text (finish E) q = (Inr (), q, [])"
        by (simp add: keep_text_def finish_def finish_line_def dispatch_def bind_step_def)
      with q Inr fields show ?thesis unfolding resp
        by (simp add: bind_step_def keep_text_def observe_def stream_end_def)
    qed
  qed
qed

lemma stream_without_done_fails_witness:
  "\<exists>e out. stream_response sample_env 1000 500 PlainText 200 [Chunk (event_bytes hello_event)] = (Inl e, out)"
  using stream_without_done_fails [of 200 "[hello_event]" 500 "[event_bytes hello_event]" 1000 sample_env PlainText]
    good_hello hello_event_length
  by (simp add: is_success_def hello_events_data) (simp add: hello_data_eq done_eq)

end
