(* ===== verification/Workshop_State.thy ===== *)
theory Workshop_State
  imports Storage
begin

text \<open>
  The saved Workshop state of crates/story: its records (src/workshop_vocabulary.rs), the shape
  and reference checks a state passes before it is stored, and the protection of text the author
  marked as fixed (src/workshop_state.rs, with \<open>validate_text\<close> and \<open>validate_story_possibilities\<close>
  of src/workshop_metadata.rs). A loop over entries with a \<open>HashSet\<close> of the identifiers seen is
  \<open>check_unique\<close>. \<open>str::to_lowercase\<close> (the Unicode tables) is the argument \<open>lower\<close>. The JSON
  form of a state and the tables that hold it are not modelled: the operations that read the
  state first take it as an argument.
\<close>

section \<open>Records\<close>

datatype lens = Overview | WorldLens | People | Themes | Possibilities | Notebook
datatype workshop_depth = Sketch | Develop | DocumentDepth
datatype preference_polarity = Neutral | Want | Avoid
datatype preference_strength = Soft | Hard
datatype preference_scope = ProjectScope | ElementScope | ExplorationScope
datatype choice_status = SavedChoice | RejectedChoice | ArchivedChoice
datatype question_status = OpenQuestion | NotNow | NotRelevant | KeepMysterious
datatype unknown_to = UnknownToAuthor | UnknownToReader | UnknownToBoth
datatype relationship_status = TentativeRelationship | ChosenRelationship | ArchivedRelationship
datatype possibility_kind = UnresolvedQuestion | IntendedPayoff | PossibleArc
datatype possibility_status = OpenPossibility | ArchivedPossibility
datatype branch_kind = WorkingBranch | WhatIfBranch
datatype decision_status = ChosenDecision | ArchivedDecision | SupersededDecision
datatype impact_kind = Contradiction | PossibleTension | DependentAssumption | StyleSuggestion
datatype impact_status = NeedsReview | Acknowledged | Intentional

record preference =
  pf_id :: ustr
  pf_label :: ustr
  pf_family :: ustr
  pf_meaning :: ustr
  pf_examples :: ustr
  pf_timing :: ustr
  pf_polarity :: preference_polarity
  pf_strength :: preference_strength
  pf_scope :: preference_scope
  pf_target :: "ustr option"
  pf_confirmed :: bool

record workshop_question =
  wq_id :: ustr
  wq_text :: ustr
  wq_reason :: ustr
  wq_status :: question_status
  wq_unknown_to :: unknown_to

record story_possibility =
  sp_id :: ustr
  sp_kind :: possibility_kind
  sp_text :: ustr
  sp_status :: possibility_status

record relationship =
  rl_id :: ustr
  rl_from :: ustr
  rl_to :: ustr
  rl_type :: ustr
  rl_description :: ustr
  rl_uncertainty :: ustr
  rl_status :: relationship_status
  rl_source_heads :: "head list"

record selected_detail =
  sd_id :: ustr
  sd_candidate :: "ustr option"
  sd_text :: ustr
  sd_fixed :: bool

record candidate_choice =
  cc_candidate :: ustr
  cc_status :: choice_status
  cc_rationale :: ustr
  cc_include :: bool

record workshop_session =
  se_id :: ustr
  se_title :: ustr
  se_lens :: lens
  se_parent :: "ustr option"
  se_branch :: branch_kind
  se_brief :: ustr
  se_direction :: ustr
  se_still_open :: ustr
  se_focus_question :: ustr
  se_focus_reason :: ustr
  se_focus_document :: "ustr option"
  se_anchor_document :: "ustr option"
  se_depth :: workshop_depth
  se_outside_direction :: bool
  se_included :: "ustr list"
  se_working_text :: ustr
  se_working_title :: ustr
  se_working_generation :: ustr
  se_details :: "selected_detail list"
  se_choices :: "candidate_choice list"
  se_questions :: "workshop_question list"
  se_composer :: ustr
  se_selected_scope :: ustr
  se_original_notes :: ustr
  se_active_run :: "ustr option"
  se_relationship :: "ustr option"
  se_possibilities :: "story_possibility list"

record decision =
  dc_id :: ustr
  dc_session :: ustr
  dc_title :: ustr
  dc_document :: ustr
  dc_revision :: ustr
  dc_head :: head
  dc_candidates :: "ustr list"
  dc_rationale :: ustr
  dc_status :: decision_status
  dc_fixed :: bool
  dc_protected :: "ustr list"
  dc_access :: ustr
  dc_supersedes :: "ustr option"

record impact =
  im_id :: ustr
  im_decision :: ustr
  im_document :: ustr
  im_kind :: impact_kind
  im_reason :: ustr
  im_status :: impact_status
  im_candidate :: "ustr option"
  im_relationship :: "ustr option"

record preset =
  ps_id :: ustr
  ps_name :: ustr
  ps_preferences :: "preference list"

record workshop_state =
  ws_schema :: nat
  ws_current :: "ustr option"
  ws_sessions :: "workshop_session list"
  ws_preferences :: "preference list"
  ws_decisions :: "decision list"
  ws_relationships :: "relationship list"
  ws_impacts :: "impact list"
  ws_presets :: "preset list"

definition default_state :: workshop_state where
  "default_state = \<lparr>ws_schema = 1, ws_current = None, ws_sessions = [], ws_preferences = [],
     ws_decisions = [], ws_relationships = [], ws_impacts = [], ws_presets = []\<rparr>"

definition MAX_SESSIONS :: nat where "MAX_SESSIONS = 256"
definition MAX_PREFERENCES :: nat where "MAX_PREFERENCES = 512"
definition MAX_DECISIONS :: nat where "MAX_DECISIONS = 512"
definition MAX_RELATIONSHIPS :: nat where "MAX_RELATIONSHIPS = 512"
definition MAX_IMPACTS :: nat where "MAX_IMPACTS = 1024"
definition MAX_PRESETS :: nat where "MAX_PRESETS = 128"
definition MAX_LIST :: nat where "MAX_LIST = 512"
definition MAX_TEXT_BYTES :: nat where "MAX_TEXT_BYTES = 64 * 1024"
definition MAX_DETAIL_BYTES :: nat where "MAX_DETAIL_BYTES = 32 * 1024"
definition MAX_STORY_POSSIBILITIES :: nat where "MAX_STORY_POSSIBILITIES = 64"
definition MAX_STORY_POSSIBILITY_TEXT_CHARS :: nat where "MAX_STORY_POSSIBILITY_TEXT_CHARS = 4000"

section \<open>Checks on entries\<close>

abbreviation bad_request :: core_error where
  "bad_request \<equiv> core_err ''InvalidRequest''"

definition refuse_if :: "bool \<Rightarrow> core_error \<Rightarrow> unit core_result" where
  "refuse_if b e = (if b then Inl e else Inr ())"

definition both :: "unit core_result \<Rightarrow> unit core_result \<Rightarrow> unit core_result" where
  "both a b = and_then a (\<lambda>_. b)"

lemma refuse_if_ok [simp]: "refuse_if b e = Inr x \<longleftrightarrow> \<not> b"
  by (simp add: refuse_if_def)

lemma both_ok [simp]: "both a b = Inr x \<longleftrightarrow> a = Inr () \<and> b = Inr ()"
  by (cases a) (simp_all add: both_def)

definition check_opt :: "('a \<Rightarrow> unit core_result) \<Rightarrow> 'a option \<Rightarrow> unit core_result" where
  "check_opt f m = (case m of None \<Rightarrow> Inr () | Some x \<Rightarrow> f x)"

lemma check_opt_ok [simp]: "check_opt f m = Inr x \<longleftrightarrow> (\<forall>y. m = Some y \<longrightarrow> f y = Inr ())"
  by (cases m) (simp_all add: check_opt_def)

text \<open>
  \<open>for x in xs { pre(x)?; if !seen.insert(key(x)) { return Err } post(x)? }\<close>
\<close>

definition check_unique :: "('a \<Rightarrow> 'k) \<Rightarrow> ('a \<Rightarrow> unit core_result) \<Rightarrow> ('a \<Rightarrow> unit core_result) \<Rightarrow> 'a list \<Rightarrow> 'k list core_result" where
  "check_unique key pre post xs =
    try_fold (\<lambda>seen x. and_then (pre x) (\<lambda>_.
      if key x \<in> set seen then Inl bad_request
      else and_then (post x) (\<lambda>_. Inr (key x # seen)))) [] xs"

definition text_char :: "scalar \<Rightarrow> bool" where
  "text_char c \<longleftrightarrow> \<not> is_control c \<or> c = 10 \<or> c = 13 \<or> c = 9"

definition validate_text :: "ustr \<Rightarrow> nat \<Rightarrow> unit core_result" where
  "validate_text value max_bytes =
    (if max_bytes < blen value \<or> list_ex (\<lambda>c. \<not> text_char c) value then Inl bad_request else Inr ())"

definition validate_story_possibilities :: "story_possibility list \<Rightarrow> unit core_result" where
  "validate_story_possibilities values =
    both (refuse_if (MAX_STORY_POSSIBILITIES < length values) bad_request)
      (and_then (check_unique sp_id (\<lambda>p. check_id (sp_id p))
         (\<lambda>p. both (refuse_if (MAX_STORY_POSSIBILITY_TEXT_CHARS < length (sp_text p)) bad_request)
                (validate_text (sp_text p) MAX_TEXT_BYTES)) values) (\<lambda>_. Inr ()))"

definition validate_id_list :: "ustr list \<Rightarrow> unit core_result" where
  "validate_id_list values =
    both (refuse_if (MAX_LIST < length values) bad_request)
      (and_then (check_unique (\<lambda>v. v) check_id (\<lambda>_. Inr ()) values) (\<lambda>_. Inr ()))"

definition validate_preference :: "preference \<Rightarrow> unit core_result" where
  "validate_preference p =
    both (refuse_if (trim (pf_label p) = []) bad_request)
    (both (try_each (\<lambda>v. validate_text v MAX_TEXT_BYTES)
       [pf_label p, pf_family p, pf_meaning p, pf_examples p, pf_timing p])
    (both (refuse_if (pf_scope p = ProjectScope \<and> pf_target p \<noteq> None) bad_request)
      (if pf_scope p \<noteq> ProjectScope then check_opt check_id (pf_target p) else Inr ())))"

definition validate_preferences :: "preference list \<Rightarrow> unit core_result" where
  "validate_preferences ps =
    both (refuse_if (MAX_PREFERENCES < length ps) bad_request)
      (and_then (check_unique pf_id (\<lambda>p. check_id (pf_id p)) validate_preference ps) (\<lambda>_. Inr ()))"

definition validate_workshop_preset :: "preset \<Rightarrow> unit core_result" where
  "validate_workshop_preset p =
    both (check_id (ps_id p))
    (both (validate_text (ps_name p) MAX_DETAIL_BYTES)
    (both (refuse_if (trim (ps_name p) = []) bad_request)
    (both (validate_preferences (ps_preferences p))
      (refuse_if (list_ex (\<lambda>q. pf_scope q \<noteq> ProjectScope) (ps_preferences p)) bad_request))))"

definition conflicting :: "(ustr \<Rightarrow> ustr) \<Rightarrow> preference \<Rightarrow> preference \<Rightarrow> bool" where
  "conflicting lower p q \<longleftrightarrow> lower (trim (pf_label p)) = lower (trim (pf_label q))
     \<and> pf_polarity p \<noteq> Neutral \<and> pf_polarity q \<noteq> Neutral \<and> pf_polarity p \<noteq> pf_polarity q"

definition validate_hard_preference_conflicts :: "(ustr \<Rightarrow> ustr) \<Rightarrow> workshop_state \<Rightarrow> unit core_result" where
  "validate_hard_preference_conflicts lower st =
    try_each (\<lambda>p.
      try_each (\<lambda>q. refuse_if (conflicting lower p q) (core_err ''PreferenceConflict''))
        (filter (\<lambda>q. pf_confirmed q \<and> pf_id q \<noteq> pf_id p) (ws_preferences st)))
      (filter (\<lambda>p. pf_scope p = ProjectScope \<and> pf_strength p = Hard \<and> pf_confirmed p) (ws_preferences st))"

section \<open>The branch graph\<close>

text \<open>A \<open>HashMap\<close> collected from pairs keeps the last value of a key.\<close>

definition collect_map :: "('a \<Rightarrow> 'k) \<Rightarrow> 'a list \<Rightarrow> 'k \<Rightarrow> 'a option" where
  "collect_map key xs = map_of (rev (map (\<lambda>x. (key x, x)) xs))"

definition parent_of :: "workshop_session list \<Rightarrow> ustr \<Rightarrow> ustr option" where
  "parent_of sessions i = Option.bind (collect_map se_id sessions i) se_parent"

fun branch_ok :: "workshop_session list \<Rightarrow> workshop_session \<Rightarrow> unit core_result" where
  "branch_ok sessions s =
    (case (se_branch s, se_parent s) of
       (WorkingBranch, None) \<Rightarrow> Inr ()
     | (WorkingBranch, Some _) \<Rightarrow> Inl bad_request
     | (WhatIfBranch, None) \<Rightarrow> Inl bad_request
     | (WhatIfBranch, Some p) \<Rightarrow>
         if p = se_id s then Inl bad_request
         else if collect_map se_id sessions p = None then Inl bad_request
         else Inr ())"

declare branch_ok.simps [simp del]

lemma collect_map_dom: "collect_map key xs i = Some x \<Longrightarrow> key x = i \<and> x \<in> set xs"
  by (auto simp: collect_map_def dest!: map_of_SomeD)

function parent_walk :: "workshop_session list \<Rightarrow> ustr list \<Rightarrow> ustr \<Rightarrow> unit core_result" where
  "parent_walk sessions seen i =
    (if i \<in> set seen then Inl bad_request
     else case parent_of sessions i of
       None \<Rightarrow> Inr ()
     | Some p \<Rightarrow> parent_walk sessions (i # seen) p)"
  by pat_completeness auto

termination
proof (relation "measure (\<lambda>(sessions, seen, i). card (se_id ` set sessions - set seen))")
  fix sessions seen i p
  assume "i \<notin> set seen" and "parent_of sessions i = Some p"
  then obtain s where "collect_map se_id sessions i = Some s"
    by (auto simp: parent_of_def bind_eq_Some_conv)
  then have "i \<in> se_id ` set sessions" by (auto dest: collect_map_dom)
  with \<open>i \<notin> set seen\<close> have "se_id ` set sessions - set (i # seen) \<subset> se_id ` set sessions - set seen"
    by auto
  then show "((sessions, i # seen, p), (sessions, seen, i))
      \<in> measure (\<lambda>(sessions, seen, i). card (se_id ` set sessions - set seen))"
    by (simp only: in_measure prod.case) (rule psubset_card_mono, simp_all)
qed simp

declare parent_walk.simps [simp del]

definition validate_session_branch_graph :: "workshop_session list \<Rightarrow> unit core_result" where
  "validate_session_branch_graph sessions =
    both (try_each (branch_ok sessions) sessions)
      (try_each (\<lambda>s. parent_walk sessions [] (se_id s)) sessions)"

section \<open>The shape of a state\<close>

definition validate_detail :: "selected_detail \<Rightarrow> unit core_result" where
  "validate_detail d = both (validate_text (sd_text d) MAX_DETAIL_BYTES) (check_opt check_id (sd_candidate d))"

definition validate_question :: "workshop_question \<Rightarrow> unit core_result" where
  "validate_question q = both (validate_text (wq_text q) MAX_DETAIL_BYTES) (validate_text (wq_reason q) MAX_DETAIL_BYTES)"

definition discard :: "'a core_result \<Rightarrow> unit core_result" where
  "discard r = and_then r (\<lambda>_. Inr ())"

definition validate_session_texts :: "workshop_session \<Rightarrow> unit core_result" where
  "validate_session_texts s =
    try_each (\<lambda>(v, n). validate_text v n)
      [(se_title s, MAX_DETAIL_BYTES), (se_brief s, MAX_TEXT_BYTES), (se_direction s, MAX_TEXT_BYTES),
       (se_still_open s, MAX_TEXT_BYTES), (se_focus_question s, MAX_TEXT_BYTES),
       (se_focus_reason s, MAX_TEXT_BYTES), (se_working_text s, MAX_TEXT_BYTES),
       (se_working_title s, MAX_DETAIL_BYTES), (se_working_generation s, 128),
       (se_composer s, MAX_TEXT_BYTES), (se_selected_scope s, MAX_DETAIL_BYTES),
       (se_original_notes s, MAX_TEXT_BYTES)]"

definition validate_session :: "workshop_session \<Rightarrow> unit core_result" where
  "validate_session s =
    both (validate_session_texts s)
    (both (check_opt check_id (se_parent s))
    (both (check_opt check_id (se_focus_document s))
    (both (check_opt check_id (se_anchor_document s))
    (both (validate_id_list (se_included s))
    (both (refuse_if (MAX_LIST < length (se_details s) \<or> MAX_LIST < length (se_choices s)
             \<or> MAX_LIST < length (se_questions s)) bad_request)
    (both (validate_story_possibilities (se_possibilities s))
    (both (discard (check_unique sd_id (\<lambda>d. check_id (sd_id d)) validate_detail (se_details s)))
    (both (discard (check_unique cc_candidate (\<lambda>c. check_id (cc_candidate c))
             (\<lambda>c. validate_text (cc_rationale c) MAX_DETAIL_BYTES) (se_choices s)))
    (both (discard (check_unique wq_id (\<lambda>q. check_id (wq_id q)) validate_question (se_questions s)))
      (check_opt check_id (se_active_run s)))))))))))"

text \<open>The loop over the decisions keeps a second set, of the documents with a chosen decision.\<close>

definition validate_decision_fields :: "decision \<Rightarrow> unit core_result" where
  "validate_decision_fields d =
    both (check_id (dc_session d))
    (both (check_id (dc_document d))
    (both (check_id (dc_revision d))
    (both (check_id (document_id (dc_head d)))
    (both (refuse_if (document_id (dc_head d) \<noteq> dc_document d) bad_request)
    (both (refuse_if (MAX_LIST < length (dc_candidates d)) bad_request)
    (both (validate_id_list (dc_candidates d))
    (both (validate_text (dc_title d) MAX_DETAIL_BYTES)
    (both (validate_text (dc_rationale d) MAX_TEXT_BYTES)
    (both (refuse_if (dc_access d \<noteq> u ''authorRoom'') bad_request)
    (both (try_each (\<lambda>t. validate_text t MAX_DETAIL_BYTES) (dc_protected d))
      (check_opt check_id (dc_supersedes d))))))))))))"

definition decision_step :: "ustr list \<times> ustr list \<Rightarrow> decision \<Rightarrow> (ustr list \<times> ustr list) core_result" where
  "decision_step seen d =
    (case seen of (ids, chosen) \<Rightarrow>
      and_then (check_id (dc_id d)) (\<lambda>_.
      if dc_id d \<in> set ids then Inl bad_request
      else if dc_status d = ChosenDecision \<and> dc_document d \<in> set chosen then Inl bad_request
      else and_then (validate_decision_fields d) (\<lambda>_.
        Inr (dc_id d # ids, if dc_status d = ChosenDecision then dc_document d # chosen else chosen))))"

definition validate_decisions :: "decision list \<Rightarrow> unit core_result" where
  "validate_decisions ds = discard (try_fold decision_step ([], []) ds)"

definition validate_source_head :: "head \<Rightarrow> unit core_result" where
  "validate_source_head h =
    both (check_id (document_id h))
    (both (discard (parse_version (version h))) (refuse_if (\<not> valid_hash (body_hash h)) bad_request))"

definition validate_relationship :: "relationship \<Rightarrow> unit core_result" where
  "validate_relationship r =
    both (check_id (rl_from r))
    (both (check_id (rl_to r))
    (both (try_each (\<lambda>v. validate_text v MAX_DETAIL_BYTES) [rl_type r, rl_description r, rl_uncertainty r])
    (both (refuse_if (length (rl_source_heads r) \<noteq> 2) bad_request)
      (try_each validate_source_head (rl_source_heads r)))))"

definition validate_impact :: "impact \<Rightarrow> unit core_result" where
  "validate_impact i =
    both (check_id (im_decision i))
    (both (check_id (im_document i))
    (both (validate_text (im_reason i) MAX_DETAIL_BYTES)
    (both (check_opt check_id (im_candidate i))
    (both (check_opt check_id (im_relationship i))
      (refuse_if (im_candidate i \<noteq> None \<and> im_relationship i \<noteq> None) bad_request)))))"

definition validate_state_shape :: "(ustr \<Rightarrow> ustr) \<Rightarrow> workshop_state \<Rightarrow> unit core_result" where
  "validate_state_shape lower st =
    both (refuse_if (ws_schema st \<noteq> 1) (core_err ''UnsupportedSchema''))
    (both (refuse_if (MAX_SESSIONS < length (ws_sessions st) \<or> MAX_DECISIONS < length (ws_decisions st)
            \<or> MAX_RELATIONSHIPS < length (ws_relationships st) \<or> MAX_IMPACTS < length (ws_impacts st)
            \<or> MAX_PRESETS < length (ws_presets st)) bad_request)
    (both (validate_session_branch_graph (ws_sessions st))
    (both (and_then (check_unique se_id (\<lambda>s. check_id (se_id s)) validate_session (ws_sessions st)) (\<lambda>ids.
       check_opt (\<lambda>c. both (check_id c) (refuse_if (c \<notin> set ids) bad_request)) (ws_current st)))
    (both (validate_preferences (ws_preferences st))
    (both (validate_hard_preference_conflicts lower st)
    (both (validate_preferences (concat (map ps_preferences (ws_presets st))))
    (both (validate_decisions (ws_decisions st))
    (both (discard (check_unique rl_id (\<lambda>r. check_id (rl_id r)) validate_relationship (ws_relationships st)))
    (both (discard (check_unique im_id (\<lambda>i. check_id (im_id i)) validate_impact (ws_impacts st)))
      (try_each (\<lambda>p. both (check_id (ps_id p)) (validate_text (ps_name p) MAX_DETAIL_BYTES)) (ws_presets st)))))))))))"

section \<open>References\<close>

definition existing_document_ids :: "db \<Rightarrow> ustr list" where
  "existing_document_ids D = map d_id (filter (\<lambda>d. \<not> d_trashed d \<and> d_role d = u ''ordinary'') (documents D))"

definition validate_session_relationship_references :: "workshop_state \<Rightarrow> unit core_result" where
  "validate_session_relationship_references st =
    try_each (\<lambda>s. check_opt (\<lambda>r. refuse_if (r \<notin> rl_id ` set (ws_relationships st)) bad_request) (se_relationship s))
      (ws_sessions st)"

definition session_references :: "ustr list \<Rightarrow> workshop_session \<Rightarrow> unit core_result" where
  "session_references docs s =
    both (check_opt (\<lambda>i. refuse_if (i \<notin> set docs) bad_request) (se_focus_document s))
    (both (try_each (\<lambda>i. refuse_if (i \<notin> set docs) bad_request) (se_included s))
      (check_opt (\<lambda>a. refuse_if (a \<notin> set docs \<and> \<not> starts_with a (u ''workshop-'')) bad_request)
        (se_anchor_document s)))"

definition preference_references :: "ustr list \<Rightarrow> ustr list \<Rightarrow> preference \<Rightarrow> unit core_result" where
  "preference_references docs sessions p =
    (case pf_scope p of
       ProjectScope \<Rightarrow> refuse_if (pf_target p \<noteq> None) bad_request
     | ElementScope \<Rightarrow> and_then (ok_or bad_request (pf_target p)) (\<lambda>t. refuse_if (t \<notin> set docs) bad_request)
     | ExplorationScope \<Rightarrow> and_then (ok_or bad_request (pf_target p)) (\<lambda>t. refuse_if (t \<notin> set sessions) bad_request))"

definition decision_references :: "env \<Rightarrow> db \<Rightarrow> ustr list \<Rightarrow> ustr list \<Rightarrow> decision \<Rightarrow> unit core_result" where
  "decision_references E D docs sessions d =
    both (refuse_if (dc_session d \<notin> set sessions \<or> dc_document d \<notin> set docs) bad_request)
      (and_then (read_revision E D (dc_revision d)) (\<lambda>r.
        refuse_if (rev_head r \<noteq> dc_head d \<or> document_id (rev_head r) \<noteq> dc_document d) bad_request))"

definition relationship_impact :: "relationship list \<Rightarrow> decision \<Rightarrow> impact \<Rightarrow> ustr \<Rightarrow> unit core_result" where
  "relationship_impact rels d i rid =
    and_then (ok_or bad_request (find (\<lambda>r. rl_id r = rid) rels)) (\<lambda>r.
    both (refuse_if (rl_from r \<noteq> im_document i \<and> rl_to r \<noteq> im_document i) bad_request)
      (refuse_if (dc_document d \<noteq> im_document i) bad_request))"

definition impact_references :: "workshop_state \<Rightarrow> ustr list \<Rightarrow> impact \<Rightarrow> unit core_result" where
  "impact_references st docs i =
    and_then (ok_or bad_request (collect_map dc_id (ws_decisions st) (im_decision i))) (\<lambda>d.
    both (refuse_if (im_document i \<notin> set docs) bad_request)
    (both (check_opt (\<lambda>c. refuse_if (c \<notin> set (dc_candidates d)) bad_request) (im_candidate i))
      (check_opt (relationship_impact (ws_relationships st) d i) (im_relationship i))))"

definition relationship_references :: "ustr list \<Rightarrow> ustr list \<Rightarrow> relationship \<Rightarrow> unit core_result" where
  "relationship_references docs extra r =
    both (refuse_if ((rl_from r \<notin> set docs \<and> rl_from r \<notin> set extra)
            \<or> (rl_to r \<notin> set docs \<and> rl_to r \<notin> set extra)) bad_request)
      (try_each (\<lambda>(h, i). refuse_if (document_id h \<noteq> i) bad_request) (zip (rl_source_heads r) [rl_from r, rl_to r]))"

section \<open>What a save may not change\<close>

definition same_branch :: "workshop_session list \<Rightarrow> workshop_session \<Rightarrow> unit core_result" where
  "same_branch old s =
    check_opt (\<lambda>w. refuse_if (se_parent w \<noteq> se_parent s \<or> se_branch w \<noteq> se_branch s) bad_request)
      (collect_map se_id old (se_id s))"

definition same_decision :: "decision list \<Rightarrow> decision \<Rightarrow> unit core_result" where
  "same_decision old d =
    and_then (ok_or bad_request (collect_map dc_id old (dc_id d))) (\<lambda>w.
      refuse_if (dc_session w \<noteq> dc_session d \<or> dc_title w \<noteq> dc_title d \<or> dc_document w \<noteq> dc_document d
        \<or> dc_revision w \<noteq> dc_revision d \<or> dc_head w \<noteq> dc_head d \<or> dc_candidates w \<noteq> dc_candidates d
        \<or> dc_access w \<noteq> dc_access d \<or> dc_supersedes w \<noteq> dc_supersedes d) bad_request)"

definition same_impact :: "impact list \<Rightarrow> impact \<Rightarrow> unit core_result" where
  "same_impact old i =
    and_then (ok_or bad_request (collect_map im_id old (im_id i))) (\<lambda>w.
      refuse_if (im_decision w \<noteq> im_decision i \<or> im_document w \<noteq> im_document i \<or> im_kind w \<noteq> im_kind i
        \<or> im_reason w \<noteq> im_reason i \<or> im_candidate w \<noteq> im_candidate i
        \<or> im_relationship w \<noteq> im_relationship i) bad_request)"

definition all_details :: "workshop_state \<Rightarrow> selected_detail list" where
  "all_details st = concat (map se_details (ws_sessions st))"

definition same_fixed_detail :: "selected_detail list \<Rightarrow> selected_detail \<Rightarrow> unit core_result" where
  "same_fixed_detail old d =
    check_opt (\<lambda>w. refuse_if (sd_fixed w \<and> sd_fixed d \<and> sd_text w \<noteq> sd_text d) (core_err ''ProtectedContentChanged''))
      (collect_map sd_id old (sd_id d))"

definition validate_history_kept :: "workshop_state \<Rightarrow> workshop_state \<Rightarrow> unit core_result" where
  "validate_history_kept previous st =
    both (try_each (same_branch (ws_sessions previous)) (ws_sessions st))
    (both (try_each (same_decision (ws_decisions previous)) (ws_decisions st))
    (both (refuse_if (length (ws_decisions st) \<noteq> length (ws_decisions previous)) bad_request)
    (both (try_each (same_impact (ws_impacts previous)) (ws_impacts st))
    (both (refuse_if (length (ws_impacts st) \<noteq> length (ws_impacts previous)) bad_request)
      (try_each (same_fixed_detail (all_details previous)) (all_details st))))))"

definition validate_state_references ::
  "(ustr \<Rightarrow> ustr) \<Rightarrow> env \<Rightarrow> db \<Rightarrow> workshop_state \<Rightarrow> workshop_state option \<Rightarrow> ustr list \<Rightarrow> unit core_result" where
  "validate_state_references lower E D st current extra =
    (let docs = existing_document_ids D; sessions = map se_id (ws_sessions st) in
     both (validate_state_shape lower st)
     (both (try_each (session_references docs) (ws_sessions st))
     (both (validate_session_relationship_references st)
     (both (try_each (preference_references docs sessions) (ws_preferences st))
     (both (try_each validate_workshop_preset (ws_presets st))
     (both (try_each (decision_references E D docs sessions) (ws_decisions st))
     (both (try_each (impact_references st docs) (ws_impacts st))
     (both (try_each (relationship_references docs extra) (ws_relationships st))
       (check_opt (\<lambda>previous. validate_history_kept previous st) current)))))))))"

section \<open>Protected text\<close>

definition json_items :: "json option \<Rightarrow> json list" where
  "json_items v = (case Option.bind v as_arr of None \<Rightarrow> [] | Some vs \<Rightarrow> vs)"

definition node_text :: "json \<Rightarrow> ustr" where
  "node_text n =
    (if json_get n (u ''type'') = Some (JStr (u ''hardBreak'')) then [10]
     else case Option.bind (json_get n (u ''text'')) as_str of None \<Rightarrow> [] | Some t \<Rightarrow> t)"

definition body_text :: "json \<Rightarrow> ustr" where
  "body_text v =
    join_str [10, 10]
      (map (\<lambda>block. concat (map node_text (json_items (json_get block (u ''content'')))))
        (json_items (Option.bind (json_get v (u ''body'')) (\<lambda>b. json_get b (u ''content'')))))"

definition validate_protected_text ::
  "document_record option \<Rightarrow> json \<Rightarrow> ustr list \<Rightarrow> ustr list \<Rightarrow> unit core_result" where
  "validate_protected_text old new_body protected must_exist_in_old =
    try_each (\<lambda>t.
      both (validate_text t MAX_DETAIL_BYTES)
      (both (refuse_if (t = [] \<or> \<not> contains_str (body_text new_body) t) (core_err ''ProtectedContentChanged''))
        (refuse_if (case old of None \<Rightarrow> False
           | Some r \<Rightarrow> t \<in> set must_exist_in_old \<and> \<not> contains_str (body_text (body r)) t) bad_request)))
      protected"

definition session_protected :: "workshop_state \<Rightarrow> document_record \<Rightarrow> ustr list core_result" where
  "session_protected st current =
    (case ws_current st of
       None \<Rightarrow> Inr []
     | Some i \<Rightarrow>
         and_then (ok_or (core_err ''InvalidProject'') (find (\<lambda>s. se_id s = i) (ws_sessions st))) (\<lambda>s.
         Inr (map sd_text (filter (\<lambda>d. sd_fixed d \<and> sd_text d \<noteq> [] \<and> contains_str (body_text (body current)) (sd_text d))
           (se_details s)))))"

definition decision_protected :: "env \<Rightarrow> db \<Rightarrow> ustr list \<Rightarrow> decision \<Rightarrow> ustr list core_result" where
  "decision_protected E D acc d =
    (if dc_protected d = []
     then and_then (read_revision E D (dc_revision d)) (\<lambda>r. Inr (acc @ [body_text (rev_body r)]))
     else Inr (acc @ dc_protected d))"

definition protected_texts :: "env \<Rightarrow> db \<Rightarrow> workshop_state \<Rightarrow> document_record \<Rightarrow> ustr \<Rightarrow> ustr list core_result" where
  "protected_texts E D st current doc =
    and_then (session_protected st current) (\<lambda>ts.
    and_then (try_fold (decision_protected E D) ts
      (filter (\<lambda>d. dc_fixed d \<and> dc_document d = doc) (ws_decisions st))) (\<lambda>all.
    Inr (remdups_adj (sort_key bytes all))))"

definition chat_protected_text :: "env \<Rightarrow> db \<Rightarrow> workshop_state \<Rightarrow> ustr \<Rightarrow> ustr list core_result" where
  "chat_protected_text E D st doc =
    and_then (read_document E D doc) (\<lambda>current. protected_texts E D st current doc)"

definition validate_chat_material_target :: "env \<Rightarrow> db \<Rightarrow> workshop_state \<Rightarrow> ustr \<times> json \<Rightarrow> unit core_result" where
  "validate_chat_material_target E D st target =
    (case read_document E D (fst target) of
       Inl _ \<Rightarrow> Inr ()
     | Inr current \<Rightarrow>
         and_then (protected_texts E D st current (fst target)) (\<lambda>protected.
         validate_protected_text (Some current) (snd target) protected protected))"

definition validate_chat_material_targets :: "env \<Rightarrow> db \<Rightarrow> workshop_state \<Rightarrow> (ustr \<times> json) list \<Rightarrow> unit core_result" where
  "validate_chat_material_targets E D st targets = try_each (validate_chat_material_target E D st) targets"

definition chat_relationship_dependencies :: "workshop_state \<Rightarrow> ustr list \<Rightarrow> relationship list" where
  "chat_relationship_dependencies st docs =
    filter (\<lambda>r. rl_from r \<in> set docs \<or> rl_to r \<in> set docs) (ws_relationships st)"

end
