(* ===== verification/Workshop_Properties.thy ===== *)
theory Workshop_Properties
  imports Workshop_State Sample_Project
begin

text \<open>
  What an accepted Workshop state guarantees: the sessions form a forest whose roots are working
  sessions, a save neither adds, removes nor rewrites adopted decisions and impacts, decisions
  point at stored revisions, and fixed text survives an adoption.
\<close>

section \<open>Loops over entries\<close>

lemma try_fold_unique:
  "try_fold (\<lambda>seen x. and_then (pre x) (\<lambda>_.
      if key x \<in> set seen then Inl bad_request
      else and_then (post x) (\<lambda>_. Inr (key x # seen)))) acc xs = Inr s \<longleftrightarrow>
    (\<forall>x \<in> set xs. pre x = Inr () \<and> post x = Inr ()) \<and> distinct (map key xs)
    \<and> key ` set xs \<inter> set acc = {} \<and> s = rev (map key xs) @ acc"
  by (induction xs arbitrary: acc) (auto simp: and_then_eq_Inr split: if_splits)

lemma check_unique_ok:
  "check_unique key pre post xs = Inr s \<longleftrightarrow>
    (\<forall>x \<in> set xs. pre x = Inr () \<and> post x = Inr ()) \<and> distinct (map key xs) \<and> s = rev (map key xs)"
  by (simp add: check_unique_def try_fold_unique)

lemma discard_ok [simp]: "discard r = Inr x \<longleftrightarrow> (\<exists>y. r = Inr y)"
  by (cases r) (simp_all add: discard_def)

lemma collect_map_None: "collect_map key xs i = None \<longleftrightarrow> i \<notin> key ` set xs"
  by (force simp: collect_map_def map_of_eq_None_iff image_image)

lemma collect_map_distinct:
  "distinct (map key xs) \<Longrightarrow> x \<in> set xs \<Longrightarrow> collect_map key xs (key x) = Some x"
  unfolding collect_map_def by (rule map_of_is_SomeI) (auto simp: rev_map [symmetric] comp_def)

definition chosen_documents :: "decision list \<Rightarrow> ustr list" where
  "chosen_documents ds = map dc_document (filter (\<lambda>d. dc_status d = ChosenDecision) ds)"

lemma try_fold_decisions:
  "try_fold decision_step (ids, chosen) ds = Inr s \<Longrightarrow>
    (\<forall>d \<in> set ds. validate_decision_fields d = Inr ()) \<and> distinct (map dc_id ds)
    \<and> dc_id ` set ds \<inter> set ids = {} \<and> distinct (chosen_documents ds)
    \<and> set (chosen_documents ds) \<inter> set chosen = {}"
proof (induction ds arbitrary: ids chosen)
  case (Cons d ds)
  from Cons.prems obtain s' where step: "decision_step (ids, chosen) d = Inr s'"
    and rest: "try_fold decision_step s' ds = Inr s"
    by (auto elim: and_then_okE)
  from step have d: "validate_decision_fields d = Inr ()" "dc_id d \<notin> set ids"
    "dc_status d = ChosenDecision \<Longrightarrow> dc_document d \<notin> set chosen"
    "s' = (dc_id d # ids, if dc_status d = ChosenDecision then dc_document d # chosen else chosen)"
    by (auto simp: decision_step_def and_then_eq_Inr split: if_splits)
  from Cons.IH [OF rest [unfolded d(4)]] d(1-3) show ?case
    by (auto simp: chosen_documents_def split: if_splits)
qed (simp add: chosen_documents_def)

lemma validate_decisions_ok:
  "validate_decisions ds = Inr () \<Longrightarrow>
    (\<forall>d \<in> set ds. validate_decision_fields d = Inr ()) \<and> distinct (map dc_id ds) \<and> distinct (chosen_documents ds)"
  using try_fold_decisions [of "[]" "[]"] by (auto simp: validate_decisions_def)

section \<open>The branch graph\<close>

definition parent_rel :: "workshop_session list \<Rightarrow> (ustr \<times> ustr) set" where
  "parent_rel sessions = {(i, p). parent_of sessions i = Some p}"

lemma parent_rel_cases:
  "(i, j) \<in> (parent_rel sessions)\<^sup>* \<longleftrightarrow>
    i = j \<or> (\<exists>p. parent_of sessions i = Some p \<and> (p, j) \<in> (parent_rel sessions)\<^sup>*)"
  by (auto simp: parent_rel_def elim: converse_rtranclE intro: converse_rtrancl_into_rtrancl)

lemma parent_rel_loop:
  "(i, i) \<in> (parent_rel sessions)\<^sup>+ \<longleftrightarrow> (\<exists>p. parent_of sessions i = Some p \<and> (p, i) \<in> (parent_rel sessions)\<^sup>*)"
  by (auto simp: parent_rel_def dest: tranclD intro: rtrancl_into_trancl2)

text \<open>The walk refuses exactly the sessions from which a loop or a visited session is reached.\<close>

lemma parent_walk_ok:
  "parent_walk sessions seen i = Inr () \<longleftrightarrow>
    (\<forall>j. (i, j) \<in> (parent_rel sessions)\<^sup>* \<longrightarrow> j \<notin> set seen \<and> (j, j) \<notin> (parent_rel sessions)\<^sup>+)"
proof (induction sessions seen i rule: parent_walk.induct)
  case (1 sessions seen i)
  let ?R = "parent_rel sessions"
  show ?case
  proof (cases "i \<in> set seen")
    case True
    then show ?thesis by (subst parent_walk.simps) auto
  next
    case False
    show ?thesis
    proof (cases "parent_of sessions i")
      case None
      with False show ?thesis
        by (subst parent_walk.simps) (simp add: parent_rel_cases [of i] parent_rel_loop)
    next
      case (Some p)
      have "parent_walk sessions seen i = parent_walk sessions (i # seen) p"
        using False Some by (subst parent_walk.simps) simp
      also have "\<dots> = Inr () \<longleftrightarrow> (\<forall>j. (p, j) \<in> ?R\<^sup>* \<longrightarrow> j \<notin> set (i # seen) \<and> (j, j) \<notin> ?R\<^sup>+)"
        by (rule 1 [OF False Some])
      also have "\<dots> \<longleftrightarrow> (\<forall>j. (i, j) \<in> ?R\<^sup>* \<longrightarrow> j \<notin> set seen \<and> (j, j) \<notin> ?R\<^sup>+)"
        using False Some by (auto simp: parent_rel_cases [of i] parent_rel_loop [of i])
      finally show ?thesis .
    qed
  qed
qed

lemma parent_rel_domain: "(i, p) \<in> parent_rel sessions \<Longrightarrow> i \<in> se_id ` set sessions"
  by (auto simp: parent_rel_def parent_of_def bind_eq_Some_conv dest: collect_map_dom)

lemma walks_acyclic:
  "(\<forall>s \<in> set sessions. parent_walk sessions [] (se_id s) = Inr ()) \<longleftrightarrow> acyclic (parent_rel sessions)"
proof
  assume ok: "\<forall>s \<in> set sessions. parent_walk sessions [] (se_id s) = Inr ()"
  show "acyclic (parent_rel sessions)"
  proof (rule acyclicI, intro allI notI)
    fix i
    assume loop: "(i, i) \<in> (parent_rel sessions)\<^sup>+"
    then obtain p where "(i, p) \<in> parent_rel sessions" by (meson tranclD)
    then obtain s where "s \<in> set sessions" "se_id s = i" by (auto dest: parent_rel_domain)
    with ok loop show False by (force simp: parent_walk_ok)
  qed
qed (auto simp: parent_walk_ok acyclic_def)

definition branch_spec :: "workshop_session list \<Rightarrow> workshop_session \<Rightarrow> bool" where
  "branch_spec sessions s \<longleftrightarrow>
    (case se_parent s of
       None \<Rightarrow> se_branch s = WorkingBranch
     | Some p \<Rightarrow> se_branch s = WhatIfBranch \<and> p \<noteq> se_id s \<and> p \<in> se_id ` set sessions)"

lemma branch_ok_spec: "branch_ok sessions s = Inr () \<longleftrightarrow> branch_spec sessions s"
  by (auto simp: branch_ok.simps branch_spec_def collect_map_None split: branch_kind.splits option.splits)

lemma branch_graph_ok:
  "validate_session_branch_graph sessions = Inr () \<longleftrightarrow>
    (\<forall>s \<in> set sessions. branch_spec sessions s) \<and> acyclic (parent_rel sessions)"
  by (simp add: validate_session_branch_graph_def try_each_eq_Inr branch_ok_spec walks_acyclic)

lemma walk_to_root:
  assumes "parent_walk sessions seen i = Inr ()" and "\<forall>s \<in> set sessions. branch_spec sessions s"
    and "i \<in> se_id ` set sessions"
  shows "\<exists>r \<in> set sessions. (i, se_id r) \<in> (parent_rel sessions)\<^sup>* \<and> se_branch r = WorkingBranch"
  using assms
proof (induction sessions seen i rule: parent_walk.induct)
  case (1 sessions seen i)
  from "1.prems"(1) have i: "i \<notin> set seen" by (subst (asm) parent_walk.simps) (auto split: if_splits)
  from "1.prems"(3) obtain s where s: "collect_map se_id sessions i = Some s"
    by (metis collect_map_None option.exhaust)
  then have in_set: "s \<in> set sessions" "se_id s = i" by (auto dest: collect_map_dom)
  show ?case
  proof (cases "parent_of sessions i")
    case None
    with s have "se_parent s = None" by (simp add: parent_of_def)
    with "1.prems"(2) in_set(1) have "se_branch s = WorkingBranch" by (force simp: branch_spec_def)
    with in_set show ?thesis by blast
  next
    case (Some p)
    with s have "se_parent s = Some p" by (simp add: parent_of_def)
    with "1.prems"(2) in_set have "p \<in> se_id ` set sessions" by (auto simp: branch_spec_def)
    moreover have "parent_walk sessions (i # seen) p = Inr ()"
      using "1.prems"(1) i Some by (subst (asm) parent_walk.simps) simp
    ultimately show ?thesis
      using "1.IH" [OF i Some] "1.prems"(2) Some by (auto simp: parent_rel_cases [of i])
  qed
qed

section \<open>Accepted states\<close>

lemma shape_parts:
  assumes "validate_state_shape lower st = Inr ()"
  shows "validate_session_branch_graph (ws_sessions st) = Inr ()" "distinct (map se_id (ws_sessions st))"
    "\<forall>s \<in> set (ws_sessions st). validate_session s = Inr ()"
    "validate_decisions (ws_decisions st) = Inr ()" "distinct (map im_id (ws_impacts st))"
    "validate_hard_preference_conflicts lower st = Inr ()"
  using assms by (auto simp: validate_state_shape_def check_unique_ok and_then_eq_Inr)

lemma references_parts:
  assumes "validate_state_references lower E D st current extra = Inr ()"
  shows "validate_state_shape lower st = Inr ()"
    "\<forall>d \<in> set (ws_decisions st). decision_references E D (existing_document_ids D) (map se_id (ws_sessions st)) d = Inr ()"
    "\<And>previous. current = Some previous \<Longrightarrow> validate_history_kept previous st = Inr ()"
  using assms by (auto simp: validate_state_references_def Let_def try_each_eq_Inr)

text \<open>Keys that only come from an old list of the same length are the keys of the old list.\<close>

lemma same_keys:
  assumes "distinct (map key new)" and "length new = length old" and "key ` set new \<subseteq> key ` set old"
  shows "key ` set new = key ` set old"
proof -
  have "card (key ` set old) \<le> length old" by (metis card_length length_map list.set_map)
  also have "\<dots> = card (key ` set new)"
    using assms(1,2) by (metis distinct_card length_map list.set_map)
  finally show ?thesis using assms(3) by (metis List.finite_set card_seteq finite_imageI)
qed

section \<open>A sample state\<close>

definition sample_session :: "string \<Rightarrow> branch_kind \<Rightarrow> ustr option \<Rightarrow> selected_detail list \<Rightarrow> workshop_session" where
  "sample_session i b p ds = \<lparr>se_id = u i, se_title = [], se_lens = Overview, se_parent = p, se_branch = b,
     se_brief = [], se_direction = [], se_still_open = [], se_focus_question = [], se_focus_reason = [],
     se_focus_document = Some (u ''doc''), se_anchor_document = Some (u ''workshop-a''), se_depth = Sketch,
     se_outside_direction = False, se_included = [u ''doc''], se_working_text = [], se_working_title = [],
     se_working_generation = [], se_details = ds, se_choices = [], se_questions = [], se_composer = [],
     se_selected_scope = [], se_original_notes = [], se_active_run = None, se_relationship = None,
     se_possibilities = []\<rparr>"

definition sample_decision :: "string \<Rightarrow> decision" where
  "sample_decision why = \<lparr>dc_id = u ''d1'', dc_session = u ''a'', dc_title = u ''Name'', dc_document = u ''doc'',
     dc_revision = u ''r0'', dc_head = sample_head, dc_candidates = [u ''c1''], dc_rationale = u why,
     dc_status = ChosenDecision, dc_fixed = True, dc_protected = [u ''ex''], dc_access = u ''authorRoom'',
     dc_supersedes = None\<rparr>"

definition sample_detail :: selected_detail where
  "sample_detail = \<lparr>sd_id = u ''s1'', sd_candidate = None, sd_text = u ''Te'', sd_fixed = True\<rparr>"

definition sample_workshop :: "string \<Rightarrow> workshop_state" where
  "sample_workshop why = \<lparr>ws_schema = 1, ws_current = Some (u ''a''),
     ws_sessions = [sample_session ''a'' WorkingBranch None [sample_detail],
       sample_session ''b'' WhatIfBranch (Some (u ''a'')) []],
     ws_preferences = [], ws_decisions = [sample_decision why], ws_relationships = [],
     ws_impacts = [\<lparr>im_id = u ''i1'', im_decision = u ''d1'', im_document = u ''doc'', im_kind = PossibleTension,
       im_reason = u ''why'', im_status = NeedsReview, im_candidate = Some (u ''c1''), im_relationship = None\<rparr>],
     ws_presets = []\<rparr>"

definition sample_workshop_db :: db where
  "sample_workshop_db = sample_db\<lparr>revisions := [\<lparr>r_id = u ''r0'', r_document = u ''doc'', r_version = 3,
     r_body = sample_text sample_document, r_hash = sample_hash sample_document, r_parent = None,
     r_reason = u ''save''\<rparr>]\<rparr>"

lemma sample_workshop_ids: "valid_id (u ''a'')" "valid_id (u ''b'')" "valid_id (u ''d1'')" "valid_id (u ''c1'')"
  "valid_id (u ''i1'')" "valid_id (u ''r0'')" "valid_id (u ''workshop-a'')" "valid_id (u ''s1'')" "valid_id (u ''doc'')"
  by code_simp+

lemma sample_texts: "validate_text [] n = Inr ()" "8 \<le> n \<Longrightarrow> validate_text (u ''ex'') n = Inr ()"
  "8 \<le> n \<Longrightarrow> validate_text (u ''Te'') n = Inr ()" "8 \<le> n \<Longrightarrow> validate_text (u ''why'') n = Inr ()"
  "8 \<le> n \<Longrightarrow> validate_text (u ''Name'') n = Inr ()" "8 \<le> n \<Longrightarrow> validate_text (u ''better'') n = Inr ()"
  by (simp_all add: validate_text_def text_char_def is_control_def u_def)

lemma sample_limits: "8 \<le> MAX_TEXT_BYTES" "8 \<le> MAX_DETAIL_BYTES" "0 < MAX_LIST" "\<not> MAX_LIST < Suc 0"
  by (simp_all add: MAX_TEXT_BYTES_def MAX_DETAIL_BYTES_def MAX_LIST_def)

lemmas sample_checks = sample_texts sample_limits sample_workshop_ids check_unique_ok and_then_eq_Inr validate_id_list_def

lemma sample_session_ok:
  "validate_session (sample_session i b p []) = Inr () \<longleftrightarrow> (\<forall>x. p = Some x \<longrightarrow> valid_id x)"
  "validate_session (sample_session i b p [sample_detail]) = Inr () \<longleftrightarrow> (\<forall>x. p = Some x \<longrightarrow> valid_id x)"
  by (auto simp: validate_session_def validate_session_texts_def sample_session_def sample_checks
      validate_story_possibilities_def validate_detail_def sample_detail_def)

lemma sample_branches: "validate_session_branch_graph (ws_sessions (sample_workshop why)) = Inr ()"
  by code_simp

lemma sample_r0: "read_revision sample_env sample_workshop_db (u ''r0'')
    = Inr \<lparr>rev_id = u ''r0'', rev_head = sample_head, rev_body = document_value sample_document, reason = u ''save'', parent_id = None\<rparr>"
  by (simp add: read_revision_def find_revision_def sample_workshop_db_def sample_bodies receipt_of_def Let_def sample_head_def sample_three)

lemma sample_decision_ok: "validate_text (u why) MAX_TEXT_BYTES = Inr () \<Longrightarrow> validate_decisions [sample_decision why] = Inr ()"
  by (simp add: validate_decisions_def decision_step_def validate_decision_fields_def sample_decision_def sample_checks)

lemma sample_shape:
  assumes "validate_text (u why) MAX_TEXT_BYTES = Inr ()"
  shows "validate_state_shape (\<lambda>t. t) (sample_workshop why) = Inr ()"
  using sample_branches [of why] sample_decision_ok [OF assms]
  by (simp add: validate_state_shape_def sample_workshop_def sample_checks sample_session_ok MAX_SESSIONS_def
      MAX_DECISIONS_def MAX_RELATIONSHIPS_def MAX_IMPACTS_def MAX_PRESETS_def validate_preferences_def
      validate_hard_preference_conflicts_def validate_impact_def) (simp add: sample_session_def sample_workshop_ids)

lemma sample_anchor: "starts_with (u ''workshop-a'') (u ''workshop-'')"
  by code_simp

lemma sample_docs: "existing_document_ids sample_workshop_db = [u ''doc'']"
  by (simp add: existing_document_ids_def sample_workshop_db_def sample_db_def sample_row_def)

lemma sample_references:
  "validate_state_references (\<lambda>t. t) sample_env sample_workshop_db (sample_workshop ''better'') (Some (sample_workshop ''why'')) [] = Inr ()"
proof -
  have "validate_history_kept (sample_workshop ''why'') (sample_workshop ''better'') = Inr ()"
    by (simp add: validate_history_kept_def try_each_eq_Inr sample_workshop_def same_branch_def same_decision_def same_impact_def
        same_fixed_detail_def collect_map_def sample_session_def sample_decision_def all_details_def sample_detail_def
        del: try_each_simps)
  moreover have "validate_state_shape (\<lambda>t. t) (sample_workshop ''better'') = Inr ()"
    by (rule sample_shape) (simp add: sample_checks)
  ultimately show ?thesis
    by (simp add: validate_state_references_def Let_def try_each_eq_Inr sample_docs session_references_def sample_anchor decision_references_def
        impact_references_def sample_workshop_def sample_session_def sample_decision_def sample_r0 collect_map_def
        validate_session_relationship_references_def preference_references_def del: try_each_simps)
qed

lemma sample_workshop_read: "read_document sample_env sample_workshop_db (u ''doc'')
    = Inr \<lparr>doc_head = sample_head, title = u ''One'', kind = u ''chapter'', metadata_version = u ''0'',
        body = document_value sample_document, last_checkpoint_id = None, role = Ordinary\<rparr>"
  by (simp add: read_document_def read_document_with_role_def sample_workshop_db_def sample_db_def sample_row_eq
      from_storage_def sample_bodies Let_def parse_stored_version_def receipt_of_def sample_head_def sample_three show_int_zero)

lemma sample_body_text: "body_text (document_value sample_document) = u ''Hi'' @ [10, 10, 10] @ u ''Text'' @ [10, 10]"
  by code_simp

lemma sample_targets:
  "validate_chat_material_targets sample_env sample_workshop_db (sample_workshop ''why'') [(u ''doc'', document_value sample_document)] = Inr ()"
proof -
  have t: "contains_str (body_text (document_value sample_document)) (u ''ex'')"
    "contains_str (body_text (document_value sample_document)) (u ''Te'')"
    unfolding sample_body_text by code_simp+
  show ?thesis
    by (simp add: validate_chat_material_targets_def validate_chat_material_target_def sample_workshop_read protected_texts_def
        session_protected_def sample_workshop_def sample_session_def sample_detail_def decision_protected_def
        sample_decision_def validate_protected_text_def try_each_eq_Inr t sample_checks both_def)
qed

section \<open>Properties\<close>

text \<open>
  C27: the branch check accepts exactly the forests: working sessions have no parent, a what-if
  session has another session of the state as its parent, and following parents never loops.
\<close>

theorem branch_graph_is_forest:
  "validate_session_branch_graph sessions = Inr () \<longleftrightarrow>
    (\<forall>s \<in> set sessions.
      (case se_parent s of
         None \<Rightarrow> se_branch s = WorkingBranch
       | Some p \<Rightarrow> se_branch s = WhatIfBranch \<and> p \<noteq> se_id s \<and> p \<in> se_id ` set sessions))
    \<and> acyclic {(i, p). parent_of sessions i = Some p}"
  using branch_graph_ok by (simp add: branch_spec_def parent_rel_def)

lemma branch_graph_is_forest_witness:
  "acyclic {(i, p). parent_of (ws_sessions (sample_workshop ''why'')) i = Some p}"
  using branch_graph_is_forest [THEN iffD1, OF sample_branches] by blast

text \<open>
  C28: in an accepted state, following the parents of any session ends at a working session.
\<close>

theorem branches_reach_working:
  assumes "validate_state_shape lower st = Inr ()" and "s \<in> set (ws_sessions st)"
  shows "\<exists>r \<in> set (ws_sessions st). (se_id s, se_id r) \<in> {(i, p). parent_of (ws_sessions st) i = Some p}\<^sup>*
    \<and> se_branch r = WorkingBranch"
proof -
  have "validate_session_branch_graph (ws_sessions st) = Inr ()" by (rule shape_parts [OF assms(1)])
  then have "parent_walk (ws_sessions st) [] (se_id s) = Inr ()" "\<forall>s \<in> set (ws_sessions st). branch_spec (ws_sessions st) s"
    using assms(2) by (auto simp: validate_session_branch_graph_def try_each_eq_Inr branch_ok_spec)
  from walk_to_root [OF this] assms(2) show ?thesis by (simp add: parent_rel_def)
qed

lemma branches_reach_working_witness:
  "\<exists>r \<in> set (ws_sessions (sample_workshop ''why'')). se_branch r = WorkingBranch"
  using branches_reach_working [OF sample_shape, of "''why''" "sample_session ''b'' WhatIfBranch (Some (u ''a'')) []"]
    sample_texts(4) [OF sample_limits(1)] by (auto simp: sample_workshop_def)

text \<open>
  C29: a save keeps what adoptions recorded: the same decisions and the same impacts, each
  unchanged but for what the author may edit (rationale, status and protection of a decision, the
  review status of an impact), and no session changes its branch.
\<close>

theorem save_keeps_adoptions:
  assumes "validate_state_references lower E D st (Some previous) extra = Inr ()"
    and "validate_state_shape lower previous = Inr ()"
  shows "dc_id ` set (ws_decisions st) = dc_id ` set (ws_decisions previous)
    \<and> im_id ` set (ws_impacts st) = im_id ` set (ws_impacts previous)
    \<and> (\<forall>d \<in> set (ws_decisions st). \<exists>w \<in> set (ws_decisions previous).
        d = w\<lparr>dc_rationale := dc_rationale d, dc_status := dc_status d, dc_fixed := dc_fixed d,
              dc_protected := dc_protected d\<rparr>)
    \<and> (\<forall>i \<in> set (ws_impacts st). \<exists>w \<in> set (ws_impacts previous). i = w\<lparr>im_status := im_status i\<rparr>)
    \<and> (\<forall>s \<in> set (ws_sessions st). \<forall>w \<in> set (ws_sessions previous).
        se_id s = se_id w \<longrightarrow> se_parent s = se_parent w \<and> se_branch s = se_branch w)"
proof (intro conjI ballI impI)
  have kept: "validate_history_kept previous st = Inr ()" by (rule references_parts(3) [OF assms(1) refl])
  have shape: "validate_state_shape lower st = Inr ()" by (rule references_parts(1) [OF assms(1)])
  from kept have d: "\<forall>d \<in> set (ws_decisions st). same_decision (ws_decisions previous) d = Inr ()"
    and i: "\<forall>i \<in> set (ws_impacts st). same_impact (ws_impacts previous) i = Inr ()"
    and s: "\<forall>s \<in> set (ws_sessions st). same_branch (ws_sessions previous) s = Inr ()"
    and len: "length (ws_decisions st) = length (ws_decisions previous)"
      "length (ws_impacts st) = length (ws_impacts previous)"
    by (auto simp: validate_history_kept_def try_each_eq_Inr)
  show dec: "\<exists>w \<in> set (ws_decisions previous). d = w\<lparr>dc_rationale := dc_rationale d, dc_status := dc_status d,
      dc_fixed := dc_fixed d, dc_protected := dc_protected d\<rparr>" if "d \<in> set (ws_decisions st)" for d
  proof -
    from bspec [OF d that] obtain w where "collect_map dc_id (ws_decisions previous) (dc_id d) = Some w"
      and "dc_session w = dc_session d" "dc_title w = dc_title d" "dc_document w = dc_document d"
        "dc_revision w = dc_revision d" "dc_head w = dc_head d" "dc_candidates w = dc_candidates d"
        "dc_access w = dc_access d" "dc_supersedes w = dc_supersedes d"
      by (auto simp: same_decision_def and_then_eq_Inr)
    moreover from this(1) have "dc_id w = dc_id d" "w \<in> set (ws_decisions previous)"
      by (auto dest: collect_map_dom)
    ultimately show ?thesis by (intro bexI [of _ w]) (auto intro!: decision.equality)
  qed
  show imp: "\<exists>w \<in> set (ws_impacts previous). i = w\<lparr>im_status := im_status i\<rparr>" if "i \<in> set (ws_impacts st)" for i
  proof -
    from bspec [OF i that] obtain w where "collect_map im_id (ws_impacts previous) (im_id i) = Some w"
      and "im_decision w = im_decision i" "im_document w = im_document i" "im_kind w = im_kind i"
        "im_reason w = im_reason i" "im_candidate w = im_candidate i" "im_relationship w = im_relationship i"
      by (auto simp: same_impact_def and_then_eq_Inr)
    moreover from this(1) have "im_id w = im_id i" "w \<in> set (ws_impacts previous)"
      by (auto dest: collect_map_dom)
    ultimately show ?thesis by (intro bexI [of _ w]) (auto intro!: impact.equality)
  qed
  have "distinct (map dc_id (ws_decisions st))"
    using validate_decisions_ok shape_parts(4) [OF shape] by blast
  moreover have "dc_id ` set (ws_decisions st) \<subseteq> dc_id ` set (ws_decisions previous)"
  proof (rule image_subsetI)
    fix d assume "d \<in> set (ws_decisions st)"
    from dec [OF this] obtain w where "w \<in> set (ws_decisions previous)" "dc_id d = dc_id w"
      by (metis decision.select_convs(1) decision.surjective decision.update_convs(8-11))
    then show "dc_id d \<in> dc_id ` set (ws_decisions previous)" by auto
  qed
  ultimately show "dc_id ` set (ws_decisions st) = dc_id ` set (ws_decisions previous)"
    using len by (intro same_keys)
  have "im_id ` set (ws_impacts st) \<subseteq> im_id ` set (ws_impacts previous)"
  proof (rule image_subsetI)
    fix i assume "i \<in> set (ws_impacts st)"
    from imp [OF this] obtain w where "w \<in> set (ws_impacts previous)" "im_id i = im_id w"
      by (metis impact.select_convs(1) impact.surjective impact.update_convs(6))
    then show "im_id i \<in> im_id ` set (ws_impacts previous)" by auto
  qed
  then show "im_id ` set (ws_impacts st) = im_id ` set (ws_impacts previous)"
    using len shape_parts(5) [OF shape] by (intro same_keys)
  show "se_parent t = se_parent w" "se_branch t = se_branch w"
    if "t \<in> set (ws_sessions st)" "w \<in> set (ws_sessions previous)" "se_id t = se_id w" for t w
    using bspec [OF s that(1)] that collect_map_distinct [OF shape_parts(2) [OF assms(2)] that(2)]
    by (auto simp: same_branch_def)
qed

lemma save_keeps_adoptions_witness:
  "dc_id ` set (ws_decisions (sample_workshop ''better'')) = dc_id ` set (ws_decisions (sample_workshop ''why''))"
  using save_keeps_adoptions [OF sample_references sample_shape] sample_texts(4) [OF sample_limits(1)] by blast

text \<open>
  C30: in an accepted state no document has two chosen decisions, every decision is of a session
  of the state and points at a stored revision of its document with exactly the recorded head, and
  no confirmed preference contradicts a hard preference of the project.
\<close>

theorem accepted_decisions_grounded:
  assumes "validate_state_references lower E D st current extra = Inr ()"
  shows "distinct (map dc_document (filter (\<lambda>d. dc_status d = ChosenDecision) (ws_decisions st)))
    \<and> (\<forall>d \<in> set (ws_decisions st). dc_session d \<in> se_id ` set (ws_sessions st)
        \<and> document_id (dc_head d) = dc_document d
        \<and> (\<exists>r. read_revision E D (dc_revision d) = Inr r \<and> rev_head r = dc_head d))
    \<and> (\<forall>p \<in> set (ws_preferences st). \<forall>q \<in> set (ws_preferences st).
        pf_scope p = ProjectScope \<and> pf_strength p = Hard \<and> pf_confirmed p \<and> pf_confirmed q \<and> pf_id p \<noteq> pf_id q
        \<longrightarrow> \<not> conflicting lower p q)"
proof (intro conjI ballI impI)
  have shape: "validate_state_shape lower st = Inr ()" by (rule references_parts(1) [OF assms])
  show "distinct (map dc_document (filter (\<lambda>d. dc_status d = ChosenDecision) (ws_decisions st)))"
    using validate_decisions_ok [OF shape_parts(4) [OF shape]] by (simp add: chosen_documents_def)
  fix d assume "d \<in> set (ws_decisions st)"
  with references_parts(2) [OF assms] have d: "decision_references E D (existing_document_ids D) (map se_id (ws_sessions st)) d = Inr ()"
    by blast
  then show "dc_session d \<in> se_id ` set (ws_sessions st)" "document_id (dc_head d) = dc_document d"
    and "\<exists>r. read_revision E D (dc_revision d) = Inr r \<and> rev_head r = dc_head d"
    by (auto simp: decision_references_def and_then_eq_Inr)
next
  fix p q
  assume "p \<in> set (ws_preferences st)" "q \<in> set (ws_preferences st)"
    "pf_scope p = ProjectScope \<and> pf_strength p = Hard \<and> pf_confirmed p \<and> pf_confirmed q \<and> pf_id p \<noteq> pf_id q"
  with shape_parts(6) [OF references_parts(1) [OF assms]] show "\<not> conflicting lower p q"
    by (auto simp: validate_hard_preference_conflicts_def try_each_eq_Inr)
qed

lemma accepted_decisions_grounded_witness:
  "dc_session (sample_decision ''better'') \<in> se_id ` set (ws_sessions (sample_workshop ''better''))"
  using accepted_decisions_grounded [OF sample_references] by (simp add: sample_workshop_def)

lemma in_protected:
  assumes "t \<in> set all"
  shows "t \<in> set (remdups_adj (sort_key bytes all))"
  using assms by simp

lemma try_fold_decision_protected:
  "try_fold (decision_protected E D) acc ds = Inr all \<Longrightarrow>
    set acc \<subseteq> set all \<and> (\<forall>d \<in> set ds. set (dc_protected d) \<subseteq> set all)"
proof (induction ds arbitrary: acc)
  case (Cons d ds)
  then obtain acc' where "decision_protected E D acc d = Inr acc'" "try_fold (decision_protected E D) acc' ds = Inr all"
    by (auto elim: and_then_okE)
  moreover from this(1) have "set acc \<subseteq> set acc' \<and> set (dc_protected d) \<subseteq> set acc'"
    by (auto simp: decision_protected_def and_then_eq_Inr split: if_splits)
  ultimately show ?case using Cons.IH [of acc'] by auto
qed simp

text \<open>
  C31: text the author fixed survives a chat adoption: when the targets are accepted, the new body
  of every target that exists contains each fixed selected detail of the current session that its
  body contains, and every protected passage of its fixed decisions.
\<close>

theorem chat_adoption_keeps_fixed_text:
  assumes "validate_chat_material_targets E D st targets = Inr ()"
    and "(i, new_body) \<in> set targets" and "read_document E D i = Inr current"
  shows "(\<forall>d \<in> set (ws_decisions st). dc_fixed d \<and> dc_document d = i \<longrightarrow>
      (\<forall>t \<in> set (dc_protected d). contains_str (body_text new_body) t))
    \<and> (\<forall>s d. find (\<lambda>s. Some (se_id s) = ws_current st) (ws_sessions st) = Some s \<and> d \<in> set (se_details s)
        \<and> sd_fixed d \<and> sd_text d \<noteq> [] \<and> contains_str (body_text (body current)) (sd_text d)
        \<longrightarrow> contains_str (body_text new_body) (sd_text d))"
proof -
  have "validate_chat_material_target E D st (i, new_body) = Inr ()"
    using assms(1,2) by (simp add: validate_chat_material_targets_def try_each_eq_Inr)
  with assms(3) obtain protected where p: "protected_texts E D st current i = Inr protected"
    and ok: "validate_protected_text (Some current) new_body protected protected = Inr ()"
    by (auto simp: validate_chat_material_target_def and_then_eq_Inr)
  from p obtain ts all where ts: "session_protected st current = Inr ts"
    and all: "try_fold (decision_protected E D) ts (filter (\<lambda>d. dc_fixed d \<and> dc_document d = i) (ws_decisions st)) = Inr all"
    and protected: "protected = remdups_adj (sort_key bytes all)"
    by (auto simp: protected_texts_def and_then_eq_Inr)
  have sub: "set ts \<subseteq> set all" "\<forall>d \<in> set (ws_decisions st). dc_fixed d \<and> dc_document d = i \<longrightarrow> set (dc_protected d) \<subseteq> set all"
    using try_fold_decision_protected [OF all] by auto
  have keep: "contains_str (body_text new_body) t" if "t \<in> set all" for t
  proof -
    have "t \<in> set protected" unfolding protected by (rule in_protected [OF that])
    with ok show ?thesis by (auto simp: validate_protected_text_def try_each_eq_Inr)
  qed
  have "sd_text d \<in> set ts" if "find (\<lambda>s. Some (se_id s) = ws_current st) (ws_sessions st) = Some s"
    "d \<in> set (se_details s)" "sd_fixed d" "sd_text d \<noteq> []" "contains_str (body_text (body current)) (sd_text d)" for s d
    using ts that by (cases "ws_current st") (auto simp: session_protected_def dest: find_SomeD)
  with sub keep show ?thesis by blast
qed

lemma chat_adoption_keeps_fixed_text_witness:
  "contains_str (body_text (document_value sample_document)) (u ''ex'')"
proof -
  have "sample_decision ''why'' \<in> set (ws_decisions (sample_workshop ''why''))" "dc_fixed (sample_decision ''why'')"
    "dc_document (sample_decision ''why'') = u ''doc''" "u ''ex'' \<in> set (dc_protected (sample_decision ''why''))"
    by (simp_all add: sample_workshop_def sample_decision_def)
  then show ?thesis
    using chat_adoption_keeps_fixed_text [OF sample_targets _ sample_workshop_read] by simp
qed

section \<open>A detail copied to a fork\<close>

text \<open>
  A what-if session starts as a copy of its parent, selected details and their identifiers
  included. The fence on fixed details looks an identifier up among the details of all sessions
  and finds the last one. Once the copy of a fixed detail was released, edited and fixed again in
  the fork (each step an accepted save), the parent's untouched detail no longer matches and no
  state that keeps it can be saved, not even an unchanged one.
\<close>

definition forked :: "ustr \<Rightarrow> bool \<Rightarrow> workshop_state" where
  "forked t f = default_state\<lparr>ws_sessions :=
     [sample_session ''a'' WorkingBranch None [sample_detail],
      sample_session ''b'' WhatIfBranch (Some (u ''a'')) [sample_detail\<lparr>sd_text := t, sd_fixed := f\<rparr>]]\<rparr>"

lemma forked_detail_blocks_saves:
  "validate_history_kept (forked (u ''Te'') True) (forked (u ''Te'') False) = Inr ()"
  "validate_history_kept (forked (u ''Te'') False) (forked (u ''ex'') False) = Inr ()"
  "validate_history_kept (forked (u ''ex'') False) (forked (u ''ex'') True) = Inr ()"
  "validate_history_kept (forked (u ''ex'') True) (forked (u ''ex'') True) = Inl (core_err ''ProtectedContentChanged'')"
  by code_simp+

end
