(* ===== verification/Eligibility.thy ===== *)
theory Eligibility
  imports Json
begin

text \<open>
  The eligibility kernel of crates/context/src/eligibility.rs with the contract types of
  src/contracts.rs: which sources of a frozen story snapshot may enter a request, under an
  information policy (reader frontier, characters, author-room material) and an editorial basis.
  An error keeps its code, the handle and the dependency it names; the message is left out. The
  \<open>visits\<close> map of the depth-first walk is split in two: a handle is \<open>Visiting\<close> when it is on the
  stack of open calls (\<open>stack\<close>) and \<open>Done\<close> when it was emitted (\<open>ordered\<close>).
\<close>

section \<open>Contracts\<close>

datatype basis_kind = WorkingBasis | ReviewedBasis | ExplicitHistory

datatype audience = AuthorRoom | RestrictedWriting

datatype context_purpose = Discuss | Revise | Continue | Plan | StoryQuestion | MemoryAnalysis

datatype source_kind =
    CurrentDraft | ReviewedAuthority | ExplicitRule | AdoptedGuidance | GeneratedObservation
  | GeneratedDigest | PlanAlternative | Historical | PrivateFuture | AuthorRoomDiscussion
  | AssistantDraftSource | ConversationControl

datatype coverage_label = Verbatim | Digest | DirectoryOnly

record character_grant =
  cg_character :: ustr
  cg_handle :: ustr
  cg_frontier :: ustr

record information_policy =
  po_version :: ustr
  po_audience :: audience
  po_frontier :: "ustr option"
  po_character :: "ustr option"
  po_grants :: "character_grant list"
  po_alternatives :: bool
  po_historical :: bool

record source_ref =
  sr_project :: ustr
  sr_document :: ustr
  sr_revision :: ustr
  sr_hash :: ustr

record disclosure =
  di_position :: "ustr option"
  di_characters :: "ustr list"
  di_author_only :: bool
  di_future_private :: bool

record story_time =
  st_label :: ustr
  st_position :: "ustr option"

record source_descriptor =
  ds_handle :: ustr
  ds_source :: source_ref
  ds_name :: ustr
  ds_kind :: source_kind
  ds_current :: bool
  ds_coverage :: coverage_label
  ds_disclosure :: disclosure
  ds_time :: "story_time option"
  ds_dependencies :: "source_ref list"

record basis_member =
  bm_document :: ustr
  bm_bundle :: ustr
  bm_revision :: ustr
  bm_version :: ustr
  bm_hash :: ustr

record basis_manifest =
  bs_project :: ustr
  bs_namespace :: ustr
  bs_prefix :: "basis_member list"

record story_snapshot =
  sn_id :: ustr
  sn_project :: ustr
  sn_basis :: basis_kind
  sn_target :: source_ref
  sn_source_epoch :: ustr
  sn_ordering_epoch :: ustr
  sn_policy_version :: ustr
  sn_sources :: "source_descriptor list"
  sn_reviewed :: "basis_manifest option"

datatype eligibility_code =
    InvalidSnapshot | InvalidPolicy | NoRequestedSources | TargetNotSelected | UnknownSource
  | DuplicateSource | CrossProjectSource | SourceNotInBasis | StaleSource | BasisMismatch
  | UnknownDependency | DependencyCycle | DisclosureDenied | DisclosureUnknown
  | FutureContamination | PrivateSource | AlternativeNotSelected | HistoryNotSelected
  | DirectoryOnlySource | InvalidDescriptor

record eligibility_error =
  el_code :: eligibility_code
  el_handle :: "ustr option"
  el_dependency :: "source_ref option"

type_synonym 'a eligibility = "eligibility_error + 'a"

definition refuse :: "eligibility_code \<Rightarrow> eligibility_error" where
  "refuse c = \<lparr>el_code = c, el_handle = None, el_dependency = None\<rparr>"

definition refuse_handle :: "eligibility_code \<Rightarrow> ustr \<Rightarrow> eligibility_error" where
  "refuse_handle c h = \<lparr>el_code = c, el_handle = Some h, el_dependency = None\<rparr>"

definition refuse_dependency :: "eligibility_code \<Rightarrow> ustr \<Rightarrow> source_ref \<Rightarrow> eligibility_error" where
  "refuse_dependency c h d = \<lparr>el_code = c, el_handle = Some h, el_dependency = Some d\<rparr>"

record eligible_source =
  es_handle :: ustr
  es_source :: source_ref
  es_kind :: source_kind
  es_coverage :: coverage_label
  es_dependencies :: "ustr list"

record eligibility_receipt =
  er_snapshot :: ustr
  er_project :: ustr
  er_audience :: audience
  er_purpose :: context_purpose
  er_eligible :: "eligible_source list"
  er_handles :: "ustr list"
  er_can_authorize_apply :: bool

section \<open>Field checks\<close>

definition nonempty :: "ustr \<Rightarrow> eligibility_code \<Rightarrow> unit eligibility" where
  "nonempty v c = ensure (v \<noteq> []) (refuse c)"

definition decimal :: "ustr \<Rightarrow> bool" where
  "decimal v \<longleftrightarrow> \<not> (v = [] \<or> (1 < blen v \<and> starts_with v (u ''0'')) \<or> \<not> list_all is_ascii_digit (bytes v))"

definition decimal_le :: "ustr \<Rightarrow> ustr \<Rightarrow> bool" where
  "decimal_le l r \<longleftrightarrow>
    decimal l \<and> decimal r \<and> (blen l < blen r \<or> (blen l = blen r \<and> bytes l \<le> bytes r))"

definition check_ref_field :: "ustr \<Rightarrow> unit eligibility" where
  "check_ref_field v =
    and_then (nonempty v InvalidDescriptor) (\<lambda>_. ensure (\<not> 256 < blen v) (refuse InvalidDescriptor))"

definition validate_source_ref :: "source_ref \<Rightarrow> ustr \<Rightarrow> unit eligibility" where
  "validate_source_ref s project =
    and_then (try_each check_ref_field [sr_project s, sr_document s, sr_revision s]) (\<lambda>_.
    and_then (ensure (sr_project s = project) (refuse CrossProjectSource)) (\<lambda>_.
    ensure (blen (sr_hash s) = 64 \<and> list_all is_ascii_hexdigit (bytes (sr_hash s))) (refuse InvalidDescriptor)))"

definition validate_snapshot :: "story_snapshot \<Rightarrow> unit eligibility" where
  "validate_snapshot sn =
    and_then (nonempty (sn_id sn) InvalidSnapshot) (\<lambda>_.
    and_then (nonempty (sn_project sn) InvalidSnapshot) (\<lambda>_.
    and_then (ensure (decimal (sn_source_epoch sn)) (refuse InvalidSnapshot)) (\<lambda>_.
    and_then (ensure (decimal (sn_ordering_epoch sn)) (refuse InvalidSnapshot)) (\<lambda>_.
    and_then (nonempty (sn_policy_version sn) InvalidSnapshot) (\<lambda>_.
    and_then (validate_source_ref (sn_target sn) (sn_project sn)) (\<lambda>_.
    ensure (sn_sources sn \<noteq> []) (refuse InvalidSnapshot)))))))"

definition validate_grant :: "character_grant \<Rightarrow> unit eligibility" where
  "validate_grant g =
    and_then (nonempty (cg_character g) InvalidPolicy) (\<lambda>_.
    and_then (nonempty (cg_handle g) InvalidPolicy) (\<lambda>_.
    ensure (decimal (cg_frontier g)) (refuse InvalidPolicy)))"

definition validate_policy :: "information_policy \<Rightarrow> unit eligibility" where
  "validate_policy po =
    and_then (ensure (decimal (po_version po)) (refuse InvalidPolicy)) (\<lambda>_.
    and_then (ensure (\<not> (po_audience po = RestrictedWriting \<and> po_frontier po = None)) (refuse InvalidPolicy)) (\<lambda>_.
    and_then (case po_frontier po of None \<Rightarrow> Inr () | Some f \<Rightarrow> ensure (decimal f) (refuse InvalidPolicy)) (\<lambda>_.
    and_then (case po_character po of None \<Rightarrow> Inr () | Some c \<Rightarrow> nonempty c InvalidPolicy) (\<lambda>_.
    try_each validate_grant (po_grants po)))))"

definition dependency_check :: "story_snapshot \<Rightarrow> source_descriptor \<Rightarrow> source_ref \<Rightarrow> unit eligibility" where
  "dependency_check sn d dep =
    (case validate_source_ref dep (sn_project sn) of
       Inl e \<Rightarrow> Inl (refuse_dependency
         (if el_code e = CrossProjectSource then CrossProjectSource else InvalidDescriptor) (ds_handle d) dep)
     | Inr _ \<Rightarrow>
         ensure (dep \<in> ds_source ` set (sn_sources sn)) (refuse_dependency UnknownDependency (ds_handle d) dep))"

definition validate_descriptor :: "story_snapshot \<Rightarrow> source_descriptor \<Rightarrow> unit eligibility" where
  "validate_descriptor sn d =
    and_then (nonempty (ds_handle d) InvalidDescriptor) (\<lambda>_.
    and_then (nonempty (ds_name d) InvalidDescriptor) (\<lambda>_.
    and_then (validate_source_ref (ds_source d) (sn_project sn)) (\<lambda>_.
    and_then (try_each (dependency_check sn d) (ds_dependencies d)) (\<lambda>_.
    and_then (ensure (\<not> (di_future_private (ds_disclosure d) \<and> \<not> di_author_only (ds_disclosure d)))
      (refuse_handle InvalidDescriptor (ds_handle d))) (\<lambda>_.
    and_then (case di_position (ds_disclosure d) of
        None \<Rightarrow> Inr ()
      | Some p \<Rightarrow> ensure (decimal p) (refuse_handle InvalidDescriptor (ds_handle d))) (\<lambda>_.
    case ds_time d of
      None \<Rightarrow> Inr ()
    | Some t \<Rightarrow>
        and_then (nonempty (st_label t) InvalidDescriptor) (\<lambda>_.
        case st_position t of
          None \<Rightarrow> Inr ()
        | Some p \<Rightarrow> ensure (decimal p) (refuse_handle InvalidDescriptor (ds_handle d)))))))))"

section \<open>Basis and disclosure\<close>

definition apply_basis_policy ::
  "source_descriptor \<Rightarrow> information_policy \<Rightarrow> basis_kind \<Rightarrow> context_purpose \<Rightarrow> bool \<Rightarrow> unit eligibility" where
  "apply_basis_policy d po basis purpose is_target =
    (let no = (\<lambda>c. refuse_handle c (ds_handle d)) in
     if ds_kind d = ConversationControl
        \<and> \<not> (basis = WorkingBasis \<and> purpose = Discuss \<and> po_audience po = AuthorRoom \<and> is_target)
     then Inl (no InvalidDescriptor)
     else if ds_kind d = ConversationControl \<and> \<not> is_target then Inl (no InvalidDescriptor)
     else if ds_kind d = AssistantDraftSource
        \<and> \<not> (basis = WorkingBasis \<and> purpose = Discuss \<and> po_audience po = AuthorRoom)
     then Inl (no PrivateSource)
     else case basis of
       WorkingBasis \<Rightarrow>
         if \<not> ds_current d then Inl (no StaleSource)
         else ensure (\<not> (ds_kind d = Historical \<or> ds_kind d = PlanAlternative)) (no BasisMismatch)
     | ReviewedBasis \<Rightarrow>
         if \<not> ds_current d then Inl (no StaleSource)
         else ensure ((is_target \<and> purpose = Continue \<and> ds_kind d = CurrentDraft)
             \<or> (\<not> is_target \<and> ds_kind d = ReviewedAuthority)) (no BasisMismatch)
     | ExplicitHistory \<Rightarrow>
         ensure (\<not> (\<not> (ds_kind d = Historical \<or> ds_kind d = PlanAlternative)
             \<or> (\<not> po_historical po \<and> ds_kind d = Historical)
             \<or> (\<not> po_alternatives po \<and> ds_kind d = PlanAlternative)))
           (no (if ds_kind d = PlanAlternative then AlternativeNotSelected else HistoryNotSelected)))"

definition character_policy :: "source_descriptor \<Rightarrow> information_policy \<Rightarrow> ustr \<Rightarrow> unit eligibility" where
  "character_policy d po frontier =
    (let no = refuse_handle DisclosureDenied (ds_handle d); seen_by = di_characters (ds_disclosure d) in
     case po_character po of
       Some c \<Rightarrow>
         if seen_by \<noteq> [] \<and> c \<notin> set seen_by then Inl no
         else ensure (list_ex (\<lambda>g. cg_character g = c \<and> cg_handle g = ds_handle d
                \<and> decimal_le (cg_frontier g) frontier) (po_grants po)) no
     | None \<Rightarrow> ensure (seen_by = []) no)"

definition apply_disclosure_policy :: "source_descriptor \<Rightarrow> information_policy \<Rightarrow> unit eligibility" where
  "apply_disclosure_policy d po =
    (let no = (\<lambda>c. refuse_handle c (ds_handle d)) in
     if po_audience po = AuthorRoom then Inr ()
     else if ds_coverage d = DirectoryOnly then Inl (no DirectoryOnlySource)
     else if ds_kind d = PrivateFuture \<or> ds_kind d = AuthorRoomDiscussion
        \<or> di_author_only (ds_disclosure d) \<or> di_future_private (ds_disclosure d)
     then Inl (no (if di_future_private (ds_disclosure d) then FutureContamination else PrivateSource))
     else
       and_then (ok_or (refuse InvalidPolicy) (po_frontier po)) (\<lambda>frontier.
       and_then (ok_or (no DisclosureUnknown) (di_position (ds_disclosure d))) (\<lambda>position.
       if \<not> decimal_le position frontier then Inl (no DisclosureDenied)
       else if ds_kind d = PlanAlternative \<and> \<not> po_alternatives po then Inl (no AlternativeNotSelected)
       else character_policy d po frontier)))"

section \<open>The reviewed basis\<close>

definition member_step ::
  "ustr \<Rightarrow> ustr \<Rightarrow> ustr list \<times> ustr list \<times> ustr list \<Rightarrow> basis_member \<Rightarrow> (ustr list \<times> ustr list \<times> ustr list) eligibility" where
  "member_step manifest_project project seen m =
    (case seen of (docs, bundles, revs) \<Rightarrow>
      and_then (nonempty (bm_document m) InvalidSnapshot) (\<lambda>_.
      and_then (nonempty (bm_bundle m) InvalidSnapshot) (\<lambda>_.
      and_then (nonempty (bm_revision m) InvalidSnapshot) (\<lambda>_.
      and_then (ensure (decimal (bm_version m)) (refuse InvalidSnapshot)) (\<lambda>_.
      and_then (validate_source_ref \<lparr>sr_project = manifest_project, sr_document = bm_document m,
          sr_revision = bm_revision m, sr_hash = bm_hash m\<rparr> project) (\<lambda>_.
      if bm_document m \<in> set docs \<or> bm_bundle m \<in> set bundles \<or> bm_revision m \<in> set revs
      then Inl (refuse DuplicateSource)
      else Inr (bm_document m # docs, bm_bundle m # bundles, bm_revision m # revs)))))))"

definition same_member :: "basis_member \<Rightarrow> source_ref \<Rightarrow> bool" where
  "same_member m s \<longleftrightarrow> sr_document s = bm_document m \<and> sr_revision s = bm_revision m \<and> sr_hash s = bm_hash m"

definition authority_sources :: "story_snapshot \<Rightarrow> source_descriptor list" where
  "authority_sources sn = filter (\<lambda>d. ds_kind d = ReviewedAuthority) (sn_sources sn)"

definition target_of :: "story_snapshot \<Rightarrow> source_descriptor option" where
  "target_of sn = find (\<lambda>d. ds_source d = sn_target sn) (sn_sources sn)"

definition validate_manifest ::
  "story_snapshot \<Rightarrow> information_policy \<Rightarrow> context_purpose \<Rightarrow> basis_manifest \<Rightarrow> unit eligibility" where
  "validate_manifest sn po purpose m =
    and_then (ensure (bs_project m = sn_project sn \<and> bs_namespace m \<noteq> []) (refuse CrossProjectSource)) (\<lambda>_.
    and_then (ensure (bs_prefix m \<noteq> []) (refuse BasisMismatch)) (\<lambda>_.
    and_then (ensure (\<not> 4096 < length (bs_prefix m)) (refuse InvalidSnapshot)) (\<lambda>_.
    and_then (try_fold (member_step (bs_project m) (sn_project sn)) ([], [], []) (bs_prefix m)) (\<lambda>_.
    and_then (ok_or (refuse InvalidSnapshot) (target_of sn)) (\<lambda>target.
    if purpose = Continue \<and> (ds_kind target \<noteq> CurrentDraft \<or> \<not> ds_current target)
    then Inl (refuse BasisMismatch)
    else if purpose = Continue \<and> di_position (ds_disclosure target) \<noteq> po_frontier po
    then Inl (refuse InvalidPolicy)
    else ensure (length (authority_sources sn) = length (bs_prefix m)
        \<and> list_all (\<lambda>b. list_ex (\<lambda>d. same_member b (ds_source d)) (authority_sources sn)) (bs_prefix m))
      (refuse InvalidSnapshot))))))"

definition validate_basis_manifest ::
  "story_snapshot \<Rightarrow> information_policy \<Rightarrow> context_purpose \<Rightarrow> unit eligibility" where
  "validate_basis_manifest sn po purpose =
    (if sn_basis sn \<noteq> ReviewedBasis then ensure (sn_reviewed sn = None) (refuse InvalidSnapshot)
     else and_then (ok_or (refuse BasisMismatch) (sn_reviewed sn)) (validate_manifest sn po purpose))"

section \<open>The walk over dependencies\<close>

record walk_context =
  wk_sources :: "source_descriptor list"
  wk_policy :: information_policy
  wk_basis :: basis_kind
  wk_target :: ustr
  wk_purpose :: context_purpose

definition by_handle :: "source_descriptor list \<Rightarrow> ustr \<Rightarrow> source_descriptor option" where
  "by_handle ds h = find (\<lambda>d. ds_handle d = h) ds"

definition by_source :: "source_descriptor list \<Rightarrow> source_ref \<Rightarrow> ustr option" where
  "by_source ds s = map_option ds_handle (find (\<lambda>d. ds_source d = s) ds)"

definition admit :: "walk_context \<Rightarrow> source_descriptor \<Rightarrow> ustr \<Rightarrow> unit eligibility" where
  "admit C d h =
    and_then (apply_basis_policy d (wk_policy C) (wk_basis C) (wk_purpose C) (h = wk_target C)) (\<lambda>_.
    apply_disclosure_policy d (wk_policy C))"

definition unvisited :: "walk_context \<Rightarrow> ustr list \<Rightarrow> nat" where
  "unvisited C stack = card (ds_handle ` set (wk_sources C) - set stack)"

lemma unvisited_push:
  assumes "by_handle (wk_sources C) h = Some d" and "h \<notin> set stack"
  shows "unvisited C (h # stack) < unvisited C stack"
proof -
  from assms(1) have "h \<in> ds_handle ` set (wk_sources C)"
    unfolding by_handle_def by (auto dest: find_SomeD)
  with assms(2) have "ds_handle ` set (wk_sources C) - set (h # stack) \<subset> ds_handle ` set (wk_sources C) - set stack"
    by auto
  then show ?thesis unfolding unvisited_def by (rule psubset_card_mono [rotated]) simp
qed

function (sequential) walk :: "walk_context \<Rightarrow> ustr list \<Rightarrow> ustr \<Rightarrow> ustr list \<Rightarrow> ustr list eligibility"
  and walk_dependencies :: "walk_context \<Rightarrow> ustr list \<Rightarrow> ustr \<Rightarrow> source_ref list \<Rightarrow> ustr list \<Rightarrow> ustr list eligibility" where
  "walk C stack h ordered =
    (if h \<in> set stack then Inl (refuse_handle DependencyCycle h)
     else if h \<in> set ordered then Inr ordered
     else case by_handle (wk_sources C) h of
       None \<Rightarrow> Inl (refuse_handle UnknownSource h)
     | Some d \<Rightarrow>
         and_then (admit C d h) (\<lambda>_.
         and_then (walk_dependencies C (h # stack) h (ds_dependencies d) ordered) (\<lambda>ordered'.
         Inr (ordered' @ [h]))))"
| "walk_dependencies C stack h [] ordered = Inr ordered"
| "walk_dependencies C stack h (dep # deps) ordered =
    (case by_source (wk_sources C) dep of
       None \<Rightarrow> Inl (refuse_dependency UnknownDependency h dep)
     | Some i \<Rightarrow>
         and_then (walk C stack i ordered) (\<lambda>ordered'. walk_dependencies C stack h deps ordered'))"
  by pat_completeness auto

termination walk
  by (relation "inv_image (less_than <*lex*> less_than) (\<lambda>x. case x of
      Inl (C, stack, h, ordered) \<Rightarrow> (unvisited C stack, 0)
    | Inr (C, stack, h, deps, ordered) \<Rightarrow> (unvisited C stack, Suc (length deps)))")
    (auto simp: unvisited_push)

declare walk.simps [simp del]

section \<open>Evaluation\<close>

definition memory_analysis_ok :: "story_snapshot \<Rightarrow> information_policy \<Rightarrow> bool" where
  "memory_analysis_ok sn po \<longleftrightarrow>
    sn_basis sn = WorkingBasis \<and>
    (case sn_sources sn of
       [d] \<Rightarrow> ds_source d = sn_target sn \<and> ds_kind d = CurrentDraft \<and> ds_coverage d = Verbatim \<and> ds_current d
         \<and> ds_dependencies d = [] \<and> \<not> di_author_only (ds_disclosure d) \<and> \<not> di_future_private (ds_disclosure d)
         \<and> di_position (ds_disclosure d) \<noteq> None
     | _ \<Rightarrow> False)
    \<and> po_audience po = AuthorRoom \<and> po_frontier po = None \<and> po_character po = None \<and> po_grants po = []
    \<and> \<not> po_alternatives po \<and> \<not> po_historical po"

definition author_room_structured_revision_allowed ::
  "story_snapshot \<Rightarrow> information_policy \<Rightarrow> context_purpose \<Rightarrow> bool" where
  "author_room_structured_revision_allowed sn po purpose \<longleftrightarrow>
    purpose = Revise \<and> sn_basis sn = WorkingBasis \<and> po_audience po = AuthorRoom \<and> po_frontier po = None
    \<and> list_ex (\<lambda>d. ds_source d = sn_target sn \<and> ds_kind d = CurrentDraft \<and> ds_current d
        \<and> di_author_only (ds_disclosure d) \<and> di_position (ds_disclosure d) = None) (sn_sources sn)"

definition index_step :: "ustr list \<times> source_ref list \<Rightarrow> source_descriptor \<Rightarrow> (ustr list \<times> source_ref list) eligibility" where
  "index_step seen d =
    (case seen of (handles, sources) \<Rightarrow>
      if ds_handle d \<in> set handles \<or> ds_source d \<in> set sources
      then Inl (refuse_handle DuplicateSource (ds_handle d))
      else Inr (ds_handle d # handles, ds_source d # sources))"

definition select_step :: "source_descriptor list \<Rightarrow> ustr list \<Rightarrow> ustr \<Rightarrow> ustr list eligibility" where
  "select_step ds selected h =
    (if by_handle ds h = None then Inl (refuse_handle UnknownSource h)
     else if h \<in> set selected then Inl (refuse_handle DuplicateSource h)
     else Inr (selected @ [h]))"

definition check_purpose :: "story_snapshot \<Rightarrow> information_policy \<Rightarrow> context_purpose \<Rightarrow> ustr list \<Rightarrow> unit eligibility" where
  "check_purpose sn po purpose requested =
    and_then (ensure (purpose = MemoryAnalysis \<longrightarrow> memory_analysis_ok sn po) (refuse InvalidPolicy)) (\<lambda>_.
    and_then (ensure (\<not> (po_audience po = AuthorRoom \<and> (purpose = Revise \<or> purpose = Continue)
        \<and> \<not> author_room_structured_revision_allowed sn po purpose)) (refuse InvalidPolicy)) (\<lambda>_.
    and_then (ensure (po_version po = sn_policy_version sn) (refuse BasisMismatch)) (\<lambda>_.
    and_then (ensure (requested \<noteq> []) (refuse NoRequestedSources)) (\<lambda>_.
    if sn_basis sn = ReviewedBasis then
      and_then (ensure (purpose = Continue \<and> po_audience po = RestrictedWriting) (refuse InvalidPolicy)) (\<lambda>_.
      ensure (po_character po = None \<and> po_grants po = []) (refuse InvalidPolicy))
    else Inr ()))))"

definition walk_setup :: "story_snapshot \<Rightarrow> information_policy \<Rightarrow> context_purpose \<Rightarrow> ustr \<Rightarrow> walk_context" where
  "walk_setup sn po purpose target =
    \<lparr>wk_sources = sn_sources sn, wk_policy = po, wk_basis = sn_basis sn, wk_target = target, wk_purpose = purpose\<rparr>"

definition walk_all :: "walk_context \<Rightarrow> ustr list \<Rightarrow> ustr list eligibility" where
  "walk_all C hs = try_fold (\<lambda>ordered h. walk C [] h ordered) [] hs"

definition eligible_of :: "source_descriptor list \<Rightarrow> ustr \<Rightarrow> eligible_source option" where
  "eligible_of ds h =
    Option.bind (by_handle ds h) (\<lambda>d.
    Some \<lparr>es_handle = ds_handle d, es_source = ds_source d, es_kind = ds_kind d, es_coverage = ds_coverage d,
          es_dependencies = List.map_filter (by_source ds) (ds_dependencies d)\<rparr>)"

definition evaluate_sources ::
  "story_snapshot \<Rightarrow> information_policy \<Rightarrow> context_purpose \<Rightarrow> ustr list \<Rightarrow> eligibility_receipt eligibility" where
  "evaluate_sources sn po purpose requested =
    and_then (validate_snapshot sn) (\<lambda>_.
    and_then (validate_policy po) (\<lambda>_.
    and_then (check_purpose sn po purpose requested) (\<lambda>_.
    and_then (validate_basis_manifest sn po purpose) (\<lambda>_.
    and_then (try_fold index_step ([], []) (sn_sources sn)) (\<lambda>_.
    and_then (ok_or (refuse InvalidSnapshot) (target_of sn)) (\<lambda>target.
    and_then (try_fold (select_step (sn_sources sn)) [] requested) (\<lambda>selected.
    and_then (ensure (ds_handle target \<in> set selected) (refuse TargetNotSelected)) (\<lambda>_.
    and_then (try_each (validate_descriptor sn) (sn_sources sn)) (\<lambda>_.
    and_then (try_each (\<lambda>g. ensure (by_handle (sn_sources sn) (cg_handle g) \<noteq> None)
      (refuse_handle InvalidPolicy (cg_handle g))) (po_grants po)) (\<lambda>_.
    and_then (walk_all (walk_setup sn po purpose (ds_handle target)) selected) (\<lambda>ordered.
    Inr \<lparr>er_snapshot = sn_id sn, er_project = sn_project sn, er_audience = po_audience po, er_purpose = purpose,
         er_eligible = List.map_filter (eligible_of (sn_sources sn)) ordered,
         er_handles = ordered, er_can_authorize_apply = False\<rparr>)))))))))))"

end
