(* ===== verification/Eligibility_Proofs.thy ===== *)
theory Eligibility_Proofs
  imports Eligibility
begin

text \<open>
  The walk over source dependencies: it succeeds exactly when every source reachable from the
  start is admitted and no reachable source depends on itself, and it then emits the reachable
  sources in dependency order.
\<close>

section \<open>The dependency graph\<close>

definition depends :: "source_descriptor list \<Rightarrow> (ustr \<times> ustr) set" where
  "depends ds = {(h, i). \<exists>d dep. by_handle ds h = Some d \<and> dep \<in> set (ds_dependencies d) \<and> by_source ds dep = Some i}"

definition admissible :: "walk_context \<Rightarrow> ustr \<Rightarrow> bool" where
  "admissible C h \<longleftrightarrow> (\<exists>d. by_handle (wk_sources C) h = Some d \<and> admit C d h = Inr ()
     \<and> (\<forall>dep \<in> set (ds_dependencies d). by_source (wk_sources C) dep \<noteq> None))"

text \<open>A list of handles in which every handle comes after what it depends on.\<close>

definition in_order :: "(ustr \<times> ustr) set \<Rightarrow> ustr list \<Rightarrow> bool" where
  "in_order R hs \<longleftrightarrow> (\<forall>xs h ys. hs = xs @ h # ys \<longrightarrow> R `` {h} \<subseteq> set xs)"

lemma in_order_snoc: "in_order R (hs @ [h]) \<longleftrightarrow> in_order R hs \<and> R `` {h} \<subseteq> set hs"
proof
  assume a: "in_order R (hs @ [h])"
  have "R `` {h'} \<subseteq> set xs" if "hs = xs @ h' # ys" for xs h' ys
    using a that unfolding in_order_def by (metis append.assoc append_Cons)
  moreover have "R `` {h} \<subseteq> set hs" using a unfolding in_order_def by blast
  ultimately show "in_order R hs \<and> R `` {h} \<subseteq> set hs" by (auto simp: in_order_def)
next
  assume b: "in_order R hs \<and> R `` {h} \<subseteq> set hs"
  show "in_order R (hs @ [h])"
    unfolding in_order_def
  proof (intro allI impI)
    fix xs h' ys
    assume eq: "hs @ [h] = xs @ h' # ys"
    show "R `` {h'} \<subseteq> set xs"
    proof (cases ys rule: rev_cases)
      case Nil
      with eq b show ?thesis by simp
    next
      case (snoc zs z)
      with eq have "hs = xs @ h' # zs" by (metis append.assoc append_Cons butlast_snoc)
      with b show ?thesis by (auto simp: in_order_def)
    qed
  qed
qed

lemma in_order_Nil [simp]: "in_order R []"
  by (simp add: in_order_def)

lemma in_order_step:
  assumes "in_order R hs" and "h \<in> set hs" and "(h, i) \<in> R"
  shows "i \<in> set hs"
proof -
  from assms(2) obtain xs ys where "hs = xs @ h # ys" by (meson split_list)
  with assms(1,3) show ?thesis by (auto simp: in_order_def)
qed

lemma in_order_closed:
  assumes "in_order R hs" and "h \<in> set hs" and "(h, i) \<in> R\<^sup>*"
  shows "i \<in> set hs"
  using assms(3,2) by (induction rule: rtrancl_induct) (auto intro: in_order_step [OF assms(1)])

text \<open>In such a list no element reaches itself.\<close>

lemma in_order_acyclic:
  assumes "in_order R hs" and "distinct hs" and "h \<in> set hs"
  shows "(h, h) \<notin> R\<^sup>+"
  using assms
proof (induction hs arbitrary: h rule: rev_induct)
  case (snoc x hs)
  from snoc.prems have hs: "in_order R hs" "distinct hs" "R `` {x} \<subseteq> set hs" "x \<notin> set hs"
    by (auto simp: in_order_snoc)
  show ?case
  proof
    assume loop: "(h, h) \<in> R\<^sup>+"
    show False
    proof (cases "h = x")
      case True
      with loop obtain y where "(x, y) \<in> R" "(y, x) \<in> R\<^sup>*" by (meson tranclD)
      with hs have "x \<in> set hs" by (auto dest: in_order_closed)
      with hs(4) show False by simp
    next
      case False
      with snoc.prems snoc.IH [OF hs(1,2)] loop show False by auto
    qed
  qed
qed simp

section \<open>What a successful walk emits\<close>

definition walked :: "walk_context \<Rightarrow> ustr list \<Rightarrow> bool" where
  "walked C hs \<longleftrightarrow> distinct hs \<and> in_order (depends (wk_sources C)) hs \<and> (\<forall>h \<in> set hs. admissible C h)"

definition extends :: "walk_context \<Rightarrow> ustr list \<Rightarrow> ustr set \<Rightarrow> ustr list \<Rightarrow> ustr list \<Rightarrow> bool" where
  "extends C stack from_set hs hs' \<longleftrightarrow> walked C hs' \<and> from_set \<subseteq> set hs' \<and> set hs \<subseteq> set hs'
     \<and> set hs' \<subseteq> set hs \<union> (depends (wk_sources C))\<^sup>* `` from_set \<and> set hs' \<inter> set stack = {}"

lemma extends_trans:
  assumes "extends C stack {h} hs mid" and "extends C stack hs1 mid hs'"
  shows "extends C stack (insert h hs1) hs hs'"
proof -
  let ?R = "(depends (wk_sources C))\<^sup>*"
  have split: "?R `` insert h hs1 = ?R `` {h} \<union> ?R `` hs1" by auto
  from assms have "set mid \<subseteq> set hs \<union> ?R `` {h}" "set hs' \<subseteq> set mid \<union> ?R `` hs1"
    by (simp_all only: extends_def)
  then have "set hs' \<subseteq> set hs \<union> ?R `` insert h hs1" unfolding split by blast
  with assms show ?thesis by (auto simp only: extends_def insert_subset)
qed

lemma walk_sound:
  "walk C stack h hs = Inr hs' \<Longrightarrow> walked C hs \<Longrightarrow> set hs \<inter> set stack = {} \<Longrightarrow> extends C stack {h} hs hs'"
  and walk_dependencies_sound:
  "walk_dependencies C stack h deps hs = Inr hs' \<Longrightarrow> walked C hs \<Longrightarrow> set hs \<inter> set stack = {} \<Longrightarrow>
    (\<forall>dep \<in> set deps. by_source (wk_sources C) dep \<noteq> None)
    \<and> extends C stack {i. \<exists>dep \<in> set deps. by_source (wk_sources C) dep = Some i} hs hs'"
proof (induction C stack h hs and C stack h deps hs arbitrary: hs' and hs' rule: walk_walk_dependencies.induct)
  case (1 C stack h hs)
  let ?R = "depends (wk_sources C)"
  from "1.prems"(1) have fresh: "h \<notin> set stack"
    by (subst (asm) walk.simps) (auto split: if_splits)
  show ?case
  proof (cases "h \<in> set hs")
    case True
    with "1.prems" fresh have "hs' = hs" by (subst (asm) walk.simps) simp
    with True "1.prems"(2,3) show ?thesis by (auto simp: extends_def)
  next
    case False
    with "1.prems"(1) fresh obtain d where d: "by_handle (wk_sources C) h = Some d"
      by (subst (asm) walk.simps) (auto split: option.splits)
    with "1.prems"(1) fresh False obtain mid where admitted: "admit C d h = Inr ()"
      and deps: "walk_dependencies C (h # stack) h (ds_dependencies d) hs = Inr mid"
      and out: "hs' = mid @ [h]"
      by (subst (asm) walk.simps) (auto simp: and_then_eq_Inr)
    let ?next = "{i. \<exists>dep \<in> set (ds_dependencies d). by_source (wk_sources C) dep = Some i}"
    have "set hs \<inter> set (h # stack) = {}" using False "1.prems"(3) by auto
    from "1.IH" [OF fresh False d deps "1.prems"(2) this]
    have resolved: "\<forall>dep \<in> set (ds_dependencies d). by_source (wk_sources C) dep \<noteq> None"
      and mid: "extends C (h # stack) ?next hs mid" by auto
    have succ: "?R `` {h} = ?next" using d by (auto simp: depends_def)
    have "walked C (mid @ [h])"
      using mid resolved admitted d succ
      by (auto simp: extends_def walked_def in_order_snoc admissible_def)
    moreover have "set mid \<subseteq> set hs \<union> ?R\<^sup>* `` {h}"
    proof -
      have "?R\<^sup>* `` ?next \<subseteq> ?R\<^sup>* `` {h}"
        unfolding succ [symmetric] by (auto intro: converse_rtrancl_into_rtrancl)
      moreover have "set mid \<subseteq> set hs \<union> ?R\<^sup>* `` ?next" using mid by (simp add: extends_def)
      ultimately show ?thesis by blast
    qed
    moreover have "set hs \<subseteq> set mid" "set mid \<inter> set stack = {}" using mid by (auto simp: extends_def)
    ultimately show ?thesis
      using fresh unfolding out extends_def by auto
  qed
next
  case (2 C stack h hs)
  then show ?case by (auto simp: extends_def)
next
  case (3 C stack h dep deps hs)
  let ?R = "depends (wk_sources C)"
  from "3.prems"(1) obtain i where i: "by_source (wk_sources C) dep = Some i"
    by (auto split: option.splits)
  with "3.prems"(1) obtain mid where first: "walk C stack i hs = Inr mid"
    and rest: "walk_dependencies C stack h deps mid = Inr hs'"
    by (auto simp: and_then_eq_Inr)
  from "3.IH"(1) [OF i first "3.prems"(2,3)] have mid: "extends C stack {i} hs mid" .
  then have "walked C mid" "set mid \<inter> set stack = {}" by (auto simp: extends_def)
  from "3.IH"(2) [OF i rest this]
  have tail: "\<forall>dep \<in> set deps. by_source (wk_sources C) dep \<noteq> None"
    "extends C stack {i. \<exists>dep \<in> set deps. by_source (wk_sources C) dep = Some i} mid hs'" by auto
  have "{j. \<exists>e \<in> set (dep # deps). by_source (wk_sources C) e = Some j}
      = insert i {i. \<exists>dep \<in> set deps. by_source (wk_sources C) dep = Some i}"
    using i by auto
  with extends_trans [OF mid tail(2)] tail(1) i show ?case by simp
qed

section \<open>When the walk succeeds\<close>

definition clear :: "walk_context \<Rightarrow> ustr list \<Rightarrow> ustr set \<Rightarrow> bool" where
  "clear C stack from_set \<longleftrightarrow> (\<forall>j \<in> (depends (wk_sources C))\<^sup>* `` from_set.
     admissible C j \<and> j \<notin> set stack \<and> (j, j) \<notin> (depends (wk_sources C))\<^sup>+)"

lemma walk_complete:
  "clear C stack {h} \<Longrightarrow> \<exists>hs'. walk C stack h hs = Inr hs'"
  and walk_dependencies_complete:
  "clear C stack {i. \<exists>dep \<in> set deps. by_source (wk_sources C) dep = Some i} \<Longrightarrow>
    (\<forall>dep \<in> set deps. by_source (wk_sources C) dep \<noteq> None) \<Longrightarrow>
    \<exists>hs'. walk_dependencies C stack h deps hs = Inr hs'"
proof (induction C stack h hs and C stack h deps hs rule: walk_walk_dependencies.induct)
  case (1 C stack h hs)
  let ?R = "depends (wk_sources C)"
  from "1.prems" have h: "admissible C h" "h \<notin> set stack" "(h, h) \<notin> ?R\<^sup>+"
    by (auto simp: clear_def)
  then obtain d where d: "by_handle (wk_sources C) h = Some d" "admit C d h = Inr ()"
    "\<forall>dep \<in> set (ds_dependencies d). by_source (wk_sources C) dep \<noteq> None"
    by (auto simp: admissible_def)
  show ?case
  proof (cases "h \<in> set hs")
    case True
    with h show ?thesis by (subst walk.simps) simp
  next
    case False
    let ?next = "{i. \<exists>dep \<in> set (ds_dependencies d). by_source (wk_sources C) dep = Some i}"
    have succ: "?R `` {h} = ?next" using d by (auto simp: depends_def)
    have "clear C (h # stack) ?next"
      unfolding clear_def
    proof
      fix j
      assume "j \<in> ?R\<^sup>* `` ?next"
      with succ have j: "(h, j) \<in> ?R\<^sup>+" by (auto intro: rtrancl_into_trancl2)
      with h(3) "1.prems" show "admissible C j \<and> j \<notin> set (h # stack) \<and> (j, j) \<notin> ?R\<^sup>+"
        by (auto simp: clear_def dest: trancl_into_rtrancl)
    qed
    from "1.IH" [OF h(2) False d(1) this d(3)] obtain mid where
      "walk_dependencies C (h # stack) h (ds_dependencies d) hs = Inr mid" ..
    with h d False show ?thesis by (subst walk.simps) simp
  qed
next
  case (2 C stack h hs)
  then show ?case by simp
next
  case (3 C stack h dep deps hs)
  from "3.prems"(2) obtain i where i: "by_source (wk_sources C) dep = Some i" by auto
  have "clear C stack {i}" using "3.prems"(1) i by (force simp: clear_def)
  from "3.IH"(1) [OF i this] obtain mid where mid: "walk C stack i hs = Inr mid" ..
  have "clear C stack {i. \<exists>dep \<in> set deps. by_source (wk_sources C) dep = Some i}"
    using "3.prems"(1) by (force simp: clear_def)
  from "3.IH"(2) [OF i this, of mid] "3.prems"(2) i mid show ?case by auto
qed

lemma walk_all_sound:
  "try_fold (\<lambda>ordered h. walk C [] h ordered) hs0 hs = Inr hs' \<Longrightarrow> walked C hs0 \<Longrightarrow> extends C [] (set hs) hs0 hs'"
proof (induction hs arbitrary: hs0)
  case (Cons h hs)
  then obtain mid where mid: "walk C [] h hs0 = Inr mid" "try_fold (\<lambda>ordered h. walk C [] h ordered) mid hs = Inr hs'"
    by (auto elim: and_then_okE)
  from walk_sound [OF mid(1) Cons.prems(2)] have ext: "extends C [] {h} hs0 mid" by simp
  then have "walked C mid" by (simp add: extends_def)
  from extends_trans [OF ext Cons.IH [OF mid(2) this]] show ?case by simp
qed (simp add: extends_def)

lemma walk_all_complete:
  "clear C [] (set hs) \<Longrightarrow> \<exists>hs'. try_fold (\<lambda>ordered h. walk C [] h ordered) hs0 hs = Inr hs'"
proof (induction hs arbitrary: hs0)
  case (Cons h hs)
  then have "clear C [] {h}" "clear C [] (set hs)" by (auto simp: clear_def)
  with walk_complete [of C "[]" h hs0] Cons.IH show ?case by fastforce
qed simp

text \<open>The walk from the selected handles, as a specification.\<close>

lemma walk_all_iff:
  "(\<exists>ordered. walk_all C hs = Inr ordered) \<longleftrightarrow> clear C [] (set hs)"
proof
  assume "\<exists>ordered. walk_all C hs = Inr ordered"
  then obtain ordered where "extends C [] (set hs) [] ordered"
    using walk_all_sound [of C "[]" hs] by (auto simp: walk_all_def walked_def)
  then have w: "walked C ordered" "set hs \<subseteq> set ordered" by (auto simp: extends_def)
  have "j \<in> set ordered" if "j \<in> (depends (wk_sources C))\<^sup>* `` set hs" for j
    using that w by (auto simp: walked_def dest: in_order_closed)
  with w show "clear C [] (set hs)"
    by (auto simp: clear_def walked_def dest: in_order_acyclic)
qed (simp add: walk_all_def walk_all_complete)

lemma walk_all_ordered:
  assumes "walk_all C hs = Inr ordered"
  shows "distinct ordered" "in_order (depends (wk_sources C)) ordered" "\<forall>h \<in> set ordered. admissible C h"
    "set ordered = (depends (wk_sources C))\<^sup>* `` set hs"
proof -
  from assms have ext: "extends C [] (set hs) [] ordered"
    using walk_all_sound [of C "[]" hs ordered] by (simp add: walk_all_def walked_def)
  then show w: "distinct ordered" "in_order (depends (wk_sources C)) ordered" "\<forall>h \<in> set ordered. admissible C h"
    by (auto simp: extends_def walked_def)
  have "(depends (wk_sources C))\<^sup>* `` set hs \<subseteq> set ordered"
    using ext in_order_closed [OF w(2)] by (auto simp: extends_def)
  with ext show "set ordered = (depends (wk_sources C))\<^sup>* `` set hs"
    by (auto simp: extends_def)
qed

text \<open>
  When every reachable source is admissible, the only refusal is a cycle: the open calls all lead
  to the current handle.
\<close>

lemma walk_refuses_cycles:
  "walk C stack h hs = Inl e \<Longrightarrow> (\<forall>j \<in> (depends (wk_sources C))\<^sup>* `` {h}. admissible C j) \<Longrightarrow>
    (\<forall>s \<in> set stack. (s, h) \<in> (depends (wk_sources C))\<^sup>+) \<Longrightarrow>
    \<exists>x. e = refuse_handle DependencyCycle x \<and> (x, x) \<in> (depends (wk_sources C))\<^sup>+"
  and walk_dependencies_refuses_cycles:
  "walk_dependencies C stack h deps hs = Inl e \<Longrightarrow> (\<forall>j \<in> (depends (wk_sources C))\<^sup>* `` {h}. admissible C j) \<Longrightarrow>
    (\<forall>s \<in> set stack. (s, h) \<in> (depends (wk_sources C))\<^sup>*) \<Longrightarrow>
    (\<forall>dep \<in> set deps. \<exists>i. by_source (wk_sources C) dep = Some i \<and> (h, i) \<in> depends (wk_sources C)) \<Longrightarrow>
    \<exists>x. e = refuse_handle DependencyCycle x \<and> (x, x) \<in> (depends (wk_sources C))\<^sup>+"
proof (induction C stack h hs and C stack h deps hs rule: walk_walk_dependencies.induct)
  case (1 C stack h hs)
  let ?R = "depends (wk_sources C)"
  from "1.prems"(2) have "admissible C h" by auto
  then obtain d where d: "by_handle (wk_sources C) h = Some d" "admit C d h = Inr ()"
    and resolved: "\<forall>dep \<in> set (ds_dependencies d). by_source (wk_sources C) dep \<noteq> None"
    by (auto simp: admissible_def)
  show ?case
  proof (cases "h \<in> set stack")
    case True
    with "1.prems"(1,3) show ?thesis by (subst (asm) walk.simps) auto
  next
    case False
    with "1.prems"(1) d have fresh: "h \<notin> set hs"
      and fails: "walk_dependencies C (h # stack) h (ds_dependencies d) hs = Inl e"
      by (subst (asm) walk.simps, simp split: if_splits add: and_then_eq_Inl)+
    have "\<forall>s \<in> set (h # stack). (s, h) \<in> ?R\<^sup>*" using "1.prems"(3) by (auto intro: trancl_into_rtrancl)
    moreover have "\<forall>dep \<in> set (ds_dependencies d). \<exists>i. by_source (wk_sources C) dep = Some i \<and> (h, i) \<in> ?R"
      using resolved d by (fastforce simp: depends_def)
    ultimately show ?thesis using "1.IH" [OF False fresh d(1) fails "1.prems"(2)] by blast
  qed
next
  case (2 C stack h hs)
  then show ?case by simp
next
  case (3 C stack h dep deps hs)
  let ?R = "depends (wk_sources C)"
  from "3.prems"(4) obtain i where i: "by_source (wk_sources C) dep = Some i" "(h, i) \<in> ?R" by auto
  have down: "\<forall>j \<in> ?R\<^sup>* `` {i}. admissible C j"
    using "3.prems"(2) i(2) by (auto intro: converse_rtrancl_into_rtrancl)
  have up: "\<forall>s \<in> set stack. (s, i) \<in> ?R\<^sup>+"
    using "3.prems"(3) i(2) by (auto intro: rtrancl_into_trancl1)
  from "3.prems"(1) i consider "walk C stack i hs = Inl e"
    | mid where "walk C stack i hs = Inr mid" "walk_dependencies C stack h deps mid = Inl e"
    by (auto simp: and_then_eq_Inl)
  then show ?case
  proof cases
    case 1
    from "3.IH"(1) [OF i(1) this down up] show ?thesis .
  next
    case 2
    from "3.IH"(2) [OF i(1) 2(2) "3.prems"(2,3)] "3.prems"(4) show ?thesis by simp
  qed
qed

lemma walk_all_refuses_cycles:
  "try_fold (\<lambda>ordered h. walk C [] h ordered) hs0 hs = Inl e \<Longrightarrow>
    (\<forall>j \<in> (depends (wk_sources C))\<^sup>* `` set hs. admissible C j) \<Longrightarrow>
    \<exists>x. e = refuse_handle DependencyCycle x \<and> (x, x) \<in> (depends (wk_sources C))\<^sup>+"
proof (induction hs arbitrary: hs0)
  case (Cons h hs)
  from Cons.prems(1) consider "walk C [] h hs0 = Inl e"
    | mid where "try_fold (\<lambda>ordered h. walk C [] h ordered) mid hs = Inl e"
    by (auto simp: and_then_eq_Inl)
  then show ?case
  proof cases
    case 1
    from walk_refuses_cycles [OF this] Cons.prems(2) show ?thesis by auto
  next
    case 2
    from Cons.IH [OF this] Cons.prems(2) show ?thesis by auto
  qed
qed simp

section \<open>Comparing positions\<close>

lemma decimal_canonical: "decimal v \<longleftrightarrow> canonical_decimal v"
proof -
  have "u ''0'' = [48]" by (simp add: u_def)
  then show ?thesis by (auto simp: decimal_def canonical_decimal_def)
qed

lemma parse_digits_bound: "list_all is_ascii_digit s \<Longrightarrow> parse_digits s < 10 ^ length s"
proof (induction s rule: rev_induct)
  case (snoc c s)
  then have "parse_digits s < 10 ^ length s" "c - 48 < 10" by (auto simp: is_ascii_digit_def)
  then have "10 * parse_digits s + (c - 48) < 10 * (parse_digits s + 1)" "parse_digits s + 1 \<le> 10 ^ length s" by auto
  then show ?case by simp
qed (simp add: parse_digits_def)

lemma parse_digits_append: "parse_digits (s @ t) = parse_digits s * 10 ^ length t + parse_digits t"
proof (induction t rule: rev_induct)
  case (snoc c t)
  then show ?case by (simp flip: append_assoc add: algebra_simps)
qed (simp add: parse_digits_def)

lemma parse_digits_Cons: "parse_digits (c # s) = (c - 48) * 10 ^ length s + parse_digits s"
  using parse_digits_append [of "[c]" s] by (simp add: parse_digits_def)

lemma digits_less: "list_all is_ascii_digit s \<Longrightarrow> list_all is_ascii_digit t \<Longrightarrow> length s = length t \<Longrightarrow>
    s < t \<longleftrightarrow> parse_digits s < parse_digits t"
proof (induction s arbitrary: t)
  case (Cons c s)
  then obtain e t' where t: "t = e # t'" by (cases t) auto
  with Cons.prems have d: "length s = length t'" "list_all is_ascii_digit s" "list_all is_ascii_digit t'"
    and "is_ascii_digit c" "is_ascii_digit e" by auto
  then have ge: "48 \<le> c" "48 \<le> e" by (auto simp: is_ascii_digit_def)
  have bound: "parse_digits s < 10 ^ length t'" "parse_digits t' < 10 ^ length t'"
    using parse_digits_bound [OF d(2)] parse_digits_bound [OF d(3)] d(1) by auto
  consider "c < e" | "c = e" | "e < c" by linarith
  then show ?case
  proof cases
    case 1
    then have "(c - 48) + 1 \<le> e - 48" using ge by simp
    then have "((c - 48) + 1) * 10 ^ length t' \<le> (e - 48) * 10 ^ length t'" by (rule mult_le_mono1)
    then have "parse_digits (c # s) < parse_digits (e # t')"
      using bound d(1) by (simp add: parse_digits_Cons algebra_simps)
    with 1 t show ?thesis by simp
  next
    case 2
    with Cons.IH [OF d(2,3,1)] t d(1) show ?thesis by (simp add: parse_digits_Cons)
  next
    case 3
    then have "(e - 48) + 1 \<le> c - 48" using ge by simp
    then have "((e - 48) + 1) * 10 ^ length t' \<le> (c - 48) * 10 ^ length t'" by (rule mult_le_mono1)
    then have "parse_digits (e # t') < parse_digits (c # s)"
      using bound d(1) by (simp add: parse_digits_Cons algebra_simps)
    with 3 t show ?thesis by simp
  qed
qed simp

lemma canonical_length_less:
  assumes "canonical_decimal s" and "canonical_decimal t" and "length s < length t"
  shows "parse_digits s < parse_digits t"
proof -
  from assms have s: "list_all is_ascii_digit s" and t: "list_all is_ascii_digit t" "t \<noteq> []" "1 < length t \<Longrightarrow> hd t \<noteq> 48"
    by (auto simp: canonical_decimal_iff)
  have "s \<noteq> []" using assms(1) by (simp add: canonical_decimal_iff)
  with assms(3) have "1 < length t" by (cases s) auto
  with t obtain c t' where c: "t = c # t'" "c \<noteq> 48" by (cases t) auto
  with t(1) have "1 \<le> c - 48" by (auto simp: is_ascii_digit_def)
  have "parse_digits s < 10 ^ length s" by (rule parse_digits_bound [OF s])
  also have "\<dots> \<le> 10 ^ length t'" using assms(3) c by (intro power_increasing) auto
  also have "\<dots> \<le> (c - 48) * 10 ^ length t'" using \<open>1 \<le> c - 48\<close> by simp
  also have "\<dots> \<le> parse_digits t" using c by (simp add: parse_digits_Cons)
  finally show ?thesis .
qed

lemma decimal_le_numeric:
  "decimal_le l r \<longleftrightarrow> canonical_decimal l \<and> canonical_decimal r \<and> parse_digits l \<le> parse_digits r"
proof (cases "canonical_decimal l \<and> canonical_decimal r")
  case True
  then have d: "list_all is_ascii_digit l" "list_all is_ascii_digit r" by (auto simp: canonical_decimal_iff)
  then have "list_all (\<lambda>c. c < 128) l" "list_all (\<lambda>c. c < 128) r" by (auto simp: list_all_iff digit_lt_128)
  then have b: "bytes l = l" "bytes r = r" "blen l = length l" "blen r = length r"
    by (simp_all add: ascii_bytes ascii_blen)
  consider "length l < length r" | "length r < length l" | "length l = length r" by linarith
  then have "(length l < length r \<or> (length l = length r \<and> l \<le> r)) \<longleftrightarrow> parse_digits l \<le> parse_digits r"
  proof cases
    case 1
    with True canonical_length_less [of l r] show ?thesis by simp
  next
    case 2
    with True canonical_length_less [of r l] show ?thesis by simp
  next
    case 3
    with digits_less [OF d(2,1)] show ?thesis by (simp add: linorder_not_less [symmetric])
  qed
  with True b show ?thesis by (simp add: decimal_le_def decimal_canonical)
qed (auto simp: decimal_le_def decimal_canonical)

section \<open>What an accepted request has passed\<close>

lemma walk_setup_simps [simp]:
  "wk_sources (walk_setup sn po purpose t) = sn_sources sn"
  "wk_policy (walk_setup sn po purpose t) = po"
  "wk_basis (walk_setup sn po purpose t) = sn_basis sn"
  "wk_target (walk_setup sn po purpose t) = t"
  "wk_purpose (walk_setup sn po purpose t) = purpose"
  by (simp_all add: walk_setup_def)

lemma select_step_all:
  "try_fold (select_step ds) sel hs = Inr out \<Longrightarrow> out = sel @ hs"
proof (induction hs arbitrary: sel)
  case (Cons h hs)
  then show ?case using Cons.IH [of "sel @ [h]"]
    by (auto simp: select_step_def and_then_eq_Inr split: if_splits)
qed simp

lemma index_step_distinct:
  "try_fold index_step (hs, ss) ds = Inr out \<Longrightarrow>
    distinct (map ds_handle ds) \<and> distinct (map ds_source ds)"
proof -
  assume ok: "try_fold index_step (hs, ss) ds = Inr out"
  have "distinct (map ds_handle ds) \<and> distinct (map ds_source ds)
    \<and> set hs \<inter> ds_handle ` set ds = {} \<and> set ss \<inter> ds_source ` set ds = {}"
    using ok
  proof (induction ds arbitrary: hs ss)
    case (Cons d ds)
    then obtain seen where step: "index_step (hs, ss) d = Inr seen" and rest: "try_fold index_step seen ds = Inr out"
      by (auto simp: and_then_eq_Inr)
    from step have "ds_handle d \<notin> set hs" "ds_source d \<notin> set ss" "seen = (ds_handle d # hs, ds_source d # ss)"
      by (auto simp: index_step_def split: if_splits)
    with rest Cons.IH show ?case by fastforce
  qed simp
  then show ?thesis by blast
qed

lemma map_filter_total:
  "(\<forall>x \<in> set xs. f x \<noteq> None) \<Longrightarrow> List.map_filter f xs = map (\<lambda>x. the (f x)) xs"
  by (induction xs) (auto simp: List.map_filter_simps)

lemma by_handle_SomeD: "by_handle ds h = Some d \<Longrightarrow> d \<in> set ds \<and> ds_handle d = h"
  unfolding by_handle_def by (auto dest: find_SomeD)

lemma target_ofD: "target_of sn = Some t \<Longrightarrow> t \<in> set (sn_sources sn) \<and> ds_source t = sn_target sn"
  unfolding target_of_def by (auto dest: find_SomeD)

lemma evaluate_ok:
  assumes "evaluate_sources sn po purpose requested = Inr r"
  shows "\<exists>target. validate_policy po = Inr () \<and> check_purpose sn po purpose requested = Inr ()
    \<and> validate_basis_manifest sn po purpose = Inr ()
    \<and> distinct (map ds_handle (sn_sources sn)) \<and> distinct (map ds_source (sn_sources sn))
    \<and> target_of sn = Some target \<and> ds_handle target \<in> set requested
    \<and> walk_all (walk_setup sn po purpose (ds_handle target)) requested = Inr (er_handles r)
    \<and> er_eligible r = List.map_filter (eligible_of (sn_sources sn)) (er_handles r)"
proof -
  obtain target idx selected ordered where
    a: "validate_policy po = Inr ()" "check_purpose sn po purpose requested = Inr ()"
      "validate_basis_manifest sn po purpose = Inr ()" "target_of sn = Some target"
    and i: "try_fold index_step ([], []) (sn_sources sn) = Inr idx"
    and s: "try_fold (select_step (sn_sources sn)) [] requested = Inr selected" "ds_handle target \<in> set selected"
    and w: "walk_all (walk_setup sn po purpose (ds_handle target)) selected = Inr ordered"
    and r: "er_handles r = ordered" "er_eligible r = List.map_filter (eligible_of (sn_sources sn)) ordered"
    using assms unfolding evaluate_sources_def by (auto simp: result_ok)
  have "selected = requested" using select_step_all [OF s(1)] by simp
  with a s(2) w r index_step_distinct [OF i] show ?thesis by blast
qed

lemma eligible_of_handle: "eligible_of ds h = Some e \<Longrightarrow> es_handle e = h"
  by (auto simp: eligible_of_def Option.bind_eq_Some_conv dest: by_handle_SomeD)

lemma eligible_of_fields:
  "eligible_of ds h = Some e \<Longrightarrow> by_handle ds h = Some d \<Longrightarrow>
    es_source e = ds_source d \<and> es_kind e = ds_kind d \<and> es_coverage e = ds_coverage d
    \<and> es_dependencies e = List.map_filter (by_source ds) (ds_dependencies d)"
  by (auto simp: eligible_of_def)

lemma receipt_handles:
  assumes "evaluate_sources sn po purpose requested = Inr r"
  shows "er_handles r = map es_handle (er_eligible r)"
    and "er_eligible r = map (\<lambda>h. the (eligible_of (sn_sources sn) h)) (er_handles r)"
proof -
  obtain target :: source_descriptor where
    w: "walk_all (walk_setup sn po purpose (ds_handle target)) requested = Inr (er_handles r)"
    and e: "er_eligible r = List.map_filter (eligible_of (sn_sources sn)) (er_handles r)"
    using evaluate_ok [OF assms] by blast
  have known: "\<forall>h \<in> set (er_handles r). eligible_of (sn_sources sn) h \<noteq> None"
    using walk_all_ordered(3) [OF w] by (auto simp: admissible_def eligible_of_def)
  then show eq: "er_eligible r = map (\<lambda>h. the (eligible_of (sn_sources sn) h)) (er_handles r)"
    unfolding e by (rule map_filter_total)
  have "map (\<lambda>h. es_handle (the (eligible_of (sn_sources sn) h))) (er_handles r) = er_handles r"
    using known eligible_of_handle by (intro map_idI) fastforce
  then show "er_handles r = map es_handle (er_eligible r)" unfolding eq by (simp add: o_def)
qed

text \<open>An eligible source is the entry of a source of the snapshot that was admitted.\<close>

lemma eligible_sourceE:
  assumes "evaluate_sources sn po purpose requested = Inr r" and "e \<in> set (er_eligible r)"
  obtains target d where "target_of sn = Some target" "d \<in> set (sn_sources sn)"
    "eligible_of (sn_sources sn) (ds_handle d) = Some e"
    "by_handle (sn_sources sn) (ds_handle d) = Some d"
    "es_handle e = ds_handle d" "es_source e = ds_source d" "es_kind e = ds_kind d" "es_coverage e = ds_coverage d"
    "apply_basis_policy d po (sn_basis sn) purpose (ds_handle d = ds_handle target) = Inr ()"
    "apply_disclosure_policy d po = Inr ()"
proof -
  obtain target where t: "target_of sn = Some target"
    and w: "walk_all (walk_setup sn po purpose (ds_handle target)) requested = Inr (er_handles r)"
    using evaluate_ok [OF assms(1)] by blast
  from assms(2) receipt_handles(1) [OF assms(1)] have "es_handle e \<in> set (er_handles r)" by auto
  with walk_all_ordered(3) [OF w] obtain d where d: "by_handle (sn_sources sn) (es_handle e) = Some d"
    and a: "admit (walk_setup sn po purpose (ds_handle target)) d (es_handle e) = Inr ()"
    by (auto simp: admissible_def)
  from assms(2) receipt_handles(2) [OF assms(1)] obtain h where h: "h \<in> set (er_handles r)"
    "e = the (eligible_of (sn_sources sn) h)" by (metis imageE list.set_map)
  with walk_all_ordered(3) [OF w] have e: "eligible_of (sn_sources sn) h = Some e"
    by (auto simp: admissible_def eligible_of_def)
  then have same: "eligible_of (sn_sources sn) (es_handle e) = Some e" using eligible_of_handle by blast
  have "ds_handle d = es_handle e" "d \<in> set (sn_sources sn)" using by_handle_SomeD [OF d] by auto
  moreover have "apply_basis_policy d po (sn_basis sn) purpose (es_handle e = ds_handle target) = Inr ()"
    "apply_disclosure_policy d po = Inr ()"
    using a by (auto simp: admit_def and_then_eq_Inr)
  ultimately show thesis
    using t d same eligible_of_fields [OF same d] by (intro that [of target d]) simp_all
qed

end
