(* ===== verification/Eligibility_Properties.thy ===== *)
theory Eligibility_Properties
  imports Eligibility_Proofs
begin

text \<open>
  What a caller may rely on when it holds an eligibility receipt: the positions are compared as
  numbers, restricted writing never sees past the reader frontier, the receipt is the closure of
  the request in dependency order, the walk fails only for a reason, and a reviewed continuation
  rests on exactly the reviewed prefix.
\<close>

section \<open>Disclosure\<close>

lemma character_policy_ok:
  assumes "character_policy d po frontier = Inr ()"
  shows "case po_character po of
      None \<Rightarrow> di_characters (ds_disclosure d) = []
    | Some c \<Rightarrow> (di_characters (ds_disclosure d) = [] \<or> c \<in> set (di_characters (ds_disclosure d)))
        \<and> (\<exists>g \<in> set (po_grants po). cg_character g = c \<and> cg_handle g = ds_handle d
            \<and> decimal_le (cg_frontier g) frontier)"
  using assms unfolding character_policy_def
  by (auto simp: Let_def list_ex_iff split: option.splits if_splits)

lemma disclosure_ok:
  assumes "apply_disclosure_policy d po = Inr ()" and "po_audience po = RestrictedWriting"
  obtains frontier position where "po_frontier po = Some frontier"
    "di_position (ds_disclosure d) = Some position" "decimal_le position frontier"
    "\<not> di_author_only (ds_disclosure d)" "\<not> di_future_private (ds_disclosure d)"
    "ds_kind d \<noteq> PrivateFuture" "ds_kind d \<noteq> AuthorRoomDiscussion" "ds_coverage d \<noteq> DirectoryOnly"
    "character_policy d po frontier = Inr ()"
  using assms unfolding apply_disclosure_policy_def
  by (auto simp: Let_def result_ok split: if_splits)

lemma restricted_kinds:
  assumes "apply_basis_policy d po basis purpose t = Inr ()" and "po_audience po = RestrictedWriting"
  shows "ds_kind d \<noteq> ConversationControl" "ds_kind d \<noteq> AssistantDraftSource"
  using assms unfolding apply_basis_policy_def by (auto simp: Let_def split: if_splits)

section \<open>The reviewed prefix\<close>

lemma member_documents_distinct:
  "try_fold (member_step mp project) (docs, bundles, revs) ms = Inr out \<Longrightarrow>
    distinct (map bm_document ms) \<and> set docs \<inter> bm_document ` set ms = {}"
proof (induction ms arbitrary: docs bundles revs)
  case (Cons m ms)
  then obtain seen where step: "member_step mp project (docs, bundles, revs) m = Inr seen"
    and rest: "try_fold (member_step mp project) seen ms = Inr out"
    by (auto simp: and_then_eq_Inr)
  from step obtain bs rs where "bm_document m \<notin> set docs" "seen = (bm_document m # docs, bs, rs)"
    by (auto simp: member_step_def result_ok split: if_splits)
  with rest Cons.IH show ?case by fastforce
qed simp

text \<open>
  As many authority sources as prefix members, every member found among them, and no two members
  of one document: then every authority source is a member.
\<close>

lemma authority_bound:
  assumes len: "length as = length ms" and distinct: "distinct (map bm_document ms)"
    and found: "\<forall>m \<in> set ms. \<exists>d \<in> set as. same_member m (ds_source d)" and d: "d \<in> set as"
  shows "\<exists>m \<in> set ms. same_member m (ds_source d)"
proof -
  let ?doc = "\<lambda>d. sr_document (ds_source d)"
  have sub: "set (map bm_document ms) \<subseteq> set (map ?doc as)"
    using found by (force simp: same_member_def)
  have "card (set (map bm_document ms)) = length as"
    using distinct_card [OF distinct] len by simp
  with card_length [of "map ?doc as"] have "card (set (map ?doc as)) \<le> card (set (map bm_document ms))" by simp
  with sub have eq: "set (map bm_document ms) = set (map ?doc as)" by (intro card_seteq) auto
  then have "card (set (map ?doc as)) = length (map ?doc as)"
    using \<open>card (set (map bm_document ms)) = length as\<close> by simp
  then have inj: "distinct (map ?doc as)" by (rule card_distinct)
  have "?doc d \<in> set (map bm_document ms)" unfolding eq using d by simp
  then obtain m where m: "m \<in> set ms" "bm_document m = ?doc d" by auto
  with found obtain d' where d': "d' \<in> set as" "same_member m (ds_source d')" by blast
  with m inj d have "d' = d" by (auto simp: same_member_def distinct_map dest: inj_onD)
  with m d' show ?thesis by blast
qed

lemma manifest_ok:
  assumes "validate_manifest sn po purpose m = Inr ()" and "target_of sn = Some target" and "purpose = Continue"
  shows "ds_kind target = CurrentDraft" "di_position (ds_disclosure target) = po_frontier po"
    and "d \<in> set (authority_sources sn) \<Longrightarrow> \<exists>b \<in> set (bs_prefix m). same_member b (ds_source d)"
proof -
  from assms obtain seen where fold: "try_fold (member_step (bs_project m) (sn_project sn)) ([], [], []) (bs_prefix m) = Inr seen"
    and found: "length (authority_sources sn) = length (bs_prefix m)"
      "list_all (\<lambda>b. list_ex (\<lambda>d. same_member b (ds_source d)) (authority_sources sn)) (bs_prefix m)"
    and "ds_kind target = CurrentDraft" "di_position (ds_disclosure target) = po_frontier po"
    unfolding validate_manifest_def by (auto simp: result_ok split: if_splits)
  then show "ds_kind target = CurrentDraft" "di_position (ds_disclosure target) = po_frontier po" by simp_all
  assume d: "d \<in> set (authority_sources sn)"
  show "\<exists>b \<in> set (bs_prefix m). same_member b (ds_source d)"
  proof (rule authority_bound [OF found(1) _ _ d])
    show "distinct (map bm_document (bs_prefix m))" using member_documents_distinct [OF fold] by simp
    show "\<forall>b \<in> set (bs_prefix m). \<exists>d \<in> set (authority_sources sn). same_member b (ds_source d)"
      using found(2) by (simp add: list_all_iff list_ex_iff)
  qed
qed

section \<open>The order of the receipt\<close>

lemma eligible_dependencies:
  assumes "eligible_of ds h = Some e"
  shows "set (es_dependencies e) = depends ds `` {h}"
proof -
  from assms obtain d where d: "by_handle ds h = Some d" by (cases "by_handle ds h") (auto simp: eligible_of_def)
  have "set (List.map_filter f xs) = {y. \<exists>x \<in> set xs. f x = Some y}" for f :: "source_ref \<Rightarrow> ustr option" and xs
    by (force simp: List.map_filter_def)
  with d eligible_of_fields [OF assms d] show ?thesis by (auto simp: depends_def)
qed

section \<open>A chapter with its sources\<close>

definition sample_hash :: ustr where "sample_hash = replicate 64 97"

definition sample_ref :: "string \<Rightarrow> source_ref" where
  "sample_ref d = \<lparr>sr_project = u ''p'', sr_document = u d, sr_revision = u (d @ ''1''), sr_hash = sample_hash\<rparr>"

definition sample_source :: "string \<Rightarrow> source_kind \<Rightarrow> string \<Rightarrow> string list \<Rightarrow> source_descriptor" where
  "sample_source d kind position deps =
    \<lparr>ds_handle = u d, ds_source = sample_ref d, ds_name = u ''n'', ds_kind = kind, ds_current = True,
     ds_coverage = Verbatim,
     ds_disclosure = \<lparr>di_position = Some (u position), di_characters = [], di_author_only = False, di_future_private = False\<rparr>,
     ds_time = None, ds_dependencies = map sample_ref deps\<rparr>"

definition sample_story :: "basis_kind \<Rightarrow> basis_manifest option \<Rightarrow> source_kind \<Rightarrow> story_snapshot" where
  "sample_story basis m kind =
    \<lparr>sn_id = u ''s'', sn_project = u ''p'', sn_basis = basis, sn_target = sample_ref ''b'',
     sn_source_epoch = u ''4'', sn_ordering_epoch = u ''2'', sn_policy_version = u ''1'',
     sn_sources = [sample_source ''b'' CurrentDraft ''10'' [''a''], sample_source ''a'' kind ''9'' []],
     sn_reviewed = m\<rparr>"

definition sample_policy :: information_policy where
  "sample_policy = \<lparr>po_version = u ''1'', po_audience = RestrictedWriting, po_frontier = Some (u ''10''),
    po_character = None, po_grants = [], po_alternatives = False, po_historical = False\<rparr>"

definition sample_prefix :: basis_manifest where
  "sample_prefix = \<lparr>bs_project = u ''p'', bs_namespace = u ''n'', bs_prefix =
    [\<lparr>bm_document = u ''a'', bm_bundle = u ''x'', bm_revision = u ''a1'', bm_version = u ''1'', bm_hash = sample_hash\<rparr>]\<rparr>"

lemma sample_hash_ok [simp]:
  "blen sample_hash = 64" "list_all is_ascii_hexdigit (bytes sample_hash)"
  by (simp_all add: sample_hash_def ascii_bytes ascii_blen list_all_iff is_ascii_hexdigit_def)

lemma sample_ref_ok [simp]:
  "validate_source_ref (sample_ref ''a'') [112] = Inr ()"
  "validate_source_ref (sample_ref ''b'') [112] = Inr ()"
  "validate_source_ref \<lparr>sr_project = [112], sr_document = [97], sr_revision = [97, 49], sr_hash = sample_hash\<rparr> [112] = Inr ()"
  by (simp_all add: validate_source_ref_def sample_ref_def check_ref_field_def nonempty_def u_def ascii_blen)

lemma sample_ref_fields [simp]:
  "sr_document (sample_ref ''a'') = [97]" "sr_revision (sample_ref ''a'') = [97, 49]" "sr_hash (sample_ref ''a'') = sample_hash"
  by (simp_all add: sample_ref_def u_def)

lemma sample_ref_inject [simp]: "sample_ref ''a'' \<noteq> sample_ref ''b''" "sample_ref ''b'' \<noteq> sample_ref ''a''"
  by (simp_all add: sample_ref_def u_def)

lemmas sample_story_simps = sample_story_def sample_source_def sample_policy_def sample_prefix_def u_def
  nonempty_def by_handle_def by_source_def target_of_def authority_sources_def

lemma sample_decimals [simp]:
  "decimal [52]" "decimal [50]" "decimal [49]" "decimal [49, 48]" "decimal [57]"
  "decimal_le [57] [49, 48]" "decimal_le [49, 48] [49, 48]"
  by (simp_all add: decimal_le_def decimal_def ascii_bytes ascii_blen is_ascii_digit_def u_def)

lemma sample_walk:
  assumes "basis = WorkingBasis \<and> kind = ExplicitRule \<or> basis = ReviewedBasis \<and> kind = ReviewedAuthority"
  shows "walk_all (walk_setup (sample_story basis m kind) sample_policy Continue (u ''b'')) [u ''b''] = Inr [u ''a'', u ''b'']"
  using assms
  by (auto simp: walk_all_def walk.simps admit_def apply_basis_policy_def apply_disclosure_policy_def
      character_policy_def Let_def sample_story_simps)

lemma sample_prefix_ok:
  "validate_manifest (sample_story ReviewedBasis (Some sample_prefix) ReviewedAuthority) sample_policy Continue sample_prefix = Inr ()"
  by (simp add: validate_manifest_def member_step_def same_member_def sample_story_simps)

lemma sample_receipt:
  assumes "basis = WorkingBasis \<and> m = None \<and> kind = ExplicitRule
    \<or> basis = ReviewedBasis \<and> m = Some sample_prefix \<and> kind = ReviewedAuthority"
  shows "evaluate_sources (sample_story basis m kind) sample_policy Continue [u ''b''] =
    Inr \<lparr>er_snapshot = u ''s'', er_project = u ''p'', er_audience = RestrictedWriting, er_purpose = Continue,
      er_eligible =
        [\<lparr>es_handle = u ''a'', es_source = sample_ref ''a'', es_kind = kind, es_coverage = Verbatim, es_dependencies = []\<rparr>,
         \<lparr>es_handle = u ''b'', es_source = sample_ref ''b'', es_kind = CurrentDraft, es_coverage = Verbatim,
          es_dependencies = [u ''a'']\<rparr>],
      er_handles = [u ''a'', u ''b''], er_can_authorize_apply = False\<rparr>"
proof -
  let ?s = "sample_story basis m kind"
  have "validate_snapshot ?s = Inr ()" "validate_policy sample_policy = Inr ()"
    "try_each (validate_descriptor ?s) (sn_sources ?s) = Inr ()"
    by (simp_all add: validate_snapshot_def validate_policy_def validate_descriptor_def dependency_check_def sample_story_simps)
  moreover have "check_purpose ?s sample_policy Continue [u ''b''] = Inr ()"
    by (simp add: check_purpose_def sample_story_simps)
  moreover have "validate_basis_manifest ?s sample_policy Continue = Inr ()"
    using assms sample_prefix_ok by (auto simp: validate_basis_manifest_def sample_story_def)
  moreover have "\<exists>i. try_fold index_step ([], []) (sn_sources ?s) = Inr i"
    "try_fold (select_step (sn_sources ?s)) [] [u ''b''] = Inr [u ''b'']"
    "target_of ?s = Some (sample_source ''b'' CurrentDraft ''10'' [''a''])"
    "ds_handle (sample_source ''b'' CurrentDraft ''10'' [''a'']) = u ''b''" "po_grants sample_policy = []"
    "sn_id ?s = u ''s''" "sn_project ?s = u ''p''" "po_audience sample_policy = RestrictedWriting"
    by (simp_all add: index_step_def select_step_def sample_story_simps)
  moreover have "List.map_filter (eligible_of (sn_sources ?s)) [u ''a'', u ''b''] =
        [\<lparr>es_handle = u ''a'', es_source = sample_ref ''a'', es_kind = kind, es_coverage = Verbatim, es_dependencies = []\<rparr>,
         \<lparr>es_handle = u ''b'', es_source = sample_ref ''b'', es_kind = CurrentDraft, es_coverage = Verbatim,
          es_dependencies = [u ''a'']\<rparr>]"
    by (simp add: eligible_of_def List.map_filter_simps sample_story_simps)
  moreover have "walk_all (walk_setup ?s sample_policy Continue (u ''b'')) [u ''b''] = Inr [u ''a'', u ''b'']"
    using assms by (intro sample_walk) auto
  ultimately show ?thesis by (auto simp: evaluate_sources_def)
qed

section \<open>Properties\<close>

text \<open>
  Reader positions are compared as numbers: for two decimal strings without leading zeros the
  length-then-bytes comparison of \<open>decimal_le\<close> is the order of the numbers they denote, and it
  answers no for every string that is not such a decimal.
\<close>

theorem positions_compare_as_numbers:
  "decimal_le l r \<longleftrightarrow> canonical_decimal l \<and> canonical_decimal r \<and> parse_digits l \<le> parse_digits r"
  by (rule decimal_le_numeric)

text \<open>
  C32: no spoiler reaches restricted writing: every source of a receipt for restricted writing is a
  source of the snapshot whose reader position is a number not above the policy's frontier; it is
  neither author-only nor future-private, is no private future, author-room discussion, unadopted
  assistant draft or control anchor, is not a mere directory entry, and is visible to the selected
  character, who holds a grant for it that starts at or before the frontier.
\<close>

theorem restricted_writing_sees_no_future:
  assumes "evaluate_sources sn po purpose requested = Inr r" and "po_audience po = RestrictedWriting"
    and "e \<in> set (er_eligible r)"
  shows "\<exists>d \<in> set (sn_sources sn). \<exists>frontier position.
    ds_handle d = es_handle e \<and> ds_source d = es_source e \<and> ds_kind d = es_kind e
    \<and> po_frontier po = Some frontier \<and> di_position (ds_disclosure d) = Some position
    \<and> parse_digits position \<le> parse_digits frontier
    \<and> \<not> di_author_only (ds_disclosure d) \<and> \<not> di_future_private (ds_disclosure d)
    \<and> ds_kind d \<notin> {PrivateFuture, AuthorRoomDiscussion, AssistantDraftSource, ConversationControl}
    \<and> ds_coverage d \<noteq> DirectoryOnly
    \<and> (case po_character po of
         None \<Rightarrow> di_characters (ds_disclosure d) = []
       | Some c \<Rightarrow> (di_characters (ds_disclosure d) = [] \<or> c \<in> set (di_characters (ds_disclosure d)))
           \<and> (\<exists>g \<in> set (po_grants po). cg_character g = c \<and> cg_handle g = ds_handle d
               \<and> parse_digits (cg_frontier g) \<le> parse_digits frontier))"
proof -
  from eligible_sourceE [OF assms(1,3)] obtain target :: source_descriptor and d where d: "d \<in> set (sn_sources sn)"
    "es_handle e = ds_handle d" "es_source e = ds_source d" "es_kind e = ds_kind d"
    and basis: "apply_basis_policy d po (sn_basis sn) purpose (ds_handle d = ds_handle target) = Inr ()"
    and disclosed: "apply_disclosure_policy d po = Inr ()"
    by metis
  from disclosure_ok [OF disclosed assms(2)] obtain frontier position where
    f: "po_frontier po = Some frontier" "di_position (ds_disclosure d) = Some position" "decimal_le position frontier"
    and plain: "\<not> di_author_only (ds_disclosure d)" "\<not> di_future_private (ds_disclosure d)"
      "ds_kind d \<noteq> PrivateFuture" "ds_kind d \<noteq> AuthorRoomDiscussion" "ds_coverage d \<noteq> DirectoryOnly"
    and c: "character_policy d po frontier = Inr ()"
    by metis
  have "parse_digits position \<le> parse_digits frontier" using f(3) by (simp add: decimal_le_numeric)
  moreover note restricted_kinds [OF basis assms(2)]
  moreover have "case po_character po of
         None \<Rightarrow> di_characters (ds_disclosure d) = []
       | Some c \<Rightarrow> (di_characters (ds_disclosure d) = [] \<or> c \<in> set (di_characters (ds_disclosure d)))
           \<and> (\<exists>g \<in> set (po_grants po). cg_character g = c \<and> cg_handle g = ds_handle d
               \<and> parse_digits (cg_frontier g) \<le> parse_digits frontier)"
    using character_policy_ok [OF c] by (auto simp: decimal_le_numeric split: option.splits)
  ultimately show ?thesis
    using d f plain by (intro bexI [of _ d] exI [of _ frontier] exI [of _ position]) simp_all
qed

theorem restricted_writing_sees_no_future_witness:
  "\<exists>d \<in> set (sn_sources (sample_story WorkingBasis None ExplicitRule)). ds_handle d = u ''a'' \<and>
    (\<exists>position. di_position (ds_disclosure d) = Some position \<and> parse_digits position \<le> parse_digits (u ''10''))"
proof -
  let ?s = "sample_story WorkingBasis None ExplicitRule"
  from sample_receipt [of WorkingBasis None ExplicitRule] obtain r where
    r: "evaluate_sources ?s sample_policy Continue [u ''b''] = Inr r"
    and e: "\<exists>e \<in> set (er_eligible r). es_handle e = u ''a''" by simp
  from e obtain e where e: "e \<in> set (er_eligible r)" "es_handle e = u ''a''" by blast
  have po: "po_audience sample_policy = RestrictedWriting" "po_frontier sample_policy = Some (u ''10'')"
    by (simp_all add: sample_policy_def)
  from restricted_writing_sees_no_future [OF r po(1) e(1)] e(2) po(2) show ?thesis by auto
qed

text \<open>
  C33: the receipt is the closure of the request: it lists every source that a requested source
  depends on, directly or not, and no other, each once, the dependencies of a source before the
  source itself, and the snapshot's target among them; it never authorises a change.
\<close>

theorem receipt_is_dependency_closure:
  assumes "evaluate_sources sn po purpose requested = Inr r"
  shows "er_handles r = map es_handle (er_eligible r)
    \<and> distinct (er_handles r)
    \<and> set (er_handles r) = (depends (sn_sources sn))\<^sup>* `` set requested
    \<and> sn_target sn \<in> es_source ` set (er_eligible r)
    \<and> (\<forall>before e after. er_eligible r = before @ e # after \<longrightarrow> set (es_dependencies e) \<subseteq> es_handle ` set before)
    \<and> \<not> er_can_authorize_apply r"
proof (intro conjI allI impI)
  from evaluate_ok [OF assms] obtain target :: source_descriptor where
    w: "walk_all (walk_setup sn po purpose (ds_handle target)) requested = Inr (er_handles r)"
    and t: "target_of sn = Some target" "ds_handle target \<in> set requested"
    and dh: "distinct (map ds_handle (sn_sources sn))" by blast
  note handles = receipt_handles [OF assms] and order = walk_all_ordered [OF w, simplified]
  show "er_handles r = map es_handle (er_eligible r)" by (rule handles(1))
  show "distinct (er_handles r)" by (rule order(1))
  show closure: "set (er_handles r) = (depends (sn_sources sn))\<^sup>* `` set requested" by (rule order(4))
  show "\<not> er_can_authorize_apply r" using assms by (auto simp: evaluate_sources_def result_ok)
  have known: "eligible_of (sn_sources sn) h \<noteq> None" if "h \<in> set (er_handles r)" for h
    using order(3) that by (auto simp: admissible_def eligible_of_def)
  have found: "by_handle (sn_sources sn) (ds_handle target) = Some target"
    unfolding by_handle_def using find_distinct_key [OF dh] target_ofD [OF t(1)] by simp
  have "ds_handle target \<in> set (er_handles r)" using closure t(2) by auto
  with handles(2) have "the (eligible_of (sn_sources sn) (ds_handle target)) \<in> set (er_eligible r)" by simp
  moreover have "es_source (the (eligible_of (sn_sources sn) (ds_handle target))) = sn_target sn"
    using found target_ofD [OF t(1)] by (simp add: eligible_of_def)
  ultimately show "sn_target sn \<in> es_source ` set (er_eligible r)" by (metis imageI)
  fix before e after
  assume split: "er_eligible r = before @ e # after"
  have "er_handles r = map es_handle before @ es_handle e # map es_handle after"
    unfolding handles(1) split by simp
  with order(2) have "depends (sn_sources sn) `` {es_handle e} \<subseteq> set (map es_handle before)"
    unfolding in_order_def by blast
  moreover have "eligible_of (sn_sources sn) (es_handle e) = Some e"
  proof -
    from split have "e \<in> set (er_eligible r)" by simp
    from eligible_sourceE [OF assms this] show ?thesis by metis
  qed
  ultimately show "set (es_dependencies e) \<subseteq> es_handle ` set before"
    by (simp add: eligible_dependencies)
qed

theorem receipt_is_dependency_closure_witness:
  "u ''a'' \<in> (depends (sn_sources (sample_story WorkingBasis None ExplicitRule)))\<^sup>* `` {u ''b''}"
proof -
  from sample_receipt [of WorkingBasis None ExplicitRule] obtain r where
    r: "evaluate_sources (sample_story WorkingBasis None ExplicitRule) sample_policy Continue [u ''b''] = Inr r"
    "er_handles r = [u ''a'', u ''b'']" by simp
  from receipt_is_dependency_closure [OF r(1)] r(2) show ?thesis by auto
qed

text \<open>
  C34: the walk over dependencies refuses nothing without cause: from the selected handles it
  succeeds exactly when every source they depend on, directly or not, is known, has all its
  dependencies known, passes the basis and the disclosure policy, and does not depend on itself.
\<close>

theorem walk_succeeds_iff:
  "(\<exists>ordered. walk_all C selected = Inr ordered) \<longleftrightarrow>
    (\<forall>h \<in> (depends (wk_sources C))\<^sup>* `` set selected. admissible C h \<and> (h, h) \<notin> (depends (wk_sources C))\<^sup>+)"
  using walk_all_iff [of C selected] by (simp add: clear_def)

theorem walk_succeeds_iff_witness:
  "admissible (walk_setup (sample_story WorkingBasis None ExplicitRule) sample_policy Continue (u ''b'')) (u ''b'')"
proof -
  let ?C = "walk_setup (sample_story WorkingBasis None ExplicitRule) sample_policy Continue (u ''b'')"
  have "\<exists>ordered. walk_all ?C [u ''b''] = Inr ordered" using sample_walk by blast
  with walk_succeeds_iff [of ?C "[u ''b'']"] show ?thesis by auto
qed

text \<open>
  When every source reached from the selection is admissible, a refused walk reports a
  dependency cycle, and the handle it names does depend on itself.
\<close>

theorem refused_walk_names_a_cycle:
  assumes "walk_all C selected = Inl e"
    and "\<forall>h \<in> (depends (wk_sources C))\<^sup>* `` set selected. admissible C h"
  shows "\<exists>h. e = refuse_handle DependencyCycle h \<and> (h, h) \<in> (depends (wk_sources C))\<^sup>+"
  using walk_all_refuses_cycles [of C "[]" selected e] assms by (simp add: walk_all_def)

definition sample_cycle :: walk_context where
  "sample_cycle = \<lparr>wk_sources = [sample_source ''b'' CurrentDraft ''10'' [''a''], sample_source ''a'' ExplicitRule ''9'' [''b'']],
    wk_policy = sample_policy, wk_basis = WorkingBasis, wk_target = u ''b'', wk_purpose = Continue\<rparr>"

theorem refused_walk_names_a_cycle_witness:
  "(u ''b'', u ''b'') \<in> (depends (wk_sources sample_cycle))\<^sup>+"
proof -
  note simps = sample_cycle_def sample_story_simps
  have fails: "walk_all sample_cycle [u ''b''] = Inl (refuse_handle DependencyCycle (u ''b''))"
    by (simp add: walk_all_def walk.simps admit_def apply_basis_policy_def apply_disclosure_policy_def
      character_policy_def Let_def simps)
  have ok: "admissible sample_cycle (u ''a'')" "admissible sample_cycle (u ''b'')"
    by (simp_all add: admissible_def admit_def apply_basis_policy_def apply_disclosure_policy_def
      character_policy_def Let_def simps)
  have step: "i \<in> {u ''a'', u ''b''}" if "(h, i) \<in> depends (wk_sources sample_cycle)" for h i
    using that by (auto simp: depends_def simps split: if_splits)
  have "i \<in> {u ''a'', u ''b''}" if "(u ''b'', i) \<in> (depends (wk_sources sample_cycle))\<^sup>*" for i
    using that by (induction rule: rtrancl_induct) (auto dest: step)
  with ok have "\<forall>h \<in> (depends (wk_sources sample_cycle))\<^sup>* `` set [u ''b'']. admissible sample_cycle h" by auto
  from refused_walk_names_a_cycle [OF fails this] show ?thesis by (auto simp: refuse_handle_def)
qed

text \<open>
  C35: a reviewed basis is used for restricted continuation only, and rests on exactly the reviewed
  prefix: the target is the current draft at the reader frontier, and every other source of the
  receipt is reviewed authority whose document, revision and body hash are those of a member of
  the manifest's prefix.
\<close>

theorem reviewed_sources_are_the_prefix:
  assumes "evaluate_sources sn po purpose requested = Inr r" and "sn_basis sn = ReviewedBasis"
    and "e \<in> set (er_eligible r)"
  shows "purpose = Continue \<and> po_audience po = RestrictedWriting \<and>
    (\<exists>m target. sn_reviewed sn = Some m \<and> target \<in> set (sn_sources sn) \<and> ds_source target = sn_target sn
      \<and> ds_kind target = CurrentDraft \<and> di_position (ds_disclosure target) = po_frontier po
      \<and> (es_source e = sn_target sn \<and> es_kind e = CurrentDraft
         \<or> es_kind e = ReviewedAuthority \<and> (\<exists>b \<in> set (bs_prefix m). same_member b (es_source e))))"
proof -
  from evaluate_ok [OF assms(1)] obtain t :: source_descriptor where t: "target_of sn = Some t"
    and purpose: "check_purpose sn po purpose requested = Inr ()"
    and basis: "validate_basis_manifest sn po purpose = Inr ()"
    and dh: "distinct (map ds_handle (sn_sources sn))" by blast
  from purpose assms(2) have p: "purpose = Continue" "po_audience po = RestrictedWriting"
    by (auto simp: check_purpose_def result_ok)
  from basis assms(2) obtain m where m: "sn_reviewed sn = Some m" "validate_manifest sn po purpose m = Inr ()"
    by (auto simp: validate_basis_manifest_def result_ok)
  note manifest = manifest_ok [OF m(2) t p(1)]
  from eligible_sourceE [OF assms(1,3)] t obtain d where d: "d \<in> set (sn_sources sn)"
    "es_source e = ds_source d" "es_kind e = ds_kind d"
    and admitted: "apply_basis_policy d po (sn_basis sn) purpose (ds_handle d = ds_handle t) = Inr ()"
    by (metis option.inject)
  have "d = t \<and> ds_kind d = CurrentDraft \<or> ds_kind d = ReviewedAuthority"
    using admitted assms(2) dh d(1) target_ofD [OF t]
    by (auto simp: apply_basis_policy_def Let_def distinct_map dest: inj_onD split: if_splits)
  moreover have "ds_kind d = ReviewedAuthority \<Longrightarrow> \<exists>b \<in> set (bs_prefix m). same_member b (ds_source d)"
    using manifest(3) d(1) by (simp add: authority_sources_def)
  ultimately show ?thesis
    using p m(1) d manifest(1,2) target_ofD [OF t] by (intro conjI exI [of _ m] exI [of _ t]) auto
qed

theorem reviewed_sources_are_the_prefix_witness:
  "\<exists>b \<in> set (bs_prefix sample_prefix). same_member b (sample_ref ''a'')"
proof -
  let ?s = "sample_story ReviewedBasis (Some sample_prefix) ReviewedAuthority"
  from sample_receipt [of ReviewedBasis "Some sample_prefix" ReviewedAuthority] obtain r where
    r: "evaluate_sources ?s sample_policy Continue [u ''b''] = Inr r"
    and e: "\<exists>e \<in> set (er_eligible r). es_source e = sample_ref ''a''" by simp
  from e obtain e where e: "e \<in> set (er_eligible r)" "es_source e = sample_ref ''a''" by blast
  have s: "sn_basis ?s = ReviewedBasis" "sn_reviewed ?s = Some sample_prefix" "sn_target ?s = sample_ref ''b''"
    by (simp_all add: sample_story_def)
  from reviewed_sources_are_the_prefix [OF r s(1) e(1)] e(2) s show ?thesis by auto
qed

end
