(* ===== verification/Binding.thy ===== *)
theory Binding
  imports Kernel
begin

text \<open>
  The immutable provider bindings of crates/providers: \<open>ProviderBinding\<close> with its validation and
  limits (src/vocabulary.rs), the Claude version gate (src/claude_profile.rs), the app-server
  delivery evidence (src/codex_app_server/mod.rs) and the deterministic HTTP request body
  (src/http_request.rs). Validation messages are not kept, so \<open>validate_binding\<close> is a predicate.
  \<open>Url::set_path\<close> followed by \<open>Url::as_str\<close> and \<open>uuid::Uuid\<close> are functions of \<open>vendor\<close>.
\<close>

section \<open>Third-party functions\<close>

text \<open>
  \<open>url_with_path\<close>: the URL after \<open>set_path\<close> with its text; \<open>uuid_text\<close>: \<open>Uuid::parse_str\<close>
  followed by \<open>to_string\<close>.
\<close>

record vendor =
  url_with_path :: "url \<Rightarrow> ustr \<Rightarrow> url \<times> ustr"
  uuid_text :: "ustr \<Rightarrow> ustr option"

text \<open>Rust's \<open>str::parse\<close> at an unsigned type: an optional plus sign and decimal digits.\<close>

definition parse_unsigned :: "nat \<Rightarrow> ustr \<Rightarrow> nat option" where
  "parse_unsigned width s =
    (let d = (case s of [] \<Rightarrow> [] | c # r \<Rightarrow> if c = 43 then r else s) in
     if d \<noteq> [] \<and> list_all is_ascii_digit (bytes d) \<and> parse_digits d < 2 ^ width then Some (parse_digits d) else None)"

definition parse_decimal :: "ustr \<Rightarrow> nat option" where
  "parse_decimal v =
    (if v = [] \<or> (1 < blen v \<and> starts_with v (u ''0'')) then None
     else if \<not> list_all is_ascii_digit (bytes v) then None
     else parse_unsigned 128 v)"

definition lowercase_hash :: "ustr \<Rightarrow> bool" where
  "lowercase_hash v \<longleftrightarrow> blen v = 64 \<and> list_all (\<lambda>b. is_ascii_digit b \<or> (97 \<le> b \<and> b \<le> 102)) (bytes v)"

definition valid_identifier :: "ustr \<Rightarrow> bool" where
  "valid_identifier v \<longleftrightarrow> v \<noteq> [] \<and> blen v \<le> 256 \<and> \<not> list_ex is_control v"

section \<open>App-server evidence\<close>

record app_identity =
  ai_account :: ustr
  ai_security :: ustr
  ai_catalog :: ustr

definition app_identity_is_valid :: "app_identity \<Rightarrow> bool" where
  "app_identity_is_valid a \<longleftrightarrow>
    lowercase_hash (ai_account a) \<and> lowercase_hash (ai_security a) \<and> lowercase_hash (ai_catalog a)"

record app_dispatch =
  ad_generation :: ustr
  ad_thread :: ustr
  ad_rpc :: ustr
  ad_packet_hash :: ustr
  ad_request_hash :: ustr

definition dispatch_is_valid :: "app_dispatch \<Rightarrow> bool" where
  "dispatch_is_valid d \<longleftrightarrow>
    valid_identifier (ad_generation d) \<and> valid_identifier (ad_thread d) \<and> valid_identifier (ad_rpc d)
    \<and> lowercase_hash (ad_packet_hash d) \<and> lowercase_hash (ad_request_hash d)"

datatype app_submission = AppNotSent | AppUncertain | Acknowledged

datatype app_terminal = AppCompleted | AppInterrupted | AppFailed

datatype app_connection = Reusable | Closed | ConnectionUnresolved

record app_delivery =
  av_dispatch :: "app_dispatch option"
  av_submission :: app_submission
  av_turn :: "ustr option"
  av_terminal :: "app_terminal option"
  av_settled :: bool
  av_connection :: app_connection

definition not_sent :: app_delivery where
  "not_sent = \<lparr>av_dispatch = None, av_submission = AppNotSent, av_turn = None, av_terminal = None,
    av_settled = True, av_connection = Closed\<rparr>"

definition app_delivery_error :: core_error where
  "app_delivery_error = core_err ''InvalidAppServerDelivery''"

definition validate_app_delivery :: "app_delivery \<Rightarrow> unit core_result" where
  "validate_app_delivery v =
    and_then (ensure (case av_dispatch v of None \<Rightarrow> True | Some d \<Rightarrow> dispatch_is_valid d) app_delivery_error) (\<lambda>_.
    ensure (\<not> ((case av_turn v of None \<Rightarrow> False | Some i \<Rightarrow> \<not> valid_identifier i)
      \<or> (av_submission v \<noteq> AppNotSent \<and> av_dispatch v = None)
      \<or> (av_submission v = Acknowledged \<and> av_turn v = None)
      \<or> (av_submission v \<noteq> Acknowledged \<and> av_turn v \<noteq> None)
      \<or> (av_terminal v \<noteq> None \<and> av_submission v \<noteq> Acknowledged)
      \<or> (av_connection v = ConnectionUnresolved \<and> av_settled v)
      \<or> (av_connection v = Reusable
          \<and> (\<not> av_settled v \<or> (av_submission v \<noteq> AppNotSent \<and> av_terminal v = None)))))
      app_delivery_error)"

definition app_completed :: "app_delivery \<Rightarrow> bool" where
  "app_completed v \<longleftrightarrow> is_ok (validate_app_delivery v) \<and> av_submission v = Acknowledged
    \<and> av_terminal v = Some AppCompleted \<and> av_settled v"

section \<open>Bindings\<close>

record runtime_identity =
  rt_version :: ustr
  rt_sha :: ustr
  rt_catalog :: "ustr option"
  rt_app :: "app_identity option"

datatype http_format = FormatText | FormatJson

record http_binding =
  hb_url :: ustr
  hb_revision :: ustr
  hb_stream :: bool
  hb_format :: http_format

record provider_binding =
  pb_provider :: ustr
  pb_model :: ustr
  pb_reasoning :: "ustr option"
  pb_tier :: "ustr option"
  pb_profile :: ustr
  pb_input_limit :: ustr
  pb_reserved_output :: ustr
  pb_reserved_protocol :: ustr
  pb_output_limit :: ustr
  pb_accounting :: ustr
  pb_runtime :: "runtime_identity option"
  pb_http :: "http_binding option"

definition CODEX_INPUT_LIMIT_BYTES :: nat where "CODEX_INPUT_LIMIT_BYTES = 24 * 1024"
definition CODEX_OUTPUT_LIMIT_BYTES :: nat where "CODEX_OUTPUT_LIMIT_BYTES = 64 * 1024"
definition CLAUDE_INPUT_LIMIT_BYTES :: nat where "CLAUDE_INPUT_LIMIT_BYTES = 24 * 1024"
definition CLAUDE_OUTPUT_LIMIT_BYTES :: nat where "CLAUDE_OUTPUT_LIMIT_BYTES = 64 * 1024"
definition HTTP_INPUT_LIMIT_BYTES :: nat where "HTTP_INPUT_LIMIT_BYTES = 2 * 1024 * 1024"
definition HTTP_OUTPUT_LIMIT_BYTES :: nat where "HTTP_OUTPUT_LIMIT_BYTES = 2 * 1024 * 1024"
definition HTTP_MEMORY_OUTPUT_LIMIT_BYTES :: nat where "HTTP_MEMORY_OUTPUT_LIMIT_BYTES = 64 * 1024"

definition CODEX_PROFILE_VERSION :: ustr where "CODEX_PROFILE_VERSION = u ''codex-stdin.v1''"
definition CODEX_MAINTENANCE_PROFILE_VERSION :: ustr where
  "CODEX_MAINTENANCE_PROFILE_VERSION = u ''codex-stdin.maintenance.v2''"
definition CODEX_AUTHOR_PROFILE_VERSION :: ustr where "CODEX_AUTHOR_PROFILE_VERSION = u ''codex-stdin.author.v1''"
definition CODEX_HISTORICAL_PROFILE_VERSION :: ustr where "CODEX_HISTORICAL_PROFILE_VERSION = u ''0.153.3''"
definition CLAUDE_PROFILE_VERSION :: ustr where "CLAUDE_PROFILE_VERSION = u ''claude-stdin.author.v1''"
definition HTTP_PROFILE_VERSION :: ustr where "HTTP_PROFILE_VERSION = u ''openai-chat-completions.v1''"
definition HTTP_MEMORY_PROFILE_VERSION :: ustr where
  "HTTP_MEMORY_PROFILE_VERSION = u ''openai-chat-completions.memory.v2''"
definition HTTP_MEMORY_LEGACY_PROFILE_VERSION :: ustr where
  "HTTP_MEMORY_LEGACY_PROFILE_VERSION = u ''openai-chat-completions.memory.v1''"
definition AUTHOR_PROFILE :: ustr where "AUTHOR_PROFILE = u ''codex-app-server.author.v1''"
definition MAINTENANCE_PROFILE :: ustr where "MAINTENANCE_PROFILE = u ''codex-app-server.maintenance.v1''"

definition CODEX_TOKEN_ACCOUNTING_METHOD :: ustr where
  "CODEX_TOKEN_ACCOUNTING_METHOD = u ''utf8-byte-count/codex-stdin-application-cap-v1''"
definition CLAUDE_TOKEN_ACCOUNTING_METHOD :: ustr where
  "CLAUDE_TOKEN_ACCOUNTING_METHOD = u ''utf8-byte-count/claude-stdin-application-cap-v1''"
definition HTTP_TOKEN_ACCOUNTING_METHOD :: ustr where
  "HTTP_TOKEN_ACCOUNTING_METHOD = u ''utf8-byte-count/openai-compatible-http-application-cap-v1''"
definition APP_ACCOUNTING_METHOD :: ustr where
  "APP_ACCOUNTING_METHOD = u ''utf8-byte-count/codex-app-server-application-cap-v1''"

definition codex_luna_with_profile :: "ustr \<Rightarrow> provider_binding" where
  "codex_luna_with_profile profile =
    \<lparr>pb_provider = u ''codex'', pb_model = u ''gpt-5.6-luna'', pb_reasoning = Some (u ''xhigh''),
     pb_tier = Some (u ''priority''), pb_profile = profile, pb_input_limit = show_nat CODEX_INPUT_LIMIT_BYTES,
     pb_reserved_output = u ''0'', pb_reserved_protocol = u ''0'',
     pb_output_limit = show_nat CODEX_OUTPUT_LIMIT_BYTES, pb_accounting = CODEX_TOKEN_ACCOUNTING_METHOD,
     pb_runtime = None, pb_http = None\<rparr>"

definition codex_maintenance_with_profile :: "ustr \<Rightarrow> provider_binding" where
  "codex_maintenance_with_profile profile =
    \<lparr>pb_provider = u ''codex'', pb_model = u ''gpt-6-astra'', pb_reasoning = Some (u ''low''),
     pb_tier = Some (u ''priority''), pb_profile = profile, pb_input_limit = show_nat CODEX_INPUT_LIMIT_BYTES,
     pb_reserved_output = u ''0'', pb_reserved_protocol = u ''0'',
     pb_output_limit = show_nat CODEX_OUTPUT_LIMIT_BYTES, pb_accounting = CODEX_TOKEN_ACCOUNTING_METHOD,
     pb_runtime = None, pb_http = None\<rparr>"

definition codex_luna_historical :: provider_binding where
  "codex_luna_historical = (codex_luna_with_profile CODEX_HISTORICAL_PROFILE_VERSION)\<lparr>pb_reasoning := Some (u ''max'')\<rparr>"

definition is_app_server :: "provider_binding \<Rightarrow> bool" where
  "is_app_server b \<longleftrightarrow> pb_provider b = u ''codex'' \<and> (pb_profile b = AUTHOR_PROFILE \<or> pb_profile b = MAINTENANCE_PROFILE)"

definition is_claude :: "provider_binding \<Rightarrow> bool" where
  "is_claude b \<longleftrightarrow> pb_provider b = u ''claude''"

definition http_prefix :: ustr where "http_prefix = u ''openai-compatible:''"

definition is_http :: "provider_binding \<Rightarrow> bool" where
  "is_http b \<longleftrightarrow> starts_with (pb_provider b) http_prefix"

definition is_http_memory :: "provider_binding \<Rightarrow> bool" where
  "is_http_memory b \<longleftrightarrow> is_http b
    \<and> (pb_profile b = HTTP_MEMORY_PROFILE_VERSION \<or> pb_profile b = HTTP_MEMORY_LEGACY_PROFILE_VERSION)"

definition runtime_is_valid :: "runtime_identity \<Rightarrow> bool" where
  "runtime_is_valid r \<longleftrightarrow> rt_version r \<noteq> [] \<and> blen (rt_version r) \<le> 128
    \<and> list_all (\<lambda>b. is_ascii_alphanumeric b \<or> b \<in> {46, 45, 43}) (bytes (rt_version r))
    \<and> lowercase_hash (rt_sha r)
    \<and> (case rt_catalog r of None \<Rightarrow> True | Some h \<Rightarrow> lowercase_hash h)"

section \<open>The Claude version gate\<close>

definition CLAUDE_MODEL_IDS :: "ustr list" where
  "CLAUDE_MODEL_IDS = [u ''claude-fable-5'', u ''claude-opus-5'', u ''claude-sonnet-5'']"

definition CLAUDE_EFFORTS :: "ustr list" where
  "CLAUDE_EFFORTS = [u ''low'', u ''medium'', u ''high'', u ''xhigh'', u ''max'']"

definition valid_reported_model_id :: "ustr \<Rightarrow> bool" where
  "valid_reported_model_id v \<longleftrightarrow> v \<noteq> [] \<and> blen v \<le> 128
    \<and> list_all (\<lambda>b. is_ascii_alphanumeric b \<or> b \<in> {45, 95, 46, 58, 47}) (bytes v)"

definition strip_line_end :: "ustr \<Rightarrow> ustr" where
  "strip_line_end v =
    (if ends_with v [13, 10] then take (length v - 2) v
     else if ends_with v [10] then take (length v - 1) v
     else if ends_with v [13] then take (length v - 1) v
     else v)"

definition after_dot :: "ustr \<Rightarrow> ustr" where
  "after_dot s = drop 1 (dropWhile (\<lambda>c. c \<noteq> 46) s)"

definition parse_version_output :: "ustr \<Rightarrow> ustr option" where
  "parse_version_output v =
    (if v = [] \<or> 512 < blen v then None else
     let trimmed = strip_line_end v in
     if trimmed = [] \<or> is_whitespace (hd trimmed) then None else
     let token = takeWhile (\<lambda>c. \<not> is_whitespace c) trimmed;
         major = takeWhile (\<lambda>c. c \<noteq> 46) token;
         minor = takeWhile (\<lambda>c. c \<noteq> 46) (after_dot token);
         rest = after_dot (after_dot token);
         patch = takeWhile (\<lambda>c. c \<notin> {45, 43}) rest;
         suffix = drop (length patch) rest in
     if blen token \<le> 128
        \<and> list_all is_ascii_digit (bytes major) \<and> list_all is_ascii_digit (bytes minor)
        \<and> list_all is_ascii_digit (bytes patch)
        \<and> major \<noteq> [] \<and> minor \<noteq> [] \<and> patch \<noteq> []
        \<and> (suffix = [] \<or> (1 < blen suffix
             \<and> list_all (\<lambda>b. is_ascii_alphanumeric b \<or> b \<in> {46, 45, 43}) (bytes (tl suffix))))
        \<and> \<not> list_ex is_control trimmed
     then Some token else None)"

definition minimum_version :: "ustr \<Rightarrow> nat \<times> nat \<times> nat" where
  "minimum_version model =
    (if model = u ''claude-fable-5'' then (2, 1, 169)
     else if model = u ''claude-opus-5'' then (2, 1, 219)
     else (0, 0, 0))"

definition later_version :: "nat \<times> nat \<times> nat \<Rightarrow> nat \<times> nat \<times> nat \<Rightarrow> bool" where
  "later_version = (\<lambda>(a, b, c) (x, y, z). x < a \<or> (x = a \<and> (y < b \<or> (y = b \<and> z < c))))"

definition model_available_for_version :: "ustr \<Rightarrow> ustr \<Rightarrow> bool option" where
  "model_available_for_version v model =
    Option.bind (parse_version_output v) (\<lambda>version.
    if model \<notin> set CLAUDE_MODEL_IDS then Some False
    else
      let core = takeWhile (\<lambda>c. c \<notin> {45, 43}) version in
      Option.bind (parse_unsigned 32 (takeWhile (\<lambda>c. c \<noteq> 46) core)) (\<lambda>major.
      Option.bind (parse_unsigned 32 (takeWhile (\<lambda>c. c \<noteq> 46) (after_dot core))) (\<lambda>minor.
      Option.bind (parse_unsigned 32 (after_dot (after_dot core))) (\<lambda>patch.
      let current = (major, minor, patch); prerelease = 45 \<in> set (takeWhile (\<lambda>c. c \<noteq> 43) version) in
      Some (later_version current (minimum_version model) \<or> (current = minimum_version model \<and> \<not> prerelease))))))"

section \<open>Validation\<close>

definition validate_claude :: "provider_binding \<Rightarrow> bool" where
  "validate_claude b \<longleftrightarrow>
    \<not> (pb_profile b \<noteq> CLAUDE_PROFILE_VERSION \<or> pb_provider b \<noteq> u ''claude'' \<or> pb_tier b \<noteq> None \<or> pb_http b \<noteq> None
      \<or> parse_unsigned 64 (pb_input_limit b) \<noteq> Some CLAUDE_INPUT_LIMIT_BYTES
      \<or> parse_unsigned 64 (pb_output_limit b) \<noteq> Some CLAUDE_OUTPUT_LIMIT_BYTES
      \<or> pb_reserved_output b \<noteq> u ''0'' \<or> pb_reserved_protocol b \<noteq> u ''0''
      \<or> pb_accounting b \<noteq> CLAUDE_TOKEN_ACCOUNTING_METHOD)
    \<and> (case pb_runtime b of
         None \<Rightarrow> False
       | Some r \<Rightarrow>
           rt_catalog r = None \<and> runtime_is_valid r
           \<and> (case pb_reasoning b of
                None \<Rightarrow> False
              | Some effort \<Rightarrow>
                  pb_model b \<in> set CLAUDE_MODEL_IDS \<and> effort \<in> set CLAUDE_EFFORTS
                  \<and> parse_version_output (rt_version r) = Some (rt_version r)
                  \<and> model_available_for_version (rt_version r) (pb_model b) = Some True))"

definition trim_end_slash :: "ustr \<Rightarrow> ustr" where
  "trim_end_slash s = rev (dropWhile (\<lambda>c. c = 47) (rev s))"

definition normalize_base_url :: "vendor \<Rightarrow> env \<Rightarrow> ustr \<Rightarrow> (url \<times> ustr) option" where
  "normalize_base_url V E input =
    (if input = [] \<or> list_ex (\<lambda>c. is_control c \<or> is_whitespace c) input then None
     else Option.bind (url_parse E input) (\<lambda>l.
       if url_scheme l \<notin> {u ''http'', u ''https''} then None
       else if url_host l = None \<or> url_host l = Some [] then None
       else if url_username l \<noteq> [] \<or> url_password l \<noteq> None then None
       else if url_query l \<noteq> None \<or> url_fragment l \<noteq> None then None
       else
         let path = trim_end_slash (url_path l) in
         Some (url_with_path V l (if path = [] then u ''/v1'' else path))))"

definition base_http_url :: "vendor \<Rightarrow> env \<Rightarrow> http_binding \<Rightarrow> ustr option" where
  "base_http_url V E h =
    Option.bind (normalize_base_url V E (hb_url h)) (\<lambda>(l, text).
    if text \<noteq> hb_url h \<or> url_scheme l \<notin> {u ''http'', u ''https''} \<or> url_host l = None \<or> url_host l = Some []
       \<or> url_username l \<noteq> [] \<or> url_password l \<noteq> None \<or> url_query l \<noteq> None \<or> url_fragment l \<noteq> None
       \<or> list_ex (\<lambda>c. is_control c \<or> is_whitespace c) (hb_url h)
    then None else Some (hb_url h))"

definition http_text_ok :: "ustr \<Rightarrow> nat \<Rightarrow> bool" where
  "http_text_ok v max_bytes \<longleftrightarrow> \<not> (v = [] \<or> max_bytes < blen v \<or> list_ex is_control v)"

definition http_trait_ok :: "ustr option \<Rightarrow> bool" where
  "http_trait_ok v \<longleftrightarrow> (case v of None \<Rightarrow> True | Some s \<Rightarrow> \<not> (s = [] \<or> 64 < blen s \<or> list_ex is_control s))"

definition validate_http :: "vendor \<Rightarrow> env \<Rightarrow> provider_binding \<Rightarrow> bool" where
  "validate_http V E b \<longleftrightarrow>
    pb_profile b \<in> {HTTP_PROFILE_VERSION, HTTP_MEMORY_PROFILE_VERSION, HTTP_MEMORY_LEGACY_PROFILE_VERSION}
    \<and> pb_accounting b = HTTP_TOKEN_ACCOUNTING_METHOD \<and> pb_runtime b = None
    \<and> uuid_text V (drop (length http_prefix) (pb_provider b)) = Some (drop (length http_prefix) (pb_provider b))
    \<and> http_text_ok (pb_model b) 256
    \<and> (case pb_http b of
         None \<Rightarrow> False
       | Some h \<Rightarrow>
           (case base_http_url V E h of None \<Rightarrow> False | Some t \<Rightarrow> http_text_ok t 2048)
           \<and> \<not> (hb_revision h = [] \<or> (1 < blen (hb_revision h) \<and> starts_with (hb_revision h) (u ''0''))
               \<or> \<not> list_all is_ascii_digit (bytes (hb_revision h))))
    \<and> parse_unsigned 64 (pb_input_limit b) = Some HTTP_INPUT_LIMIT_BYTES
    \<and> parse_unsigned 64 (pb_output_limit b) =
        Some (if is_http_memory b then HTTP_MEMORY_OUTPUT_LIMIT_BYTES else HTTP_OUTPUT_LIMIT_BYTES)
    \<and> pb_reserved_output b = u ''0'' \<and> pb_reserved_protocol b = u ''0''
    \<and> (is_http_memory b \<longrightarrow>
         pb_model b = (if pb_profile b = HTTP_MEMORY_LEGACY_PROFILE_VERSION then u ''gpt-5.6-luna'' else u ''gpt-6-astra'')
         \<and> pb_reasoning b = Some (if pb_profile b = HTTP_MEMORY_LEGACY_PROFILE_VERSION then u ''xhigh'' else u ''low'')
         \<and> pb_tier b = None)
    \<and> http_trait_ok (pb_reasoning b) \<and> http_trait_ok (pb_tier b)"

definition codex_trait :: "ustr \<Rightarrow> bool" where
  "codex_trait v \<longleftrightarrow> v \<noteq> [] \<and> blen v \<le> 128 \<and> \<not> starts_with v (u ''-'')
    \<and> list_all (\<lambda>b. is_ascii_alphanumeric b \<or> b \<in> {46, 45, 95, 58, 47}) (bytes v)"

definition has_catalog :: "provider_binding \<Rightarrow> bool" where
  "has_catalog b \<longleftrightarrow> (case pb_runtime b of None \<Rightarrow> False | Some r \<Rightarrow> rt_catalog r \<noteq> None)"

definition expected_codex :: "provider_binding \<Rightarrow> provider_binding option" where
  "expected_codex b =
    (if pb_profile b = CODEX_PROFILE_VERSION
     then if has_catalog b then None else Some (codex_luna_with_profile CODEX_PROFILE_VERSION)
     else if pb_profile b = CODEX_MAINTENANCE_PROFILE_VERSION
     then if has_catalog b then None else Some (codex_maintenance_with_profile CODEX_MAINTENANCE_PROFILE_VERSION)
     else if pb_profile b = CODEX_AUTHOR_PROFILE_VERSION
     then if has_catalog b \<and> codex_trait (pb_model b)
             \<and> (case pb_reasoning b of None \<Rightarrow> False | Some v \<Rightarrow> codex_trait v)
             \<and> (case pb_tier b of None \<Rightarrow> True | Some v \<Rightarrow> codex_trait v)
          then Some ((codex_luna_with_profile CODEX_PROFILE_VERSION)
                 \<lparr>pb_profile := pb_profile b, pb_model := pb_model b, pb_reasoning := pb_reasoning b, pb_tier := pb_tier b\<rparr>)
          else None
     else None)"

definition validate_plain :: "vendor \<Rightarrow> env \<Rightarrow> provider_binding \<Rightarrow> bool" where
  "validate_plain V E b \<longleftrightarrow>
    \<not> (case pb_runtime b of None \<Rightarrow> False | Some r \<Rightarrow> rt_app r \<noteq> None)
    \<and> (if b = codex_luna_historical then True
       else if is_http b then validate_http V E b
       else if is_claude b then validate_claude b
       else case expected_codex b of
         None \<Rightarrow> False
       | Some expected \<Rightarrow>
           b = expected\<lparr>pb_runtime := pb_runtime b\<rparr>
           \<and> (case pb_runtime b of None \<Rightarrow> True | Some r \<Rightarrow> runtime_is_valid r))"

definition validate_binding :: "vendor \<Rightarrow> env \<Rightarrow> provider_binding \<Rightarrow> bool" where
  "validate_binding V E b \<longleftrightarrow>
    (if is_app_server b then
       (case pb_runtime b of
          None \<Rightarrow> False
        | Some r \<Rightarrow>
            (case rt_app r of None \<Rightarrow> False | Some a \<Rightarrow> app_identity_is_valid a)
            \<and> \<not> (pb_accounting b \<noteq> APP_ACCOUNTING_METHOD
                \<or> (pb_profile b = MAINTENANCE_PROFILE
                   \<and> (pb_model b \<noteq> u ''gpt-6-astra'' \<or> pb_reasoning b \<noteq> Some (u ''low'') \<or> pb_tier b \<noteq> Some (u ''priority''))))
            \<and> validate_plain V E (b\<lparr>pb_profile := CODEX_AUTHOR_PROFILE_VERSION,
                 pb_accounting := CODEX_TOKEN_ACCOUNTING_METHOD, pb_runtime := Some (r\<lparr>rt_app := None\<rparr>)\<rparr>))
     else validate_plain V E b)"

definition limit_of :: "ustr \<Rightarrow> nat option" where
  "limit_of v = Option.bind (parse_decimal v) (\<lambda>n. if n < 2 ^ 64 then Some n else None)"

definition input_limit :: "vendor \<Rightarrow> env \<Rightarrow> provider_binding \<Rightarrow> nat option" where
  "input_limit V E b = (if validate_binding V E b then limit_of (pb_input_limit b) else None)"

definition output_limit :: "vendor \<Rightarrow> env \<Rightarrow> provider_binding \<Rightarrow> nat option" where
  "output_limit V E b = (if validate_binding V E b then limit_of (pb_output_limit b) else None)"

section \<open>The bindings the application creates\<close>

definition with_runtime :: "ustr \<Rightarrow> ustr \<Rightarrow> provider_binding \<Rightarrow> provider_binding" where
  "with_runtime cli sha b =
    b\<lparr>pb_runtime := Some \<lparr>rt_version = cli, rt_sha = sha, rt_catalog = None, rt_app = None\<rparr>\<rparr>"

definition codex_luna_runtime :: "ustr \<Rightarrow> ustr \<Rightarrow> provider_binding" where
  "codex_luna_runtime cli sha = with_runtime cli sha (codex_luna_with_profile CODEX_PROFILE_VERSION)"

definition codex_maintenance_runtime :: "ustr \<Rightarrow> ustr \<Rightarrow> provider_binding" where
  "codex_maintenance_runtime cli sha =
    with_runtime cli sha (codex_maintenance_with_profile CODEX_MAINTENANCE_PROFILE_VERSION)"

definition codex_author_runtime ::
  "ustr \<Rightarrow> ustr \<Rightarrow> ustr option \<Rightarrow> ustr \<Rightarrow> ustr \<Rightarrow> ustr \<Rightarrow> provider_binding" where
  "codex_author_runtime model effort tier cli sha catalog =
    (codex_luna_runtime cli sha)\<lparr>pb_profile := CODEX_AUTHOR_PROFILE_VERSION, pb_model := model,
      pb_reasoning := Some effort, pb_tier := tier,
      pb_runtime := Some \<lparr>rt_version = cli, rt_sha = sha, rt_catalog = Some catalog, rt_app = None\<rparr>\<rparr>"

definition codex_app_server_author_runtime ::
  "ustr \<Rightarrow> ustr \<Rightarrow> ustr option \<Rightarrow> ustr \<Rightarrow> ustr \<Rightarrow> ustr \<Rightarrow> app_identity \<Rightarrow> provider_binding" where
  "codex_app_server_author_runtime model effort tier cli sha catalog identity =
    (codex_author_runtime model effort tier cli sha catalog)\<lparr>pb_profile := AUTHOR_PROFILE,
      pb_accounting := APP_ACCOUNTING_METHOD,
      pb_runtime := Some \<lparr>rt_version = cli, rt_sha = sha, rt_catalog = Some catalog, rt_app = Some identity\<rparr>\<rparr>"

definition codex_app_server_maintenance_runtime :: "ustr \<Rightarrow> ustr \<Rightarrow> ustr \<Rightarrow> app_identity \<Rightarrow> provider_binding" where
  "codex_app_server_maintenance_runtime cli sha catalog identity =
    (codex_app_server_author_runtime (u ''gpt-6-astra'') (u ''low'') (Some (u ''priority'')) cli sha catalog identity)
      \<lparr>pb_profile := MAINTENANCE_PROFILE\<rparr>"

definition claude_author_runtime :: "ustr \<Rightarrow> ustr \<Rightarrow> ustr \<Rightarrow> ustr \<Rightarrow> provider_binding" where
  "claude_author_runtime model effort cli sha =
    \<lparr>pb_provider = u ''claude'', pb_model = model, pb_reasoning = Some effort, pb_tier = None,
     pb_profile = CLAUDE_PROFILE_VERSION, pb_input_limit = show_nat CLAUDE_INPUT_LIMIT_BYTES,
     pb_reserved_output = u ''0'', pb_reserved_protocol = u ''0'',
     pb_output_limit = show_nat CLAUDE_OUTPUT_LIMIT_BYTES, pb_accounting = CLAUDE_TOKEN_ACCOUNTING_METHOD,
     pb_runtime = Some \<lparr>rt_version = cli, rt_sha = sha, rt_catalog = None, rt_app = None\<rparr>, pb_http = None\<rparr>"

definition http_memory :: "ustr \<Rightarrow> ustr \<Rightarrow> ustr \<Rightarrow> bool \<Rightarrow> http_format \<Rightarrow> provider_binding" where
  "http_memory provider url revision stream format =
    \<lparr>pb_provider = provider, pb_model = u ''gpt-6-astra'', pb_reasoning = Some (u ''low''), pb_tier = None,
     pb_profile = HTTP_MEMORY_PROFILE_VERSION, pb_input_limit = show_nat HTTP_INPUT_LIMIT_BYTES,
     pb_reserved_output = u ''0'', pb_reserved_protocol = u ''0'',
     pb_output_limit = show_nat HTTP_MEMORY_OUTPUT_LIMIT_BYTES, pb_accounting = HTTP_TOKEN_ACCOUNTING_METHOD,
     pb_runtime = None,
     pb_http = Some \<lparr>hb_url = url, hb_revision = revision, hb_stream = stream, hb_format = format\<rparr>\<rparr>"

definition is_current_codex_profile :: "vendor \<Rightarrow> env \<Rightarrow> provider_binding \<Rightarrow> bool" where
  "is_current_codex_profile V E b \<longleftrightarrow>
    pb_profile b \<in> {CODEX_PROFILE_VERSION, CODEX_MAINTENANCE_PROFILE_VERSION, CODEX_AUTHOR_PROFILE_VERSION}
    \<and> validate_binding V E b"

definition is_codex_maintenance_profile :: "vendor \<Rightarrow> env \<Rightarrow> provider_binding \<Rightarrow> bool" where
  "is_codex_maintenance_profile V E b \<longleftrightarrow>
    pb_provider b = u ''codex'' \<and> pb_profile b = CODEX_MAINTENANCE_PROFILE_VERSION \<and> validate_binding V E b"

definition is_current_claude_profile :: "vendor \<Rightarrow> env \<Rightarrow> provider_binding \<Rightarrow> bool" where
  "is_current_claude_profile V E b \<longleftrightarrow>
    is_claude b \<and> pb_profile b = CLAUDE_PROFILE_VERSION \<and> validate_binding V E b"

section \<open>Requests\<close>

record packet_message =
  pm_role :: ustr
  pm_content :: ustr

record packet_options =
  po_model :: ustr
  po_max_tokens :: ustr
  po_accounting :: ustr
  po_binding :: "provider_binding option"

record packet =
  pk_messages :: "packet_message list"
  pk_options :: packet_options

definition entry_if :: "string \<Rightarrow> ('a \<Rightarrow> json) \<Rightarrow> 'a option \<Rightarrow> (ustr \<times> json) list" where
  "entry_if k f m = (case m of None \<Rightarrow> [] | Some x \<Rightarrow> [(u k, f x)])"

definition json_or_null :: "('a \<Rightarrow> json) \<Rightarrow> 'a option \<Rightarrow> json" where
  "json_or_null f m = (case m of None \<Rightarrow> JNull | Some x \<Rightarrow> f x)"

definition identity_json :: "app_identity \<Rightarrow> json" where
  "identity_json a = JObj [(u ''accountSha256'', JStr (ai_account a)),
     (u ''securityConfigSha256'', JStr (ai_security a)), (u ''restrictiveCatalogSha256'', JStr (ai_catalog a))]"

definition runtime_json :: "runtime_identity \<Rightarrow> json" where
  "runtime_json r = JObj ([(u ''cliVersion'', JStr (rt_version r)), (u ''executableSha256'', JStr (rt_sha r))]
     @ entry_if ''catalogSha256'' JStr (rt_catalog r) @ entry_if ''appServer'' identity_json (rt_app r))"

definition http_json :: "http_binding \<Rightarrow> json" where
  "http_json h = JObj [(u ''baseUrl'', JStr (hb_url h)), (u ''configRevision'', JStr (hb_revision h)),
     (u ''stream'', JBool (hb_stream h)),
     (u ''responseFormat'', JStr (case hb_format h of FormatText \<Rightarrow> u ''text'' | FormatJson \<Rightarrow> u ''jsonObject''))]"

definition binding_json :: "provider_binding \<Rightarrow> json" where
  "binding_json b = JObj ([(u ''providerId'', JStr (pb_provider b)), (u ''modelId'', JStr (pb_model b)),
      (u ''reasoning'', json_or_null JStr (pb_reasoning b)), (u ''serviceTier'', json_or_null JStr (pb_tier b)),
      (u ''profileVersion'', JStr (pb_profile b)), (u ''inputLimitBytes'', JStr (pb_input_limit b)),
      (u ''reservedOutputBytes'', JStr (pb_reserved_output b)), (u ''reservedProtocolBytes'', JStr (pb_reserved_protocol b)),
      (u ''outputLimitBytes'', JStr (pb_output_limit b)), (u ''accountingMethod'', JStr (pb_accounting b))]
     @ entry_if ''runtime'' runtime_json (pb_runtime b) @ entry_if ''http'' http_json (pb_http b))"

definition options_json :: "packet_options \<Rightarrow> json" where
  "options_json p = JObj ([(u ''modelId'', JStr (po_model p))]
     @ (if po_max_tokens p = [] then [] else [(u ''maxOutputTokens'', JStr (po_max_tokens p))])
     @ [(u ''tokenAccountingMethod'', JStr (po_accounting p))] @ entry_if ''providerBinding'' binding_json (po_binding p))"

definition serialized_input :: "env \<Rightarrow> packet \<Rightarrow> ustr" where
  "serialized_input E p = json_text E (JArr
     [JArr (map (\<lambda>m. JObj [(u ''role'', JStr (pm_role m)), (u ''content'', JStr (pm_content m))]) (pk_messages p)),
      options_json (pk_options p)])"

record prepared_request =
  pq_body :: "nat list"
  pq_hash :: ustr
  pq_bytes :: ustr
  pq_stream :: bool

definition http_body :: "packet \<Rightarrow> provider_binding \<Rightarrow> http_binding \<Rightarrow> nat option \<Rightarrow> json" where
  "http_body p b h max_tokens = JObj (obj_of
     ([(u ''model'', JStr (po_model (pk_options p))),
       (u ''messages'', JArr (map (\<lambda>m. JObj (obj_of [(u ''role'', JStr (pm_role m)), (u ''content'', JStr (pm_content m))]))
          (pk_messages p))),
       (u ''stream'', JBool (hb_stream h))]
      @ entry_if ''reasoning_effort'' JStr (pb_reasoning b)
      @ entry_if ''service_tier'' JStr (pb_tier b)
      @ entry_if ''max_completion_tokens'' (\<lambda>n. JNum (PosInt (word_of_nat n))) max_tokens
      @ (if hb_format h = FormatJson
         then [(u ''response_format'', JObj [(u ''type'', JStr (u ''json_object''))])] else [])))"

definition prepare_request :: "vendor \<Rightarrow> env \<Rightarrow> packet \<Rightarrow> prepared_request core_result" where
  "prepare_request V E p =
    and_then (ok_or (core_err ''InvalidProviderBinding'') (po_binding (pk_options p))) (\<lambda>b.
    and_then (ensure (validate_binding V E b) (core_err ''InvalidProviderBinding'')) (\<lambda>_.
    and_then (ok_or (core_err ''InvalidProviderBinding'') (pb_http b)) (\<lambda>h.
    and_then (ensure (is_http b) (core_err ''InvalidProviderBinding'')) (\<lambda>_.
    and_then (ensure (pk_messages p \<noteq> []) (core_err ''InvalidRequest'')) (\<lambda>_.
    and_then (ensure (po_model (pk_options p) = pb_model b) (core_err ''ProviderBindingMismatch'')) (\<lambda>_.
    and_then (if po_max_tokens (pk_options p) = [] then Inr None
       else and_then (ok_or (core_err ''InvalidRequest'') (parse_unsigned 32 (po_max_tokens (pk_options p)))) (\<lambda>n. Inr (Some n))) (\<lambda>max_tokens.
    let body = bytes (json_text E (http_body p b h max_tokens)) in
    if HTTP_INPUT_LIMIT_BYTES < length body then Inl (core_err ''InputTooLarge'')
    else Inr \<lparr>pq_body = body, pq_hash = sha256_hex E body, pq_bytes = show_nat (length body),
              pq_stream = hb_stream h\<rparr>)))))))"

definition turn_request :: "app_dispatch \<Rightarrow> provider_binding \<Rightarrow> ustr \<Rightarrow> json" where
  "turn_request d b input = JObj (obj_of
     [(u ''id'', JStr (ad_rpc d)), (u ''method'', JStr (u ''turn/start'')),
      (u ''params'', JObj (obj_of
        [(u ''threadId'', JStr (ad_thread d)),
         (u ''input'', JArr [JObj (obj_of [(u ''type'', JStr (u ''text'')), (u ''text'', JStr input)])]),
         (u ''model'', JStr (pb_model b)), (u ''effort'', json_or_null JStr (pb_reasoning b)),
         (u ''serviceTierForTurn'', JStr (case pb_tier b of None \<Rightarrow> u ''default'' | Some t \<Rightarrow> t))]))])"

definition prepare_dispatch :: "env \<Rightarrow> ustr \<Rightarrow> ustr \<Rightarrow> ustr \<Rightarrow> provider_binding \<Rightarrow> ustr \<Rightarrow> app_dispatch core_result" where
  "prepare_dispatch E generation thread rpc b input =
    (let d = \<lparr>ad_generation = generation, ad_thread = thread, ad_rpc = rpc,
              ad_packet_hash = sha256_hex E (bytes input), ad_request_hash = []\<rparr>;
         d' = d\<lparr>ad_request_hash := sha256_hex E (bytes (json_text E (turn_request d b input)))\<rparr> in
     and_then (ensure (dispatch_is_valid d') app_delivery_error) (\<lambda>_. Inr d'))"

section \<open>What a validated binding allows\<close>

text \<open>Whatever transport a binding names, an accepted output allowance is one of two byte caps.\<close>

lemma show_limits: "limit_of (show_nat n) = (if n < 2 ^ 64 then Some n else None)"
proof -
  have d: "canonical_decimal (show_nat n)" by (rule show_nat_canonical)
  then have l: "list_all is_ascii_digit (show_nat n)" "show_nat n \<noteq> []" "1 < length (show_nat n) \<longrightarrow> hd (show_nat n) \<noteq> 48"
    by (auto simp: canonical_decimal_iff)
  then have "list_all (\<lambda>c. c < 128) (show_nat n)" by (auto simp: list_all_iff digit_lt_128)
  then have b: "bytes (show_nat n) = show_nat n" "blen (show_nat n) = length (show_nat n)"
    by (simp_all add: ascii_bytes ascii_blen)
  obtain c r where c: "show_nat n = c # r" using l(2) by (cases "show_nat n") auto
  with l(1) have "c \<noteq> 43" by (auto simp: is_ascii_digit_def)
  with c b l have p: "parse_unsigned w (show_nat n) = (if n < 2 ^ w then Some n else None)" for w
    using parse_digits_show [of n] by (simp add: parse_unsigned_def)
  have "\<not> (1 < length (show_nat n) \<and> starts_with (show_nat n) (u ''0''))"
    using l c by (cases r) (auto simp: u_def)
  moreover have "n < 2 ^ 64 \<Longrightarrow> n < (2 :: nat) ^ 128"
    by (rule order_less_le_trans [of _ "2 ^ 64"]) simp_all
  ultimately show ?thesis
    using p [of 128] b l by (auto simp: limit_of_def parse_decimal_def)
qed

lemma limit_of_unsigned:
  assumes "limit_of v = Some n"
  shows "parse_unsigned 64 v = Some n"
proof -
  from assms have "parse_unsigned 128 v = Some n" "n < 2 ^ 64"
    by (auto simp: limit_of_def parse_decimal_def Option.bind_eq_Some_conv split: if_splits)
  then show ?thesis by (auto simp: parse_unsigned_def Let_def split: if_splits)
qed

lemma expected_codex_limit:
  assumes "expected_codex b = Some expected"
  shows "pb_output_limit expected = show_nat CODEX_OUTPUT_LIMIT_BYTES"
  using assms
  by (auto simp: expected_codex_def codex_luna_with_profile_def codex_maintenance_with_profile_def split: if_splits)

lemma validate_plain_limit:
  assumes "validate_plain V E b" and "limit_of (pb_output_limit b) = Some n"
  shows "n = CODEX_OUTPUT_LIMIT_BYTES \<or> n = HTTP_OUTPUT_LIMIT_BYTES"
proof -
  from assms(1) consider "b = codex_luna_historical" | "validate_http V E b" | "validate_claude b"
    | expected where "expected_codex b = Some expected" "b = expected\<lparr>pb_runtime := pb_runtime b\<rparr>"
    by (auto simp: validate_plain_def split: if_splits option.splits)
  then show ?thesis
  proof cases
    case 1
    then have "pb_output_limit b = show_nat CODEX_OUTPUT_LIMIT_BYTES"
      by (simp add: codex_luna_historical_def codex_luna_with_profile_def)
    with assms(2) show ?thesis by (simp add: show_limits split: if_splits)
  next
    case 2
    with limit_of_unsigned [OF assms(2)] show ?thesis
      by (auto simp: validate_http_def HTTP_MEMORY_OUTPUT_LIMIT_BYTES_def CODEX_OUTPUT_LIMIT_BYTES_def split: if_splits)
  next
    case 3
    with limit_of_unsigned [OF assms(2)] show ?thesis
      by (auto simp: validate_claude_def CLAUDE_OUTPUT_LIMIT_BYTES_def CODEX_OUTPUT_LIMIT_BYTES_def)
  next
    case (4 expected)
    from 4(2) have "pb_output_limit b = pb_output_limit expected"
      by (metis provider_binding.select_convs(9) provider_binding.surjective provider_binding.update_convs(11))
    with expected_codex_limit [OF 4(1)] assms(2) show ?thesis by (simp add: show_limits split: if_splits)
  qed
qed

lemma output_limit_caps:
  assumes "output_limit V E b = Some n"
  shows "n = CODEX_OUTPUT_LIMIT_BYTES \<or> n = HTTP_OUTPUT_LIMIT_BYTES"
proof (cases "is_app_server b")
  case True
  with assms obtain r where "validate_plain V E (b\<lparr>pb_profile := CODEX_AUTHOR_PROFILE_VERSION,
      pb_accounting := CODEX_TOKEN_ACCOUNTING_METHOD, pb_runtime := Some (r\<lparr>rt_app := None\<rparr>)\<rparr>)"
    and "limit_of (pb_output_limit b) = Some n"
    by (auto simp: output_limit_def validate_binding_def split: if_splits option.splits)
  from validate_plain_limit [OF this(1)] this(2) show ?thesis by simp
next
  case False
  with assms have "validate_plain V E b" "limit_of (pb_output_limit b) = Some n"
    by (auto simp: output_limit_def validate_binding_def split: if_splits)
  then show ?thesis by (rule validate_plain_limit)
qed

end
