(* ===== verification/Lookup.thy ===== *)
theory Lookup
  imports Binding
begin

text \<open>
  The bounded story lookup protocol of crates/context/src/lookup.rs: the allowance an author grants,
  the reads a provider may ask for, the response envelope and its checks, and the lookup state a
  packet carries. The decoder \<open>serde_json\<close> runs over the raw response (with its rejection of
  duplicate keys) and the \<open>Debug\<close> form of an arbitrary string are arguments of the definitions that
  use them; a read result is kept as the JSON value it is stored as.
\<close>

section \<open>Constants\<close>

definition LOOKUP_SCHEMA_VERSION :: ustr where "LOOKUP_SCHEMA_VERSION = u ''story-lookup.v1''"
definition MAX_LOOKUP_ENVELOPE_BYTES :: nat where "MAX_LOOKUP_ENVELOPE_BYTES = 64 * 1024"
definition MAX_LOOKUP_READS :: nat where "MAX_LOOKUP_READS = 8"
definition MAX_LOOKUP_ID_BYTES :: nat where "MAX_LOOKUP_ID_BYTES = 64"
definition MAX_LOOKUP_QUERY_BYTES :: nat where "MAX_LOOKUP_QUERY_BYTES = 512"
definition MAX_LOOKUP_HANDLE_BYTES :: nat where "MAX_LOOKUP_HANDLE_BYTES = 256"
definition MAX_LOOKUP_BLOCK_IDS :: nat where "MAX_LOOKUP_BLOCK_IDS = 32"
definition MAX_LOOKUP_TEXT_BYTES :: nat where "MAX_LOOKUP_TEXT_BYTES = 64 * 1024"
definition MAX_LOOKUP_READ_LIMIT :: "32 word" where "MAX_LOOKUP_READ_LIMIT = 20"
definition MAX_LOOKUP_TOTAL_INPUT_BYTES :: nat where "MAX_LOOKUP_TOTAL_INPUT_BYTES = 3 * 24576"
definition MAX_LOOKUP_TOTAL_OUTPUT_BYTES :: nat where "MAX_LOOKUP_TOTAL_OUTPUT_BYTES = 3 * 65536"
definition REVIEWED_MEMORY_CAPABILITY :: ustr where "REVIEWED_MEMORY_CAPABILITY = u ''reviewed-memory.v1''"
definition MAX_MEMORY_OFFSET :: "32 word" where "MAX_MEMORY_OFFSET = 100000"
definition MAX_MEMORY_LIMIT :: "32 word" where "MAX_MEMORY_LIMIT = 20"

section \<open>Errors\<close>

datatype lookup_error_code =
  LookupInvalidJson | LookupDuplicateKey | LookupInvalidEnvelope | LookupInvalidField | LookupInvalidAllowance
  | LookupInvalidCapability

record lookup_error =
  le_code :: lookup_error_code
  le_message :: ustr

type_synonym 'a lookup_result = "lookup_error + 'a"

abbreviation lookup_err :: "lookup_error_code \<Rightarrow> ustr \<Rightarrow> lookup_error" where
  "lookup_err c m \<equiv> \<lparr>le_code = c, le_message = m\<rparr>"

fun lookup_code_text :: "lookup_error_code \<Rightarrow> ustr" where
  "lookup_code_text LookupInvalidJson = u ''invalidJson''"
| "lookup_code_text LookupDuplicateKey = u ''duplicateKey''"
| "lookup_code_text LookupInvalidEnvelope = u ''invalidEnvelope''"
| "lookup_code_text LookupInvalidField = u ''invalidField''"
| "lookup_code_text LookupInvalidAllowance = u ''invalidAllowance''"
| "lookup_code_text LookupInvalidCapability = u ''invalidCapability''"

definition lookup_error_text :: "lookup_error \<Rightarrow> ustr" where
  "lookup_error_text e = lookup_code_text (le_code e) @ u '': '' @ le_message e"

section \<open>Allowances\<close>

record lookup_allowance =
  la_extra :: "8 word"
  la_input :: ustr
  la_output :: ustr

definition validate_positive_decimal :: "ustr \<Rightarrow> nat \<Rightarrow> ustr \<Rightarrow> unit lookup_result" where
  "validate_positive_decimal v maximum label =
    (if v = [] \<or> (1 < blen v \<and> starts_with v (u ''0'')) \<or> \<not> list_all is_ascii_digit (bytes v)
     then Inl (lookup_err LookupInvalidAllowance (label @ u '' must be a canonical decimal string.''))
     else case parse_unsigned 128 v of
       None \<Rightarrow> Inl (lookup_err LookupInvalidAllowance (label @ u '' is too large.''))
     | Some n \<Rightarrow>
         ensure (\<not> (n = 0 \<or> maximum < n)) (lookup_err LookupInvalidAllowance
           (label @ u '' must be positive and at most '' @ show_nat maximum @ u '' bytes.'')))"

definition validate_lookup_allowance :: "lookup_allowance \<Rightarrow> unit lookup_result" where
  "validate_lookup_allowance a =
    (if 2 < la_extra a
     then Inl (lookup_err LookupInvalidAllowance (u ''maxAdditionalInvocations must be between 0 and 2.''))
     else and_then (validate_positive_decimal (la_input a) MAX_LOOKUP_TOTAL_INPUT_BYTES (u ''totalInputBytes'')) (\<lambda>_.
          validate_positive_decimal (la_output a) MAX_LOOKUP_TOTAL_OUTPUT_BYTES (u ''totalOutputBytes'')))"

section \<open>Reads\<close>

datatype search_mode = LiteralSearch | LexicalSearch | ExactAliasSearch

datatype memory_entity_kind = CharacterEntity | TopicEntity | ObjectEntity | PromiseEntity

datatype lookup_read =
    SearchRead ustr ustr search_mode "32 word"
  | SourceRead ustr ustr "ustr list option"
  | FindEntities ustr memory_entity_kind ustr "32 word" "32 word"
  | KnowledgeHistory ustr ustr "ustr option" "32 word" "32 word"
  | PromiseHistory ustr ustr "32 word" "32 word"
  | PossessionHistory ustr ustr "32 word" "32 word"

fun lookup_read_id :: "lookup_read \<Rightarrow> ustr" where
  "lookup_read_id (SearchRead i q m n) = i"
| "lookup_read_id (SourceRead i h bs) = i"
| "lookup_read_id (FindEntities i k q f n) = i"
| "lookup_read_id (KnowledgeHistory i c tp f n) = i"
| "lookup_read_id (PromiseHistory i p f n) = i"
| "lookup_read_id (PossessionHistory i ob f n) = i"

fun is_memory_read :: "lookup_read \<Rightarrow> bool" where
  "is_memory_read (FindEntities i k q f n) = True"
| "is_memory_read (KnowledgeHistory i c tp f n) = True"
| "is_memory_read (PromiseHistory i p f n) = True"
| "is_memory_read (PossessionHistory i ob f n) = True"
| "is_memory_read _ = False"

subsection \<open>Checks\<close>

definition validate_identifier :: "ustr \<Rightarrow> ustr \<Rightarrow> nat \<Rightarrow> unit lookup_result" where
  "validate_identifier v label max_bytes =
    ensure (\<not> (v = [] \<or> max_bytes < blen v
        \<or> \<not> list_all (\<lambda>b. is_ascii_alphanumeric b \<or> b = 95 \<or> b = 45) (bytes v)))
      (lookup_err LookupInvalidField (label
        @ u '' must be a nonempty ASCII identifier using letters, digits, '_' or '-', at most ''
        @ show_nat max_bytes @ u '' bytes.''))"

definition validate_lookup_text :: "ustr \<Rightarrow> ustr \<Rightarrow> nat \<Rightarrow> unit lookup_result" where
  "validate_lookup_text v label max_bytes =
    ensure (\<not> (trim v = [] \<or> max_bytes < blen v \<or> list_ex is_control v))
      (lookup_err LookupInvalidField (label @ u '' must be nonblank, control-free, and at most ''
        @ show_nat max_bytes @ u '' UTF-8 bytes.''))"

definition printable_text :: "ustr \<Rightarrow> bool" where
  "printable_text v \<longleftrightarrow> \<not> list_ex (\<lambda>c. is_control c \<and> \<not> (c = 10 \<or> c = 13 \<or> c = 9)) v"

definition validate_discussion_text :: "ustr \<Rightarrow> unit lookup_result" where
  "validate_discussion_text v =
    ensure (\<not> (trim v = [] \<or> MAX_LOOKUP_TEXT_BYTES < blen v \<or> \<not> printable_text v))
      (lookup_err LookupInvalidField (u ''text must be nonblank, contain only printable characters plus normal ''
        @ u ''whitespace, and be at most 64 KiB UTF-8 bytes.''))"

definition validate_memory_page :: "32 word \<Rightarrow> 32 word \<Rightarrow> unit lookup_result" where
  "validate_memory_page offset limit =
    and_then (ensure (\<not> MAX_MEMORY_OFFSET < offset) (lookup_err LookupInvalidField
      (u ''offset must be at most '' @ show_nat (unat MAX_MEMORY_OFFSET) @ u ''.''))) (\<lambda>_.
    ensure (1 \<le> limit \<and> limit \<le> MAX_MEMORY_LIMIT) (lookup_err LookupInvalidField
      (u ''limit must be between 1 and '' @ show_nat (unat MAX_MEMORY_LIMIT) @ u ''.'')))"

text \<open>\<open>{block_id:?}\<close> of a checked identifier adds the quotes and escapes nothing.\<close>

definition quoted_identifier :: "ustr \<Rightarrow> ustr" where
  "quoted_identifier v = [34] @ v @ [34]"

definition block_id_step :: "ustr list \<Rightarrow> ustr \<Rightarrow> ustr list lookup_result" where
  "block_id_step ids i =
    and_then (validate_identifier i (u ''block id'') MAX_LOOKUP_ID_BYTES) (\<lambda>_.
    if i \<in> set ids
    then Inl (lookup_err LookupInvalidField (u ''block id '' @ quoted_identifier i @ u '' is duplicated.''))
    else Inr (i # ids))"

definition validate_block_ids :: "ustr list \<Rightarrow> unit lookup_result" where
  "validate_block_ids ids =
    (if MAX_LOOKUP_BLOCK_IDS < length ids
     then Inl (lookup_err LookupInvalidField (u ''blockIds may contain at most 32 IDs.''))
     else if ids = []
     then Inl (lookup_err LookupInvalidField (u ''blockIds, when supplied, must contain at least one ID.''))
     else and_then (try_fold block_id_step [] ids) (\<lambda>_. Inr ()))"

fun validate_read_fields :: "lookup_read \<Rightarrow> unit lookup_result" where
  "validate_read_fields (SearchRead i q m n) =
    and_then (validate_lookup_text q (u ''query'') MAX_LOOKUP_QUERY_BYTES) (\<lambda>_.
    ensure (1 \<le> n \<and> n \<le> MAX_LOOKUP_READ_LIMIT)
      (lookup_err LookupInvalidField (u ''search limit must be between 1 and 20.'')))"
| "validate_read_fields (SourceRead i h bs) =
    and_then (validate_lookup_text h (u ''handle'') MAX_LOOKUP_HANDLE_BYTES) (\<lambda>_.
    and_then (ensure (\<not> list_ex is_whitespace h)
      (lookup_err LookupInvalidField (u ''A source handle cannot contain whitespace.''))) (\<lambda>_.
    case bs of None \<Rightarrow> Inr () | Some ids \<Rightarrow> validate_block_ids ids))"
| "validate_read_fields (FindEntities i k q f n) =
    and_then (validate_lookup_text q (u ''query'') MAX_LOOKUP_QUERY_BYTES) (\<lambda>_. validate_memory_page f n)"
| "validate_read_fields (KnowledgeHistory i c tp f n) =
    and_then (validate_identifier c (u ''characterId'') MAX_LOOKUP_ID_BYTES) (\<lambda>_.
    and_then (case tp of None \<Rightarrow> Inr () | Some x \<Rightarrow> validate_identifier x (u ''topicId'') MAX_LOOKUP_ID_BYTES) (\<lambda>_.
    validate_memory_page f n))"
| "validate_read_fields (PromiseHistory i p f n) =
    and_then (validate_identifier p (u ''promiseId'') MAX_LOOKUP_ID_BYTES) (\<lambda>_. validate_memory_page f n)"
| "validate_read_fields (PossessionHistory i ob f n) =
    and_then (validate_identifier ob (u ''objectId'') MAX_LOOKUP_ID_BYTES) (\<lambda>_. validate_memory_page f n)"

definition validate_lookup_read :: "lookup_read \<Rightarrow> unit lookup_result" where
  "validate_lookup_read r =
    and_then (validate_identifier (lookup_read_id r) (u ''read id'') MAX_LOOKUP_ID_BYTES) (\<lambda>_. validate_read_fields r)"

definition read_step :: "ustr list \<Rightarrow> lookup_read \<Rightarrow> ustr list lookup_result" where
  "read_step ids r =
    and_then (validate_lookup_read r) (\<lambda>_.
    if lookup_read_id r \<in> set ids
    then Inl (lookup_err LookupInvalidField (u ''read id '' @ quoted_identifier (lookup_read_id r) @ u '' is duplicated.''))
    else Inr (lookup_read_id r # ids))"

definition validate_reads :: "lookup_read list \<Rightarrow> unit lookup_result" where
  "validate_reads rs =
    (if rs = [] \<or> MAX_LOOKUP_READS < length rs
     then Inl (lookup_err LookupInvalidField (u ''reads must contain between 1 and 8 requests.''))
     else and_then (try_fold read_step [] rs) (\<lambda>_. Inr ()))"

section \<open>Envelopes\<close>

datatype lookup_envelope = NeedsContext ustr "lookup_read list" | DiscussionText ustr ustr

fun schema_version :: "lookup_envelope \<Rightarrow> ustr" where
  "schema_version (NeedsContext v rs) = v"
| "schema_version (DiscussionText v t) = v"

definition validate_lookup_envelope :: "(ustr \<Rightarrow> ustr) \<Rightarrow> lookup_envelope \<Rightarrow> unit lookup_result" where
  "validate_lookup_envelope debug e =
    (if schema_version e \<noteq> LOOKUP_SCHEMA_VERSION
     then Inl (lookup_err LookupInvalidEnvelope
       (u ''schemaVersion must be '' @ LOOKUP_SCHEMA_VERSION @ u '', not '' @ debug (schema_version e) @ u ''.''))
     else case e of NeedsContext v rs \<Rightarrow> validate_reads rs | DiscussionText v t \<Rightarrow> validate_discussion_text t)"

text \<open>\<open>decode\<close>: \<open>parse_strict_json\<close> followed by the derived deserialisation of the envelope.\<close>

definition parse_lookup_envelope ::
  "(ustr \<Rightarrow> lookup_envelope lookup_result) \<Rightarrow> (ustr \<Rightarrow> ustr) \<Rightarrow> ustr \<Rightarrow> lookup_envelope lookup_result" where
  "parse_lookup_envelope decode debug raw =
    (if MAX_LOOKUP_ENVELOPE_BYTES < blen raw
     then Inl (lookup_err LookupInvalidEnvelope (u ''The lookup envelope exceeds the 64 KiB UTF-8 byte limit.''))
     else and_then (decode raw) (\<lambda>e.
          and_then (validate_lookup_envelope debug e) (\<lambda>_. Inr e)))"

section \<open>The lookup state of a packet\<close>

text \<open>The source projection a child packet adds is a function of the frozen story and the exchanges.\<close>

record lookup_exchange =
  lx_request :: lookup_read
  lx_result :: json

record lookup_input =
  li_allowance :: lookup_allowance
  li_completed :: nat
  li_exchanges :: "lookup_exchange list"
  li_memory :: "ustr option"

definition validate_capability :: "lookup_input \<Rightarrow> unit lookup_result" where
  "validate_capability l =
    (case li_memory l of
       None \<Rightarrow> Inr ()
     | Some c \<Rightarrow> ensure (c = REVIEWED_MEMORY_CAPABILITY)
         (lookup_err LookupInvalidCapability (u ''reviewedMemory must be reviewed-memory.v1 when present.'')))"

definition authorize_read :: "lookup_input \<Rightarrow> lookup_read \<Rightarrow> unit lookup_result" where
  "authorize_read l r =
    and_then (validate_lookup_read r) (\<lambda>_.
    ensure (\<not> (is_memory_read r \<and> li_memory l \<noteq> Some REVIEWED_MEMORY_CAPABILITY))
      (lookup_err LookupInvalidCapability (u ''Reviewed-memory reads require the reviewed-memory.v1 capability.'')))"

section \<open>JSON of requests\<close>

fun search_mode_text :: "search_mode \<Rightarrow> ustr" where
  "search_mode_text LiteralSearch = u ''literal''"
| "search_mode_text LexicalSearch = u ''lexical''"
| "search_mode_text ExactAliasSearch = u ''exactAlias''"

fun entity_kind_text :: "memory_entity_kind \<Rightarrow> ustr" where
  "entity_kind_text CharacterEntity = u ''character''"
| "entity_kind_text TopicEntity = u ''topic''"
| "entity_kind_text ObjectEntity = u ''object''"
| "entity_kind_text PromiseEntity = u ''promise''"

definition u32_json :: "32 word \<Rightarrow> json" where
  "u32_json n = JNum (PosInt (ucast n))"

definition page_json :: "32 word \<Rightarrow> 32 word \<Rightarrow> (ustr \<times> json) list" where
  "page_json offset limit =
    (if offset = 0 then [] else [(u ''offset'', u32_json offset)]) @ [(u ''limit'', u32_json limit)]"

fun lookup_read_json :: "lookup_read \<Rightarrow> json" where
  "lookup_read_json (SearchRead i q m n) = JObj [(u ''kind'', JStr (u ''search'')), (u ''id'', JStr i), (u ''query'', JStr q),
     (u ''mode'', JStr (search_mode_text m)), (u ''limit'', u32_json n)]"
| "lookup_read_json (SourceRead i h bs) = JObj ([(u ''kind'', JStr (u ''read'')), (u ''id'', JStr i), (u ''handle'', JStr h)]
     @ entry_if ''blockIds'' (\<lambda>ids. JArr (map JStr ids)) bs)"
| "lookup_read_json (FindEntities i k q f n) = JObj ([(u ''kind'', JStr (u ''findEntities'')), (u ''id'', JStr i),
     (u ''entityKind'', JStr (entity_kind_text k)), (u ''query'', JStr q)] @ page_json f n)"
| "lookup_read_json (KnowledgeHistory i c tp f n) = JObj ([(u ''kind'', JStr (u ''knowledgeHistory'')), (u ''id'', JStr i),
     (u ''characterId'', JStr c)] @ entry_if ''topicId'' JStr tp @ page_json f n)"
| "lookup_read_json (PromiseHistory i p f n) = JObj ([(u ''kind'', JStr (u ''promiseHistory'')), (u ''id'', JStr i),
     (u ''promiseId'', JStr p)] @ page_json f n)"
| "lookup_read_json (PossessionHistory i ob f n) = JObj ([(u ''kind'', JStr (u ''possessionHistory'')), (u ''id'', JStr i),
     (u ''objectId'', JStr ob)] @ page_json f n)"

definition allowance_json :: "lookup_allowance \<Rightarrow> json" where
  "allowance_json a = JObj [(u ''maxAdditionalInvocations'', JNum (PosInt (ucast (la_extra a)))),
     (u ''totalInputBytes'', JStr (la_input a)), (u ''totalOutputBytes'', JStr (la_output a))]"

section \<open>What the checks guarantee\<close>

lemma read_ids_collected:
  assumes "try_fold read_step acc rs = Inr out" and "distinct acc"
  shows "distinct (rev (map lookup_read_id rs) @ acc) \<and> list_all (\<lambda>r. validate_lookup_read r = Inr ()) rs"
  using assms
proof (induction rs arbitrary: acc)
  case (Cons r rs)
  then obtain ids where step: "read_step acc r = Inr ids" and rest: "try_fold read_step ids rs = Inr out"
    by (auto simp: result_ok)
  from step have "ids = lookup_read_id r # acc" "validate_lookup_read r = Inr ()" "lookup_read_id r \<notin> set acc"
    by (auto simp: read_step_def result_ok split: if_splits)
  with rest Cons.IH [of "lookup_read_id r # acc"] Cons.prems(2) show ?case by simp
qed simp

text \<open>An accepted request for context names one to eight valid reads under distinct identifiers.\<close>

lemma validate_reads_ok:
  assumes "validate_reads rs = Inr ()"
  shows "rs \<noteq> [] \<and> length rs \<le> 8 \<and> distinct (map lookup_read_id rs) \<and> list_all (\<lambda>r. validate_lookup_read r = Inr ()) rs"
  using assms read_ids_collected [of "[]" rs]
  by (auto simp: validate_reads_def MAX_LOOKUP_READS_def result_ok distinct_rev split: if_splits)

lemma parsed_envelope_valid:
  assumes "parse_lookup_envelope decode debug raw = Inr e"
  shows "blen raw \<le> MAX_LOOKUP_ENVELOPE_BYTES \<and> schema_version e = LOOKUP_SCHEMA_VERSION
    \<and> (case e of NeedsContext v rs \<Rightarrow> validate_reads rs = Inr () | DiscussionText v t \<Rightarrow> validate_discussion_text t = Inr ())"
  using assms by (cases e) (auto simp: parse_lookup_envelope_def validate_lookup_envelope_def result_ok split: if_splits)

end
