(* ===== verification/Discussion.thy ===== *)
theory Discussion
  imports Project_Actor Lookup
begin

text \<open>
  The life of a discussion run in crates/conversation: src/discussions.rs from the queued run to its
  terminal state, the report checks of discussions/validation.rs and the app-server dispatches of
  discussions/app_server.rs, over the tables of storage/src/005_discussions.sql and the later
  scripts; a discussion that opted into bounded story lookup also has the invocations, results and
  reads of storage/src/024_discussion_lookup.sql. JSON columns hold the value they encode and text columns whose \<open>CHECK\<close> admits a fixed
  list of names hold that value; creation times are not kept. What the run takes from the packet
  compiler, the story context and the proposal store is the record \<open>services\<close>.
\<close>

section \<open>Vocabulary\<close>

datatype run_status = Queued | Running | Stopping | RunCompleted | RunStopped | RunFailed | Interrupted

definition active :: "run_status \<Rightarrow> bool" where
  "active s \<longleftrightarrow> s = Queued \<or> s = Running \<or> s = Stopping"

definition terminal_status :: "run_status \<Rightarrow> bool" where
  "terminal_status s \<longleftrightarrow> \<not> active s"

datatype dispatch_state = PendingDispatch | ClaimedDispatch | DeliveredDispatch

datatype event_kind = ChunkEvent | TerminalEvent

datatype discussion_role = UserMessage | AssistantMessage

datatype provider_outcome = OutCompleted | OutStopped | OutTimedOut | OutOutputLimit | OutFailed

datatype provider_cleanup = Settled | Unresolved

datatype http_submission = HttpNotSent | HttpUncertain | ResponseReceived

datatype invocation_state =
  IvPrepared | IvClaimed | IvNeedsContext | IvCompleted | IvFailed | IvStopped | IvUnknown

record http_usage =
  hu_input :: "u64 option"
  hu_output :: "u64 option"
  hu_total :: "u64 option"

record delivery_receipt =
  dl_hash :: ustr
  dl_bytes :: ustr
  dl_submission :: http_submission
  dl_usage :: "http_usage option"

record provider_usage =
  us_input :: u64
  us_cached :: u64
  us_cache_write :: u64
  us_output :: u64
  us_reasoning :: u64

record run_owner =
  ow_project :: ustr
  ow_namespace :: ustr
  ow_run :: ustr

section \<open>Tables\<close>

record thread_row =
  th_id :: ustr
  th_project :: ustr
  th_namespace :: ustr
  th_document :: ustr

record run_row =
  rn_id :: ustr
  rn_thread :: ustr
  rn_project :: ustr
  rn_namespace :: ustr
  rn_operation :: ustr
  rn_payload :: ustr
  rn_document :: ustr
  rn_version :: int
  rn_hash :: ustr
  rn_packet :: ustr
  rn_previous :: "ustr option"
  rn_status :: run_status
  rn_dispatch :: dispatch_state
  rn_sequence :: int
  rn_output :: ustr
  rn_reason :: "ustr option"

record event_row =
  ev_run :: ustr
  ev_sequence :: int
  ev_id :: ustr
  ev_kind :: event_kind
  ev_text :: ustr

record message_row =
  mg_id :: ustr
  mg_thread :: ustr
  mg_run :: ustr
  mg_role :: discussion_role
  mg_content :: ustr
  mg_packet :: "ustr option"

record result_row =
  pr_run :: ustr
  pr_packet :: ustr
  pr_event :: ustr
  pr_expected :: int
  pr_binding :: provider_binding
  pr_text :: ustr
  pr_outcome :: provider_outcome
  pr_stdin :: int
  pr_usage :: "provider_usage option"
  pr_cleanup :: provider_cleanup
  pr_error :: "ustr option"
  pr_identity :: "ustr option"
  pr_model :: "ustr option"
  pr_delivery :: "delivery_receipt option"
  pr_app :: "app_delivery option"

record invocation_row =
  iv_run :: ustr
  iv_ordinal :: nat
  iv_packet :: ustr
  iv_snapshot :: ustr
  iv_project :: ustr
  iv_namespace :: ustr
  iv_source :: int
  iv_policy :: int
  iv_allowance :: lookup_allowance
  iv_state :: invocation_state
  iv_expected :: int

record lookup_result_row =
  lr_run :: ustr
  lr_ordinal :: nat
  lr_packet :: ustr
  lr_event :: ustr
  lr_expected :: int
  lr_text :: ustr
  lr_response :: "lookup_envelope option"
  lr_binding :: "provider_binding option"
  lr_outcome :: provider_outcome
  lr_stdin :: int
  lr_usage :: "provider_usage option"
  lr_cleanup :: provider_cleanup
  lr_error :: "ustr option"

record lookup_read_row =
  ld_run :: ustr
  ld_ordinal :: nat
  ld_read :: ustr
  ld_request_hash :: ustr
  ld_request :: lookup_read
  ld_result_hash :: ustr
  ld_result :: json
  ld_snapshot :: ustr
  ld_project :: ustr
  ld_namespace :: ustr
  ld_policy :: int
  ld_truncated :: bool

record dispatch_row =
  dp_run :: ustr
  dp_packet :: ustr
  dp_dispatch :: app_dispatch
  dp_turn :: "ustr option"

record disc_tables =
  threads :: "thread_row list"
  run_rows :: "run_row list"
  events :: "event_row list"
  messages :: "message_row list"
  results :: "result_row list"
  invocations :: "invocation_row list"
  lookup_results :: "lookup_result_row list"
  lookup_reads :: "lookup_read_row list"
  dispatches :: "dispatch_row list"
  policy_epoch :: int

definition find_run :: "disc_tables \<Rightarrow> ustr \<Rightarrow> run_row option" where
  "find_run T i = find (\<lambda>r. rn_id r = i) (run_rows T)"

definition find_result :: "disc_tables \<Rightarrow> ustr \<Rightarrow> result_row option" where
  "find_result T i = find (\<lambda>r. pr_run r = i) (results T)"

definition existing_event :: "disc_tables \<Rightarrow> ustr \<Rightarrow> ustr \<Rightarrow> event_row option" where
  "existing_event T run i = find (\<lambda>e. ev_run e = run \<and> ev_id e = i) (events T)"

definition insert_event :: "event_row \<Rightarrow> disc_tables \<Rightarrow> disc_tables core_result" where
  "insert_event e T =
    (if ev_sequence e \<le> 0 \<or> ev_run e \<notin> rn_id ` set (run_rows T)
        \<or> (ev_run e, ev_sequence e) \<in> (\<lambda>x. (ev_run x, ev_sequence x)) ` set (events T)
        \<or> (ev_run e, ev_id e) \<in> (\<lambda>x. (ev_run x, ev_id x)) ` set (events T)
     then Inl sql_error else Inr (T\<lparr>events := events T @ [e]\<rparr>))"

definition insert_message :: "message_row \<Rightarrow> disc_tables \<Rightarrow> disc_tables core_result" where
  "insert_message m T =
    (if mg_id m \<in> mg_id ` set (messages T) \<or> mg_thread m \<notin> th_id ` set (threads T) \<or> mg_run m \<notin> rn_id ` set (run_rows T)
     then Inl sql_error else Inr (T\<lparr>messages := messages T @ [m]\<rparr>))"

definition insert_result :: "result_row \<Rightarrow> disc_tables \<Rightarrow> disc_tables core_result" where
  "insert_result r T =
    (if pr_run r \<in> pr_run ` set (results T) \<or> pr_run r \<notin> rn_id ` set (run_rows T) \<or> pr_expected r < 0 \<or> pr_stdin r < 0
     then Inl sql_error else Inr (T\<lparr>results := results T @ [r]\<rparr>))"

text \<open>An \<open>UPDATE discussion_runs\<close> with its \<open>WHERE\<close> clause: the new tables and the number of rows.\<close>

definition update_runs :: "(run_row \<Rightarrow> bool) \<Rightarrow> (run_row \<Rightarrow> run_row) \<Rightarrow> disc_tables \<Rightarrow> disc_tables \<times> nat" where
  "update_runs w f T =
    (T\<lparr>run_rows := map (\<lambda>r. if w r then f r else r) (run_rows T)\<rparr>, length (filter w (run_rows T)))"

section \<open>Services of other components\<close>

text \<open>
  \<open>packet_record\<close>: \<open>validated_packet_record\<close> (with \<open>intent_for_packet\<close>, whose values are not used
  here); \<open>packet_epochs\<close>: the source and policy epochs of the snapshot a packet was frozen from;
  \<open>chat_is_current\<close>: \<open>validated_snapshot_record\<close> with \<open>project_chat_basis_is_current\<close>;
  \<open>open_packet\<close>: \<open>read_context_packet_at\<close>; \<open>retain_candidates\<close>: whether
  \<open>proposals::retain_candidates_at\<close> succeeds for a run and its text, in its own tables.

  For the lookup chain: \<open>packet_lookup\<close> is \<open>receipt.lookup\<close> of a packet and \<open>packet_frozen\<close> the
  snapshot it was compiled from; \<open>load_frozen\<close> decodes the saved request of a packet and loads a
  snapshot with its access; \<open>execute_lookup\<close> is \<open>execute_read\<close>, which reads the frozen sources;
  \<open>compile_child\<close> compiles and stores the packet of the next invocation; \<open>decode_envelope\<close> is
  \<open>parse_strict_json\<close> with the derived deserialisation of the envelope and \<open>debug_text\<close> the
  \<open>Debug\<close> form of a string.
\<close>

record frozen_ref =
  fz_snapshot :: ustr
  fz_project :: ustr
  fz_source :: int
  fz_policy :: int

record services =
  packet_record :: "ustr \<Rightarrow> packet core_result"
  packet_epochs :: "ustr \<Rightarrow> (int \<times> int) core_result"
  chat_is_current :: "ustr \<Rightarrow> bool core_result"
  open_packet :: "ustr \<Rightarrow> packet core_result"
  retain_candidates :: "ustr \<Rightarrow> ustr \<Rightarrow> unit core_result"
  packet_lookup :: "ustr \<Rightarrow> lookup_input option"
  packet_frozen :: "ustr \<Rightarrow> frozen_ref"
  load_frozen :: "ustr \<Rightarrow> ustr \<Rightarrow> frozen_ref core_result"
  execute_lookup :: "frozen_ref \<Rightarrow> lookup_read \<Rightarrow> json \<times> bool"
  compile_child :: "ustr \<Rightarrow> frozen_ref \<Rightarrow> lookup_input \<Rightarrow> (ustr \<times> packet) core_result"
  decode_envelope :: "ustr \<Rightarrow> lookup_envelope lookup_result"
  debug_text :: "ustr \<Rightarrow> ustr"
  sv_env :: env
  sv_vendor :: vendor

section \<open>Limits and texts\<close>

definition MAX_OUTPUT_BYTES :: nat where "MAX_OUTPUT_BYTES = 2 * 1024 * 1024"
definition MAX_EVENT_BYTES :: nat where "MAX_EVENT_BYTES = 128 * 1024"

definition STOP_SETTLED_MESSAGE :: ustr where
  "STOP_SETTLED_MESSAGE = u ''You stopped this response. Any partial text shown here is saved.''"

definition STOP_UNRESOLVED_MESSAGE :: ustr where
  "STOP_UNRESOLVED_MESSAGE = u ''This response was interrupted. Any partial text shown here is saved.''"

definition with_note :: "ustr \<Rightarrow> ustr \<Rightarrow> ustr" where
  "with_note output note = (if output = [] then note else output @ [10, 10] @ u ''['' @ note @ u '']'')"

definition append_text :: "ustr \<Rightarrow> ustr \<Rightarrow> nat \<Rightarrow> ustr core_result" where
  "append_text existing chunk limit =
    (if limit < blen existing + blen chunk then Inl (core_err ''OutputTooLarge'') else Inr (existing @ chunk))"

definition parse_decimal_u64 :: "ustr \<Rightarrow> nat core_result" where
  "parse_decimal_u64 v =
    (if v = [] \<or> (1 < blen v \<and> starts_with v (u ''0'')) \<or> \<not> list_all is_ascii_digit (bytes v)
     then Inl (core_err ''InvalidRequest'')
     else ok_or (core_err ''InvalidRequest'') (parse_unsigned 64 v))"

section \<open>Request checks\<close>

definition check_owner_ids :: "run_owner \<Rightarrow> unit core_result" where
  "check_owner_ids ow = try_each check_id [ow_project ow, ow_namespace ow, ow_run ow]"

definition validate_runtime_owner :: "project_info \<Rightarrow> run_owner \<Rightarrow> unit core_result" where
  "validate_runtime_owner i ow =
    ensure (\<not> (ow_project ow \<noteq> info_project_id i \<or> ow_namespace ow \<noteq> info_operation_namespace i))
      (core_err ''DiscussionProjectMismatch'')"

definition validate_output_event :: "run_owner \<Rightarrow> ustr \<Rightarrow> ustr \<Rightarrow> unit core_result" where
  "validate_output_event ow event_id chunk =
    and_then (check_owner_ids ow) (\<lambda>_.
    and_then (check_id event_id) (\<lambda>_.
    ensure (\<not> (chunk = [] \<or> MAX_EVENT_BYTES < blen chunk)) (core_err ''InvalidRequest'')))"

definition validate_finish_request :: "run_owner \<Rightarrow> ustr \<Rightarrow> ustr \<Rightarrow> unit core_result" where
  "validate_finish_request ow event_id t =
    and_then (check_owner_ids ow) (\<lambda>_.
    and_then (check_id event_id) (\<lambda>_.
    and_then (ensure (t \<noteq> []) (core_err ''InvalidRequest'')) (\<lambda>_.
    ensure (\<not> MAX_OUTPUT_BYTES < blen t) (core_err ''OutputTooLarge''))))"

definition validate_settlement_request :: "run_owner \<Rightarrow> ustr \<Rightarrow> ustr \<Rightarrow> unit core_result" where
  "validate_settlement_request ow event_id t =
    and_then (check_owner_ids ow) (\<lambda>_.
    and_then (check_id event_id) (\<lambda>_.
    ensure (\<not> MAX_OUTPUT_BYTES < blen t) (core_err ''OutputTooLarge'')))"

definition validate_final_output :: "ustr \<Rightarrow> ustr \<Rightarrow> bool \<Rightarrow> unit core_result" where
  "validate_final_output cur final_text allow_empty =
    and_then (ensure (\<not> (\<not> allow_empty \<and> final_text = [])) (core_err ''InvalidRequest'')) (\<lambda>_.
    and_then (ensure (\<not> MAX_OUTPUT_BYTES < blen final_text) (core_err ''OutputTooLarge'')) (\<lambda>_.
    ensure (starts_with final_text cur) (core_err ''OutputConflict'')))"

end
