(* ===== verification/Discussion_Run.thy ===== *)
theory Discussion_Run
  imports Discussion
begin

text \<open>
  Reading a run with its provider result, the provider report that settles it, and the
  transactions of crates/conversation/src/discussions.rs that move a run from \<open>Queued\<close> to a
  terminal status. A transaction body takes the tables and returns its answer with the new
  tables; \<open>new\<close> is the identifier \<open>new_id\<close> draws for the assistant message.
\<close>

section \<open>Reading\<close>

text \<open>Of the lookup summary \<open>read_run\<close> builds, the model keeps whether there is one.\<close>

definition lookup_run :: "disc_tables \<Rightarrow> ustr \<Rightarrow> bool" where
  "lookup_run T i \<longleftrightarrow> list_ex (\<lambda>v. iv_run v = i \<and> iv_ordinal v = 0) (invocations T)"

record disc_run =
  dr_row :: run_row
  dr_binding :: "provider_binding option"
  dr_result :: "result_row option"
  dr_lookup :: bool

definition run_owner_of :: "disc_run \<Rightarrow> run_owner" where
  "run_owner_of r = \<lparr>ow_project = rn_project (dr_row r), ow_namespace = rn_namespace (dr_row r), ow_run = rn_id (dr_row r)\<rparr>"

definition dr_status :: "disc_run \<Rightarrow> run_status" where "dr_status r = rn_status (dr_row r)"

text \<open>\<open>parse_version(&current.sequence)\<close> of the counter \<open>read_run\<close> formatted.\<close>

definition dr_sequence :: "disc_run \<Rightarrow> int core_result" where
  "dr_sequence r = parse_version (show_int (rn_sequence (dr_row r)))"

definition validate_reported_model :: "provider_binding \<Rightarrow> provider_outcome \<Rightarrow> ustr option \<Rightarrow> bool \<Rightarrow> unit core_result" where
  "validate_reported_model b status reported persisted =
    (let refused = core_err (if persisted then ''InvalidProject'' else ''InvalidRequest'') in
     case reported of
       None \<Rightarrow> ensure (\<not> (is_claude b \<and> status = OutCompleted)) refused
     | Some m \<Rightarrow>
         and_then (ensure (\<not> (\<not> is_claude b \<or> \<not> valid_reported_model_id m)) refused) (\<lambda>_.
         ensure (\<not> (status = OutCompleted \<and> m \<noteq> pb_model b)) refused))"

definition error_text_ok :: "ustr option \<Rightarrow> bool" where
  "error_text_ok e \<longleftrightarrow> (case e of None \<Rightarrow> True | Some v \<Rightarrow> \<not> (v = [] \<or> 4096 < blen v \<or> list_ex is_control v))"

subsection \<open>App-server dispatches\<close>

definition stored_dispatch :: "disc_tables \<Rightarrow> ustr \<Rightarrow> dispatch_row option" where
  "stored_dispatch T run = find (\<lambda>d. dp_run d = run) (dispatches T)"

definition packet_hash :: "env \<Rightarrow> packet \<Rightarrow> ustr" where
  "packet_hash E p = sha256_hex E (bytes (serialized_input E p))"

definition dispatch_matches_packet :: "env \<Rightarrow> app_dispatch \<Rightarrow> packet \<Rightarrow> bool" where
  "dispatch_matches_packet E d p \<longleftrightarrow>
    (case po_binding (pk_options p) of
       None \<Rightarrow> False
     | Some b \<Rightarrow>
         ad_packet_hash d = packet_hash E p
         \<and> ad_request_hash d = sha256_hex E (bytes (json_text E (turn_request d b (serialized_input E p)))))"

definition validate_delivery ::
  "env \<Rightarrow> disc_tables \<Rightarrow> ustr \<Rightarrow> packet \<Rightarrow> app_delivery option \<Rightarrow> provider_outcome \<Rightarrow> provider_cleanup \<Rightarrow> bool core_result" where
  "validate_delivery E T run p delivery status cleanup =
    and_then (ok_or app_delivery_error delivery) (\<lambda>v.
    and_then (validate_app_delivery v) (\<lambda>_.
    and_then (case av_dispatch v of
        Some d \<Rightarrow>
          ensure (dispatch_matches_packet E d p
            \<and> (case stored_dispatch T run of
                 None \<Rightarrow> False
               | Some s \<Rightarrow> dp_dispatch s = d \<and> (case dp_turn s of None \<Rightarrow> True | Some i \<Rightarrow> av_turn v = Some i)))
            app_delivery_error
      | None \<Rightarrow> ensure (stored_dispatch T run = None) app_delivery_error) (\<lambda>_.
    and_then (ensure (\<not> ((cleanup = Settled) \<noteq> av_settled v \<or> (status = OutCompleted \<and> \<not> app_completed v)))
      app_delivery_error) (\<lambda>_.
    Inr (av_submission v = Acknowledged)))))"

subsection \<open>HTTP delivery\<close>

definition validate_http_delivery_shape :: "delivery_receipt option \<Rightarrow> provider_outcome \<Rightarrow> unit core_result" where
  "validate_http_delivery_shape delivery status =
    and_then (ok_or (core_err ''InvalidRequest'') delivery) (\<lambda>d.
    and_then (ensure (lowercase_hash (dl_hash d)) (core_err ''InvalidRequest'')) (\<lambda>_.
    and_then (parse_decimal_u64 (dl_bytes d)) (\<lambda>n.
    and_then (ensure (\<not> (n = 0 \<or> HTTP_INPUT_LIMIT_BYTES < n)) (core_err ''InvalidRequest'')) (\<lambda>_.
    ensure (\<not> (status = OutCompleted \<and> dl_submission d \<noteq> ResponseReceived)) (core_err ''InvalidRequest'')))))"

definition validate_http_delivery ::
  "services \<Rightarrow> packet \<Rightarrow> delivery_receipt option \<Rightarrow> provider_outcome \<Rightarrow> unit core_result" where
  "validate_http_delivery S p delivery status =
    and_then (validate_http_delivery_shape delivery status) (\<lambda>_.
    and_then (ok_or (core_err ''InvalidRequest'') delivery) (\<lambda>d.
    and_then (prepare_request (sv_vendor S) (sv_env S) p) (\<lambda>q.
    ensure (\<not> (dl_hash d \<noteq> pq_hash q \<or> dl_bytes d \<noteq> pq_bytes q
        \<or> (status = OutCompleted \<and> dl_submission d \<noteq> ResponseReceived)))
      (core_err ''ProviderInputMismatch''))))"

definition validate_stored_http_delivery ::
  "services \<Rightarrow> packet \<Rightarrow> provider_binding \<Rightarrow> delivery_receipt option \<Rightarrow> unit core_result" where
  "validate_stored_http_delivery S p b delivery =
    and_then (ok_or invalid_project delivery) (\<lambda>d.
    and_then (validate_http_delivery_shape (Some d) OutFailed) (\<lambda>_.
    and_then (ensure (po_binding (pk_options p) = Some b) invalid_project) (\<lambda>_.
    and_then (prepare_request (sv_vendor S) (sv_env S) p) (\<lambda>q.
    ensure (\<not> (dl_hash d \<noteq> pq_hash q \<or> dl_bytes d \<noteq> pq_bytes q)) invalid_project))))"

subsection \<open>The stored provider result\<close>

definition check_result_transport :: "services \<Rightarrow> disc_tables \<Rightarrow> result_row \<Rightarrow> unit core_result" where
  "check_result_transport S T r =
    (if is_app_server (pr_binding r) then
       and_then (ensure (\<not> (pr_stdin r \<noteq> 0 \<or> pr_delivery r \<noteq> None)) invalid_project) (\<lambda>_.
       and_then (packet_record S (pr_packet r)) (\<lambda>p.
       and_then (validate_delivery (sv_env S) T (pr_run r) p (pr_app r) (pr_outcome r) (pr_cleanup r)) (\<lambda>_. Inr ())))
     else if pr_app r \<noteq> None then Inl invalid_project
     else if is_http (pr_binding r) then
       and_then (ensure (\<not> pr_stdin r \<noteq> 0) invalid_project) (\<lambda>_.
       and_then (packet_record S (pr_packet r)) (\<lambda>p.
       and_then (validate_stored_http_delivery S p (pr_binding r) (pr_delivery r)) (\<lambda>_.
       ensure (\<not> (pr_outcome r = OutCompleted
         \<and> map_option dl_submission (pr_delivery r) \<noteq> Some ResponseReceived)) invalid_project)))
     else
       and_then (ok_or invalid_project (input_limit (sv_vendor S) (sv_env S) (pr_binding r))) (\<lambda>limit.
       ensure (\<not> (pr_delivery r \<noteq> None \<or> CODEX_OUTPUT_LIMIT_BYTES < blen (pr_text r) \<or> int limit < pr_stdin r))
         invalid_project))"

definition check_result_row :: "services \<Rightarrow> disc_tables \<Rightarrow> result_row \<Rightarrow> unit core_result" where
  "check_result_row S T r =
    and_then (ensure (validate_binding (sv_vendor S) (sv_env S) (pr_binding r)) invalid_project) (\<lambda>_.
    and_then (ensure (0 \<le> pr_stdin r) invalid_project) (\<lambda>_.
    and_then (parse_stored_version (pr_expected r)) (\<lambda>_.
    and_then (validate_reported_model (pr_binding r) (pr_outcome r) (pr_model r) True) (\<lambda>_.
    and_then (ensure (input_limit (sv_vendor S) (sv_env S) (pr_binding r) \<noteq> None) invalid_project) (\<lambda>_.
    and_then (check_result_transport S T r) (\<lambda>_.
    and_then (ok_or invalid_project (output_limit (sv_vendor S) (sv_env S) (pr_binding r))) (\<lambda>limit.
    ensure (\<not> (limit < blen (pr_text r)
        \<or> (pr_outcome r = OutCompleted \<and> pr_text r = [])
        \<or> (pr_outcome r = OutCompleted \<and> pr_error r \<noteq> None)
        \<or> \<not> error_text_ok (pr_error r)
        \<or> pr_identity r \<noteq> None))
      invalid_project)))))))"

definition read_provider_result :: "services \<Rightarrow> disc_tables \<Rightarrow> ustr \<Rightarrow> ustr \<Rightarrow> result_row option core_result" where
  "read_provider_result S T run packet_id =
    (case find_result T run of
       None \<Rightarrow> Inr None
     | Some r \<Rightarrow>
         and_then (ensure (pr_packet r = packet_id) invalid_project) (\<lambda>_.
         and_then (check_result_row S T r) (\<lambda>_. Inr (Some r))))"

definition read_run :: "services \<Rightarrow> disc_tables \<Rightarrow> ustr \<Rightarrow> disc_run core_result" where
  "read_run S T i =
    and_then (check_id i) (\<lambda>_.
    and_then (ok_or (core_err ''DiscussionRunNotFound'') (find_run T i)) (\<lambda>row.
    and_then (packet_record S (rn_packet row)) (\<lambda>p.
    and_then (read_provider_result S T (rn_id row) (rn_packet row)) (\<lambda>result.
    and_then (case result of
        None \<Rightarrow> Inr ()
      | Some r \<Rightarrow> ensure (po_binding (pk_options p) = Some (pr_binding r)) invalid_project) (\<lambda>_.
    Inr \<lparr>dr_row = row, dr_binding = po_binding (pk_options p), dr_result = result,
         dr_lookup = lookup_run T (rn_id row)\<rparr>)))))"

section \<open>Guards\<close>

definition validate_owner :: "disc_run \<Rightarrow> run_owner \<Rightarrow> unit core_result" where
  "validate_owner r ow = ensure (run_owner_of r = ow) (core_err ''DiscussionProjectMismatch'')"

definition reject_legacy_lookup_path :: "disc_run \<Rightarrow> unit core_result" where
  "reject_legacy_lookup_path r = ensure (\<not> dr_lookup r) (core_err ''LookupInvocationRequired'')"

definition ensure_run_started :: "run_status \<Rightarrow> unit core_result" where
  "ensure_run_started s =
    (case s of
       Running \<Rightarrow> Inr ()
     | Queued \<Rightarrow> Inl (core_err ''RunNotStarted'')
     | Stopping \<Rightarrow> Inl (core_err ''RunStopping'')
     | _ \<Rightarrow> Inl (core_err ''RunSealed''))"

definition next_sequence :: "int \<Rightarrow> int core_result" where
  "next_sequence n = ok_or (core_err ''InvalidRequest'') (checked_add_i64 n 1)"

definition owned_row :: "run_owner \<Rightarrow> run_row \<Rightarrow> bool" where
  "owned_row ow r \<longleftrightarrow> rn_id r = ow_run ow \<and> rn_project r = ow_project ow \<and> rn_namespace r = ow_namespace ow"

text \<open>\<open>changed != 1\<close> after a guarded update of the run.\<close>

definition update_one :: "(run_row \<Rightarrow> bool) \<Rightarrow> (run_row \<Rightarrow> run_row) \<Rightarrow> string \<Rightarrow> disc_tables \<Rightarrow> disc_tables core_result" where
  "update_one w f err T =
    (let (T', changed) = update_runs w f T in if changed \<noteq> 1 then Inl (core_err err) else Inr T')"

definition find_owned :: "services \<Rightarrow> disc_tables \<Rightarrow> run_owner \<Rightarrow> disc_run core_result" where
  "find_owned S T ow =
    and_then (read_run S T (ow_run ow)) (\<lambda>r. and_then (validate_owner r ow) (\<lambda>_. Inr r))"

section \<open>Sealing\<close>

definition seal_run ::
  "services \<Rightarrow> ustr \<Rightarrow> disc_run \<Rightarrow> run_status \<Rightarrow> ustr \<Rightarrow> ustr \<Rightarrow> ustr \<Rightarrow> disc_tables \<Rightarrow> (disc_run \<times> disc_tables) core_result" where
  "seal_run S new cur status why event_id note T =
    and_then (ensure (\<not> (\<not> active (dr_status cur) \<or> \<not> terminal_status status)) (core_err ''RunSealed'')) (\<lambda>_.
    and_then (check_id event_id) (\<lambda>_.
    and_then (ensure (\<not> (why = [] \<or> note = [] \<or> MAX_EVENT_BYTES < blen note)) (core_err ''InvalidRequest'')) (\<lambda>_.
    and_then (dr_sequence cur) (\<lambda>n.
    and_then (next_sequence n) (\<lambda>n'.
    and_then (insert_event \<lparr>ev_run = rn_id (dr_row cur), ev_sequence = n', ev_id = event_id,
        ev_kind = TerminalEvent, ev_text = note\<rparr> T) (\<lambda>T1.
    and_then (update_one (\<lambda>r. owned_row (run_owner_of cur) r \<and> active (rn_status r) \<and> rn_sequence r = n)
        (\<lambda>r. r\<lparr>rn_status := status, rn_sequence := n', rn_reason := Some why\<rparr>) ''SequenceConflict'' T1) (\<lambda>T2.
    and_then (insert_message \<lparr>mg_id = new, mg_thread = rn_thread (dr_row cur), mg_run = rn_id (dr_row cur),
        mg_role = AssistantMessage, mg_content = with_note (rn_output (dr_row cur)) note,
        mg_packet = Some (rn_packet (dr_row cur))\<rparr> T2) (\<lambda>T3.
    and_then (read_run S T3 (rn_id (dr_row cur))) (\<lambda>r. Inr (r, T3))))))))))"

section \<open>Output\<close>

record output_append =
  ap_owner :: run_owner
  ap_expected :: ustr
  ap_event :: ustr
  ap_chunk :: ustr

text \<open>
  A repeated event: the saved one, when its kind, text and sequence are those of the request.
\<close>

definition replayed :: "event_kind \<Rightarrow> ustr \<Rightarrow> int \<Rightarrow> bool \<Rightarrow> event_row \<Rightarrow> 'a \<Rightarrow> 'a core_result" where
  "replayed k t expected settled e x =
    (if ev_kind e = k \<and> ev_text e = t \<and> checked_add_i64 expected 1 = Some (ev_sequence e) \<and> settled
     then Inr x else Inl (core_err ''EventIdReused''))"

definition append_fresh :: "services \<Rightarrow> output_append \<Rightarrow> int \<Rightarrow> disc_run \<Rightarrow> disc_tables \<Rightarrow> (disc_run \<times> disc_tables) core_result" where
  "append_fresh S q expected cur T =
    and_then (ensure_run_started (dr_status cur)) (\<lambda>_.
    and_then (dr_sequence cur) (\<lambda>n.
    and_then (ensure (expected = n) (core_err ''SequenceConflict'')) (\<lambda>_.
    and_then (append_text (rn_output (dr_row cur)) (ap_chunk q) MAX_OUTPUT_BYTES) (\<lambda>output.
    and_then (next_sequence n) (\<lambda>n'.
    and_then (insert_event \<lparr>ev_run = ow_run (ap_owner q), ev_sequence = n', ev_id = ap_event q,
        ev_kind = ChunkEvent, ev_text = ap_chunk q\<rparr> T) (\<lambda>T1.
    and_then (update_one (\<lambda>r. owned_row (ap_owner q) r \<and> rn_status r = Running \<and> rn_sequence r = n)
        (\<lambda>r. r\<lparr>rn_status := Running, rn_sequence := n', rn_output := output\<rparr>) ''SequenceConflict'' T1) (\<lambda>T2.
    and_then (read_run S T2 (ow_run (ap_owner q))) (\<lambda>r. Inr (r, T2)))))))))"

definition append_tx :: "services \<Rightarrow> output_append \<Rightarrow> int \<Rightarrow> disc_tables \<Rightarrow> (disc_run \<times> disc_tables) core_result" where
  "append_tx S q expected T =
    and_then (find_owned S T (ap_owner q)) (\<lambda>cur.
    and_then (reject_legacy_lookup_path cur) (\<lambda>_.
    case existing_event T (ow_run (ap_owner q)) (ap_event q) of
      Some e \<Rightarrow> replayed ChunkEvent (ap_chunk q) expected True e (cur, T)
    | None \<Rightarrow> append_fresh S q expected cur T))"

section \<open>Completion\<close>

record finish_request =
  fq_owner :: run_owner
  fq_expected :: ustr
  fq_event :: ustr
  fq_text :: ustr

definition finish_fresh ::
  "services \<Rightarrow> ustr \<Rightarrow> finish_request \<Rightarrow> int \<Rightarrow> disc_run \<Rightarrow> disc_tables \<Rightarrow> (disc_run \<times> disc_tables) core_result" where
  "finish_fresh S new q expected cur T =
    and_then (ensure_run_started (dr_status cur)) (\<lambda>_.
    and_then (validate_final_output (rn_output (dr_row cur)) (fq_text q) False) (\<lambda>_.
    and_then (dr_sequence cur) (\<lambda>n.
    and_then (ensure (expected = n) (core_err ''SequenceConflict'')) (\<lambda>_.
    and_then (next_sequence n) (\<lambda>n'.
    and_then (insert_event \<lparr>ev_run = ow_run (fq_owner q), ev_sequence = n', ev_id = fq_event q,
        ev_kind = TerminalEvent, ev_text = fq_text q\<rparr> T) (\<lambda>T1.
    and_then (update_one (\<lambda>r. owned_row (fq_owner q) r \<and> rn_status r = Running \<and> rn_sequence r = n)
        (\<lambda>r. r\<lparr>rn_status := RunCompleted, rn_sequence := n', rn_output := fq_text q\<rparr>) ''SequenceConflict'' T1) (\<lambda>T2.
    and_then (insert_message \<lparr>mg_id = new, mg_thread = rn_thread (dr_row cur), mg_run = ow_run (fq_owner q),
        mg_role = AssistantMessage, mg_content = fq_text q, mg_packet = None\<rparr> T2) (\<lambda>T3.
    and_then (retain_candidates S (rn_id (dr_row cur)) (fq_text q)) (\<lambda>_.
    and_then (read_run S T3 (ow_run (fq_owner q))) (\<lambda>r. Inr (r, T3)))))))))))"

definition finish_tx ::
  "services \<Rightarrow> ustr \<Rightarrow> finish_request \<Rightarrow> int \<Rightarrow> disc_tables \<Rightarrow> (disc_run \<times> disc_tables) core_result" where
  "finish_tx S new q expected T =
    and_then (find_owned S T (fq_owner q)) (\<lambda>cur.
    and_then (reject_legacy_lookup_path cur) (\<lambda>_.
    and_then (ensure (dr_binding cur = None) (core_err ''ProviderResultRequired'')) (\<lambda>_.
    case existing_event T (ow_run (fq_owner q)) (fq_event q) of
      Some e \<Rightarrow> replayed TerminalEvent (fq_text q) expected (dr_status cur = RunCompleted) e (cur, T)
    | None \<Rightarrow> finish_fresh S new q expected cur T)))"

section \<open>Failure\<close>

record fail_request =
  fl_owner :: run_owner
  fl_expected :: ustr
  fl_event :: ustr
  fl_reason :: ustr

definition failure_text :: "ustr \<Rightarrow> ustr" where
  "failure_text why = u ''Discussion failed: '' @ why"

definition fail_tx :: "services \<Rightarrow> ustr \<Rightarrow> fail_request \<Rightarrow> int \<Rightarrow> disc_tables \<Rightarrow> (disc_run \<times> disc_tables) core_result" where
  "fail_tx S new q expected T =
    and_then (find_owned S T (fl_owner q)) (\<lambda>cur.
    and_then (reject_legacy_lookup_path cur) (\<lambda>_.
    and_then (ensure (dr_status cur \<noteq> Stopping) (core_err ''RunStopping'')) (\<lambda>_.
    case existing_event T (ow_run (fl_owner q)) (fl_event q) of
      Some e \<Rightarrow> replayed TerminalEvent (failure_text (trim (fl_reason q))) expected (dr_status cur = RunFailed) e (cur, T)
    | None \<Rightarrow>
        and_then (dr_sequence cur) (\<lambda>n.
        and_then (ensure (expected = n) (core_err ''SequenceConflict'')) (\<lambda>_.
        seal_run S new cur RunFailed (trim (fl_reason q)) (fl_event q) (failure_text (trim (fl_reason q))) T)))))"

section \<open>Dispatch\<close>

text \<open>
  A queued run whose frozen context is no longer current is sealed as failed; the transaction
  commits and the command still answers with an error.
\<close>

definition begin_current :: "services \<Rightarrow> int core_result \<Rightarrow> run_row \<Rightarrow> disc_tables \<Rightarrow> bool core_result" where
  "begin_current S source_epoch row T =
    and_then (packet_epochs S (rn_packet row)) (\<lambda>(source, policy).
    and_then source_epoch (\<lambda>epoch.
    if source = epoch \<and> policy = policy_epoch T then chat_is_current S (rn_packet row) else Inr False))"

definition begin_tx ::
  "services \<Rightarrow> int core_result \<Rightarrow> ustr \<Rightarrow> run_owner \<Rightarrow> disc_tables \<Rightarrow> ((disc_run \<times> packet) core_result \<times> disc_tables) core_result" where
  "begin_tx S source_epoch new ow T =
    and_then (find_owned S T ow) (\<lambda>cur.
    case dr_status cur of
      Queued \<Rightarrow>
        and_then (begin_current S source_epoch (dr_row cur) T) (\<lambda>ok.
        if \<not> ok then
          and_then (seal_run S new cur RunFailed (u ''context_stale'') (u ''system-stale-'' @ rn_id (dr_row cur))
            (u ''The story changed before this discussion started; the saved response was not dispatched.'') T) (\<lambda>(_, T').
          Inr (Inl (core_err ''ContextChanged''), T'))
        else
          and_then (update_one (\<lambda>r. owned_row ow r \<and> rn_status r = Queued \<and> rn_dispatch r = PendingDispatch)
              (\<lambda>r. r\<lparr>rn_status := Running, rn_dispatch := ClaimedDispatch\<rparr>) ''RunAlreadyStarted'' T) (\<lambda>T'.
          and_then (read_run S T' (ow_run ow)) (\<lambda>r.
          and_then (open_packet S (rn_packet (dr_row r))) (\<lambda>p.
          Inr (Inr (r, p), T')))))
    | Running \<Rightarrow> Inl (core_err ''RunAlreadyStarted'')
    | _ \<Rightarrow> Inl (core_err ''RunSealed''))"

definition delivered_tx :: "services \<Rightarrow> run_owner \<Rightarrow> disc_tables \<Rightarrow> (disc_run \<times> disc_tables) core_result" where
  "delivered_tx S ow T =
    and_then (find_owned S T ow) (\<lambda>cur.
    and_then (ensure (dr_binding cur = None) (core_err ''ProviderResultRequired'')) (\<lambda>_.
    and_then (ensure (dr_status cur \<noteq> Stopping) (core_err ''RunStopping'')) (\<lambda>_.
    and_then (ensure (dr_status cur = Running) (core_err ''RunSealed'')) (\<lambda>_.
    let T' = fst (update_runs (\<lambda>r. owned_row ow r \<and> rn_status r = Running) (\<lambda>r. r\<lparr>rn_dispatch := DeliveredDispatch\<rparr>) T) in
    and_then (read_run S T' (ow_run ow)) (\<lambda>r. Inr (r, T'))))))"

section \<open>Stopping\<close>

definition same_project :: "disc_run \<Rightarrow> project_access \<Rightarrow> unit core_result" where
  "same_project r a =
    ensure (\<not> (rn_project (dr_row r) \<noteq> project_id a \<or> rn_namespace (dr_row r) \<noteq> operation_namespace a))
      (core_err ''DiscussionProjectMismatch'')"

definition stop_tx :: "services \<Rightarrow> ustr \<Rightarrow> project_access \<Rightarrow> ustr \<Rightarrow> disc_tables \<Rightarrow> (disc_run \<times> disc_tables) core_result" where
  "stop_tx S new a run T =
    and_then (read_run S T run) (\<lambda>cur.
    and_then (same_project cur a) (\<lambda>_.
    case dr_status cur of
      Queued \<Rightarrow> seal_run S new cur RunStopped (u ''author_stopped'') (u ''system-stop-'' @ rn_id (dr_row cur)) STOP_SETTLED_MESSAGE T
    | Running \<Rightarrow>
        let T' = fst (update_runs (\<lambda>r. owned_row \<lparr>ow_project = project_id a, ow_namespace = operation_namespace a, ow_run = run\<rparr> r
                     \<and> rn_status r = Running)
                   (\<lambda>r. r\<lparr>rn_status := Stopping, rn_reason := Some (u ''author_stopped'')\<rparr>) T) in
        and_then (read_run S T' run) (\<lambda>r. Inr (r, T'))
    | _ \<Rightarrow> Inr (cur, T)))"

record settle_request =
  sq_owner :: run_owner
  sq_expected :: ustr
  sq_event :: ustr
  sq_text :: ustr
  sq_cleanup :: provider_cleanup

definition settled_status :: "provider_cleanup \<Rightarrow> run_status" where
  "settled_status c = (case c of Settled \<Rightarrow> RunStopped | Unresolved \<Rightarrow> Interrupted)"

definition settle_fresh ::
  "services \<Rightarrow> ustr \<Rightarrow> settle_request \<Rightarrow> int \<Rightarrow> disc_run \<Rightarrow> disc_tables \<Rightarrow> (disc_run \<times> disc_tables) core_result" where
  "settle_fresh S new q expected cur T =
    and_then (ensure (dr_status cur = Stopping) (core_err ''RunSealed'')) (\<lambda>_.
    and_then (dr_sequence cur) (\<lambda>n.
    and_then (ensure (expected = n) (core_err ''SequenceConflict'')) (\<lambda>_.
    and_then (validate_final_output (rn_output (dr_row cur)) (sq_text q) True) (\<lambda>_.
    and_then (next_sequence n) (\<lambda>n'.
    and_then (insert_event \<lparr>ev_run = ow_run (sq_owner q), ev_sequence = n', ev_id = sq_event q,
        ev_kind = TerminalEvent, ev_text = sq_text q\<rparr> T) (\<lambda>T1.
    and_then (update_one (\<lambda>r. owned_row (sq_owner q) r \<and> rn_status r = Stopping \<and> rn_sequence r = n)
        (\<lambda>r. r\<lparr>rn_status := settled_status (sq_cleanup q), rn_sequence := n', rn_output := sq_text q,
          rn_reason := Some (case sq_cleanup q of Settled \<Rightarrow> u ''author_stopped'' | Unresolved \<Rightarrow> u ''stop_cleanup_unresolved'')\<rparr>)
        ''SequenceConflict'' T1) (\<lambda>T2.
    and_then (insert_message \<lparr>mg_id = new, mg_thread = rn_thread (dr_row cur), mg_run = ow_run (sq_owner q),
        mg_role = AssistantMessage,
        mg_content = with_note (sq_text q) (case sq_cleanup q of Settled \<Rightarrow> STOP_SETTLED_MESSAGE | Unresolved \<Rightarrow> STOP_UNRESOLVED_MESSAGE),
        mg_packet = Some (rn_packet (dr_row cur))\<rparr> T2) (\<lambda>T3.
    and_then (read_run S T3 (ow_run (sq_owner q))) (\<lambda>r. Inr (r, T3))))))))))"

definition settle_tx ::
  "services \<Rightarrow> ustr \<Rightarrow> settle_request \<Rightarrow> int \<Rightarrow> disc_tables \<Rightarrow> (disc_run \<times> disc_tables) core_result" where
  "settle_tx S new q expected T =
    and_then (find_owned S T (sq_owner q)) (\<lambda>cur.
    case existing_event T (ow_run (sq_owner q)) (sq_event q) of
      Some e \<Rightarrow> replayed TerminalEvent (sq_text q) expected
        (dr_status cur = settled_status (sq_cleanup q) \<and> rn_output (dr_row cur) = sq_text q) e (cur, T)
    | None \<Rightarrow> settle_fresh S new q expected cur T)"

end
