(* ===== verification/Discussion_Provider.thy ===== *)
theory Discussion_Provider
  imports Discussion_Run
begin

text \<open>
  Settling a run with the terminal report of the bounded provider worker
  (\<open>settle_provider_discussion\<close> and discussions/validation.rs), the durable claim and
  acknowledgement of an app-server turn (discussions/app_server.rs), the recovery sweep of the
  open path with the single interruption of the close path, and \<open>validate_provider_results\<close>,
  which every backup and import runs over the saved receipts.
\<close>

section \<open>Provider reports\<close>

record provider_report =
  rp_owner :: run_owner
  rp_expected :: ustr
  rp_event :: ustr
  rp_text :: ustr
  rp_binding :: provider_binding
  rp_status :: provider_outcome
  rp_stdin :: ustr
  rp_usage :: "provider_usage option"
  rp_cleanup :: provider_cleanup
  rp_error :: "ustr option"
  rp_identity :: "ustr option"
  rp_model :: "ustr option"
  rp_delivery :: "delivery_receipt option"
  rp_app :: "app_delivery option"

definition validate_report_counts :: "services \<Rightarrow> provider_report \<Rightarrow> unit core_result" where
  "validate_report_counts S q =
    and_then (parse_decimal_u64 (rp_stdin q)) (\<lambda>n.
    and_then (ensure (\<not> ((is_http (rp_binding q) \<or> is_app_server (rp_binding q)) \<and> n \<noteq> 0))
      (core_err ''InvalidRequest'')) (\<lambda>_.
    and_then (ensure (\<not> (\<not> is_http (rp_binding q) \<and> CODEX_INPUT_LIMIT_BYTES < n)) (core_err ''InputTooLarge'')) (\<lambda>_.
    and_then (ok_or (core_err ''InvalidProviderBinding'') (output_limit (sv_vendor S) (sv_env S) (rp_binding q))) (\<lambda>limit.
    ensure (\<not> limit < blen (rp_text q)) (core_err ''OutputTooLarge'')))))"

definition validate_report_evidence :: "provider_report \<Rightarrow> unit core_result" where
  "validate_report_evidence q =
    and_then (if is_http (rp_binding q) then validate_http_delivery_shape (rp_delivery q) (rp_status q)
      else ensure (rp_delivery q = None) (core_err ''InvalidRequest'')) (\<lambda>_.
    if is_app_server (rp_binding q)
    then and_then (ok_or app_delivery_error (rp_app q)) validate_app_delivery
    else ensure (rp_app q = None) (core_err ''InvalidRequest''))"

definition validate_provider_report_shape :: "services \<Rightarrow> provider_report \<Rightarrow> unit core_result" where
  "validate_provider_report_shape S q =
    and_then (check_owner_ids (rp_owner q)) (\<lambda>_.
    and_then (check_id (rp_event q)) (\<lambda>_.
    and_then (ensure (validate_binding (sv_vendor S) (sv_env S) (rp_binding q)) (core_err ''InvalidProviderBinding'')) (\<lambda>_.
    and_then (validate_report_counts S q) (\<lambda>_.
    and_then (validate_report_evidence q) (\<lambda>_.
    and_then (ensure (error_text_ok (rp_error q)) (core_err ''InvalidRequest'')) (\<lambda>_.
    and_then (ensure (rp_identity q = None) (core_err ''InvalidRequest'')) (\<lambda>_.
    validate_reported_model (rp_binding q) (rp_status q) (rp_model q) False)))))))"

definition provider_result_matches_report :: "result_row \<Rightarrow> provider_report \<Rightarrow> bool" where
  "provider_result_matches_report s q \<longleftrightarrow>
    pr_run s = ow_run (rp_owner q) \<and> pr_event s = rp_event q \<and> show_int (pr_expected s) = rp_expected q
    \<and> pr_text s = rp_text q \<and> pr_binding s = rp_binding q \<and> pr_outcome s = rp_status q
    \<and> show_int (pr_stdin s) = rp_stdin q \<and> pr_app s = rp_app q \<and> pr_usage s = rp_usage q
    \<and> pr_cleanup s = rp_cleanup q \<and> pr_error s = rp_error q \<and> pr_identity s = rp_identity q
    \<and> pr_model s = rp_model q \<and> pr_delivery s = rp_delivery q"

definition provider_discussion_status :: "run_status \<Rightarrow> provider_outcome \<Rightarrow> provider_cleanup \<Rightarrow> run_status" where
  "provider_discussion_status cur out cl =
    (if cl = Unresolved then Interrupted
     else if cur = Stopping \<or> out = OutStopped then RunStopped
     else if out = OutCompleted then RunCompleted
     else RunFailed)"

definition provider_stop_reason :: "run_status \<Rightarrow> provider_outcome \<Rightarrow> provider_cleanup \<Rightarrow> ustr option" where
  "provider_stop_reason cur out cl =
    (if cl = Unresolved then Some (u ''provider_cleanup_unresolved'')
     else if cur = Stopping then Some (u ''author_stopped'')
     else case out of
       OutCompleted \<Rightarrow> None
     | OutStopped \<Rightarrow> Some (u ''provider_stopped'')
     | OutTimedOut \<Rightarrow> Some (u ''provider_timed_out'')
     | OutOutputLimit \<Rightarrow> Some (u ''provider_output_limit'')
     | OutFailed \<Rightarrow> Some (u ''provider_failed''))"

definition failure_note :: "provider_report \<Rightarrow> run_status \<Rightarrow> ustr" where
  "failure_note q status =
    (case rp_error q of
       Some e \<Rightarrow> u ''Provider request failed: '' @ e
     | None \<Rightarrow>
         (case status of
            RunStopped \<Rightarrow> STOP_SETTLED_MESSAGE
          | Interrupted \<Rightarrow> STOP_UNRESOLVED_MESSAGE
          | RunFailed \<Rightarrow>
              (case rp_status q of
                 OutTimedOut \<Rightarrow> u ''The provider request timed out.''
               | OutOutputLimit \<Rightarrow> u ''The provider output reached the application limit.''
               | _ \<Rightarrow> u ''The provider request failed.'')
          | _ \<Rightarrow> u ''The provider request ended without a completed response.''))"

definition provider_terminal_message :: "provider_report \<Rightarrow> run_status \<Rightarrow> ustr core_result" where
  "provider_terminal_message q status =
    (if status = RunCompleted then Inr (rp_text q)
     else and_then (ensure (\<not> (failure_note q status = [] \<or> MAX_EVENT_BYTES < blen (failure_note q status)))
            (core_err ''InvalidRequest'')) (\<lambda>_. Inr (failure_note q status)))"

section \<open>Settlement\<close>

text \<open>Whether the request is known to have reached the provider, or the evidence is refused.\<close>

definition provider_delivered ::
  "services \<Rightarrow> disc_tables \<Rightarrow> provider_report \<Rightarrow> nat \<Rightarrow> disc_run \<Rightarrow> packet \<Rightarrow> provider_binding \<Rightarrow> bool core_result" where
  "provider_delivered S T q confirmed cur p b =
    (let input = blen (serialized_input (sv_env S) p) in
     if is_app_server b then
       validate_delivery (sv_env S) T (rn_id (dr_row cur)) p (rp_app q) (rp_status q) (rp_cleanup q)
     else if is_http b then
       and_then (validate_http_delivery S p (rp_delivery q) (rp_status q)) (\<lambda>_.
       Inr (map_option dl_submission (rp_delivery q) = Some ResponseReceived))
     else if rp_delivery q \<noteq> None \<or> input < confirmed \<or> (rp_status q = OutCompleted \<and> confirmed \<noteq> input)
     then Inl (core_err ''ProviderInputMismatch'')
     else Inr (confirmed = input))"

text \<open>The checks of a fresh report: the packet's binding, whether it was delivered, the sequence.\<close>

definition accept_report ::
  "services \<Rightarrow> provider_report \<Rightarrow> int \<Rightarrow> nat \<Rightarrow> disc_run \<Rightarrow> disc_tables \<Rightarrow> (provider_binding \<times> bool \<times> int) core_result" where
  "accept_report S q expected confirmed cur T =
    and_then (ensure (dr_status cur = Running \<or> dr_status cur = Stopping) (core_err ''RunNotStarted'')) (\<lambda>_.
    and_then (packet_record S (rn_packet (dr_row cur))) (\<lambda>p.
    and_then (ok_or (core_err ''ProviderBindingMissing'') (po_binding (pk_options p))) (\<lambda>b.
    and_then (ensure (b = rp_binding q) (core_err ''ProviderBindingMismatch'')) (\<lambda>_.
    and_then (provider_delivered S T q confirmed cur p b) (\<lambda>delivered.
    and_then (ok_or (core_err ''InvalidProviderBinding'') (output_limit (sv_vendor S) (sv_env S) b)) (\<lambda>limit.
    and_then (ensure (\<not> limit < blen (rp_text q)) (core_err ''OutputTooLarge'')) (\<lambda>_.
    and_then (validate_final_output (rn_output (dr_row cur)) (rp_text q) True) (\<lambda>_.
    and_then (ensure (\<not> (rp_status q = OutCompleted \<and> rp_text q = [])) (core_err ''InvalidRequest'')) (\<lambda>_.
    and_then (ensure (\<not> (rp_status q = OutCompleted \<and> rp_error q \<noteq> None)) (core_err ''InvalidRequest'')) (\<lambda>_.
    and_then (dr_sequence cur) (\<lambda>n.
    and_then (ensure (expected = n) (core_err ''SequenceConflict'')) (\<lambda>_.
    and_then (ensure (existing_event T (rn_id (dr_row cur)) (rp_event q) = None) (core_err ''EventIdReused'')) (\<lambda>_.
    Inr (b, delivered, n))))))))))))))"

definition report_result :: "provider_report \<Rightarrow> int \<Rightarrow> nat \<Rightarrow> disc_run \<Rightarrow> provider_binding \<Rightarrow> result_row" where
  "report_result q expected confirmed cur b =
    \<lparr>pr_run = rn_id (dr_row cur), pr_packet = rn_packet (dr_row cur), pr_event = rp_event q, pr_expected = expected,
     pr_binding = b, pr_text = rp_text q, pr_outcome = rp_status q, pr_stdin = int confirmed, pr_usage = rp_usage q,
     pr_cleanup = rp_cleanup q, pr_error = rp_error q, pr_identity = rp_identity q, pr_model = rp_model q,
     pr_delivery = rp_delivery q, pr_app = rp_app q\<rparr>"

definition write_report ::
  "services \<Rightarrow> ustr \<Rightarrow> provider_report \<Rightarrow> int \<Rightarrow> nat \<Rightarrow> disc_run \<Rightarrow> provider_binding \<Rightarrow> bool \<Rightarrow> int
   \<Rightarrow> disc_tables \<Rightarrow> disc_tables core_result" where
  "write_report S new q expected confirmed cur b delivered n T =
    (let status = provider_discussion_status (dr_status cur) (rp_status q) (rp_cleanup q) in
     and_then (provider_terminal_message q status) (\<lambda>note.
     and_then (next_sequence n) (\<lambda>n'.
     and_then (insert_event \<lparr>ev_run = rn_id (dr_row cur), ev_sequence = n', ev_id = rp_event q,
         ev_kind = TerminalEvent, ev_text = note\<rparr> T) (\<lambda>T1.
     and_then (update_one (\<lambda>r. owned_row (run_owner_of cur) r \<and> active (rn_status r) \<and> rn_sequence r = n)
         (\<lambda>r. r\<lparr>rn_status := status, rn_sequence := n', rn_output := rp_text q,
           rn_reason := provider_stop_reason (dr_status cur) (rp_status q) (rp_cleanup q),
           rn_dispatch := (if delivered then DeliveredDispatch else rn_dispatch r)\<rparr>) ''SequenceConflict'' T1) (\<lambda>T2.
     and_then (insert_message \<lparr>mg_id = new, mg_thread = rn_thread (dr_row cur), mg_run = rn_id (dr_row cur),
         mg_role = AssistantMessage,
         mg_content = (if status = RunCompleted then rp_text q else with_note (rp_text q) note),
         mg_packet = Some (rn_packet (dr_row cur))\<rparr> T2) (\<lambda>T3.
     and_then (ensure (int confirmed \<le> i64_max) (core_err ''InvalidRequest'')) (\<lambda>_.
     and_then (insert_result (report_result q expected confirmed cur b) T3) (\<lambda>T4.
     and_then (if status = RunCompleted then retain_candidates S (rn_id (dr_row cur)) (rp_text q) else Inr ()) (\<lambda>_.
     Inr T4)))))))))"

definition settle_provider_tx ::
  "services \<Rightarrow> ustr \<Rightarrow> provider_report \<Rightarrow> int \<Rightarrow> nat \<Rightarrow> disc_tables \<Rightarrow> ((disc_run \<times> result_row) \<times> disc_tables) core_result" where
  "settle_provider_tx S new q expected confirmed T =
    and_then (find_owned S T (rp_owner q)) (\<lambda>cur.
    and_then (reject_legacy_lookup_path cur) (\<lambda>_.
    and_then (read_provider_result S T (rn_id (dr_row cur)) (rn_packet (dr_row cur))) (\<lambda>found.
    case found of
      Some saved \<Rightarrow>
        if provider_result_matches_report saved q then Inr ((cur, saved), T)
        else Inl (core_err ''ProviderResultConflict'')
    | None \<Rightarrow>
        and_then (accept_report S q expected confirmed cur T) (\<lambda>(b, delivered, n).
        and_then (write_report S new q expected confirmed cur b delivered n T) (\<lambda>T'.
        and_then (read_provider_result S T' (rn_id (dr_row cur)) (rn_packet (dr_row cur))) (\<lambda>m.
        and_then (ok_or (core_err ''PersistenceUnavailable'') m) (\<lambda>result.
        and_then (read_run S T' (rn_id (dr_row cur))) (\<lambda>r. Inr ((r, result), T')))))))))"

section \<open>App-server turns\<close>

definition claim_app_server_tx :: "services \<Rightarrow> int core_result \<Rightarrow> run_owner \<Rightarrow> app_dispatch \<Rightarrow> disc_tables \<Rightarrow> (unit \<times> disc_tables) core_result" where
  "claim_app_server_tx S source_epoch ow d T =
    and_then (find_owned S T ow) (\<lambda>run.
    and_then (reject_legacy_lookup_path run) (\<lambda>_.
    and_then (ensure (\<not> (dr_status run \<noteq> Running \<or> rn_dispatch (dr_row run) \<noteq> ClaimedDispatch)) (core_err ''RunNotStarted'')) (\<lambda>_.
    and_then (packet_record S (rn_packet (dr_row run))) (\<lambda>p.
    and_then (packet_epochs S (rn_packet (dr_row run))) (\<lambda>(source, policy).
    and_then source_epoch (\<lambda>epoch.
    and_then (ensure (source = epoch \<and> policy = policy_epoch T) (core_err ''ContextChanged'')) (\<lambda>_.
    and_then (ensure ((case po_binding (pk_options p) of None \<Rightarrow> False | Some b \<Rightarrow> is_app_server b)
        \<and> dispatch_matches_packet (sv_env S) d p) (core_err ''ProviderBindingMismatch'')) (\<lambda>_.
    if stored_dispatch T (rn_id (dr_row run)) \<noteq> None then Inl (core_err ''DispatchAlreadyClaimed'')
    else Inr ((), T\<lparr>dispatches := dispatches T @ [\<lparr>dp_run = rn_id (dr_row run), dp_packet = rn_packet (dr_row run),
           dp_dispatch = d, dp_turn = None\<rparr>]\<rparr>)))))))))"

definition acknowledge_tx :: "services \<Rightarrow> run_owner \<Rightarrow> app_dispatch \<Rightarrow> ustr \<Rightarrow> disc_tables \<Rightarrow> (unit \<times> disc_tables) core_result" where
  "acknowledge_tx S ow d turn_id T =
    and_then (find_owned S T ow) (\<lambda>run.
    and_then (ensure (\<not> (case stored_dispatch T (rn_id (dr_row run)) of
        None \<Rightarrow> True
      | Some s \<Rightarrow> dp_dispatch s \<noteq> d \<or> (case dp_turn s of None \<Rightarrow> False | Some i \<Rightarrow> i \<noteq> turn_id)))
      (core_err ''ProviderBindingMismatch'')) (\<lambda>_.
    Inr ((), T\<lparr>dispatches := map (\<lambda>s. if dp_run s = rn_id (dr_row run) \<and> dp_turn s = None
       then s\<lparr>dp_turn := Some turn_id\<rparr> else s) (dispatches T)\<rparr>)))"

section \<open>Recovery\<close>

fun chain_stopped :: "invocation_state \<Rightarrow> invocation_state" where
  "chain_stopped IvClaimed = IvUnknown"
| "chain_stopped IvPrepared = IvStopped"
| "chain_stopped s = s"

definition mark_chain_stopped :: "ustr \<Rightarrow> disc_tables \<Rightarrow> disc_tables" where
  "mark_chain_stopped run T =
    T\<lparr>invocations := map (\<lambda>v. if iv_run v = run then v\<lparr>iv_state := chain_stopped (iv_state v)\<rparr> else v) (invocations T)\<rparr>"

definition interrupt_active ::
  "services \<Rightarrow> ustr \<Rightarrow> ustr \<Rightarrow> ustr \<Rightarrow> disc_run \<Rightarrow> disc_tables \<Rightarrow> (disc_run \<times> disc_tables) core_result" where
  "interrupt_active S new why note cur T =
    seal_run S new cur Interrupted why (u ''system-interrupted-'' @ rn_id (dr_row cur)) note
      (mark_chain_stopped (rn_id (dr_row cur)) T)"

text \<open>One round of the sweep; \<open>fresh\<close> draws the message identifier of a run.\<close>

definition recover_one :: "services \<Rightarrow> (ustr \<Rightarrow> ustr) \<Rightarrow> ustr \<Rightarrow> disc_tables \<Rightarrow> disc_tables core_result" where
  "recover_one S fresh i T =
    and_then (read_run S T i) (\<lambda>cur.
    and_then (interrupt_active S (fresh i) (u ''project_reopened'')
      (u ''The project was reopened before this discussion produced a complete response.'') cur T) (\<lambda>(_, T').
    Inr T'))"

definition active_ids :: "disc_tables \<Rightarrow> ustr list" where
  "active_ids T = map rn_id (filter (\<lambda>r. active (rn_status r)) (run_rows T))"

definition recover_tx :: "services \<Rightarrow> (ustr \<Rightarrow> ustr) \<Rightarrow> disc_tables \<Rightarrow> (nat \<times> disc_tables) core_result" where
  "recover_tx S fresh T =
    and_then (try_fold (\<lambda>T' i. recover_one S fresh i T') T (active_ids T)) (\<lambda>T'. Inr (length (active_ids T), T'))"

definition interrupt_tx :: "services \<Rightarrow> ustr \<Rightarrow> project_access \<Rightarrow> ustr \<Rightarrow> disc_tables \<Rightarrow> (disc_run \<times> disc_tables) core_result" where
  "interrupt_tx S new a run T =
    and_then (read_run S T run) (\<lambda>cur.
    and_then (same_project cur a) (\<lambda>_.
    if active (dr_status cur)
    then interrupt_active S new (u ''project_close_cleanup'') STOP_UNRESOLVED_MESSAGE cur T
    else Inr (cur, T)))"

section \<open>Validation of saved receipts\<close>

definition validate_dispatches :: "services \<Rightarrow> disc_tables \<Rightarrow> unit core_result" where
  "validate_dispatches S T =
    try_each (\<lambda>s.
      and_then (ensure (dispatch_is_valid (dp_dispatch s)) app_delivery_error) (\<lambda>_.
      and_then (packet_record S (dp_packet s)) (\<lambda>p.
      and_then (ok_or sql_error (find (\<lambda>r. rn_id r = dp_run s \<and> rn_dispatch r \<noteq> PendingDispatch) (run_rows T))) (\<lambda>r.
      ensure (\<not> (rn_packet r \<noteq> dp_packet s
          \<or> \<not> (case po_binding (pk_options p) of None \<Rightarrow> False | Some b \<Rightarrow> is_app_server b)
          \<or> \<not> dispatch_matches_packet (sv_env S) (dp_dispatch s) p
          \<or> (case dp_turn s of None \<Rightarrow> False | Some i \<Rightarrow> \<not> valid_identifier i)))
        invalid_project)))) (dispatches T)"

definition outcome_allows :: "result_row \<Rightarrow> run_status \<Rightarrow> bool" where
  "outcome_allows r status \<longleftrightarrow>
    (if pr_cleanup r = Unresolved then status = Interrupted
     else case pr_outcome r of
       OutCompleted \<Rightarrow> status = RunCompleted \<or> status = RunStopped
     | OutStopped \<Rightarrow> status = RunStopped
     | _ \<Rightarrow> status = RunFailed \<or> status = RunStopped)"

definition validate_result_transport :: "services \<Rightarrow> disc_tables \<Rightarrow> packet \<Rightarrow> result_row \<Rightarrow> unit core_result" where
  "validate_result_transport S T p r =
    and_then (parse_decimal_u64 (show_int (pr_stdin r))) (\<lambda>confirmed.
    let input = blen (serialized_input (sv_env S) p) in
    if is_app_server (pr_binding r) then
      and_then (ensure (\<not> confirmed \<noteq> 0) invalid_project) (\<lambda>_.
      and_then (validate_delivery (sv_env S) T (pr_run r) p (pr_app r) (pr_outcome r) (pr_cleanup r)) (\<lambda>_. Inr ()))
    else if is_http (pr_binding r) then
      and_then (ensure (\<not> confirmed \<noteq> 0) invalid_project) (\<lambda>_.
      validate_stored_http_delivery S p (pr_binding r) (pr_delivery r))
    else ensure (\<not> (input < confirmed \<or> (pr_outcome r = OutCompleted \<and> confirmed \<noteq> input))) invalid_project)"

definition validate_result_run :: "disc_tables \<Rightarrow> result_row \<Rightarrow> unit core_result" where
  "validate_result_run T r =
    and_then (ok_or sql_error (find (\<lambda>x. rn_id x = pr_run r \<and> rn_packet x = pr_packet r) (run_rows T))) (\<lambda>row.
    and_then (ensure (\<not> (active (rn_status row) \<or> rn_output row \<noteq> pr_text r)) invalid_project) (\<lambda>_.
    and_then (parse_version (show_int (pr_expected r))) (\<lambda>expected.
    and_then (ensure (checked_add_i64 expected 1 = Some (rn_sequence row)) invalid_project) (\<lambda>_.
    and_then (ensure (case existing_event T (pr_run r) (pr_event r) of
        None \<Rightarrow> False | Some e \<Rightarrow> ev_kind e = TerminalEvent \<and> ev_sequence e = rn_sequence row) invalid_project) (\<lambda>_.
    ensure (outcome_allows r (rn_status row)) invalid_project)))))"

definition validate_one_result :: "services \<Rightarrow> disc_tables \<Rightarrow> result_row \<Rightarrow> unit core_result" where
  "validate_one_result S T row =
    and_then (read_provider_result S T (pr_run row) (pr_packet row)) (\<lambda>m.
    and_then (ok_or invalid_project m) (\<lambda>r.
    and_then (packet_record S (pr_packet row)) (\<lambda>p.
    and_then (ensure (po_binding (pk_options p) = Some (pr_binding r)) invalid_project) (\<lambda>_.
    and_then (validate_result_transport S T p r) (\<lambda>_.
    validate_result_run T r)))))"

definition validate_completed_run :: "services \<Rightarrow> disc_tables \<Rightarrow> run_row \<Rightarrow> unit core_result" where
  "validate_completed_run S T row =
    (if rn_status row \<noteq> RunCompleted then Inr ()
     else and_then (packet_record S (rn_packet row)) (\<lambda>p.
          ensure (po_binding (pk_options p) = None \<or> find_result T (rn_id row) \<noteq> None) invalid_project))"

definition validate_provider_results :: "services \<Rightarrow> disc_tables \<Rightarrow> unit core_result" where
  "validate_provider_results S T =
    and_then (validate_dispatches S T) (\<lambda>_.
    and_then (try_each (validate_one_result S T) (results T)) (\<lambda>_.
    try_each (validate_completed_run S T) (sort_key (\<lambda>r. bytes (rn_id r)) (run_rows T))))"

end
