(* ===== verification/Discussion_Lookup.thy ===== *)
theory Discussion_Lookup
  imports Discussion_Provider
begin

text \<open>
  The lookup chain of a discussion (crates/conversation/src/discussion_lookup.rs and
  discussions/lookup.rs): invocations 0 to 2 of one run under a frozen byte allowance, each claimed
  once and settled once with a provider report, expanded by application-executed reads into the next
  invocation, and finished by a discussion response, a failure, a stop or a halt.
\<close>

section \<open>Vocabulary\<close>

definition MAX_LOOKUP_INVOCATIONS :: int where "MAX_LOOKUP_INVOCATIONS = 3"

record lookup_report =
  lp_owner :: run_owner
  lp_ordinal :: ustr
  lp_event :: ustr
  lp_text :: ustr
  lp_binding :: "provider_binding option"
  lp_status :: provider_outcome
  lp_stdin :: ustr
  lp_usage :: "provider_usage option"
  lp_cleanup :: provider_cleanup
  lp_error :: "ustr option"

record lookup_dispatch =
  lq_run :: disc_run
  lq_ordinal :: ustr
  lq_packet :: packet

datatype lookup_advance = LookupPrepared lookup_dispatch | LookupFinished disc_run

definition parse_lookup_ordinal :: "ustr \<Rightarrow> nat core_result" where
  "parse_lookup_ordinal v =
    and_then (parse_version v) (\<lambda>n.
    if 0 \<le> n \<and> n < 256 \<and> n < MAX_LOOKUP_INVOCATIONS then Inr (nat n) else Inl (core_err ''InvalidLookupCounter''))"

text \<open>\<open>str::parse\<close> at \<open>i64\<close>: an optional sign and decimal digits.\<close>

definition parse_counter :: "ustr \<Rightarrow> int core_result" where
  "parse_counter v =
    (let d = (case v of [] \<Rightarrow> [] | c # r \<Rightarrow> if c = 43 \<or> c = 45 then r else v);
         n = (if starts_with v [45] then - int (parse_digits d) else int (parse_digits d)) in
     if d \<noteq> [] \<and> list_all is_ascii_digit (bytes d) \<and> - (2 ^ 63) \<le> n \<and> n \<le> i64_max
     then Inr n else Inl (core_err ''InvalidLookupCounter''))"

definition validate_allowance :: "lookup_allowance \<Rightarrow> unit core_result" where
  "validate_allowance a = map_err (\<lambda>_. core_err ''InvalidLookupAllowance'') (validate_lookup_allowance a)"

abbreviation capability_error :: core_error where
  "capability_error \<equiv> core_err ''InvalidLookupCapability''"

section \<open>Invocations\<close>

definition find_invocation :: "disc_tables \<Rightarrow> ustr \<Rightarrow> nat \<Rightarrow> invocation_row option" where
  "find_invocation T run k = find (\<lambda>v. iv_run v = run \<and> iv_ordinal v = k) (invocations T)"

definition insert_invocation :: "invocation_row \<Rightarrow> disc_tables \<Rightarrow> disc_tables core_result" where
  "insert_invocation v T =
    (if iv_run v \<notin> rn_id ` set (run_rows T) \<or> 2 < iv_ordinal v \<or> iv_source v < 0 \<or> iv_policy v < 0
        \<or> find_invocation T (iv_run v) (iv_ordinal v) \<noteq> None \<or> iv_packet v \<in> iv_packet ` set (invocations T)
     then Inl sql_error else Inr (T\<lparr>invocations := invocations T @ [v]\<rparr>))"

definition prepared_invocation :: "ustr \<Rightarrow> nat \<Rightarrow> ustr \<Rightarrow> frozen_ref \<Rightarrow> ustr \<Rightarrow> lookup_allowance \<Rightarrow> invocation_row" where
  "prepared_invocation run k packet_id fz ns a =
    \<lparr>iv_run = run, iv_ordinal = k, iv_packet = packet_id, iv_snapshot = fz_snapshot fz, iv_project = fz_project fz,
     iv_namespace = ns, iv_source = fz_source fz, iv_policy = fz_policy fz, iv_allowance = a, iv_state = IvPrepared,
     iv_expected = 0\<rparr>"

text \<open>The capability checks \<open>insert_initial\<close> and \<open>insert_child\<close> make of the packet's lookup receipt.\<close>

definition check_lookup_receipt :: "services \<Rightarrow> ustr \<Rightarrow> lookup_allowance \<Rightarrow> nat \<Rightarrow> unit core_result" where
  "check_lookup_receipt S packet_id a k =
    and_then (validate_allowance a) (\<lambda>_.
    and_then (ok_or capability_error (packet_lookup S packet_id)) (\<lambda>l.
    and_then (map_err (\<lambda>_. capability_error) (validate_capability l)) (\<lambda>_.
    ensure (\<not> (li_allowance l \<noteq> a \<or> li_completed l \<noteq> k)) capability_error)))"

definition insert_initial ::
  "services \<Rightarrow> ustr \<Rightarrow> ustr \<Rightarrow> frozen_ref \<Rightarrow> ustr \<Rightarrow> lookup_allowance \<Rightarrow> disc_tables \<Rightarrow> disc_tables core_result" where
  "insert_initial S run packet_id fz ns a T =
    and_then (check_lookup_receipt S packet_id a 0) (\<lambda>_.
    insert_invocation (prepared_invocation run 0 packet_id fz ns a) T)"

definition insert_child ::
  "services \<Rightarrow> ustr \<Rightarrow> nat \<Rightarrow> ustr \<Rightarrow> frozen_ref \<Rightarrow> ustr \<Rightarrow> lookup_allowance \<Rightarrow> disc_tables \<Rightarrow> disc_tables core_result" where
  "insert_child S run k packet_id fz ns a T =
    and_then (ensure (\<not> (k = 0 \<or> 2 < k)) (core_err ''InvalidLookupCounter'')) (\<lambda>_.
    and_then (check_lookup_receipt S packet_id a k) (\<lambda>_.
    insert_invocation (prepared_invocation run k packet_id fz ns a) T))"

definition read_identity :: "disc_tables \<Rightarrow> run_owner \<Rightarrow> nat \<Rightarrow> invocation_row core_result" where
  "read_identity T ow k =
    and_then (ok_or (core_err ''LookupInvocationNotFound'')
        (if list_ex (owned_row ow) (run_rows T) then find_invocation T (ow_run ow) k else None)) (\<lambda>v.
    and_then (validate_allowance (iv_allowance v)) (\<lambda>_. Inr v))"

text \<open>
  An \<open>UPDATE\<close> of one invocation in a given state: the new tables and whether a row changed.
\<close>

definition set_invocation ::
  "ustr \<Rightarrow> nat \<Rightarrow> invocation_state \<Rightarrow> invocation_state \<Rightarrow> disc_tables \<Rightarrow> disc_tables \<times> nat" where
  "set_invocation run k s s' T =
    (let w = (\<lambda>v. iv_run v = run \<and> iv_ordinal v = k \<and> iv_state v = s) in
     (T\<lparr>invocations := map (\<lambda>v. if w v then v\<lparr>iv_state := s'\<rparr> else v) (invocations T)\<rparr>,
      length (filter w (invocations T))))"

text \<open>What the results of a run have used of its allowance: bytes sent and bytes answered.\<close>

definition lookup_input_used :: "disc_tables \<Rightarrow> ustr \<Rightarrow> int" where
  "lookup_input_used T run = sum_list (map lr_stdin (filter (\<lambda>x. lr_run x = run) (lookup_results T)))"

definition lookup_output_used :: "disc_tables \<Rightarrow> ustr \<Rightarrow> int" where
  "lookup_output_used T run = sum_list (map (\<lambda>x. int (blen (lr_text x))) (filter (\<lambda>x. lr_run x = run) (lookup_results T)))"

definition claim_invocation ::
  "services \<Rightarrow> run_owner \<Rightarrow> nat \<Rightarrow> disc_tables \<Rightarrow> (invocation_row \<times> disc_tables) core_result" where
  "claim_invocation S ow k T =
    and_then (read_identity T ow k) (\<lambda>cur.
    and_then (ensure (iv_state cur = IvPrepared) (core_err ''LookupInvocationAlreadyClaimed'')) (\<lambda>_.
    and_then (packet_record S (iv_packet cur)) (\<lambda>p.
    and_then (parse_counter (la_input (iv_allowance cur))) (\<lambda>input_limit.
    and_then (parse_counter (la_output (iv_allowance cur))) (\<lambda>output_limit.
    and_then (ensure (\<not> (input_limit < lookup_input_used T (ow_run ow) + int (blen (serialized_input (sv_env S) p))
        \<or> output_limit < lookup_output_used T (ow_run ow) + int MAX_LOOKUP_ENVELOPE_BYTES))
      (core_err ''LookupAllowanceExceeded'')) (\<lambda>_.
    case set_invocation (ow_run ow) k IvPrepared IvClaimed T of (T', changed) \<Rightarrow>
    and_then (ensure (changed = 1) (core_err ''LookupInvocationConflict'')) (\<lambda>_.
    and_then (read_identity T' ow k) (\<lambda>v. Inr (v, T')))))))))"

section \<open>Claiming\<close>

text \<open>
  A lookup whose frozen context is no longer current is sealed as failed; the transaction commits
  and the command still answers with an error.
\<close>

definition claim_lookup_tx ::
  "services \<Rightarrow> int core_result \<Rightarrow> ustr \<Rightarrow> run_owner \<Rightarrow> nat \<Rightarrow> disc_tables
   \<Rightarrow> (lookup_dispatch core_result \<times> disc_tables) core_result" where
  "claim_lookup_tx S source_epoch new ow k T =
    and_then (find_owned S T ow) (\<lambda>cur.
    and_then (ensure (dr_lookup cur) (core_err ''LookupNotEnabled'')) (\<lambda>_.
    and_then (ensure_run_started (dr_status cur)) (\<lambda>_.
    and_then (ok_or sql_error (find_invocation T (ow_run ow) k)) (\<lambda>v.
    and_then source_epoch (\<lambda>epoch.
    if iv_source v \<noteq> epoch \<or> iv_policy v \<noteq> policy_epoch T then
      and_then (seal_run S new cur RunFailed (u ''context_stale'')
        (u ''lookup-stale-'' @ rn_id (dr_row cur) @ u ''-'' @ show_nat k)
        (u ''The story or disclosure policy changed before this lookup started; the saved response was not dispatched.'')
        (mark_chain_stopped (rn_id (dr_row cur)) T)) (\<lambda>(_, T').
      Inr (Inl (core_err ''ContextChanged''), T'))
    else
      and_then (claim_invocation S ow k T) (\<lambda>(w, T').
      and_then (open_packet S (iv_packet w)) (\<lambda>p.
      and_then (read_run S T' (ow_run ow)) (\<lambda>r.
      Inr (Inr \<lparr>lq_run = r, lq_ordinal = show_nat k, lq_packet = p\<rparr>, T')))))))))"

section \<open>Reports\<close>

definition validate_lookup_report_shape :: "lookup_report \<Rightarrow> unit core_result" where
  "validate_lookup_report_shape q =
    and_then (check_owner_ids (lp_owner q)) (\<lambda>_.
    and_then (check_id (lp_event q)) (\<lambda>_.
    and_then (parse_lookup_ordinal (lp_ordinal q)) (\<lambda>_.
    and_then (ensure (\<not> (MAX_OUTPUT_BYTES < blen (lp_text q) \<or> \<not> printable_text (lp_text q))) (core_err ''OutputTooLarge'')) (\<lambda>_.
    and_then (ensure (error_text_ok (lp_error q)) (core_err ''InvalidRequest'')) (\<lambda>_.
    if lp_status q = OutCompleted then
      and_then (ensure (\<not> (lp_text q = [] \<or> lp_error q \<noteq> None)) (core_err ''InvalidRequest'')) (\<lambda>_.
      ensure (lp_cleanup q \<noteq> Unresolved) (core_err ''InvalidRequest''))
    else Inr ())))))"

definition validate_lookup_provider_bytes ::
  "services \<Rightarrow> disc_tables \<Rightarrow> invocation_row \<Rightarrow> packet \<Rightarrow> lookup_report \<Rightarrow> unit core_result" where
  "validate_lookup_provider_bytes S T v p q =
    and_then (parse_decimal_u64 (lp_stdin q)) (\<lambda>confirmed.
    let input = blen (serialized_input (sv_env S) p) in
    and_then (ensure (\<not> (input < confirmed \<or> (lp_status q = OutCompleted \<and> confirmed \<noteq> input)))
      (core_err ''ProviderInputMismatch'')) (\<lambda>_.
    and_then (case po_binding (pk_options p) of
        None \<Rightarrow> Inr MAX_OUTPUT_BYTES
      | Some b \<Rightarrow> ok_or (core_err ''InvalidProviderBinding'') (output_limit (sv_vendor S) (sv_env S) b)) (\<lambda>limit.
    and_then (ensure (\<not> limit < blen (lp_text q)) (core_err ''OutputTooLarge'')) (\<lambda>_.
    and_then (parse_decimal_u64 (la_input (iv_allowance v))) (\<lambda>input_limit.
    and_then (parse_decimal_u64 (la_output (iv_allowance v))) (\<lambda>output_limit.
    ensure (\<not> (int input_limit < lookup_input_used T (iv_run v) + int confirmed
        \<or> int output_limit < lookup_output_used T (iv_run v) + int (blen (lp_text q))))
      (core_err ''LookupAllowanceExceeded'')))))))"

definition find_lookup_result :: "disc_tables \<Rightarrow> ustr \<Rightarrow> nat \<Rightarrow> lookup_result_row option" where
  "find_lookup_result T run k = find (\<lambda>x. lr_run x = run \<and> lr_ordinal x = k) (lookup_results T)"

text \<open>
  The saved result is the one this report produced; a completed report whose response was refused
  was saved as failed with the reason.
\<close>

definition lookup_result_matches :: "lookup_result_row \<Rightarrow> lookup_report \<Rightarrow> bool" where
  "lookup_result_matches s q \<longleftrightarrow>
    lr_event s = lp_event q \<and> lr_text s = lp_text q
    \<and> (lr_outcome s = lp_status q \<or> (lp_status q = OutCompleted \<and> lr_outcome s = OutFailed))
    \<and> (case parse_decimal_u64 (lp_stdin q) of Inl _ \<Rightarrow> False | Inr n \<Rightarrow> int n \<le> i64_max \<and> int n = lr_stdin s)
    \<and> lr_cleanup s = lp_cleanup q
    \<and> (lr_error s = lp_error q
       \<or> (lp_status q = OutCompleted \<and> lr_outcome s = OutFailed \<and> lp_error q = None \<and> lr_error s \<noteq> None))
    \<and> lr_binding s = lp_binding q \<and> lr_usage s = lp_usage q"

text \<open>The response of a completed report: the accepted envelope, or the detail of its refusal.\<close>

definition parse_lookup_response :: "services \<Rightarrow> ustr \<Rightarrow> ustr + lookup_envelope" where
  "parse_lookup_response S raw =
    and_then (map_err lookup_error_text (parse_lookup_envelope (decode_envelope S) (debug_text S) raw)) (\<lambda>e.
    if schema_version e \<noteq> LOOKUP_SCHEMA_VERSION then Inl (u ''The lookup response schema is not supported.'') else Inr e)"

definition authorize_envelope :: "lookup_input option \<Rightarrow> lookup_envelope \<Rightarrow> ustr + unit" where
  "authorize_envelope lookup e =
    (case e of
       DiscussionText v t \<Rightarrow> Inr ()
     | NeedsContext v rs \<Rightarrow>
         and_then (ok_or (u ''A lookup response has no authorized lookup packet.'') lookup) (\<lambda>l.
         and_then (map_err lookup_error_text (validate_capability l)) (\<lambda>_.
         try_each (\<lambda>r. map_err lookup_error_text (authorize_read l r)) rs)))"

definition lookup_response :: "services \<Rightarrow> ustr \<Rightarrow> lookup_report \<Rightarrow> lookup_envelope option \<times> ustr option" where
  "lookup_response S packet_id q =
    (if lp_status q = OutCompleted
     then case and_then (parse_lookup_response S (lp_text q)) (\<lambda>e.
            and_then (authorize_envelope (packet_lookup S packet_id) e) (\<lambda>_. Inr e)) of
         Inl detail \<Rightarrow> (None, Some detail)
       | Inr e \<Rightarrow> (Some e, None)
     else (None, None))"

section \<open>Settling\<close>

fun response_state :: "lookup_envelope \<Rightarrow> invocation_state" where
  "response_state (NeedsContext v rs) = IvNeedsContext"
| "response_state (DiscussionText v t) = IvCompleted"

definition outcome_state :: "provider_outcome \<Rightarrow> provider_cleanup \<Rightarrow> lookup_envelope option \<Rightarrow> invocation_state" where
  "outcome_state status cleanup parsed =
    (case parsed of
       Some e \<Rightarrow> response_state e
     | None \<Rightarrow> if cleanup = Unresolved then IvUnknown else if status = OutStopped then IvStopped else IvFailed)"

definition insert_lookup_result :: "lookup_result_row \<Rightarrow> disc_tables \<Rightarrow> disc_tables core_result" where
  "insert_lookup_result x T =
    (if lr_expected x < 0 \<or> lr_stdin x < 0
        \<or> list_ex (\<lambda>y. lr_run y = lr_run x \<and> (lr_ordinal y = lr_ordinal x \<or> lr_event y = lr_event x)) (lookup_results T)
        \<or> lr_packet x \<in> lr_packet ` set (lookup_results T) \<or> find_invocation T (lr_run x) (lr_ordinal x) = None
     then Inl sql_error else Inr (T\<lparr>lookup_results := lookup_results T @ [x]\<rparr>))"

definition store_outcome ::
  "invocation_row \<Rightarrow> lookup_report \<Rightarrow> provider_outcome \<Rightarrow> ustr option \<Rightarrow> lookup_envelope option
   \<Rightarrow> disc_tables \<Rightarrow> disc_tables core_result" where
  "store_outcome v q status error parsed T =
    and_then (ensure (iv_state v = IvClaimed) (core_err ''LookupInvocationNotClaimed'')) (\<lambda>_.
    and_then (check_id (lp_event q)) (\<lambda>_.
    and_then (parse_counter (lp_stdin q)) (\<lambda>confirmed.
    and_then (insert_lookup_result \<lparr>lr_run = iv_run v, lr_ordinal = iv_ordinal v, lr_packet = iv_packet v,
        lr_event = lp_event q, lr_expected = iv_expected v, lr_text = lp_text q, lr_response = parsed,
        lr_binding = lp_binding q, lr_outcome = status, lr_stdin = confirmed, lr_usage = lp_usage q,
        lr_cleanup = lp_cleanup q, lr_error = error\<rparr> T) (\<lambda>T1.
    Inr (fst (set_invocation (iv_run v) (iv_ordinal v) IvClaimed (outcome_state status (lp_cleanup q) parsed) T1))))))"

definition seal_lookup_discussion ::
  "services \<Rightarrow> ustr \<Rightarrow> disc_run \<Rightarrow> ustr \<Rightarrow> ustr \<Rightarrow> ustr \<Rightarrow> disc_tables \<Rightarrow> (disc_run \<times> disc_tables) core_result" where
  "seal_lookup_discussion S new cur packet_id event_id t T =
    and_then (ensure (dr_status cur = Running) (core_err ''RunSealed'')) (\<lambda>_.
    and_then (validate_finish_request (run_owner_of cur) event_id t) (\<lambda>_.
    and_then (dr_sequence cur) (\<lambda>n.
    and_then (next_sequence n) (\<lambda>n'.
    and_then (insert_event \<lparr>ev_run = rn_id (dr_row cur), ev_sequence = n', ev_id = event_id,
        ev_kind = TerminalEvent, ev_text = t\<rparr> T) (\<lambda>T1.
    and_then (update_one (\<lambda>r. owned_row (run_owner_of cur) r \<and> rn_status r = Running \<and> rn_sequence r = n)
        (\<lambda>r. r\<lparr>rn_status := RunCompleted, rn_sequence := n', rn_output := t, rn_reason := None\<rparr>) ''SequenceConflict'' T1) (\<lambda>T2.
    and_then (insert_message \<lparr>mg_id = new, mg_thread = rn_thread (dr_row cur), mg_run = rn_id (dr_row cur),
        mg_role = AssistantMessage, mg_content = t, mg_packet = Some packet_id\<rparr> T2) (\<lambda>T3.
    and_then (read_run S T3 (rn_id (dr_row cur))) (\<lambda>r. Inr (r, T3)))))))))"

definition lookup_failure_reason :: "provider_outcome \<Rightarrow> provider_cleanup \<Rightarrow> ustr" where
  "lookup_failure_reason status cleanup =
    (if cleanup = Unresolved then u ''lookup_cleanup_unresolved''
     else case status of
       OutCompleted \<Rightarrow> u ''lookup_invalid_response''
     | OutStopped \<Rightarrow> u ''lookup_stopped''
     | OutTimedOut \<Rightarrow> u ''lookup_timed_out''
     | OutOutputLimit \<Rightarrow> u ''lookup_output_limit''
     | OutFailed \<Rightarrow> u ''lookup_failed'')"

text \<open>What the outcome of one invocation does to the run: a stop that was asked for wins over any response.\<close>

definition finish_invocation ::
  "services \<Rightarrow> ustr \<Rightarrow> lookup_report \<Rightarrow> disc_run \<Rightarrow> ustr \<Rightarrow> ustr option \<Rightarrow> lookup_envelope option
   \<Rightarrow> disc_tables \<Rightarrow> (disc_run \<times> disc_tables) core_result" where
  "finish_invocation S new q cur packet_id error parsed T =
    (let run = rn_id (dr_row cur); unresolved = lp_cleanup q = Unresolved in
     case parsed of
       None \<Rightarrow>
         (let why = lookup_failure_reason (lp_status q) (lp_cleanup q) in
          seal_run S new cur
            (if unresolved then Interrupted else if lp_status q = OutStopped then RunStopped else RunFailed)
            why (lp_event q) (case error of None \<Rightarrow> why | Some e \<Rightarrow> if e = [] then why else e)
            (mark_chain_stopped run T))
     | Some e \<Rightarrow>
         if dr_status cur = Stopping then
           seal_run S new cur (if unresolved then Interrupted else RunStopped)
             (if unresolved then u ''stop_cleanup_unresolved'' else u ''author_stopped'') (lp_event q)
             (if unresolved then STOP_UNRESOLVED_MESSAGE else STOP_SETTLED_MESSAGE) (mark_chain_stopped run T)
         else case e of
           DiscussionText v t \<Rightarrow> seal_lookup_discussion S new cur packet_id (lp_event q) t T
         | NeedsContext v rs \<Rightarrow> and_then (read_run S T run) (\<lambda>r. Inr (r, T)))"

definition settle_lookup_fresh ::
  "services \<Rightarrow> ustr \<Rightarrow> lookup_report \<Rightarrow> nat \<Rightarrow> disc_run \<Rightarrow> disc_tables \<Rightarrow> (disc_run \<times> disc_tables) core_result" where
  "settle_lookup_fresh S new q k cur T =
    and_then (ensure (dr_status cur = Running \<or> dr_status cur = Stopping) (core_err ''RunNotStarted'')) (\<lambda>_.
    and_then (read_identity T (lp_owner q) k) (\<lambda>v.
    and_then (packet_record S (iv_packet v)) (\<lambda>p.
    and_then (ensure (iv_state v = IvClaimed) (core_err ''LookupInvocationNotClaimed'')) (\<lambda>_.
    and_then (ensure (po_binding (pk_options p) = lp_binding q) (core_err ''ProviderBindingMismatch'')) (\<lambda>_.
    and_then (validate_lookup_provider_bytes S T v p q) (\<lambda>_.
    case lookup_response S (iv_packet v) q of (parsed, refused) \<Rightarrow>
    let error = (case lp_error q of Some e \<Rightarrow> Some e | None \<Rightarrow> refused);
        status = (if parsed = None \<and> lp_status q = OutCompleted then OutFailed else lp_status q) in
    and_then (store_outcome v q status error parsed T) (\<lambda>T1.
    finish_invocation S new q cur (iv_packet v) error parsed T1)))))))"

definition settle_lookup_tx ::
  "services \<Rightarrow> ustr \<Rightarrow> lookup_report \<Rightarrow> nat \<Rightarrow> disc_tables \<Rightarrow> (disc_run \<times> disc_tables) core_result" where
  "settle_lookup_tx S new q k T =
    and_then (find_owned S T (lp_owner q)) (\<lambda>cur.
    and_then (ensure (dr_lookup cur) (core_err ''LookupNotEnabled'')) (\<lambda>_.
    case find_lookup_result T (ow_run (lp_owner q)) k of
      Some saved \<Rightarrow> if lookup_result_matches saved q then Inr (cur, T) else Inl (core_err ''LookupResultConflict'')
    | None \<Rightarrow> settle_lookup_fresh S new q k cur T))"

section \<open>Advancing\<close>

text \<open>A saved result without a response is a \<open>NULL\<close> the query cannot read as a string.\<close>

definition pending_reads :: "disc_tables \<Rightarrow> ustr \<Rightarrow> nat \<Rightarrow> lookup_read list core_result" where
  "pending_reads T run k =
    and_then (ok_or (core_err ''LookupResponseMissing'') (find_lookup_result T run k)) (\<lambda>x.
    and_then (ok_or sql_error (lr_response x)) (\<lambda>e.
    case e of NeedsContext v rs \<Rightarrow> Inr rs | DiscussionText v t \<Rightarrow> Inl (core_err ''LookupAlreadyFinished'')))"

definition lookup_request_hash :: "env \<Rightarrow> lookup_read \<Rightarrow> ustr" where
  "lookup_request_hash E r = sha256_hex E (bytes (json_text E (lookup_read_json r)))"

definition lookup_value_hash :: "env \<Rightarrow> json \<Rightarrow> ustr" where
  "lookup_value_hash E v = sha256_hex E (bytes (json_text E v))"

definition store_read ::
  "env \<Rightarrow> run_owner \<Rightarrow> nat \<Rightarrow> lookup_read \<Rightarrow> json \<Rightarrow> bool \<Rightarrow> disc_tables \<Rightarrow> disc_tables core_result" where
  "store_read E ow k r value truncated T =
    and_then (read_identity T ow k) (\<lambda>v.
    and_then (ensure (iv_state v = IvNeedsContext) (core_err ''LookupReadUnavailable'')) (\<lambda>_.
    case find (\<lambda>x. ld_run x = ow_run ow \<and> ld_read x = lookup_read_id r) (lookup_reads T) of
      Some old \<Rightarrow>
        and_then (ensure (ld_request_hash old = lookup_request_hash E r \<and> ld_result_hash old = lookup_value_hash E value)
          (core_err ''LookupReadConflict'')) (\<lambda>_. Inr T)
    | None \<Rightarrow>
        if find_invocation T (ow_run ow) k = None \<or> iv_policy v < 0 then Inl sql_error
        else Inr (T\<lparr>lookup_reads := lookup_reads T @ [\<lparr>ld_run = ow_run ow, ld_ordinal = k, ld_read = lookup_read_id r,
               ld_request_hash = lookup_request_hash E r, ld_request = r, ld_result_hash = lookup_value_hash E value,
               ld_result = value, ld_snapshot = iv_snapshot v, ld_project = iv_project v, ld_namespace = iv_namespace v,
               ld_policy = iv_policy v, ld_truncated = truncated\<rparr>]\<rparr>)))"

text \<open>\<open>read_exchanges\<close>: the reads of the saved responses up to an ordinal with their stored results.\<close>

definition exchange_of :: "disc_tables \<Rightarrow> ustr \<Rightarrow> nat \<Rightarrow> lookup_read \<Rightarrow> lookup_exchange core_result" where
  "exchange_of T run k r =
    and_then (ok_or invalid_project
      (find (\<lambda>x. ld_run x = run \<and> ld_ordinal x = k \<and> ld_read x = lookup_read_id r) (lookup_reads T))) (\<lambda>x.
    Inr \<lparr>lx_request = r, lx_result = ld_result x\<rparr>)"

definition result_exchanges :: "disc_tables \<Rightarrow> lookup_result_row \<Rightarrow> lookup_exchange list core_result" where
  "result_exchanges T x =
    (case lr_response x of
       Some (NeedsContext v rs) \<Rightarrow> try_map (exchange_of T (lr_run x) (lr_ordinal x)) rs
     | _ \<Rightarrow> Inr [])"

definition read_exchanges :: "disc_tables \<Rightarrow> ustr \<Rightarrow> nat \<Rightarrow> lookup_exchange list core_result" where
  "read_exchanges T run k =
    and_then (try_map (result_exchanges T)
      (sort_key lr_ordinal (filter (\<lambda>x. lr_run x = run \<and> lr_ordinal x \<le> k) (lookup_results T)))) (\<lambda>xss.
    Inr (concat xss))"

text \<open>One read of the round: authorised, executed on the frozen story and stored.\<close>

definition read_round_step ::
  "services \<Rightarrow> run_owner \<Rightarrow> nat \<Rightarrow> lookup_input \<Rightarrow> frozen_ref \<Rightarrow> lookup_exchange list \<times> disc_tables \<Rightarrow> lookup_read
   \<Rightarrow> (lookup_exchange list \<times> disc_tables) core_result" where
  "read_round_step S ow k l fz a r =
    and_then (map_err (\<lambda>_. capability_error) (authorize_read l r)) (\<lambda>_.
    case execute_lookup S fz r of (value, truncated) \<Rightarrow>
    and_then (store_read (sv_env S) ow k r value truncated (snd a)) (\<lambda>T.
    Inr (fst a @ [\<lparr>lx_request = r, lx_result = value\<rparr>], T)))"

definition stop_lookup ::
  "services \<Rightarrow> ustr \<Rightarrow> disc_run \<Rightarrow> ustr \<Rightarrow> ustr \<Rightarrow> ustr \<Rightarrow> disc_tables
   \<Rightarrow> (lookup_advance \<times> disc_tables) core_result" where
  "stop_lookup S new cur why event_id note T =
    and_then (seal_run S new cur RunFailed why event_id note (mark_chain_stopped (rn_id (dr_row cur)) T)) (\<lambda>(r, T').
    Inr (LookupFinished r, T'))"

definition expand_lookup ::
  "services \<Rightarrow> run_owner \<Rightarrow> nat \<Rightarrow> disc_run \<Rightarrow> lookup_allowance \<Rightarrow> invocation_row \<Rightarrow> disc_tables
   \<Rightarrow> (lookup_advance \<times> disc_tables) core_result" where
  "expand_lookup S ow k cur a v T =
    and_then (packet_record S (iv_packet v)) (\<lambda>_.
    and_then (load_frozen S (iv_packet v) (iv_snapshot v)) (\<lambda>fz.
    and_then (pending_reads T (rn_id (dr_row cur)) k) (\<lambda>rs.
    and_then (ok_or capability_error (packet_lookup S (iv_packet v))) (\<lambda>l.
    and_then (map_err (\<lambda>_. capability_error) (validate_capability l)) (\<lambda>_.
    and_then (try_fold (read_round_step S ow k l fz) ([], T) rs) (\<lambda>(exchanges, T1).
    and_then (if k = 0 then Inr [] else read_exchanges T1 (rn_id (dr_row cur)) (k - 1)) (\<lambda>earlier.
    and_then (compile_child S (iv_packet v) fz
        \<lparr>li_allowance = a, li_completed = k + 1, li_exchanges = earlier @ exchanges, li_memory = li_memory l\<rparr>) (\<lambda>(child, p).
    and_then (insert_child S (rn_id (dr_row cur)) (k + 1) child fz (ow_namespace ow) a T1) (\<lambda>T2.
    and_then (read_run S T2 (rn_id (dr_row cur))) (\<lambda>r.
    Inr (LookupPrepared \<lparr>lq_run = r, lq_ordinal = show_nat (k + 1), lq_packet = p\<rparr>, T2)))))))))))"

text \<open>The allowance of the run is the one of its first invocation.\<close>

definition root_allowance :: "disc_tables \<Rightarrow> ustr \<Rightarrow> lookup_allowance option" where
  "root_allowance T run = map_option iv_allowance (find_invocation T run 0)"

definition advance_lookup_tx ::
  "services \<Rightarrow> ustr \<Rightarrow> run_owner \<Rightarrow> nat \<Rightarrow> int \<Rightarrow> disc_tables \<Rightarrow> (lookup_advance \<times> disc_tables) core_result" where
  "advance_lookup_tx S new ow k epoch T =
    and_then (find_owned S T ow) (\<lambda>cur.
    and_then (ok_or (core_err ''LookupNotEnabled'') (root_allowance T (rn_id (dr_row cur)))) (\<lambda>a.
    and_then (ensure (dr_status cur = Running) (core_err ''RunSealed'')) (\<lambda>_.
    and_then (read_identity T ow k) (\<lambda>v.
    and_then (ensure (iv_state v = IvNeedsContext) (core_err ''LookupExpansionUnavailable'')) (\<lambda>_.
    if min 255 (unat (la_extra a) + 1) \<le> k \<or> 2 \<le> k then
      stop_lookup S new cur (u ''lookup_limit'') (u ''lookup-limit-'' @ show_nat k)
        (u ''This lookup request reached its bounded context-expansion limit.'') T
    else if iv_source v \<noteq> epoch then
      stop_lookup S new cur (u ''context_stale'') (u ''lookup-stale-'' @ show_nat k)
        (u ''The story changed before the next lookup request; no new provider call was made.'') T
    else expand_lookup S ow k cur a v T)))))"

section \<open>Halting\<close>

definition halt_lookup_tx :: "services \<Rightarrow> ustr \<Rightarrow> run_owner \<Rightarrow> ustr \<Rightarrow> disc_tables \<Rightarrow> (disc_run \<times> disc_tables) core_result" where
  "halt_lookup_tx S new ow why T =
    and_then (find_owned S T ow) (\<lambda>cur.
    and_then (ensure (dr_lookup cur) (core_err ''LookupNotEnabled'')) (\<lambda>_.
    if terminal_status (dr_status cur) then Inr (cur, T)
    else seal_run S new cur Interrupted (u ''lookup_halted'') (u ''lookup-halt-'' @ show_int (rn_sequence (dr_row cur))) why
           (mark_chain_stopped (rn_id (dr_row cur)) T)))"

end
