(* ===== verification/Discussion_Host.thy ===== *)
theory Discussion_Host
  imports Discussion_Lookup
begin

text \<open>
  Starting a discussion (story/src/discussion_vocabulary.rs, \<open>validate_start\<close> and
  \<open>start_discussion_at\<close> of crates/conversation around the packet compiler) and the actor side of
  every discussion command: \<open>handle_discussion\<close> over the project actor and the discussion tables.
\<close>

section \<open>Start requests\<close>

datatype feedback_intent = IntentDiscuss | ProposeEdits | IntentContinue | WorkshopExplore

datatype start_basis = StartWorking | StartReviewed | StartExplicitHistory

record scope_input =
  si_kind :: scope_kind
  si_start :: "endpoint option"
  si_end :: "endpoint option"
  si_quote :: ustr
  si_hash :: ustr

record brief_origin =
  bo_version :: ustr
  bo_project :: ustr
  bo_namespace :: ustr
  bo_conversation :: ustr
  bo_message :: ustr
  bo_target :: head
  bo_scope_hash :: ustr
  bo_text_hash :: ustr

record safe_brief =
  sb_text :: ustr
  sb_origin :: "ustr option"
  sb_confirmed :: bool
  sb_project :: "brief_origin option"

record context_budget =
  cb_model :: ustr
  cb_window :: ustr
  cb_output :: ustr
  cb_protocol :: ustr

record start_request =
  st_access :: project_access
  st_operation :: ustr
  st_expected :: head
  st_instruction :: ustr
  st_intent :: feedback_intent
  st_basis :: "start_basis option"
  st_scope :: "scope_input option"
  st_pinned :: "ustr list"
  st_brief :: "safe_brief option"
  st_budget :: context_budget
  st_binding :: "provider_binding option"
  st_previous :: "ustr option"
  st_lookup :: "lookup_allowance option"

definition MAX_INSTRUCTION_BYTES :: nat where "MAX_INSTRUCTION_BYTES = 64 * 1024"
definition MAX_SCOPE_QUOTE_BYTES :: nat where "MAX_SCOPE_QUOTE_BYTES = 256 * 1024"
definition MAX_PINNED_DOCUMENTS :: nat where "MAX_PINNED_DOCUMENTS = 64"
definition MAX_SAFE_BRIEF_BYTES :: nat where "MAX_SAFE_BRIEF_BYTES = 16 * 1024"

subsection \<open>The hashed payload\<close>

fun intent_text :: "feedback_intent \<Rightarrow> ustr" where
  "intent_text IntentDiscuss = u ''discuss''"
| "intent_text ProposeEdits = u ''proposeEdits''"
| "intent_text IntentContinue = u ''continue''"
| "intent_text WorkshopExplore = u ''workshopExplore''"

fun basis_label :: "start_basis \<Rightarrow> ustr" where
  "basis_label StartWorking = u ''working''"
| "basis_label StartReviewed = u ''reviewed''"
| "basis_label StartExplicitHistory = u ''explicitHistory''"

fun scope_kind_text :: "scope_kind \<Rightarrow> ustr" where
  "scope_kind_text Passage = u ''passage''"
| "scope_kind_text Blocks = u ''blocks''"
| "scope_kind_text WholeDocument = u ''wholeDocument''"
| "scope_kind_text Append = u ''append''"

definition endpoint_json :: "endpoint \<Rightarrow> json" where
  "endpoint_json e = JObj [(u ''blockId'', JStr (block_id_of e)),
     (u ''utf16Offset'', JNum (PosInt (word_of_nat (utf16_offset e))))]"

definition scope_input_json :: "scope_input \<Rightarrow> json" where
  "scope_input_json x = JObj [(u ''kind'', JStr (scope_kind_text (si_kind x))), (u ''start'', json_or_null endpoint_json (si_start x)),
     (u ''end'', json_or_null endpoint_json (si_end x)), (u ''quote'', JStr (si_quote x)), (u ''sourceBodyHash'', JStr (si_hash x))]"

definition brief_origin_json :: "brief_origin \<Rightarrow> json" where
  "brief_origin_json b = JObj [(u ''version'', JStr (bo_version b)), (u ''projectId'', JStr (bo_project b)),
     (u ''operationNamespace'', JStr (bo_namespace b)), (u ''conversationId'', JStr (bo_conversation b)),
     (u ''messageId'', JStr (bo_message b)), (u ''target'', head_json (bo_target b)),
     (u ''scopeHash'', JStr (bo_scope_hash b)), (u ''textHash'', JStr (bo_text_hash b))]"

definition safe_brief_json :: "safe_brief \<Rightarrow> json" where
  "safe_brief_json b = JObj ([(u ''text'', JStr (sb_text b)), (u ''originMessageId'', json_or_null JStr (sb_origin b)),
     (u ''confirmed'', JBool (sb_confirmed b))] @ entry_if ''projectOrigin'' brief_origin_json (sb_project b))"

definition budget_json :: "context_budget \<Rightarrow> json" where
  "budget_json b = JObj [(u ''modelId'', JStr (cb_model b)), (u ''contextWindowTokens'', JStr (cb_window b)),
     (u ''reservedOutputTokens'', JStr (cb_output b)), (u ''reservedProtocolTokens'', JStr (cb_protocol b))]"

definition start_request_json :: "start_request \<Rightarrow> json" where
  "start_request_json q = JObj ([(u ''access'', access_json (st_access q)), (u ''operationId'', JStr (st_operation q)),
      (u ''expected'', head_json (st_expected q)), (u ''instruction'', JStr (st_instruction q))]
     @ (if st_intent q = IntentDiscuss then [] else [(u ''intent'', JStr (intent_text (st_intent q)))])
     @ entry_if ''basis'' (\<lambda>b. JStr (basis_label b)) (st_basis q)
     @ [(u ''scope'', json_or_null scope_input_json (st_scope q)), (u ''pinnedDocumentIds'', JArr (map JStr (st_pinned q)))]
     @ entry_if ''safeBrief'' safe_brief_json (st_brief q)
     @ [(u ''budget'', budget_json (st_budget q))]
     @ entry_if ''providerBinding'' binding_json (st_binding q)
     @ [(u ''previousRunId'', json_or_null JStr (st_previous q))]
     @ entry_if ''lookup'' allowance_json (st_lookup q))"

subsection \<open>Checks\<close>

definition validate_feedback_basis :: "feedback_intent \<Rightarrow> start_basis option \<Rightarrow> scope_input option \<Rightarrow> unit core_result" where
  "validate_feedback_basis intent basis sel =
    ensure (case intent of
        IntentContinue \<Rightarrow> (basis = Some StartWorking \<or> basis = Some StartReviewed) \<and> sel = None
      | WorkshopExplore \<Rightarrow> basis = None \<and> sel = None
      | _ \<Rightarrow> basis = None \<and> (case sel of None \<Rightarrow> True | Some x \<Rightarrow> si_kind x \<noteq> Append))
      (core_err ''InvalidContinuationBasis'')"

definition validate_lookup_request :: "feedback_intent \<Rightarrow> start_basis option \<Rightarrow> lookup_allowance option \<Rightarrow> unit core_result" where
  "validate_lookup_request intent basis lookup =
    (case lookup of
       None \<Rightarrow> Inr ()
     | Some a \<Rightarrow>
         and_then (ensure (\<not> (intent \<noteq> IntentDiscuss \<or> (case basis of None \<Rightarrow> False | Some b \<Rightarrow> b \<noteq> StartWorking)))
           (core_err ''UnsupportedContextTools'')) (\<lambda>_.
         validate_allowance a))"

definition invalid_brief :: core_error where "invalid_brief = core_err ''InvalidSafeBrief''"

definition validate_safe_brief_shape :: "safe_brief \<Rightarrow> unit core_result" where
  "validate_safe_brief_shape b =
    and_then (ensure (\<not> MAX_SAFE_BRIEF_BYTES < blen (sb_text b)) invalid_brief) (\<lambda>_.
    and_then (ensure (case sb_origin b of None \<Rightarrow> True | Some i \<Rightarrow> valid_id i) invalid_brief) (\<lambda>_.
    and_then (ensure (case sb_project b of
        None \<Rightarrow> True
      | Some x \<Rightarrow> bo_version x = u ''project-conversation-brief.v1'' \<and> bo_project x \<noteq> [] \<and> bo_namespace x \<noteq> []
          \<and> bo_conversation x \<noteq> [] \<and> bo_message x \<noteq> [] \<and> valid_hash (bo_scope_hash x) \<and> valid_hash (bo_text_hash x))
      invalid_brief) (\<lambda>_.
    ensure (case sb_origin b of
        None \<Rightarrow> True
      | Some i \<Rightarrow> (case sb_project b of None \<Rightarrow> True | Some x \<Rightarrow> bo_message x = i)) invalid_brief)))"

definition validate_safe_brief_start :: "start_request \<Rightarrow> unit core_result" where
  "validate_safe_brief_start q =
    (case st_brief q of
       None \<Rightarrow> Inr ()
     | Some b \<Rightarrow>
         and_then (validate_safe_brief_shape b) (\<lambda>_.
         and_then (ensure (\<not> (trim (sb_text b) = [] \<or> \<not> sb_confirmed b)) invalid_brief) (\<lambda>_.
         ensure (st_intent q = IntentContinue
           \<or> (st_intent q = ProposeEdits
              \<and> (case st_scope q of None \<Rightarrow> False | Some x \<Rightarrow> si_kind x = Passage \<or> si_kind x = Blocks \<or> si_kind x = WholeDocument)))
           invalid_brief)))"

text \<open>
  \<open>cp_metadata\<close> is \<open>metadata_from_instruction\<close>; \<open>cp_packet\<close> stands for the middle of
  \<open>start_discussion_at\<close> (brief origin, retry guidance, context freeze, scope capture and
  \<open>compile_packet\<close> with \<open>insert_packet\<close>): the identifier of the packet it stores;
  \<open>cp_reopen\<close> is the packet \<open>read_start\<close> returns with a repeated request.
\<close>

record compiler =
  cp_metadata :: "ustr \<Rightarrow> unit core_result"
  cp_packet :: "start_request \<Rightarrow> db \<times> disc_tables \<Rightarrow> ustr core_result"
  cp_reopen :: "ustr \<Rightarrow> packet core_result"

definition validate_start :: "services \<Rightarrow> compiler \<Rightarrow> start_request \<Rightarrow> unit core_result" where
  "validate_start S C q =
    and_then (validate_feedback_basis (st_intent q) (st_basis q) (st_scope q)) (\<lambda>_.
    and_then (validate_lookup_request (st_intent q) (st_basis q) (st_lookup q)) (\<lambda>_.
    and_then (check_id (st_operation q)) (\<lambda>_.
    and_then (check_id (document_id (st_expected q))) (\<lambda>_.
    and_then (ensure (\<not> (trim (st_instruction q) = [] \<or> MAX_INSTRUCTION_BYTES < blen (st_instruction q))) (core_err ''InvalidRequest'')) (\<lambda>_.
    and_then (ensure (\<not> MAX_PINNED_DOCUMENTS < length (st_pinned q)) (core_err ''InvalidRequest'')) (\<lambda>_.
    and_then (try_each check_id (st_pinned q)) (\<lambda>_.
    and_then (case st_previous q of None \<Rightarrow> Inr () | Some i \<Rightarrow> check_id i) (\<lambda>_.
    and_then (case st_binding q of
        None \<Rightarrow> Inr ()
      | Some b \<Rightarrow>
          and_then (ensure (validate_binding (sv_vendor S) (sv_env S) b) (core_err ''InvalidProviderBinding'')) (\<lambda>_.
          ensure (\<not> (is_http b \<and> st_lookup q \<noteq> None)) (core_err ''UnsupportedProviderFeature''))) (\<lambda>_.
    and_then (case st_scope q of
        None \<Rightarrow> Inr ()
      | Some x \<Rightarrow> ensure (\<not> (MAX_SCOPE_QUOTE_BYTES < blen (si_quote x) \<or> \<not> valid_hash (si_hash x))) (core_err ''InvalidScope'')) (\<lambda>_.
    and_then (validate_safe_brief_start q) (\<lambda>_.
    if st_intent q = WorkshopExplore then
      and_then (ensure (st_previous q = None \<and> st_lookup q = None \<and> st_brief q = None) (core_err ''InvalidWorkshop'')) (\<lambda>_.
      cp_metadata C (st_instruction q))
    else Inr ())))))))))))"

section \<open>Starting a run\<close>

record fresh_ids =
  fi_thread :: ustr
  fi_run :: ustr
  fi_message :: ustr

record discussion_start =
  ds_thread :: ustr
  ds_run :: disc_run
  ds_message :: message_row

definition existing_operation :: "disc_tables \<Rightarrow> project_access \<Rightarrow> ustr \<Rightarrow> run_row option" where
  "existing_operation T a i =
    find (\<lambda>r. rn_project r = project_id a \<and> rn_namespace r = operation_namespace a \<and> rn_operation r = i) (run_rows T)"

definition read_message :: "disc_tables \<Rightarrow> ustr \<Rightarrow> message_row core_result" where
  "read_message T i = ok_or (core_err ''DiscussionMessageNotFound'') (find (\<lambda>m. mg_id m = i) (messages T))"

definition find_thread :: "disc_tables \<Rightarrow> project_access \<Rightarrow> ustr \<Rightarrow> thread_row option" where
  "find_thread T a doc =
    find (\<lambda>h. th_project h = project_id a \<and> th_namespace h = operation_namespace a \<and> th_document h = doc) (threads T)"

definition ensure_thread :: "ustr \<Rightarrow> db \<Rightarrow> project_access \<Rightarrow> ustr \<Rightarrow> disc_tables \<Rightarrow> (ustr \<times> disc_tables) core_result" where
  "ensure_thread new D a doc T =
    (case find_thread T a doc of
       Some h \<Rightarrow> Inr (th_id h, T)
     | None \<Rightarrow>
         if new \<in> th_id ` set (threads T) \<or> doc \<notin> d_id ` set (documents D) then Inl sql_error
         else Inr (new, T\<lparr>threads := threads T @ [\<lparr>th_id = new, th_project = project_id a,
                th_namespace = operation_namespace a, th_document = doc\<rparr>]\<rparr>))"

text \<open>The insertion with the constraints of its table and the trigger on local command receipts.\<close>

definition insert_run :: "db \<Rightarrow> run_row \<Rightarrow> disc_tables \<Rightarrow> disc_tables core_result" where
  "insert_run D r T =
    (if rn_id r \<in> rn_id ` set (run_rows T) \<or> rn_thread r \<notin> th_id ` set (threads T)
        \<or> (rn_project r, rn_namespace r, rn_operation r) \<in> (\<lambda>x. (rn_project x, rn_namespace x, rn_operation x)) ` set (run_rows T)
        \<or> rn_document r \<notin> d_id ` set (documents D) \<or> rn_version r < 0
        \<or> (case rn_previous r of None \<Rightarrow> False | Some i \<Rightarrow> i \<notin> rn_id ` set (run_rows T))
        \<or> (rn_namespace r, rn_operation r) \<in> (\<lambda>c. (c_namespace c, c_operation c)) ` set (command_receipts D)
     then Inl sql_error else Inr (T\<lparr>run_rows := run_rows T @ [r]\<rparr>))"

definition new_run :: "start_request \<Rightarrow> ustr \<Rightarrow> fresh_ids \<Rightarrow> ustr \<Rightarrow> ustr \<Rightarrow> int \<Rightarrow> run_row" where
  "new_run q payload F thread packet_id v =
    \<lparr>rn_id = fi_run F, rn_thread = thread, rn_project = project_id (st_access q),
     rn_namespace = operation_namespace (st_access q), rn_operation = st_operation q, rn_payload = payload,
     rn_document = document_id (st_expected q), rn_version = v, rn_hash = body_hash (st_expected q),
     rn_packet = packet_id, rn_previous = st_previous q, rn_status = Queued, rn_dispatch = PendingDispatch,
     rn_sequence = 0, rn_output = [], rn_reason = None\<rparr>"

definition start_fresh ::
  "services \<Rightarrow> compiler \<Rightarrow> fresh_ids \<Rightarrow> start_request \<Rightarrow> ustr \<Rightarrow> db \<times> disc_tables
   \<Rightarrow> (discussion_start \<times> (db \<times> disc_tables)) core_result" where
  "start_fresh S C F q payload W =
    and_then (cp_packet C q W) (\<lambda>packet_id.
    and_then (ensure_thread (fi_thread F) (fst W) (st_access q) (document_id (st_expected q)) (snd W)) (\<lambda>(thread, T1).
    and_then (parse_version (version (st_expected q))) (\<lambda>v.
    and_then (insert_run (fst W) (new_run q payload F thread packet_id v) T1) (\<lambda>T2.
    and_then (case st_lookup q of
        None \<Rightarrow> Inr T2
      | Some a \<Rightarrow> insert_initial S (fi_run F) packet_id (packet_frozen S packet_id)
                    (operation_namespace (st_access q)) a T2) (\<lambda>T3.
    and_then (insert_message \<lparr>mg_id = fi_message F, mg_thread = thread, mg_run = fi_run F, mg_role = UserMessage,
        mg_content = st_instruction q, mg_packet = Some packet_id\<rparr> T3) (\<lambda>T4.
    and_then (read_run S T4 (fi_run F)) (\<lambda>r.
    and_then (read_message T4 (fi_message F)) (\<lambda>m.
    Inr (\<lparr>ds_thread = thread, ds_run = r, ds_message = m\<rparr>,
         (fst W)\<lparr>generation_operations := generation_operations (fst W)
             @ [(operation_namespace (st_access q), st_operation q)]\<rparr>, T4)))))))))"

definition read_start :: "services \<Rightarrow> compiler \<Rightarrow> disc_tables \<Rightarrow> ustr \<Rightarrow> discussion_start core_result" where
  "read_start S C T i =
    and_then (read_run S T i) (\<lambda>r.
    and_then (ok_or sql_error (find (\<lambda>m. mg_run m = i \<and> mg_role m = UserMessage) (messages T))) (\<lambda>m.
    and_then (cp_reopen C (rn_packet (dr_row r))) (\<lambda>_.
    Inr \<lparr>ds_thread = rn_thread (dr_row r), ds_run = r, ds_message = m\<rparr>)))"

definition start_tx ::
  "services \<Rightarrow> compiler \<Rightarrow> fresh_ids \<Rightarrow> start_request \<Rightarrow> ustr \<Rightarrow> db \<times> disc_tables
   \<Rightarrow> (discussion_start \<times> (db \<times> disc_tables)) core_result" where
  "start_tx S C F q payload W =
    (case existing_operation (snd W) (st_access q) (st_operation q) of
       Some old \<Rightarrow>
         and_then (ensure (rn_payload old = payload) (core_err ''OperationIdReusedWithDifferentPayload'')) (\<lambda>_.
         and_then (read_start S C (snd W) (rn_id old)) (\<lambda>d. Inr (d, W)))
     | None \<Rightarrow> start_fresh S C F q payload W)"

section \<open>The actor side\<close>

text \<open>The actor with the tables its connection reads and writes besides the store.\<close>

type_synonym host = "actor \<times> disc_tables"

definition host_tx :: "turn \<Rightarrow> (disc_tables \<Rightarrow> ('a \<times> disc_tables) core_result) \<Rightarrow> host \<Rightarrow> 'a core_result \<times> host" where
  "host_tx t f H =
    (if \<not> connected (fst H) then (Inl sql_error, H)
     else case in_tx (tx t) (snd H) f of (r, T) \<Rightarrow> (r, fst H, T))"

definition host_store_tx ::
  "turn \<Rightarrow> (db \<times> disc_tables \<Rightarrow> ('a \<times> (db \<times> disc_tables)) core_result) \<Rightarrow> host \<Rightarrow> 'a core_result \<times> host" where
  "host_store_tx t f H =
    (if \<not> connected (fst H) then (Inl sql_error, H)
     else case in_tx (tx t) (store (fst H), snd H) f of (r, D, T) \<Rightarrow> (r, (fst H)\<lparr>store := D\<rparr>, T))"

definition after_host_checks :: "'a core_result \<Rightarrow> ('a \<Rightarrow> 'b core_result \<times> host) \<Rightarrow> host \<Rightarrow> 'b core_result \<times> host" where
  "after_host_checks c f H = (case c of Inl e \<Rightarrow> (Inl e, H) | Inr x \<Rightarrow> f x)"

definition source_epoch_of :: "actor \<Rightarrow> int core_result" where
  "source_epoch_of P = (case project_rows (store P) of None \<Rightarrow> Inl sql_error | Some p \<Rightarrow> Inr (p_epoch p))"

definition start_discussion ::
  "services \<Rightarrow> compiler \<Rightarrow> turn \<Rightarrow> fresh_ids \<Rightarrow> start_request \<Rightarrow> host \<Rightarrow> discussion_start core_result \<times> host" where
  "start_discussion S C t F q H =
    after_host_checks
      (and_then (check_access (fst H) (st_access q)) (\<lambda>_.
       and_then (validate_start S C q) (\<lambda>_. Inr (logical_hash (sv_env S) (start_request_json q)))))
      (\<lambda>payload. host_store_tx t (start_tx S C F q payload) H) H"

definition begin_discussion_run :: "services \<Rightarrow> turn \<Rightarrow> run_owner \<Rightarrow> host \<Rightarrow> (disc_run \<times> packet) core_result \<times> host" where
  "begin_discussion_run S t ow H =
    after_host_checks
      (and_then (check_owner_ids ow) (\<lambda>_. validate_runtime_owner (info (fst H)) ow))
      (\<lambda>_. case host_tx t (begin_tx S (source_epoch_of (fst H)) (new_first t) ow) H of
         (r, H') \<Rightarrow> (and_then r id, H')) H"

definition mark_discussion_delivered :: "services \<Rightarrow> turn \<Rightarrow> run_owner \<Rightarrow> host \<Rightarrow> disc_run core_result \<times> host" where
  "mark_discussion_delivered S t ow H =
    after_host_checks
      (and_then (check_owner_ids ow) (\<lambda>_. validate_runtime_owner (info (fst H)) ow))
      (\<lambda>_. host_tx t (delivered_tx S ow) H) H"

definition append_discussion_output :: "services \<Rightarrow> turn \<Rightarrow> output_append \<Rightarrow> host \<Rightarrow> disc_run core_result \<times> host" where
  "append_discussion_output S t q H =
    after_host_checks
      (and_then (validate_output_event (ap_owner q) (ap_event q) (ap_chunk q)) (\<lambda>_.
       and_then (validate_runtime_owner (info (fst H)) (ap_owner q)) (\<lambda>_.
       parse_version (ap_expected q))))
      (\<lambda>expected. host_tx t (append_tx S q expected) H) H"

definition finish_discussion :: "services \<Rightarrow> turn \<Rightarrow> finish_request \<Rightarrow> host \<Rightarrow> disc_run core_result \<times> host" where
  "finish_discussion S t q H =
    after_host_checks
      (and_then (validate_finish_request (fq_owner q) (fq_event q) (fq_text q)) (\<lambda>_.
       and_then (validate_runtime_owner (info (fst H)) (fq_owner q)) (\<lambda>_.
       parse_version (fq_expected q))))
      (\<lambda>expected. host_tx t (finish_tx S (new_first t) q expected) H) H"

definition fail_checks :: "project_info \<Rightarrow> fail_request \<Rightarrow> int core_result" where
  "fail_checks i q =
    and_then (try_each check_id [ow_project (fl_owner q), ow_namespace (fl_owner q)]) (\<lambda>_.
    and_then (validate_runtime_owner i (fl_owner q)) (\<lambda>_.
    and_then (try_each check_id [fl_event q, ow_run (fl_owner q)]) (\<lambda>_.
    and_then (parse_version (fl_expected q)) (\<lambda>expected.
    and_then (ensure (\<not> (trim (fl_reason q) = [] \<or> MAX_EVENT_BYTES < blen (trim (fl_reason q)))) (core_err ''InvalidRequest'')) (\<lambda>_.
    and_then (ensure (\<not> MAX_EVENT_BYTES < blen (failure_text (trim (fl_reason q)))) (core_err ''InvalidRequest'')) (\<lambda>_.
    Inr expected))))))"

definition fail_discussion_run :: "services \<Rightarrow> turn \<Rightarrow> fail_request \<Rightarrow> host \<Rightarrow> disc_run core_result \<times> host" where
  "fail_discussion_run S t q H =
    after_host_checks (fail_checks (info (fst H)) q)
      (\<lambda>expected. host_tx t (fail_tx S (new_first t) q expected) H) H"

definition stop_discussion :: "services \<Rightarrow> turn \<Rightarrow> project_access \<Rightarrow> ustr \<Rightarrow> host \<Rightarrow> disc_run core_result \<times> host" where
  "stop_discussion S t a run H =
    after_host_checks
      (and_then (check_access (fst H) a) (\<lambda>_. check_id run))
      (\<lambda>_. host_tx t (stop_tx S (new_first t) a run) H) H"

definition settle_discussion_stop :: "services \<Rightarrow> turn \<Rightarrow> settle_request \<Rightarrow> host \<Rightarrow> disc_run core_result \<times> host" where
  "settle_discussion_stop S t q H =
    after_host_checks
      (and_then (validate_settlement_request (sq_owner q) (sq_event q) (sq_text q)) (\<lambda>_.
       and_then (validate_runtime_owner (info (fst H)) (sq_owner q)) (\<lambda>_.
       parse_version (sq_expected q))))
      (\<lambda>expected. host_tx t (settle_tx S (new_first t) q expected) H) H"

definition settle_provider_discussion ::
  "services \<Rightarrow> turn \<Rightarrow> provider_report \<Rightarrow> host \<Rightarrow> (disc_run \<times> result_row) core_result \<times> host" where
  "settle_provider_discussion S t q H =
    after_host_checks
      (and_then (validate_provider_report_shape S q) (\<lambda>_.
       and_then (validate_runtime_owner (info (fst H)) (rp_owner q)) (\<lambda>_.
       and_then (parse_version (rp_expected q)) (\<lambda>expected.
       and_then (parse_decimal_u64 (rp_stdin q)) (\<lambda>confirmed. Inr (expected, confirmed))))))
      (\<lambda>(expected, confirmed). host_tx t (settle_provider_tx S (new_first t) q expected confirmed) H) H"

definition claim_app_server_dispatch :: "services \<Rightarrow> turn \<Rightarrow> run_owner \<Rightarrow> app_dispatch \<Rightarrow> host \<Rightarrow> unit core_result \<times> host" where
  "claim_app_server_dispatch S t ow d H =
    after_host_checks
      (and_then (validate_runtime_owner (info (fst H)) ow) (\<lambda>_. ensure (dispatch_is_valid d) app_delivery_error))
      (\<lambda>_. host_tx t (claim_app_server_tx S (source_epoch_of (fst H)) ow d) H) H"

definition acknowledge_app_server_turn ::
  "services \<Rightarrow> turn \<Rightarrow> run_owner \<Rightarrow> app_dispatch \<Rightarrow> ustr \<Rightarrow> host \<Rightarrow> unit core_result \<times> host" where
  "acknowledge_app_server_turn S t ow d turn_id H =
    after_host_checks
      (and_then (validate_runtime_owner (info (fst H)) ow) (\<lambda>_.
       and_then (ensure (dispatch_is_valid d) app_delivery_error) (\<lambda>_.
       ensure (valid_identifier turn_id) (core_err ''InvalidRequest''))))
      (\<lambda>_. host_tx t (acknowledge_tx S ow d turn_id) H) H"

definition interrupt_discussion :: "services \<Rightarrow> turn \<Rightarrow> project_access \<Rightarrow> ustr \<Rightarrow> host \<Rightarrow> disc_run core_result \<times> host" where
  "interrupt_discussion S t a run H =
    after_host_checks
      (and_then (check_access (fst H) a) (\<lambda>_. check_id run))
      (\<lambda>_. host_tx t (interrupt_tx S (new_first t) a run) H) H"

definition recover_interrupted_discussions ::
  "services \<Rightarrow> turn \<Rightarrow> (ustr \<Rightarrow> ustr) \<Rightarrow> host \<Rightarrow> nat core_result \<times> host" where
  "recover_interrupted_discussions S t fresh H =
    (case host_tx t (recover_tx S fresh) H of
       (r, H') \<Rightarrow> (and_then r (\<lambda>n. if n < 2 ^ 32 then Inr n else Inl invalid_project), H'))"

definition claim_lookup_invocation ::
  "services \<Rightarrow> turn \<Rightarrow> run_owner \<Rightarrow> ustr \<Rightarrow> host \<Rightarrow> lookup_dispatch core_result \<times> host" where
  "claim_lookup_invocation S t ow ordinal H =
    after_host_checks
      (and_then (check_owner_ids ow) (\<lambda>_.
       and_then (validate_runtime_owner (info (fst H)) ow) (\<lambda>_.
       parse_lookup_ordinal ordinal)))
      (\<lambda>k. case host_tx t (claim_lookup_tx S (source_epoch_of (fst H)) (new_first t) ow k) H of
         (r, H') \<Rightarrow> (and_then r id, H')) H"

definition settle_lookup_invocation :: "services \<Rightarrow> turn \<Rightarrow> lookup_report \<Rightarrow> host \<Rightarrow> disc_run core_result \<times> host" where
  "settle_lookup_invocation S t q H =
    after_host_checks
      (and_then (validate_lookup_report_shape q) (\<lambda>_.
       and_then (validate_runtime_owner (info (fst H)) (lp_owner q)) (\<lambda>_.
       parse_lookup_ordinal (lp_ordinal q))))
      (\<lambda>k. host_tx t (settle_lookup_tx S (new_first t) q k) H) H"

definition advance_lookup ::
  "services \<Rightarrow> turn \<Rightarrow> run_owner \<Rightarrow> ustr \<Rightarrow> host \<Rightarrow> lookup_advance core_result \<times> host" where
  "advance_lookup S t ow completed H =
    after_host_checks
      (and_then (check_owner_ids ow) (\<lambda>_.
       and_then (validate_runtime_owner (info (fst H)) ow) (\<lambda>_.
       and_then (parse_lookup_ordinal completed) (\<lambda>k.
       and_then (source_epoch_of (fst H)) (\<lambda>epoch. Inr (k, epoch))))))
      (\<lambda>(k, epoch). host_tx t (advance_lookup_tx S (new_first t) ow k epoch) H) H"

definition halt_lookup :: "services \<Rightarrow> turn \<Rightarrow> run_owner \<Rightarrow> ustr \<Rightarrow> host \<Rightarrow> disc_run core_result \<times> host" where
  "halt_lookup S t ow why H =
    after_host_checks
      (and_then (check_owner_ids ow) (\<lambda>_.
       and_then (validate_runtime_owner (info (fst H)) ow) (\<lambda>_.
       ensure (\<not> (trim why = [] \<or> 4096 < blen why)) (core_err ''InvalidRequest''))))
      (\<lambda>_. host_tx t (halt_lookup_tx S (new_first t) ow why) H) H"

definition read_discussion_run :: "services \<Rightarrow> run_owner \<Rightarrow> host \<Rightarrow> disc_run core_result" where
  "read_discussion_run S ow H =
    and_then (validate_runtime_owner (info (fst H)) ow) (\<lambda>_.
    and_then (if connected (fst H) then Inr (snd H) else Inl sql_error) (\<lambda>T. find_owned S T ow))"

section \<open>The discussion commands\<close>

datatype disc_command =
    DClaimAppServer run_owner app_dispatch
  | DAckAppServer run_owner app_dispatch ustr
  | DStart start_request
  | DBegin run_owner
  | DMarkDelivered run_owner
  | DAppend output_append
  | DFinish finish_request
  | DFail fail_request
  | DStop project_access ustr
  | DSettleStop settle_request
  | DSettleProvider provider_report
  | DClaimLookup run_owner ustr
  | DSettleLookup lookup_report
  | DAdvanceLookup run_owner ustr
  | DHaltLookup run_owner ustr
  | DReadRun run_owner

datatype disc_reply =
    DUnit
  | DStarted discussion_start
  | DDispatch disc_run packet
  | DRun disc_run
  | DSettlement disc_run result_row
  | DLookupDispatch lookup_dispatch
  | DLookupAdvance lookup_advance

text \<open>\<open>mutate!\<close>: the result fences the actor before it is sent.\<close>

definition mutate :: "('a \<Rightarrow> disc_reply) \<Rightarrow> 'a core_result \<times> host \<Rightarrow> disc_reply core_result \<times> host" where
  "mutate f o' = (case o' of (r, P, T) \<Rightarrow> (and_then r (\<lambda>x. Inr (f x)), fence_uncertain r P, T))"

fun handle_discussion ::
  "services \<Rightarrow> compiler \<Rightarrow> turn \<Rightarrow> fresh_ids \<Rightarrow> disc_command \<Rightarrow> host \<Rightarrow> disc_reply core_result \<times> host" where
  "handle_discussion S C t F (DClaimAppServer ow d) H = mutate (\<lambda>_. DUnit) (claim_app_server_dispatch S t ow d H)"
| "handle_discussion S C t F (DAckAppServer ow d i) H = mutate (\<lambda>_. DUnit) (acknowledge_app_server_turn S t ow d i H)"
| "handle_discussion S C t F (DStart q) H = mutate DStarted (start_discussion S C t F q H)"
| "handle_discussion S C t F (DBegin ow) H = mutate (\<lambda>(r, p). DDispatch r p) (begin_discussion_run S t ow H)"
| "handle_discussion S C t F (DMarkDelivered ow) H = mutate DRun (mark_discussion_delivered S t ow H)"
| "handle_discussion S C t F (DAppend q) H = mutate DRun (append_discussion_output S t q H)"
| "handle_discussion S C t F (DFinish q) H = mutate DRun (finish_discussion S t q H)"
| "handle_discussion S C t F (DFail q) H = mutate DRun (fail_discussion_run S t q H)"
| "handle_discussion S C t F (DStop a run) H = mutate DRun (stop_discussion S t a run H)"
| "handle_discussion S C t F (DSettleStop q) H = mutate DRun (settle_discussion_stop S t q H)"
| "handle_discussion S C t F (DSettleProvider q) H = mutate (\<lambda>(r, s). DSettlement r s) (settle_provider_discussion S t q H)"
| "handle_discussion S C t F (DClaimLookup ow k) H = mutate DLookupDispatch (claim_lookup_invocation S t ow k H)"
| "handle_discussion S C t F (DSettleLookup q) H = mutate DRun (settle_lookup_invocation S t q H)"
| "handle_discussion S C t F (DAdvanceLookup ow k) H = mutate DLookupAdvance (advance_lookup S t ow k H)"
| "handle_discussion S C t F (DHaltLookup ow why) H = mutate DRun (halt_lookup S t ow why H)"
| "handle_discussion S C t F (DReadRun ow) H = (and_then (read_discussion_run S ow H) (\<lambda>r. Inr (DRun r)), H)"

end
