(* ===== verification/Discussion_Life.thy ===== *)
theory Discussion_Life
  imports Discussion_Host
begin

text \<open>
  The abstract life of discussion runs: the steps a run can take over the tables (\<open>life\<close>), the
  well-formedness of the tables (\<open>disc_ok\<close>) and its preservation by rule induction. What one
  step keeps of each run is \<open>row_follows\<close>.
\<close>

section \<open>Steps\<close>

text \<open>
  Where a run can go from a status; the flag says whether it has a lookup chain. A stop that was asked
  for ends a run as stopped or interrupted, except that a failed invocation of a chain still fails it.
\<close>

fun can_follow :: "bool \<Rightarrow> run_status \<Rightarrow> run_status \<Rightarrow> bool" where
  "can_follow l Queued s \<longleftrightarrow> s \<in> {Running, RunStopped, RunFailed, Interrupted}"
| "can_follow l Running s \<longleftrightarrow> s = Stopping \<or> terminal_status s"
| "can_follow l Stopping s \<longleftrightarrow> s \<in> {RunStopped, Interrupted} \<or> (l \<and> s = RunFailed)"
| "can_follow l _ _ \<longleftrightarrow> False"

definition put_row :: "ustr \<Rightarrow> (run_row \<Rightarrow> run_row) \<Rightarrow> disc_tables \<Rightarrow> disc_tables" where
  "put_row i f T = T\<lparr>run_rows := map (\<lambda>r. if rn_id r = i then f r else r) (run_rows T)\<rparr>"

definition sealed :: "run_status \<Rightarrow> ustr \<Rightarrow> ustr option \<Rightarrow> dispatch_state \<Rightarrow> run_row \<Rightarrow> run_row" where
  "sealed s out why d r =
    r\<lparr>rn_status := s, rn_sequence := rn_sequence r + 1, rn_output := out, rn_reason := why, rn_dispatch := d\<rparr>"

definition next_event :: "disc_tables \<Rightarrow> run_row \<Rightarrow> event_kind \<Rightarrow> event_row \<Rightarrow> bool" where
  "next_event T r k e \<longleftrightarrow>
    ev_run e = rn_id r \<and> ev_sequence e = rn_sequence r + 1 \<and> ev_sequence e \<le> i64_max \<and> 0 < ev_sequence e \<and> ev_kind e = k
    \<and> (\<forall>x \<in> set (events T). \<not> (ev_run x = ev_run e \<and> ev_id x = ev_id e))"

definition result_for :: "run_row \<Rightarrow> event_row \<Rightarrow> run_status \<Rightarrow> ustr \<Rightarrow> result_row \<Rightarrow> bool" where
  "result_for r e s out p \<longleftrightarrow>
    pr_run p = rn_id r \<and> pr_packet p = rn_packet r \<and> pr_expected p = rn_sequence r \<and> pr_event p = ev_id e
    \<and> pr_text p = out \<and> outcome_allows p s"

definition no_binding :: "services \<Rightarrow> ustr \<Rightarrow> bool" where
  "no_binding S i \<longleftrightarrow> (case packet_record S i of Inl _ \<Rightarrow> False | Inr p \<Rightarrow> po_binding (pk_options p) = None)"

text \<open>
  The receipt a sealing step writes: one that fits the step, for a run without a lookup chain, or
  none, which a completed run may lack only without a provider binding or with a lookup chain.
\<close>

definition receipts_ok :: "services \<Rightarrow> disc_tables \<Rightarrow> run_row \<Rightarrow> event_row \<Rightarrow> run_status \<Rightarrow> ustr \<Rightarrow> result_row list \<Rightarrow> bool" where
  "receipts_ok S T r e s out ps \<longleftrightarrow>
    (case ps of
       [] \<Rightarrow> s = RunCompleted \<longrightarrow> no_binding S (rn_packet r) \<or> lookup_run T (rn_id r)
     | p # ps' \<Rightarrow> ps' = [] \<and> result_for r e s out p \<and> rn_id r \<notin> pr_run ` set (results T) \<and> \<not> lookup_run T (rn_id r))"

text \<open>New invocations that leave it as it was which of the given runs have a lookup chain.\<close>

definition same_lookup_runs :: "disc_tables \<Rightarrow> invocation_row list \<Rightarrow> ustr set \<Rightarrow> bool" where
  "same_lookup_runs T vs I \<longleftrightarrow> (\<forall>i \<in> I. lookup_run (T\<lparr>invocations := vs\<rparr>) i = lookup_run T i)"

inductive life :: "services \<Rightarrow> disc_tables \<Rightarrow> disc_tables \<Rightarrow> bool" for S where
  life_start: "\<lbrakk>rn_id r \<notin> rn_id ` set (run_rows T); rn_status r = Queued; rn_sequence r = 0; rn_output r = [];
      rn_dispatch r = PendingDispatch; mg_run m = rn_id r; mg_role m = UserMessage;
      th_id ` set (threads T) \<subseteq> th_id ` set hs; rn_thread r \<in> th_id ` set hs; same_lookup_runs T vs (rn_id ` set (run_rows T))\<rbrakk>
    \<Longrightarrow> life S T (T\<lparr>threads := hs, run_rows := run_rows T @ [r], invocations := vs, messages := messages T @ [m]\<rparr>)"
| life_claim: "\<lbrakk>r \<in> set (run_rows T); rn_status r = Queued\<rbrakk>
    \<Longrightarrow> life S T (put_row (rn_id r) (\<lambda>r. r\<lparr>rn_status := Running, rn_dispatch := ClaimedDispatch\<rparr>) T)"
| life_delivered: "\<lbrakk>r \<in> set (run_rows T); rn_status r = Running\<rbrakk>
    \<Longrightarrow> life S T (put_row (rn_id r) (\<lambda>r. r\<lparr>rn_dispatch := DeliveredDispatch\<rparr>) T)"
| life_stopping: "\<lbrakk>r \<in> set (run_rows T); rn_status r = Running\<rbrakk>
    \<Longrightarrow> life S T (put_row (rn_id r) (\<lambda>r. r\<lparr>rn_status := Stopping, rn_reason := Some why\<rparr>) T)"
| life_chunk: "\<lbrakk>r \<in> set (run_rows T); rn_status r = Running; next_event T r ChunkEvent e; \<not> lookup_run T (rn_id r)\<rbrakk>
    \<Longrightarrow> life S T (put_row (rn_id r) (\<lambda>r. r\<lparr>rn_sequence := rn_sequence r + 1, rn_output := rn_output r @ ev_text e\<rparr>)
          (T\<lparr>events := events T @ [e]\<rparr>))"
| life_seal: "\<lbrakk>r \<in> set (run_rows T); can_follow (lookup_run T (rn_id r)) (rn_status r) s; terminal_status s; next_event T r TerminalEvent e;
      starts_with out (rn_output r); mg_run m = rn_id r; mg_role m = AssistantMessage;
      receipts_ok S T r e s out ps\<rbrakk>
    \<Longrightarrow> life S T ((put_row (rn_id r) (sealed s out why d) T)
          \<lparr>events := events T @ [e], messages := messages T @ [m], results := results T @ ps\<rparr>)"
| life_aux: "same_lookup_runs T vs UNIV
    \<Longrightarrow> life S T (T\<lparr>invocations := vs, dispatches := ds, lookup_results := xs, lookup_reads := ys\<rparr>)"

inductive_cases lifeE: "life S T T'"

section \<open>Well-formed tables\<close>

definition run_events :: "disc_tables \<Rightarrow> ustr \<Rightarrow> event_row list" where
  "run_events T i = filter (\<lambda>e. ev_run e = i) (events T)"

definition answers :: "disc_tables \<Rightarrow> ustr \<Rightarrow> message_row list" where
  "answers T i = filter (\<lambda>m. mg_run m = i \<and> mg_role m = AssistantMessage) (messages T)"

definition run_results :: "disc_tables \<Rightarrow> ustr \<Rightarrow> result_row list" where
  "run_results T i = filter (\<lambda>p. pr_run p = i) (results T)"

definition event_texts :: "event_row list \<Rightarrow> ustr" where
  "event_texts es = concat (map ev_text es)"

definition is_chunk :: "event_row \<Rightarrow> bool" where
  "is_chunk e \<longleftrightarrow> ev_kind e = ChunkEvent"

text \<open>
  The event log of a run: numbered from 1 to its counter without a gap; chunks only and exactly
  the saved output while the run is active; one terminal event, the last, once it is not.
\<close>

definition log_ok :: "run_row \<Rightarrow> event_row list \<Rightarrow> bool" where
  "log_ok r es \<longleftrightarrow>
    map ev_sequence es = [1..rn_sequence r] \<and> 0 \<le> rn_sequence r \<and> rn_sequence r \<le> i64_max
    \<and> (if active (rn_status r) then list_all is_chunk es \<and> rn_output r = event_texts es
       else es \<noteq> [] \<and> list_all is_chunk (butlast es) \<and> ev_kind (last es) = TerminalEvent
            \<and> starts_with (rn_output r) (event_texts (butlast es)))
    \<and> (rn_status r = Queued \<longrightarrow> rn_sequence r = 0 \<and> rn_output r = [])"

definition settled_ok :: "run_row \<Rightarrow> event_row list \<Rightarrow> result_row \<Rightarrow> bool" where
  "settled_ok r es p \<longleftrightarrow>
    \<not> active (rn_status r) \<and> pr_packet p = rn_packet r \<and> pr_expected p + 1 = rn_sequence r
    \<and> pr_event p = ev_id (last es) \<and> pr_text p = rn_output r \<and> outcome_allows p (rn_status r)"

definition run_ok :: "services \<Rightarrow> disc_tables \<Rightarrow> run_row \<Rightarrow> bool" where
  "run_ok S T r \<longleftrightarrow>
    log_ok r (run_events T (rn_id r))
    \<and> length (answers T (rn_id r)) = (if active (rn_status r) then 0 else 1)
    \<and> list_all (settled_ok r (run_events T (rn_id r))) (run_results T (rn_id r))
    \<and> (rn_status r = RunCompleted \<longrightarrow>
         run_results T (rn_id r) \<noteq> [] \<or> no_binding S (rn_packet r) \<or> lookup_run T (rn_id r))
    \<and> (lookup_run T (rn_id r) \<longrightarrow>
         run_results T (rn_id r) = [] \<and> (active (rn_status r) \<longrightarrow> rn_output r = []))"

definition disc_keys_ok :: "disc_tables \<Rightarrow> bool" where
  "disc_keys_ok T \<longleftrightarrow>
    distinct (map rn_id (run_rows T)) \<and> distinct (map (\<lambda>e. (ev_run e, ev_id e)) (events T))
    \<and> distinct (map pr_run (results T))
    \<and> ev_run ` set (events T) \<subseteq> rn_id ` set (run_rows T)
    \<and> mg_run ` set (messages T) \<subseteq> rn_id ` set (run_rows T)
    \<and> pr_run ` set (results T) \<subseteq> rn_id ` set (run_rows T)
    \<and> rn_thread ` set (run_rows T) \<subseteq> th_id ` set (threads T)"

definition disc_ok :: "services \<Rightarrow> disc_tables \<Rightarrow> bool" where
  "disc_ok S T \<longleftrightarrow> disc_keys_ok T \<and> list_all (run_ok S T) (run_rows T)"

section \<open>What a step does to the rows\<close>

definition same_run :: "run_row \<Rightarrow> run_row \<Rightarrow> bool" where
  "same_run r r' \<longleftrightarrow>
    rn_id r' = rn_id r \<and> rn_thread r' = rn_thread r \<and> rn_project r' = rn_project r \<and> rn_namespace r' = rn_namespace r
    \<and> rn_operation r' = rn_operation r \<and> rn_payload r' = rn_payload r \<and> rn_document r' = rn_document r
    \<and> rn_version r' = rn_version r \<and> rn_hash r' = rn_hash r \<and> rn_packet r' = rn_packet r \<and> rn_previous r' = rn_previous r"

text \<open>Nothing happened to a run, or it took one allowed step with its output extended.\<close>

definition row_follows :: "bool \<Rightarrow> run_row \<Rightarrow> run_row \<Rightarrow> bool" where
  "row_follows l r r' \<longleftrightarrow>
    r' = r
    \<or> (same_run r r' \<and> active (rn_status r)
       \<and> (rn_status r' = rn_status r \<or> can_follow l (rn_status r) (rn_status r'))
       \<and> starts_with (rn_output r') (rn_output r)
       \<and> rn_sequence r \<le> rn_sequence r')"

lemma can_follow_active: "can_follow l s s' \<Longrightarrow> active s"
  by (cases s) (auto simp: active_def)

lemma output_prefix_refl [simp]: "starts_with s s"
  by (simp add: starts_with_iff)

lemma starts_with_app [simp]: "starts_with (s @ t) s"
  by (simp add: starts_with_iff)

lemma run_row_unique: "distinct (map rn_id xs) \<Longrightarrow> x \<in> set xs \<Longrightarrow> y \<in> set xs \<Longrightarrow> rn_id x = rn_id y \<Longrightarrow> x = y"
  by (auto simp: distinct_map inj_on_def)

lemma put_row_rows [simp]: "run_rows (put_row i f T) = map (\<lambda>r. if rn_id r = i then f r else r) (run_rows T)"
  by (simp add: put_row_def)

lemma put_row_other [simp]:
  "threads (put_row i f T) = threads T" "events (put_row i f T) = events T" "messages (put_row i f T) = messages T"
  "results (put_row i f T) = results T" "invocations (put_row i f T) = invocations T"
  "dispatches (put_row i f T) = dispatches T" "policy_epoch (put_row i f T) = policy_epoch T"
  by (simp_all add: put_row_def)

lemma lookup_run_same: "invocations T' = invocations T \<Longrightarrow> lookup_run T' i = lookup_run T i"
  by (simp add: lookup_run_def)

lemma lookup_run_put_row [simp]: "lookup_run (put_row i f T) j = lookup_run T j"
  by (simp add: lookup_run_def)

lemma lookup_run_simps [simp]:
  "lookup_run (T\<lparr>threads := hs\<rparr>) i = lookup_run T i" "lookup_run (T\<lparr>run_rows := rs\<rparr>) i = lookup_run T i"
  "lookup_run (T\<lparr>events := es\<rparr>) i = lookup_run T i" "lookup_run (T\<lparr>messages := ms\<rparr>) i = lookup_run T i"
  "lookup_run (T\<lparr>results := ps\<rparr>) i = lookup_run T i" "lookup_run (T\<lparr>dispatches := ds\<rparr>) i = lookup_run T i"
  "lookup_run (T\<lparr>lookup_results := xs\<rparr>) i = lookup_run T i" "lookup_run (T\<lparr>lookup_reads := ys\<rparr>) i = lookup_run T i"
  by (simp_all add: lookup_run_def)

lemma same_run_refl [simp]: "same_run r r"
  by (simp add: same_run_def)

lemma row_follows_refl [simp]: "row_follows l r r"
  by (simp add: row_follows_def)

lemma row_follows_id: "row_follows l r r' \<Longrightarrow> rn_id r' = rn_id r"
  by (auto simp: row_follows_def same_run_def)

text \<open>The row of a set-row step, and the rows it leaves alone.\<close>

lemma put_row_follows:
  assumes "distinct (map rn_id (run_rows T))" and "r0 \<in> set (run_rows T)" and "row_follows (lookup_run T (rn_id r0)) r0 (f r0)" and "r \<in> set (run_rows T)"
  shows "\<exists>r' \<in> set (run_rows (put_row (rn_id r0) f T)). row_follows (lookup_run T (rn_id r)) r r'"
proof (cases "rn_id r = rn_id r0")
  case True
  with assms have "r = r0" by (metis run_row_unique)
  with assms show ?thesis by (intro bexI [of _ "f r0"]) (auto simp: image_iff)
next
  case False
  with assms(4) show ?thesis by (intro bexI [of _ r]) auto
qed

lemma life_row:
  assumes "life S T T'" and "distinct (map rn_id (run_rows T))" and "r \<in> set (run_rows T)"
  shows "\<exists>r' \<in> set (run_rows T'). row_follows (lookup_run T (rn_id r)) r r'"
  using assms(1)
proof cases
  case (life_start r0 m hs vs)
  with assms(3) show ?thesis by (intro bexI [of _ r]) auto
next
  case (life_claim r0)
  have "row_follows (lookup_run T (rn_id r0)) r0 (r0\<lparr>rn_status := Running, rn_dispatch := ClaimedDispatch\<rparr>)"
    using life_claim by (simp add: row_follows_def same_run_def active_def)
  show ?thesis unfolding life_claim(1)
    by (rule put_row_follows [OF assms(2) life_claim(2) _ assms(3)]) fact
next
  case (life_delivered r0)
  have "row_follows (lookup_run T (rn_id r0)) r0 (r0\<lparr>rn_dispatch := DeliveredDispatch\<rparr>)"
    using life_delivered by (simp add: row_follows_def same_run_def active_def)
  show ?thesis unfolding life_delivered(1)
    by (rule put_row_follows [OF assms(2) life_delivered(2) _ assms(3)]) fact
next
  case (life_stopping r0 why)
  have "row_follows (lookup_run T (rn_id r0)) r0 (r0\<lparr>rn_status := Stopping, rn_reason := Some why\<rparr>)"
    using life_stopping by (simp add: row_follows_def same_run_def active_def)
  show ?thesis unfolding life_stopping(1)
    by (rule put_row_follows [OF assms(2) life_stopping(2) _ assms(3)]) fact
next
  case (life_chunk r0 e)
  have "row_follows (lookup_run T (rn_id r0)) r0 (r0\<lparr>rn_sequence := rn_sequence r0 + 1, rn_output := rn_output r0 @ ev_text e\<rparr>)"
    using life_chunk by (simp add: row_follows_def same_run_def active_def)
  then have "\<exists>r' \<in> set (run_rows T'). row_follows (lookup_run (T\<lparr>events := events T @ [e]\<rparr>) (rn_id r)) r r'"
    unfolding life_chunk(1) by (intro put_row_follows) (simp_all add: assms(2,3) life_chunk(2))
  then show ?thesis unfolding lookup_run_simps .
next
  case (life_seal r0 s e out m ps why d)
  have "row_follows (lookup_run T (rn_id r0)) r0 (sealed s out why d r0)"
    using life_seal by (simp add: row_follows_def same_run_def sealed_def can_follow_active)
  then have "\<exists>r' \<in> set (run_rows (put_row (rn_id r0) (sealed s out why d) T)). row_follows (lookup_run T (rn_id r)) r r'"
    by (intro put_row_follows) (simp_all add: assms(2,3) life_seal(2))
  then show ?thesis unfolding life_seal(1) by simp
next
  case (life_aux vs ys xs ds)
  with assms(3) show ?thesis by (intro bexI [of _ r]) auto
qed

text \<open>Whether a run has a lookup chain is settled when it starts.\<close>

lemma life_lookup_run:
  assumes "life S T T'" and "i \<in> rn_id ` set (run_rows T)"
  shows "lookup_run T' i = lookup_run T i"
  using assms by cases (auto simp: same_lookup_runs_def lookup_run_def)

section \<open>Preservation\<close>

lemma put_row_ids:
  assumes "\<And>r. rn_id (f r) = rn_id r" and "\<And>r. rn_thread (f r) = rn_thread r"
  shows "map rn_id (run_rows (put_row i f T)) = map rn_id (run_rows T)"
    and "rn_id ` set (run_rows (put_row i f T)) = rn_id ` set (run_rows T)"
    and "rn_thread ` set (run_rows (put_row i f T)) = rn_thread ` set (run_rows T)"
proof -
  have "map rn_thread (run_rows (put_row i f T)) = map rn_thread (run_rows T)" using assms by simp
  then show "rn_thread ` set (run_rows (put_row i f T)) = rn_thread ` set (run_rows T)" by (metis list.set_map)
  show "map rn_id (run_rows (put_row i f T)) = map rn_id (run_rows T)" using assms by simp
  then show "rn_id ` set (run_rows (put_row i f T)) = rn_id ` set (run_rows T)" by (metis list.set_map)
qed

lemma keys_put_row:
  assumes "\<And>r. rn_id (f r) = rn_id r" and "\<And>r. rn_thread (f r) = rn_thread r"
  shows "disc_keys_ok (put_row i f T) = disc_keys_ok T"
  unfolding disc_keys_ok_def put_row_ids [OF assms] put_row_other ..

lemma keys_event:
  assumes "disc_keys_ok T" and "next_event T r k e" and "r \<in> set (run_rows T)"
  shows "disc_keys_ok (T\<lparr>events := events T @ [e]\<rparr>)"
  using assms by (auto simp: disc_keys_ok_def next_event_def)

lemma keys_sealed:
  assumes "disc_keys_ok T" and "next_event T r k e" and "rn_id r \<in> rn_id ` set (run_rows T)" and "mg_run m = rn_id r"
    and "\<forall>p \<in> set ps. ps = [p] \<and> pr_run p = rn_id r \<and> rn_id r \<notin> pr_run ` set (results T)"
  shows "disc_keys_ok (T\<lparr>events := events T @ [e], messages := messages T @ [m], results := results T @ ps\<rparr>)"
proof (cases ps)
  case Nil
  with assms show ?thesis unfolding disc_keys_ok_def next_event_def by (auto simp: image_iff)
next
  case (Cons p ps')
  with assms(5) have "ps = [p]" "pr_run p = rn_id r" "rn_id r \<notin> pr_run ` set (results T)" by auto
  with assms(1-4) show ?thesis unfolding disc_keys_ok_def next_event_def by (auto simp: image_iff)
qed

lemma life_keys:
  assumes "life S T T'" and "disc_keys_ok T"
  shows "disc_keys_ok T'"
  using assms(1)
proof cases
  case (life_start r0 m hs vs)
  have "rn_thread ` set (run_rows T) \<subseteq> th_id ` set hs"
    by (rule subset_trans [OF _ life_start(9)]) (use assms(2) in \<open>simp add: disc_keys_ok_def\<close>)
  with life_start(1-8,10) assms(2) show ?thesis unfolding disc_keys_ok_def by auto
next
  case (life_chunk r0 e)
  from keys_event [OF assms(2) life_chunk(4,2)] show ?thesis
    unfolding life_chunk(1) by (subst keys_put_row) simp_all
next
  case (life_seal r0 s e out m ps why d)
  have k: "disc_keys_ok (put_row (rn_id r0) (sealed s out why d) T)"
    using assms(2) by (subst keys_put_row) (simp_all add: sealed_def)
  have e: "next_event (put_row (rn_id r0) (sealed s out why d) T) r0 TerminalEvent e"
    using life_seal(5) unfolding next_event_def put_row_other .
  have i: "rn_id r0 \<in> rn_id ` set (run_rows (put_row (rn_id r0) (sealed s out why d) T))"
    using life_seal(2) by (subst put_row_ids(2)) (simp_all add: sealed_def)
  have p: "\<forall>p \<in> set ps. ps = [p] \<and> pr_run p = rn_id r0 \<and> rn_id r0 \<notin> pr_run ` set (results T)"
    using life_seal(9) by (cases ps) (auto simp: receipts_ok_def result_for_def)
  from keys_sealed [OF k e i life_seal(7), of ps] p show ?thesis unfolding life_seal(1) put_row_other by simp
next
  case (life_aux vs ys xs ds)
  with assms(2) show ?thesis by (simp add: disc_keys_ok_def)
qed (use assms(2) in \<open>simp_all add: keys_put_row\<close>)

text \<open>A row whose events, answers and results are those of another table is judged the same.\<close>

lemma run_ok_cong:
  assumes "run_events T' (rn_id r) = run_events T (rn_id r)" and "answers T' (rn_id r) = answers T (rn_id r)"
    and "run_results T' (rn_id r) = run_results T (rn_id r)" and "lookup_run T' (rn_id r) = lookup_run T (rn_id r)"
  shows "run_ok S T' r = run_ok S T r"
  using assms by (simp add: run_ok_def)

lemma upto_next: "0 \<le> n \<Longrightarrow> [1..n + 1] = [1..n] @ [n + (1 :: int)]"
  using upto_rec2 [of 1 "n + 1"] by simp

lemma event_texts_simps [simp]: "event_texts [] = []" "event_texts (es @ [e]) = event_texts es @ ev_text e"
  by (simp_all add: event_texts_def)

lemma log_ok_empty: "active (rn_status r) \<Longrightarrow> rn_sequence r = 0 \<Longrightarrow> rn_output r = [] \<Longrightarrow> log_ok r []"
  by (simp add: log_ok_def i64_max_def)

lemma log_ok_chunk:
  assumes "log_ok r es" and "rn_status r = Running" and "next_event T r ChunkEvent e"
    and "r' = r\<lparr>rn_sequence := rn_sequence r + 1, rn_output := rn_output r @ ev_text e\<rparr>"
  shows "log_ok r' (es @ [e])"
  using assms by (auto simp: log_ok_def next_event_def active_def is_chunk_def upto_next)

lemma log_ok_seal:
  assumes "log_ok r es" and "active (rn_status r)" and "terminal_status s" and "next_event T r TerminalEvent e"
    and "starts_with out (rn_output r)"
  shows "log_ok (sealed s out why d r) (es @ [e])"
  using assms by (auto simp: log_ok_def next_event_def terminal_status_def sealed_def upto_next active_def)

lemma log_ok_status:
  assumes "log_ok r es" and "active (rn_status r)" and "active (rn_status r')" and "rn_status r' \<noteq> Queued"
    and "rn_sequence r' = rn_sequence r" and "rn_output r' = rn_output r"
  shows "log_ok r' es"
  using assms by (auto simp: log_ok_def)

lemma run_events_app: "run_events (T\<lparr>events := events T @ [e]\<rparr>) i = run_events T i @ (if ev_run e = i then [e] else [])"
  by (simp add: run_events_def)

lemma active_no_results:
  assumes "run_ok S T r" and "active (rn_status r)"
  shows "run_results T (rn_id r) = []"
proof (cases "run_results T (rn_id r)")
  case (Cons p ps)
  have "list_all (settled_ok r (run_events T (rn_id r))) (run_results T (rn_id r))"
    using assms(1) by (simp add: run_ok_def)
  with Cons assms(2) show ?thesis by (simp add: settled_ok_def)
qed

lemma run_ok_status:
  assumes "run_ok S T r" and "active (rn_status r)" and "active (rn_status r')" and "rn_status r' \<noteq> Queued"
    and "rn_id r' = rn_id r" and "rn_sequence r' = rn_sequence r" and "rn_output r' = rn_output r"
  shows "run_ok S T r'"
proof -
  have "run_results T (rn_id r) = []"
    by (rule active_no_results [OF assms(1,2)])
  moreover have "log_ok r' (run_events T (rn_id r))"
    by (rule log_ok_status [OF _ assms(2-4,6,7)]) (use assms(1) in \<open>simp add: run_ok_def\<close>)
  moreover have "rn_status r' \<noteq> RunCompleted" using assms(3) by (auto simp: active_def)
  ultimately show ?thesis using assms(1,2,3,5,7) by (simp add: run_ok_def)
qed

lemma run_ok_chunk:
  assumes "run_ok S T r" and "rn_status r = Running" and "next_event T r ChunkEvent e"
    and r': "r' = r\<lparr>rn_sequence := rn_sequence r + 1, rn_output := rn_output r @ ev_text e\<rparr>"
    and T': "events T' = events T @ [e]" "messages T' = messages T" "results T' = results T"
      "invocations T' = invocations T" "\<not> lookup_run T (rn_id r)"
  shows "run_ok S T' r'"
proof -
  have e: "ev_run e = rn_id r" using assms(3) by (simp add: next_event_def)
  have "run_results T (rn_id r) = []"
    using assms(1,2) by (intro active_no_results) (simp_all add: active_def)
  moreover have "log_ok r' (run_events T (rn_id r) @ [e])"
    using assms(1-3) r' by (intro log_ok_chunk) (simp_all add: run_ok_def)
  ultimately show ?thesis
    using assms(1,2) r' T' e lookup_run_same [of T' T] by (simp add: run_ok_def run_events_def answers_def run_results_def)
qed

lemma run_ok_seal:
  assumes "run_ok S T r" and "can_follow l (rn_status r) s" and "terminal_status s" and "next_event T r TerminalEvent e"
    and "starts_with out (rn_output r)" and m: "mg_run m = rn_id r" "mg_role m = AssistantMessage"
    and ps: "receipts_ok S T r e s out ps"
    and T': "events T' = events T @ [e]" "messages T' = messages T @ [m]" "results T' = results T @ ps"
      "invocations T' = invocations T"
  shows "run_ok S T' (sealed s out why d r)"
proof -
  let ?r = "sealed s out why d r" and ?es = "run_events T (rn_id r)"
  have a: "active (rn_status r)" using assms(2) by (rule can_follow_active)
  have id: "rn_id ?r = rn_id r" "rn_packet ?r = rn_packet r" "rn_status ?r = s" "rn_output ?r = out"
      "rn_sequence ?r = rn_sequence r + 1"
    by (simp_all add: sealed_def)
  have na: "\<not> active s" using assms(3) by (simp add: terminal_status_def)
  have e: "ev_run e = rn_id r" using assms(4) by (simp add: next_event_def)
  have es: "run_events T' (rn_id r) = ?es @ [e]" using T'(1) e by (simp add: run_events_def)
  have "log_ok ?r (?es @ [e])"
    using assms(1,3-5) a by (intro log_ok_seal) (simp_all add: run_ok_def)
  moreover have "length (answers T' (rn_id r)) = 1"
    using assms(1) a T'(2) m by (simp add: run_ok_def answers_def)
  moreover have none: "run_results T (rn_id r) = []"
    using assms(1) a by (rule active_no_results)
  moreover have "list_all (settled_ok ?r (?es @ [e])) (run_results T' (rn_id r))"
    using none ps T'(3) na by (cases ps) (auto simp: receipts_ok_def run_results_def settled_ok_def result_for_def id)
  moreover have "s = RunCompleted \<longrightarrow> run_results T' (rn_id r) \<noteq> [] \<or> no_binding S (rn_packet r) \<or> lookup_run T' (rn_id r)"
    using ps T'(3) none lookup_run_same [OF T'(4)] by (cases ps) (auto simp: receipts_ok_def run_results_def result_for_def)
  moreover have "lookup_run T' (rn_id r) \<longrightarrow> run_results T' (rn_id r) = []"
    using ps T'(3) none lookup_run_same [OF T'(4)] by (cases ps) (auto simp: receipts_ok_def run_results_def)
  ultimately show ?thesis unfolding run_ok_def id es using na by simp
qed

text \<open>A step that only touches one row and its own event, answer and result.\<close>

lemma disc_ok_row:
  assumes "disc_ok S T" and "r0 \<in> set (run_rows T)" and "disc_keys_ok T'"
    and "run_rows T' = map (\<lambda>r. if rn_id r = rn_id r0 then f r else r) (run_rows T)"
    and "\<And>r :: run_row. rn_id r \<noteq> rn_id r0 \<Longrightarrow> run_events T' (rn_id r) = run_events T (rn_id r)
            \<and> answers T' (rn_id r) = answers T (rn_id r) \<and> run_results T' (rn_id r) = run_results T (rn_id r)"
    and "invocations T' = invocations T" and "run_ok S T r0 \<Longrightarrow> run_ok S T' (f r0)"
  shows "disc_ok S T'"
proof -
  have "run_ok S T' (if rn_id r = rn_id r0 then f r else r)" if r: "r \<in> set (run_rows T)" for r
  proof (cases "rn_id r = rn_id r0")
    case True
    have "distinct (map rn_id (run_rows T))" using assms(1) by (simp add: disc_ok_def disc_keys_ok_def)
    with r assms(2) True have "r = r0" by (metis run_row_unique)
    with assms(1,7) r show ?thesis by (simp add: disc_ok_def list_all_iff)
  next
    case False
    have "run_ok S T' r = run_ok S T r"
      by (rule run_ok_cong) (use assms(5) [OF False] lookup_run_same [OF assms(6)] in simp_all)
    with False r assms(1) show ?thesis by (simp add: disc_ok_def list_all_iff)
  qed
  then have "\<forall>r \<in> set (run_rows T). run_ok S T' (if rn_id r = rn_id r0 then f r else r)" by blast
  then have "list_all (run_ok S T') (run_rows T')" unfolding assms(4) list_all_iff set_map by blast
  with assms(3) show ?thesis by (simp add: disc_ok_def)
qed

lemma no_traces:
  assumes "disc_keys_ok T" and "i \<notin> rn_id ` set (run_rows T)"
  shows "run_events T i = []" "answers T i = []" "run_results T i = []"
  using assms by (auto simp: disc_keys_ok_def run_events_def answers_def run_results_def filter_empty_conv)

lemma life_ok:
  assumes "life S T T'" and ok: "disc_ok S T"
  shows "disc_ok S T'"
proof -
  have keys: "disc_keys_ok T'" using assms life_keys by (auto simp: disc_ok_def)
  show ?thesis
    using assms(1)
  proof cases
    case (life_start r0 m hs vs)
    have k: "disc_keys_ok T" using ok by (simp add: disc_ok_def)
    have same: "run_events T' i = run_events T i" "answers T' i = answers T i" "run_results T' i = run_results T i" for i
      using life_start by (auto simp: run_events_def answers_def run_results_def)
    have "run_ok S T' r0"
      using no_traces [OF k life_start(2)] same [of "rn_id r0"] log_ok_empty [of r0] life_start
      by (simp add: run_ok_def active_def)
    moreover have "run_ok S T' r" if r: "r \<in> set (run_rows T)" for r
    proof -
      have "lookup_run T' (rn_id r) = lookup_run (T\<lparr>invocations := vs\<rparr>) (rn_id r)"
        by (simp add: life_start(1) lookup_run_def)
      also have "\<dots> = lookup_run T (rn_id r)" using life_start(11) r by (simp add: same_lookup_runs_def)
      finally show ?thesis using r ok run_ok_cong [of T' r T S] same by (simp add: disc_ok_def list_all_iff)
    qed
    ultimately show ?thesis using keys life_start(1) by (auto simp: disc_ok_def list_all_iff)
  next
    case (life_claim r0)
    show ?thesis
    proof (rule disc_ok_row [OF ok life_claim(2) keys])
      show "run_rows T' = map (\<lambda>r. if rn_id r = rn_id r0 then r\<lparr>rn_status := Running, rn_dispatch := ClaimedDispatch\<rparr> else r) (run_rows T)" by (simp add: life_claim(1))
    next
      assume r: "run_ok S T r0"
      show "run_ok S T' (r0\<lparr>rn_status := Running, rn_dispatch := ClaimedDispatch\<rparr>)"
        by (rule run_ok_status [of S _ r0])
          (use r life_claim in \<open>auto simp: active_def run_ok_def run_events_def answers_def run_results_def\<close>)
    qed (simp_all add: life_claim(1) run_events_def answers_def run_results_def)
  next
    case (life_delivered r0)
    show ?thesis
    proof (rule disc_ok_row [OF ok life_delivered(2) keys])
      show "run_rows T' = map (\<lambda>r. if rn_id r = rn_id r0 then r\<lparr>rn_dispatch := DeliveredDispatch\<rparr> else r) (run_rows T)" by (simp add: life_delivered(1))
    next
      assume r: "run_ok S T r0"
      show "run_ok S T' (r0\<lparr>rn_dispatch := DeliveredDispatch\<rparr>)"
        by (rule run_ok_status [of S _ r0])
          (use r life_delivered in \<open>auto simp: active_def run_ok_def run_events_def answers_def run_results_def\<close>)
    qed (simp_all add: life_delivered(1) run_events_def answers_def run_results_def)
  next
    case (life_stopping r0 why)
    show ?thesis
    proof (rule disc_ok_row [OF ok life_stopping(2) keys])
      show "run_rows T' = map (\<lambda>r. if rn_id r = rn_id r0 then r\<lparr>rn_status := Stopping, rn_reason := Some why\<rparr> else r) (run_rows T)" by (simp add: life_stopping(1))
    next
      assume r: "run_ok S T r0"
      show "run_ok S T' (r0\<lparr>rn_status := Stopping, rn_reason := Some why\<rparr>)"
        by (rule run_ok_status [of S _ r0])
          (use r life_stopping in \<open>auto simp: active_def run_ok_def run_events_def answers_def run_results_def\<close>)
    qed (simp_all add: life_stopping(1) run_events_def answers_def run_results_def)
  next
    case (life_chunk r0 e)
    show ?thesis
    proof (rule disc_ok_row [OF ok life_chunk(2) keys])
      show "run_rows T' = map (\<lambda>r. if rn_id r = rn_id r0
          then r\<lparr>rn_sequence := rn_sequence r + 1, rn_output := rn_output r @ ev_text e\<rparr> else r) (run_rows T)"
        by (simp add: life_chunk(1))
    next
      assume r: "run_ok S T r0"
      show "run_ok S T' (r0\<lparr>rn_sequence := rn_sequence r0 + 1, rn_output := rn_output r0 @ ev_text e\<rparr>)"
        by (rule run_ok_chunk [OF r life_chunk(3,4) refl]) (simp_all add: life_chunk(1,5))
    qed (use life_chunk(4) in \<open>simp_all add: life_chunk(1) run_events_def answers_def run_results_def next_event_def\<close>)
  next
    case (life_seal r0 s e out m ps why d)
    show ?thesis
    proof (rule disc_ok_row [OF ok life_seal(2) keys])
      show "run_rows T' = map (\<lambda>r. if rn_id r = rn_id r0 then sealed s out why d r else r) (run_rows T)"
        by (simp add: life_seal(1))
    next
      fix r assume r: "rn_id r \<noteq> rn_id r0"
      have "filter (\<lambda>p. pr_run p = rn_id r) ps = []"
        using life_seal(9) r by (cases ps) (auto simp: receipts_ok_def result_for_def)
      with r life_seal(5,7) show "run_events T' (rn_id r) = run_events T (rn_id r)
          \<and> answers T' (rn_id r) = answers T (rn_id r) \<and> run_results T' (rn_id r) = run_results T (rn_id r)"
        by (simp add: life_seal(1) run_events_def answers_def run_results_def next_event_def)
    next
      assume r: "run_ok S T r0"
      show "run_ok S T' (sealed s out why d r0)"
        by (rule run_ok_seal [OF r life_seal(3-9)]) (simp_all add: life_seal(1))
    qed (simp add: life_seal(1))
  next
    case (life_aux vs ys xs ds)
    have "lookup_run T' i = lookup_run (T\<lparr>invocations := vs\<rparr>) i" for i by (simp add: life_aux(1) lookup_run_def)
    then have "lookup_run T' i = lookup_run T i" for i using life_aux(2) by (simp add: same_lookup_runs_def)
    then have "run_ok S T' r = run_ok S T r" for r
      by (intro run_ok_cong) (simp_all add: life_aux(1) run_events_def answers_def run_results_def)
    with keys ok show ?thesis by (simp add: disc_ok_def life_aux(1) list_all_iff)
  qed
qed

end
