(* ===== verification/Discussion_Proofs.thy ===== *)
theory Discussion_Proofs
  imports Discussion_Life
begin

text \<open>
  The transactions of the discussion commands take the steps of \<open>life\<close>: each answers with the
  tables it was given or with those after one step (two for an interruption, one round per active
  run for the recovery sweep).
\<close>

section \<open>Statements\<close>

lemma read_runD:
  assumes "read_run S T i = Inr cur"
  shows "find_run T i = Some (dr_row cur)"
  using assms unfolding read_run_def by (auto simp: result_ok)

lemma read_run_lookup: "read_run S T i = Inr cur \<Longrightarrow> dr_lookup cur = lookup_run T (rn_id (dr_row cur))"
  unfolding read_run_def by (auto simp: result_ok)

lemma find_runD:
  assumes "find_run T i = Some r"
  shows "r \<in> set (run_rows T)" and "rn_id r = i"
  using find_SomeD [of "\<lambda>r. rn_id r = i" "run_rows T" r] assms by (auto simp: find_run_def)

lemma find_ownedD:
  assumes "find_owned S T ow = Inr cur"
  shows "read_run S T (ow_run ow) = Inr cur" and "run_owner_of cur = ow" and "find_run T (ow_run ow) = Some (dr_row cur)"
proof -
  from assms show r: "read_run S T (ow_run ow) = Inr cur" and "run_owner_of cur = ow"
    by (auto simp: find_owned_def validate_owner_def result_ok)
  from read_runD [OF r] show "find_run T (ow_run ow) = Some (dr_row cur)" .
qed

lemma next_sequenceD: "next_sequence n = Inr n' \<Longrightarrow> n' = n + 1 \<and> n' \<le> i64_max"
  by (auto simp: next_sequence_def checked_add_i64_def split: if_splits)

lemma existing_event_None:
  "existing_event T run i = None \<longleftrightarrow> (\<forall>e \<in> set (events T). \<not> (ev_run e = run \<and> ev_id e = i))"
  by (auto simp: existing_event_def find_None_all)

lemma insert_eventD:
  assumes "insert_event e T = Inr T'"
  shows "T' = T\<lparr>events := events T @ [e]\<rparr> \<and> 0 < ev_sequence e
    \<and> (\<forall>x \<in> set (events T). \<not> (ev_run x = ev_run e \<and> ev_id x = ev_id e))"
proof -
  from assms have "(ev_run e, ev_id e) \<notin> (\<lambda>x. (ev_run x, ev_id x)) ` set (events T)"
    and "T' = T\<lparr>events := events T @ [e]\<rparr>" "0 < ev_sequence e"
    by (simp_all add: insert_event_def split: if_splits)
  then show ?thesis by (metis (no_types, lifting) image_eqI)
qed

lemma insert_messageD: "insert_message m T = Inr T' \<Longrightarrow> T' = T\<lparr>messages := messages T @ [m]\<rparr>"
  by (simp add: insert_message_def split: if_splits)

lemma insert_resultD:
  "insert_result p T = Inr T' \<Longrightarrow> T' = T\<lparr>results := results T @ [p]\<rparr> \<and> pr_run p \<notin> pr_run ` set (results T)"
  by (auto simp: insert_result_def split: if_splits)

lemma put_row_cong:
  assumes "distinct (map rn_id (run_rows T))" and "r \<in> set (run_rows T)" and "f r = g r"
  shows "put_row (rn_id r) f T = put_row (rn_id r) g T"
proof -
  have "map (\<lambda>x. if rn_id x = rn_id r then f x else x) (run_rows T) = map (\<lambda>x. if rn_id x = rn_id r then g x else x) (run_rows T)"
    by (rule map_cong [OF refl]) (use assms in \<open>metis run_row_unique\<close>)
  then show ?thesis by (simp add: put_row_def)
qed

lemma updated_row:
  assumes "distinct (map rn_id (run_rows T))" and "length (filter w (run_rows T)) = 1" and "\<And>x :: run_row. w x \<Longrightarrow> rn_id x = i"
  shows "\<exists>r \<in> set (run_rows T). w r \<and> rn_id r = i \<and> fst (update_runs w f T) = put_row i (\<lambda>_. f r) T"
proof -
  from assms(2) obtain r where r: "filter w (run_rows T) = [r]" by (auto simp: length_Suc_conv)
  then have "r \<in> set (filter w (run_rows T))" by simp
  then have "r \<in> set (run_rows T)" "w r" by simp_all
  moreover from \<open>w r\<close> have "rn_id r = i" by (rule assms(3))
  moreover have "map (\<lambda>x. if w x then f x else x) (run_rows T) = map (\<lambda>x. if rn_id x = i then f r else x) (run_rows T)"
  proof (rule map_cong [OF refl])
    fix x assume "x \<in> set (run_rows T)"
    with calculation assms(1,3) have "w x \<longleftrightarrow> rn_id x = i" "rn_id x = i \<Longrightarrow> x = r" by (metis run_row_unique)+
    then show "(if w x then f x else x) = (if rn_id x = i then f r else x)" by simp
  qed
  ultimately show ?thesis by (auto simp: update_runs_def put_row_def)
qed

lemma update_oneD:
  assumes "update_one w f err T = Inr T'" and "distinct (map rn_id (run_rows T))" and "\<And>x :: run_row. w x \<Longrightarrow> rn_id x = i"
  shows "\<exists>r \<in> set (run_rows T). w r \<and> rn_id r = i \<and> T' = put_row i (\<lambda>_. f r) T"
proof -
  from assms(1) have "length (filter w (run_rows T)) = 1" "T' = fst (update_runs w f T)"
    by (auto simp: update_one_def update_runs_def split: if_splits)
  with updated_row [OF assms(2) _ assms(3)] show ?thesis by simp
qed

text \<open>An unguarded update of at most one row.\<close>

lemma update_runs_row:
  assumes "distinct (map rn_id (run_rows T))" and "r \<in> set (run_rows T)" and "w r" and "\<And>x :: run_row. w x \<Longrightarrow> rn_id x = rn_id r"
  shows "fst (update_runs w f T) = put_row (rn_id r) f T"
proof -
  have "map (\<lambda>x. if w x then f x else x) (run_rows T) = map (\<lambda>x. if rn_id x = rn_id r then f x else x) (run_rows T)"
    by (rule map_cong [OF refl]) (use assms in \<open>metis run_row_unique\<close>)
  then show ?thesis by (simp add: update_runs_def put_row_def)
qed

section \<open>The three writes of a terminal transition\<close>

lemma seal_writes:
  assumes "disc_keys_ok T" and "insert_event e T = Inr T1" and "update_one w f err T1 = Inr T2" and "insert_message m T2 = Inr T3"
    and "\<And>x :: run_row. w x \<Longrightarrow> rn_id x = i"
  shows "\<exists>r \<in> set (run_rows T). w r \<and> rn_id r = i
    \<and> T3 = (put_row i (\<lambda>_. f r) T)\<lparr>events := events T @ [e], messages := messages T @ [m]\<rparr>
    \<and> 0 < ev_sequence e \<and> (\<forall>x \<in> set (events T). \<not> (ev_run x = ev_run e \<and> ev_id x = ev_id e))"
proof -
  note e = insert_eventD [OF assms(2)]
  have "distinct (map rn_id (run_rows T1))" using assms(1) e by (simp add: disc_keys_ok_def)
  from update_oneD [OF assms(3) this assms(5)] obtain r where
    "r \<in> set (run_rows T1)" "w r" "rn_id r = i" "T2 = put_row i (\<lambda>_. f r) T1" by blast
  with e insert_messageD [OF assms(4)] show ?thesis by (intro bexI [of _ r]) (simp_all add: put_row_def)
qed

lemma sealing_step:
  assumes "disc_keys_ok T" and "r \<in> set (run_rows T)" and "can_follow (lookup_run T (rn_id r)) (rn_status r) s" and "terminal_status s"
    and "ev_run e = rn_id r" "ev_kind e = TerminalEvent" "ev_sequence e = rn_sequence r + 1" "ev_sequence e \<le> i64_max"
    and "0 < ev_sequence e \<and> (\<forall>x \<in> set (events T). \<not> (ev_run x = ev_run e \<and> ev_id x = ev_id e))"
    and "starts_with out (rn_output r)" and "mg_run m = rn_id r" "mg_role m = AssistantMessage"
    and "receipts_ok S T r e s out ps"
    and "r' = sealed s out why d r"
  shows "life S T ((put_row (rn_id r) (\<lambda>_. r') T)
          \<lparr>events := events T @ [e], messages := messages T @ [m], results := results T @ ps\<rparr>)"
proof -
  have "put_row (rn_id r) (\<lambda>_. r') T = put_row (rn_id r) (sealed s out why d) T"
    using assms(1,2,14) by (intro put_row_cong) (simp_all add: disc_keys_ok_def)
  moreover have "next_event T r TerminalEvent e" using assms(5-9) by (simp add: next_event_def)
  ultimately show ?thesis
    using life_seal [where S = S and r = r and T = T and s = s and e = e and out = out and m = m and ps = ps and why = why and d = d] assms(2-4,10-13) by simp
qed

lemma sealing_plain:
  assumes "disc_keys_ok T" and "r \<in> set (run_rows T)" and "can_follow (lookup_run T (rn_id r)) (rn_status r) s" and "terminal_status s"
    and "ev_run e = rn_id r" "ev_kind e = TerminalEvent" "ev_sequence e = rn_sequence r + 1" "ev_sequence e \<le> i64_max"
    and "0 < ev_sequence e \<and> (\<forall>x \<in> set (events T). \<not> (ev_run x = ev_run e \<and> ev_id x = ev_id e))"
    and "starts_with out (rn_output r)" and "mg_run m = rn_id r" "mg_role m = AssistantMessage"
    and "s = RunCompleted \<Longrightarrow> no_binding S (rn_packet r) \<or> lookup_run T (rn_id r)"
    and "r' = sealed s out why d r"
  shows "life S T ((put_row (rn_id r) (\<lambda>_. r') T)\<lparr>events := events T @ [e], messages := messages T @ [m]\<rparr>)"
proof -
  have eq: "(put_row (rn_id r) (\<lambda>_. r') T)\<lparr>events := events T @ [e], messages := messages T @ [m]\<rparr>
    = (put_row (rn_id r) (\<lambda>_. r') T)\<lparr>events := events T @ [e], messages := messages T @ [m], results := results T @ []\<rparr>"
    by (cases T) (simp add: put_row_def)
  show ?thesis by (subst eq, rule sealing_step [OF assms(1-12) _ assms(14)]) (simp add: receipts_ok_def assms(13))
qed

lemma seal_run_life:
  assumes "disc_keys_ok T" and "seal_run S new cur s why ei note T = Inr (r, T')" and "find_run T i = Some (dr_row cur)"
    and "can_follow (lookup_run T (rn_id (dr_row cur))) (dr_status cur) s" and "s \<noteq> RunCompleted"
  shows "life S T T'"
proof -
  note row = find_runD [OF assms(3)]
  from assms(2) obtain n n' T1 T2 where t: "terminal_status s" and n: "next_sequence n = Inr n'"
    and e: "insert_event \<lparr>ev_run = rn_id (dr_row cur), ev_sequence = n', ev_id = ei, ev_kind = TerminalEvent, ev_text = note\<rparr> T = Inr T1"
    and up: "update_one (\<lambda>r. owned_row (run_owner_of cur) r \<and> active (rn_status r) \<and> rn_sequence r = n)
        (\<lambda>r. r\<lparr>rn_status := s, rn_sequence := n', rn_reason := Some why\<rparr>) ''SequenceConflict'' T1 = Inr T2"
    and m: "insert_message \<lparr>mg_id = new, mg_thread = rn_thread (dr_row cur), mg_run = rn_id (dr_row cur), mg_role = AssistantMessage,
        mg_content = with_note (rn_output (dr_row cur)) note, mg_packet = Some (rn_packet (dr_row cur))\<rparr> T2 = Inr T'"
    unfolding seal_run_def by (auto simp: result_ok)
  from seal_writes [OF assms(1) e up m, of "rn_id (dr_row cur)"] obtain x where
    x: "x \<in> set (run_rows T)" "rn_id x = rn_id (dr_row cur)" "rn_sequence x = n" and T': "T' = (put_row (rn_id (dr_row cur)) (\<lambda>_. x\<lparr>rn_status := s, rn_sequence := n', rn_reason := Some why\<rparr>) T)
      \<lparr>events := events T @ [\<lparr>ev_run = rn_id (dr_row cur), ev_sequence = n', ev_id = ei, ev_kind = TerminalEvent, ev_text = note\<rparr>],
       messages := messages T @ [\<lparr>mg_id = new, mg_thread = rn_thread (dr_row cur), mg_run = rn_id (dr_row cur), mg_role = AssistantMessage,
        mg_content = with_note (rn_output (dr_row cur)) note, mg_packet = Some (rn_packet (dr_row cur))\<rparr>]\<rparr>"
    and f: "0 < n'" "\<forall>x \<in> set (events T). \<not> (ev_run x = rn_id (dr_row cur) \<and> ev_id x = ei)"
    by (auto simp: owned_row_def run_owner_of_def)
  have "x = dr_row cur" using assms(1) row x by (metis disc_keys_ok_def run_row_unique)
  with x T' f next_sequenceD [OF n] t assms(1,4,5)
    sealing_plain [where S = S and r = x and T = T and s = s and out = "rn_output x" and why = "Some why" and d = "rn_dispatch x"
      and r' = "x\<lparr>rn_status := s, rn_sequence := n', rn_reason := Some why\<rparr>"
      and e = "\<lparr>ev_run = rn_id (dr_row cur), ev_sequence = n', ev_id = ei, ev_kind = TerminalEvent, ev_text = note\<rparr>"
      and m = "\<lparr>mg_id = new, mg_thread = rn_thread (dr_row cur), mg_run = rn_id (dr_row cur), mg_role = AssistantMessage,
        mg_content = with_note (rn_output (dr_row cur)) note, mg_packet = Some (rn_packet (dr_row cur))\<rparr>"]
  show ?thesis by (simp add: sealed_def dr_status_def)
qed

section \<open>The transactions\<close>

lemma append_life:
  assumes "disc_keys_ok T" and "append_tx S q n T = Inr (r, T')"
  shows "T' = T \<or> life S T T'"
proof -
  let ?i = "ow_run (ap_owner q)"
  from assms(2) obtain cur where cur: "find_owned S T (ap_owner q) = Inr cur" and nl: "\<not> dr_lookup cur"
    and *: "(case existing_event T ?i (ap_event q) of Some e \<Rightarrow> replayed ChunkEvent (ap_chunk q) n True e (cur, T)
      | None \<Rightarrow> append_fresh S q n cur T) = Inr (r, T')"
    by (auto simp: append_tx_def reject_legacy_lookup_path_def result_ok)
  show ?thesis
  proof (cases "existing_event T ?i (ap_event q)")
    case (Some e)
    with * show ?thesis by (auto simp: replayed_def split: if_splits)
  next
    case None
    note row = find_runD [OF find_ownedD(3) [OF cur]]
    let ?e = "\<lambda>n'. \<lparr>ev_run = ?i, ev_sequence = n', ev_id = ap_event q, ev_kind = ChunkEvent, ev_text = ap_chunk q\<rparr>"
    from None * obtain n' new_text T1 where n: "next_sequence n = Inr n'" and st: "ensure_run_started (dr_status cur) = Inr ()"
      and out: "append_text (rn_output (dr_row cur)) (ap_chunk q) MAX_OUTPUT_BYTES = Inr new_text"
      and e: "insert_event (?e n') T = Inr T1"
      and up: "update_one (\<lambda>r. owned_row (ap_owner q) r \<and> rn_status r = Running \<and> rn_sequence r = n)
        (\<lambda>r. r\<lparr>rn_status := Running, rn_sequence := n', rn_output := new_text\<rparr>) ''SequenceConflict'' T1 = Inr T'"
      by (auto simp: append_fresh_def result_ok)
    note ev = insert_eventD [OF e]
    have "distinct (map rn_id (run_rows T1))" using assms(1) ev by (simp add: disc_keys_ok_def)
    from update_oneD [OF up this, of ?i] obtain x where x: "x \<in> set (run_rows T1)" "rn_status x = Running" "rn_sequence x = n" "rn_id x = ?i"
      "T' = put_row ?i (\<lambda>_. x\<lparr>rn_status := Running, rn_sequence := n', rn_output := new_text\<rparr>) T1"
      by (auto simp: owned_row_def)
    then have xc: "x = dr_row cur" using assms(1) row ev by (simp add: disc_keys_ok_def) (metis run_row_unique)
    with nl read_run_lookup [OF find_ownedD(1) [OF cur]] have "\<not> lookup_run T (rn_id x)" by simp
    moreover from xc out have o: "new_text = rn_output x @ ap_chunk q" by (auto simp: append_text_def split: if_splits)
    then have "put_row (rn_id x) (\<lambda>_. x\<lparr>rn_status := Running, rn_sequence := n', rn_output := new_text\<rparr>) T1
        = put_row (rn_id x) (\<lambda>r. r\<lparr>rn_sequence := rn_sequence r + 1, rn_output := rn_output r @ ev_text (?e n')\<rparr>) T1"
      using x next_sequenceD [OF n] \<open>distinct (map rn_id (run_rows T1))\<close> by (intro put_row_cong) simp_all
    moreover have "next_event T x ChunkEvent (?e n')"
      using x ev next_sequenceD [OF n] by (simp add: next_event_def)
    ultimately show ?thesis
      using life_chunk [of x T "?e n'" S] x ev by simp
  qed
qed

lemma finish_life:
  assumes "disc_keys_ok T" and "finish_tx S new q n T = Inr (r, T')"
  shows "T' = T \<or> life S T T'"
proof -
  let ?i = "ow_run (fq_owner q)"
  from assms(2) obtain cur where cur: "find_owned S T (fq_owner q) = Inr cur" and b: "dr_binding cur = None"
    and *: "(case existing_event T ?i (fq_event q) of
        Some e \<Rightarrow> replayed TerminalEvent (fq_text q) n (dr_status cur = RunCompleted) e (cur, T)
      | None \<Rightarrow> finish_fresh S new q n cur T) = Inr (r, T')"
    by (auto simp: finish_tx_def result_ok)
  show ?thesis
  proof (cases "existing_event T ?i (fq_event q)")
    case (Some e)
    with * show ?thesis by (auto simp: replayed_def split: if_splits)
  next
    case None
    note row = find_runD [OF find_ownedD(3) [OF cur]]
    let ?e = "\<lambda>n'. \<lparr>ev_run = ?i, ev_sequence = n', ev_id = fq_event q, ev_kind = TerminalEvent, ev_text = fq_text q\<rparr>"
    let ?m = "\<lparr>mg_id = new, mg_thread = rn_thread (dr_row cur), mg_run = ?i, mg_role = AssistantMessage, mg_content = fq_text q, mg_packet = None\<rparr>"
    let ?f = "\<lambda>n' r :: run_row. r\<lparr>rn_status := RunCompleted, rn_sequence := n', rn_output := fq_text q\<rparr>"
    from None * obtain n' T1 T2 where n: "next_sequence n = Inr n'"
      and out: "validate_final_output (rn_output (dr_row cur)) (fq_text q) False = Inr ()"
      and e: "insert_event (?e n') T = Inr T1"
      and up: "update_one (\<lambda>r. owned_row (fq_owner q) r \<and> rn_status r = Running \<and> rn_sequence r = n) (?f n') ''SequenceConflict'' T1 = Inr T2"
      and m: "insert_message ?m T2 = Inr T'"
      by (auto simp: finish_fresh_def result_ok)
    from seal_writes [OF assms(1) e up m, of ?i] obtain x where x: "x \<in> set (run_rows T)" "rn_status x = Running" "rn_sequence x = n" "rn_id x = ?i"
      and T': "T' = (put_row ?i (\<lambda>_. ?f n' x) T)\<lparr>events := events T @ [?e n'], messages := messages T @ [?m]\<rparr>"
      and f: "0 < n' \<and> (\<forall>x \<in> set (events T). \<not> (ev_run x = ?i \<and> ev_id x = fq_event q))"
      by (auto simp: owned_row_def)
    have xc: "x = dr_row cur" using assms(1) row x by (metis disc_keys_ok_def run_row_unique)
    have "no_binding S (rn_packet x)"
      using find_ownedD(1) [OF cur] b xc by (auto simp: read_run_def no_binding_def result_ok)
    then have "life S T ((put_row (rn_id x) (\<lambda>_. ?f n' x) T)\<lparr>events := events T @ [?e n'], messages := messages T @ [?m]\<rparr>)"
      using x f next_sequenceD [OF n] out xc
      by (intro sealing_plain [OF assms(1) x(1), where s = RunCompleted and out = "fq_text q" and why = "rn_reason x" and d = "rn_dispatch x"])
        (simp_all add: sealed_def terminal_status_def active_def validate_final_output_def and_then_eq_Inr)
    with T' x(4) show ?thesis by simp
  qed
qed

lemma settle_life:
  assumes "disc_keys_ok T" and "settle_tx S new q n T = Inr (r, T')"
  shows "T' = T \<or> life S T T'"
proof -
  let ?i = "ow_run (sq_owner q)"
  from assms(2) obtain cur where cur: "find_owned S T (sq_owner q) = Inr cur"
    and *: "(case existing_event T ?i (sq_event q) of
        Some e \<Rightarrow> replayed TerminalEvent (sq_text q) n
          (dr_status cur = settled_status (sq_cleanup q) \<and> rn_output (dr_row cur) = sq_text q) e (cur, T)
      | None \<Rightarrow> settle_fresh S new q n cur T) = Inr (r, T')"
    by (auto simp: settle_tx_def result_ok)
  show ?thesis
  proof (cases "existing_event T ?i (sq_event q)")
    case (Some e)
    with * show ?thesis by (auto simp: replayed_def split: if_splits)
  next
    case None
    note row = find_runD [OF find_ownedD(3) [OF cur]]
    let ?s = "settled_status (sq_cleanup q)"
    let ?why = "Some (case sq_cleanup q of Settled \<Rightarrow> u ''author_stopped'' | Unresolved \<Rightarrow> u ''stop_cleanup_unresolved'')"
    let ?e = "\<lambda>n'. \<lparr>ev_run = ?i, ev_sequence = n', ev_id = sq_event q, ev_kind = TerminalEvent, ev_text = sq_text q\<rparr>"
    let ?m = "\<lparr>mg_id = new, mg_thread = rn_thread (dr_row cur), mg_run = ?i, mg_role = AssistantMessage,
        mg_content = with_note (sq_text q) (case sq_cleanup q of Settled \<Rightarrow> STOP_SETTLED_MESSAGE | Unresolved \<Rightarrow> STOP_UNRESOLVED_MESSAGE),
        mg_packet = Some (rn_packet (dr_row cur))\<rparr>"
    let ?f = "\<lambda>n' r :: run_row. r\<lparr>rn_status := ?s, rn_sequence := n', rn_output := sq_text q, rn_reason := ?why\<rparr>"
    from None * obtain n' T1 T2 where n: "next_sequence n = Inr n'"
      and out: "validate_final_output (rn_output (dr_row cur)) (sq_text q) True = Inr ()"
      and e: "insert_event (?e n') T = Inr T1"
      and up: "update_one (\<lambda>r. owned_row (sq_owner q) r \<and> rn_status r = Stopping \<and> rn_sequence r = n) (?f n') ''SequenceConflict'' T1 = Inr T2"
      and m: "insert_message ?m T2 = Inr T'"
      by (auto simp: settle_fresh_def result_ok)
    from seal_writes [OF assms(1) e up m, of ?i] obtain x where x: "x \<in> set (run_rows T)" "rn_status x = Stopping" "rn_sequence x = n" "rn_id x = ?i"
      and T': "T' = (put_row ?i (\<lambda>_. ?f n' x) T)\<lparr>events := events T @ [?e n'], messages := messages T @ [?m]\<rparr>"
      and f: "0 < n' \<and> (\<forall>x \<in> set (events T). \<not> (ev_run x = ?i \<and> ev_id x = sq_event q))"
      by (auto simp: owned_row_def)
    have xc: "x = dr_row cur" using assms(1) row x by (metis disc_keys_ok_def run_row_unique)
    have s: "can_follow l Stopping ?s" "terminal_status ?s" "?s \<noteq> RunCompleted" for l
      by (auto simp: settled_status_def terminal_status_def active_def split: provider_cleanup.splits)
    have "life S T ((put_row (rn_id x) (\<lambda>_. ?f n' x) T)\<lparr>events := events T @ [?e n'], messages := messages T @ [?m]\<rparr>)"
      using s x f next_sequenceD [OF n] out xc
      by (intro sealing_plain [OF assms(1) x(1), where s = ?s and out = "sq_text q" and why = ?why and d = "rn_dispatch x"])
        (simp_all add: sealed_def validate_final_output_def and_then_eq_Inr)
    with T' x(4) show ?thesis by simp
  qed
qed

lemma owned_self: "owned_row (run_owner_of r) (dr_row r)"
  by (simp add: owned_row_def run_owner_of_def)

lemma fail_life:
  assumes "disc_keys_ok T" and "fail_tx S new q n T = Inr (r, T')"
  shows "T' = T \<or> life S T T'"
proof -
  let ?i = "ow_run (fl_owner q)"
  let ?note = "failure_text (trim (fl_reason q))"
  from assms(2) obtain cur where cur: "find_owned S T (fl_owner q) = Inr cur" and st: "dr_status cur \<noteq> Stopping"
    and *: "(case existing_event T ?i (fl_event q) of
        Some e \<Rightarrow> replayed TerminalEvent ?note n (dr_status cur = RunFailed) e (cur, T)
      | None \<Rightarrow> and_then (dr_sequence cur) (\<lambda>k. and_then (ensure (n = k) (core_err ''SequenceConflict'')) (\<lambda>_.
          seal_run S new cur RunFailed (trim (fl_reason q)) (fl_event q) ?note T))) = Inr (r, T')"
    by (auto simp: fail_tx_def result_ok)
  show ?thesis
  proof (cases "existing_event T ?i (fl_event q)")
    case (Some e)
    with * show ?thesis by (auto simp: replayed_def split: if_splits)
  next
    case None
    with * have s: "seal_run S new cur RunFailed (trim (fl_reason q)) (fl_event q) ?note T = Inr (r, T')"
      by (auto simp: result_ok)
    then have "active (dr_status cur)" by (auto simp: seal_run_def result_ok)
    then have "can_follow l (dr_status cur) RunFailed" for l
      using st by (cases "dr_status cur") (auto simp: active_def terminal_status_def)
    from seal_run_life [OF assms(1) s find_ownedD(3) [OF cur] this] show ?thesis by simp
  qed
qed

lemma begin_life:
  assumes "disc_keys_ok T" and "begin_tx S ep new ow T = Inr (r, T')"
  shows "life S T T'"
proof -
  from assms(2) obtain cur where cur: "find_owned S T ow = Inr cur"
    by (auto simp: begin_tx_def result_ok)
  note row = find_runD [OF find_ownedD(3) [OF cur]]
  from assms(2) cur have q: "dr_status cur = Queued"
    by (auto simp: begin_tx_def result_ok split: run_status.splits)
  from assms(2) cur q consider
      (stale) x where "seal_run S new cur RunFailed (u ''context_stale'') (u ''system-stale-'' @ rn_id (dr_row cur))
        (u ''The story changed before this discussion started; the saved response was not dispatched.'') T = Inr (x, T')"
    | (claim) "update_one (\<lambda>r. owned_row ow r \<and> rn_status r = Queued \<and> rn_dispatch r = PendingDispatch)
        (\<lambda>r. r\<lparr>rn_status := Running, rn_dispatch := ClaimedDispatch\<rparr>) ''RunAlreadyStarted'' T = Inr T'"
    by (auto simp: begin_tx_def result_ok split: if_splits)
  then show ?thesis
  proof cases
    case (stale x)
    from seal_run_life [OF assms(1) stale find_ownedD(3) [OF cur]] q show ?thesis by simp
  next
    case claim
    have d: "distinct (map rn_id (run_rows T))" using assms(1) by (simp add: disc_keys_ok_def)
    let ?f = "\<lambda>r :: run_row. r\<lparr>rn_status := Running, rn_dispatch := ClaimedDispatch\<rparr>"
    from update_oneD [OF claim d, of "ow_run ow"] obtain x where x: "x \<in> set (run_rows T)" "rn_status x = Queued" "rn_id x = ow_run ow"
      and T': "T' = put_row (rn_id x) (\<lambda>_. ?f x) T"
      by (auto simp: owned_row_def)
    have "put_row (rn_id x) (\<lambda>_. ?f x) T = put_row (rn_id x) ?f T" by (rule put_row_cong [OF d x(1)]) simp
    with life_claim [OF x(1,2), of S] T' show ?thesis by simp
  qed
qed

lemma delivered_life:
  assumes "disc_keys_ok T" and "delivered_tx S ow T = Inr (r, T')"
  shows "life S T T'"
proof -
  from assms(2) obtain cur where cur: "find_owned S T ow = Inr cur" and st: "dr_status cur = Running"
    and T': "T' = fst (update_runs (\<lambda>r. owned_row ow r \<and> rn_status r = Running) (\<lambda>r. r\<lparr>rn_dispatch := DeliveredDispatch\<rparr>) T)"
    by (auto simp: delivered_tx_def result_ok Let_def)
  note row = find_runD [OF find_ownedD(3) [OF cur]]
  have "distinct (map rn_id (run_rows T))" using assms(1) by (simp add: disc_keys_ok_def)
  then have "T' = put_row (rn_id (dr_row cur)) (\<lambda>r. r\<lparr>rn_dispatch := DeliveredDispatch\<rparr>) T"
    unfolding T' using row st owned_self [of cur] find_ownedD(2) [OF cur]
    by (intro update_runs_row) (auto simp: owned_row_def dr_status_def)
  with life_delivered [OF row(1), of S] st show ?thesis by (simp add: dr_status_def)
qed

lemma stop_life:
  assumes "disc_keys_ok T" and "stop_tx S new a run T = Inr (r, T')"
  shows "T' = T \<or> life S T T'"
proof -
  from assms(2) obtain cur where cur: "read_run S T run = Inr cur" and pr: "same_project cur a = Inr ()"
    by (auto simp: stop_tx_def result_ok)
  note row = find_runD [OF read_runD [OF cur]]
  show ?thesis
  proof (cases "dr_status cur")
    case Queued
    with assms(2) cur pr have "seal_run S new cur RunStopped (u ''author_stopped'') (u ''system-stop-'' @ rn_id (dr_row cur)) STOP_SETTLED_MESSAGE T = Inr (r, T')"
      by (simp add: stop_tx_def)
    from seal_run_life [OF assms(1) this read_runD [OF cur]] Queued show ?thesis by simp
  next
    case Running
    let ?f = "\<lambda>r :: run_row. r\<lparr>rn_status := Stopping, rn_reason := Some (u ''author_stopped'')\<rparr>"
    from Running assms(2) cur pr have T': "T' = fst (update_runs (\<lambda>r. owned_row \<lparr>ow_project = project_id a,
        ow_namespace = operation_namespace a, ow_run = run\<rparr> r \<and> rn_status r = Running) ?f T)"
      by (auto simp: stop_tx_def result_ok Let_def)
    have "distinct (map rn_id (run_rows T))" using assms(1) by (simp add: disc_keys_ok_def)
    then have "T' = put_row (rn_id (dr_row cur)) ?f T"
      unfolding T' using row Running pr
      by (intro update_runs_row) (auto simp: owned_row_def dr_status_def same_project_def)
    with life_stopping [OF row(1), of S] Running show ?thesis by (simp add: dr_status_def)
  qed (use assms(2) cur pr in \<open>auto simp: stop_tx_def\<close>)
qed

lemma provider_status_follows:
  assumes "s = Running \<or> s = Stopping"
  shows "can_follow l s (provider_discussion_status s out cl)" "terminal_status (provider_discussion_status s out cl)"
  using assms by (auto simp: provider_discussion_status_def terminal_status_def active_def)

lemma report_outcome_allowed:
  "outcome_allows (report_result q n c cur b) (provider_discussion_status s (rp_status q) (rp_cleanup q))"
  by (cases "rp_status q") (auto simp: outcome_allows_def report_result_def provider_discussion_status_def)

lemma settle_provider_life:
  assumes "disc_keys_ok T" and "settle_provider_tx S new q n c T = Inr (r, T')"
  shows "T' = T \<or> life S T T'"
proof -
  from assms(2) obtain cur found where cur: "find_owned S T (rp_owner q) = Inr cur" and nl: "\<not> dr_lookup cur"
    and found: "read_provider_result S T (rn_id (dr_row cur)) (rn_packet (dr_row cur)) = Inr found"
    by (auto simp: settle_provider_tx_def reject_legacy_lookup_path_def result_ok)
  show ?thesis
  proof (cases found)
    case (Some saved)
    with assms(2) cur found show ?thesis by (auto simp: settle_provider_tx_def result_ok split: if_splits)
  next
    case None
    note row = find_runD [OF find_ownedD(3) [OF cur]]
    let ?i = "rn_id (dr_row cur)"
    let ?s = "provider_discussion_status (dr_status cur) (rp_status q) (rp_cleanup q)"
    let ?why = "provider_stop_reason (dr_status cur) (rp_status q) (rp_cleanup q)"
    from None assms(2) cur found obtain b dl k where
      acc: "accept_report S q n c cur T = Inr (b, dl, k)" and wr: "write_report S new q n c cur b dl k T = Inr T'"
      by (auto simp: settle_provider_tx_def result_ok)
    from acc have st: "dr_status cur = Running \<or> dr_status cur = Stopping" and k: "n = k"
      and out: "validate_final_output (rn_output (dr_row cur)) (rp_text q) True = Inr ()"
      by (auto simp: accept_report_def result_ok)
    let ?f = "\<lambda>n' r :: run_row. r\<lparr>rn_status := ?s, rn_sequence := n', rn_output := rp_text q, rn_reason := ?why,
           rn_dispatch := (if dl then DeliveredDispatch else rn_dispatch r)\<rparr>"
    let ?p = "report_result q n c cur b"
    from wr obtain note' n' T1 T2 T3 m where n: "next_sequence k = Inr n'"
      and e: "insert_event \<lparr>ev_run = ?i, ev_sequence = n', ev_id = rp_event q, ev_kind = TerminalEvent, ev_text = note'\<rparr> T = Inr T1"
      and up: "update_one (\<lambda>r. owned_row (run_owner_of cur) r \<and> active (rn_status r) \<and> rn_sequence r = k) (?f n') ''SequenceConflict'' T1 = Inr T2"
      and m: "insert_message m T2 = Inr T3" and mm: "mg_run m = ?i" "mg_role m = AssistantMessage"
      and p: "insert_result ?p T3 = Inr T'"
      unfolding write_report_def Let_def by (auto simp: result_ok)
    let ?e = "\<lparr>ev_run = ?i, ev_sequence = n', ev_id = rp_event q, ev_kind = TerminalEvent, ev_text = note'\<rparr>"
    from seal_writes [OF assms(1) e up m, of ?i] obtain x where x: "x \<in> set (run_rows T)" "rn_id x = ?i" "rn_sequence x = k"
      and T3: "T3 = (put_row ?i (\<lambda>_. ?f n' x) T)\<lparr>events := events T @ [?e], messages := messages T @ [m]\<rparr>"
      and f: "0 < n' \<and> (\<forall>x \<in> set (events T). \<not> (ev_run x = ?i \<and> ev_id x = rp_event q))"
      by (auto simp: owned_row_def run_owner_of_def)
    have xc: "x = dr_row cur" using assms(1) row x by (metis disc_keys_ok_def run_row_unique)
    have T': "T' = (put_row (rn_id x) (\<lambda>_. ?f n' x) T)\<lparr>events := events T @ [?e], messages := messages T @ [m], results := results T @ [?p]\<rparr>"
      and np: "rn_id x \<notin> pr_run ` set (results T)"
      using insert_resultD [OF p] T3 x(2) by (simp_all add: report_result_def)
    have rf: "result_for x ?e ?s (rp_text q) ?p"
      using report_outcome_allowed [of q n c cur b "dr_status cur"] x(3) xc k by (simp add: result_for_def report_result_def)
    have "\<not> lookup_run T (rn_id x)" using nl xc read_run_lookup [OF find_ownedD(1) [OF cur]] by simp
    then have "receipts_ok S T x ?e ?s (rp_text q) [?p]" using rf np by (simp add: receipts_ok_def)
    then have "life S T ((put_row (rn_id x) (\<lambda>_. ?f n' x) T)\<lparr>events := events T @ [?e], messages := messages T @ [m], results := results T @ [?p]\<rparr>)"
      using provider_status_follows [OF st] x xc f next_sequenceD [OF n] out mm
      by (intro sealing_step [OF assms(1) x(1), where s = ?s and out = "rp_text q" and why = ?why
            and d = "if dl then DeliveredDispatch else rn_dispatch x"])
        (simp_all add: sealed_def validate_final_output_def and_then_eq_Inr dr_status_def)
    with T' show ?thesis by simp
  qed
qed

lemma same_lookup_refl: "same_lookup_runs T (invocations T) I"
  by (simp add: same_lookup_runs_def lookup_run_def)

lemma life_dispatches: "life S T (T\<lparr>dispatches := ds\<rparr>)"
  using life_aux [OF same_lookup_refl [of T], where ds = ds and xs = "lookup_results T" and ys = "lookup_reads T" and S = S]
  by (cases T) simp

text \<open>Writes to the lookup tables that keep the set of lookup runs.\<close>

lemma life_lookup:
  assumes "same_lookup_runs T vs UNIV"
  shows "life S T (T\<lparr>invocations := vs, lookup_results := xs, lookup_reads := ys\<rparr>)"
  using life_aux [OF assms, where ds = "dispatches T" and xs = xs and ys = ys and S = S] by (cases T) simp

lemma life_invocations: "same_lookup_runs T vs UNIV \<Longrightarrow> life S T (T\<lparr>invocations := vs\<rparr>)"
  using life_lookup [where xs = "lookup_results T" and ys = "lookup_reads T" and T = T] by (cases T) simp

text \<open>A change of the state of some invocations.\<close>

lemma same_lookup_states:
  "same_lookup_runs T (map (\<lambda>v. if w v then v\<lparr>iv_state := f v\<rparr> else v) (invocations T)) I"
proof -
  have "list_ex P (map g xs) = list_ex P xs" if "\<And>x. P (g x) = P x" for P and g :: "invocation_row \<Rightarrow> invocation_row" and xs
    using that by (induction xs) simp_all
  then show ?thesis by (simp add: same_lookup_runs_def lookup_run_def)
qed

lemma claim_app_life: "claim_app_server_tx S ep ow d T = Inr (r, T') \<Longrightarrow> life S T T'"
  by (auto simp: claim_app_server_tx_def result_ok life_dispatches split: if_splits)

lemma acknowledge_life: "acknowledge_tx S ow d i T = Inr (r, T') \<Longrightarrow> life S T T'"
  by (auto simp: acknowledge_tx_def result_ok life_dispatches)

lemma mark_chain_life: "life S T (mark_chain_stopped i T)"
  unfolding mark_chain_stopped_def by (intro life_invocations same_lookup_states)

lemma mark_chain_simps [simp]:
  "run_rows (mark_chain_stopped i T) = run_rows T" "events (mark_chain_stopped i T) = events T"
  "messages (mark_chain_stopped i T) = messages T" "results (mark_chain_stopped i T) = results T"
  "threads (mark_chain_stopped i T) = threads T" "dispatches (mark_chain_stopped i T) = dispatches T"
  by (simp_all add: mark_chain_stopped_def)

lemma interrupt_active_life:
  assumes "disc_keys_ok T" and "find_run T i = Some (dr_row cur)" and "interrupt_active S new why note cur T = Inr (r, T')"
  shows "(life S)\<^sup>*\<^sup>* T T'"
proof -
  let ?T = "mark_chain_stopped (rn_id (dr_row cur)) T"
  from assms(3) have s: "seal_run S new cur Interrupted why (u ''system-interrupted-'' @ rn_id (dr_row cur)) note ?T = Inr (r, T')"
    by (simp add: interrupt_active_def)
  then have "active (dr_status cur)" by (auto simp: seal_run_def result_ok)
  then have "can_follow l (dr_status cur) Interrupted" for l by (cases "dr_status cur") (auto simp: active_def terminal_status_def)
  moreover have "find_run ?T i = Some (dr_row cur)" using assms(2) by (simp add: find_run_def)
  moreover have "disc_keys_ok ?T" using assms(1) by (simp add: disc_keys_ok_def)
  ultimately have "life S ?T T'" by (intro seal_run_life [OF _ s]) auto
  with mark_chain_life [of S T] show ?thesis by (meson converse_rtranclp_into_rtranclp r_into_rtranclp)
qed

lemma interrupt_life:
  assumes "disc_keys_ok T" and "interrupt_tx S new a run T = Inr (r, T')"
  shows "(life S)\<^sup>*\<^sup>* T T'"
proof -
  from assms(2) obtain cur where cur: "read_run S T run = Inr cur"
    and *: "(if active (dr_status cur) then interrupt_active S new (u ''project_close_cleanup'') STOP_UNRESOLVED_MESSAGE cur T
        else Inr (cur, T)) = Inr (r, T')"
    by (auto simp: interrupt_tx_def result_ok)
  show ?thesis
  proof (cases "active (dr_status cur)")
    case True
    with * interrupt_active_life [OF assms(1) read_runD [OF cur]] show ?thesis by simp
  qed (use * in simp)
qed

lemma recover_one_life:
  assumes "disc_keys_ok T" and "recover_one S fresh i T = Inr T'"
  shows "(life S)\<^sup>*\<^sup>* T T'"
proof -
  from assms(2) obtain cur r where cur: "read_run S T i = Inr cur"
    and "interrupt_active S (fresh i) (u ''project_reopened'')
      (u ''The project was reopened before this discussion produced a complete response.'') cur T = Inr (r, T')"
    by (auto simp: recover_one_def result_ok)
  from interrupt_active_life [OF assms(1) read_runD [OF cur] this(2)] show ?thesis .
qed

lemma lives_keys: "(life S)\<^sup>*\<^sup>* T T' \<Longrightarrow> disc_keys_ok T \<Longrightarrow> disc_keys_ok T'"
  by (induction rule: rtranclp_induct) (auto intro: life_keys)

lemma lives_ok: "(life S)\<^sup>*\<^sup>* T T' \<Longrightarrow> disc_ok S T \<Longrightarrow> disc_ok S T'"
  by (induction rule: rtranclp_induct) (auto intro: life_ok)

lemma recover_life:
  assumes "disc_keys_ok T" and "recover_tx S fresh T = Inr (n, T')"
  shows "(life S)\<^sup>*\<^sup>* T T'"
proof -
  from assms(2) have "try_fold (\<lambda>T i. recover_one S fresh i T) T (active_ids T) = Inr T'"
    by (auto simp: recover_tx_def result_ok)
  then have "disc_keys_ok T' \<and> (life S)\<^sup>*\<^sup>* T T'"
  proof (rule try_fold_invariant)
    fix T1 i T2 assume "disc_keys_ok T1 \<and> (life S)\<^sup>*\<^sup>* T T1" and "recover_one S fresh i T1 = Inr T2"
    then show "disc_keys_ok T2 \<and> (life S)\<^sup>*\<^sup>* T T2"
      using recover_one_life [of T1 S fresh i T2] lives_keys [of S T1 T2] by (auto elim: rtranclp_trans)
  qed (simp add: assms(1))
  then show ?thesis by simp
qed

lemma ensure_threadD:
  assumes "ensure_thread new D a doc T = Inr (th, T')"
  obtains hs where "T' = T\<lparr>threads := hs\<rparr>" "th_id ` set (threads T) \<subseteq> th_id ` set hs"
proof (cases "find_thread T a doc")
  case None
  with assms have "T' = T\<lparr>threads := threads T @ [\<lparr>th_id = new, th_project = project_id a,
      th_namespace = operation_namespace a, th_document = doc\<rparr>]\<rparr>"
    by (auto simp: ensure_thread_def split: if_splits)
  then show ?thesis by (rule that) auto
next
  case (Some h)
  with assms have "T' = T" by (simp add: ensure_thread_def)
  then have "T' = T\<lparr>threads := threads T\<rparr>" by simp
  then show ?thesis by (rule that) simp
qed

lemma insert_initialsD:
  assumes "(case a of None \<Rightarrow> Inr T
        | Some x \<Rightarrow> insert_initial S run pk fz ns x T) = Inr T'"
  shows "\<exists>vs. T' = T\<lparr>invocations := invocations T @ vs\<rparr> \<and> (\<forall>v \<in> set vs. iv_run v = run)"
proof (cases a)
  case None
  with assms have "T' = T\<lparr>invocations := invocations T @ []\<rparr>" by simp
  then show ?thesis by (metis empty_iff list.set(1))
next
  case (Some x)
  with assms have "T' = T\<lparr>invocations := invocations T @ [prepared_invocation run 0 pk fz ns x]\<rparr>"
    by (auto simp: insert_initial_def insert_invocation_def result_ok split: if_splits)
  then show ?thesis by (intro exI [of _ "[prepared_invocation run 0 pk fz ns x]"]) (simp add: prepared_invocation_def)
qed

lemma start_life:
  assumes "start_tx S C F q payload W = Inr (r, W')"
  shows "W' = W \<or> life S (snd W) (snd W')"
proof (cases "existing_operation (snd W) (st_access q) (st_operation q)")
  case (Some old)
  with assms show ?thesis by (auto simp: start_tx_def result_ok)
next
  case None
  with assms have "start_fresh S C F q payload W = Inr (r, W')" by (simp add: start_tx_def)
  then obtain pk th T1 v T2 T3 T4 where
    th: "ensure_thread (fi_thread F) (fst W) (st_access q) (document_id (st_expected q)) (snd W) = Inr (th, T1)"
    and r: "insert_run (fst W) (new_run q payload F th pk v) T1 = Inr T2"
    and iv: "(case st_lookup q of None \<Rightarrow> Inr T2
        | Some a \<Rightarrow> insert_initial S (fi_run F) pk (packet_frozen S pk) (operation_namespace (st_access q)) a T2) = Inr T3"
    and m: "insert_message \<lparr>mg_id = fi_message F, mg_thread = th, mg_run = fi_run F, mg_role = UserMessage,
        mg_content = st_instruction q, mg_packet = Some pk\<rparr> T3 = Inr T4"
    and W': "snd W' = T4"
    unfolding start_fresh_def by (auto simp: result_ok)
  let ?m = "\<lparr>mg_id = fi_message F, mg_thread = th, mg_run = fi_run F, mg_role = UserMessage,
        mg_content = st_instruction q, mg_packet = Some pk\<rparr>"
  let ?r = "new_run q payload F th pk v"
  obtain hs where T1: "T1 = (snd W)\<lparr>threads := hs\<rparr>" and hs: "th_id ` set (threads (snd W)) \<subseteq> th_id ` set hs"
    by (rule ensure_threadD [OF th])
  have new: "rn_id ?r \<notin> rn_id ` set (run_rows (snd W))" and T2: "T2 = T1\<lparr>run_rows := run_rows T1 @ [?r]\<rparr>"
    and t: "rn_thread ?r \<in> th_id ` set hs"
    using r T1 by (simp_all add: insert_run_def split: if_splits)
  from insert_initialsD [OF iv] obtain vs where T3: "T3 = T2\<lparr>invocations := invocations T2 @ vs\<rparr>"
    and vs: "\<forall>v \<in> set vs. iv_run v = fi_run F" by blast
  have "same_lookup_runs (snd W) (invocations (snd W) @ vs) (rn_id ` set (run_rows (snd W)))"
    using new vs by (auto simp: same_lookup_runs_def lookup_run_def list_ex_iff new_run_def)
  then have "life S (snd W) ((snd W)\<lparr>threads := hs, run_rows := run_rows (snd W) @ [?r], invocations := invocations (snd W) @ vs,
        messages := messages (snd W) @ [?m]\<rparr>)"
    using new hs t by (intro life_start) (simp_all add: new_run_def)
  then show ?thesis using insert_messageD [OF m] T3 T2 T1 W' by simp
qed

end
