(* ===== verification/Discussion_Chain.thy ===== *)
theory Discussion_Chain
  imports Discussion_Proofs
begin

text \<open>
  The transactions of the lookup chain take the steps of \<open>life\<close>: writes to the lookup tables that
  keep the set of lookup runs, then at most one sealing step. A lookup run has no output while it is
  active, so that the text of its final response extends what was saved.
\<close>

section \<open>Writes of the chain\<close>

lemma same_lookup_append: "\<forall>v \<in> set vs. iv_ordinal v \<noteq> 0 \<Longrightarrow> same_lookup_runs T (invocations T @ vs) I"
  by (auto simp: same_lookup_runs_def lookup_run_def list_ex_iff)

lemma mark_chain_lookup [simp]: "lookup_run (mark_chain_stopped i T) j = lookup_run T j"
  using same_lookup_states [of T "\<lambda>v. iv_run v = i" "\<lambda>v. chain_stopped (iv_state v)" UNIV]
  by (simp add: same_lookup_runs_def mark_chain_stopped_def)

lemma set_invocation_life: "life S T (fst (set_invocation run k s s' T))"
  unfolding set_invocation_def Let_def fst_conv by (intro life_invocations same_lookup_states)

lemma set_invocation_simps [simp]:
  "run_rows (fst (set_invocation run k s s' T)) = run_rows T" "events (fst (set_invocation run k s s' T)) = events T"
  "messages (fst (set_invocation run k s s' T)) = messages T" "results (fst (set_invocation run k s s' T)) = results T"
  "threads (fst (set_invocation run k s s' T)) = threads T"
  "lookup_results (fst (set_invocation run k s s' T)) = lookup_results T"
  "lookup_reads (fst (set_invocation run k s s' T)) = lookup_reads T"
  "policy_epoch (fst (set_invocation run k s s' T)) = policy_epoch T"
  by (simp_all add: set_invocation_def Let_def)

lemma life_lookup_rows: "life S T (T\<lparr>lookup_results := xs, lookup_reads := ys\<rparr>)"
  using life_lookup [OF same_lookup_refl [of T], where xs = xs and ys = ys and S = S] by (cases T) simp

lemma life_results: "life S T (T\<lparr>lookup_results := xs\<rparr>)"
  using life_lookup_rows [where T = T and xs = xs and ys = "lookup_reads T" and S = S] by (cases T) simp

lemma life_reads: "life S T (T\<lparr>lookup_reads := ys\<rparr>)"
  using life_lookup_rows [where T = T and xs = "lookup_results T" and ys = ys and S = S] by (cases T) simp

lemma insert_lookup_resultD: "insert_lookup_result x T = Inr T' \<Longrightarrow> T' = T\<lparr>lookup_results := lookup_results T @ [x]\<rparr>"
  by (simp add: insert_lookup_result_def split: if_splits)

lemma store_outcomeD:
  assumes "store_outcome v q status e parsed T = Inr T'"
  shows "\<exists>x. T' = fst (set_invocation (iv_run v) (iv_ordinal v) IvClaimed (outcome_state status (lp_cleanup q) parsed)
      (T\<lparr>lookup_results := lookup_results T @ [x]\<rparr>))"
  using assms by (auto simp: store_outcome_def result_ok dest!: insert_lookup_resultD)

lemma store_outcome_lives:
  assumes "store_outcome v q status e parsed T = Inr T'"
  shows "(life S)\<^sup>*\<^sup>* T T' \<and> run_rows T' = run_rows T"
proof -
  from store_outcomeD [OF assms] obtain x where T': "T' = fst (set_invocation (iv_run v) (iv_ordinal v) IvClaimed
      (outcome_state status (lp_cleanup q) parsed) (T\<lparr>lookup_results := lookup_results T @ [x]\<rparr>))" ..
  have "life S T (T\<lparr>lookup_results := lookup_results T @ [x]\<rparr>)" by (rule life_results)
  moreover have "life S (T\<lparr>lookup_results := lookup_results T @ [x]\<rparr>) T'" unfolding T' by (rule set_invocation_life)
  ultimately show ?thesis by (simp add: T')
qed

lemma store_readD: "store_read E ow k r value tr T = Inr T' \<Longrightarrow> \<exists>ys. T' = T\<lparr>lookup_reads := ys\<rparr>"
  by (auto simp: store_read_def result_ok split: option.splits if_splits intro: exI [of _ "lookup_reads T"])

lemma read_rounds:
  assumes "try_fold (read_round_step S ow k l fz) a rs = Inr b"
  shows "\<exists>ys. snd b = (snd a)\<lparr>lookup_reads := ys\<rparr>"
  using assms
proof (induction rs arbitrary: a)
  case Nil
  then have "snd b = (snd a)\<lparr>lookup_reads := lookup_reads (snd a)\<rparr>" by simp
  then show ?case ..
next
  case (Cons r rs)
  then obtain c where c: "read_round_step S ow k l fz a r = Inr c" and rest: "try_fold (read_round_step S ow k l fz) c rs = Inr b"
    by (auto simp: result_ok)
  from c obtain ys where "snd c = (snd a)\<lparr>lookup_reads := ys\<rparr>"
    by (auto simp: read_round_step_def result_ok split: prod.splits dest!: store_readD)
  with Cons.IH [OF rest] show ?case by auto
qed

section \<open>Sealing steps\<close>

lemma chain_seal_life:
  assumes "disc_keys_ok T" and "seal_run S new cur s why ei note (mark_chain_stopped (rn_id (dr_row cur)) T) = Inr (r, T')"
    and "find_run T i = Some (dr_row cur)" and "can_follow (lookup_run T (rn_id (dr_row cur))) (dr_status cur) s"
    and "s \<noteq> RunCompleted"
  shows "(life S)\<^sup>*\<^sup>* T T'"
proof -
  let ?T = "mark_chain_stopped (rn_id (dr_row cur)) T"
  have "find_run ?T i = Some (dr_row cur)" using assms(3) by (simp add: find_run_def)
  moreover have "disc_keys_ok ?T" using assms(1) by (simp add: disc_keys_ok_def)
  ultimately have "life S ?T T'" using assms(4,5) by (intro seal_run_life [OF _ assms(2)]) auto
  with mark_chain_life [of S T] show ?thesis by (meson converse_rtranclp_into_rtranclp r_into_rtranclp)
qed

text \<open>The final response of a chain.\<close>

lemma seal_lookup_life:
  assumes "disc_ok S T" and "seal_lookup_discussion S new cur pk ei t T = Inr (r, T')"
    and "find_run T i = Some (dr_row cur)" and "lookup_run T (rn_id (dr_row cur))"
  shows "life S T T'"
proof -
  have keys: "disc_keys_ok T" using assms(1) by (simp add: disc_ok_def)
  note row = find_runD [OF assms(3)]
  let ?i = "rn_id (dr_row cur)"
  let ?e = "\<lambda>n'. \<lparr>ev_run = ?i, ev_sequence = n', ev_id = ei, ev_kind = TerminalEvent, ev_text = t\<rparr>"
  let ?m = "\<lparr>mg_id = new, mg_thread = rn_thread (dr_row cur), mg_run = ?i, mg_role = AssistantMessage, mg_content = t, mg_packet = Some pk\<rparr>"
  let ?f = "\<lambda>n' r :: run_row. r\<lparr>rn_status := RunCompleted, rn_sequence := n', rn_output := t, rn_reason := None\<rparr>"
  from assms(2) obtain n n' T1 T2 where n: "next_sequence n = Inr n'" and e: "insert_event (?e n') T = Inr T1"
    and up: "update_one (\<lambda>r. owned_row (run_owner_of cur) r \<and> rn_status r = Running \<and> rn_sequence r = n) (?f n') ''SequenceConflict'' T1 = Inr T2"
    and m: "insert_message ?m T2 = Inr T'"
    unfolding seal_lookup_discussion_def by (auto simp: result_ok)
  from seal_writes [OF keys e up m, of ?i] obtain x where x: "x \<in> set (run_rows T)" "rn_status x = Running" "rn_sequence x = n" "rn_id x = ?i"
    and T': "T' = (put_row ?i (\<lambda>_. ?f n' x) T)\<lparr>events := events T @ [?e n'], messages := messages T @ [?m]\<rparr>"
    and f: "0 < n' \<and> (\<forall>x \<in> set (events T). \<not> (ev_run x = ?i \<and> ev_id x = ei))"
    by (auto simp: owned_row_def run_owner_of_def)
  have "run_ok S T x" using assms(1) x(1) by (simp add: disc_ok_def list_all_iff)
  then have out: "rn_output x = []" using assms(4) x(2,4) by (simp add: run_ok_def active_def)
  have "life S T ((put_row (rn_id x) (\<lambda>_. ?f n' x) T)\<lparr>events := events T @ [?e n'], messages := messages T @ [?m]\<rparr>)"
    using x f next_sequenceD [OF n] out assms(4)
    by (intro sealing_plain [OF keys x(1), where s = RunCompleted and out = t and why = None and d = "rn_dispatch x"])
      (simp_all add: sealed_def terminal_status_def active_def starts_with_iff)
  with T' x(4) show ?thesis by simp
qed

section \<open>The transactions\<close>

lemma claim_lookup_life:
  assumes "disc_keys_ok T" and "claim_lookup_tx S ep new ow k T = Inr (r, T')"
  shows "(life S)\<^sup>*\<^sup>* T T'"
proof -
  from assms(2) obtain cur where cur: "find_owned S T ow = Inr cur" and st: "ensure_run_started (dr_status cur) = Inr ()"
    by (auto simp: claim_lookup_tx_def result_ok)
  from assms(2) cur consider
      (stale) x why ei msg where "seal_run S new cur RunFailed why ei msg (mark_chain_stopped (rn_id (dr_row cur)) T) = Inr (x, T')"
    | (claim) w where "claim_invocation S ow k T = Inr (w, T')"
    by (auto simp: claim_lookup_tx_def result_ok split: if_splits)
  then show ?thesis
  proof cases
    case stale
    have "can_follow l (dr_status cur) RunFailed" for l
      using st by (cases "dr_status cur") (auto simp: ensure_run_started_def terminal_status_def active_def)
    then show ?thesis by (intro chain_seal_life [OF assms(1) stale find_ownedD(3) [OF cur]]) simp_all
  next
    case claim
    then have "T' = fst (set_invocation (ow_run ow) k IvPrepared IvClaimed T)"
      by (auto simp: claim_invocation_def result_ok split: prod.splits)
    then show ?thesis using set_invocation_life by blast
  qed
qed

lemma finish_invocation_life:
  assumes "disc_ok S T" and "finish_invocation S new q cur pk e parsed T = Inr (r, T')"
    and "find_run T i = Some (dr_row cur)" and "lookup_run T (rn_id (dr_row cur))"
    and "dr_status cur = Running \<or> dr_status cur = Stopping"
  shows "(life S)\<^sup>*\<^sup>* T T'"
proof -
  have keys: "disc_keys_ok T" using assms(1) by (simp add: disc_ok_def)
  have follow: "can_follow (lookup_run T (rn_id (dr_row cur))) (dr_status cur) s" if "s \<in> {Interrupted, RunStopped, RunFailed}" for s
    using that assms(4,5) by (auto simp: terminal_status_def active_def)
  note seal = chain_seal_life [OF keys _ assms(3) follow]
  show ?thesis
  proof (cases parsed)
    case None
    with assms(2) show ?thesis by (auto simp: finish_invocation_def Let_def split: if_splits intro: seal)
  next
    case (Some env)
    show ?thesis
    proof (cases "dr_status cur = Stopping")
      case True
      with Some assms(2) show ?thesis by (auto simp: finish_invocation_def Let_def split: if_splits intro: seal)
    next
      case False
      show ?thesis
      proof (cases env)
        case (NeedsContext v rs)
        with False Some assms(2) show ?thesis by (auto simp: finish_invocation_def Let_def result_ok)
      next
        case (DiscussionText v t)
        with False Some assms(2) have "seal_lookup_discussion S new cur pk (lp_event q) t T = Inr (r, T')"
          by (simp add: finish_invocation_def Let_def)
        from seal_lookup_life [OF assms(1) this assms(3,4)] show ?thesis by blast
      qed
    qed
  qed
qed

lemma settle_lookup_life:
  assumes "disc_ok S T" and "settle_lookup_tx S new q k T = Inr (r, T')"
  shows "(life S)\<^sup>*\<^sup>* T T'"
proof -
  from assms(2) obtain cur where cur: "find_owned S T (lp_owner q) = Inr cur" and l: "dr_lookup cur"
    and *: "(case find_lookup_result T (ow_run (lp_owner q)) k of
      Some saved \<Rightarrow> if lookup_result_matches saved q then Inr (cur, T) else Inl (core_err ''LookupResultConflict'')
    | None \<Rightarrow> settle_lookup_fresh S new q k cur T) = Inr (r, T')"
    by (auto simp: settle_lookup_tx_def result_ok)
  show ?thesis
  proof (cases "find_lookup_result T (ow_run (lp_owner q)) k")
    case (Some saved)
    with * show ?thesis by (auto split: if_splits)
  next
    case None
    with * obtain v where st: "dr_status cur = Running \<or> dr_status cur = Stopping" and v: "read_identity T (lp_owner q) k = Inr v"
      by (auto simp: settle_lookup_fresh_def result_ok)
    obtain parsed refused where lr: "lookup_response S (iv_packet v) q = (parsed, refused)" by fastforce
    from None * v lr obtain status e T1 where out: "store_outcome v q status e parsed T = Inr T1"
      and fin: "finish_invocation S new q cur (iv_packet v) e parsed T1 = Inr (r, T')"
      by (auto simp: settle_lookup_fresh_def result_ok Let_def)
    from store_outcome_lives [OF out] have lives: "(life S)\<^sup>*\<^sup>* T T1" and rows: "run_rows T1 = run_rows T" by auto
    have ok1: "disc_ok S T1" using lives_ok [OF lives assms(1)] .
    have row: "find_run T1 (ow_run (lp_owner q)) = Some (dr_row cur)"
      using find_ownedD(3) [OF cur] rows by (simp add: find_run_def)
    have "lookup_run T1 (rn_id (dr_row cur)) = lookup_run T (rn_id (dr_row cur))"
    proof -
      from store_outcomeD [OF out] obtain x where T1: "T1 = fst (set_invocation (iv_run v) (iv_ordinal v) IvClaimed
          (outcome_state status (lp_cleanup q) parsed) (T\<lparr>lookup_results := lookup_results T @ [x]\<rparr>))" ..
      have "life S (T\<lparr>lookup_results := lookup_results T @ [x]\<rparr>) T1" unfolding T1 by (rule set_invocation_life)
      then show ?thesis
        using find_runD [OF find_ownedD(3) [OF cur]] by (auto dest!: life_lookup_run [where i = "rn_id (dr_row cur)"])
    qed
    with l read_run_lookup [OF find_ownedD(1) [OF cur]] have "lookup_run T1 (rn_id (dr_row cur))" by simp
    from finish_invocation_life [OF ok1 fin row this st] lives show ?thesis by simp
  qed
qed

lemma stop_lookup_life:
  assumes "disc_keys_ok T" and "stop_lookup S new cur why ei note T = Inr (r, T')" and "find_run T i = Some (dr_row cur)"
    and "dr_status cur = Running"
  shows "(life S)\<^sup>*\<^sup>* T T'"
proof -
  from assms(2) obtain x where "seal_run S new cur RunFailed why ei note (mark_chain_stopped (rn_id (dr_row cur)) T) = Inr (x, T')"
    by (auto simp: stop_lookup_def result_ok)
  from chain_seal_life [OF assms(1) this assms(3)] assms(4) show ?thesis by (simp add: terminal_status_def active_def)
qed

lemma expand_lookup_life:
  assumes "expand_lookup S ow k cur a v T = Inr (r, T')"
  shows "(life S)\<^sup>*\<^sup>* T T'"
proof -
  from assms obtain l fz rs exs T1 child where fold: "try_fold (read_round_step S ow k l fz) ([], T) rs = Inr (exs, T1)"
    and ins: "insert_child S (rn_id (dr_row cur)) (k + 1) child fz (ow_namespace ow) a T1 = Inr T'"
    unfolding expand_lookup_def by (auto simp: result_ok)
  from read_rounds [OF fold] obtain ys where "T1 = T\<lparr>lookup_reads := ys\<rparr>" by auto
  then have "life S T T1" using life_reads by blast
  moreover from ins have "T' = T1\<lparr>invocations := invocations T1 @ [prepared_invocation (rn_id (dr_row cur)) (k + 1) child fz (ow_namespace ow) a]\<rparr>"
    by (auto simp: insert_child_def insert_invocation_def result_ok split: if_splits)
  then have "life S T1 T'" by (simp add: life_invocations same_lookup_append prepared_invocation_def)
  ultimately show ?thesis by simp
qed

lemma advance_lookup_life:
  assumes "disc_keys_ok T" and "advance_lookup_tx S new ow k epoch T = Inr (r, T')"
  shows "(life S)\<^sup>*\<^sup>* T T'"
proof -
  from assms(2) obtain cur a v where cur: "find_owned S T ow = Inr cur" and st: "dr_status cur = Running"
    and "(if min 255 (unat (la_extra a) + 1) \<le> k \<or> 2 \<le> k then
      stop_lookup S new cur (u ''lookup_limit'') (u ''lookup-limit-'' @ show_nat k)
        (u ''This lookup request reached its bounded context-expansion limit.'') T
    else if iv_source v \<noteq> epoch then
      stop_lookup S new cur (u ''context_stale'') (u ''lookup-stale-'' @ show_nat k)
        (u ''The story changed before the next lookup request; no new provider call was made.'') T
    else expand_lookup S ow k cur a v T) = Inr (r, T')"
    unfolding advance_lookup_tx_def by (auto simp: result_ok)
  then show ?thesis
    using stop_lookup_life [OF assms(1) _ find_ownedD(3) [OF cur] st] expand_lookup_life by (metis (no_types))
qed

lemma halt_lookup_life:
  assumes "disc_keys_ok T" and "halt_lookup_tx S new ow why T = Inr (r, T')"
  shows "(life S)\<^sup>*\<^sup>* T T'"
proof -
  from assms(2) obtain cur where cur: "find_owned S T ow = Inr cur"
    and *: "(if terminal_status (dr_status cur) then Inr (cur, T)
      else seal_run S new cur Interrupted (u ''lookup_halted'') (u ''lookup-halt-'' @ show_int (rn_sequence (dr_row cur))) why
           (mark_chain_stopped (rn_id (dr_row cur)) T)) = Inr (r, T')"
    by (auto simp: halt_lookup_tx_def result_ok)
  show ?thesis
  proof (cases "terminal_status (dr_status cur)")
    case False
    then have "can_follow l (dr_status cur) Interrupted" for l
      by (cases "dr_status cur") (auto simp: terminal_status_def active_def)
    with False * chain_seal_life [OF assms(1) _ find_ownedD(3) [OF cur]] show ?thesis by auto
  qed (use * in simp)
qed

end
