(* ===== verification/Discussion_Steps.thy ===== *)
theory Discussion_Steps
  imports Discussion_Chain
begin

text \<open>
  Turns of the actor over the discussion tables (\<open>disc_step\<close>): every turn takes steps of
  \<open>life\<close>, so the well-formedness of the tables and what a step keeps of a run hold along all of
  them; what stays readable of events, receipts and rows.
\<close>

section \<open>Runs of the actor\<close>

text \<open>
  A turn of the actor: a discussion command, the interruption of one run by the close path, the
  sweep of a reopened project, or a command of another family, which leaves these tables alone.
\<close>

inductive disc_step :: "services \<Rightarrow> compiler \<Rightarrow> host \<Rightarrow> host \<Rightarrow> bool" for S C where
  step_command: "handle_discussion S C t F c H = (r, H') \<Longrightarrow> disc_step S C H H'"
| step_interrupt: "interrupt_discussion S t a run H = (r, H') \<Longrightarrow> disc_step S C H H'"
| step_reopen: "recover_interrupted_discussions S t fresh H = (r, H') \<Longrightarrow> disc_step S C H H'"
| step_other: "handle E t c P = (r, P') \<Longrightarrow> disc_step S C (P, T) (P', T)"

inductive_cases disc_stepE: "disc_step S C H H'"

definition empty_tables :: "int \<Rightarrow> disc_tables" where
  "empty_tables n = \<lparr>threads = [], run_rows = [], events = [], messages = [], results = [], invocations = [],
     lookup_results = [], lookup_reads = [], dispatches = [], policy_epoch = n\<rparr>"

lemma host_tx_result:
  assumes "host_tx t f H = (r, H')"
  shows "snd H' = snd H \<or> (\<exists>x. f (snd H) = Inr (x, snd H'))"
  using assms
  by (cases "f (snd H)") (auto simp: host_tx_def in_tx_def split: if_splits prod.splits tx_outcome.splits sum.splits)

lemma host_store_tx_result:
  assumes "host_store_tx t f H = (r, H')"
  shows "snd H' = snd H \<or> (\<exists>x W. f (store (fst H), snd H) = Inr (x, W) \<and> snd W = snd H')"
  using assms
  by (cases "f (store (fst H), snd H)")
    (auto simp: host_store_tx_def in_tx_def split: if_splits prod.splits tx_outcome.splits sum.splits)

lemma after_host_checks_result:
  assumes "after_host_checks c f H = (r, H')"
  shows "H' = H \<or> (\<exists>x. c = Inr x \<and> f x = (r, H'))"
  using assms by (cases c) (auto simp: after_host_checks_def)

text \<open>A checked transaction whose body takes steps of \<open>life\<close>.\<close>

lemma checked_tx_lives:
  assumes "after_host_checks c (\<lambda>x. host_tx t (f x) H) H = (r, H')"
    and "\<And>x y T'. f x (snd H) = Inr (y, T') \<Longrightarrow> (life S)\<^sup>*\<^sup>* (snd H) T'"
  shows "(life S)\<^sup>*\<^sup>* (snd H) (snd H')"
  using after_host_checks_result [OF assms(1)] host_tx_result [where H = H and H' = H'] assms(2) by (metis rtranclp.rtrancl_refl)

lemma or_step: "T' = T \<or> life S T T' \<Longrightarrow> (life S)\<^sup>*\<^sup>* T T'"
  by auto

lemma mutateD: "mutate f o' = (r, H') \<Longrightarrow> \<exists>r0 H0. o' = (r0, H0) \<and> snd H' = snd H0"
  by (auto simp: mutate_def split: prod.splits)

lemma handle_discussion_lives:
  assumes ok: "disc_ok S (snd H)" and "handle_discussion S C t F c H = (r, H')"
  shows "(life S)\<^sup>*\<^sup>* (snd H) (snd H')"
proof -
  have keys: "disc_keys_ok (snd H)" using ok by (simp add: disc_ok_def)
  show ?thesis
  proof (cases c)
    case (DClaimAppServer ow d)
    from mutateD [OF assms(2) [unfolded DClaimAppServer handle_discussion.simps]]
    obtain r0 H0 where o: "claim_app_server_dispatch S t ow d H = (r0, H0)" and s: "snd H' = snd H0" by blast
    show ?thesis unfolding s
      by (rule checked_tx_lives [OF o [unfolded claim_app_server_dispatch_def]]) (auto dest: claim_app_life)
  next
    case (DAckAppServer ow d i)
    from mutateD [OF assms(2) [unfolded DAckAppServer handle_discussion.simps]]
    obtain r0 H0 where o: "acknowledge_app_server_turn S t ow d i H = (r0, H0)" and s: "snd H' = snd H0" by blast
    show ?thesis unfolding s
      by (rule checked_tx_lives [OF o [unfolded acknowledge_app_server_turn_def]]) (auto dest: acknowledge_life)
  next
    case (DStart q)
    from mutateD [OF assms(2) [unfolded DStart handle_discussion.simps]]
    obtain r0 H0 where o: "start_discussion S C t F q H = (r0, H0)" and s: "snd H' = snd H0" by blast
    show ?thesis unfolding s
      using after_host_checks_result [OF o [unfolded start_discussion_def]] host_store_tx_result start_life by (metis or_step snd_conv)
  next
    case (DBegin ow)
    from mutateD [OF assms(2) [unfolded DBegin handle_discussion.simps]]
    obtain r0 H0 where o: "begin_discussion_run S t ow H = (r0, H0)" and s: "snd H' = snd H0" by blast
    then have "H0 = H \<or> (\<exists>x. host_tx t (begin_tx S (source_epoch_of (fst H)) (new_first t) ow) H = (x, H0))"
      using after_host_checks_result [OF o [unfolded begin_discussion_run_def]] by (auto split: prod.splits)
    then show ?thesis unfolding s using host_tx_result begin_life [OF keys] by (metis or_step)
  next
    case (DMarkDelivered ow)
    from mutateD [OF assms(2) [unfolded DMarkDelivered handle_discussion.simps]]
    obtain r0 H0 where o: "mark_discussion_delivered S t ow H = (r0, H0)" and s: "snd H' = snd H0" by blast
    show ?thesis unfolding s
      by (rule checked_tx_lives [OF o [unfolded mark_discussion_delivered_def]]) (auto dest: delivered_life [OF keys])
  next
    case (DAppend q)
    from mutateD [OF assms(2) [unfolded DAppend handle_discussion.simps]]
    obtain r0 H0 where o: "append_discussion_output S t q H = (r0, H0)" and s: "snd H' = snd H0" by blast
    show ?thesis unfolding s
      by (rule checked_tx_lives [OF o [unfolded append_discussion_output_def]]) (rule or_step, rule append_life [OF keys])
  next
    case (DFinish q)
    from mutateD [OF assms(2) [unfolded DFinish handle_discussion.simps]]
    obtain r0 H0 where o: "finish_discussion S t q H = (r0, H0)" and s: "snd H' = snd H0" by blast
    show ?thesis unfolding s
      by (rule checked_tx_lives [OF o [unfolded finish_discussion_def]]) (rule or_step, rule finish_life [OF keys])
  next
    case (DFail q)
    from mutateD [OF assms(2) [unfolded DFail handle_discussion.simps]]
    obtain r0 H0 where o: "fail_discussion_run S t q H = (r0, H0)" and s: "snd H' = snd H0" by blast
    show ?thesis unfolding s
      by (rule checked_tx_lives [OF o [unfolded fail_discussion_run_def]]) (rule or_step, rule fail_life [OF keys])
  next
    case (DStop a run)
    from mutateD [OF assms(2) [unfolded DStop handle_discussion.simps]]
    obtain r0 H0 where o: "stop_discussion S t a run H = (r0, H0)" and s: "snd H' = snd H0" by blast
    show ?thesis unfolding s
      by (rule checked_tx_lives [OF o [unfolded stop_discussion_def]]) (rule or_step, rule stop_life [OF keys])
  next
    case (DSettleStop q)
    from mutateD [OF assms(2) [unfolded DSettleStop handle_discussion.simps]]
    obtain r0 H0 where o: "settle_discussion_stop S t q H = (r0, H0)" and s: "snd H' = snd H0" by blast
    show ?thesis unfolding s
      by (rule checked_tx_lives [OF o [unfolded settle_discussion_stop_def]]) (rule or_step, rule settle_life [OF keys])
  next
    case (DSettleProvider q)
    from mutateD [OF assms(2) [unfolded DSettleProvider handle_discussion.simps]]
    obtain r0 H0 where o: "settle_provider_discussion S t q H = (r0, H0)" and s: "snd H' = snd H0" by blast
    from after_host_checks_result [OF o [unfolded settle_provider_discussion_def]]
    have "H0 = H \<or> (\<exists>n k. host_tx t (settle_provider_tx S (new_first t) q n k) H = (r0, H0))" by (auto split: prod.splits)
    then show ?thesis unfolding s using host_tx_result settle_provider_life [OF keys] by (metis or_step)
  next
    case (DClaimLookup ow k)
    from mutateD [OF assms(2) [unfolded DClaimLookup handle_discussion.simps]]
    obtain r0 H0 where o: "claim_lookup_invocation S t ow k H = (r0, H0)" and s: "snd H' = snd H0" by blast
    from after_host_checks_result [OF o [unfolded claim_lookup_invocation_def]]
    have "H0 = H \<or> (\<exists>n x. host_tx t (claim_lookup_tx S (source_epoch_of (fst H)) (new_first t) ow n) H = (x, H0))"
      by (elim disjE exE conjE) (auto simp del: split_paired_Ex split: prod.splits)
    then show ?thesis unfolding s using host_tx_result claim_lookup_life [OF keys] by (metis rtranclp.rtrancl_refl)
  next
    case (DSettleLookup q)
    from mutateD [OF assms(2) [unfolded DSettleLookup handle_discussion.simps]]
    obtain r0 H0 where o: "settle_lookup_invocation S t q H = (r0, H0)" and s: "snd H' = snd H0" by blast
    show ?thesis unfolding s
      by (rule checked_tx_lives [OF o [unfolded settle_lookup_invocation_def]]) (rule settle_lookup_life [OF ok])
  next
    case (DAdvanceLookup ow k)
    from mutateD [OF assms(2) [unfolded DAdvanceLookup handle_discussion.simps]]
    obtain r0 H0 where o: "advance_lookup S t ow k H = (r0, H0)" and s: "snd H' = snd H0" by blast
    from after_host_checks_result [OF o [unfolded advance_lookup_def]]
    have "H0 = H \<or> (\<exists>n e. host_tx t (advance_lookup_tx S (new_first t) ow n e) H = (r0, H0))" by (auto split: prod.splits)
    then show ?thesis unfolding s using host_tx_result advance_lookup_life [OF keys] by (metis rtranclp.rtrancl_refl)
  next
    case (DHaltLookup ow why)
    from mutateD [OF assms(2) [unfolded DHaltLookup handle_discussion.simps]]
    obtain r0 H0 where o: "halt_lookup S t ow why H = (r0, H0)" and s: "snd H' = snd H0" by blast
    show ?thesis unfolding s
      by (rule checked_tx_lives [OF o [unfolded halt_lookup_def]]) (rule halt_lookup_life [OF keys])
  next
    case (DReadRun ow)
    with assms(2) show ?thesis by auto
  qed
qed

lemma disc_step_lives:
  assumes "disc_step S C H H'" and "disc_ok S (snd H)"
  shows "(life S)\<^sup>*\<^sup>* (snd H) (snd H')"
proof -
  have keys: "disc_keys_ok (snd H)" using assms(2) by (simp add: disc_ok_def)
  show ?thesis
  using assms(1)
proof cases
  case (step_command t F c r)
  with assms(2) show ?thesis by (intro handle_discussion_lives)
next
  case (step_interrupt t a run r)
  show ?thesis
    by (rule checked_tx_lives [OF step_interrupt [unfolded interrupt_discussion_def]]) (rule interrupt_life [OF keys])
next
  case (step_reopen t fresh r)
  then obtain x where "host_tx t (recover_tx S fresh) H = (x, H')"
    by (auto simp: recover_interrupted_discussions_def split: prod.splits)
  with host_tx_result [of t "recover_tx S fresh" H x H'] recover_life [OF keys] show ?thesis by auto
qed simp
qed

lemma disc_steps_lives:
  assumes "(disc_step S C)\<^sup>*\<^sup>* H H'" and "disc_ok S (snd H)"
  shows "(life S)\<^sup>*\<^sup>* (snd H) (snd H')"
  using assms
proof (induction rule: rtranclp_induct)
  case (step H1 H2)
  then have "(life S)\<^sup>*\<^sup>* (snd H) (snd H1)" by simp
  with step lives_ok have "disc_ok S (snd H1)" by blast
  with step disc_step_lives show ?case by (meson rtranclp_trans)
qed simp

lemma empty_ok: "disc_ok S (empty_tables n)" "disc_keys_ok (empty_tables n)"
  by (simp_all add: disc_ok_def disc_keys_ok_def empty_tables_def)

lemma reached_ok:
  assumes "(disc_step S C)\<^sup>*\<^sup>* (P, empty_tables n) H"
  shows "disc_ok S (snd H)"
  using disc_steps_lives [OF assms] lives_ok empty_ok by (metis snd_conv)

section \<open>What stays\<close>

definition evolved :: "bool \<Rightarrow> run_row \<Rightarrow> run_row \<Rightarrow> bool" where
  "evolved l r r' \<longleftrightarrow>
    same_run r r' \<and> (can_follow l)\<^sup>*\<^sup>* (rn_status r) (rn_status r') \<and> starts_with (rn_output r') (rn_output r)
    \<and> rn_sequence r \<le> rn_sequence r' \<and> (terminal_status (rn_status r) \<longrightarrow> r' = r)"

lemma evolved_refl [simp]: "evolved l r r"
  by (simp add: evolved_def)

lemma output_prefix_trans: "starts_with a b \<Longrightarrow> starts_with b c \<Longrightarrow> starts_with a c"
  by (auto simp: starts_with_iff)

lemma evolved_step:
  assumes "evolved l r r1" and "row_follows l r1 r2"
  shows "evolved l r r2"
proof (cases "r2 = r1")
  case False
  with assms(2) have f: "same_run r1 r2" "active (rn_status r1)" "rn_status r2 = rn_status r1 \<or> can_follow l (rn_status r1) (rn_status r2)"
      "starts_with (rn_output r2) (rn_output r1)" "rn_sequence r1 \<le> rn_sequence r2"
    by (auto simp: row_follows_def)
  from assms(1) f(2) have "\<not> terminal_status (rn_status r)" by (auto simp: evolved_def terminal_status_def)
  moreover have "(can_follow l)\<^sup>*\<^sup>* (rn_status r) (rn_status r2)"
    using assms(1) f(3) by (auto simp: evolved_def intro: rtranclp.rtrancl_into_rtrancl)
  moreover have "same_run r r2" using assms(1) f(1) by (simp add: evolved_def same_run_def)
  ultimately show ?thesis
    using assms(1) f(4,5) output_prefix_trans by (auto simp: evolved_def)
qed (use assms(1) in simp)

lemma lives_lookup_run:
  assumes "(life S)\<^sup>*\<^sup>* T T'" and "i \<in> rn_id ` set (run_rows T)" and "disc_keys_ok T"
  shows "lookup_run T' i = lookup_run T i \<and> i \<in> rn_id ` set (run_rows T')"
  using assms
proof (induction rule: rtranclp_induct)
  case (step T1 T2)
  then have i: "lookup_run T1 i = lookup_run T i" "i \<in> rn_id ` set (run_rows T1)" by simp_all
  from i(2) obtain r where r: "r \<in> set (run_rows T1)" "rn_id r = i" by auto
  have "distinct (map rn_id (run_rows T1))" using lives_keys [OF step(1) step(5)] by (simp add: disc_keys_ok_def)
  with life_row [OF step(2) _ r(1)] obtain r' where "r' \<in> set (run_rows T2)" "row_follows (lookup_run T1 (rn_id r)) r r'" by blast
  then have "i \<in> rn_id ` set (run_rows T2)" using row_follows_id r(2) by (metis imageI)
  with i life_lookup_run [OF step(2)] show ?case by simp
qed simp

lemma lives_row:
  assumes "(life S)\<^sup>*\<^sup>* T T'" and "disc_keys_ok T" and "r \<in> set (run_rows T)"
  shows "\<exists>r' \<in> set (run_rows T'). evolved (lookup_run T (rn_id r)) r r'"
  using assms
proof (induction rule: rtranclp_induct)
  case base
  then show ?case using evolved_refl by blast
next
  case (step T1 T2)
  then obtain r1 where r1: "r1 \<in> set (run_rows T1)" "evolved (lookup_run T (rn_id r)) r r1" by blast
  have "distinct (map rn_id (run_rows T1))" using lives_keys [OF step(1) step(4)] by (simp add: disc_keys_ok_def)
  then obtain r2 where r2: "r2 \<in> set (run_rows T2)" "row_follows (lookup_run T1 (rn_id r1)) r1 r2"
    using life_row [OF step(2) _ r1(1)] by blast
  have "rn_id r1 = rn_id r" using r1(2) by (simp add: evolved_def same_run_def)
  moreover have "lookup_run T1 (rn_id r) = lookup_run T (rn_id r)"
    using lives_lookup_run [OF step(1) _ step(4)] step(5) by simp
  ultimately show ?case using evolved_step [OF r1(2)] r2 by auto
qed

lemma lives_find_run:
  assumes "(life S)\<^sup>*\<^sup>* T T'" and "disc_keys_ok T" and "find_run T i = Some r" and "find_run T' i = Some r'"
  shows "evolved (lookup_run T i) r r'"
proof -
  note r = find_runD [OF assms(3)] and r' = find_runD [OF assms(4)]
  from lives_row [OF assms(1,2) r(1)] obtain x where x: "x \<in> set (run_rows T')" "evolved (lookup_run T (rn_id r)) r x" by blast
  then have "rn_id x = i" using r(2) by (simp add: evolved_def same_run_def)
  with x(1) r' lives_keys [OF assms(1,2)] have "x = r'" by (metis disc_keys_ok_def run_row_unique)
  with x(2) r(2) show ?thesis by simp
qed

lemma life_grows:
  assumes "life S T T'"
  shows "(\<exists>es. events T' = events T @ es) \<and> (\<exists>ps. results T' = results T @ ps)"
  using assms by cases auto

lemma lives_grow:
  "(life S)\<^sup>*\<^sup>* T T' \<Longrightarrow> (\<exists>es. events T' = events T @ es) \<and> (\<exists>ps. results T' = results T @ ps)"
proof (induction rule: rtranclp_induct)
  case (step T1 T2)
  then show ?case using life_grows [OF step(2)] by fastforce
qed simp

lemma find_append_Some: "find P xs = Some x \<Longrightarrow> find P (xs @ ys) = Some x"
  by (induction xs) (auto split: if_splits)

lemma lives_result: "(life S)\<^sup>*\<^sup>* T T' \<Longrightarrow> find_result T i = Some p \<Longrightarrow> find_result T' i = Some p"
  using lives_grow [of S T T'] find_append_Some unfolding find_result_def by metis

lemma lives_event: "(life S)\<^sup>*\<^sup>* T T' \<Longrightarrow> existing_event T run i = Some e \<Longrightarrow> existing_event T' run i = Some e"
  using lives_grow [of S T T'] find_append_Some unfolding existing_event_def by metis

end
