(* ===== verification/Discussion_Recovery.thy ===== *)
theory Discussion_Recovery
  imports Discussion_Steps
begin

text \<open>
  The recovery sweep succeeds: what it needs of an active run, one round of it, and the whole
  sweep by induction over the identifiers it collected.
\<close>

definition recovery_event :: "ustr \<Rightarrow> ustr" where
  "recovery_event i = u ''system-interrupted-'' @ i"

definition recovery_note :: ustr where
  "recovery_note = u ''The project was reopened before this discussion produced a complete response.''"

definition interrupted :: "run_row \<Rightarrow> run_row" where
  "interrupted r = r\<lparr>rn_status := Interrupted, rn_sequence := rn_sequence r + 1, rn_reason := Some (u ''project_reopened'')\<rparr>"

text \<open>
  A run the sweep can settle: its packet can be read, its counter is not exhausted, and neither
  the identifier of the terminal event nor that of the new message is taken.
\<close>

definition recoverable :: "services \<Rightarrow> (ustr \<Rightarrow> ustr) \<Rightarrow> disc_tables \<Rightarrow> ustr \<Rightarrow> bool" where
  "recoverable S fresh T i \<longleftrightarrow>
    valid_id i \<and> blen i \<le> 45 \<and> fresh i \<notin> mg_id ` set (messages T) \<and> find_result T i = None
    \<and> existing_event T i (recovery_event i) = None
    \<and> (case find_run T i of
         None \<Rightarrow> False
       | Some r \<Rightarrow> active (rn_status r) \<and> is_ok (packet_record S (rn_packet r)) \<and> 0 \<le> rn_sequence r \<and> rn_sequence r < i64_max
           \<and> rn_thread r \<in> th_id ` set (threads T)
           \<and> (\<forall>e \<in> set (events T). ev_run e = i \<longrightarrow> ev_sequence e \<le> rn_sequence r))"

lemma recovery_event_id: "valid_id i \<Longrightarrow> blen i \<le> 45 \<Longrightarrow> check_id (recovery_event i) = Inr ()"
  by (simp add: check_id_def recovery_event_def valid_id_def u_def id_byte_def is_ascii_alphanumeric_def
      is_ascii_digit_def is_ascii_alphabetic_def)

lemma recovery_note_small: "recovery_note \<noteq> []" "blen recovery_note \<le> MAX_EVENT_BYTES"
  by (simp_all add: recovery_note_def MAX_EVENT_BYTES_def u_def)

lemma read_active:
  assumes "find_run T i = Some r" and "find_result T i = None" and "valid_id i" and "packet_record S (rn_packet r) = Inr p"
  shows "read_run S T i = Inr \<lparr>dr_row = r, dr_binding = po_binding (pk_options p), dr_result = None,
           dr_lookup = lookup_run T i\<rparr>"
  using assms find_runD(2) [OF assms(1)]
  by (simp add: read_run_def check_id_def valid_id_def read_provider_result_def)

lemma insert_event_ok:
  assumes "0 < ev_sequence e" and "ev_run e \<in> rn_id ` set (run_rows T)"
    and "\<And>x. x \<in> set (events T) \<Longrightarrow> ev_run x = ev_run e \<Longrightarrow> ev_sequence x \<noteq> ev_sequence e \<and> ev_id x \<noteq> ev_id e"
  shows "insert_event e T = Inr (T\<lparr>events := events T @ [e]\<rparr>)"
proof -
  have "(ev_run e, ev_sequence e) \<notin> (\<lambda>x. (ev_run x, ev_sequence x)) ` set (events T)"
    and "(ev_run e, ev_id e) \<notin> (\<lambda>x. (ev_run x, ev_id x)) ` set (events T)"
    using assms(3) by fastforce+
  with assms(1,2) show ?thesis by (simp add: insert_event_def)
qed

lemma insert_message_ok:
  "mg_id m \<notin> mg_id ` set (messages T) \<Longrightarrow> mg_thread m \<in> th_id ` set (threads T) \<Longrightarrow> mg_run m \<in> rn_id ` set (run_rows T)
   \<Longrightarrow> insert_message m T = Inr (T\<lparr>messages := messages T @ [m]\<rparr>)"
  by (simp add: insert_message_def)

lemma update_one_ok:
  assumes "distinct (map rn_id (run_rows T))" and "r \<in> set (run_rows T)" and "w r" and "\<And>x :: run_row. w x \<Longrightarrow> rn_id x = rn_id r"
  shows "update_one w f err T = Inr (put_row (rn_id r) f T)"
proof -
  have "\<And>x. x \<in> set (run_rows T) \<Longrightarrow> w x \<longleftrightarrow> x = r" using assms by (metis run_row_unique)
  then have "filter w (run_rows T) = filter (\<lambda>x. x = r) (run_rows T)" by (simp cong: filter_cong)
  moreover have "distinct (run_rows T)" using assms(1) by (simp add: distinct_map)
  ultimately have "length (filter w (run_rows T)) = card ({r} \<inter> set (run_rows T))"
    by (simp add: distinct_length_filter Int_commute)
  with assms(2) have "length (filter w (run_rows T)) = 1" by simp
  moreover have "fst (update_runs w f T) = put_row (rn_id r) f T"
    using assms(1,2,3,4) by (rule update_runs_row)
  ultimately show ?thesis by (simp add: update_one_def update_runs_def)
qed

definition recovered_tables :: "ustr \<Rightarrow> run_row \<Rightarrow> disc_tables \<Rightarrow> disc_tables" where
  "recovered_tables new r T =
    (put_row (rn_id r) interrupted (mark_chain_stopped (rn_id r) T))
      \<lparr>events := events T @ [\<lparr>ev_run = rn_id r, ev_sequence = rn_sequence r + 1, ev_id = recovery_event (rn_id r),
          ev_kind = TerminalEvent, ev_text = recovery_note\<rparr>],
       messages := messages T @ [\<lparr>mg_id = new, mg_thread = rn_thread r, mg_run = rn_id r, mg_role = AssistantMessage,
          mg_content = with_note (rn_output r) recovery_note, mg_packet = Some (rn_packet r)\<rparr>]\<rparr>"

lemma find_run_put_row:
  assumes "find_run T i = Some r" and "\<And>x. rn_id (f x) = rn_id x"
  shows "find_run (put_row i f T) i = Some (f r)"
proof -
  have "find (\<lambda>r. rn_id r = i) (map (\<lambda>r. if rn_id r = i then f r else r) xs) = map_option f (find (\<lambda>r. rn_id r = i) xs)" for xs
    by (induction xs) (auto simp: assms(2))
  with assms(1) show ?thesis by (simp add: find_run_def)
qed

lemma recover_one_result:
  assumes "recoverable S fresh T i" and "disc_keys_ok T" and "find_run T i = Some r"
  shows "recover_one S fresh i T = Inr (recovered_tables (fresh i) r T)"
proof -
  note row = find_runD [OF assms(3)]
  from assms(1,3) obtain p where p: "packet_record S (rn_packet r) = Inr p" and a: "active (rn_status r)"
    and q: "0 \<le> rn_sequence r" "rn_sequence r < i64_max" and th: "rn_thread r \<in> th_id ` set (threads T)"
    and ev: "\<forall>e \<in> set (events T). ev_run e = i \<longrightarrow> ev_sequence e \<le> rn_sequence r"
    and v: "valid_id i" "blen i \<le> 45" and m: "fresh i \<notin> mg_id ` set (messages T)" and res: "find_result T i = None"
    and ex: "existing_event T i (recovery_event i) = None"
    by (auto simp: recoverable_def is_ok_iff)
  let ?cur = "\<lparr>dr_row = r, dr_binding = po_binding (pk_options p), dr_result = None,
           dr_lookup = lookup_run T i\<rparr>"
  let ?T0 = "mark_chain_stopped i T"
  let ?e = "\<lparr>ev_run = rn_id r, ev_sequence = rn_sequence r + 1, ev_id = recovery_event (rn_id r), ev_kind = TerminalEvent, ev_text = recovery_note\<rparr>"
  let ?T1 = "?T0\<lparr>events := events ?T0 @ [?e]\<rparr>"
  let ?f = "\<lambda>x :: run_row. x\<lparr>rn_status := Interrupted, rn_sequence := rn_sequence r + 1, rn_reason := Some (u ''project_reopened'')\<rparr>"
  let ?T2 = "put_row (rn_id r) ?f ?T1"
  let ?m = "\<lparr>mg_id = fresh i, mg_thread = rn_thread r, mg_run = rn_id r, mg_role = AssistantMessage,
          mg_content = with_note (rn_output r) recovery_note, mg_packet = Some (rn_packet r)\<rparr>"
  have d: "distinct (map rn_id (run_rows T))" using assms(2) by (simp add: disc_keys_ok_def)
  have cur: "read_run S T i = Inr ?cur" by (rule read_active [OF assms(3) res v(1) p])
  have i1: "insert_event ?e ?T0 = Inr ?T1"
    by (rule insert_event_ok) (use q row ev ex in \<open>auto simp: existing_event_None\<close>)
  have up: "update_one (\<lambda>x. owned_row (run_owner_of ?cur) x \<and> active (rn_status x) \<and> rn_sequence x = rn_sequence r) ?f ''SequenceConflict'' ?T1
      = Inr ?T2"
    by (rule update_one_ok) (use d row a in \<open>simp_all add: owned_row_def run_owner_of_def\<close>)
  have ids: "rn_id ` set (run_rows ?T2) = rn_id ` set (run_rows T)" by (subst put_row_ids(2)) simp_all
  have idin: "rn_id r \<in> rn_id ` set (run_rows ?T2)" unfolding ids using row(1) by (rule imageI)
  have im: "insert_message ?m ?T2 = Inr (?T2\<lparr>messages := messages ?T2 @ [?m]\<rparr>)"
    by (rule insert_message_ok) (use m th idin in \<open>simp_all del: put_row_rows\<close>)
  have rec: "?T2\<lparr>messages := messages ?T2 @ [?m]\<rparr> = recovered_tables (fresh i) r T"
  proof -
    have "put_row (rn_id r) ?f ?T1 = put_row (rn_id r) interrupted ?T1"
      by (rule put_row_cong) (use d row in \<open>simp_all add: interrupted_def\<close>)
    then show ?thesis using row by (simp add: recovered_tables_def put_row_def)
  qed
  have "find_run (?T2\<lparr>messages := messages ?T2 @ [?m]\<rparr>) i = Some (?f r)"
    using find_run_put_row [of ?T1 i r ?f] assms(3) row by (simp add: find_run_def)
  from read_active [OF this, of S p] res v(1) p
  obtain cur' where rd: "read_run S (?T2\<lparr>messages := messages ?T2 @ [?m]\<rparr>) i = Inr cur'"
    by (simp add: find_result_def)
  have sq: "dr_sequence ?cur = Inr (rn_sequence r)" using q by (simp add: dr_sequence_def parse_version_show)
  have nx: "next_sequence (rn_sequence r) = Inr (rn_sequence r + 1)"
    using q by (simp add: next_sequence_def checked_add_i64_def i64_max_def)
  have "seal_run S (fresh i) ?cur Interrupted (u ''project_reopened'') (recovery_event i) recovery_note ?T0
      = Inr (cur', recovered_tables (fresh i) r T)"
    using a i1 up im rd rec row recovery_note_small
    by (simp add: recovery_event_id [OF v] seal_run_def sq nx dr_status_def terminal_status_def active_def u_def)
  then show ?thesis
    using cur row(2) by (simp add: recover_one_def interrupt_active_def recovery_event_def recovery_note_def)
qed

lemma recovered_simps [simp]:
  "run_rows (recovered_tables new r T) = map (\<lambda>x. if rn_id x = rn_id r then interrupted x else x) (run_rows T)"
  "threads (recovered_tables new r T) = threads T" "results (recovered_tables new r T) = results T"
  "events (recovered_tables new r T) = events T @ [\<lparr>ev_run = rn_id r, ev_sequence = rn_sequence r + 1, ev_id = recovery_event (rn_id r),
          ev_kind = TerminalEvent, ev_text = recovery_note\<rparr>]"
  "messages (recovered_tables new r T) = messages T @ [\<lparr>mg_id = new, mg_thread = rn_thread r, mg_run = rn_id r, mg_role = AssistantMessage,
          mg_content = with_note (rn_output r) recovery_note, mg_packet = Some (rn_packet r)\<rparr>]"
  by (simp_all add: recovered_tables_def)

lemma find_run_recovered:
  assumes "rn_id r \<noteq> j"
  shows "find_run (recovered_tables new r T) j = find_run T j"
proof -
  have "find (\<lambda>x. rn_id x = j) (map (\<lambda>x. if rn_id x = rn_id r then interrupted x else x) xs) = find (\<lambda>x. rn_id x = j) xs" for xs
    by (induction xs) (use assms in \<open>auto simp: interrupted_def\<close>)
  then show ?thesis by (simp add: find_run_def)
qed

lemma recoverable_kept:
  assumes "recoverable S fresh T j" and "rn_id r \<noteq> j" and "new \<noteq> fresh j"
  shows "recoverable S fresh (recovered_tables new r T) j"
proof -
  have "existing_event (recovered_tables new r T) j (recovery_event j) = None"
    using assms(1,2) by (simp add: recoverable_def existing_event_None)
  with assms show ?thesis
    by (auto simp: recoverable_def find_run_recovered find_result_def split: option.splits)
qed

lemma recovery_sweep:
  assumes "distinct is" and "\<forall>i \<in> set is. recoverable S fresh T i" and "inj_on fresh (set is)" and "disc_keys_ok T"
  shows "\<exists>T'. try_fold (\<lambda>T i. recover_one S fresh i T) T is = Inr T'
    \<and> run_rows T' = map (\<lambda>r. if rn_id r \<in> set is then interrupted r else r) (run_rows T)"
  using assms
proof (induction "is" arbitrary: T)
  case (Cons i "is")
  then obtain r where r: "find_run T i = Some r" by (auto simp: recoverable_def split: option.splits)
  let ?T = "recovered_tables (fresh i) r T"
  note id = find_runD(2) [OF r]
  have one: "recover_one S fresh i T = Inr ?T" using Cons.prems r by (intro recover_one_result) simp_all
  then have "disc_keys_ok ?T" using recover_one_life [of T S fresh i ?T] lives_keys Cons.prems(4) by blast
  moreover have "\<forall>j \<in> set is. recoverable S fresh ?T j"
    using Cons.prems(1-3) id by (intro ballI recoverable_kept) (auto simp: inj_on_def)
  ultimately obtain T' where T': "try_fold (\<lambda>T i. recover_one S fresh i T) ?T is = Inr T'"
    "run_rows T' = map (\<lambda>r. if rn_id r \<in> set is then interrupted r else r) (run_rows ?T)"
    using Cons.IH [of ?T] Cons.prems(1,3) by auto
  have "rn_id (interrupted x) = rn_id x" for x by (simp add: interrupted_def)
  with T' one id Cons.prems(1) show ?case by (auto intro!: exI [of _ T'])
qed simp

end
