(* ===== verification/Discussion_Samples.thy ===== *)
theory Discussion_Samples
  imports Discussion_Recovery Sample_Project
begin

text \<open>
  Concrete runs for the witnesses of the discussion properties: services that answer with one
  packet, a discussion started and stopped through the command handler, a live run ready to be
  settled, and an app-server run settled without a turn identity.
\<close>

definition sample_packet :: "provider_binding option \<Rightarrow> packet" where
  "sample_packet b = \<lparr>pk_messages = [], pk_options =
     \<lparr>po_model = u ''m'', po_max_tokens = [], po_accounting = [], po_binding = b\<rparr>\<rparr>"

definition sample_frozen :: frozen_ref where
  "sample_frozen = \<lparr>fz_snapshot = u ''sn'', fz_project = u ''p'', fz_source = 5, fz_policy = 0\<rparr>"

definition sample_services :: "provider_binding option \<Rightarrow> services" where
  "sample_services b = \<lparr>packet_record = \<lambda>_. Inr (sample_packet b), packet_epochs = \<lambda>_. Inr (5, 0), chat_is_current = \<lambda>_. Inr True,
     open_packet = \<lambda>_. Inr (sample_packet b), retain_candidates = \<lambda>_ _. Inr (), packet_lookup = \<lambda>_. None,
     packet_frozen = \<lambda>_. sample_frozen, load_frozen = \<lambda>_ _. Inr sample_frozen, execute_lookup = \<lambda>_ _. (JNull, False),
     compile_child = \<lambda>_ _ _. Inr (u ''pk2'', sample_packet b), decode_envelope = \<lambda>_. Inl (lookup_err LookupInvalidJson []), debug_text = id, sv_env = sample_env,
     sv_vendor = \<lparr>url_with_path = (\<lambda>w p. (w, p)), uuid_text = \<lambda>_. None\<rparr>\<rparr>"

definition sample_compiler :: compiler where
  "sample_compiler = \<lparr>cp_metadata = \<lambda>_. Inr (), cp_packet = \<lambda>_ _. Inr (u ''pk''), cp_reopen = \<lambda>_. Inr (sample_packet None)\<rparr>"

definition sample_start :: start_request where
  "sample_start = \<lparr>st_access = sample_access ''s1'' ''l1'', st_operation = u ''op1'', st_expected = sample_head,
     st_instruction = u ''Hi'', st_intent = IntentDiscuss, st_basis = None, st_scope = None, st_pinned = [], st_brief = None,
     st_budget = \<lparr>cb_model = u ''m'', cb_window = u ''1'', cb_output = u ''0'', cb_protocol = u ''0''\<rparr>, st_binding = None,
     st_previous = None, st_lookup = None\<rparr>"

definition sample_new_ids :: fresh_ids where
  "sample_new_ids = \<lparr>fi_thread = u ''th'', fi_run = u ''run'', fi_message = u ''m1''\<rparr>"

definition sample_start_payload :: ustr where
  "sample_start_payload = logical_hash sample_env (start_request_json sample_start)"

definition sample_run_row :: "run_status \<Rightarrow> int \<Rightarrow> ustr \<Rightarrow> ustr option \<Rightarrow> run_row" where
  "sample_run_row s n out why =
    \<lparr>rn_id = u ''run'', rn_thread = u ''th'', rn_project = u ''p'', rn_namespace = u ''ns'', rn_operation = u ''op1'',
     rn_payload = sample_start_payload, rn_document = u ''doc'', rn_version = 3, rn_hash = sample_hash sample_document,
     rn_packet = u ''pk'', rn_previous = None, rn_status = s, rn_dispatch = PendingDispatch, rn_sequence = n,
     rn_output = out, rn_reason = why\<rparr>"

definition sample_thread :: thread_row where
  "sample_thread = \<lparr>th_id = u ''th'', th_project = u ''p'', th_namespace = u ''ns'', th_document = u ''doc''\<rparr>"

definition sample_question :: message_row where
  "sample_question = \<lparr>mg_id = u ''m1'', mg_thread = u ''th'', mg_run = u ''run'', mg_role = UserMessage,
     mg_content = u ''Hi'', mg_packet = Some (u ''pk'')\<rparr>"

definition sample_tables :: "run_row \<Rightarrow> disc_tables" where
  "sample_tables r = \<lparr>threads = [sample_thread], run_rows = [r], events = [], messages = [sample_question], results = [],
     invocations = [], lookup_results = [], lookup_reads = [], dispatches = [], policy_epoch = 0\<rparr>"

lemma no_lookup_run [simp]: "invocations T = [] \<Longrightarrow> lookup_run T i = False"
  by (simp add: lookup_run_def)

definition sample_discussing :: actor where
  "sample_discussing = sample_actor\<lparr>store := sample_db\<lparr>generation_operations := [(u ''ns'', u ''op1'')]\<rparr>\<rparr>"

abbreviation "sample_queued \<equiv> sample_tables (sample_run_row Queued 0 [] None)"

definition sample_stopped :: disc_tables where
  "sample_stopped = (sample_tables (sample_run_row RunStopped 1 [] (Some (u ''author_stopped''))))
     \<lparr>events := [\<lparr>ev_run = u ''run'', ev_sequence = 1, ev_id = u ''system-stop-run'', ev_kind = TerminalEvent, ev_text = STOP_SETTLED_MESSAGE\<rparr>],
      messages := [sample_question, \<lparr>mg_id = u ''r1'', mg_thread = u ''th'', mg_run = u ''run'', mg_role = AssistantMessage,
        mg_content = STOP_SETTLED_MESSAGE, mg_packet = Some (u ''pk'')\<rparr>]\<rparr>"

lemma sample_services_sel [simp]:
  "packet_record (sample_services b) i = Inr (sample_packet b)" "packet_epochs (sample_services b) i = Inr (5, 0)"
  "chat_is_current (sample_services b) i = Inr True" "open_packet (sample_services b) i = Inr (sample_packet b)"
  "retain_candidates (sample_services b) i t = Inr ()" "sv_env (sample_services b) = sample_env"
  "po_binding (pk_options (sample_packet b)) = b"
  by (simp_all add: sample_services_def sample_packet_def)

lemma sample_run_ids_valid [simp]: "check_id (u ''run'') = Inr ()" "check_id (u ''op1'') = Inr ()" "check_id (u ''doc'') = Inr ()"
  "check_id (u ''system-stop-run'') = Inr ()"
  by code_simp+

lemma sample_start_sel [simp]: "st_access sample_start = sample_access ''s1'' ''l1''"
  by (simp add: sample_start_def)

lemma sample_text_facts: "trim (u ''Hi'') \<noteq> []" "blen (u ''Hi'') = 2"
  by code_simp+

lemma sample_start_checks:
  "validate_start (sample_services b) sample_compiler sample_start = Inr ()"
  by (simp add: sample_text_facts validate_start_def sample_start_def validate_feedback_basis_def validate_lookup_request_def
      validate_safe_brief_start_def MAX_INSTRUCTION_BYTES_def MAX_PINNED_DOCUMENTS_def)

lemma sample_read_run:
  "read_run (sample_services b) (sample_tables (sample_run_row s n out why)) (u ''run'') =
     Inr \<lparr>dr_row = sample_run_row s n out why, dr_binding = b, dr_result = None, dr_lookup = False\<rparr>"
  by (simp add: read_run_def sample_tables_def sample_run_row_def find_run_def read_provider_result_def find_result_def)

lemma sample_starts:
  "\<exists>r. handle_discussion (sample_services None) sample_compiler (sample_turn Committed) sample_new_ids (DStart sample_start)
      (sample_actor, empty_tables 0) = (r, sample_discussing, sample_queued)"
proof -
  have "start_tx (sample_services None) sample_compiler sample_new_ids sample_start sample_start_payload (sample_db, empty_tables 0)
    = Inr (\<lparr>ds_thread = u ''th'', ds_run = \<lparr>dr_row = sample_run_row Queued 0 [] None, dr_binding = None, dr_result = None, dr_lookup = False\<rparr>,
        ds_message = sample_question\<rparr>, sample_db\<lparr>generation_operations := [(u ''ns'', u ''op1'')]\<rparr>, sample_queued)"
    using sample_read_run [of None Queued 0 "[]" None]
    by (simp add: start_tx_def existing_operation_def empty_tables_def start_fresh_def sample_compiler_def ensure_thread_def
        find_thread_def sample_start_def sample_new_ids_def sample_db_def sample_row_def sample_versions insert_run_def new_run_def
        insert_message_def sample_run_row_def sample_tables_def sample_thread_def sample_question_def read_message_def)
  then show ?thesis
    by (simp add: start_discussion_def after_host_checks_def sample_start_checks sample_access_ok host_store_tx_def in_tx_def
        mutate_def fence_uncertain_def sample_start_payload_def sample_discussing_def)
qed

lemma sample_stops:
  "\<exists>r. handle_discussion (sample_services None) sample_compiler (sample_turn Committed) sample_new_ids
      (DStop (sample_access ''s1'' ''l1'') (u ''run'')) (sample_discussing, sample_queued) = (r, sample_discussing, sample_stopped)"
proof -
  have n: "parse_version (show_int 0) = Inr 0" by (intro parse_version_show) (simp_all add: i64_max_def)
  have m: "STOP_SETTLED_MESSAGE \<noteq> []" "\<not> MAX_EVENT_BYTES < blen STOP_SETTLED_MESSAGE"
    by (simp_all add: STOP_SETTLED_MESSAGE_def u_def MAX_EVENT_BYTES_def)
  have e: "u ''system-stop-'' @ u ''run'' = u ''system-stop-run''" by (simp add: u_def)
  have i: "u ''r1'' \<noteq> u ''m1''" "u ''author_stopped'' \<noteq> []" by (simp_all add: u_def)
  let ?cur = "\<lparr>dr_row = sample_run_row Queued 0 [] None, dr_binding = None, dr_result = None, dr_lookup = False\<rparr>"
  have r: "read_run (sample_services None) sample_stopped (u ''run'') =
     Inr \<lparr>dr_row = sample_run_row RunStopped 1 [] (Some (u ''author_stopped'')), dr_binding = None, dr_result = None, dr_lookup = False\<rparr>"
    by (simp add: read_run_def sample_stopped_def sample_tables_def sample_run_row_def find_run_def read_provider_result_def find_result_def)
  have "stop_tx (sample_services None) (u ''r1'') (sample_access ''s1'' ''l1'') (u ''run'') sample_queued
    = Inr (\<lparr>dr_row = sample_run_row RunStopped 1 [] (Some (u ''author_stopped'')), dr_binding = None, dr_result = None, dr_lookup = False\<rparr>, sample_stopped)"
    using r
    by (simp add: stop_tx_def sample_read_run, simp add: same_project_def sample_run_row_def dr_status_def seal_run_def active_def terminal_status_def
        e n m i dr_sequence_def next_sequence_def checked_add_i64_def sample_i64 insert_event_def sample_tables_def run_owner_of_def
        owned_row_def update_one_def update_runs_def insert_message_def sample_question_def sample_thread_def with_note_def sample_stopped_def)
  then show ?thesis
    by (simp add: stop_discussion_def after_host_checks_def host_tx_def in_tx_def mutate_def fence_uncertain_def sample_discussing_def
        check_access_def sample_info_def)
qed

text \<open>A live run, and the report of a provider that failed before it read anything.\<close>

definition sample_owner :: run_owner where
  "sample_owner = \<lparr>ow_project = u ''p'', ow_namespace = u ''ns'', ow_run = u ''run''\<rparr>"

definition sample_report :: provider_report where
  "sample_report = \<lparr>rp_owner = sample_owner, rp_expected = u ''0'', rp_event = u ''end'', rp_text = [],
     rp_binding = codex_luna_historical, rp_status = OutFailed, rp_stdin = u ''0'', rp_usage = None, rp_cleanup = Settled,
     rp_error = None, rp_identity = None, rp_model = None, rp_delivery = None, rp_app = None\<rparr>"

definition sample_result :: result_row where
  "sample_result = \<lparr>pr_run = u ''run'', pr_packet = u ''pk'', pr_event = u ''end'', pr_expected = 0,
     pr_binding = codex_luna_historical, pr_text = [], pr_outcome = OutFailed, pr_stdin = 0, pr_usage = None,
     pr_cleanup = Settled, pr_error = None, pr_identity = None, pr_model = None, pr_delivery = None, pr_app = None\<rparr>"

abbreviation "sample_live \<equiv> sample_services (Some codex_luna_historical)"
abbreviation "sample_running \<equiv> sample_tables (sample_run_row Running 0 [] None)"
abbreviation "sample_note \<equiv> u ''The provider request failed.''"

definition sample_settled :: disc_tables where
  "sample_settled = (sample_tables (sample_run_row RunFailed 1 [] (Some (u ''provider_failed''))))
     \<lparr>events := [\<lparr>ev_run = u ''run'', ev_sequence = 1, ev_id = u ''end'', ev_kind = TerminalEvent, ev_text = sample_note\<rparr>],
      messages := [sample_question, \<lparr>mg_id = u ''r1'', mg_thread = u ''th'', mg_run = u ''run'', mg_role = AssistantMessage,
        mg_content = sample_note, mg_packet = Some (u ''pk'')\<rparr>],
      results := [sample_result]\<rparr>"

lemma sample_luna:
  "\<not> is_app_server codex_luna_historical" "\<not> is_http codex_luna_historical" "\<not> is_claude codex_luna_historical"
  "validate_binding V E codex_luna_historical"
  "input_limit V E codex_luna_historical = Some CODEX_INPUT_LIMIT_BYTES"
  "output_limit V E codex_luna_historical = Some CODEX_OUTPUT_LIMIT_BYTES"
proof -
  show a: "\<not> is_app_server codex_luna_historical"
    by (simp add: is_app_server_def codex_luna_historical_def codex_luna_with_profile_def CODEX_HISTORICAL_PROFILE_VERSION_def
        AUTHOR_PROFILE_def MAINTENANCE_PROFILE_def u_def)
  show "\<not> is_http codex_luna_historical" "\<not> is_claude codex_luna_historical"
    by (simp_all add: is_http_def is_claude_def http_prefix_def codex_luna_historical_def codex_luna_with_profile_def u_def)
  show v: "validate_binding V E codex_luna_historical" for V E
    using a by (simp add: validate_binding_def validate_plain_def) (simp add: codex_luna_historical_def codex_luna_with_profile_def)
  show "input_limit V E codex_luna_historical = Some CODEX_INPUT_LIMIT_BYTES"
    "output_limit V E codex_luna_historical = Some CODEX_OUTPUT_LIMIT_BYTES"
    by (simp_all add: input_limit_def output_limit_def v)
      (simp_all add: codex_luna_historical_def codex_luna_with_profile_def show_limits CODEX_INPUT_LIMIT_BYTES_def CODEX_OUTPUT_LIMIT_BYTES_def)
qed

lemma sample_result_checked: "check_result_row sample_live T sample_result = Inr ()"
  by (simp add: check_result_row_def check_result_transport_def sample_result_def sample_luna parse_stored_version_def
      validate_reported_model_def error_text_ok_def)

lemma sample_settles:
  "\<exists>r. settle_provider_tx sample_live (u ''r1'') sample_report 0 0 sample_running = Inr ((r, sample_result), sample_settled)
    \<and> find_owned sample_live sample_settled sample_owner = Inr r \<and> \<not> dr_lookup r"
proof -
  let ?cur = "\<lparr>dr_row = sample_run_row Running 0 [] None, dr_binding = Some codex_luna_historical, dr_result = None, dr_lookup = False\<rparr>"
  let ?r = "\<lparr>dr_row = sample_run_row RunFailed 1 [] (Some (u ''provider_failed'')), dr_binding = Some codex_luna_historical,
      dr_result = Some sample_result, dr_lookup = False\<rparr>"
  have n: "parse_version (show_int 0) = Inr 0" by (intro parse_version_show) (simp_all add: i64_max_def)
  have ser: "blen (serialized_input sample_env (sample_packet b)) \<noteq> 0" for b
    by (simp add: serialized_input_def sample_env_def)
  have own: "find_owned sample_live sample_running sample_owner = Inr ?cur"
    by (simp add: find_owned_def sample_owner_def sample_read_run, simp add: validate_owner_def run_owner_of_def sample_run_row_def)
  have res: "read_provider_result sample_live sample_settled (u ''run'') (u ''pk'') = Inr (Some sample_result)"
    using sample_result_checked by (simp add: read_provider_result_def find_result_def sample_settled_def) (simp add: sample_result_def)
  have rd: "read_run sample_live sample_settled (u ''run'') = Inr ?r"
    using res by (simp add: read_run_def) (simp add: sample_settled_def sample_tables_def sample_run_row_def find_run_def, simp add: sample_result_def)
  have acc: "accept_report sample_live sample_report 0 0 ?cur sample_running = Inr (codex_luna_historical, False, 0)"
    using ser [of "Some codex_luna_historical"]
    by (simp add: accept_report_def sample_report_def sample_run_row_def dr_status_def provider_delivered_def Let_def sample_luna
        validate_final_output_def dr_sequence_def n existing_event_def sample_tables_def)
  have i: "u ''r1'' \<noteq> u ''m1''" "sample_note \<noteq> []" "\<not> MAX_EVENT_BYTES < blen sample_note"
    by (simp_all add: u_def MAX_EVENT_BYTES_def)
  have wr: "write_report sample_live (u ''r1'') sample_report 0 0 ?cur codex_luna_historical False 0 sample_running = Inr sample_settled"
    by (simp add: write_report_def Let_def sample_report_def provider_discussion_status_def provider_terminal_message_def failure_note_def
        dr_status_def sample_run_row_def next_sequence_def checked_add_i64_def sample_i64 insert_event_def sample_tables_def i
        owned_row_def run_owner_of_def active_def update_one_def update_runs_def insert_message_def sample_question_def
        sample_thread_def with_note_def insert_result_def report_result_def provider_stop_reason_def sample_settled_def sample_result_def)
  have "settle_provider_tx sample_live (u ''r1'') sample_report 0 0 sample_running = Inr ((?r, sample_result), sample_settled)"
  proof -
    have "read_provider_result sample_live sample_running (u ''run'') (u ''pk'') = Inr None"
      by (simp add: read_provider_result_def find_result_def sample_tables_def)
    moreover have "rp_owner sample_report = sample_owner" by (simp add: sample_report_def)
    moreover have "rn_id (sample_run_row s n' o' w) = u ''run''" "rn_packet (sample_run_row s n' o' w) = u ''pk''" for s n' o' w
      by (simp_all add: sample_run_row_def)
    ultimately show ?thesis
      by (simp add: settle_provider_tx_def own reject_legacy_lookup_path_def acc wr res rd)
  qed
  moreover have "find_owned sample_live sample_settled sample_owner = Inr ?r"
    using rd by (simp add: find_owned_def sample_owner_def validate_owner_def run_owner_of_def sample_run_row_def)
  ultimately show ?thesis by (intro exI [of _ ?r]) simp
qed

lemma sample_running_ok: "disc_ok S sample_running"
  by (simp add: disc_ok_def disc_keys_ok_def sample_tables_def run_ok_def run_events_def answers_def run_results_def sample_question_def
      sample_thread_def sample_run_row_def log_ok_def active_def i64_max_def event_texts_def)

text \<open>An app-server run settled as interrupted: the turn was sent, its identity never arrived.\<close>

definition sample_sha :: ustr where
  "sample_sha = replicate 64 97"

definition sample_app_binding :: provider_binding where
  "sample_app_binding = codex_app_server_author_runtime (u ''m'') (u ''low'') None (u ''1'') sample_sha sample_sha
     \<lparr>ai_account = sample_sha, ai_security = sample_sha, ai_catalog = sample_sha\<rparr>"

abbreviation "sample_app \<equiv> sample_services (Some sample_app_binding)"

definition sample_turn_request :: json where
  "sample_turn_request = turn_request \<lparr>ad_generation = u ''g'', ad_thread = u ''t'', ad_rpc = u ''1'', ad_packet_hash = [], ad_request_hash = []\<rparr>
     sample_app_binding (serialized_input sample_env (sample_packet (Some sample_app_binding)))"

definition sample_dispatch :: app_dispatch where
  "sample_dispatch = \<lparr>ad_generation = u ''g'', ad_thread = u ''t'', ad_rpc = u ''1'',
     ad_packet_hash = packet_hash sample_env (sample_packet (Some sample_app_binding)),
     ad_request_hash = sha256_hex sample_env (bytes (json_text sample_env sample_turn_request))\<rparr>"

definition sample_dispatch_row :: dispatch_row where
  "sample_dispatch_row = \<lparr>dp_run = u ''run'', dp_packet = u ''pk'', dp_dispatch = sample_dispatch, dp_turn = None\<rparr>"

definition sample_delivery :: app_delivery where
  "sample_delivery = \<lparr>av_dispatch = Some sample_dispatch, av_submission = AppUncertain, av_turn = None, av_terminal = None,
     av_settled = False, av_connection = Closed\<rparr>"

definition sample_app_result :: result_row where
  "sample_app_result = sample_result\<lparr>pr_binding := sample_app_binding, pr_cleanup := Unresolved, pr_app := Some sample_delivery\<rparr>"

definition sample_unresolved :: disc_tables where
  "sample_unresolved = (sample_tables (sample_run_row Interrupted 1 [] (Some (u ''provider_cleanup_unresolved''))))
     \<lparr>results := [sample_app_result], dispatches := [sample_dispatch_row]\<rparr>"

lemma sha256_lowercase:
  assumes "digest_ok E"
  shows "lowercase_hash (sha256_hex E bs)"
proof -
  have d: "length (digest E bs) = 32" "\<forall>b \<in> set (digest E bs). b < 256" using assms by (auto simp: digest_ok_def list_all_iff)
  have h: "n < 16 \<Longrightarrow> is_ascii_digit (hex_digit n) \<or> (97 \<le> hex_digit n \<and> hex_digit n \<le> 102)" for n
    by (auto simp: hex_digit_def is_ascii_digit_def)
  have c: "\<forall>b \<in> set (sha256_hex E bs). is_ascii_digit b \<or> (97 \<le> b \<and> b \<le> 102)"
  proof -
    have "b div 16 < 16" "b mod 16 < 16" if "b \<in> set (digest E bs)" for b
      using d(2) that by (auto intro: less_mult_imp_div_less)
    then have "\<forall>c \<in> set (hex_byte b). is_ascii_digit c \<or> (97 \<le> c \<and> c \<le> 102)" if "b \<in> set (digest E bs)" for b
      using h that by (simp add: hex_byte_def)
    then show ?thesis by (simp add: sha256_hex_def)
  qed
  then have a: "list_all (\<lambda>c. c < 128) (sha256_hex E bs)" by (auto simp: list_all_iff is_ascii_digit_def)
  have "length (concat (map hex_byte xs)) = 2 * length xs" for xs by (induction xs) (simp_all add: hex_byte_def)
  with d(1) have "length (sha256_hex E bs) = 64" by (simp add: sha256_hex_def)
  with a c show ?thesis by (simp add: lowercase_hash_def ascii_blen ascii_bytes list_all_iff)
qed

lemma sample_sha_ok: "lowercase_hash sample_sha"
proof -
  have a: "list_all (\<lambda>c. c < 128) sample_sha" by (simp add: sample_sha_def list_all_iff)
  then show ?thesis by (simp add: lowercase_hash_def ascii_blen ascii_bytes) (simp add: sample_sha_def list_all_iff)
qed

lemma sample_app_binding_ok:
  "is_app_server sample_app_binding" "validate_binding V E sample_app_binding"
  "pb_input_limit sample_app_binding = show_nat CODEX_INPUT_LIMIT_BYTES" "pb_output_limit sample_app_binding = show_nat CODEX_OUTPUT_LIMIT_BYTES"
  "\<not> is_claude sample_app_binding"
proof -
  note defs = sample_app_binding_def codex_app_server_author_runtime_def codex_author_runtime_def codex_luna_runtime_def
    with_runtime_def codex_luna_with_profile_def
  show a: "is_app_server sample_app_binding" by (simp add: is_app_server_def defs)
  show "pb_input_limit sample_app_binding = show_nat CODEX_INPUT_LIMIT_BYTES" "pb_output_limit sample_app_binding = show_nat CODEX_OUTPUT_LIMIT_BYTES"
    by (simp_all add: defs)
  show "\<not> is_claude sample_app_binding" by (simp add: is_claude_def defs u_def)
  have t: "codex_trait (u ''m'')" "codex_trait (u ''low'')" by code_simp+
  have v: "blen (u ''1'') \<le> 128" "list_all (\<lambda>b. is_ascii_alphanumeric b \<or> b \<in> {46, 45, 43}) (bytes (u ''1''))" by code_simp+
  have p: "AUTHOR_PROFILE \<noteq> MAINTENANCE_PROFILE" "CODEX_AUTHOR_PROFILE_VERSION \<noteq> CODEX_PROFILE_VERSION"
    "CODEX_AUTHOR_PROFILE_VERSION \<noteq> CODEX_MAINTENANCE_PROFILE_VERSION"
    by (simp_all add: AUTHOR_PROFILE_def MAINTENANCE_PROFILE_def CODEX_AUTHOR_PROFILE_VERSION_def CODEX_PROFILE_VERSION_def
        CODEX_MAINTENANCE_PROFILE_VERSION_def u_def)
  have c: "\<not> starts_with (u ''codex'') http_prefix" "u ''codex'' \<noteq> u ''claude''" by (simp_all add: http_prefix_def u_def)
  show "validate_binding V E sample_app_binding"
    using a p t v sample_sha_ok c
    by (simp add: validate_binding_def)
      (simp add: defs app_identity_is_valid_def validate_plain_def is_http_def is_claude_def expected_codex_def has_catalog_def runtime_is_valid_def)
qed

lemma sample_dispatch_ok:
  "dispatch_is_valid sample_dispatch" "dispatch_matches_packet sample_env sample_dispatch (sample_packet (Some sample_app_binding))"
proof -
  have "valid_identifier (u ''g'')" "valid_identifier (u ''t'')" "valid_identifier (u ''1'')" by code_simp+
  then show "dispatch_is_valid sample_dispatch"
    by (simp add: dispatch_is_valid_def sample_dispatch_def packet_hash_def sha256_lowercase [OF sample_digest])
  show "dispatch_matches_packet sample_env sample_dispatch (sample_packet (Some sample_app_binding))"
    by (simp add: dispatch_matches_packet_def sample_dispatch_def sample_turn_request_def turn_request_def)
qed

lemma sample_app_checked: "check_result_row sample_app sample_unresolved sample_app_result = Inr ()"
proof -
  have "validate_app_delivery sample_delivery = Inr ()"
    by (simp add: validate_app_delivery_def sample_delivery_def sample_dispatch_ok)
  moreover have "stored_dispatch sample_unresolved (u ''run'') = Some sample_dispatch_row"
    by (simp add: stored_dispatch_def sample_unresolved_def sample_dispatch_row_def)
  ultimately have "validate_delivery sample_env sample_unresolved (u ''run'') (sample_packet (Some sample_app_binding))
      (Some sample_delivery) OutFailed Unresolved = Inr False"
    by (simp add: validate_delivery_def) (simp add: sample_delivery_def sample_dispatch_ok sample_dispatch_row_def)
  then show ?thesis
    by (simp add: check_result_row_def check_result_transport_def sample_app_result_def sample_result_def sample_app_binding_ok
        parse_stored_version_def validate_reported_model_def error_text_ok_def input_limit_def output_limit_def show_limits
        CODEX_INPUT_LIMIT_BYTES_def CODEX_OUTPUT_LIMIT_BYTES_def)
qed

lemma sample_unresolved_read:
  "find_owned sample_app sample_unresolved sample_owner =
    Inr \<lparr>dr_row = sample_run_row Interrupted 1 [] (Some (u ''provider_cleanup_unresolved'')), dr_binding = Some sample_app_binding,
      dr_result = Some sample_app_result, dr_lookup = False\<rparr>"
proof -
  have "read_provider_result sample_app sample_unresolved (u ''run'') (u ''pk'') = Inr (Some sample_app_result)"
    using sample_app_checked
    by (simp add: read_provider_result_def find_result_def sample_unresolved_def) (simp add: sample_app_result_def sample_result_def)
  then have "read_run sample_app sample_unresolved (u ''run'') =
    Inr \<lparr>dr_row = sample_run_row Interrupted 1 [] (Some (u ''provider_cleanup_unresolved'')), dr_binding = Some sample_app_binding,
      dr_result = Some sample_app_result, dr_lookup = False\<rparr>"
    by (simp add: read_run_def)
      (simp add: sample_unresolved_def sample_tables_def sample_run_row_def find_run_def, simp add: sample_app_result_def)
  then show ?thesis by (simp add: find_owned_def sample_owner_def validate_owner_def run_owner_of_def sample_run_row_def)
qed

end
