(* ===== verification/Discussion_Properties.thy ===== *)
theory Discussion_Properties
  imports Discussion_Samples
begin

text \<open>
  What the discussion commands guarantee along every run of the actor: the event log and the
  answers of a run, its life cycle, the replay of a settlement, the receipts that pass the
  validation of backups, and the recovery sweep.
\<close>

section \<open>Lemmas\<close>

lemma reached_row:
  assumes "(disc_step S C)\<^sup>*\<^sup>* (P, empty_tables n) H" and "r \<in> set (run_rows (snd H))"
  shows "run_ok S (snd H) r"
  using reached_ok [OF assms(1)] assms(2) by (simp add: disc_ok_def list_all_iff)

lemma run_resultsD:
  assumes "disc_keys_ok T" and "p \<in> set (results T)"
  shows "run_results T (pr_run p) = [p]"
proof -
  have d: "distinct (map pr_run (results T))" using assms(1) by (simp add: disc_keys_ok_def)
  then have "\<forall>x \<in> set (results T). pr_run x = pr_run p \<longrightarrow> x = p" using assms(2) by (auto simp: distinct_map inj_on_def)
  then have "run_results T (pr_run p) = filter (\<lambda>x. x = p) (results T)"
    unfolding run_results_def by (intro filter_cong) auto
  moreover have "filter (\<lambda>x. x = p) xs = [p]" if "distinct (map pr_run xs)" and "p \<in> set xs" for xs
    using that by (induction xs) (auto simp: filter_empty_conv)
  ultimately show ?thesis using d assms(2) by simp
qed

lemma result_of_row:
  assumes "disc_ok S T" and "p \<in> set (results T)"
  shows "\<exists>r \<in> set (run_rows T). rn_id r = pr_run p \<and> settled_ok r (run_events T (rn_id r)) p \<and> log_ok r (run_events T (rn_id r))"
proof -
  have k: "disc_keys_ok T" using assms(1) by (simp add: disc_ok_def)
  then have "pr_run p \<in> rn_id ` set (run_rows T)" using assms(2) unfolding disc_keys_ok_def by blast
  then obtain r where r: "r \<in> set (run_rows T)" "rn_id r = pr_run p" by (metis imageE)
  with assms(1) have "run_ok S T r" by (simp add: disc_ok_def list_all_iff)
  then show ?thesis using r run_resultsD [OF k assms(2)] by (intro bexI [of _ r]) (simp_all add: run_ok_def)
qed

lemma find_row:
  assumes "disc_keys_ok T" and "r \<in> set (run_rows T)" and "P r"
  shows "find (\<lambda>x. rn_id x = rn_id r \<and> P x) (run_rows T) = Some r"
proof -
  have "\<exists>x. find (\<lambda>x. rn_id x = rn_id r \<and> P x) (run_rows T) = Some x"
    using assms(2,3) find_None_all [of "\<lambda>x. rn_id x = rn_id r \<and> P x" "run_rows T"] by (metis option.exhaust)
  then obtain x where x: "find (\<lambda>x. rn_id x = rn_id r \<and> P x) (run_rows T) = Some x" ..
  from find_SomeD [OF this] assms(1,2) have "x = r" by (metis disc_keys_ok_def run_row_unique)
  with x show ?thesis by simp
qed

lemma find_last_event:
  assumes "disc_keys_ok T" and "run_events T i \<noteq> []"
  shows "existing_event T i (ev_id (last (run_events T i))) = Some (last (run_events T i))"
proof -
  let ?e = "last (run_events T i)"
  have "?e \<in> set (run_events T i)" using assms(2) by simp
  then have e: "?e \<in> set (events T)" "ev_run ?e = i" by (simp_all add: run_events_def)
  then obtain x where x: "existing_event T i (ev_id ?e) = Some x"
    using existing_event_None [of T i "ev_id ?e"] by (metis option.exhaust)
  then have "x \<in> set (events T)" "ev_run x = i" "ev_id x = ev_id ?e"
    using find_SomeD [of "\<lambda>e. ev_run e = i \<and> ev_id e = ev_id ?e"] by (auto simp: existing_event_def)
  with e assms(1) have "x = ?e" unfolding disc_keys_ok_def distinct_map inj_on_def by (metis (no_types, lifting))
  with x show ?thesis by simp
qed

lemma last_sequence:
  assumes "log_ok r es" and "es \<noteq> []"
  shows "ev_sequence (last es) = rn_sequence r"
proof -
  have m: "map ev_sequence es = [1..rn_sequence r]" using assms(1) by (simp add: log_ok_def)
  then have "ev_sequence (last es) = last [1..rn_sequence r]" using assms(2) by (metis last_map)
  moreover have "[1..rn_sequence r] \<noteq> []" using m assms(2) by (metis Nil_is_map_conv)
  then have "last [1..rn_sequence r] = rn_sequence r"
    by (metis last_snoc upto.simps upto_rec2)
  ultimately show ?thesis by simp
qed

lemma result_run_validates:
  assumes "disc_ok S T" and "p \<in> set (results T)"
  shows "validate_result_run T p = Inr ()"
proof -
  have k: "disc_keys_ok T" using assms(1) by (simp add: disc_ok_def)
  from result_of_row [OF assms] obtain r where r: "r \<in> set (run_rows T)" "rn_id r = pr_run p"
    and res: "settled_ok r (run_events T (rn_id r)) p" and log: "log_ok r (run_events T (rn_id r))" by blast
  from res have na: "\<not> active (rn_status r)" and e: "pr_event p = ev_id (last (run_events T (rn_id r)))"
    and sq: "pr_expected p + 1 = rn_sequence r" and pk: "pr_packet p = rn_packet r"
    and out: "pr_text p = rn_output r" and al: "outcome_allows p (rn_status r)"
    by (simp_all add: settled_ok_def)
  from log na have ne: "run_events T (rn_id r) \<noteq> []" and t: "ev_kind (last (run_events T (rn_id r))) = TerminalEvent"
    and b: "0 \<le> rn_sequence r" "rn_sequence r \<le> i64_max"
    by (simp_all add: log_ok_def)
  from last_sequence [OF log ne] have ls: "ev_sequence (last (run_events T (rn_id r))) = rn_sequence r" .
  have m: "map ev_sequence (run_events T (rn_id r)) = [1..rn_sequence r]" using log by (simp add: log_ok_def)
  have "[1..rn_sequence r] \<noteq> []" using m ne by (metis Nil_is_map_conv)
  then have pos: "1 \<le> rn_sequence r" by simp
  have fr: "find (\<lambda>x. rn_id x = pr_run p \<and> rn_packet x = pr_packet p) (run_rows T) = Some r"
    using find_row [OF k r(1), of "\<lambda>x. rn_packet x = pr_packet p"] r(2) pk by simp
  have ev: "existing_event T (pr_run p) (pr_event p) = Some (last (run_events T (rn_id r)))"
    using find_last_event [OF k ne] r(2) e by simp
  have pv: "parse_version (show_int (pr_expected p)) = Inr (pr_expected p)"
    using sq pos b by (intro parse_version_show) simp_all
  have ca: "checked_add_i64 (pr_expected p) 1 = Some (rn_sequence r)"
    using sq pos b by (simp add: checked_add_i64_def)
  show ?thesis
    using na out t ls al by (simp add: validate_result_run_def fr ev pv ca)
qed

lemma try_each_if:
  assumes "\<And>x. x \<in> set xs \<Longrightarrow> f x = (if P x then Inl e else Inr ())"
  shows "try_each f xs = (if \<exists>x \<in> set xs. P x then Inl e else Inr ())"
  using assms by (induction xs) auto

definition completed_live_lookup :: "services \<Rightarrow> disc_tables \<Rightarrow> run_row \<Rightarrow> bool" where
  "completed_live_lookup S T r \<longleftrightarrow>
    rn_status r = RunCompleted \<and> \<not> no_binding S (rn_packet r) \<and> lookup_run T (rn_id r)"

lemma completed_run_validates:
  assumes "disc_ok S T" and "r \<in> set (run_rows T)" and "is_ok (packet_record S (rn_packet r))"
  shows "validate_completed_run S T r =
    (if completed_live_lookup S T r then Inl invalid_project else Inr ())"
proof -
  obtain p where p: "packet_record S (rn_packet r) = Inr p" using assms(3) by (auto simp: is_ok_iff)
  have "run_ok S T r" using assms(1,2) by (simp add: disc_ok_def list_all_iff)
  then have "rn_status r = RunCompleted \<longrightarrow>
      find_result T (rn_id r) \<noteq> None \<or> po_binding (pk_options p) = None \<or> lookup_run T (rn_id r)"
    and "lookup_run T (rn_id r) \<longrightarrow> find_result T (rn_id r) = None"
    by (auto simp: run_ok_def run_results_def find_result_def no_binding_def p filter_empty_conv find_None_all)
  then show ?thesis by (auto simp: validate_completed_run_def completed_live_lookup_def p no_binding_def)
qed

lemma read_provider_find:
  assumes "read_provider_result S T i k = Inr m"
  shows "find_result T i = m"
  using assms by (auto simp: read_provider_result_def result_ok split: option.splits)

lemma update_one_results: "update_one w f err T = Inr T' \<Longrightarrow> results T' = results T"
  by (auto simp: update_one_def update_runs_def split: if_splits)

lemma write_report_results:
  "write_report S new q n c cur b dl k T = Inr T' \<Longrightarrow> results T' = results T @ [report_result q n c cur b]"
  unfolding write_report_def Let_def
  by (auto simp: result_ok dest!: insert_eventD insert_messageD insert_resultD update_one_results)

lemma show_parse_u64:
  assumes "parse_decimal_u64 v = Inr n"
  shows "show_int (int n) = v"
proof -
  from assms have c: "canonical_decimal v" and p: "parse_unsigned 64 v = Some n"
    by (auto simp: parse_decimal_u64_def canonical_decimal_def u_def split: if_splits)
  from c have "list_all is_ascii_digit v" "v \<noteq> []" by (auto simp: canonical_decimal_iff)
  then obtain d r where v: "v = d # r" "d \<noteq> 43" by (cases v) (auto simp: is_ascii_digit_def)
  with p have "n = parse_digits v" by (auto simp: parse_unsigned_def Let_def split: if_splits)
  with show_parse_digits [OF c] show ?thesis by (simp add: show_int_def)
qed

lemma find_app: "find P (xs @ ys) = (case find P xs of None \<Rightarrow> find P ys | Some x \<Rightarrow> Some x)"
  by (induction xs) auto

lemma report_result_run [simp]: "pr_run (report_result q n c cur b) = rn_id (dr_row cur)"
  by (simp add: report_result_def)

lemma settled_result:
  assumes "settle_provider_tx S new q n c T = Inr ((r, p), T1)" and "parse_version (rp_expected q) = Inr n"
    and "parse_decimal_u64 (rp_stdin q) = Inr c"
  shows "find_result T1 (ow_run (rp_owner q)) = Some p \<and> provider_result_matches_report p q \<and> read_run S T1 (ow_run (rp_owner q)) = Inr r"
proof -
  from assms(1) obtain cur found where cur: "find_owned S T (rp_owner q) = Inr cur"
    and found: "read_provider_result S T (rn_id (dr_row cur)) (rn_packet (dr_row cur)) = Inr found"
    by (auto simp: settle_provider_tx_def result_ok)
  note row = find_runD [OF find_ownedD(3) [OF cur]]
  show ?thesis
  proof (cases found)
    case (Some saved)
    with assms(1) cur found have "provider_result_matches_report p q" "saved = p" "r = cur" "T1 = T"
      by (auto simp: settle_provider_tx_def result_ok split: if_splits)
    with read_provider_find [OF found] Some row find_ownedD(1) [OF cur] show ?thesis by simp
  next
    case None
    from None assms(1) cur found obtain b dl k where wr: "write_report S new q n c cur b dl k T = Inr T1"
      and rd: "read_provider_result S T1 (rn_id (dr_row cur)) (rn_packet (dr_row cur)) = Inr (Some p)"
      and rr: "read_run S T1 (rn_id (dr_row cur)) = Inr r"
      and acc: "accept_report S q n c cur T = Inr (b, dl, k)"
      by (auto simp: settle_provider_tx_def result_ok)
    have "results T1 = results T @ [report_result q n c cur b]" by (rule write_report_results [OF wr])
    moreover have "find_result T (rn_id (dr_row cur)) = None" using read_provider_find [OF found] None by simp
    ultimately have "find_result T1 (rn_id (dr_row cur)) = Some (report_result q n c cur b)"
      by (simp add: find_result_def find_app)
    moreover have "find_result T1 (rn_id (dr_row cur)) = Some p" by (rule read_provider_find [OF rd])
    moreover have "b = rp_binding q" using acc by (auto simp: accept_report_def result_ok)
    moreover have "show_int n = rp_expected q" using assms(2) by (rule show_parse_version)
    moreover have "show_int (int c) = rp_stdin q" using assms(3) by (rule show_parse_u64)
    ultimately show ?thesis using row rr by (auto simp: provider_result_matches_report_def report_result_def)
  qed
qed

section \<open>Reaching the samples\<close>

lemma zero_report_counts: "parse_version (u ''0'') = Inr 0" "parse_decimal_u64 (u ''0'') = Inr 0"
proof -
  show "parse_version (u ''0'') = Inr 0" using parse_version_show [of 0] by (simp add: show_int_zero i64_max_def)
  have "parse_digits [48] = 0" by (simp add: parse_digits_def)
  then show "parse_decimal_u64 (u ''0'') = Inr 0"
    by (simp add: parse_decimal_u64_def parse_unsigned_def u_def utf8_char_def is_ascii_digit_def)
qed

lemma sample_reaches_queued:
  "(disc_step (sample_services None) sample_compiler)\<^sup>*\<^sup>* (sample_actor, empty_tables 0) (sample_discussing, sample_queued)"
  using sample_starts step_command by (metis r_into_rtranclp)

lemma sample_stop_step:
  "(disc_step (sample_services None) sample_compiler)\<^sup>*\<^sup>* (sample_discussing, sample_queued) (sample_discussing, sample_stopped)"
  using sample_stops step_command by (metis r_into_rtranclp)

lemma sample_reaches_stopped:
  "(disc_step (sample_services None) sample_compiler)\<^sup>*\<^sup>* (sample_actor, empty_tables 0) (sample_discussing, sample_stopped)"
  using sample_reaches_queued sample_stop_step by (rule rtranclp_trans)

section \<open>Properties\<close>

text \<open>
  C36: the event log of every run is complete. Whatever commands, interruptions and reopenings led to
  the tables, the events of a run are numbered from 1 to its sequence counter without a gap; while the
  run is active they are chunks only, its saved output is exactly their concatenation and it has no
  answer yet; once it is not, the last event and no other is the terminal one, the saved output
  extends the chunks, and the thread holds exactly one answer of it.
\<close>

theorem event_log_complete:
  assumes "(disc_step S C)\<^sup>*\<^sup>* (P, empty_tables n) H" and "r \<in> set (run_rows (snd H))"
    and "es = run_events (snd H) (rn_id r)"
  shows "map ev_sequence es = [1..rn_sequence r]
    \<and> (if active (rn_status r)
       then list_all is_chunk es \<and> rn_output r = event_texts es \<and> answers (snd H) (rn_id r) = []
       else es \<noteq> [] \<and> list_all is_chunk (butlast es) \<and> ev_kind (last es) = TerminalEvent
            \<and> starts_with (rn_output r) (event_texts (butlast es)) \<and> length (answers (snd H) (rn_id r)) = 1)"
  using reached_row [OF assms(1,2)] assms(3) by (auto simp: run_ok_def log_ok_def)

theorem event_log_complete_witness:
  "length (answers sample_stopped (u ''run'')) = 1 \<and> ev_kind (last (run_events sample_stopped (u ''run''))) = TerminalEvent"
proof -
  have "sample_run_row RunStopped 1 [] (Some (u ''author_stopped'')) \<in> set (run_rows (snd (sample_discussing, sample_stopped)))"
    by (simp add: sample_stopped_def sample_tables_def)
  from event_log_complete [OF sample_reaches_stopped this refl] show ?thesis
    by (simp add: sample_run_row_def active_def)
qed

text \<open>
  C37: a run moves only along its life cycle. Over any number of turns it keeps its identity, its
  status moves only along queued, running, stopping and the terminal states (a run that was asked to
  stop ends as stopped or interrupted, or, with a lookup chain, as failed), its counter never falls
  and its output only grows at the end; a run in a terminal state is never touched again.
\<close>

theorem run_life_cycle:
  assumes "(disc_step S C)\<^sup>*\<^sup>* (P, empty_tables n) H" and "(disc_step S C)\<^sup>*\<^sup>* H H'"
    and "r \<in> set (run_rows (snd H))"
  shows "\<exists>r' \<in> set (run_rows (snd H')). same_run r r' \<and> (can_follow (lookup_run (snd H) (rn_id r)))\<^sup>*\<^sup>* (rn_status r) (rn_status r')
    \<and> starts_with (rn_output r') (rn_output r) \<and> rn_sequence r \<le> rn_sequence r'
    \<and> (terminal_status (rn_status r) \<longrightarrow> r' = r)"
proof -
  have ok: "disc_ok S (snd H)" using reached_ok [OF assms(1)] .
  then have "disc_keys_ok (snd H)" by (simp add: disc_ok_def)
  from lives_row [OF disc_steps_lives [OF assms(2) ok] this assms(3)] show ?thesis by (auto simp: evolved_def)
qed

theorem run_life_cycle_witness:
  "\<exists>r' \<in> set (run_rows sample_stopped). rn_id r' = u ''run'' \<and> (can_follow False)\<^sup>*\<^sup>* Queued (rn_status r')"
proof -
  have "sample_run_row Queued 0 [] None \<in> set (run_rows (snd (sample_discussing, sample_queued)))" by (simp add: sample_tables_def)
  from run_life_cycle [OF sample_reaches_queued sample_stop_step this] show ?thesis
    by (auto simp: same_run_def sample_run_row_def sample_tables_def no_lookup_run)
qed

text \<open>
  C38: what the validation that a backup or an import runs over the provider receipts says of the
  reachable tables. Every saved receipt passes: its run is terminal with the receipt's text, sequence,
  terminal event and an allowed outcome. A run passes the check for completed runs unless it is a
  completed run of a provider with a lookup chain; such a run never has a receipt, and the check
  refuses the project.
\<close>

theorem saved_receipts_validate:
  assumes "(disc_step S C)\<^sup>*\<^sup>* (P, empty_tables n) H"
    and "\<forall>r \<in> set (run_rows (snd H)). is_ok (packet_record S (rn_packet r))"
  shows "try_each (validate_result_run (snd H)) (results (snd H)) = Inr ()
    \<and> (try_each (validate_completed_run S (snd H)) (sort_key (\<lambda>r. bytes (rn_id r)) (run_rows (snd H))) =
        (if \<exists>r \<in> set (run_rows (snd H)). completed_live_lookup S (snd H) r
         then Inl invalid_project else Inr ()))
    \<and> (\<forall>r \<in> set (run_rows (snd H)). lookup_run (snd H) (rn_id r) \<longrightarrow> run_results (snd H) (rn_id r) = [])"
proof -
  note ok = reached_ok [OF assms(1)]
  have "try_each (validate_result_run (snd H)) (results (snd H)) = Inr ()"
    using result_run_validates ok by (simp add: try_each_eq_Inr)
  moreover have "run_results (snd H) (rn_id r) = []" if "r \<in> set (run_rows (snd H))" "lookup_run (snd H) (rn_id r)" for r
    using that ok by (simp add: disc_ok_def list_all_iff run_ok_def)
  moreover have "try_each (validate_completed_run S (snd H)) (sort_key (\<lambda>r. bytes (rn_id r)) (run_rows (snd H))) =
      (if \<exists>r \<in> set (run_rows (snd H)). completed_live_lookup S (snd H) r then Inl invalid_project else Inr ())"
  proof (subst try_each_if)
    show "validate_completed_run S (snd H) r = (if completed_live_lookup S (snd H) r then Inl invalid_project else Inr ())"
      if "r \<in> set (sort_key (\<lambda>r. bytes (rn_id r)) (run_rows (snd H)))" for r
      using that assms(2) by (intro completed_run_validates [OF ok]) simp_all
  qed simp
  ultimately show ?thesis by blast
qed

theorem saved_receipts_validate_witness:
  "try_each (validate_completed_run (sample_services None) sample_stopped) (run_rows sample_stopped) = Inr ()"
proof -
  have "\<not> completed_live_lookup (sample_services None) sample_stopped r" for r
    by (simp add: completed_live_lookup_def sample_stopped_def sample_tables_def)
  with saved_receipts_validate [OF sample_reaches_stopped] show ?thesis by (simp add: try_each_eq_Inr)
qed

text \<open>
  Settling with a provider report can be repeated after a lost acknowledgment. After a report was
  accepted the same report is answered, at any later time, with the saved receipt and the run as it
  was settled, and nothing is written.
\<close>

theorem provider_settlement_replays:
  assumes "disc_ok S T" and "settle_provider_tx S new q n c T = Inr ((r, p), T1)"
    and "parse_version (rp_expected q) = Inr n" and "parse_decimal_u64 (rp_stdin q) = Inr c"
    and "(disc_step S C)\<^sup>*\<^sup>* (P1, T1) (P2, T2)" and "find_owned S T2 (rp_owner q) = Inr cur" and "\<not> dr_lookup cur"
  shows "settle_provider_tx S new' q n c T2 = Inr ((cur, p), T2) \<and> dr_row cur = dr_row r"
proof -
  have k: "disc_keys_ok T" using assms(1) by (simp add: disc_ok_def)
  have ok1: "disc_ok S T1" using settle_provider_life [OF k assms(2)] life_ok assms(1) by blast
  then have k1: "disc_keys_ok T1" by (simp add: disc_ok_def)
  have lives: "(life S)\<^sup>*\<^sup>* T1 T2" using disc_steps_lives [OF assms(5)] ok1 by simp
  note set = settled_result [OF assms(2-4)]
  note row2 = find_runD [OF find_ownedD(3) [OF assms(6)]]
  have res2: "find_result T2 (ow_run (rp_owner q)) = Some p" using lives_result [OF lives] set by blast
  from assms(6) have "read_run S T2 (ow_run (rp_owner q)) = Inr cur" by (rule find_ownedD)
  then obtain m where m: "read_provider_result S T2 (rn_id (dr_row cur)) (rn_packet (dr_row cur)) = Inr m"
    by (auto simp: read_run_def result_ok)
  with read_provider_find [OF m] res2 row2 have m': "m = Some p" by simp
  have "p \<in> set (results T1)" "pr_run p = ow_run (rp_owner q)"
    using set find_SomeD [of "\<lambda>x. pr_run x = ow_run (rp_owner q)"] by (auto simp: find_result_def)
  then obtain x where x: "x \<in> set (run_rows T1)" "rn_id x = ow_run (rp_owner q)" "settled_ok x (run_events T1 (rn_id x)) p"
    using result_of_row [OF ok1] by metis
  then have na: "\<not> active (rn_status x)" by (simp add: settled_ok_def)
  have row1: "find_run T1 (ow_run (rp_owner q)) = Some (dr_row r)" using set read_runD by blast
  then have "x = dr_row r" using find_runD [OF row1] x(1,2) k1 by (metis disc_keys_ok_def run_row_unique)
  with lives_find_run [OF lives k1 row1 find_ownedD(3) [OF assms(6)]] na have same: "dr_row cur = dr_row r"
    by (simp add: evolved_def terminal_status_def)
  show ?thesis
    using assms(6,7) m m' set same by (simp add: settle_provider_tx_def reject_legacy_lookup_path_def)
qed

theorem provider_settlement_replays_witness:
  "\<exists>r. settle_provider_tx sample_live (u ''r9'') sample_report 0 0 sample_settled = Inr ((r, sample_result), sample_settled)"
proof -
  from sample_settles obtain r where s: "settle_provider_tx sample_live (u ''r1'') sample_report 0 0 sample_running = Inr ((r, sample_result), sample_settled)"
    and f: "find_owned sample_live sample_settled sample_owner = Inr r" "\<not> dr_lookup r" by blast
  have "parse_version (rp_expected sample_report) = Inr 0" "parse_decimal_u64 (rp_stdin sample_report) = Inr 0"
    using show_int_zero by (simp_all add: sample_report_def zero_report_counts)
  moreover have "rp_owner sample_report = sample_owner" by (simp add: sample_report_def)
  ultimately show ?thesis
    using provider_settlement_replays [OF sample_running_ok s _ _ rtranclp.rtrancl_refl _ f(2), where new' = "u ''r9''"] f(1) by auto
qed

text \<open>
  C39: reopening a project leaves no run active. When every active run can be read and the new
  identifiers are free, the sweep succeeds, counts them, and turns each into an interrupted run with
  its output kept and its counter one up; every other run stays as it was.
\<close>

theorem recovery_leaves_no_active_run:
  assumes "disc_ok S T"
    and "\<forall>r \<in> set (run_rows T). active (rn_status r) \<longrightarrow>
        valid_id (rn_id r) \<and> blen (rn_id r) \<le> 45 \<and> is_ok (packet_record S (rn_packet r)) \<and> rn_sequence r < i64_max
        \<and> existing_event T (rn_id r) (recovery_event (rn_id r)) = None \<and> fresh (rn_id r) \<notin> mg_id ` set (messages T)"
    and "inj_on fresh (set (active_ids T))"
  shows "\<exists>T'. recover_tx S fresh T = Inr (length (active_ids T), T') \<and> active_ids T' = []
    \<and> run_rows T' = map (\<lambda>r. if active (rn_status r) then interrupted r else r) (run_rows T)"
proof -
  note ok = assms(1)
  have k: "disc_keys_ok T" using assms(1) by (simp add: disc_ok_def)
  then have d: "distinct (map rn_id (run_rows T))" by (simp add: disc_keys_ok_def)
  have "recoverable S fresh T i" if i: "i \<in> set (active_ids T)" for i
  proof -
    from i obtain r where r: "r \<in> set (run_rows T)" "active (rn_status r)" "rn_id r = i" by (auto simp: active_ids_def)
    then have run: "run_ok S T r" using ok by (simp add: disc_ok_def list_all_iff)
    have "find_run T i = Some r" using find_row [OF k r(1), of "\<lambda>_. True"] r(3) by (simp add: find_run_def)
    moreover have "find_result T i = None"
      using active_no_results [OF run r(2)] r(3) by (auto simp: run_results_def find_result_def find_None_all filter_empty_conv)
    moreover have "rn_thread r \<in> th_id ` set (threads T)" using k r(1) by (auto simp: disc_keys_ok_def)
    moreover have "ev_sequence e \<le> rn_sequence r" if "e \<in> set (events T)" "ev_run e = i" for e
    proof -
      have "ev_sequence e \<in> set (map ev_sequence (run_events T (rn_id r)))" using that r(3) by (simp add: run_events_def)
      also have "map ev_sequence (run_events T (rn_id r)) = [1..rn_sequence r]" using run by (simp add: run_ok_def log_ok_def)
      finally show ?thesis by simp
    qed
    moreover have "0 \<le> rn_sequence r" using run by (simp add: run_ok_def log_ok_def)
    ultimately show ?thesis using assms(2) r by (auto simp: recoverable_def)
  qed
  moreover have "distinct (active_ids T)" using d by (simp add: active_ids_def distinct_map_filter)
  ultimately obtain T' where T': "try_fold (\<lambda>T i. recover_one S fresh i T) T (active_ids T) = Inr T'"
    "run_rows T' = map (\<lambda>r. if rn_id r \<in> set (active_ids T) then interrupted r else r) (run_rows T)"
    using recovery_sweep [OF _ _ assms(3) k] by blast
  have "rn_id r \<in> set (active_ids T) \<longleftrightarrow> active (rn_status r)" if "r \<in> set (run_rows T)" for r
    using that run_row_unique [OF d] by (auto simp: active_ids_def)
  then have rows: "run_rows T' = map (\<lambda>r. if active (rn_status r) then interrupted r else r) (run_rows T)"
    unfolding T'(2) by (intro map_cong) auto
  then have "active_ids T' = []" by (auto simp: active_ids_def filter_empty_conv interrupted_def active_def)
  with T'(1) rows show ?thesis by (simp add: recover_tx_def)
qed

theorem recovery_leaves_no_active_run_witness:
  "\<exists>T'. recover_tx sample_live (\<lambda>i. u ''m-'' @ i) sample_running = Inr (1, T') \<and> active_ids T' = []"
proof -
  have "valid_id (u ''run'')" "blen (u ''run'') \<le> 45" "u ''m-'' @ u ''run'' \<noteq> u ''m1''" by code_simp+
  then have "\<forall>r \<in> set (run_rows sample_running). active (rn_status r) \<longrightarrow>
        valid_id (rn_id r) \<and> blen (rn_id r) \<le> 45 \<and> is_ok (packet_record sample_live (rn_packet r)) \<and> rn_sequence r < i64_max
        \<and> existing_event sample_running (rn_id r) (recovery_event (rn_id r)) = None
        \<and> u ''m-'' @ rn_id r \<notin> mg_id ` set (messages sample_running)"
    by (simp add: sample_tables_def sample_run_row_def sample_question_def existing_event_def i64_max_def)
  moreover have a: "active_ids sample_running = [u ''run'']" by (simp add: active_ids_def sample_tables_def sample_run_row_def active_def)
  ultimately show ?thesis
    using recovery_leaves_no_active_run [OF sample_running_ok, of sample_live "\<lambda>i. u ''m-'' @ i"] unfolding a by fastforce
qed

lemma read_run_parts:
  assumes "read_run S T i = Inr cur"
  shows "valid_id i \<and> is_ok (packet_record S (rn_packet (dr_row cur)))
    \<and> read_provider_result S T i (rn_packet (dr_row cur)) = Inr (dr_result cur)"
proof -
  note row = find_runD [OF read_runD [OF assms]]
  from assms show ?thesis
    unfolding read_run_def by (auto simp: result_ok is_ok_iff find_runD(2))
qed

text \<open>
  C40: an acknowledgement that arrives after the result is accepted and spoils the run. When an
  app-server run was settled without a turn identity, acknowledging a turn of its dispatch still
  succeeds, and from then on the run cannot be read and the saved receipts no longer validate.
\<close>

theorem late_acknowledgement_spoils_run:
  assumes "find_owned S T ow = Inr cur" and "dr_result cur = Some p" and "is_app_server (pr_binding p)"
    and "pr_app p = Some v" and "av_turn v = None" and "stored_dispatch T (ow_run ow) = Some s"
    and "dp_turn s = None" and "T' = T\<lparr>dispatches := map (\<lambda>x. if dp_run x = ow_run ow \<and> dp_turn x = None
        then x\<lparr>dp_turn := Some turn_id\<rparr> else x) (dispatches T)\<rparr>"
  shows "acknowledge_tx S ow (dp_dispatch s) turn_id T = Inr ((), T')
    \<and> read_run S T' (ow_run ow) = Inl app_delivery_error
    \<and> validate_one_result S T' p = Inl app_delivery_error"
proof -
  let ?i = "ow_run ow"
  note row = find_runD [OF find_ownedD(3) [OF assms(1)]]
  from read_run_parts [OF find_ownedD(1) [OF assms(1)]] obtain pk where v: "valid_id ?i"
    and pk: "packet_record S (rn_packet (dr_row cur)) = Inr pk"
    and rp: "read_provider_result S T ?i (rn_packet (dr_row cur)) = Inr (Some p)"
    using assms(2) by (auto simp: is_ok_iff)
  have fp: "find_result T ?i = Some p" "pr_packet p = rn_packet (dr_row cur)" and chk: "check_result_row S T p = Inr ()"
    using rp by (auto simp: read_provider_result_def result_ok split: option.splits)
  have run: "pr_run p = ?i" using find_SomeD [of "\<lambda>x. pr_run x = ?i"] fp(1) by (auto simp: find_result_def)
  have s': "stored_dispatch T' ?i = Some (s\<lparr>dp_turn := Some turn_id\<rparr>)"
  proof -
    have "find (\<lambda>d. dp_run d = ?i) xs = Some s \<Longrightarrow> find (\<lambda>d. dp_run d = ?i) (map (\<lambda>x. if dp_run x = ?i \<and> dp_turn x = None
        then x\<lparr>dp_turn := Some turn_id\<rparr> else x) xs) = Some (s\<lparr>dp_turn := Some turn_id\<rparr>)" for xs
      using assms(7) by (induction xs) (auto split: if_splits)
    with assms(6,8) show ?thesis by (simp add: stored_dispatch_def)
  qed
  have delivery: "validate_delivery (sv_env S) T' ?i q (pr_app p) out cl = Inl app_delivery_error"
    if "validate_delivery (sv_env S) T ?i q (pr_app p) out cl = Inr b" for q out cl b
    using that assms(4-7) s'
    by (auto simp: validate_delivery_def result_ok split: option.splits)
  have transport: "check_result_transport S T' p = Inl app_delivery_error"
    using chk assms(3) run delivery by (auto simp: check_result_row_def check_result_transport_def result_ok)
  have row': "check_result_row S T' p = Inl app_delivery_error"
    using chk transport by (auto simp: check_result_row_def result_ok)
  have rp': "read_provider_result S T' ?i (rn_packet (dr_row cur)) = Inl app_delivery_error"
    using fp row' assms(8) by (simp add: read_provider_result_def find_result_def)
  have "find_run T' ?i = Some (dr_row cur)" using find_ownedD(3) [OF assms(1)] assms(8) by (simp add: find_run_def)
  moreover have c: "check_id ?i = Inr ()" using v by (simp add: check_id_def valid_id_def)
  ultimately have "read_run S T' ?i = Inl app_delivery_error"
    using pk rp' row by (simp add: read_run_def c)
  moreover have "acknowledge_tx S ow (dp_dispatch s) turn_id T = Inr ((), T')"
    using assms(1,6-8) row by (simp add: acknowledge_tx_def)
  moreover have "validate_one_result S T' p = Inl app_delivery_error"
    using rp' run fp(2) by (simp add: validate_one_result_def)
  ultimately show ?thesis by simp
qed

theorem late_acknowledgement_spoils_run_witness:
  "\<exists>T'. acknowledge_tx sample_app sample_owner sample_dispatch (u ''turn'') sample_unresolved = Inr ((), T')
    \<and> read_run sample_app T' (u ''run'') = Inl app_delivery_error"
proof -
  have "stored_dispatch sample_unresolved (ow_run sample_owner) = Some sample_dispatch_row"
    by (simp add: stored_dispatch_def sample_unresolved_def sample_dispatch_row_def sample_owner_def)
  from late_acknowledgement_spoils_run [OF sample_unresolved_read _ _ _ _ this _ refl] show ?thesis
    by (simp add: sample_app_result_def sample_app_binding_ok sample_delivery_def sample_dispatch_row_def sample_owner_def)
qed

end
