(* ===== verification/Typed_Blocks.thy ===== *)
theory Typed_Blocks
  imports Scope_Proofs
begin

text \<open>
  Structured replacements (crates/documents/src/structured.rs): typed blocks without identities
  that a provider may propose for an explicit block or whole-document scope, the snapshot they
  are written as once the application has assigned identities, and the check of a prepared
  result against them. Refusals carry the name of the failed check.
\<close>

section \<open>Typed blocks\<close>

definition STRUCTURED_PROPOSAL_RESPONSE_CONTRACT :: ustr where
  "STRUCTURED_PROPOSAL_RESPONSE_CONTRACT = u ''structured-proposal-output.v1''"
definition MAX_STRUCTURED_BLOCKS :: nat where "MAX_STRUCTURED_BLOCKS = 128"
definition MAX_STRUCTURED_UTF16_UNITS :: nat where "MAX_STRUCTURED_UTF16_UNITS = 100000"

datatype typed_mark = TypedBold | TypedItalic | TypedLink ustr

datatype typed_inline = TypedText ustr "typed_mark list" | TypedHardBreak

datatype typed_block =
    TypedParagraph "typed_inline list"
  | TypedHeading "8 word" "typed_inline list"
  | TypedSceneBreak

section \<open>As JSON\<close>

fun typed_mark_value :: "typed_mark \<Rightarrow> json" where
  "typed_mark_value TypedBold = JObj [(u ''type'', JStr (u ''bold''))]"
| "typed_mark_value TypedItalic = JObj [(u ''type'', JStr (u ''italic''))]"
| "typed_mark_value (TypedLink href) =
     JObj (obj_of [(u ''type'', JStr (u ''link'')), (u ''attrs'', JObj [(u ''href'', JStr href)])])"

fun typed_inline_value :: "typed_inline \<Rightarrow> json" where
  "typed_inline_value (TypedText t ms) =
     JObj (obj_of ([(u ''text'', JStr t), (u ''type'', JStr (u ''text''))]
       @ (if ms \<noteq> [] then [(u ''marks'', JArr (map typed_mark_value ms))] else [])))"
| "typed_inline_value TypedHardBreak = JObj [(u ''type'', JStr (u ''hardBreak''))]"

fun typed_parts :: "typed_block \<Rightarrow> ustr \<Rightarrow> ustr \<times> json \<times> typed_inline list option" where
  "typed_parts (TypedParagraph content) i = (u ''paragraph'', JObj [(u ''id'', JStr i)], Some content)"
| "typed_parts (TypedHeading level content) i =
     (u ''heading'', JObj (obj_of [(u ''id'', JStr i), (u ''level'', JNum (PosInt (ucast level)))]), Some content)"
| "typed_parts TypedSceneBreak i = (u ''sceneBreak'', JObj [(u ''id'', JStr i)], None)"

definition typed_block_value :: "typed_block \<Rightarrow> ustr \<Rightarrow> json" where
  "typed_block_value b i =
    (case typed_parts b i of
       (bt, attrs, content) \<Rightarrow>
         JObj (obj_of ([(u ''attrs'', attrs), (u ''type'', JStr bt)]
           @ (case content of
                None \<Rightarrow> []
              | Some xs \<Rightarrow> if map typed_inline_value xs \<noteq> [] then [(u ''content'', JArr (map typed_inline_value xs))] else []))))"

definition wrapped_snapshot :: "json list \<Rightarrow> json" where
  "wrapped_snapshot content =
    JObj (obj_of [(u ''schemaVersion'', JNum (PosInt 1)),
      (u ''body'', JObj (obj_of [(u ''type'', JStr (u ''doc'')), (u ''content'', JArr content)]))])"

definition typed_snapshot_receipt :: "env \<Rightarrow> json \<Rightarrow> snapshot_receipt snap_result" where
  "typed_snapshot_receipt E v = validate_snapshot_json E (json_text E v)"

section \<open>Validation of the grammar\<close>

fun mark_key :: "typed_mark \<Rightarrow> ustr" where
  "mark_key TypedBold = u ''bold''"
| "mark_key TypedItalic = u ''italic''"
| "mark_key (TypedLink h) = u ''link''"

definition link_check :: "typed_mark \<Rightarrow> json" where
  "link_check m = wrapped_snapshot
     [JObj (obj_of [(u ''type'', JStr (u ''paragraph'')), (u ''attrs'', JObj [(u ''id'', JStr (u ''link-check''))]),
        (u ''content'', JArr [JObj (obj_of [(u ''type'', JStr (u ''text'')), (u ''text'', JStr (u ''x'')),
           (u ''marks'', JArr [typed_mark_value m])])])])]"

definition typed_mark_step :: "env \<Rightarrow> ustr list \<Rightarrow> typed_mark \<Rightarrow> ustr list scope_result" where
  "typed_mark_step E seen m =
    and_then (case m of
        TypedLink h \<Rightarrow> and_then (map_err ResultInvalid (typed_snapshot_receipt E (link_check m))) (\<lambda>_. Inr ())
      | _ \<Rightarrow> Inr ()) (\<lambda>_.
    and_then (ensure (mark_key m \<notin> set seen) (Refused ''structured replacement block repeats formatting'')) (\<lambda>_.
    Inr (mark_key m # seen)))"

definition typed_inline_step :: "env \<Rightarrow> nat \<Rightarrow> typed_inline \<Rightarrow> nat scope_result" where
  "typed_inline_step E units x =
    (case x of
       TypedText t ms \<Rightarrow>
         and_then (ensure (t \<noteq> []) (Refused ''structured replacement text must not be empty'')) (\<lambda>_.
         and_then (ensure (\<not> contains_any t [13, 10])
           (Refused ''structured replacement text must use hardBreak for line breaks'')) (\<lambda>_.
         and_then (ensure (units + utf16_len t < 2 ^ 64) (Refused ''structured replacement text length overflowed'')) (\<lambda>_.
         and_then (try_fold (typed_mark_step E) [] ms) (\<lambda>_. Inr (units + utf16_len t)))))
     | TypedHardBreak \<Rightarrow>
         and_then (ensure (units + 1 < 2 ^ 64) (Refused ''structured replacement text length overflowed'')) (\<lambda>_.
         Inr (units + 1)))"

definition typed_block_step :: "env \<Rightarrow> nat \<Rightarrow> typed_block \<Rightarrow> nat scope_result" where
  "typed_block_step E units b =
    (case b of
       TypedSceneBreak \<Rightarrow> Inr units
     | TypedParagraph content \<Rightarrow> try_fold (typed_inline_step E) units content
     | TypedHeading level content \<Rightarrow>
         and_then (ensure (1 \<le> level \<and> level \<le> 3) (Refused ''structured replacement heading level must be between 1 and 3'')) (\<lambda>_.
         try_fold (typed_inline_step E) units content))"

definition validate_typed_replacement_blocks :: "env \<Rightarrow> typed_block list \<Rightarrow> unit scope_result" where
  "validate_typed_replacement_blocks E blocks =
    and_then (ensure (\<not> MAX_STRUCTURED_BLOCKS < length blocks) (Refused ''structured replacement has too many blocks'')) (\<lambda>_.
    and_then (try_fold (typed_block_step E) 0 blocks) (\<lambda>units.
    ensure (\<not> MAX_STRUCTURED_UTF16_UNITS < units) (Refused ''structured replacement exceeds 100000 UTF-16 units'')))"

section \<open>Snapshots of typed blocks\<close>

definition replacement_id_ok :: "ustr \<Rightarrow> bool" where
  "replacement_id_ok i \<longleftrightarrow> i \<noteq> [] \<and> \<not> 64 < blen i \<and> list_all (\<lambda>b. is_ascii_alphanumeric b \<or> b = 95 \<or> b = 45) (bytes i)"

definition typed_snapshot_step ::
  "ustr list \<times> json list \<Rightarrow> typed_block \<times> ustr \<Rightarrow> (ustr list \<times> json list) scope_result" where
  "typed_snapshot_step st e =
    (case (st, e) of ((seen, content), (b, i)) \<Rightarrow>
      and_then (ensure (replacement_id_ok i) (Refused ''block IDs must be 1..64 ASCII letters, digits, _ or -'')) (\<lambda>_.
      and_then (ensure (i \<notin> set seen) (Refused ''replacement block ID is duplicated'')) (\<lambda>_.
      Inr (i # seen, content @ [typed_block_value b i]))))"

definition typed_replacement_snapshot :: "env \<Rightarrow> typed_block list \<Rightarrow> ustr list \<Rightarrow> json scope_result" where
  "typed_replacement_snapshot E blocks ids =
    and_then (validate_typed_replacement_blocks E blocks) (\<lambda>_.
    and_then (ensure (length blocks = length ids) (Refused ''structured replacement IDs must match the block count'')) (\<lambda>_.
    and_then (try_fold typed_snapshot_step ([], []) (zip blocks ids)) (\<lambda>(seen, content).
    and_then (map_err ResultInvalid (typed_snapshot_receipt E (wrapped_snapshot content))) (\<lambda>r.
    Inr (snapshot r)))))"

section \<open>Checking a prepared result\<close>

definition document_blocks :: "json \<Rightarrow> json list scope_result" where
  "document_blocks v =
    ok_or (Refused ''snapshot body content is missing'')
      (Option.bind (Option.bind (Option.bind (json_get v (u ''body'')) as_obj) (\<lambda>m. map_of m (u ''content''))) as_arr)"

definition value_block_id :: "json \<Rightarrow> ustr option" where
  "value_block_id b =
    Option.bind (Option.bind (Option.bind (json_get b (u ''attrs'')) as_obj) (\<lambda>m. map_of m (u ''id''))) as_str"

definition position_of :: "ustr \<Rightarrow> json list \<Rightarrow> nat option" where
  "position_of i bs =
    map_option fst (find (\<lambda>(n, b). value_block_id b = Some i) (List.enumerate 0 bs))"

definition selected_range :: "json list \<Rightarrow> scope_grant \<Rightarrow> (nat \<times> nat) scope_result" where
  "selected_range bs g =
    (if grant_kind g = WholeDocument then
       (if bs = [] then Inl (Refused ''source document has no blocks'') else Inr (0, length bs - 1))
     else
       and_then (ok_or (Refused ''blocks scope requires a start endpoint'') (grant_start g)) (\<lambda>start.
       and_then (ok_or (Refused ''blocks scope requires an end endpoint'') (grant_end g)) (\<lambda>fin.
       and_then (ok_or (Refused ''structured scope start block is missing'') (position_of (block_id_of start) bs)) (\<lambda>first.
       and_then (ok_or (Refused ''structured scope end block is missing'') (position_of (block_id_of fin) bs)) (\<lambda>final.
       if final < first then Inl (Refused ''structured scope start must not be after end'') else Inr (first, final))))))"

definition inserted_step :: "env \<Rightarrow> ustr list \<Rightarrow> ustr list \<Rightarrow> typed_block \<times> json \<Rightarrow> ustr list scope_result" where
  "inserted_step E source_ids seen e =
    (case e of (b, result_block) \<Rightarrow>
      and_then (ok_or (Refused ''result replacement block has no ID'') (value_block_id result_block)) (\<lambda>i.
      and_then (ensure (i \<notin> set seen) (Refused ''result replacement block ID is duplicated'')) (\<lambda>_.
      and_then (ensure (i \<notin> set source_ids) (Refused ''result replacement block reuses source ID'')) (\<lambda>_.
      and_then (map_err ResultInvalid (typed_snapshot_receipt E (wrapped_snapshot [typed_block_value b i]))) (\<lambda>expected.
      and_then (document_blocks (snapshot expected)) (\<lambda>expected_blocks.
      and_then (ok_or (Refused ''structured replacement block vanished during validation'')
        (case expected_blocks of [] \<Rightarrow> None | c # _ \<Rightarrow> Some c)) (\<lambda>expected_block.
      and_then (ensure (expected_block = result_block)
        (Refused ''prepared result block does not match its typed candidate'')) (\<lambda>_.
      Inr (i # seen)))))))))"

definition validate_structured_replacement ::
  "env \<Rightarrow> scope_request \<Rightarrow> typed_block list \<Rightarrow> scope_receipt scope_result" where
  "validate_structured_replacement E req blocks =
    and_then (ensure (grant_kind (scope req) = Blocks \<or> grant_kind (scope req) = WholeDocument)
      (Refused ''structured replacement requires a blocks or whole-document scope'')) (\<lambda>_.
    and_then (validate_typed_replacement_blocks E blocks) (\<lambda>_.
    and_then (map_err SourceInvalid (typed_snapshot_receipt E (source_snapshot req))) (\<lambda>source.
    and_then (map_err ResultInvalid (typed_snapshot_receipt E (result_snapshot req))) (\<lambda>result.
    and_then (document_blocks (snapshot source)) (\<lambda>source_blocks.
    and_then (document_blocks (snapshot result)) (\<lambda>result_blocks.
    and_then (selected_range source_blocks (scope req)) (\<lambda>(first, final).
    let suffix_count = length source_blocks - (final + 1);
        result_first = min first (length result_blocks) in
    and_then (ensure (\<not> length result_blocks < first + suffix_count)
      (Refused ''structured result removes unselected document blocks'')) (\<lambda>_.
    let result_last_exclusive = length result_blocks - suffix_count in
    and_then (ensure (\<not> result_last_exclusive < result_first)
      (Refused ''structured result scope boundaries overlap'')) (\<lambda>_.
    let inserted = slice result_first result_last_exclusive result_blocks in
    and_then (ensure (length inserted = length blocks)
      (Refused ''prepared structured blocks do not match the result block range'')) (\<lambda>_.
    and_then (try_fold (inserted_step E (List.map_filter value_block_id source_blocks)) [] (zip blocks inserted)) (\<lambda>_.
    and_then (validate_scope E req) (\<lambda>rec.
    and_then (ensure (\<not> (receipt_scope rec = WholeDocument \<and> inserted = []))
      (Refused ''a whole-document replacement must leave one valid document block'')) (\<lambda>_.
    Inr rec)))))))))))))"

end
