(* ===== verification/Continuation.thy ===== *)
theory Continuation
  imports Kernel
begin

text \<open>
  The response contract of a story continuation (crates/context/src/continuation.rs): one
  candidate of nonblank, single-line paragraphs within fixed limits. \<open>serde_json::from_str\<close> at the
  type of the response is the function argument of \<open>validate_continuation_output\<close>.
\<close>

definition CONTINUATION_RESPONSE_CONTRACT :: ustr where
  "CONTINUATION_RESPONSE_CONTRACT = u ''continuation-output.v1''"
definition MAX_CONTINUATION_RESPONSE_BYTES :: nat where "MAX_CONTINUATION_RESPONSE_BYTES = 64 * 1024"
definition MAX_CONTINUATION_PARAGRAPHS :: nat where "MAX_CONTINUATION_PARAGRAPHS = 128"
definition MAX_CONTINUATION_TITLE_BYTES :: nat where "MAX_CONTINUATION_TITLE_BYTES = 120"
definition MAX_CONTINUATION_EXPLANATION_BYTES :: nat where "MAX_CONTINUATION_EXPLANATION_BYTES = 4096"
definition MAX_CONTINUATION_PARAGRAPH_UTF16 :: nat where "MAX_CONTINUATION_PARAGRAPH_UTF16 = 8192"
definition MAX_CONTINUATION_TOTAL_UTF16 :: nat where "MAX_CONTINUATION_TOTAL_UTF16 = 100000"

lemmas continuation_limits =
  MAX_CONTINUATION_RESPONSE_BYTES_def MAX_CONTINUATION_PARAGRAPHS_def MAX_CONTINUATION_TITLE_BYTES_def
  MAX_CONTINUATION_EXPLANATION_BYTES_def MAX_CONTINUATION_PARAGRAPH_UTF16_def MAX_CONTINUATION_TOTAL_UTF16_def

record continuation_candidate =
  ct_title :: ustr
  ct_paragraphs :: "ustr list"
  ct_explanation :: ustr

record continuation_output =
  co_schema :: ustr
  co_suggestions :: "continuation_candidate list"

definition continuation_error :: core_error where
  "continuation_error = core_err ''InvalidContinuation''"

definition continuation_paragraph_step :: "nat \<Rightarrow> ustr \<Rightarrow> nat core_result" where
  "continuation_paragraph_step total_utf16 paragraph =
    and_then (ensure (\<not> (trim paragraph = [] \<or> contains_any paragraph [13, 10])) continuation_error) (\<lambda>_.
    let units = utf16_len paragraph in
    and_then (ensure (\<not> MAX_CONTINUATION_PARAGRAPH_UTF16 < units) continuation_error) (\<lambda>_.
    and_then (ensure (total_utf16 + units < 2 ^ 64) continuation_error) (\<lambda>_.
    and_then (ensure (\<not> MAX_CONTINUATION_TOTAL_UTF16 < total_utf16 + units) continuation_error) (\<lambda>_.
    Inr (total_utf16 + units)))))"

definition validate_continuation_paragraphs :: "ustr list \<Rightarrow> unit core_result" where
  "validate_continuation_paragraphs paragraphs =
    and_then (ensure (\<not> (paragraphs = [] \<or> MAX_CONTINUATION_PARAGRAPHS < length paragraphs)) continuation_error) (\<lambda>_.
    and_then (try_fold continuation_paragraph_step 0 paragraphs) (\<lambda>_. Inr ()))"

definition validate_continuation_output ::
  "(ustr \<Rightarrow> continuation_output option) \<Rightarrow> ustr \<Rightarrow> continuation_output core_result" where
  "validate_continuation_output from_str raw =
    and_then (ensure (\<not> MAX_CONTINUATION_RESPONSE_BYTES < blen raw) continuation_error) (\<lambda>_.
    and_then (ok_or continuation_error (from_str raw)) (\<lambda>out.
    and_then (ensure (co_schema out = CONTINUATION_RESPONSE_CONTRACT) continuation_error) (\<lambda>_.
    and_then (ensure (length (co_suggestions out) = 1) continuation_error) (\<lambda>_.
    let candidate = co_suggestions out ! 0 in
    and_then (ensure (\<not> (trim (ct_title candidate) = [] \<or> MAX_CONTINUATION_TITLE_BYTES < blen (ct_title candidate)))
      continuation_error) (\<lambda>_.
    and_then (ensure (\<not> MAX_CONTINUATION_EXPLANATION_BYTES < blen (ct_explanation candidate)) continuation_error) (\<lambda>_.
    and_then (validate_continuation_paragraphs (ct_paragraphs candidate)) (\<lambda>_. Inr out)))))))"

section \<open>What the checks accept\<close>

definition paragraph_ok :: "ustr \<Rightarrow> bool" where
  "paragraph_ok p \<longleftrightarrow> trim p \<noteq> [] \<and> \<not> contains_any p [13, 10] \<and> utf16_len p \<le> MAX_CONTINUATION_PARAGRAPH_UTF16"

lemma continuation_paragraph_step_ok:
  "continuation_paragraph_step n p = Inr m \<longleftrightarrow>
     paragraph_ok p \<and> m = n + utf16_len p \<and> m \<le> MAX_CONTINUATION_TOTAL_UTF16"
  by (auto simp: continuation_paragraph_step_def paragraph_ok_def result_ok Let_def continuation_limits)

lemma paragraph_total:
  "try_fold continuation_paragraph_step n ps = Inr m \<longleftrightarrow>
     list_all paragraph_ok ps \<and> m = n + sum_list (map utf16_len ps)
     \<and> (ps = [] \<or> m \<le> MAX_CONTINUATION_TOTAL_UTF16)"
proof (induction ps arbitrary: n)
  case (Cons p ps)
  have "try_fold continuation_paragraph_step n (p # ps) = Inr m \<longleftrightarrow>
      paragraph_ok p \<and> n + utf16_len p \<le> MAX_CONTINUATION_TOTAL_UTF16
      \<and> try_fold continuation_paragraph_step (n + utf16_len p) ps = Inr m"
    by (auto simp: and_then_eq_Inr continuation_paragraph_step_ok)
  then show ?case unfolding Cons.IH by auto
qed auto

lemma validate_continuation_paragraphs_iff:
  "validate_continuation_paragraphs ps = Inr x \<longleftrightarrow>
     ps \<noteq> [] \<and> length ps \<le> MAX_CONTINUATION_PARAGRAPHS \<and> list_all paragraph_ok ps
     \<and> sum_list (map utf16_len ps) \<le> MAX_CONTINUATION_TOTAL_UTF16"
  by (auto simp: validate_continuation_paragraphs_def result_ok paragraph_total)

lemma validate_continuation_output_ok:
  assumes "validate_continuation_output f raw = Inr out"
  obtains c where "f raw = Some out" "co_suggestions out = [c]" "trim (ct_title c) \<noteq> []"
    "validate_continuation_paragraphs (ct_paragraphs c) = Inr ()"
  using assms by (cases "co_suggestions out")
    (auto simp: validate_continuation_output_def result_ok Let_def)

end
