(* ===== verification/Proposal.thy ===== *)
theory Proposal
  imports Discussion_Host Typed_Blocks Continuation Eligibility
begin

text \<open>
  Suggestions of a completed run (crates/conversation/src/proposals.rs): their tables
  (storage/src/008_proposals.sql and the later scripts), retaining the candidates of an answer, and
  reading them back with the source, the scope and the decision they belong to. JSON columns hold
  the value they encode, except the prepared body, whose text is checked against its hash; columns
  whose \<open>CHECK\<close> admits a fixed list of names hold that value.
\<close>

section \<open>Vocabulary\<close>

record passage_candidate =
  pc_title :: ustr
  pc_text :: ustr
  pc_explanation :: ustr

record structured_candidate =
  sc_title :: ustr
  sc_blocks :: "typed_block list"
  sc_explanation :: ustr

datatype proposal_kind = PassageKind | ContinuationKind | StructuredKind

datatype proposal_content =
    PassageContent passage_candidate
  | ContinuationContent continuation_candidate
  | StructuredContent structured_candidate

record structured_output =
  so_schema :: ustr
  so_suggestions :: "structured_candidate list"

record prepared =
  pn_id :: ustr
  pn_proposal :: ustr
  pn_version :: ustr
  pn_text :: ustr
  pn_paragraphs :: "ustr list option"
  pn_blocks :: "typed_block list option"
  pn_body :: json
  pn_hash :: ustr

datatype decision_kind = ApplyDecision | RejectDecision

record proposal_decision =
  dn_id :: ustr
  dn_proposal :: ustr
  dn_kind :: decision_kind
  dn_prepared :: "ustr option"
  dn_before :: "ustr option"
  dn_after :: "ustr option"

record proposal =
  pp_id :: ustr
  pp_run :: ustr
  pp_kind :: proposal_kind
  pp_candidate :: proposal_content
  pp_source :: head
  pp_source_body :: json
  pp_scope :: scope_grant
  pp_snapshot :: ustr
  pp_packet :: ustr
  pp_current :: bool
  pp_historical :: bool
  pp_prepared :: "prepared option"
  pp_decision :: "proposal_decision option"

section \<open>Tables\<close>

record proposal_row =
  pl_id :: ustr
  pl_run :: ustr
  pl_ordinal :: nat
  pl_candidate :: proposal_content
  pl_kind :: proposal_kind

datatype version_payload = ParagraphPayload "ustr list" | BlockPayload "typed_block list"

record version_row =
  pv_id :: ustr
  pv_proposal :: ustr
  pv_version :: int
  pv_text :: ustr
  pv_body :: ustr
  pv_hash :: ustr
  pv_payload :: "version_payload option"

record decision_row =
  pd_id :: ustr
  pd_proposal :: ustr
  pd_kind :: decision_kind
  pd_prepared :: "ustr option"
  pd_before :: "ustr option"
  pd_after :: "ustr option"
  pd_namespace :: ustr
  pd_operation :: ustr

datatype review_kind = PrepareReceipt | RejectReceipt

record review_row =
  rw_namespace :: ustr
  rw_operation :: ustr
  rw_kind :: review_kind
  rw_payload :: ustr
  rw_result :: ustr

record review_tables =
  proposal_rows :: "proposal_row list"
  version_rows :: "version_row list"
  decision_rows :: "decision_row list"
  review_rows :: "review_row list"

text \<open>What one connection sees: the store, the discussion tables and the review tables.\<close>

type_synonym desk = "db \<times> disc_tables \<times> review_tables"

definition find_proposal :: "review_tables \<Rightarrow> ustr \<Rightarrow> proposal_row option" where
  "find_proposal R i = find (\<lambda>p. pl_id p = i) (proposal_rows R)"

definition find_version :: "review_tables \<Rightarrow> ustr \<Rightarrow> version_row option" where
  "find_version R i = find (\<lambda>v. pv_id v = i) (version_rows R)"

definition find_decision :: "review_tables \<Rightarrow> ustr \<Rightarrow> decision_row option" where
  "find_decision R i = find (\<lambda>d. pd_id d = i) (decision_rows R)"

definition decision_of :: "review_tables \<Rightarrow> ustr \<Rightarrow> decision_row option" where
  "decision_of R i = find (\<lambda>d. pd_proposal d = i) (decision_rows R)"

definition find_review :: "review_tables \<Rightarrow> ustr \<times> ustr \<Rightarrow> review_row option" where
  "find_review R k = find (\<lambda>c. (rw_namespace c, rw_operation c) = k) (review_rows R)"

definition versions_of :: "review_tables \<Rightarrow> ustr \<Rightarrow> version_row list" where
  "versions_of R i = sort_key pv_version (filter (\<lambda>v. pv_proposal v = i) (version_rows R))"

definition insert_proposal :: "disc_tables \<Rightarrow> proposal_row \<Rightarrow> review_tables \<Rightarrow> review_tables core_result" where
  "insert_proposal T p R =
    (if pl_id p \<in> pl_id ` set (proposal_rows R) \<or> pl_run p \<notin> rn_id ` set (run_rows T) \<or> 2 < pl_ordinal p
        \<or> (pl_run p, pl_ordinal p) \<in> (\<lambda>x. (pl_run x, pl_ordinal x)) ` set (proposal_rows R)
     then Inl sql_error else Inr (R\<lparr>proposal_rows := proposal_rows R @ [p]\<rparr>))"

definition insert_version :: "version_row \<Rightarrow> review_tables \<Rightarrow> review_tables core_result" where
  "insert_version v R =
    (if pv_id v \<in> pv_id ` set (version_rows R) \<or> pv_proposal v \<notin> pl_id ` set (proposal_rows R)
        \<or> \<not> 0 < pv_version v
        \<or> (pv_proposal v, pv_version v) \<in> (\<lambda>x. (pv_proposal x, pv_version x)) ` set (version_rows R)
     then Inl sql_error else Inr (R\<lparr>version_rows := version_rows R @ [v]\<rparr>))"

definition decision_shape :: "decision_row \<Rightarrow> bool" where
  "decision_shape d \<longleftrightarrow>
    (case pd_kind d of
       ApplyDecision \<Rightarrow> pd_prepared d \<noteq> None \<and> pd_before d \<noteq> None \<and> pd_after d \<noteq> None
     | RejectDecision \<Rightarrow> pd_prepared d = None \<and> pd_before d = None \<and> pd_after d = None)"

definition insert_decision :: "db \<Rightarrow> decision_row \<Rightarrow> review_tables \<Rightarrow> review_tables core_result" where
  "insert_decision D d R =
    (if pd_id d \<in> pd_id ` set (decision_rows R) \<or> pd_proposal d \<in> pd_proposal ` set (decision_rows R)
        \<or> pd_proposal d \<notin> pl_id ` set (proposal_rows R) \<or> \<not> decision_shape d
        \<or> \<not> set_option (pd_prepared d) \<subseteq> pv_id ` set (version_rows R)
        \<or> \<not> set_option (pd_before d) \<subseteq> r_id ` set (revisions D)
        \<or> \<not> set_option (pd_after d) \<subseteq> r_id ` set (revisions D)
        \<or> (pd_namespace d, pd_operation d) \<in> (\<lambda>x. (pd_namespace x, pd_operation x)) ` set (decision_rows R)
     then Inl sql_error else Inr (R\<lparr>decision_rows := decision_rows R @ [d]\<rparr>))"

text \<open>
  The insertion with the triggers against the receipts of documents and of the Workshop. The store
  keeps the identities of all review receipts in \<open>proposal_operations\<close>.
\<close>

definition insert_review_receipt ::
  "project_access \<Rightarrow> ustr \<Rightarrow> review_kind \<Rightarrow> ustr \<Rightarrow> ustr \<Rightarrow> db \<times> review_tables \<Rightarrow> (db \<times> review_tables) core_result" where
  "insert_review_receipt a op k payload i W =
    (case W of (D, R) \<Rightarrow>
      let key = (operation_namespace a, op) in
      if key \<in> (\<lambda>c. (rw_namespace c, rw_operation c)) ` set (review_rows R)
         \<or> key \<in> (\<lambda>c. (c_namespace c, c_operation c)) ` set (command_receipts D)
         \<or> key \<in> set (workshop_operations D)
      then Inl sql_error
      else Inr (D\<lparr>proposal_operations := proposal_operations D @ [key]\<rparr>,
                R\<lparr>review_rows := review_rows R @ [\<lparr>rw_namespace = operation_namespace a, rw_operation = op,
                   rw_kind = k, rw_payload = payload, rw_result = i\<rparr>]\<rparr>))"

section \<open>Services of other components\<close>

text \<open>
  \<open>packet_snapshot\<close>: \<open>validated_packet_record\<close>, the snapshot its packet was compiled from;
  \<open>frozen_context\<close>: \<open>validated_snapshot_record\<close>, the frozen snapshot, policy and purpose with
  their operation namespace; \<open>packet_scope\<close>: the scope in the request a packet was prepared for.
  They read rows that never change. \<open>passage_output\<close>, \<open>continuation_from\<close> and \<open>structured_from\<close>
  are \<open>serde_json::from_str\<close> at the types of the responses.
\<close>

record frozen =
  fz_snapshot :: story_snapshot
  fz_policy :: information_policy
  fz_purpose :: context_purpose

record desk_services =
  packet_snapshot :: "ustr \<Rightarrow> ustr core_result"
  frozen_context :: "ustr \<Rightarrow> (frozen \<times> ustr) core_result"
  packet_scope :: "ustr \<Rightarrow> scope_grant option core_result"
  passage_output :: "ustr \<Rightarrow> passage_candidate list option"
  continuation_from :: "ustr \<Rightarrow> continuation_output option"
  structured_from :: "ustr \<Rightarrow> structured_output option"
  desk_env :: env

definition invalid_proposal :: core_error where
  "invalid_proposal = core_err ''InvalidProposal''"

section \<open>Candidates\<close>

definition validate_candidate :: "passage_candidate \<Rightarrow> unit core_result" where
  "validate_candidate c =
    ensure (\<not> (trim (pc_title c) = [] \<or> 120 < blen (pc_title c) \<or> 4096 < blen (pc_explanation c)
        \<or> contains_any (pc_text c) [10, 13] \<or> 100000 < utf16_len (pc_text c))) invalid_proposal"

definition validate_continuation_candidate :: "continuation_candidate \<Rightarrow> unit core_result" where
  "validate_continuation_candidate c =
    and_then (ensure (\<not> (trim (ct_title c) = [] \<or> 120 < blen (ct_title c) \<or> 4096 < blen (ct_explanation c)))
      invalid_proposal) (\<lambda>_.
    validate_continuation_paragraphs (ct_paragraphs c))"

definition candidate_ids :: "nat \<Rightarrow> ustr list" where
  "candidate_ids n = map (\<lambda>k. u ''candidate-'' @ show_int (int k)) [0..<n]"

definition validate_structured_candidate :: "env \<Rightarrow> structured_candidate \<Rightarrow> unit core_result" where
  "validate_structured_candidate E c =
    and_then (ensure (\<not> (trim (sc_title c) = [] \<or> 120 < blen (sc_title c) \<or> 4096 < blen (sc_explanation c)))
      invalid_proposal) (\<lambda>_.
    and_then (map_err (\<lambda>_. invalid_proposal) (validate_typed_replacement_blocks E (sc_blocks c))) (\<lambda>_.
    if sc_blocks c = [] then Inr ()
    else and_then (map_err (\<lambda>_. invalid_proposal)
           (typed_replacement_snapshot E (sc_blocks c) (candidate_ids (length (sc_blocks c))))) (\<lambda>_. Inr ())))"

section \<open>Retaining the candidates of an answer\<close>

definition retained_kind :: "frozen \<Rightarrow> scope_grant \<Rightarrow> proposal_kind option" where
  "retained_kind fz g =
    (if po_audience (fz_policy fz) \<noteq> RestrictedWriting
        \<and> (\<not> author_room_structured_revision_allowed (fz_snapshot fz) (fz_policy fz) (fz_purpose fz)
           \<or> \<not> (grant_kind g = Blocks \<or> grant_kind g = WholeDocument))
     then None
     else case fz_purpose fz of
            Revise \<Rightarrow>
              (case grant_kind g of
                 Passage \<Rightarrow> Some PassageKind
               | Blocks \<Rightarrow> Some StructuredKind
               | WholeDocument \<Rightarrow> Some StructuredKind
               | Append \<Rightarrow> None)
          | Continue \<Rightarrow> Some ContinuationKind
          | _ \<Rightarrow> None)"

fun expected_scope :: "proposal_kind \<Rightarrow> scope_grant \<Rightarrow> scope_kind" where
  "expected_scope PassageKind g = Passage"
| "expected_scope ContinuationKind g = Append"
| "expected_scope StructuredKind g = grant_kind g"

text \<open>
  The candidates of an answer that is well-formed and within its limits; any other answer has none.
\<close>

definition retained_contents :: "desk_services \<Rightarrow> proposal_kind \<Rightarrow> ustr \<Rightarrow> proposal_content list" where
  "retained_contents S k txt =
    (case k of
       PassageKind \<Rightarrow>
         (case passage_output S txt of
            None \<Rightarrow> []
          | Some cs \<Rightarrow>
              if cs = [] \<or> 3 < length cs \<or> list_ex (\<lambda>c. \<not> is_ok (validate_candidate c)) cs then []
              else map PassageContent cs)
     | ContinuationKind \<Rightarrow>
         (case validate_continuation_output (continuation_from S) txt of
            Inl _ \<Rightarrow> []
          | Inr out \<Rightarrow>
              let c = co_suggestions out ! 0 in
              if \<not> is_ok (validate_continuation_candidate c) then [] else [ContinuationContent c])
     | StructuredKind \<Rightarrow>
         (case structured_from S txt of
            None \<Rightarrow> []
          | Some out \<Rightarrow>
              if so_schema out \<noteq> STRUCTURED_PROPOSAL_RESPONSE_CONTRACT \<or> so_suggestions out = []
                 \<or> 3 < length (so_suggestions out)
                 \<or> list_ex (\<lambda>c. \<not> is_ok (validate_structured_candidate (desk_env S) c)) (so_suggestions out)
              then [] else map StructuredContent (so_suggestions out)))"

definition retain_candidates_at ::
  "desk_services \<Rightarrow> (nat \<Rightarrow> ustr) \<Rightarrow> disc_tables \<Rightarrow> run_row \<Rightarrow> ustr \<Rightarrow> review_tables \<Rightarrow> review_tables core_result" where
  "retain_candidates_at S fresh T r txt R =
    and_then (packet_snapshot S (rn_packet r)) (\<lambda>snapshot_id.
    and_then (frozen_context S snapshot_id) (\<lambda>(fz, namespace).
    and_then (packet_scope S (rn_packet r)) (\<lambda>granted.
    case granted of
      None \<Rightarrow> Inr R
    | Some g \<Rightarrow>
        (case retained_kind fz g of
           None \<Rightarrow> Inr R
         | Some k \<Rightarrow>
             and_then (ensure (\<not> (grant_kind g \<noteq> expected_scope k g \<or> namespace \<noteq> rn_namespace r
                 \<or> sn_project (fz_snapshot fz) \<noteq> rn_project r)) invalid_proposal) (\<lambda>_.
             try_fold (\<lambda>R' (n, c). insert_proposal T \<lparr>pl_id = fresh n, pl_run = rn_id r, pl_ordinal = n,
                 pl_candidate = c, pl_kind = k\<rparr> R')
               R (List.enumerate 0 (retained_contents S k txt)))))))"

section \<open>Prepared versions and decisions\<close>

text \<open>The texts \<open>[]\<close> of an empty payload decode at either type.\<close>

fun paragraphs_of :: "version_payload \<Rightarrow> ustr list option" where
  "paragraphs_of (ParagraphPayload ps) = Some ps"
| "paragraphs_of (BlockPayload bs) = (if bs = [] then Some [] else None)"

fun blocks_of :: "version_payload \<Rightarrow> typed_block list option" where
  "blocks_of (BlockPayload bs) = Some bs"
| "blocks_of (ParagraphPayload ps) = (if ps = [] then Some [] else None)"

definition prepared_payload ::
  "env \<Rightarrow> proposal_kind \<Rightarrow> version_row \<Rightarrow> (ustr list option \<times> typed_block list option) core_result" where
  "prepared_payload E k v =
    (case k of
       PassageKind \<Rightarrow> and_then (ensure (pv_payload v = None) invalid_proposal) (\<lambda>_. Inr (None, None))
     | ContinuationKind \<Rightarrow>
         and_then (ensure (pv_text v = []) invalid_proposal) (\<lambda>_.
         and_then (ok_or invalid_proposal (pv_payload v)) (\<lambda>raw.
         and_then (ok_or invalid_proposal (paragraphs_of raw)) (\<lambda>ps.
         and_then (validate_continuation_paragraphs ps) (\<lambda>_. Inr (Some ps, None)))))
     | StructuredKind \<Rightarrow>
         and_then (ensure (pv_text v = []) invalid_proposal) (\<lambda>_.
         and_then (ok_or invalid_proposal (pv_payload v)) (\<lambda>raw.
         and_then (ok_or invalid_proposal (blocks_of raw)) (\<lambda>bs.
         and_then (map_err (\<lambda>_. invalid_proposal) (validate_typed_replacement_blocks E bs)) (\<lambda>_.
         Inr (None, Some bs))))))"

definition read_prepared :: "env \<Rightarrow> review_tables \<Rightarrow> ustr \<Rightarrow> prepared core_result" where
  "read_prepared E R i =
    and_then (ok_or sql_error (find_version R i)) (\<lambda>v.
    and_then (ok_or sql_error (find_proposal R (pv_proposal v))) (\<lambda>p.
    and_then (map_err (\<lambda>_. invalid_proposal) (validate_snapshot_json E (pv_body v))) (\<lambda>valid.
    and_then (ensure (\<not> (hash valid \<noteq> pv_hash v \<or> canonical_json valid \<noteq> pv_body v)) invalid_proposal) (\<lambda>_.
    and_then (prepared_payload E (pl_kind p) v) (\<lambda>(paragraphs, blocks).
    and_then (parse_stored_version (pv_version v)) (\<lambda>n.
    Inr \<lparr>pn_id = i, pn_proposal = pv_proposal v, pn_version = n, pn_text = pv_text v,
         pn_paragraphs = paragraphs, pn_blocks = blocks, pn_body = snapshot valid, pn_hash = pv_hash v\<rparr>))))))"

definition decision_value :: "decision_row \<Rightarrow> proposal_decision" where
  "decision_value d = \<lparr>dn_id = pd_id d, dn_proposal = pd_proposal d, dn_kind = pd_kind d,
     dn_prepared = pd_prepared d, dn_before = pd_before d, dn_after = pd_after d\<rparr>"

definition read_decision :: "review_tables \<Rightarrow> ustr \<Rightarrow> proposal_decision core_result" where
  "read_decision R i = and_then (ok_or sql_error (find_decision R i)) (\<lambda>d. Inr (decision_value d))"

section \<open>Reading a suggestion\<close>

fun expected_source :: "proposal_kind \<Rightarrow> scope_grant \<Rightarrow> context_purpose \<times> scope_kind" where
  "expected_source PassageKind g = (Revise, Passage)"
| "expected_source ContinuationKind g = (Continue, Append)"
| "expected_source StructuredKind g = (Revise, grant_kind g)"

definition writing_source :: "proposal_kind \<Rightarrow> frozen \<Rightarrow> scope_grant \<Rightarrow> run_row \<Rightarrow> ustr \<Rightarrow> bool" where
  "writing_source k fz g r stored_namespace \<longleftrightarrow>
    \<not> (fz_purpose fz \<noteq> fst (expected_source k g)
       \<or> (po_audience (fz_policy fz) \<noteq> RestrictedWriting
          \<and> \<not> (author_room_structured_revision_allowed (fz_snapshot fz) (fz_policy fz) (fz_purpose fz)
               \<and> k = StructuredKind))
       \<or> (k = StructuredKind \<and> \<not> (grant_kind g = Blocks \<or> grant_kind g = WholeDocument))
       \<or> grant_kind g \<noteq> snd (expected_source k g)
       \<or> sn_project (fz_snapshot fz) \<noteq> rn_project r
       \<or> rn_namespace r \<noteq> stored_namespace)"

text \<open>The stored candidate must be the one the retained answer has at its place.\<close>

definition read_candidate :: "desk_services \<Rightarrow> proposal_row \<Rightarrow> ustr \<Rightarrow> proposal_content core_result" where
  "read_candidate S p raw =
    (case (pl_kind p, pl_candidate p) of
       (PassageKind, PassageContent c) \<Rightarrow>
         and_then (ok_or (core_err ''InvalidDocument'') (passage_output S raw)) (\<lambda>cs.
         and_then (ensure (\<not> (3 < length cs \<or> \<not> (pl_ordinal p < length cs \<and> cs ! pl_ordinal p = c))) invalid_proposal) (\<lambda>_.
         and_then (validate_candidate c) (\<lambda>_. Inr (PassageContent c))))
     | (ContinuationKind, ContinuationContent c) \<Rightarrow>
         and_then (validate_continuation_output (continuation_from S) raw) (\<lambda>out.
         and_then (ensure (\<not> (pl_ordinal p \<noteq> 0 \<or> \<not> (co_suggestions out \<noteq> [] \<and> hd (co_suggestions out) = c)))
           invalid_proposal) (\<lambda>_.
         and_then (validate_continuation_candidate c) (\<lambda>_. Inr (ContinuationContent c))))
     | (StructuredKind, StructuredContent c) \<Rightarrow>
         and_then (ok_or (core_err ''InvalidDocument'') (structured_from S raw)) (\<lambda>out.
         and_then (ensure (\<not> (so_schema out \<noteq> STRUCTURED_PROPOSAL_RESPONSE_CONTRACT \<or> 3 < length (so_suggestions out)
             \<or> \<not> (pl_ordinal p < length (so_suggestions out) \<and> so_suggestions out ! pl_ordinal p = c))) invalid_proposal) (\<lambda>_.
         and_then (validate_structured_candidate (desk_env S) c) (\<lambda>_. Inr (StructuredContent c))))
     | _ \<Rightarrow> Inl (core_err ''InvalidDocument''))"

definition is_current ::
  "desk_services \<Rightarrow> db \<Rightarrow> disc_tables \<Rightarrow> frozen \<Rightarrow> head \<Rightarrow> bool \<Rightarrow> bool core_result" where
  "is_current S D T fz source historical =
    (case project_rows D of
       None \<Rightarrow> Inl sql_error
     | Some row \<Rightarrow>
         if historical \<or> sn_source_epoch (fz_snapshot fz) \<noteq> show_int (p_epoch row)
            \<or> po_version (fz_policy fz) \<noteq> show_int (policy_epoch T)
         then Inr False
         else and_then (read_document (desk_env S) D (document_id source)) (\<lambda>d. Inr (doc_head d = source)))"

definition read_proposal :: "desk_services \<Rightarrow> desk \<Rightarrow> project_access \<Rightarrow> ustr \<Rightarrow> proposal core_result" where
  "read_proposal S W a i =
    (case W of (D, T, R) \<Rightarrow>
      and_then (check_id i) (\<lambda>_.
      and_then (ok_or (core_err ''ProposalNotFound'')
        (Option.bind (find_proposal R i) (\<lambda>p. map_option (Pair p) (find_run T (pl_run p))))) (\<lambda>(p, r).
      and_then (packet_snapshot S (rn_packet r)) (\<lambda>snapshot_id.
      and_then (frozen_context S snapshot_id) (\<lambda>(fz, stored_namespace).
      and_then (packet_scope S (rn_packet r)) (\<lambda>granted.
      and_then (ok_or invalid_proposal granted) (\<lambda>g.
      and_then (ensure (writing_source (pl_kind p) fz g r stored_namespace) invalid_proposal) (\<lambda>_.
      and_then (read_revision (desk_env S) D (sr_revision (sn_target (fz_snapshot fz)))) (\<lambda>source.
      and_then (ensure (rn_status r = RunCompleted) invalid_proposal) (\<lambda>_.
      and_then (parse_stored_version (rn_version r)) (\<lambda>v.
      and_then (ensure (rev_head source = \<lparr>document_id = rn_document r, version = v, body_hash = rn_hash r\<rparr>)
        invalid_proposal) (\<lambda>_.
      and_then (read_candidate S p (rn_output r)) (\<lambda>candidate.
      let historical = (project_id a \<noteq> rn_project r \<or> operation_namespace a \<noteq> rn_namespace r) in
      and_then (is_current S D T fz (rev_head source) historical) (\<lambda>current.
      and_then (case versions_of R i of
          [] \<Rightarrow> Inr None
        | vs \<Rightarrow> and_then (read_prepared (desk_env S) R (pv_id (last vs))) (\<lambda>q. Inr (Some q))) (\<lambda>latest.
      and_then (case decision_of R i of
          None \<Rightarrow> Inr None
        | Some d \<Rightarrow> and_then (read_decision R (pd_id d)) (\<lambda>x. Inr (Some x))) (\<lambda>decided.
      Inr \<lparr>pp_id = i, pp_run = pl_run p, pp_kind = pl_kind p, pp_candidate = candidate,
           pp_source = rev_head source, pp_source_body = rev_body source, pp_scope = g,
           pp_snapshot = snapshot_id, pp_packet = rn_packet r, pp_current = current,
           pp_historical = historical, pp_prepared = latest,
           pp_decision = decided\<rparr>))))))))))))))))"

definition list_proposals :: "desk_services \<Rightarrow> desk \<Rightarrow> project_access \<Rightarrow> ustr \<Rightarrow> proposal list core_result" where
  "list_proposals S W a doc =
    (case W of (D, T, R) \<Rightarrow>
      and_then (check_id doc) (\<lambda>_.
      try_map (\<lambda>p. read_proposal S W a (pl_id p))
        (concat (map (\<lambda>r. sort_key pl_ordinal (filter (\<lambda>p. pl_run p = rn_id r) (proposal_rows R)))
          (filter (\<lambda>r. rn_document r = doc) (run_rows T))))))"

end
