(* ===== verification/Proposal_Commands.thy ===== *)
theory Proposal_Commands
  imports Proposal
begin

text \<open>
  The author's commands over suggestions (crates/conversation/src/proposals.rs): preparing an
  edited version, applying a prepared version to the manuscript, rejecting a suggestion, and the
  validation of the stored history that every open, backup and transfer runs. The three
  preparations share \<open>prepare_tx\<close>: they differ in the kind they accept, the check of the body and
  the columns they fill.
\<close>

section \<open>Requests\<close>

record prepare_request =
  pr_access :: project_access
  pr_operation :: ustr
  pr_proposal :: ustr
  pr_expected_version :: ustr
  pr_body :: json

record prepare_passage_request = prepare_request +
  pr_text_value :: ustr

record prepare_continuation_request = prepare_request +
  pr_paragraphs :: "ustr list"

record prepare_structured_request = prepare_request +
  pr_blocks :: "typed_block list"

record apply_request =
  ar_access :: project_access
  ar_operation :: ustr
  ar_proposal :: ustr
  ar_prepared :: ustr
  ar_expected :: head
  ar_hash :: ustr
  ar_generation :: ustr

record reject_request =
  rj_access :: project_access
  rj_operation :: ustr
  rj_proposal :: ustr

record apply_ack =
  aa_access :: project_access
  aa_operation :: ustr
  aa_already :: bool
  aa_result :: stored_result
  aa_document :: document_record

subsection \<open>The hashed payloads\<close>

fun typed_mark_json :: "typed_mark \<Rightarrow> json" where
  "typed_mark_json TypedBold = JObj [(u ''type'', JStr (u ''bold''))]"
| "typed_mark_json TypedItalic = JObj [(u ''type'', JStr (u ''italic''))]"
| "typed_mark_json (TypedLink h) = JObj [(u ''type'', JStr (u ''link'')), (u ''attrs'', JObj [(u ''href'', JStr h)])]"

fun typed_inline_json :: "typed_inline \<Rightarrow> json" where
  "typed_inline_json (TypedText t ms) = JObj ([(u ''type'', JStr (u ''text'')), (u ''text'', JStr t)]
     @ (if ms = [] then [] else [(u ''marks'', JArr (map typed_mark_json ms))]))"
| "typed_inline_json TypedHardBreak = JObj [(u ''type'', JStr (u ''hardBreak''))]"

fun typed_block_json :: "typed_block \<Rightarrow> json" where
  "typed_block_json (TypedParagraph xs) =
     JObj [(u ''type'', JStr (u ''paragraph'')), (u ''content'', JArr (map typed_inline_json xs))]"
| "typed_block_json (TypedHeading l xs) =
     JObj [(u ''type'', JStr (u ''heading'')), (u ''attrs'', JObj [(u ''level'', JNum (PosInt (ucast l)))]),
       (u ''content'', JArr (map typed_inline_json xs))]"
| "typed_block_json TypedSceneBreak = JObj [(u ''type'', JStr (u ''sceneBreak''))]"

definition prepare_json :: "'a prepare_request_scheme \<Rightarrow> ustr \<times> json \<Rightarrow> json" where
  "prepare_json q payload = JObj [(u ''access'', access_json (pr_access q)), (u ''operationId'', JStr (pr_operation q)),
     (u ''proposalId'', JStr (pr_proposal q)), (u ''expectedPreparedVersion'', JStr (pr_expected_version q)),
     payload, (u ''body'', pr_body q)]"

definition apply_json :: "apply_request \<Rightarrow> json" where
  "apply_json q = JObj [(u ''access'', access_json (ar_access q)), (u ''operationId'', JStr (ar_operation q)),
     (u ''proposalId'', JStr (ar_proposal q)), (u ''preparedId'', JStr (ar_prepared q)),
     (u ''expected'', head_json (ar_expected q)), (u ''resultHash'', JStr (ar_hash q)),
     (u ''localGeneration'', JStr (ar_generation q))]"

definition reject_json :: "reject_request \<Rightarrow> json" where
  "reject_json q = JObj [(u ''access'', access_json (rj_access q)), (u ''operationId'', JStr (rj_operation q)),
     (u ''proposalId'', JStr (rj_proposal q))]"

section \<open>Checks\<close>

definition require_owned_pending :: "proposal \<Rightarrow> unit core_result" where
  "require_owned_pending p =
    and_then (ensure (\<not> pp_historical p) (core_err ''ContextProjectMismatch'')) (\<lambda>_.
    ensure (pp_decision p = None) (core_err ''SuggestionAlreadyDecided''))"

definition result_receipt :: "env \<Rightarrow> json \<Rightarrow> snapshot_receipt core_result" where
  "result_receipt E v = map_err (\<lambda>_. invalid_proposal) (validate_snapshot_json E (json_text E v))"

definition change_of :: "proposal \<Rightarrow> json \<Rightarrow> scope_request" where
  "change_of p v = \<lparr>source_snapshot = pp_source_body p, result_snapshot = v, scope = pp_scope p\<rparr>"

definition scope_violation :: core_error where
  "scope_violation = core_err ''ScopeViolation''"

definition validate_replacement :: "env \<Rightarrow> proposal \<Rightarrow> ustr \<Rightarrow> json \<Rightarrow> snapshot_receipt core_result" where
  "validate_replacement E p txt v =
    and_then (map_err (\<lambda>_. scope_violation) (validate_text_replacement E (change_of p v) txt)) (\<lambda>_.
    result_receipt E v)"

definition validate_continuation :: "env \<Rightarrow> proposal \<Rightarrow> ustr list \<Rightarrow> json \<Rightarrow> snapshot_receipt core_result" where
  "validate_continuation E p paragraphs v =
    and_then (ensure (\<not> (pp_kind p \<noteq> ContinuationKind \<or> grant_kind (pp_scope p) \<noteq> Append)) invalid_proposal) (\<lambda>_.
    and_then (validate_continuation_paragraphs paragraphs) (\<lambda>_.
    and_then (map_err (\<lambda>_. scope_violation) (validate_append E (change_of p v) paragraphs)) (\<lambda>_.
    result_receipt E v)))"

definition validate_structured :: "env \<Rightarrow> proposal \<Rightarrow> typed_block list \<Rightarrow> json \<Rightarrow> snapshot_receipt core_result" where
  "validate_structured E p blocks v =
    and_then (ensure (\<not> (pp_kind p \<noteq> StructuredKind
        \<or> \<not> (grant_kind (pp_scope p) = Blocks \<or> grant_kind (pp_scope p) = WholeDocument))) invalid_proposal) (\<lambda>_.
    and_then (map_err (\<lambda>_. invalid_proposal) (validate_typed_replacement_blocks E blocks)) (\<lambda>_.
    and_then (map_err (\<lambda>_. scope_violation) (validate_structured_replacement E (change_of p v) blocks)) (\<lambda>_.
    result_receipt E v)))"

definition validate_prepared :: "env \<Rightarrow> proposal \<Rightarrow> prepared \<Rightarrow> snapshot_receipt core_result" where
  "validate_prepared E p q =
    (case pp_kind p of
       PassageKind \<Rightarrow>
         and_then (ensure (pn_paragraphs q = None) invalid_proposal) (\<lambda>_.
         validate_replacement E p (pn_text q) (pn_body q))
     | ContinuationKind \<Rightarrow>
         and_then (ok_or invalid_proposal (pn_paragraphs q)) (\<lambda>ps.
         and_then (ensure (pn_text q = []) invalid_proposal) (\<lambda>_.
         validate_continuation E p ps (pn_body q)))
     | StructuredKind \<Rightarrow>
         and_then (ok_or invalid_proposal (pn_blocks q)) (\<lambda>bs.
         and_then (ensure (\<not> (pn_text q \<noteq> [] \<or> pn_paragraphs q \<noteq> None)) invalid_proposal) (\<lambda>_.
         validate_structured E p bs (pn_body q))))"

definition review_receipt ::
  "db \<times> review_tables \<Rightarrow> project_access \<Rightarrow> ustr \<Rightarrow> review_kind \<Rightarrow> ustr \<Rightarrow> ustr option core_result" where
  "review_receipt W a op k payload =
    (case W of (D, R) \<Rightarrow>
      (case find_review R (operation_namespace a, op) of
         Some c \<Rightarrow> if rw_kind c \<noteq> k \<or> rw_payload c \<noteq> payload then Inl reused else Inr (Some (rw_result c))
       | None \<Rightarrow>
           if find_receipt D (operation_namespace a, op) \<noteq> None then Inl reused else Inr None))"

section \<open>Preparing\<close>

text \<open>
  The body of the transaction: \<open>guard\<close> is the check of the kind, \<open>check\<close> the validation of the
  body, \<open>txt\<close> and \<open>payload\<close> the columns of the new version.
\<close>

definition prepare_tx ::
  "desk_services \<Rightarrow> ustr \<Rightarrow> 'a prepare_request_scheme \<Rightarrow> int \<Rightarrow> ustr \<Rightarrow> (proposal \<Rightarrow> bool)
   \<Rightarrow> (proposal \<Rightarrow> snapshot_receipt core_result) \<Rightarrow> ustr \<Rightarrow> version_payload option
   \<Rightarrow> desk \<Rightarrow> (prepared \<times> desk) core_result" where
  "prepare_tx S new q expected request_hash guard check txt payload W =
    (case W of (D, T, R) \<Rightarrow>
      and_then (review_receipt (D, R) (pr_access q) (pr_operation q) PrepareReceipt request_hash) (\<lambda>prior.
      case prior of
        Some i \<Rightarrow> and_then (read_prepared (desk_env S) R i) (\<lambda>x. Inr (x, W))
      | None \<Rightarrow>
          and_then (read_proposal S W (pr_access q) (pr_proposal q)) (\<lambda>p.
          and_then (require_owned_pending p) (\<lambda>_.
          and_then (ensure (guard p) invalid_proposal) (\<lambda>_.
          and_then (case pp_prepared p of None \<Rightarrow> Inr 0 | Some x \<Rightarrow> parse_version (pn_version x)) (\<lambda>current.
          and_then (ensure (expected = current) (core_err ''PreparedVersionConflict'')) (\<lambda>_.
          and_then (check p) (\<lambda>validated.
          and_then (ok_or (core_err ''VersionLimit'') (checked_add_i64 current 1)) (\<lambda>n.
          and_then (insert_version \<lparr>pv_id = new, pv_proposal = pp_id p, pv_version = n, pv_text = txt,
              pv_body = canonical_json validated, pv_hash = hash validated, pv_payload = payload\<rparr> R) (\<lambda>R1.
          and_then (insert_review_receipt (pr_access q) (pr_operation q) PrepareReceipt request_hash new (D, R1)) (\<lambda>(D2, R2).
          and_then (read_prepared (desk_env S) R2 new) (\<lambda>x. Inr (x, D2, T, R2)))))))))))))"

type_synonym desk_host = "actor \<times> disc_tables \<times> review_tables"

definition desk_tx :: "turn \<Rightarrow> (desk \<Rightarrow> ('a \<times> desk) core_result) \<Rightarrow> desk_host \<Rightarrow> 'a core_result \<times> desk_host" where
  "desk_tx t f H =
    (case H of (P, T, R) \<Rightarrow>
      if \<not> connected P then (Inl sql_error, H)
      else case in_tx (tx t) (store P, T, R) f of (r, D, T', R') \<Rightarrow> (r, P\<lparr>store := D\<rparr>, T', R'))"

definition after_desk_checks :: "'a core_result \<Rightarrow> ('a \<Rightarrow> 'b core_result \<times> desk_host) \<Rightarrow> desk_host \<Rightarrow> 'b core_result \<times> desk_host" where
  "after_desk_checks c f H = (case c of Inl e \<Rightarrow> (Inl e, H) | Inr x \<Rightarrow> f x)"

definition prepare_checks :: "env \<Rightarrow> actor \<Rightarrow> 'a prepare_request_scheme \<Rightarrow> ustr \<times> json \<Rightarrow> (int \<times> ustr) core_result" where
  "prepare_checks E P q payload =
    and_then (check_access P (pr_access q)) (\<lambda>_.
    and_then (check_id (pr_operation q)) (\<lambda>_.
    and_then (parse_version (pr_expected_version q)) (\<lambda>expected.
    Inr (expected, logical_hash E (prepare_json q payload)))))"

definition prepare_proposal ::
  "desk_services \<Rightarrow> turn \<Rightarrow> prepare_passage_request \<Rightarrow> desk_host \<Rightarrow> prepared core_result \<times> desk_host" where
  "prepare_proposal S t q H =
    after_desk_checks (prepare_checks (desk_env S) (fst H) q (u ''replacementText'', JStr (pr_text_value q)))
      (\<lambda>(expected, h). desk_tx t (prepare_tx S (new_first t) q expected h
          (\<lambda>p. pp_kind p = PassageKind)
          (\<lambda>p. validate_replacement (desk_env S) p (pr_text_value q) (pr_body q))
          (pr_text_value q) None) H) H"

definition prepare_continuation ::
  "desk_services \<Rightarrow> turn \<Rightarrow> prepare_continuation_request \<Rightarrow> desk_host \<Rightarrow> prepared core_result \<times> desk_host" where
  "prepare_continuation S t q H =
    after_desk_checks (prepare_checks (desk_env S) (fst H) q (u ''paragraphs'', JArr (map JStr (pr_paragraphs q))))
      (\<lambda>(expected, h). desk_tx t (prepare_tx S (new_first t) q expected h
          (\<lambda>p. pp_kind p = ContinuationKind)
          (\<lambda>p. and_then (validate_continuation_paragraphs (pr_paragraphs q)) (\<lambda>_.
             validate_continuation (desk_env S) p (pr_paragraphs q) (pr_body q)))
          [] (Some (ParagraphPayload (pr_paragraphs q)))) H) H"

definition prepare_structured ::
  "desk_services \<Rightarrow> turn \<Rightarrow> prepare_structured_request \<Rightarrow> desk_host \<Rightarrow> prepared core_result \<times> desk_host" where
  "prepare_structured S t q H =
    after_desk_checks (prepare_checks (desk_env S) (fst H) q (u ''blocks'', JArr (map typed_block_json (pr_blocks q))))
      (\<lambda>(expected, h). desk_tx t (prepare_tx S (new_first t) q expected h
          (\<lambda>p. pp_kind p = StructuredKind \<and> (grant_kind (pp_scope p) = Blocks \<or> grant_kind (pp_scope p) = WholeDocument))
          (\<lambda>p. validate_structured (desk_env S) p (pr_blocks q) (pr_body q))
          [] (Some (BlockPayload (pr_blocks q)))) H) H"

section \<open>Applying\<close>

text \<open>The identifiers \<open>new_id\<close> draws: the revisions before and after, and the decision.\<close>

record apply_ids =
  ai_before :: ustr
  ai_after :: ustr
  ai_decision :: ustr

definition apply_fresh ::
  "desk_services \<Rightarrow> apply_ids \<Rightarrow> apply_request \<Rightarrow> ustr \<Rightarrow> desk \<Rightarrow> (stored_result \<times> desk) core_result" where
  "apply_fresh S F q payload W =
    (let E = desk_env S; a = ar_access q in
     case W of (D, T, R) \<Rightarrow>
      and_then (read_proposal S W a (ar_proposal q)) (\<lambda>p.
      and_then (require_owned_pending p) (\<lambda>_.
      and_then (ok_or (core_err ''ProposalNotPrepared'') (pp_prepared p)) (\<lambda>x.
      and_then (ensure (\<not> (pn_id x \<noteq> ar_prepared q \<or> pn_hash x \<noteq> ar_hash q)) (core_err ''PreparedVersionConflict'')) (\<lambda>_.
      and_then (read_document E D (document_id (ar_expected q))) (\<lambda>before.
      and_then (require_head (doc_head before) (ar_expected q)) (\<lambda>_.
      and_then (ensure (\<not> (pp_source p \<noteq> ar_expected q \<or> \<not> pp_current p)) (core_err ''SuggestionStale'')) (\<lambda>_.
      and_then (validate_prepared E p x) (\<lambda>validated.
      and_then (ensure (\<not> (hash validated \<noteq> pn_hash x \<or> hash validated = body_hash (doc_head before))) invalid_proposal) (\<lambda>_.
      and_then (parse_version (version (doc_head before))) (\<lambda>v.
      and_then (ok_or (core_err ''VersionLimit'') (checked_add_i64 v 1)) (\<lambda>next_version.
      and_then (checkpoint_at E (ai_before F) D before (u ''beforeApply'')) (\<lambda>(before_revision, D1).
      and_then (replace_body (document_id (doc_head before)) v (body_hash (doc_head before)) next_version
          (canonical_json validated) (hash validated) D1) (\<lambda>D2.
      and_then (bump_epoch D2) (\<lambda>D3.
      and_then (read_document E D3 (document_id (doc_head before))) (\<lambda>after.
      and_then (checkpoint_at E (ai_after F) D3 after (u ''afterApply'')) (\<lambda>(after_revision, D4).
      and_then (insert_decision D4 \<lparr>pd_id = ai_decision F, pd_proposal = pp_id p, pd_kind = ApplyDecision,
          pd_prepared = Some (pn_id x), pd_before = Some (rev_id before_revision), pd_after = Some (rev_id after_revision),
          pd_namespace = operation_namespace a, pd_operation = ar_operation q\<rparr> R) (\<lambda>R1.
      let result = \<lparr>res_head = doc_head after, saved_generation = ar_generation q,
            applied = Some \<lparr>decision_id = ai_decision F, proposal_id = pp_id p, prepared_id = pn_id x,
              ap_before_revision_id = rev_id before_revision, ap_after_revision_id = rev_id after_revision\<rparr>,
            restored = None\<rparr> in
      and_then (insert_receipt E D4 (operation_namespace a) (ar_operation q) (u ''apply'') payload result) (\<lambda>D5.
      Inr (result, D5, T, R1))))))))))))))))))))"

definition apply_tx ::
  "desk_services \<Rightarrow> apply_ids \<Rightarrow> apply_request \<Rightarrow> ustr \<Rightarrow> desk \<Rightarrow> (apply_ack \<times> desk) core_result" where
  "apply_tx S F q payload W =
    (let E = desk_env S in
     and_then (existing_receipt E (fst W) (operation_namespace (ar_access q)) (ar_operation q) (u ''apply'') payload) (\<lambda>prior.
     and_then (case prior of Some result \<Rightarrow> Inr (result, W) | None \<Rightarrow> apply_fresh S F q payload W) (\<lambda>(result, W').
     and_then (read_document E (fst W') (document_id (ar_expected q))) (\<lambda>d.
     Inr (\<lparr>aa_access = ar_access q, aa_operation = ar_operation q, aa_already = (prior \<noteq> None),
           aa_result = result, aa_document = d\<rparr>, W')))))"

definition apply_checks :: "env \<Rightarrow> actor \<Rightarrow> apply_request \<Rightarrow> ustr core_result" where
  "apply_checks E P q =
    and_then (check_access P (ar_access q)) (\<lambda>_.
    and_then (try_each check_id [ar_operation q, ar_proposal q, ar_prepared q]) (\<lambda>_.
    and_then (parse_version (ar_generation q)) (\<lambda>_.
    Inr (logical_hash E (apply_json q)))))"

definition apply_proposal ::
  "desk_services \<Rightarrow> turn \<Rightarrow> apply_ids \<Rightarrow> apply_request \<Rightarrow> desk_host \<Rightarrow> apply_ack core_result \<times> desk_host" where
  "apply_proposal S t F q H =
    after_desk_checks (apply_checks (desk_env S) (fst H) q) (\<lambda>payload. desk_tx t (apply_tx S F q payload) H) H"

section \<open>Rejecting\<close>

definition reject_tx ::
  "desk_services \<Rightarrow> ustr \<Rightarrow> reject_request \<Rightarrow> ustr \<Rightarrow> desk \<Rightarrow> (proposal_decision \<times> desk) core_result" where
  "reject_tx S new q payload W =
    (case W of (D, T, R) \<Rightarrow>
      and_then (review_receipt (D, R) (rj_access q) (rj_operation q) RejectReceipt payload) (\<lambda>prior.
      case prior of
        Some i \<Rightarrow> and_then (read_decision R i) (\<lambda>d. Inr (d, W))
      | None \<Rightarrow>
          and_then (read_proposal S W (rj_access q) (rj_proposal q)) (\<lambda>p.
          and_then (require_owned_pending p) (\<lambda>_.
          and_then (insert_decision D \<lparr>pd_id = new, pd_proposal = pp_id p, pd_kind = RejectDecision,
              pd_prepared = None, pd_before = None, pd_after = None,
              pd_namespace = operation_namespace (rj_access q), pd_operation = rj_operation q\<rparr> R) (\<lambda>R1.
          and_then (insert_review_receipt (rj_access q) (rj_operation q) RejectReceipt payload new (D, R1)) (\<lambda>(D2, R2).
          and_then (read_decision R2 new) (\<lambda>d. Inr (d, D2, T, R2))))))))"

definition reject_proposal ::
  "desk_services \<Rightarrow> turn \<Rightarrow> reject_request \<Rightarrow> desk_host \<Rightarrow> proposal_decision core_result \<times> desk_host" where
  "reject_proposal S t q H =
    after_desk_checks
      (and_then (check_access (fst H) (rj_access q)) (\<lambda>_.
       and_then (check_id (rj_operation q)) (\<lambda>_. Inr (logical_hash (desk_env S) (reject_json q)))))
      (\<lambda>payload. desk_tx t (reject_tx S (new_first t) q payload) H) H"

section \<open>The proposal commands\<close>

datatype proposal_command =
    PList project_access ustr
  | PPrepare prepare_passage_request
  | PPrepareContinuation prepare_continuation_request
  | PPrepareStructured prepare_structured_request
  | PApply apply_request
  | PReject reject_request

datatype proposal_reply =
    PListed "proposal list"
  | PPrepared prepared
  | PApplied apply_ack
  | PDecided proposal_decision

text \<open>\<open>respond!\<close>: the result fences the actor before it is sent.\<close>

definition respond :: "('a \<Rightarrow> proposal_reply) \<Rightarrow> 'a core_result \<times> desk_host \<Rightarrow> proposal_reply core_result \<times> desk_host" where
  "respond f o' = (case o' of (r, P, TR) \<Rightarrow> (and_then r (\<lambda>x. Inr (f x)), fence_uncertain r P, TR))"

fun handle_proposal ::
  "desk_services \<Rightarrow> turn \<Rightarrow> apply_ids \<Rightarrow> proposal_command \<Rightarrow> desk_host \<Rightarrow> proposal_reply core_result \<times> desk_host" where
  "handle_proposal S t F (PList a doc) H = respond PListed
     (and_then (check_access (fst H) a) (\<lambda>_.
      and_then (the_db (fst H)) (\<lambda>D. list_proposals S (D, snd H) a doc)), H)"
| "handle_proposal S t F (PPrepare q) H = respond PPrepared (prepare_proposal S t q H)"
| "handle_proposal S t F (PPrepareContinuation q) H = respond PPrepared (prepare_continuation S t q H)"
| "handle_proposal S t F (PPrepareStructured q) H = respond PPrepared (prepare_structured S t q H)"
| "handle_proposal S t F (PApply q) H = respond PApplied (apply_proposal S t F q H)"
| "handle_proposal S t F (PReject q) H = respond PDecided (reject_proposal S t q H)"

end
