(* ===== verification/Proposal_Storage.thy ===== *)
theory Proposal_Storage
  imports Proposal_Commands
begin

text \<open>
  \<open>validate_proposal_storage\<close> (crates/conversation/src/proposals.rs): the check of the retained
  suggestions, prepared versions, decisions and receipts that does not depend on the current
  project, so that copied and superseded history stays valid. A row a query expects and does not
  find is \<open>sql_error\<close>, as \<open>query_row\<close> reports it.
\<close>

definition storage_id :: "ustr \<Rightarrow> unit core_result" where
  "storage_id i = ensure (is_ok (check_id i)) invalid_proposal"

definition storage_hash :: "ustr \<Rightarrow> unit core_result" where
  "storage_hash h = ensure (valid_hash h) invalid_proposal"

text \<open>The document, the payload hash and the result of the receipt of an applied decision.\<close>

definition apply_receipt :: "env \<Rightarrow> db \<Rightarrow> ustr \<Rightarrow> ustr \<Rightarrow> (ustr \<times> ustr \<times> stored_result) core_result" where
  "apply_receipt E D namespace op =
    and_then (storage_id namespace) (\<lambda>_.
    and_then (storage_id op) (\<lambda>_.
    and_then (ok_or invalid_proposal (find_receipt D (namespace, op))) (\<lambda>c.
    and_then (storage_id (c_document c)) (\<lambda>_.
    and_then (storage_hash (c_payload c)) (\<lambda>_.
    and_then (ensure (c_kind c = u ''apply'') invalid_proposal) (\<lambda>_.
    and_then (map_err (\<lambda>_. invalid_proposal) (parse_stored_result E (c_result c))) (\<lambda>result.
    and_then (ensure (\<not> (document_id (res_head result) \<noteq> c_document c
        \<or> \<not> is_ok (check_id (document_id (res_head result)))
        \<or> \<not> is_ok (parse_version (version (res_head result)))
        \<or> \<not> is_ok (parse_version (saved_generation result)))) invalid_proposal) (\<lambda>_.
    and_then (storage_hash (body_hash (res_head result))) (\<lambda>_.
    and_then (ensure (applied result \<noteq> None) invalid_proposal) (\<lambda>_.
    Inr (c_document c, c_payload c, result)))))))))))"

definition validate_apply_links ::
  "desk_services \<Rightarrow> desk \<Rightarrow> proposal \<Rightarrow> proposal_decision \<Rightarrow> ustr \<Rightarrow> ustr \<Rightarrow> stored_result \<Rightarrow> unit core_result" where
  "validate_apply_links S W p d namespace op result =
    (let E = desk_env S in
     case W of (D, T, R) \<Rightarrow>
      and_then (ok_or invalid_proposal (dn_prepared d)) (\<lambda>prepared_version.
      and_then (ok_or invalid_proposal (dn_before d)) (\<lambda>before_id.
      and_then (ok_or invalid_proposal (dn_after d)) (\<lambda>after_id.
      and_then (try_each storage_id [prepared_version, before_id, after_id]) (\<lambda>_.
      and_then (read_prepared E R prepared_version) (\<lambda>x.
      and_then (read_revision E D before_id) (\<lambda>before.
      and_then (read_revision E D after_id) (\<lambda>after.
      and_then (validate_prepared E p x) (\<lambda>_.
      and_then (ensure (\<not> (dn_kind d \<noteq> ApplyDecision \<or> pn_proposal x \<noteq> pp_id p
          \<or> rev_head before \<noteq> pp_source p \<or> rev_body before \<noteq> pp_source_body p
          \<or> document_id (rev_head after) \<noteq> document_id (rev_head before))) invalid_proposal) (\<lambda>_.
      and_then (parse_version (version (rev_head after))) (\<lambda>after_version.
      and_then (parse_version (version (rev_head before))) (\<lambda>before_version.
      and_then (ok_or invalid_proposal (checked_add_i64 before_version 1)) (\<lambda>next_version.
      and_then (ensure (\<not> (after_version \<noteq> next_version
          \<or> body_hash (rev_head after) \<noteq> pn_hash x \<or> rev_body after \<noteq> pn_body x
          \<or> parent_id after \<noteq> Some (rev_id before) \<or> res_head result \<noteq> rev_head after
          \<or> applied result \<noteq> Some \<lparr>decision_id = dn_id d, proposal_id = pp_id p, prepared_id = pn_id x,
               ap_before_revision_id = rev_id before, ap_after_revision_id = rev_id after\<rparr>)) invalid_proposal) (\<lambda>_.
      and_then (apply_receipt E D namespace op) (\<lambda>(doc, _, _).
      ensure (doc = document_id (rev_head after)) invalid_proposal)))))))))))))))"

text \<open>The run a proposal belongs to, by the joins the queries use.\<close>

definition run_of_proposal :: "disc_tables \<Rightarrow> review_tables \<Rightarrow> ustr \<Rightarrow> run_row option" where
  "run_of_proposal T R i = Option.bind (find_proposal R i) (\<lambda>p. find_run T (pl_run p))"

definition validate_proposal_receipt :: "desk_services \<Rightarrow> desk \<Rightarrow> review_row \<Rightarrow> unit core_result" where
  "validate_proposal_receipt S W c =
    (case W of (D, T, R) \<Rightarrow>
      and_then (storage_id (rw_namespace c)) (\<lambda>_.
      and_then (storage_id (rw_operation c)) (\<lambda>_.
      and_then (storage_hash (rw_payload c)) (\<lambda>_.
      and_then (storage_id (rw_result c)) (\<lambda>_.
      case rw_kind c of
        PrepareReceipt \<Rightarrow>
          and_then (read_prepared (desk_env S) R (rw_result c)) (\<lambda>x.
          and_then (ok_or sql_error (Option.bind (find_version R (rw_result c)) (\<lambda>v. run_of_proposal T R (pv_proposal v)))) (\<lambda>r.
          and_then (ensure (rn_namespace r = rw_namespace c) invalid_proposal) (\<lambda>_.
          ensure (pn_proposal x \<noteq> []) invalid_proposal)))
      | RejectReceipt \<Rightarrow>
          and_then (read_decision R (rw_result c)) (\<lambda>d.
          and_then (ensure (dn_kind d = RejectDecision) invalid_proposal) (\<lambda>_.
          and_then (ok_or sql_error (find_decision R (rw_result c))) (\<lambda>row.
          and_then (ensure (\<not> (pd_namespace row \<noteq> rw_namespace c \<or> pd_operation row \<noteq> rw_operation c)) invalid_proposal) (\<lambda>_.
          and_then (ok_or sql_error (run_of_proposal T R (dn_proposal d))) (\<lambda>r.
          ensure (rn_namespace r = rw_namespace c) invalid_proposal))))))))))"

definition inspection_access :: project_access where
  "inspection_access = \<lparr>project_id = u ''history-inspection'', session = u ''history-inspection'',
     writer_lease = u ''history-inspection'', operation_namespace = u ''history-inspection''\<rparr>"

definition validate_version :: "desk_services \<Rightarrow> review_tables \<Rightarrow> proposal \<Rightarrow> nat \<times> version_row \<Rightarrow> unit core_result" where
  "validate_version S R p e =
    (case e of (index, v) \<Rightarrow>
      and_then (read_prepared (desk_env S) R (pv_id v)) (\<lambda>x.
      and_then (ensure (pn_version x = show_int (int (index + 1))) invalid_proposal) (\<lambda>_.
      and_then (ensure (pn_proposal x = pp_id p) invalid_proposal) (\<lambda>_.
      and_then (validate_prepared (desk_env S) p x) (\<lambda>_. Inr ())))))"

definition validate_decision :: "desk_services \<Rightarrow> desk \<Rightarrow> proposal \<Rightarrow> proposal_decision \<Rightarrow> unit core_result" where
  "validate_decision S W p d =
    (case W of (D, T, R) \<Rightarrow>
      and_then (storage_id (dn_id d)) (\<lambda>_.
      and_then (ok_or sql_error (find_decision R (dn_id d))) (\<lambda>row.
      and_then (storage_id (pd_namespace row)) (\<lambda>_.
      and_then (storage_id (pd_operation row)) (\<lambda>_.
      and_then (ok_or sql_error (find_run T (pp_run p))) (\<lambda>r.
      and_then (ensure (pd_namespace row = rn_namespace r) invalid_proposal) (\<lambda>_.
      case dn_kind d of
        ApplyDecision \<Rightarrow>
          and_then (apply_receipt (desk_env S) D (pd_namespace row) (pd_operation row)) (\<lambda>(_, _, result).
          validate_apply_links S W p d (pd_namespace row) (pd_operation row) result)
      | RejectDecision \<Rightarrow>
          and_then (ok_or sql_error (find (\<lambda>c. (rw_namespace c, rw_operation c) = (pd_namespace row, pd_operation row)
              \<and> rw_kind c = RejectReceipt) (review_rows R))) (\<lambda>c.
          ensure (rw_result c = dn_id d) invalid_proposal))))))))"

definition validate_stored_proposal :: "desk_services \<Rightarrow> desk \<Rightarrow> proposal_row \<Rightarrow> unit core_result" where
  "validate_stored_proposal S W row =
    and_then (read_proposal S W inspection_access (pl_id row)) (\<lambda>p.
    and_then (try_each (validate_version S (snd (snd W)) p) (List.enumerate 0 (versions_of (snd (snd W)) (pl_id row)))) (\<lambda>_.
    case pp_decision p of None \<Rightarrow> Inr () | Some d \<Rightarrow> validate_decision S W p d))"

text \<open>Every receipt of an applied suggestion leads back to its decision.\<close>

definition validate_apply_receipt :: "desk_services \<Rightarrow> desk \<Rightarrow> ustr \<times> ustr \<Rightarrow> unit core_result" where
  "validate_apply_receipt S W k =
    (case W of (D, T, R) \<Rightarrow>
      and_then (apply_receipt (desk_env S) D (fst k) (snd k)) (\<lambda>(_, _, result).
      and_then (ok_or invalid_proposal (applied result)) (\<lambda>a.
      and_then (ok_or invalid_proposal (find_decision R (decision_id a))) (\<lambda>d.
      and_then (ensure (\<not> (pd_kind d \<noteq> ApplyDecision \<or> pd_namespace d \<noteq> fst k
          \<or> pd_prepared d \<noteq> Some (prepared_id a) \<or> pd_before d \<noteq> Some (ap_before_revision_id a)
          \<or> pd_after d \<noteq> Some (ap_after_revision_id a))) invalid_proposal) (\<lambda>_.
      and_then (read_proposal S W inspection_access (pd_proposal d)) (\<lambda>p.
      and_then (read_decision R (decision_id a)) (\<lambda>x.
      and_then (validate_apply_links S W p x (fst k) (snd k) result) (\<lambda>_.
      ensure (pd_operation d = snd k) invalid_proposal))))))))"

definition validate_proposal_storage :: "desk_services \<Rightarrow> desk \<Rightarrow> unit core_result" where
  "validate_proposal_storage S W =
    (case W of (D, T, R) \<Rightarrow>
      and_then (try_each (validate_stored_proposal S W) (proposal_rows R)) (\<lambda>_.
      and_then (try_each (validate_proposal_receipt S W) (review_rows R)) (\<lambda>_.
      try_each (validate_apply_receipt S W)
        (map (\<lambda>c. (c_namespace c, c_operation c)) (filter (\<lambda>c. c_kind c = u ''apply'') (command_receipts D))))))"

end
