(* ===== verification/Typed_Proofs.thy ===== *)
theory Typed_Proofs
  imports Typed_Blocks
begin

text \<open>
  What an accepted structured replacement is: the blocks outside the selection are the source's,
  and the blocks put in its place show the candidate's text, character by character with its
  formatting, under identities that are new to the document.
\<close>

section \<open>Typed blocks as blocks of a document\<close>

fun as_mark :: "typed_mark \<Rightarrow> mark" where
  "as_mark TypedBold = Bold"
| "as_mark TypedItalic = Italic"
| "as_mark (TypedLink h) = Link h"

fun as_inline :: "typed_inline \<Rightarrow> inline" where
  "as_inline (TypedText t ms) = Run t (map as_mark ms)"
| "as_inline TypedHardBreak = Break"

fun as_block :: "ustr \<Rightarrow> typed_block \<Rightarrow> block" where
  "as_block i (TypedParagraph xs) = Paragraph i (map as_inline xs)"
| "as_block i (TypedHeading l xs) = Heading i (ucast l) (map as_inline xs)"
| "as_block i TypedSceneBreak = SceneBreak i"

lemma obj_of_swapped [literal_maps]:
  "obj_of [(u ''type'', v), (u ''attrs'', w)] = [(u ''attrs'', w), (u ''type'', v)]"
  "obj_of [(u ''attrs'', w), (u ''type'', v), (u ''content'', x)] = [(u ''attrs'', w), (u ''content'', x), (u ''type'', v)]"
  "obj_of [(u ''schemaVersion'', v), (u ''body'', w)] = [(u ''body'', w), (u ''schemaVersion'', v)]"
  "obj_of [(u ''type'', v), (u ''content'', w)] = [(u ''content'', w), (u ''type'', v)]"
  by (simp_all add: obj_of_def u_def)

lemma typed_mark_value_eq: "typed_mark_value m = mark_value (as_mark m)"
  by (cases m) (simp_all add: literal_maps)

lemma typed_inline_value_eq: "typed_inline_value x = inline_value (as_inline x)"
  by (cases x) (auto simp: literal_maps typed_mark_value_eq)

lemma typed_block_value_eq: "typed_block_value b i = block_value (as_block i b)"
  by (cases b) (auto simp: typed_block_value_def literal_maps typed_inline_value_eq content_entry_def)

lemma wrapped_snapshot_eq: "wrapped_snapshot (map block_value bs) = document_value bs"
  by (simp add: wrapped_snapshot_def document_value_def literal_maps)

lemma block_id_as_block [simp]: "block_id (as_block i b) = i"
  by (cases b) simp_all

section \<open>Characters with their formatting\<close>

fun inline_chars :: "inline \<Rightarrow> (scalar option \<times> mark set) list" where
  "inline_chars (Run t ms) = map (\<lambda>c. (Some c, set ms)) t"
| "inline_chars Break = [(None, {})]"

fun node_chars :: "inline_node \<Rightarrow> (scalar option \<times> json set) list" where
  "node_chars (Text t ms) = map (\<lambda>c. (Some c, set ms)) t"
| "node_chars HardBreak = [(None, {})]"

definition same_text :: "block \<Rightarrow> block \<Rightarrow> bool" where
  "same_text a b \<longleftrightarrow> block_id a = block_id b \<and> style_of a = style_of b \<and>
     concat (map inline_chars (block_inlines a)) = concat (map inline_chars (block_inlines b))"

lemma node_chars_node_of: "node_chars (node_of x) = map (map_prod id ((`) mark_value)) (inline_chars x)"
  by (cases x) auto

lemma node_chars_inj:
  assumes "concat (map (node_chars \<circ> node_of) xs) = concat (map (node_chars \<circ> node_of) ys)"
  shows "concat (map inline_chars xs) = concat (map inline_chars ys)"
proof -
  have "inj mark_value" by (rule injI) simp
  then have "inj ((`) mark_value :: mark set \<Rightarrow> json set)" by (simp add: inj_image_eq_iff inj_def)
  then have "inj (map_prod id ((`) mark_value) :: scalar option \<times> mark set \<Rightarrow> _)"
    using inj_on_id by (auto simp: inj_def)
  then have "inj (map (map_prod id ((`) mark_value)) :: (scalar option \<times> mark set) list \<Rightarrow> _)"
    by (rule inj_mapI)
  moreover have "concat (map (node_chars \<circ> node_of) zs)
      = map (map_prod id ((`) mark_value)) (concat (map inline_chars zs))" for zs
    by (induction zs) (auto simp: node_chars_node_of)
  ultimately show ?thesis using assms by (metis injD)
qed

lemma merge_node_chars:
  "concat (map node_chars (merge_node xs x)) = concat (map node_chars xs) @ node_chars x"
proof (cases rule: merge_node_cases [of xs x])
  case (join zs s t ms)
  then show ?thesis by simp
qed simp

lemma merge_chars: "concat (map node_chars (merge_adjacent_text xs)) = concat (map node_chars xs)"
  by (induction xs rule: rev_induct) (simp_all add: merge_snoc merge_node_chars)

lemma parse_mark_appends:
  assumes "parse_mark E p (seen, ps) (i, mark_value m) = Inr st"
  shows "snd st = ps @ [mark_value m]"
  using assms by (cases m) (auto simp: parse_mark_def Let_def and_then_eq_Inr literal_maps split: if_splits)

lemma parse_marks_loop_appends:
  "try_fold (parse_mark E p) st (List.enumerate n (map mark_value ms)) = Inr st' \<Longrightarrow>
   snd st' = snd st @ map mark_value ms"
proof (induction ms arbitrary: st n)
  case (Cons m ms)
  then obtain st1 where "parse_mark E p (fst st, snd st) (n, mark_value m) = Inr st1"
    "try_fold (parse_mark E p) st1 (List.enumerate (Suc n) (map mark_value ms)) = Inr st'"
    by (auto simp: and_then_eq_Inr)
  with Cons.IH [of st1 "Suc n"] show ?case by (simp add: parse_mark_appends)
qed simp

lemma parse_marks_set: "parse_marks E (map mark_value ms) p = Inr out \<Longrightarrow> set out = mark_value ` set ms"
  by (auto simp: parse_marks_def and_then_eq_Inr dest: parse_marks_loop_appends)

lemma parse_inline_chars:
  assumes "parse_inline E (inline_value x) p n = Inr (node, n')"
  shows "node_chars node = node_chars (node_of x)"
proof (cases x)
  case (Run t ms)
  with assms show ?thesis
    by (cases "ms = []") (auto simp: parse_inline_def and_then_eq_Inr split: if_splits dest: parse_marks_set)
next
  case Break
  with assms show ?thesis by (auto simp: parse_inline_def and_then_eq_Inr)
qed

lemma parse_inlines_chars:
  assumes "parse_inlines E p (map inline_value xs) n = Inr (nodes, n')"
  shows "concat (map node_chars nodes) = concat (map (node_chars \<circ> node_of) xs)"
proof -
  let ?step = "\<lambda>(canonical, units) (i, inline).
        and_then (parse_inline E inline (index_path p i) units) (\<lambda>(node, units').
        Inr (canonical @ [node], units'))"
  have "try_fold ?step (ns, n) (List.enumerate k (map inline_value xs)) = Inr (nodes, n') \<Longrightarrow>
      concat (map node_chars nodes) = concat (map node_chars ns) @ concat (map (node_chars \<circ> node_of) xs)" for ns k
  proof (induction xs arbitrary: ns n k)
    case (Cons x xs)
    then obtain node m where "parse_inline E (inline_value x) (index_path p k) n = Inr (node, m)"
      "try_fold ?step (ns @ [node], m) (List.enumerate (Suc k) (map inline_value xs)) = Inr (nodes, n')"
      by (auto simp: and_then_eq_Inr)
    with Cons.IH [of "ns @ [node]" m "Suc k"] show ?case by (simp add: parse_inline_chars)
  qed simp
  from this [of "[]" 0] assms show ?thesis by (simp add: parse_inlines_def)
qed

lemma parse_content_chars:
  assumes "parse_content E obj p n = Inr (map node_of ys, n')"
    and "map_of obj (u ''content'') = (if xs = [] then None else Some (JArr (map inline_value xs)))"
  shows "concat (map inline_chars ys) = concat (map inline_chars xs)"
proof -
  have "concat (map (node_chars \<circ> node_of) ys) = concat (map (node_chars \<circ> node_of) xs)"
  proof (cases "xs = []")
    case False
    with assms obtain raw where raw: "parse_inlines E (p @ u ''.content'') (map inline_value xs) n = Inr (raw, n')"
      and ys: "map node_of ys = merge_adjacent_text raw"
      by (auto simp: parse_content_def and_then_eq_Inr)
    have "concat (map (node_chars \<circ> node_of) ys) = concat (map node_chars (merge_adjacent_text raw))"
      by (simp flip: ys)
    with parse_inlines_chars [OF raw] show ?thesis by (simp add: merge_chars)
  qed (use assms in \<open>auto simp: parse_content_def\<close>)
  then show ?thesis by (rule node_chars_inj)
qed

text \<open>The object of a block, seen through the fields the parser reads.\<close>

lemma parse_paragraph_same_text:
  assumes "parse_block E (JObj obj) k (ids, n) = Inr (out, (ids', n'))" "out = block_value c"
    and "map_of obj (u ''type'') = Some (JStr (u ''paragraph''))"
    and "map_of obj (u ''attrs'') = Some (JObj [(u ''id'', JStr i)])"
    and "map_of obj (u ''content'') = (if xs = [] then None else Some (JArr (map inline_value xs)))"
  shows "same_text (Paragraph i xs) c"
proof -
  from assms(1,3,4) have "\<exists>nodes. parse_content E obj (index_path (u ''document.body.content'') k) n = Inr (nodes, n') \<and>
      canonicalize_value (JObj (obj_of
       ((u ''attrs'', JObj (obj_of [(u ''id'', JStr i)])) #
        (if nodes \<noteq> [] then [(u ''content'', JArr (map inline_to_value nodes))] else []) @
        [(u ''type'', JStr (u ''paragraph''))]))) = out"
    by (simp add: parse_block_def Let_def and_then_eq_Inr del: canonicalize_value.simps split del: if_split)
      (elim exE conjE, intro exI conjI, assumption, simp)
  then obtain nodes where c: "parse_content E obj (index_path (u ''document.body.content'') k) n = Inr (nodes, n')"
    and out: "canonicalize_value (JObj (obj_of
       ((u ''attrs'', JObj (obj_of [(u ''id'', JStr i)])) #
        (if nodes \<noteq> [] then [(u ''content'', JArr (map inline_to_value nodes))] else []) @
        [(u ''type'', JStr (u ''paragraph''))]))) = out"
    by blast
  from parse_content_ok [OF c] obtain ys where ys: "nodes = map node_of ys" by (auto simp: nodes_of_def)
  have "block_value c = block_value (Paragraph i ys)"
    using out unfolding ys assms(2) [symmetric]
    by (simp only: built_block [unfolded append_Cons append_Nil])
  then have "c = Paragraph i ys" by (simp only: block_value_inj)
  with parse_content_chars [OF c [unfolded ys] assms(5)] show ?thesis by (simp add: same_text_def)
qed

lemma parse_heading_same_text:
  assumes "parse_block E (JObj obj) k (ids, n) = Inr (out, (ids', n'))" "out = block_value c"
    and "map_of obj (u ''type'') = Some (JStr (u ''heading''))"
    and "map_of obj (u ''attrs'') = Some (JObj [(u ''id'', JStr i), (u ''level'', JNum (PosInt l))])"
    and "map_of obj (u ''content'') = (if xs = [] then None else Some (JArr (map inline_value xs)))"
  shows "same_text (Heading i l xs) c"
proof -
  from assms(1,3,4) have "\<exists>nodes. parse_content E obj (index_path (u ''document.body.content'') k) n = Inr (nodes, n') \<and>
      canonicalize_value (JObj (obj_of
       ((u ''attrs'', JObj (obj_of [(u ''id'', JStr i), (u ''level'', JNum (PosInt l))])) #
        (if nodes \<noteq> [] then [(u ''content'', JArr (map inline_to_value nodes))] else []) @
        [(u ''type'', JStr (u ''heading''))]))) = out"
    by (simp add: parse_block_def Let_def and_then_eq_Inr del: canonicalize_value.simps split del: if_split)
      (elim exE conjE, intro exI conjI, assumption, simp)
  then obtain nodes where c: "parse_content E obj (index_path (u ''document.body.content'') k) n = Inr (nodes, n')"
    and out: "canonicalize_value (JObj (obj_of
       ((u ''attrs'', JObj (obj_of [(u ''id'', JStr i), (u ''level'', JNum (PosInt l))])) #
        (if nodes \<noteq> [] then [(u ''content'', JArr (map inline_to_value nodes))] else []) @
        [(u ''type'', JStr (u ''heading''))]))) = out"
    by blast
  from parse_content_ok [OF c] obtain ys where ys: "nodes = map node_of ys" by (auto simp: nodes_of_def)
  have "block_value c = block_value (Heading i l ys)"
    using out unfolding ys assms(2) [symmetric]
    by (simp only: built_block [unfolded append_Cons append_Nil])
  then have "c = Heading i l ys" by (simp only: block_value_inj)
  with parse_content_chars [OF c [unfolded ys] assms(5)] show ?thesis by (simp add: same_text_def)
qed

lemma parse_break_same_text:
  assumes "parse_block E (JObj obj) k (ids, n) = Inr (out, (ids', n'))" "out = block_value c"
    and "map_of obj (u ''type'') = Some (JStr (u ''sceneBreak''))"
    and "map_of obj (u ''attrs'') = Some (JObj [(u ''id'', JStr i)])"
  shows "c = SceneBreak i"
proof -
  from assms(1,3,4) have "canonicalize_value (JObj (obj_of [(u ''attrs'', JObj (obj_of [(u ''id'', JStr i)])),
      (u ''type'', JStr (u ''sceneBreak''))])) = out"
    by (simp add: parse_block_def Let_def and_then_eq_Inr del: canonicalize_value.simps split del: if_split)
  then have "block_value c = block_value (SceneBreak i)" unfolding assms(2) [symmetric] by (simp only: built_block)
  then show ?thesis by (simp only: block_value_inj)
qed

lemma parse_block_same_text:
  assumes "parse_block E (block_value a) k (ids, n) = Inr (block_value c, (ids', n'))"
  shows "same_text a c"
proof (cases a)
  case (Paragraph i xs)
  show ?thesis unfolding Paragraph
    by (rule parse_paragraph_same_text [OF assms [unfolded Paragraph block_value.simps] refl])
      (simp_all add: content_entry_def)
next
  case (Heading i l xs)
  show ?thesis unfolding Heading
    by (rule parse_heading_same_text [OF assms [unfolded Heading block_value.simps] refl])
      (simp_all add: content_entry_def)
next
  case (SceneBreak i)
  have "c = SceneBreak i"
    by (rule parse_break_same_text [OF assms [unfolded SceneBreak block_value.simps] refl]) simp_all
  with SceneBreak show ?thesis by (simp add: same_text_def)
qed

lemma single_block_receipt:
  assumes "codec_ok E" "typed_snapshot_receipt E (wrapped_snapshot [typed_block_value b i]) = Inr r"
  obtains c where "r = receipt_of E [c]" "document_ok E [c]" "same_text (as_block i b) c"
proof -
  have rendered: "wrapped_snapshot [typed_block_value b i] = document_value [as_block i b]"
    using wrapped_snapshot_eq [of "[as_block i b]"] by (simp add: typed_block_value_eq)
  from assms(2) have v: "validate_snapshot_json E (json_text E (document_value [as_block i b])) = Inr r"
    by (simp add: typed_snapshot_receipt_def rendered)
  then have "blen (json_text E (document_value [as_block i b])) \<le> MAX_RAW_BYTES"
    by (auto simp: validate_snapshot_json_def split: if_splits)
  from validate_rendered [OF assms(1) this] v have
    "and_then (parse_blocks E [block_value (as_block i b)]) (\<lambda>(outs, (ids, units)).
       let snap = snapshot_value outs; t = json_text E snap in
       if 2 ^ 32 \<le> units \<or> 2 ^ 32 \<le> length [as_block i b] then Inl CountOverflow
       else Inr \<lparr>snapshot = snap, canonical_json = t, hash = sha256_hex E (bytes t),
                 utf16_units = units, block_count = length [as_block i b]\<rparr>) = Inr r"
    by (simp add: MAX_BLOCKS_def)
  then obtain outs ids n where
    p: "parse_blocks E [block_value (as_block i b)] = Inr (outs, (ids, n))" and r: "snapshot r = snapshot_value outs"
    by (auto simp: and_then_eq_Inr Let_def split: if_splits)
  from accepted_receipt [OF v] obtain cs where cs: "document_ok E cs" "r = receipt_of E cs" by blast
  from p obtain bs where bs: "outs = map block_value bs" "length bs = 1" by (auto elim: parse_blocks_ok)
  then obtain c where c: "bs = [c]" by (auto simp: length_Suc_conv)
  have "document_value cs = document_value [c]"
    using r cs bs c snapshot_value_blocks [of "[c]"] by simp
  then have "cs = [c]" by (simp only: document_value_inj)
  moreover from p bs c have "parse_block E (block_value (as_block i b)) 0 ([], 0) = Inr (block_value c, (ids, n))"
    by (auto simp: parse_blocks_def and_then_eq_Inr)
  ultimately show ?thesis using cs parse_block_same_text that by blast
qed

section \<open>An accepted structured replacement\<close>

lemma value_block_id_value [simp]: "value_block_id (block_value b) = Some (block_id b)"
  by (cases b) (simp_all add: value_block_id_def json_get_def)

lemma document_blocks_value [simp]: "document_blocks (document_value bs) = Inr (map block_value bs)"
  by (simp add: document_blocks_def document_value_def json_get_def)

lemma source_ids_value [simp]: "List.map_filter value_block_id (map block_value bs) = map block_id bs"
  by (induction bs) (simp_all add: map_filter_def)

lemma position_of_value:
  assumes "position_of i (map block_value bs) = Some k"
  shows "k < length bs \<and> block_id (bs ! k) = i"
proof -
  from assms obtain b where "find (\<lambda>(n, b). value_block_id b = Some i) (List.enumerate 0 (map block_value bs)) = Some (k, b)"
    by (auto simp: position_of_def)
  then have "value_block_id b = Some i" "(k, b) \<in> set (List.enumerate 0 (map block_value bs))"
    by (auto dest!: find_SomeD)
  then show ?thesis by (auto simp: in_set_enumerate_eq)
qed

text \<open>A snapshot given as a JSON string has no structured result, so both readings agree.\<close>

lemma typed_receipt_canonical:
  assumes "codec_ok E" "typed_snapshot_receipt E v = Inr r"
  shows "canonical_snapshot E v = Inr r"
proof (cases v)
  case (JStr t)
  have "json_parse E (json_text E v) = Some v"
    using assms(1) JStr by (intro codec_roundtrip_wf) (simp_all add: plain_json_def)
  with assms(2) JStr show ?thesis
    by (auto simp: typed_snapshot_receipt_def validate_snapshot_json_def and_then_eq_Inr split: if_splits)
qed (use assms in \<open>auto simp: canonical_snapshot_def typed_snapshot_receipt_def\<close>)

lemma inserted_step_ok:
  assumes "inserted_step E ids seen (b, block_value c) = Inr seen'"
  obtains r rest where "block_id c \<notin> set ids" "document_blocks (snapshot r) = Inr (block_value c # rest)"
    "typed_snapshot_receipt E (wrapped_snapshot [typed_block_value b (block_id c)]) = Inr r"
proof -
  from assms obtain r vs where "block_id c \<notin> set ids" "document_blocks (snapshot r) = Inr vs"
      "typed_snapshot_receipt E (wrapped_snapshot [typed_block_value b (block_id c)]) = Inr r"
      "(case vs of [] \<Rightarrow> None | x # _ \<Rightarrow> Some x) = Some (block_value c)"
    by (auto simp: inserted_step_def and_then_eq_Inr)
  then show ?thesis by (cases vs) (auto intro: that)
qed

lemma inserted_blocks_match:
  assumes "codec_ok E"
  shows "try_fold (inserted_step E ids) seen (zip blocks (map block_value mid)) = Inr out \<Longrightarrow>
    length mid = length blocks \<Longrightarrow>
    list_all2 (\<lambda>b c. same_text (as_block (block_id c) b) c \<and> block_id c \<notin> set ids) blocks mid"
proof (induction blocks arbitrary: mid seen)
  case (Cons b blocks)
  then obtain c mid' where mid: "mid = c # mid'" by (cases mid) auto
  with Cons.prems(1) obtain seen' where step: "inserted_step E ids seen (b, block_value c) = Inr seen'"
    and rest: "try_fold (inserted_step E ids) seen' (zip blocks (map block_value mid')) = Inr out"
    by (auto simp: and_then_eq_Inr)
  from step obtain r vs where r: "block_id c \<notin> set ids" "document_blocks (snapshot r) = Inr (block_value c # vs)"
    "typed_snapshot_receipt E (wrapped_snapshot [typed_block_value b (block_id c)]) = Inr r"
    by (rule inserted_step_ok)
  obtain d where d: "r = receipt_of E [d]" "same_text (as_block (block_id c) b) d"
    using single_block_receipt [OF assms r(3)] by blast
  with r(2) have "d = c" by (simp add: block_value_inj)
  with d r(1) Cons.IH [OF rest] Cons.prems(2) mid show ?case by simp
qed simp

lemma slice_middle: "slice (length a) (length (a @ m @ c) - length c) (a @ m @ c) = m"
  by (simp add: slice_def)

lemma scope_bounds_agree:
  assumes "selected_range (map block_value bs) g = Inr (first, final)" "scope_range E (layout bs) g = Inr r"
    and "distinct (map block_id bs)" "grant_kind g = Blocks \<or> grant_kind g = WholeDocument"
  shows "first = first_block r \<and> final = last_block r"
proof (cases "grant_kind g")
  case WholeDocument
  with assms(1,2) show ?thesis by (auto simp: selected_range_def scope_range_def split: if_splits)
next
  case Blocks
  with assms(1,2) obtain s e :: endpoint where "position_of (block_id_of s) (map block_value bs) = Some first"
      "position_of (block_id_of e) (map block_value bs) = Some final"
      "block_index (layout bs) (block_id_of s) = Inr (first_block r)"
      "block_index (layout bs) (block_id_of e) = Inr (last_block r)"
    by (auto simp: selected_range_def scope_range_def and_then_eq_Inr split: if_splits)
  then have "first < length bs" "block_id (bs ! first) = block_id (bs ! first_block r)" "first_block r < length bs"
      "final < length bs" "block_id (bs ! final) = block_id (bs ! last_block r)" "last_block r < length bs"
    by (auto dest!: position_of_value block_index_layout)
  with assms(3) show ?thesis by (auto simp: distinct_conv_nth)
qed (use assms(4) in auto)

text \<open>
  \<open>replaced g blocks bs bs'\<close>: the blocks of \<open>bs\<close> that the grant selects have been replaced by the
  candidate's, every other block is kept.
\<close>

definition replaced :: "scope_grant \<Rightarrow> typed_block list \<Rightarrow> block list \<Rightarrow> block list \<Rightarrow> bool" where
  "replaced g blocks bs bs' \<longleftrightarrow> (\<exists>pre chosen post mid.
     bs = pre @ chosen @ post \<and> bs' = pre @ mid @ post \<and> chosen \<noteq> [] \<and>
     (grant_kind g = WholeDocument \<longrightarrow> pre = [] \<and> post = [] \<and> mid \<noteq> []) \<and>
     (grant_kind g = Blocks \<longrightarrow> map_option block_id_of (grant_start g) = Some (block_id (hd chosen)) \<and>
        map_option block_id_of (grant_end g) = Some (block_id (last chosen))) \<and>
     list_all2 (\<lambda>b c. same_text (as_block (block_id c) b) c \<and> block_id c \<notin> block_id ` set bs) blocks mid)"

lemma structured_accepted:
  assumes "codec_ok E" "validate_structured_replacement E req blocks = Inr rec"
  obtains bs bs' where "document_ok E bs" "document_ok E bs'"
    "typed_snapshot_receipt E (source_snapshot req) = Inr (receipt_of E bs)"
    "typed_snapshot_receipt E (result_snapshot req) = Inr (receipt_of E bs')"
    "replaced (scope req) blocks bs bs'"
proof -
  from assms(2) obtain source result first final out where
    k: "grant_kind (scope req) = Blocks \<or> grant_kind (scope req) = WholeDocument" and
    source: "typed_snapshot_receipt E (source_snapshot req) = Inr source" and
    result: "typed_snapshot_receipt E (result_snapshot req) = Inr result"
    by (auto simp: validate_structured_replacement_def result_ok Let_def)
  obtain bs where bs: "document_ok E bs" "source = receipt_of E bs"
    using source unfolding typed_snapshot_receipt_def by (blast dest: accepted_receipt)
  obtain bs' where bs': "document_ok E bs'" "result = receipt_of E bs'"
    using result unfolding typed_snapshot_receipt_def by (blast dest: accepted_receipt)
  from assms(2) source result bs(2) bs'(2) obtain first final out where
    range: "selected_range (map block_value bs) (scope req) = Inr (first, final)" and
    enough: "first + (length bs - (final + 1)) \<le> length bs'" and
    count: "length (slice (min first (length bs')) (length bs' - (length bs - (final + 1))) bs') = length blocks" and
    loop: "try_fold (inserted_step E (map block_id bs)) []
        (zip blocks (map block_value (slice (min first (length bs')) (length bs' - (length bs - (final + 1))) bs'))) = Inr out" and
    outer: "validate_scope E req = Inr rec" and
    left: "\<not> (receipt_scope rec = WholeDocument \<and> slice (min first (length bs')) (length bs' - (length bs - (final + 1))) bs' = [])"
    by (auto simp: validate_structured_replacement_def result_ok Let_def map_slice [symmetric] not_less)
  from outer k have impl: "validate_scope_impl E req None = Inr rec"
    by (auto simp: validate_scope_def)
  from impl obtain cs cs' r repl where cs: "document_ok E cs" "document_ok E cs'" "range_in cs r"
    "canonical_snapshot E (source_snapshot req) = Inr (receipt_of E cs)"
    "canonical_snapshot E (result_snapshot req) = Inr (receipt_of E cs')"
    "scope_range E (layout cs) (scope req) = Inr r"
    "document_toks cs' = take (range_start r) (document_toks cs) @ repl @ drop (range_end r) (document_toks cs)"
    by (rule accepted_scope)
  have "receipt_of E cs = receipt_of E bs" "receipt_of E cs' = receipt_of E bs'"
    using cs(4,5) typed_receipt_canonical [OF assms(1)] source result bs(2) bs'(2) by auto
  then have "cs = bs" "cs' = bs'"
    by (metis document_value_inj snapshot_receipt_of)+
  with cs have r: "range_in bs r" "scope_range E (layout bs) (scope req) = Inr r"
    and toks: "document_toks bs' = take (range_start r) (document_toks bs) @ repl @ drop (range_end r) (document_toks bs)"
    by auto
  from scope_bounds_agree [OF range r(2) _ k] bs(1) have bounds: "first = first_block r" "final = last_block r"
    by (auto simp: document_ok_def)
  from outside_blocks [OF toks r(1) bs(1) bs'(1)] obtain mid where
    mid: "bs' = take first bs @ mid @ drop (Suc final) bs" unfolding bounds by blast
  have le: "first \<le> final" "final < length bs" using r(1) bounds by (auto simp: range_in_def)
  have "min first (length bs') = length (take first bs)"
    "length bs' - (length bs - (final + 1)) = length (take first bs @ mid @ drop (Suc final) bs) - length (drop (Suc final) bs)"
    using mid le by auto
  then have slice: "slice (min first (length bs')) (length bs' - (length bs - (final + 1))) bs' = mid"
    using slice_middle mid by metis
  show ?thesis
  proof (rule that [of bs bs'])
    let ?chosen = "slice first (Suc final) bs"
    have split: "bs = take first bs @ ?chosen @ drop (Suc final) bs"
      using le by (intro slice_eq_split) auto
    show "replaced (scope req) blocks bs bs'"
      unfolding replaced_def
    proof (intro exI conjI)
      show "bs = take first bs @ ?chosen @ drop (Suc final) bs" by (rule split)
      show "bs' = take first bs @ mid @ drop (Suc final) bs" by (rule mid)
      have ends: "?chosen \<noteq> []" "hd ?chosen = bs ! first" "last ?chosen = bs ! final"
        using le by (auto simp: slice_def hd_drop_conv_nth last_conv_nth)
      show "?chosen \<noteq> []" by (rule ends)
      show "grant_kind (scope req) = WholeDocument \<longrightarrow> take first bs = [] \<and> drop (Suc final) bs = [] \<and> mid \<noteq> []"
        using range left impl slice by (auto simp: selected_range_def validate_scope_impl_def and_then_eq_Inr split: if_splits)
      show "grant_kind (scope req) = Blocks \<longrightarrow>
          map_option block_id_of (grant_start (scope req)) = Some (block_id (hd ?chosen)) \<and>
          map_option block_id_of (grant_end (scope req)) = Some (block_id (last ?chosen))"
        using range ends(2,3)
        by (auto simp: selected_range_def and_then_eq_Inr dest!: position_of_value split: if_splits)
      show "list_all2 (\<lambda>b c. same_text (as_block (block_id c) b) c \<and> block_id c \<notin> block_id ` set bs) blocks mid"
        using inserted_blocks_match [OF assms(1) loop [unfolded slice]] count [unfolded slice] by simp
    qed
  qed (use bs bs' source result in auto)
qed

end
