(* ===== verification/Proposal_Proofs.thy ===== *)
theory Proposal_Proofs
  imports Proposal_Storage Typed_Proofs Save_Proofs Receipt_Proofs
begin

text \<open>
  The transactions over suggestions: one elimination rule each, what an accepted prepared body
  changes in its document (\<open>granted_change\<close>), and what a fresh apply leaves behind.
\<close>

section \<open>Transactions of the desk\<close>

lemma desk_tx_ok:
  "desk_tx t f (P, T, R) = (Inr x, H) \<longleftrightarrow>
     connected P \<and> tx t = Committed \<and> (\<exists>D' T' R'. f (store P, T, R) = Inr (x, D', T', R') \<and> H = (P\<lparr>store := D'\<rparr>, T', R'))"
proof -
  obtain y D' T' R' where i: "in_tx (tx t) (store P, T, R) f = (y, D', T', R')" by (metis prod_cases4)
  have "y = Inr x \<longleftrightarrow> tx t = Committed \<and> f (store P, T, R) = Inr (x, D', T', R')"
    using in_tx_ok [of "tx t" "(store P, T, R)" f x "(D', T', R')"] i
      in_tx_ok [of "tx t" "(store P, T, R)" f x] by auto
  moreover have "tx t = Committed \<Longrightarrow> f (store P, T, R) = Inr (x, D'', T'', R'') \<Longrightarrow> D'' = D' \<and> T'' = T' \<and> R'' = R'" for D'' T'' R''
    using in_tx_ok [of "tx t" "(store P, T, R)" f x "(D'', T'', R'')"] i by auto
  ultimately show ?thesis by (auto simp: desk_tx_def i)
qed

lemma desk_tx_cases:
  assumes "desk_tx t f (P, T, R) = (r, H)"
  obtains "H = (P, T, R)" | x D' T' R' where "f (store P, T, R) = Inr (x, D', T', R')" "H = (P\<lparr>store := D'\<rparr>, T', R')"
proof (cases "connected P")
  case True
  obtain y D' T' R' where i: "in_tx (tx t) (store P, T, R) f = (y, D', T', R')" by (metis prod_cases4)
  from i show ?thesis
    by (cases rule: in_tx_cases) (use assms True i that in \<open>auto simp: desk_tx_def\<close>)
qed (use assms that in \<open>auto simp: desk_tx_def\<close>)

lemma desk_tx_err:
  "f (store P, T, R) = Inl e \<Longrightarrow>
   desk_tx t f (P, T, R) = (if \<not> connected P \<or> tx t = BeginFailed then Inl sql_error else Inl e, P, T, R)"
  by (auto simp: desk_tx_def in_tx_err)

lemma after_desk_checks_ok: "after_desk_checks c f H = (Inr y, H') \<longleftrightarrow> (\<exists>x. c = Inr x \<and> f x = (Inr y, H'))"
  by (auto simp: after_desk_checks_def split: sum.splits)

lemma after_desk_checks_cases:
  assumes "after_desk_checks c f H = (r, H')"
  obtains "H' = H" | x where "c = Inr x" "f x = (r, H')"
  using assms by (auto simp: after_desk_checks_def split: sum.splits)

section \<open>Tables\<close>

lemma if_Inl_eq_Inr: "(if b then Inl e else Inr x) = Inr y \<longleftrightarrow> \<not> b \<and> y = x"
  by auto

lemma insert_version_ok:
  "insert_version v R = Inr R' \<longleftrightarrow>
     pv_id v \<notin> pv_id ` set (version_rows R) \<and> pv_proposal v \<in> pl_id ` set (proposal_rows R) \<and> 0 < pv_version v
     \<and> (pv_proposal v, pv_version v) \<notin> (\<lambda>x. (pv_proposal x, pv_version x)) ` set (version_rows R)
     \<and> R' = R\<lparr>version_rows := version_rows R @ [v]\<rparr>"
  by (auto simp: insert_version_def)

lemma insert_decision_ok:
  "insert_decision D d R = Inr R' \<longleftrightarrow>
     pd_id d \<notin> pd_id ` set (decision_rows R) \<and> pd_proposal d \<notin> pd_proposal ` set (decision_rows R)
     \<and> pd_proposal d \<in> pl_id ` set (proposal_rows R) \<and> decision_shape d
     \<and> set_option (pd_prepared d) \<subseteq> pv_id ` set (version_rows R)
     \<and> set_option (pd_before d) \<subseteq> r_id ` set (revisions D) \<and> set_option (pd_after d) \<subseteq> r_id ` set (revisions D)
     \<and> (pd_namespace d, pd_operation d) \<notin> (\<lambda>x. (pd_namespace x, pd_operation x)) ` set (decision_rows R)
     \<and> R' = R\<lparr>decision_rows := decision_rows R @ [d]\<rparr>"
  unfolding insert_decision_def if_Inl_eq_Inr de_Morgan_disj not_not by (simp only: conj_assoc eq_commute)

lemma insert_review_ok:
  "insert_review_receipt a op k payload i (D, R) = Inr (D', R') \<longleftrightarrow>
     (operation_namespace a, op) \<notin> (\<lambda>c. (rw_namespace c, rw_operation c)) ` set (review_rows R)
     \<and> (operation_namespace a, op) \<notin> (\<lambda>c. (c_namespace c, c_operation c)) ` set (command_receipts D)
     \<and> (operation_namespace a, op) \<notin> set (workshop_operations D)
     \<and> D' = D\<lparr>proposal_operations := proposal_operations D @ [(operation_namespace a, op)]\<rparr>
     \<and> R' = R\<lparr>review_rows := review_rows R @ [\<lparr>rw_namespace = operation_namespace a, rw_operation = op,
                   rw_kind = k, rw_payload = payload, rw_result = i\<rparr>]\<rparr>"
  by (auto simp: insert_review_receipt_def Let_def)

section \<open>Elimination rules\<close>

lemma require_owned_pending_ok [simp]:
  "require_owned_pending p = Inr x \<longleftrightarrow> \<not> pp_historical p \<and> pp_decision p = None"
  by (auto simp: require_owned_pending_def and_then_eq_Inr)

definition applied_result :: "apply_ids \<Rightarrow> apply_request \<Rightarrow> head \<Rightarrow> proposal \<Rightarrow> prepared \<Rightarrow> ustr \<Rightarrow> ustr \<Rightarrow> stored_result" where
  "applied_result F q h p x b a = \<lparr>res_head = h, saved_generation = ar_generation q,
     applied = Some \<lparr>decision_id = ai_decision F, proposal_id = pp_id p, prepared_id = pn_id x,
       ap_before_revision_id = b, ap_after_revision_id = a\<rparr>, restored = None\<rparr>"

definition applied_row :: "apply_ids \<Rightarrow> apply_request \<Rightarrow> proposal \<Rightarrow> prepared \<Rightarrow> ustr \<Rightarrow> ustr \<Rightarrow> decision_row" where
  "applied_row F q p x b a = \<lparr>pd_id = ai_decision F, pd_proposal = pp_id p, pd_kind = ApplyDecision,
     pd_prepared = Some (pn_id x), pd_before = Some b, pd_after = Some a,
     pd_namespace = operation_namespace (ar_access q), pd_operation = ar_operation q\<rparr>"

lemma apply_fresh_cases:
  assumes "apply_fresh S F q payload (D, T, R) = Inr (res, D', T', R')"
  obtains p x before validated v br D1 D2 D3 aft ar D4 where
    "read_proposal S (D, T, R) (ar_access q) (ar_proposal q) = Inr p" "\<not> pp_historical p" "pp_decision p = None"
    "pp_prepared p = Some x" "pn_id x = ar_prepared q" "pn_hash x = ar_hash q"
    "read_document (desk_env S) D (document_id (ar_expected q)) = Inr before" "doc_head before = ar_expected q"
    "pp_source p = ar_expected q" "pp_current p" "validate_prepared (desk_env S) p x = Inr validated"
    "hash validated = pn_hash x" "hash validated \<noteq> body_hash (doc_head before)"
    "parse_version (version (doc_head before)) = Inr v" "v < i64_max"
    "checkpoint_at (desk_env S) (ai_before F) D before (u ''beforeApply'') = Inr (br, D1)"
    "replace_body (document_id (doc_head before)) v (body_hash (doc_head before)) (v + 1)
       (canonical_json validated) (hash validated) D1 = Inr D2"
    "bump_epoch D2 = Inr D3" "read_document (desk_env S) D3 (document_id (doc_head before)) = Inr aft"
    "checkpoint_at (desk_env S) (ai_after F) D3 aft (u ''afterApply'') = Inr (ar, D4)"
    "insert_decision D4 (applied_row F q p x (rev_id br) (rev_id ar)) R = Inr R'"
    "res = applied_result F q (doc_head aft) p x (rev_id br) (rev_id ar)"
    "insert_receipt (desk_env S) D4 (operation_namespace (ar_access q)) (ar_operation q) (u ''apply'') payload res = Inr D'"
    "T' = T"
proof -
  note run = assms [unfolded apply_fresh_def Let_def prod.case]
  from run obtain p where p: "read_proposal S (D, T, R) (ar_access q) (ar_proposal q) = Inr p" by (elim and_then_okE)
  note run = run [unfolded p and_then_simps]
  from run obtain x before validated v where
    a: "\<not> pp_historical p" "pp_decision p = None" "pp_prepared p = Some x" "pn_id x = ar_prepared q" "pn_hash x = ar_hash q"
    "read_document (desk_env S) D (document_id (ar_expected q)) = Inr before" "doc_head before = ar_expected q"
    "pp_source p = ar_expected q" "pp_current p" "validate_prepared (desk_env S) p x = Inr validated"
    "hash validated = pn_hash x" "hash validated \<noteq> body_hash (doc_head before)"
    "parse_version (version (doc_head before)) = Inr v"
    by (elim and_then_okE) auto
  have q': "ensure (\<not> (pn_id x \<noteq> ar_prepared q \<or> pn_hash x \<noteq> ar_hash q)) e = Inr ()"
    "ensure (\<not> (pp_source p \<noteq> ar_expected q \<or> \<not> pp_current p)) e = Inr ()"
    "ensure (\<not> (hash validated \<noteq> pn_hash x \<or> hash validated = body_hash (doc_head before))) e = Inr ()" for e :: core_error
    using a by auto
  have o: "require_owned_pending p = Inr ()" using a by simp
  have h: "require_head (doc_head before) (ar_expected q) = Inr ()" using a by simp
  note run = run [unfolded o a(3) q' and_then_simps ok_or_simps a(6) h a(10) a(13)]
  from run obtain n br D1 where n: "checked_add_i64 v 1 = Some n"
    and c: "checkpoint_at (desk_env S) (ai_before F) D before (u ''beforeApply'') = Inr (br, D1)"
    by (elim and_then_okE) auto
  from n a(13) have nv: "n = v + 1" "v < i64_max" by (simp_all add: next_version_eq)
  note run = run [unfolded n c and_then_simps ok_or_simps prod.case]
  from run obtain D2 D3 aft where w:
    "replace_body (document_id (doc_head before)) v (body_hash (doc_head before)) n (canonical_json validated) (hash validated) D1 = Inr D2"
    "bump_epoch D2 = Inr D3" "read_document (desk_env S) D3 (document_id (doc_head before)) = Inr aft" by (elim and_then_okE)
  note run = run [unfolded w and_then_simps]
  from run obtain ar D4 where c': "checkpoint_at (desk_env S) (ai_after F) D3 aft (u ''afterApply'') = Inr (ar, D4)"
    by (elim and_then_okE) auto
  note run = run [unfolded c' and_then_simps prod.case]
  from run obtain R1 where d: "insert_decision D4 (applied_row F q p x (rev_id br) (rev_id ar)) R = Inr R1"
    by (elim and_then_okE) (simp add: applied_row_def)
  note run = run [folded applied_row_def applied_result_def, unfolded d and_then_simps]
  from run have "insert_receipt (desk_env S) D4 (operation_namespace (ar_access q)) (ar_operation q) (u ''apply'') payload res = Inr D' \<and>
      res = applied_result F q (doc_head aft) p x (rev_id br) (rev_id ar) \<and>
      T' = T \<and>
      R' = R1"
    by (elim and_then_okE) auto
  with p a nv w c c' d show ?thesis by (auto intro!: that [of p x before validated v br D1 D2 D3 aft ar D4])
qed

lemma apply_tx_cases:
  assumes "apply_tx S F q payload (D, T, R) = Inr (ack, D', T', R')"
  obtains (replay) res where
    "existing_receipt (desk_env S) D (operation_namespace (ar_access q)) (ar_operation q) (u ''apply'') payload = Inr (Some res)"
    "aa_already ack" "aa_result ack = res" "D' = D" "T' = T" "R' = R"
    "read_document (desk_env S) D (document_id (ar_expected q)) = Inr (aa_document ack)"
  | (fresh) res where
    "existing_receipt (desk_env S) D (operation_namespace (ar_access q)) (ar_operation q) (u ''apply'') payload = Inr None"
    "\<not> aa_already ack" "aa_result ack = res" "apply_fresh S F q payload (D, T, R) = Inr (res, D', T', R')"
    "read_document (desk_env S) D' (document_id (ar_expected q)) = Inr (aa_document ack)"
proof -
  from assms obtain prior where p: "existing_receipt (desk_env S) D (operation_namespace (ar_access q)) (ar_operation q) (u ''apply'') payload
      = Inr prior" by (auto simp: apply_tx_def Let_def and_then_eq_Inr)
  note rest = assms [unfolded apply_tx_def Let_def fst_conv p and_then_simps]
  show ?thesis
  proof (cases prior)
    case None
    with rest show ?thesis
      by (elim and_then_okE) (auto simp: and_then_eq_Inr split: prod.splits intro: fresh [OF p [unfolded None]])
  next
    case (Some res)
    with rest show ?thesis by (auto simp: and_then_eq_Inr intro: replay [OF p [unfolded Some]])
  qed
qed

lemma prepare_tx_cases:
  assumes "prepare_tx S new q expected h guard check txt payload (D, T, R) = Inr (x, D', T', R')"
  obtains (replay) i where "review_receipt (D, R) (pr_access q) (pr_operation q) PrepareReceipt h = Inr (Some i)"
    "read_prepared (desk_env S) R i = Inr x" "D' = D" "T' = T" "R' = R"
  | (fresh) p validated R1 where
    "review_receipt (D, R) (pr_access q) (pr_operation q) PrepareReceipt h = Inr None"
    "read_proposal S (D, T, R) (pr_access q) (pr_proposal q) = Inr p" "\<not> pp_historical p" "pp_decision p = None" "guard p"
    "(case pp_prepared p of None \<Rightarrow> Inr 0 | Some y \<Rightarrow> parse_version (pn_version y)) = Inr expected"
    "check p = Inr validated" "checked_add_i64 expected 1 = Some (expected + 1)"
    "insert_version \<lparr>pv_id = new, pv_proposal = pp_id p, pv_version = expected + 1, pv_text = txt,
        pv_body = canonical_json validated, pv_hash = hash validated, pv_payload = payload\<rparr> R = Inr R1"
    "insert_review_receipt (pr_access q) (pr_operation q) PrepareReceipt h new (D, R1) = Inr (D', R')"
    "read_prepared (desk_env S) R' new = Inr x" "T' = T"
proof -
  note run = assms [unfolded prepare_tx_def prod.case]
  from run obtain prior where r: "review_receipt (D, R) (pr_access q) (pr_operation q) PrepareReceipt h = Inr prior"
    by (elim and_then_okE)
  note run = run [unfolded r and_then_simps]
  show ?thesis
  proof (cases prior)
    case (Some i)
    with run show ?thesis by (intro replay [OF r [unfolded Some]]) (auto simp: and_then_eq_Inr)
  next
    case None
    note run = run [unfolded None option.case]
    from run obtain p validated n R1 where p:
      "read_proposal S (D, T, R) (pr_access q) (pr_proposal q) = Inr p" "require_owned_pending p = Inr ()" "guard p"
      "(case pp_prepared p of None \<Rightarrow> Inr 0 | Some y \<Rightarrow> parse_version (pn_version y)) = Inr expected"
      "check p = Inr validated" "checked_add_i64 expected 1 = Some n"
      "insert_version \<lparr>pv_id = new, pv_proposal = pp_id p, pv_version = n, pv_text = txt,
        pv_body = canonical_json validated, pv_hash = hash validated, pv_payload = payload\<rparr> R = Inr R1"
      by (elim and_then_okE) auto
    have n: "n = expected + 1" using p(6) by (auto simp: checked_add_i64_def split: if_splits)
    have e: "ensure (guard p) e = Inr ()" "ensure (expected = expected) e = Inr ()" for e :: core_error using p(3) by simp_all
    note run = run [unfolded p(1,2,4,5,6,7) e and_then_simps ok_or_simps]
    from run have "insert_review_receipt (pr_access q) (pr_operation q) PrepareReceipt h new (D, R1) = Inr (D', R') \<and>
      read_prepared (desk_env S) R' new = Inr x \<and>
      T' = T"
    by (elim and_then_okE) (auto simp: and_then_eq_Inr split: prod.splits)
    with p n show ?thesis by (auto intro!: fresh [OF r [unfolded None]])
  qed
qed

lemma reject_tx_cases:
  assumes "reject_tx S new q payload (D, T, R) = Inr (d, D', T', R')"
  obtains (replay) i where "review_receipt (D, R) (rj_access q) (rj_operation q) RejectReceipt payload = Inr (Some i)"
    "read_decision R i = Inr d" "D' = D" "T' = T" "R' = R"
  | (fresh) p R1 where
    "review_receipt (D, R) (rj_access q) (rj_operation q) RejectReceipt payload = Inr None"
    "read_proposal S (D, T, R) (rj_access q) (rj_proposal q) = Inr p" "\<not> pp_historical p" "pp_decision p = None"
    "insert_decision D \<lparr>pd_id = new, pd_proposal = pp_id p, pd_kind = RejectDecision,
        pd_prepared = None, pd_before = None, pd_after = None,
        pd_namespace = operation_namespace (rj_access q), pd_operation = rj_operation q\<rparr> R = Inr R1"
    "insert_review_receipt (rj_access q) (rj_operation q) RejectReceipt payload new (D, R1) = Inr (D', R')"
    "read_decision R' new = Inr d" "T' = T"
proof -
  note run = assms [unfolded reject_tx_def prod.case]
  from run obtain prior where r: "review_receipt (D, R) (rj_access q) (rj_operation q) RejectReceipt payload = Inr prior"
    by (elim and_then_okE)
  note run = run [unfolded r and_then_simps]
  show ?thesis
  proof (cases prior)
    case (Some i)
    with run show ?thesis by (intro replay [OF r [unfolded Some]]) (auto simp: and_then_eq_Inr)
  next
    case None
    note run = run [unfolded None option.case]
    from run obtain p R1 where p:
      "read_proposal S (D, T, R) (rj_access q) (rj_proposal q) = Inr p" "require_owned_pending p = Inr ()"
      "insert_decision D \<lparr>pd_id = new, pd_proposal = pp_id p, pd_kind = RejectDecision,
        pd_prepared = None, pd_before = None, pd_after = None,
        pd_namespace = operation_namespace (rj_access q), pd_operation = rj_operation q\<rparr> R = Inr R1"
      by (elim and_then_okE) auto
    note run = run [unfolded p and_then_simps]
    from run have "insert_review_receipt (rj_access q) (rj_operation q) RejectReceipt payload new (D, R1) = Inr (D', R') \<and>
      read_decision R' new = Inr d \<and>
      T' = T"
    by (elim and_then_okE) (auto simp: and_then_eq_Inr split: prod.splits)
    with p show ?thesis by (auto intro!: fresh [OF r [unfolded None]])
  qed
qed

section \<open>What an accepted body changes\<close>

lemma accepted_size: "validate_snapshot_json E t = Inr r \<Longrightarrow> blen t \<le> MAX_RAW_BYTES"
  by (auto simp: validate_snapshot_json_def split: if_splits)

lemma document_receipt:
  assumes "codec_ok E" "document_ok E bs" "validate_snapshot_json E (json_text E (document_value bs)) = Inr r"
  shows "r = receipt_of E bs"
  using rendered_accepted [OF assms(1,2) accepted_size [OF assms(3)]] assms(3) by simp

lemma document_canonical: "canonical_snapshot E (document_value bs) = validate_snapshot_json E (json_text E (document_value bs))"
  by (simp add: canonical_snapshot_def document_value_def)

lemma result_receipt_ok: "result_receipt E v = Inr r \<longleftrightarrow> typed_snapshot_receipt E v = Inr r"
  by (simp add: result_receipt_def typed_snapshot_receipt_def)

lemma receipt_of_inj: "receipt_of E as = receipt_of E bs \<longleftrightarrow> as = bs"
  by (metis document_value_inj receipt_of_simps(1))

definition granted_change :: "env \<Rightarrow> proposal \<Rightarrow> prepared \<Rightarrow> block list \<Rightarrow> block list \<Rightarrow> bool" where
  "granted_change E p x bs bs' \<longleftrightarrow>
    (case pp_kind p of
       PassageKind \<Rightarrow> text_replaced E (pp_scope p) (pn_text x) bs bs'
     | ContinuationKind \<Rightarrow> (\<exists>ps. pn_paragraphs x = Some ps \<and> appended ps bs bs')
     | StructuredKind \<Rightarrow> (\<exists>blocks. pn_blocks x = Some blocks \<and> replaced (pp_scope p) blocks bs bs'))"

lemma prepared_accepted:
  assumes E: "codec_ok E" and v: "validate_prepared E p x = Inr valid"
  obtains bs bs' where "document_ok E bs" "document_ok E bs'" "canonical_snapshot E (pp_source_body p) = Inr (receipt_of E bs)"
    "valid = receipt_of E bs'" "typed_snapshot_receipt E (pn_body x) = Inr valid" "granted_change E p x bs bs'"
proof -
  have t: "typed_snapshot_receipt E (pn_body x) = Inr valid"
    using v by (auto simp: validate_prepared_def validate_replacement_def validate_continuation_def
        validate_structured_def result_ok result_receipt_ok split: proposal_kind.splits)
  note c = typed_receipt_canonical [OF E t]
  have "\<exists>bs bs'. document_ok E bs \<and> document_ok E bs' \<and> canonical_snapshot E (pp_source_body p) = Inr (receipt_of E bs)
      \<and> canonical_snapshot E (pn_body x) = Inr (receipt_of E bs') \<and> granted_change E p x bs bs'"
  proof (cases "pp_kind p")
    case PassageKind
    then obtain rec where "validate_text_replacement E (change_of p (pn_body x)) (pn_text x) = Inr rec"
      using v by (auto simp: validate_prepared_def validate_replacement_def result_ok)
    then obtain bs bs' where "document_ok E bs" "document_ok E bs'"
      "canonical_snapshot E (pp_source_body p) = Inr (receipt_of E bs)"
      "canonical_snapshot E (pn_body x) = Inr (receipt_of E bs')" "text_replaced E (pp_scope p) (pn_text x) bs bs'"
      by (auto simp: change_of_def elim: accepted_text)
    with PassageKind show ?thesis by (intro exI [of _ bs] exI [of _ bs']) (simp add: granted_change_def)
  next
    case ContinuationKind
    then obtain ps rec where "pn_paragraphs x = Some ps" "validate_append E (change_of p (pn_body x)) ps = Inr rec"
      using v by (auto simp: validate_prepared_def validate_continuation_def result_ok)
    then obtain bs bs' where "document_ok E bs" "document_ok E bs'"
      "canonical_snapshot E (pp_source_body p) = Inr (receipt_of E bs)"
      "canonical_snapshot E (pn_body x) = Inr (receipt_of E bs')" "appended ps bs bs'"
      by (auto simp: change_of_def elim: accepted_append)
    with \<open>pn_paragraphs x = Some ps\<close> ContinuationKind show ?thesis
      by (intro exI [of _ bs] exI [of _ bs']) (simp add: granted_change_def)
  next
    case StructuredKind
    then obtain bl rec where "pn_blocks x = Some bl" "validate_structured_replacement E (change_of p (pn_body x)) bl = Inr rec"
      using v by (auto simp: validate_prepared_def validate_structured_def result_ok)
    then obtain bs bs' where "document_ok E bs" "document_ok E bs'"
      "typed_snapshot_receipt E (pp_source_body p) = Inr (receipt_of E bs)"
      "typed_snapshot_receipt E (pn_body x) = Inr (receipt_of E bs')" "replaced (pp_scope p) bl bs bs'"
      by (auto simp: change_of_def elim: structured_accepted [OF E])
    with \<open>pn_blocks x = Some bl\<close> StructuredKind typed_receipt_canonical [OF E] show ?thesis
      by (intro exI [of _ bs] exI [of _ bs']) (simp add: granted_change_def)
  qed
  then show ?thesis using c t that by auto
qed

section \<open>Reading a suggestion in two halves\<close>

text \<open>
  What reading takes from rows that never change: the suggestion as the inspection sees it before
  any version or decision, with its run and the frozen context.
\<close>

definition read_base :: "desk_services \<Rightarrow> desk \<Rightarrow> ustr \<Rightarrow> (proposal \<times> run_row \<times> frozen) core_result" where
  "read_base S W i =
    (case W of (D, T, R) \<Rightarrow>
      and_then (check_id i) (\<lambda>_.
      and_then (ok_or (core_err ''ProposalNotFound'')
        (Option.bind (find_proposal R i) (\<lambda>p. map_option (Pair p) (find_run T (pl_run p))))) (\<lambda>(p, r).
      and_then (packet_snapshot S (rn_packet r)) (\<lambda>snapshot_id.
      and_then (frozen_context S snapshot_id) (\<lambda>(fz, stored_namespace).
      and_then (packet_scope S (rn_packet r)) (\<lambda>granted.
      and_then (ok_or invalid_proposal granted) (\<lambda>g.
      and_then (ensure (writing_source (pl_kind p) fz g r stored_namespace) invalid_proposal) (\<lambda>_.
      and_then (read_revision (desk_env S) D (sr_revision (sn_target (fz_snapshot fz)))) (\<lambda>source.
      and_then (ensure (rn_status r = RunCompleted) invalid_proposal) (\<lambda>_.
      and_then (parse_stored_version (rn_version r)) (\<lambda>v.
      and_then (ensure (rev_head source = \<lparr>document_id = rn_document r, version = v, body_hash = rn_hash r\<rparr>)
        invalid_proposal) (\<lambda>_.
      and_then (read_candidate S p (rn_output r)) (\<lambda>candidate.
      Inr (\<lparr>pp_id = i, pp_run = pl_run p, pp_kind = pl_kind p, pp_candidate = candidate,
           pp_source = rev_head source, pp_source_body = rev_body source, pp_scope = g,
           pp_snapshot = snapshot_id, pp_packet = rn_packet r, pp_current = False,
           pp_historical = True, pp_prepared = None, pp_decision = None\<rparr>, r, fz))))))))))))))"

definition latest_prepared :: "env \<Rightarrow> review_tables \<Rightarrow> ustr \<Rightarrow> prepared option core_result" where
  "latest_prepared E R i =
    (case versions_of R i of [] \<Rightarrow> Inr None | vs \<Rightarrow> and_then (read_prepared E R (pv_id (last vs))) (\<lambda>q. Inr (Some q)))"

definition decided :: "review_tables \<Rightarrow> ustr \<Rightarrow> proposal_decision option core_result" where
  "decided R i =
    (case decision_of R i of None \<Rightarrow> Inr None | Some d \<Rightarrow> and_then (read_decision R (pd_id d)) (\<lambda>x. Inr (Some x)))"

definition historical_for :: "project_access \<Rightarrow> run_row \<Rightarrow> bool" where
  "historical_for a r \<longleftrightarrow> project_id a \<noteq> rn_project r \<or> operation_namespace a \<noteq> rn_namespace r"

lemma and_then_assoc: "and_then (and_then r f) g = and_then r (\<lambda>x. and_then (f x) g)"
  by (cases r) simp_all

lemma read_proposal_eq:
  "read_proposal S (D, T, R) a i =
    and_then (read_base S (D, T, R) i) (\<lambda>(p, r, fz).
    and_then (is_current S D T fz (pp_source p) (historical_for a r)) (\<lambda>current.
    and_then (latest_prepared (desk_env S) R i) (\<lambda>latest.
    and_then (decided R i) (\<lambda>decision.
    Inr (p\<lparr>pp_current := current, pp_historical := historical_for a r, pp_prepared := latest, pp_decision := decision\<rparr>)))))"
  by (simp add: read_proposal_def read_base_def and_then_assoc case_prod_unfold Let_def historical_for_def
      latest_prepared_def decided_def cong: list.case_cong option.case_cong)

lemma read_base_ok:
  assumes "read_base S (D, T, R) i = Inr (p, r, fz)"
  obtains row source where "valid_id i" "find_proposal R i = Some row" "find_run T (pl_run row) = Some r"
    "rn_status r = RunCompleted" "pp_id p = i" "pp_run p = pl_run row" "pp_kind p = pl_kind row"
    "read_revision (desk_env S) D (sr_revision (sn_target (fz_snapshot fz))) = Inr source"
    "pp_source p = rev_head source" "pp_source_body p = rev_body source"
    "pp_prepared p = None" "pp_decision p = None"
  using assms unfolding read_base_def prod.case
  by (elim and_then_okE) (auto split: prod.splits bind_splits elim!: and_then_okE)

lemma read_proposal_cases:
  assumes "read_proposal S (D, T, R) a i = Inr p"
  obtains b r fz current latest decision where "read_base S (D, T, R) i = Inr (b, r, fz)"
    "is_current S D T fz (pp_source b) (historical_for a r) = Inr current"
    "latest_prepared (desk_env S) R i = Inr latest" "decided R i = Inr decision"
    "p = b\<lparr>pp_current := current, pp_historical := historical_for a r, pp_prepared := latest, pp_decision := decision\<rparr>"
  using assms unfolding read_proposal_eq
  by (elim and_then_okE) (auto split: prod.splits elim!: and_then_okE)

lemma current_source:
  assumes "is_current S D T fz h hist = Inr True"
  obtains d where "\<not> hist" "read_document (desk_env S) D (document_id h) = Inr d" "doc_head d = h"
  using assms by (auto simp: is_current_def and_then_eq_Inr split: option.splits if_splits)

lemma read_prepared_id: "read_prepared E R i = Inr x \<Longrightarrow> pn_id x = i"
  by (auto simp: read_prepared_def and_then_eq_Inr split: prod.splits)

lemma read_prepared_ok:
  assumes "read_prepared E R i = Inr x"
  obtains v row bs where "find_version R i = Some v" "find_proposal R (pv_proposal v) = Some row"
    "pn_id x = i" "pn_proposal x = pv_proposal v" "pn_version x = show_int (pv_version v)" "pn_hash x = pv_hash v"
    "document_ok E bs" "pn_body x = document_value bs" "pv_hash v = hash (receipt_of E bs)" "pv_body v = json_text E (document_value bs)"
    "validate_snapshot_json E (pv_body v) = Inr (receipt_of E bs)" "0 \<le> pv_version v"
proof -
  from assms obtain v row valid n where v: "find_version R i = Some v" "find_proposal R (pv_proposal v) = Some row"
    "validate_snapshot_json E (pv_body v) = Inr valid" "hash valid = pv_hash v" "canonical_json valid = pv_body v"
    "parse_stored_version (pv_version v) = Inr n"
    and x: "pn_id x = i" "pn_proposal x = pv_proposal v" "pn_version x = n" "pn_hash x = pv_hash v" "pn_body x = snapshot valid"
    by (auto simp: read_prepared_def result_ok split: prod.splits)
  from accepted_receipt [OF v(3)] obtain bs where bs: "document_ok E bs" "valid = receipt_of E bs" by blast
  from v(6) have "n = show_int (pv_version v)" "0 \<le> pv_version v" by (auto simp: parse_stored_version_def split: if_splits)
  with v x bs show ?thesis by (intro that [of v row bs]) simp_all
qed

lemma latest_prepared_ok:
  assumes "latest_prepared E R i = Inr (Some x)"
  obtains v where "v \<in> set (version_rows R)" "pv_proposal v = i" "read_prepared E R (pv_id v) = Inr x" "v = last (versions_of R i)"
    "versions_of R i \<noteq> []"
proof -
  from assms have r: "read_prepared E R (pv_id (last (versions_of R i))) = Inr x" and ne: "versions_of R i \<noteq> []"
    by (auto simp: latest_prepared_def and_then_eq_Inr split: list.splits)
  from last_in_set [OF ne] have "last (versions_of R i) \<in> set (version_rows R)" "pv_proposal (last (versions_of R i)) = i"
    by (auto simp: versions_of_def)
  with r ne show ?thesis by (intro that [of "last (versions_of R i)"]) simp_all
qed

section \<open>What a fresh apply leaves behind\<close>

lemma read_revision_row:
  assumes "codec_ok E" "find_revision D i = Some q" "is_ok (read_revision E D i)"
    and "document_ok E bs" "r_body q = json_text E (document_value bs)"
  shows "\<exists>r. read_revision E D i = Inr r \<and> rev_id r = i \<and> rev_body r = document_value bs \<and> parent_id r = r_parent q \<and>
    rev_head r = \<lparr>document_id = r_document q, version = show_int (r_version q), body_hash = r_hash q\<rparr>"
proof (rule read_checked [OF assms(2,3)])
  fix r
  assume r: "read_revision_checked E D (r_document q) i = Inr r" "rev_id r = i" "parent_id r = r_parent q"
    "rev_head r = \<lparr>document_id = r_document q, version = show_int (r_version q), body_hash = r_hash q\<rparr>"
    "json_text E (rev_body r) = r_body q" "\<exists>bs. document_ok E bs \<and> rev_body r = document_value bs"
  have "read_revision E D i = Inr r"
    using r(1) assms(2) by (auto simp: read_revision_checked_def and_then_eq_Inr split: if_splits)
  moreover have "rev_body r = document_value bs"
    using r(5,6) assms(4,5) by (intro document_text_inj [OF assms(1)]) auto
  ultimately show ?thesis using r by auto
qed

text \<open>The two revisions around an applied suggestion, as reading returns them.\<close>

definition linked_revisions ::
  "env \<Rightarrow> db \<Rightarrow> head \<Rightarrow> head \<Rightarrow> block list \<Rightarrow> block list \<Rightarrow> ustr \<Rightarrow> ustr \<Rightarrow> bool" where
  "linked_revisions E D h h' bs bs' b a \<longleftrightarrow> (\<exists>rb ra.
     read_revision E D b = Inr rb \<and> rev_id rb = b \<and> rev_head rb = h \<and> rev_body rb = document_value bs \<and>
     read_revision E D a = Inr ra \<and> rev_id ra = a \<and> rev_head ra = h' \<and> rev_body ra = document_value bs' \<and>
     parent_id ra = Some b)"

text \<open>
  Everything a fresh apply of the suggestion \<open>b\<close> in its prepared version \<open>x\<close> does: the document
  moves one version on from \<open>bs\<close> to \<open>bs'\<close>, both are kept as linked revisions, and one decision
  and one receipt are added.
\<close>

definition next_head :: "head \<Rightarrow> ustr \<Rightarrow> head \<Rightarrow> bool" where
  "next_head h g h' \<longleftrightarrow> (\<exists>n. parse_version (version h) = Inr n \<and> n < i64_max \<and>
     h' = h\<lparr>version := show_int (n + 1), body_hash := g\<rparr>)"

definition other_documents :: "ustr \<Rightarrow> db \<Rightarrow> document_row list" where
  "other_documents i D = filter (\<lambda>d. d_id d \<noteq> i) (documents D)"

definition suggestion_applied ::
  "env \<Rightarrow> apply_ids \<Rightarrow> apply_request \<Rightarrow> ustr \<Rightarrow> proposal \<Rightarrow> prepared \<Rightarrow> block list \<Rightarrow> block list \<Rightarrow> stored_result
   \<Rightarrow> desk \<Rightarrow> desk \<Rightarrow> bool" where
  "suggestion_applied E F q payload p x bs bs' res W W' \<longleftrightarrow>
    (case (W, W') of ((D, T, R), (D', T', R')) \<Rightarrow>
      document_ok E bs \<and> document_ok E bs' \<and> bs' \<noteq> bs \<and> granted_change E p x bs bs' \<and>
      pp_source p = ar_expected q \<and> pp_source_body p = document_value bs \<and>
      pn_id x = ar_prepared q \<and> pn_hash x = ar_hash q \<and> pn_body x = document_value bs' \<and>
      validate_prepared E p x = Inr (receipt_of E bs') \<and> pn_hash x = hash (receipt_of E bs') \<and>
      (\<exists>h' b a. next_head (ar_expected q) (pn_hash x) h' \<and> linked_revisions E D' (ar_expected q) h' bs bs' b a \<and>
         (\<exists>d \<in> set (documents D'). row_head d = h' \<and> d_body d = json_text E (document_value bs')) \<and>
         res = applied_result F q h' p x b a \<and>
         R' = R\<lparr>decision_rows := decision_rows R @ [applied_row F q p x b a]\<rparr>) \<and>
      T' = T \<and> other_documents (document_id (ar_expected q)) D' = other_documents (document_id (ar_expected q)) D \<and>
      command_receipts D' = command_receipts D @ [\<lparr>c_namespace = operation_namespace (ar_access q),
        c_operation = ar_operation q, c_document = document_id (ar_expected q), c_payload = payload,
        c_kind = u ''apply'', c_result = stored_result_text E res\<rparr>])"

lemma updated_others:
  assumes "\<And>d. w d \<Longrightarrow> d_id d = i" "\<And>d. d_id (f d) = d_id d"
  shows "other_documents i (fst (update_documents w f D)) = other_documents i D"
proof -
  have "filter (\<lambda>d. d_id d \<noteq> i) (map (\<lambda>d. if w d then f d else d) ds) = filter (\<lambda>d. d_id d \<noteq> i) ds" for ds
    using assms by (induction ds) auto
  then show ?thesis by (simp add: other_documents_def)
qed

lemma other_documents_cong: "documents D' = documents D \<Longrightarrow> other_documents i D' = other_documents i D"
  by (simp add: other_documents_def)

lemma checkpoint_others:
  "checkpoint_at E new D doc why = Inr (r, D') \<Longrightarrow>
   other_documents (document_id (doc_head doc)) D' = other_documents (document_id (doc_head doc)) D"
  by (erule checkpoint_cases) (auto simp: updated_others intro: other_documents_cong dest!: insert_revision_row_SomeD)

lemma checkpointed_document:
  assumes "checkpoint_at E new D doc why = Inr (r, D')" "db_ok E D" "read_document E D i = Inr doc"
    and "find_revision D' (rev_id r) = Some q"
  shows "\<exists>d \<in> set (documents D'). row_head d = doc_head doc \<and> d_body d = r_body q"
  using assms(3)
proof (rule read_document_ok)
  fix d assume d: "d \<in> set (documents D)" "reflects E d doc"
  from checkpoint_result [OF assms(1,2) d] assms(4)
  have "d\<lparr>d_checkpoint := Some (rev_id r)\<rparr> \<in> set (documents D')" "r_body q = d_body d" by (metis option.inject)+
  moreover have "row_head (d\<lparr>d_checkpoint := Some (rev_id r)\<rparr>) = doc_head doc" using d(2) by (simp add: reflects_def row_head_def)
  ultimately show ?thesis by (intro bexI) simp_all
qed

lemma replaced_others: "replace_body i v h n b g D = Inr D' \<Longrightarrow> other_documents i D' = other_documents i D"
  by (drule replace_body_Inr) (auto intro!: updated_others)

lemma same_key_body:
  assumes ok: "db_ok E D" and rb: "read_revision E D i = Inr rb" and ra: "read_revision E D j = Inr ra"
    and h: "rev_head rb = rev_head ra"
  shows "rev_body rb = rev_body ra"
proof -
  from rb obtain q v where q: "find_revision D i = Some q" "check_body E (r_body q) (r_hash q) = Inr v" "rev_body rb = snapshot v"
    "rev_head rb = \<lparr>document_id = r_document q, version = show_int (r_version q), body_hash = r_hash q\<rparr>"
    by (auto simp: read_revision_def and_then_eq_Inr)
  from ra obtain p w where p: "find_revision D j = Some p" "check_body E (r_body p) (r_hash p) = Inr w" "rev_body ra = snapshot w"
    "rev_head ra = \<lparr>document_id = r_document p, version = show_int (r_version p), body_hash = r_hash p\<rparr>"
    by (auto simp: read_revision_def and_then_eq_Inr)
  from q(1) p(1) have mem: "q \<in> set (revisions D)" "p \<in> set (revisions D)"
    using find_SomeD by (fastforce simp: find_revision_def)+
  then have "0 \<le> r_version q" "0 \<le> r_version p" using ok by (auto simp: db_ok_def revision_row_ok_def)
  with h q(4) p(4) have "rev_key q = rev_key p" by (simp add: rev_key_def show_int_inj)
  with revision_by_key [OF _ mem] ok have "q = p" by (simp add: db_ok_def)
  with q p show ?thesis by simp
qed

lemma read_revision_grow:
  assumes "tables_grow D D'" "read_revision E D i = Inr r"
  shows "read_revision E D' i = Inr r"
proof -
  from assms(2) obtain q where "find_revision D i = Some q" by (auto simp: read_revision_def and_then_eq_Inr)
  with find_revision_mono [OF assms(1) this] assms(2) show ?thesis by (simp add: read_revision_def)
qed

lemma applied_base [simp]:
  "validate_prepared E (b\<lparr>pp_current := c, pp_historical := h, pp_prepared := m, pp_decision := d\<rparr>) x = validate_prepared E b x"
  "granted_change E (b\<lparr>pp_current := c, pp_historical := h, pp_prepared := m, pp_decision := d\<rparr>) x bs bs' = granted_change E b x bs bs'"
  by (simp_all add: validate_prepared_def validate_replacement_def validate_continuation_def validate_structured_def
      change_of_def granted_change_def split: proposal_kind.split)

lemma apply_fresh_applied:
  assumes E: "codec_ok (desk_env S)" and ok: "db_ok (desk_env S) D"
    and run: "apply_fresh S F q payload (D, T, R) = Inr (res, D', T', R')"
  obtains p x bs bs' X b a where "read_proposal S (D, T, R) (ar_access q) (ar_proposal q) = Inr p" "\<not> pp_historical p"
    "pp_decision p = None" "pp_prepared p = Some x" "pp_current p"
    "suggestion_applied (desk_env S) F q payload p x bs bs' res (D, T, R) (D', T', R')"
    "safe_change (desk_env S) D D'" "insert_decision X (applied_row F q p x b a) R = Inr R'"
  using run
proof (rule apply_fresh_cases)
  fix p x before validated v br D1 D2 D3 aft ar D4
  let ?E = "desk_env S" and ?i = "document_id (ar_expected q)"
  assume rp: "read_proposal S (D, T, R) (ar_access q) (ar_proposal q) = Inr p" "\<not> pp_historical p" "pp_decision p = None"
    "pp_prepared p = Some x" and x: "pn_id x = ar_prepared q" "pn_hash x = ar_hash q"
    and rd: "read_document ?E D ?i = Inr before" and head: "doc_head before = ar_expected q"
    and src: "pp_source p = ar_expected q" "pp_current p" and vp: "validate_prepared ?E p x = Inr validated"
    and hv: "hash validated = pn_hash x" "hash validated \<noteq> body_hash (doc_head before)"
    and pv: "parse_version (version (doc_head before)) = Inr v" "v < i64_max"
    and c: "checkpoint_at ?E (ai_before F) D before (u ''beforeApply'') = Inr (br, D1)"
    and w: "replace_body (document_id (doc_head before)) v (body_hash (doc_head before)) (v + 1)
       (canonical_json validated) (hash validated) D1 = Inr D2"
    and e: "bump_epoch D2 = Inr D3" and rd3: "read_document ?E D3 (document_id (doc_head before)) = Inr aft"
    and c': "checkpoint_at ?E (ai_after F) D3 aft (u ''afterApply'') = Inr (ar, D4)"
    and dec: "insert_decision D4 (applied_row F q p x (rev_id br) (rev_id ar)) R = Inr R'"
    and res: "res = applied_result F q (doc_head aft) p x (rev_id br) (rev_id ar)"
    and ins: "insert_receipt ?E D4 (operation_namespace (ar_access q)) (ar_operation q) (u ''apply'') payload res = Inr D'"
    and T: "T' = T"
  from prepared_accepted [OF E vp] obtain bs bs' where bs: "document_ok ?E bs" "document_ok ?E bs'"
    "canonical_snapshot ?E (pp_source_body p) = Inr (receipt_of ?E bs)" "validated = receipt_of ?E bs'"
    "typed_snapshot_receipt ?E (pn_body x) = Inr validated" "granted_change ?E p x bs bs'" by blast
  from rp(1) obtain b r fz current latest decision where base: "read_base S (D, T, R) (ar_proposal q) = Inr (b, r, fz)"
    "latest_prepared ?E R (ar_proposal q) = Inr latest"
    "p = b\<lparr>pp_current := current, pp_historical := historical_for (ar_access q) r, pp_prepared := latest, pp_decision := decision\<rparr>"
    by (rule read_proposal_cases)
  from base(1) obtain source where source: "read_revision ?E D (sr_revision (sn_target (fz_snapshot fz))) = Inr source"
    "pp_source p = rev_head source" "pp_source_body p = rev_body source"
    by (rule read_base_ok) (simp add: base(3))
  from base rp(4) have lt: "latest_prepared ?E R (ar_proposal q) = Inr (Some x)" by simp
  then obtain cs where cs: "document_ok ?E cs" "pn_body x = document_value cs"
    by (rule latest_prepared_ok) (erule read_prepared_ok, blast)
  from bs(5) have "validated = receipt_of ?E cs"
    by (auto intro: document_receipt [OF E cs(1)] simp: typed_snapshot_receipt_def cs(2))
  then have body: "pn_body x = document_value bs'" using bs(4) cs(2) by (simp add: receipt_of_inj)
  have new: "text_ok ?E (canonical_json validated) (hash validated)" using bs(2,4) by (auto simp: text_ok_def)
  have safe: "safe_change ?E D D4"
  proof -
    have "safe_change ?E D D1" by (rule checkpoint_safe [OF c rd])
    moreover have "safe_change ?E D1 D3" using pv(2) new by (intro write_safe [OF w e])
    moreover have "safe_change ?E D3 D4" by (rule checkpoint_safe [OF c' rd3])
    ultimately show ?thesis by (meson safe_change_trans)
  qed
  then have ok4: "db_ok ?E D4" and g4: "tables_grow D D4" using ok by (simp_all add: safe_change_def grows_def)
  note D' = insert_receipt_Inr [OF ins, THEN conjunct2]
  have rr: "read_revision ?E D' j = read_revision ?E D4 j" for j
    by (simp add: D' read_revision_def find_revision_def)
  show thesis
  proof (rule checkpointed_write [OF ok rd new pv(1,2) c w e rd3 c'])
    fix d qr pr
    assume d: "d \<in> set (documents D)" "d_id d = ?i" "reflects ?E d before" "v = d_version d"
      and qr: "find_revision D4 (rev_id br) = Some qr" "r_document qr = ?i" "r_version qr = v" "r_body qr = d_body d"
        "r_hash qr = d_hash d" "is_ok (read_revision ?E D4 (rev_id br))"
      and pr: "find_revision D4 (rev_id ar) = Some pr" "r_document pr = ?i" "r_version pr = v + 1"
        "r_body pr = canonical_json validated" "r_hash pr = hash validated" "is_ok (read_revision ?E D4 (rev_id ar))"
        "r_parent pr = Some (rev_id br)"
      and aft: "doc_head aft = \<lparr>document_id = ?i, version = show_int (v + 1), body_hash = hash validated\<rparr>"
    have ok3: "db_ok ?E D3"
      using checkpoint_safe [OF c rd] write_safe [OF w e] pv(2) new ok by (simp add: safe_change_def)
    have cur: "\<exists>d \<in> set (documents D'). row_head d = doc_head aft \<and> d_body d = json_text ?E (document_value bs')"
      using checkpointed_document [OF c' ok3 rd3 pr(1)] pr(4) bs(4) by (simp add: D')
    from d(3) head have hd: "ar_expected q = \<lparr>document_id = d_id d, version = show_int (d_version d), body_hash = d_hash d\<rparr>"
      by (simp add: reflects_def)
    from read_revision_row [OF E pr(1,6) bs(2)] pr(4) bs(4) obtain ra where ra: "read_revision ?E D4 (rev_id ar) = Inr ra"
      "rev_id ra = rev_id ar" "rev_body ra = document_value bs'" "parent_id ra = Some (rev_id br)"
      "rev_head ra = \<lparr>document_id = ?i, version = show_int (v + 1), body_hash = hash validated\<rparr>"
      using pr by auto
    from d(3) obtain ds where ds: "document_ok ?E ds" "d_body d = json_text ?E (document_value ds)"
      by (auto simp: reflects_def text_ok_def)
    from read_revision_row [OF E qr(1,6) ds(1)] qr(4) ds(2) obtain rb where rb: "read_revision ?E D4 (rev_id br) = Inr rb"
      "rev_id rb = rev_id br" "rev_body rb = document_value ds"
      "rev_head rb = \<lparr>document_id = r_document qr, version = show_int (r_version qr), body_hash = r_hash qr\<rparr>" by auto
    have rh: "rev_head rb = ar_expected q" unfolding rb(4) qr(2,3,5) d(4) by (subst (2) hd) (simp only: d(2))
    have "rev_body source = document_value ds"
      using same_key_body [OF ok4 read_revision_grow [OF g4 source(1)] rb(1)] source(2) src(1) rb(3) rh by simp
    then have "receipt_of ?E bs = receipt_of ?E ds"
      using bs(3) source(3) by (intro document_receipt [OF E ds(1)]) (simp add: document_canonical)
    then have "ds = bs" by (simp add: receipt_of_inj)
    then have sb: "pp_source_body p = document_value bs" "rev_body rb = document_value bs"
      using \<open>rev_body source = document_value ds\<close> source(3) rb(3) by simp_all
    have ne: "bs' \<noteq> bs"
      using hv(2) ds(2) \<open>ds = bs\<close> bs(4) d(3) by (auto simp: reflects_def text_ok_def)
    have lk: "linked_revisions ?E D' (ar_expected q) (doc_head aft) bs bs' (rev_id br) (rev_id ar)"
      unfolding linked_revisions_def rr using ra rb(1,2) rh sb aft by (intro exI [of _ rb] exI [of _ ra]) simp
    have nh: "next_head (ar_expected q) (pn_hash x) (doc_head aft)"
      unfolding next_head_def using pv head hv(1) aft by (intro exI [of _ v]) simp
    have others: "other_documents ?i D' = other_documents ?i D"
      using checkpoint_others [OF c] replaced_others [OF w] checkpoint_others [OF c'] bump_epoch_Inr [OF e] head aft
      by (simp add: D' other_documents_def)
    have cr: "command_receipts D4 = command_receipts D"
      using checkpoint_receipts [OF c] write_receipts [OF w e] checkpoint_receipts [OF c'] by simp
    have R': "R' = R\<lparr>decision_rows := decision_rows R @ [applied_row F q p x (rev_id br) (rev_id ar)]\<rparr>"
      using dec by (simp add: insert_decision_ok)
    have "suggestion_applied ?E F q payload p x bs bs' res (D, T, R) (D', T', R')"
      unfolding suggestion_applied_def prod.case
      using bs x body ne src(1) sb(1) vp hv(1) others T aft res cr
      by (intro conjI exI [of _ "doc_head aft"] exI [of _ "rev_id br"] exI [of _ "rev_id ar"] nh lk cur R')
        (simp_all add: D' applied_result_def)
    moreover have "safe_change ?E D D'" by (rule safe_change_trans [OF safe insert_receipt_safe [OF ins]])
    ultimately show thesis using that rp src(2) dec by blast
  qed
qed

end
