(* ===== verification/Proposal_Life.thy ===== *)
theory Proposal_Life
  imports Proposal_Proofs Discussion_Life
begin

text \<open>
  The suggestions of a project over time: the invariant of the review tables (\<open>desk_ok\<close>), the
  order in which the tables of a desk grow (\<open>desk_le\<close>), and that growth keeps every stored
  suggestion, version, decision and receipt valid.
\<close>

section \<open>The invariant\<close>

definition review_keys_ok :: "review_tables \<Rightarrow> bool" where
  "review_keys_ok R \<longleftrightarrow> distinct (map pl_id (proposal_rows R)) \<and> distinct (map pv_id (version_rows R)) \<and>
     distinct (map pd_id (decision_rows R)) \<and> distinct (map pd_proposal (decision_rows R)) \<and>
     distinct (map (\<lambda>c. (rw_namespace c, rw_operation c)) (review_rows R))"

text \<open>Identifiers drawn by \<open>new_id\<close> or given by the caller are valid ones.\<close>

definition ids_valid :: "db \<Rightarrow> review_tables \<Rightarrow> bool" where
  "ids_valid D R \<longleftrightarrow> (\<forall>d \<in> set (documents D). valid_id (d_id d)) \<and> (\<forall>r \<in> set (revisions D). valid_id (r_id r)) \<and>
     (\<forall>p \<in> set (proposal_rows R). valid_id (pl_id p)) \<and> (\<forall>v \<in> set (version_rows R). valid_id (pv_id v)) \<and>
     (\<forall>d \<in> set (decision_rows R). valid_id (pd_id d))"

definition inspection_id :: ustr where
  "inspection_id = u ''history-inspection''"

definition proposal_row_ok :: "desk_services \<Rightarrow> desk \<Rightarrow> proposal_row \<Rightarrow> bool" where
  "proposal_row_ok S W p \<longleftrightarrow>
    (\<exists>b r fz. read_base S W (pl_id p) = Inr (b, r, fz) \<and> rn_project r \<noteq> inspection_id)"

definition version_row_ok :: "desk_services \<Rightarrow> desk \<Rightarrow> version_row \<Rightarrow> bool" where
  "version_row_ok S W v \<longleftrightarrow>
    (\<exists>b r fz x. read_base S W (pv_proposal v) = Inr (b, r, fz) \<and> read_prepared (desk_env S) (snd (snd W)) (pv_id v) = Inr x \<and>
       is_ok (validate_prepared (desk_env S) b x))"

definition decision_row_ok :: "desk_services \<Rightarrow> desk \<Rightarrow> decision_row \<Rightarrow> bool" where
  "decision_row_ok S W d \<longleftrightarrow>
    (\<exists>b r fz. read_base S W (pd_proposal d) = Inr (b, r, fz) \<and> validate_decision S W b (decision_value d) = Inr ())"

text \<open>A review receipt names a row of its own namespace: a version, or the decision it recorded.\<close>

definition review_row_ok :: "desk_services \<Rightarrow> desk \<Rightarrow> review_row \<Rightarrow> bool" where
  "review_row_ok S W c \<longleftrightarrow>
    (case W of (D, T, R) \<Rightarrow>
      valid_id (rw_namespace c) \<and> valid_id (rw_operation c) \<and> valid_hash (rw_payload c) \<and>
      (case rw_kind c of
         PrepareReceipt \<Rightarrow> (\<exists>v b r fz. find_version R (rw_result c) = Some v \<and>
             read_base S W (pv_proposal v) = Inr (b, r, fz) \<and> rn_namespace r = rw_namespace c)
       | RejectReceipt \<Rightarrow> (\<exists>d b r fz. find_decision R (rw_result c) = Some d \<and> pd_kind d = RejectDecision \<and>
             pd_namespace d = rw_namespace c \<and> pd_operation d = rw_operation c \<and>
             read_base S W (pd_proposal d) = Inr (b, r, fz) \<and> rn_namespace r = rw_namespace c)))"

definition apply_row_ok :: "review_tables \<Rightarrow> receipt_row \<Rightarrow> bool" where
  "apply_row_ok R c \<longleftrightarrow> (c_kind c = u ''apply'' \<longrightarrow>
    (\<exists>d \<in> set (decision_rows R). pd_kind d = ApplyDecision \<and> (pd_namespace d, pd_operation d) = receipt_key c))"

definition numbered :: "review_tables \<Rightarrow> ustr \<Rightarrow> bool" where
  "numbered R i \<longleftrightarrow> map pv_version (versions_of R i) = [1..int (length (versions_of R i))]"

definition desk_ok :: "desk_services \<Rightarrow> desk \<Rightarrow> bool" where
  "desk_ok S W \<longleftrightarrow>
    (case W of (D, T, R) \<Rightarrow>
      db_ok (desk_env S) D \<and> project_rows D \<noteq> None \<and> disc_keys_ok T \<and> review_keys_ok R \<and> ids_valid D R \<and>
      (\<forall>p \<in> set (proposal_rows R). proposal_row_ok S W p) \<and>
      (\<forall>v \<in> set (version_rows R). version_row_ok S W v) \<and> (\<forall>i. numbered R i) \<and>
      (\<forall>d \<in> set (decision_rows R). decision_row_ok S W d) \<and>
      (\<forall>c \<in> set (review_rows R). review_row_ok S W c) \<and>
      (\<forall>c \<in> set (command_receipts D). apply_row_ok R c))"

section \<open>Growth\<close>

definition desk_le :: "desk \<Rightarrow> desk \<Rightarrow> bool" where
  "desk_le W W' \<longleftrightarrow>
    (case (W, W') of ((D, T, R), (D', T', R')) \<Rightarrow>
      (\<exists>rs. revisions D' = revisions D @ rs) \<and> (\<exists>cs. command_receipts D' = command_receipts D @ cs) \<and>
      (\<forall>i r. find_run T i = Some r \<longrightarrow> rn_status r = RunCompleted \<longrightarrow> find_run T' i = Some r) \<and>
      (\<exists>ps. proposal_rows R' = proposal_rows R @ ps) \<and> (\<exists>vs. version_rows R' = version_rows R @ vs) \<and>
      (\<exists>ds. decision_rows R' = decision_rows R @ ds) \<and> (\<exists>rs. review_rows R' = review_rows R @ rs))"

lemma desk_le_refl [simp]: "desk_le W W"
  by (auto simp: desk_le_def split: prod.splits)

lemma find_prefix: "find P xs = Some x \<Longrightarrow> find P (xs @ ys) = Some x"
  by (simp add: find_append)

lemma grown_find:
  assumes "desk_le (D, T, R) (D', T', R')"
  shows "find_revision D i = Some q \<Longrightarrow> find_revision D' i = Some q"
    "find_receipt D k = Some c \<Longrightarrow> find_receipt D' k = Some c"
    "find_proposal R i = Some p \<Longrightarrow> find_proposal R' i = Some p"
    "find_version R i = Some v \<Longrightarrow> find_version R' i = Some v"
    "find_decision R i = Some d \<Longrightarrow> find_decision R' i = Some d"
    "find G (review_rows R) = Some e \<Longrightarrow> find G (review_rows R') = Some e"
    "find_run T i = Some r \<Longrightarrow> rn_status r = RunCompleted \<Longrightarrow> find_run T' i = Some r"
  using assms unfolding desk_le_def prod.case
  by (auto simp: find_revision_def find_receipt_def find_proposal_def find_version_def find_decision_def dest: find_prefix)

lemma grown_revision:
  "desk_le (D, T, R) (D', T', R') \<Longrightarrow> read_revision E D i = Inr q \<Longrightarrow> read_revision E D' i = Inr q"
  by (auto simp: read_revision_def and_then_eq_Inr dest: grown_find(1))

lemma grown_prepared:
  assumes le: "desk_le (D, T, R) (D', T', R')" and r: "read_prepared E R i = Inr x"
  shows "read_prepared E R' i = Inr x"
proof -
  from r obtain v p where "find_version R i = Some v" "find_proposal R (pv_proposal v) = Some p"
    by (auto elim: read_prepared_ok)
  with r grown_find(4) [OF le] grown_find(3) [OF le] show ?thesis by (simp add: read_prepared_def)
qed

lemma grown_base:
  assumes le: "desk_le (D, T, R) (D', T', R')" and r: "read_base S (D, T, R) i = Inr z"
  shows "read_base S (D', T', R') i = Inr z"
proof -
  obtain b r fz where z: "z = (b, r, fz)" by (metis prod_cases3)
  from r [unfolded z] obtain row source where f: "find_proposal R i = Some row" "find_run T (pl_run row) = Some r"
    "rn_status r = RunCompleted" and s: "read_revision (desk_env S) D (sr_revision (sn_target (fz_snapshot fz))) = Inr source"
    by (rule read_base_ok)
  have f': "find_proposal R' i = Some row" "find_run T' (pl_run row) = Some r"
    using f grown_find(3,7) [OF le] by simp_all
  have s': "read_revision (desk_env S) D' (sr_revision (sn_target (fz_snapshot fz))) = Inr source"
    by (rule grown_revision [OF le s])
  show ?thesis
    using r unfolding z read_base_def prod.case f f' bind.bind_lunit option.map
    by (elim and_then_okE) (auto simp: s s' and_then_eq_Inr split: prod.splits)
qed

lemma grown_apply_receipt:
  assumes le: "desk_le (D, T, R) (D', T', R')" and r: "apply_receipt E D ns op = Inr z"
  shows "apply_receipt E D' ns op = Inr z"
  using r unfolding apply_receipt_def by (elim and_then_okE) (auto simp: and_then_eq_Inr dest: grown_find(2) [OF le])

lemma grown_links:
  assumes le: "desk_le (D, T, R) (D', T', R')" and r: "validate_apply_links S (D, T, R) p d ns op res = Inr ()"
  shows "validate_apply_links S (D', T', R') p d ns op res = Inr ()"
  using r unfolding validate_apply_links_def Let_def prod.case
  by (elim and_then_okE) (auto simp: and_then_eq_Inr grown_prepared [OF le] grown_revision [OF le] grown_apply_receipt [OF le] split: prod.splits)

lemma grown_decision:
  assumes le: "desk_le (D, T, R) (D', T', R')" and b: "read_base S (D, T, R) i = Inr (b, r, fz)"
    and v: "validate_decision S (D, T, R) b x = Inr ()"
  shows "validate_decision S (D', T', R') b x = Inr ()"
proof -
  from b obtain row :: proposal_row where "find_run T (pl_run row) = Some r" "rn_status r = RunCompleted" "pp_run b = pl_run row"
    by (rule read_base_ok) blast
  then have r: "find_run T (pp_run b) = Some r" "find_run T' (pp_run b) = Some r" using grown_find(7) [OF le] by simp_all
  from v obtain d where d: "find_decision R (dn_id x) = Some d" by (auto simp: validate_decision_def and_then_eq_Inr)
  show ?thesis
    using v grown_find(5) [OF le d] grown_apply_receipt [OF le] grown_links [OF le] grown_find(6) [OF le]
    by (cases "dn_kind x") (auto simp: validate_decision_def and_then_eq_Inr d r split: prod.splits)
qed

lemma grown_rows:
  assumes le: "desk_le (D, T, R) (D', T', R')"
  shows "proposal_row_ok S (D, T, R) p \<Longrightarrow> proposal_row_ok S (D', T', R') p"
    "version_row_ok S (D, T, R) v \<Longrightarrow> version_row_ok S (D', T', R') v"
    "decision_row_ok S (D, T, R) d \<Longrightarrow> decision_row_ok S (D', T', R') d"
    "review_row_ok S (D, T, R) c \<Longrightarrow> review_row_ok S (D', T', R') c"
    "apply_row_ok R e \<Longrightarrow> apply_row_ok R' e"
proof -
  show "proposal_row_ok S (D, T, R) p \<Longrightarrow> proposal_row_ok S (D', T', R') p"
    by (auto simp: proposal_row_ok_def dest: grown_base [OF le])
  show "version_row_ok S (D, T, R) v \<Longrightarrow> version_row_ok S (D', T', R') v"
    by (fastforce simp: version_row_ok_def dest: grown_base [OF le] grown_prepared [OF le])
  show "decision_row_ok S (D, T, R) d \<Longrightarrow> decision_row_ok S (D', T', R') d"
    by (fastforce simp: decision_row_ok_def dest: grown_base [OF le] grown_decision [OF le])
  show "review_row_ok S (D, T, R) c \<Longrightarrow> review_row_ok S (D', T', R') c"
    by (cases "rw_kind c")
      (fastforce simp: review_row_ok_def dest: grown_base [OF le] grown_find(4) [OF le] grown_find(5) [OF le])+
  show "apply_row_ok R e \<Longrightarrow> apply_row_ok R' e"
    using le by (auto simp: apply_row_ok_def desk_le_def)
qed

text \<open>Growth keeps the invariant when the new rows have it.\<close>

lemma desk_ok_grow:
  assumes ok: "desk_ok S (D, T, R)" and le: "desk_le (D, T, R) (D', T', R')"
    and "db_ok (desk_env S) D'" "project_rows D' \<noteq> None" "disc_keys_ok T'" "review_keys_ok R'" "ids_valid D' R'"
    and "\<And>p. p \<in> set (proposal_rows R') \<Longrightarrow> p \<notin> set (proposal_rows R) \<Longrightarrow> proposal_row_ok S (D', T', R') p"
    and "\<And>v. v \<in> set (version_rows R') \<Longrightarrow> v \<notin> set (version_rows R) \<Longrightarrow> version_row_ok S (D', T', R') v"
    and "\<And>i. numbered R' i"
    and "\<And>d. d \<in> set (decision_rows R') \<Longrightarrow> d \<notin> set (decision_rows R) \<Longrightarrow> decision_row_ok S (D', T', R') d"
    and "\<And>c. c \<in> set (review_rows R') \<Longrightarrow> c \<notin> set (review_rows R) \<Longrightarrow> review_row_ok S (D', T', R') c"
    and "\<And>c. c \<in> set (command_receipts D') \<Longrightarrow> c \<notin> set (command_receipts D) \<Longrightarrow> apply_row_ok R' c"
  shows "desk_ok S (D', T', R')"
  using assms(3-) ok unfolding desk_ok_def prod.case
  by (auto simp del: find_None_iff intro: grown_rows [OF le])

section \<open>The invariant implies the storage check\<close>

lemma storage_checks [simp]:
  "storage_id i = Inr z \<longleftrightarrow> valid_id i" "storage_hash h = Inr z \<longleftrightarrow> valid_hash h"
  by (auto simp: storage_id_def storage_hash_def is_ok_iff)

lemma storage_checks_ok [simp]: "valid_id i \<Longrightarrow> storage_id i = Inr ()" "valid_hash h \<Longrightarrow> storage_hash h = Inr ()"
  by simp_all

lemma read_decision_in:
  assumes "review_keys_ok R" "d \<in> set (decision_rows R)"
  shows "find_decision R (pd_id d) = Some d" "read_decision R (pd_id d) = Inr (decision_value d)"
proof -
  show "find_decision R (pd_id d) = Some d"
    using assms unfolding find_decision_def review_keys_ok_def by (intro find_distinct_key) auto
  then show "read_decision R (pd_id d) = Inr (decision_value d)" by (simp add: read_decision_def)
qed

lemma find_version_in:
  assumes "review_keys_ok R" "v \<in> set (version_rows R)"
  shows "find_version R (pv_id v) = Some v"
  using assms unfolding find_version_def review_keys_ok_def by (intro find_distinct_key) auto

lemma inspected:
  assumes ok: "desk_ok S (D, T, R)" and b: "read_base S (D, T, R) i = Inr (b, r, fz)"
  obtains m where "latest_prepared (desk_env S) R i = Inr m"
    "read_proposal S (D, T, R) inspection_access i =
       Inr (b\<lparr>pp_current := False, pp_historical := True, pp_prepared := m,
         pp_decision := map_option decision_value (decision_of R i)\<rparr>)"
proof -
  from b obtain row where row: "find_proposal R i = Some row" by (rule read_base_ok)
  then have row': "row \<in> set (proposal_rows R)" "pl_id row = i" by (auto simp: find_proposal_def dest: find_SomeD)
  with ok b have "rn_project r \<noteq> inspection_id" by (fastforce simp: desk_ok_def proposal_row_ok_def)
  then have h: "historical_for inspection_access r" by (auto simp: historical_for_def inspection_access_def inspection_id_def)
  have cur: "is_current S D T fz (pp_source b) True = Inr False"
    using ok by (auto simp: is_current_def desk_ok_def)
  have "\<exists>m. latest_prepared (desk_env S) R i = Inr m"
  proof (cases "versions_of R i")
    case (Cons v vs)
    then have "last (versions_of R i) \<in> set (versions_of R i)" by simp
    then have "last (versions_of R i) \<in> set (version_rows R)" by (simp add: versions_of_def)
    with ok have "version_row_ok S (D, T, R) (last (versions_of R i))" by (simp add: desk_ok_def)
    with Cons show ?thesis by (auto simp: latest_prepared_def version_row_ok_def)
  qed (simp add: latest_prepared_def)
  then obtain m where m: "latest_prepared (desk_env S) R i = Inr m" ..
  have d: "decided R i = Inr (map_option decision_value (decision_of R i))"
  proof (cases "decision_of R i")
    case (Some d)
    then have "d \<in> set (decision_rows R)" by (auto simp: decision_of_def dest: find_SomeD)
    with ok read_decision_in(2) Some show ?thesis by (auto simp: decided_def desk_ok_def)
  qed (simp add: decided_def)
  show ?thesis by (rule that [OF m]) (simp add: read_proposal_eq b h cur m d)
qed

lemma inspected_links [simp]:
  "validate_apply_links S W (b\<lparr>pp_current := c, pp_historical := h, pp_prepared := m, pp_decision := e\<rparr>) d ns op res
    = validate_apply_links S W b d ns op res"
  by (simp add: validate_apply_links_def Let_def)

lemma inspected_decision [simp]:
  "validate_decision S W (b\<lparr>pp_current := c, pp_historical := h, pp_prepared := m, pp_decision := e\<rparr>) d
    = validate_decision S W b d"
  by (simp add: validate_decision_def cong: decision_kind.case_cong)

lemma links_ok:
  assumes "validate_apply_links S (D, T, R) p d ns op res = Inr ()"
  shows "dn_kind d = ApplyDecision \<and> (\<exists>x b a. dn_prepared d = Some x \<and> dn_before d = Some b \<and> dn_after d = Some a \<and>
    applied res = Some \<lparr>decision_id = dn_id d, proposal_id = pp_id p, prepared_id = x,
      ap_before_revision_id = b, ap_after_revision_id = a\<rparr>)"
proof -
  have id: "rev_id r = i" if "read_revision E D i = Inr r" for E D i r
    using that by (auto simp: read_revision_def and_then_eq_Inr)
  from assms show ?thesis
    unfolding validate_apply_links_def Let_def prod.case
    by (elim and_then_okE) (auto simp: read_prepared_id id split: prod.splits)
qed

lemma stored_proposal_valid:
  assumes ok: "desk_ok S (D, T, R)" and row: "row \<in> set (proposal_rows R)"
  shows "validate_stored_proposal S (D, T, R) row = Inr ()"
proof -
  let ?i = "pl_id row"
  from ok row obtain b r fz where b: "read_base S (D, T, R) ?i = Inr (b, r, fz)"
    by (auto simp: desk_ok_def proposal_row_ok_def)
  then have id: "pp_id b = ?i" by (rule read_base_ok)
  obtain m where rd: "read_proposal S (D, T, R) inspection_access ?i =
      Inr (b\<lparr>pp_current := False, pp_historical := True, pp_prepared := m,
        pp_decision := map_option decision_value (decision_of R ?i)\<rparr>)" (is "_ = Inr ?p")
    using inspected [OF ok b] by metis
  have vs: "validate_version S R ?p e = Inr ()" if "e \<in> set (List.enumerate 0 (versions_of R ?i))" for e
  proof -
    obtain k v where e: "e = (k, v)" by (cases e)
    with that have k: "k < length (versions_of R ?i)" "v = versions_of R ?i ! k" by (simp_all add: in_set_enumerate_eq)
    then have "v \<in> set (versions_of R ?i)" by simp
    then have v: "v \<in> set (version_rows R)" "pv_proposal v = ?i" by (simp_all add: versions_of_def)
    with ok b obtain x where x: "read_prepared (desk_env S) R (pv_id v) = Inr x" "is_ok (validate_prepared (desk_env S) b x)"
      by (fastforce simp: desk_ok_def version_row_ok_def)
    from x(1) obtain w where "find_version R (pv_id v) = Some w" "pn_proposal x = pv_proposal w" "pn_version x = show_int (pv_version w)"
      by (rule read_prepared_ok)
    moreover have "find_version R (pv_id v) = Some v" using ok v(1) by (intro find_version_in) (simp add: desk_ok_def)
    moreover have "pv_version v = int (k + 1)"
    proof -
      have "map pv_version (versions_of R ?i) ! k = [1..int (length (versions_of R ?i))] ! k"
        using ok unfolding desk_ok_def prod.case numbered_def by metis
      then show ?thesis using k by simp
    qed
    ultimately show ?thesis using x v(2) id by (auto simp: validate_version_def e is_ok_iff)
  qed
  have dec: "validate_decision S (D, T, R) ?p (decision_value d) = Inr ()" if "decision_of R ?i = Some d" for d
  proof -
    from that have d: "d \<in> set (decision_rows R)" "pd_proposal d = ?i" by (auto simp: decision_of_def dest: find_SomeD)
    with ok b show ?thesis by (fastforce simp: desk_ok_def decision_row_ok_def)
  qed
  have "try_each (validate_version S R ?p) (List.enumerate 0 (versions_of R ?i)) = Inr ()"
    using vs by (simp add: try_each_eq_Inr)
  with dec show ?thesis
    by (auto simp: validate_stored_proposal_def rd split: option.splits)
qed

lemma review_receipt_valid:
  assumes ok: "desk_ok S (D, T, R)" and c: "c \<in> set (review_rows R)"
  shows "validate_proposal_receipt S (D, T, R) c = Inr ()"
proof -
  from ok c have r: "review_row_ok S (D, T, R) c" by (simp add: desk_ok_def)
  then have ids: "valid_id (rw_namespace c)" "valid_id (rw_operation c)" "valid_hash (rw_payload c)"
    by (simp_all add: review_row_ok_def)
  have run: "run_of_proposal T R i = Some r" if "read_base S (D, T, R) i = Inr (b, r, fz)" for i b r fz
    using that by (rule read_base_ok) (simp add: run_of_proposal_def)
  show ?thesis
  proof (cases "rw_kind c")
    case PrepareReceipt
    with r obtain v b r fz where v: "find_version R (rw_result c) = Some v"
      and b: "read_base S (D, T, R) (pv_proposal v) = Inr (b, r, fz)" "rn_namespace r = rw_namespace c"
      by (auto simp: review_row_ok_def)
    from v have vin: "v \<in> set (version_rows R)" "pv_id v = rw_result c" by (auto simp: find_version_def dest: find_SomeD)
    with ok have "valid_id (rw_result c)" "version_row_ok S (D, T, R) v" by (auto simp: desk_ok_def ids_valid_def)
    moreover from this(2) vin(2) obtain x where x: "read_prepared (desk_env S) R (rw_result c) = Inr x"
      by (auto simp: version_row_ok_def)
    moreover from x v have "pn_proposal x = pv_proposal v" by (auto elim: read_prepared_ok)
    moreover from b(1) have "pv_proposal v \<noteq> []" by (auto elim!: read_base_ok simp: valid_id_def)
    ultimately show ?thesis
      using PrepareReceipt ids v b(2) run [OF b(1)] by (simp add: validate_proposal_receipt_def)
  next
    case RejectReceipt
    with r obtain d b r fz where d: "find_decision R (rw_result c) = Some d" "pd_kind d = RejectDecision"
      "pd_namespace d = rw_namespace c" "pd_operation d = rw_operation c"
      and b: "read_base S (D, T, R) (pd_proposal d) = Inr (b, r, fz)" "rn_namespace r = rw_namespace c"
      by (auto simp: review_row_ok_def)
    from d(1) have "d \<in> set (decision_rows R)" "pd_id d = rw_result c" by (auto simp: find_decision_def dest: find_SomeD)
    with ok have "valid_id (rw_result c)" by (auto simp: desk_ok_def ids_valid_def)
    then show ?thesis
      using RejectReceipt ids d b(2) run [OF b(1)]
      by (simp add: validate_proposal_receipt_def read_decision_def decision_value_def)
  qed
qed

lemma apply_receipt_valid:
  assumes ok: "desk_ok S (D, T, R)" and c: "c \<in> set (command_receipts D)" "c_kind c = u ''apply''"
  shows "validate_apply_receipt S (D, T, R) (c_namespace c, c_operation c) = Inr ()"
proof -
  from ok c obtain d where d: "d \<in> set (decision_rows R)" "pd_kind d = ApplyDecision"
    "pd_namespace d = c_namespace c" "pd_operation d = c_operation c"
    by (auto simp: desk_ok_def apply_row_ok_def receipt_key_def)
  with ok obtain b r fz where b: "read_base S (D, T, R) (pd_proposal d) = Inr (b, r, fz)"
    and v: "validate_decision S (D, T, R) b (decision_value d) = Inr ()"
    by (fastforce simp: desk_ok_def decision_row_ok_def)
  have keys: "review_keys_ok R" using ok by (simp add: desk_ok_def)
  note f = read_decision_in [OF keys d(1)]
  from v d f obtain doc h res where a: "apply_receipt (desk_env S) D (c_namespace c) (c_operation c) = Inr (doc, h, res)"
    and l: "validate_apply_links S (D, T, R) b (decision_value d) (c_namespace c) (c_operation c) res = Inr ()"
    by (auto simp: validate_decision_def and_then_eq_Inr decision_value_def)
  from links_ok [OF l] obtain x bi ai where k: "pd_prepared d = Some x" "pd_before d = Some bi" "pd_after d = Some ai"
    "applied res = Some \<lparr>decision_id = pd_id d, proposal_id = pp_id b, prepared_id = x,
      ap_before_revision_id = bi, ap_after_revision_id = ai\<rparr>" by (auto simp: decision_value_def)
  obtain m where rd: "read_proposal S (D, T, R) inspection_access (pd_proposal d) =
      Inr (b\<lparr>pp_current := False, pp_historical := True, pp_prepared := m,
        pp_decision := map_option decision_value (decision_of R (pd_proposal d))\<rparr>)"
    using inspected [OF ok b] by metis
  show ?thesis using d k f l by (simp add: validate_apply_receipt_def a rd)
qed

lemma storage_valid:
  assumes "desk_ok S W"
  shows "validate_proposal_storage S W = Inr ()"
proof -
  obtain D T R where W: "W = (D, T, R)" by (metis prod_cases3)
  have "try_each (validate_stored_proposal S W) (proposal_rows R) = Inr ()"
    "try_each (validate_proposal_receipt S W) (review_rows R) = Inr ()"
    "try_each (validate_apply_receipt S W)
        (map (\<lambda>c. (c_namespace c, c_operation c)) (filter (\<lambda>c. c_kind c = u ''apply'') (command_receipts D))) = Inr ()"
    using stored_proposal_valid review_receipt_valid apply_receipt_valid assms
    unfolding W by (auto simp: try_each_eq_Inr)
  then show ?thesis by (simp add: validate_proposal_storage_def W)
qed

end
