(* ===== verification/Proposal_Steps.thy ===== *)
theory Proposal_Steps
  imports Proposal_Life Actor_Proofs
begin

text \<open>
  The steps a desk takes, and that each of them keeps \<open>desk_ok\<close>: document commands, turns of a
  run, retaining the candidates of a completed run, preparing, applying and rejecting.
\<close>

section \<open>Changes of documents and runs\<close>

lemma change_no_apply:
  assumes "change E ns D D'" "c \<in> set (command_receipts D')" "c \<notin> set (command_receipts D)"
  shows "c_kind c \<noteq> u ''apply''"
  using assms(1)
proof cases
  case (body_saved req a b res)
  then show ?thesis
    using assms(2,3)
    by (auto elim!: save_tx_cases save_fresh_cases dest!: insert_receipt_Inr save_body_receipts simp: u_def)
next
  case (document_created s valid req rec)
  from document_created(6) show ?thesis
    using assms(2,3)
    by (cases rule: create_document_cases)
      (auto dest!: insert_receipt_Inr bump_epoch_Inr simp: insert_document_row_def u_def split: if_splits)
next
  case (revision_restored req payload a b ack)
  from revision_restored(3) show ?thesis
  proof (cases rule: restore_tx_cases)
    case (fresh res document)
    from fresh(2) obtain before source where "restore_write E a b req payload before source D = Inr (res, D')"
      by (rule restore_fresh_cases)
    then show ?thesis
    proof (rule restore_write_cases)
      fix v br D1 D2 D3 aft ar D4
      assume "checkpoint_at E a D before (u ''beforeRestore'') = Inr (br, D1)"
        "replace_body (document_id (doc_head before)) v (body_hash (doc_head before)) (v + 1)
           (json_text E (rev_body source)) (body_hash (rev_head source)) D1 = Inr D2" "bump_epoch D2 = Inr D3"
        "checkpoint_at E b D3 aft (u ''afterRestore'') = Inr (ar, D4)"
        and ins: "insert_receipt E D4 (operation_namespace (rr_access req)) (rr_operation req) (u ''restore'') payload res = Inr D'"
      then have "command_receipts D4 = command_receipts D"
        using checkpoint_receipts write_receipts by metis
      with insert_receipt_Inr [OF ins] assms(2,3) show ?thesis by (auto simp: u_def)
    qed
  qed (use assms(2,3) in simp)
next
  case (document_renamed i s n)
  then show ?thesis
    using assms(2,3) by (auto elim!: rename_document_cases dest!: bump_epoch_Inr)
next
  case (checkpointed i doc a why r)
  with checkpoint_receipts assms(2,3) show ?thesis by metis
qed (use assms(2,3) in \<open>auto elim!: rename_project_cases simp: upsert_view_state_def split: if_splits\<close>)

lemma document_step:
  assumes ok: "desk_ok S (D, T, R)" and c: "change (desk_env S) ns D D'" and ids: "ids_valid D' R"
  shows "desk_ok S (D', T, R)"
proof (rule desk_ok_grow [OF ok])
  from change_grows [OF c] have g: "tables_grow D D'" "epoch_grows D D'" by (simp_all add: grows_def)
  then show "desk_le (D, T, R) (D', T, R)" by (auto simp: desk_le_def tables_grow_def)
  show "project_rows D' \<noteq> None" using g(2) ok by (auto simp: epoch_grows_def desk_ok_def split: option.splits)
  show "db_ok (desk_env S) D'" using change_ok [OF c] ok by (simp add: desk_ok_def)
  show "apply_row_ok R x" if "x \<in> set (command_receipts D')" "x \<notin> set (command_receipts D)" for x
    using change_no_apply [OF c that] by (simp add: apply_row_ok_def)
qed (use ok ids in \<open>auto simp: desk_ok_def\<close>)

lemma run_step:
  assumes ok: "desk_ok S (D, T, R)" and l: "life V T T'"
  shows "desk_ok S (D, T', R)"
proof (rule desk_ok_grow [OF ok])
  have k: "disc_keys_ok T" using ok by (simp add: desk_ok_def)
  from life_keys [OF l k] show k': "disc_keys_ok T'" .
  have "find_run T' i = Some r" if r: "find_run T i = Some r" "rn_status r = RunCompleted" for i r
  proof -
    from r(1) have m: "r \<in> set (run_rows T)" "rn_id r = i" by (auto simp: find_run_def dest: find_SomeD)
    with life_row [OF l _ m(1)] k obtain r' where "r' \<in> set (run_rows T')" "row_follows (lookup_run T (rn_id r)) r r'" by (auto simp: disc_keys_ok_def)
    with r(2) have "r \<in> set (run_rows T')" by (auto simp: row_follows_def active_def)
    with find_distinct_key [of rn_id "run_rows T'" r] k' m(2) show ?thesis by (simp add: find_run_def disc_keys_ok_def)
  qed
  then show "desk_le (D, T, R) (D, T', R)" by (simp add: desk_le_def)
qed (use ok in \<open>auto simp: desk_ok_def\<close>)

section \<open>Retaining candidates\<close>


text \<open>
  What starting a run recorded: its packet leads to a frozen context whose target revision is the
  document version the run was asked about.
\<close>

definition source_recorded :: "desk_services \<Rightarrow> db \<Rightarrow> run_row \<Rightarrow> bool" where
  "source_recorded S D r \<longleftrightarrow> rn_project r \<noteq> inspection_id \<and> 0 \<le> rn_version r \<and>
    (\<exists>i fz ns source. packet_snapshot S (rn_packet r) = Inr i \<and> frozen_context S i = Inr (fz, ns) \<and>
       read_revision (desk_env S) D (sr_revision (sn_target (fz_snapshot fz))) = Inr source \<and>
       rev_head source = \<lparr>document_id = rn_document r, version = show_int (rn_version r), body_hash = rn_hash r\<rparr>)"

definition retained_row :: "(nat \<Rightarrow> ustr) \<Rightarrow> run_row \<Rightarrow> proposal_kind \<Rightarrow> nat \<times> proposal_content \<Rightarrow> proposal_row" where
  "retained_row fresh r k e = \<lparr>pl_id = fresh (fst e), pl_run = rn_id r, pl_ordinal = fst e, pl_candidate = snd e, pl_kind = k\<rparr>"

lemma insert_proposal_ok:
  "insert_proposal T p R = Inr R' \<longleftrightarrow>
     pl_id p \<notin> pl_id ` set (proposal_rows R) \<and> pl_run p \<in> rn_id ` set (run_rows T) \<and> pl_ordinal p \<le> 2
     \<and> (pl_run p, pl_ordinal p) \<notin> (\<lambda>x. (pl_run x, pl_ordinal x)) ` set (proposal_rows R)
     \<and> R' = R\<lparr>proposal_rows := proposal_rows R @ [p]\<rparr>"
  by (auto simp: insert_proposal_def)

lemma retained_rows:
  "try_fold (\<lambda>R' (n, c). insert_proposal T \<lparr>pl_id = fresh n, pl_run = rn_id r, pl_ordinal = n,
      pl_candidate = c, pl_kind = k\<rparr> R') R es = Inr R' \<Longrightarrow>
   distinct (map pl_id (proposal_rows R)) \<Longrightarrow>
   R' = R\<lparr>proposal_rows := proposal_rows R @ map (retained_row fresh r k) es\<rparr> \<and> distinct (map pl_id (proposal_rows R'))"
proof (induction es arbitrary: R)
  case (Cons e es)
  obtain n c where e: "e = (n, c)" by (cases e)
  with Cons.prems(1) obtain R1 where R1: "insert_proposal T (retained_row fresh r k e) R = Inr R1"
    and rest: "try_fold (\<lambda>R' (n, c). insert_proposal T \<lparr>pl_id = fresh n, pl_run = rn_id r, pl_ordinal = n,
      pl_candidate = c, pl_kind = k\<rparr> R') R1 es = Inr R'"
    by (auto simp: and_then_eq_Inr retained_row_def)
  from R1 have R1': "R1 = R\<lparr>proposal_rows := proposal_rows R @ [retained_row fresh r k e]\<rparr>"
    and "distinct (map pl_id (proposal_rows R1))"
    using Cons.prems(2) by (auto simp: insert_proposal_ok)
  with Cons.IH [OF rest] have "R' = R1\<lparr>proposal_rows := proposal_rows R1 @ map (retained_row fresh r k) es\<rparr>"
    "distinct (map pl_id (proposal_rows R'))" by blast+
  moreover from this(1) have "R' = R\<lparr>proposal_rows := proposal_rows R @ map (retained_row fresh r k) (e # es)\<rparr>"
    by (simp add: R1')
  ultimately show ?case by blast
qed simp

lemma retained_cases:
  assumes "retain_candidates_at S fresh T r txt R = Inr R'" "distinct (map pl_id (proposal_rows R))"
  obtains (none) "R' = R"
  | (some) i fz g k where "packet_snapshot S (rn_packet r) = Inr i" "frozen_context S i = Inr (fz, rn_namespace r)"
      "packet_scope S (rn_packet r) = Inr (Some g)" "retained_kind fz g = Some k" "grant_kind g = expected_scope k g"
      "sn_project (fz_snapshot fz) = rn_project r"
      "R' = R\<lparr>proposal_rows := proposal_rows R @ map (retained_row fresh r k) (List.enumerate 0 (retained_contents S k txt))\<rparr>"
      "distinct (map pl_id (proposal_rows R'))"
proof -
  note run = assms(1) [unfolded retain_candidates_at_def]
  from run obtain i where i: "packet_snapshot S (rn_packet r) = Inr i" by (elim and_then_okE)
  from run [unfolded i and_then_simps] obtain fz ns where f: "frozen_context S i = Inr (fz, ns)" by (elim and_then_okE) auto
  from run [unfolded i f and_then_simps prod.case] obtain granted where "packet_scope S (rn_packet r) = Inr granted"
    by (elim and_then_okE)
  note p = i f this
  note run = run [unfolded p and_then_simps prod.case]
  show ?thesis
  proof (cases "Option.bind granted (\<lambda>g. map_option (Pair g) (retained_kind fz g))")
    case None
    with run show ?thesis by (cases granted) (auto intro: none)
  next
    case (Some gk)
    then obtain g k where g: "granted = Some g" "retained_kind fz g = Some k" by (cases granted) auto
    note run = run [unfolded g option.case]
    from run have e: "grant_kind g = expected_scope k g" "ns = rn_namespace r" "sn_project (fz_snapshot fz) = rn_project r"
      by (auto simp: and_then_eq_Inr)
    from run have "try_fold (\<lambda>R' (n, c). insert_proposal T \<lparr>pl_id = fresh n, pl_run = rn_id r, pl_ordinal = n,
      pl_candidate = c, pl_kind = k\<rparr> R') R (List.enumerate 0 (retained_contents S k txt)) = Inr R'"
      by (auto simp: and_then_eq_Inr)
    note rr = retained_rows [OF this assms(2)]
    from p(1) p(2) [unfolded e(2)] p(3) [unfolded g(1)] g(2) e(1,3) conjunct1 [OF rr] conjunct2 [OF rr] show ?thesis
      by (rule some)
  qed
qed

lemma retained_kind_ok:
  "retained_kind fz g = Some k \<Longrightarrow> grant_kind g = expected_scope k g \<Longrightarrow>
   sn_project (fz_snapshot fz) = rn_project r \<Longrightarrow> writing_source k fz g r (rn_namespace r)"
  by (cases "fz_purpose fz"; cases "grant_kind g")
    (auto simp: retained_kind_def writing_source_def author_room_structured_revision_allowed_def split: if_splits)

lemma retained_candidate:
  assumes "(n, c) \<in> set (List.enumerate 0 (retained_contents S k txt))"
  shows "read_candidate S (retained_row fresh r k (n, c)) txt = Inr c"
proof -
  from assms have n: "n < length (retained_contents S k txt)" "c = retained_contents S k txt ! n" by (simp_all add: in_set_enumerate_eq)
  show ?thesis
  proof (cases k)
    case PassageKind
    from n(1) obtain cs where cs: "passage_output S txt = Some cs" "length cs \<le> 3" "\<forall>x \<in> set cs. is_ok (validate_candidate x)"
      "retained_contents S k txt = map PassageContent cs"
      by (auto simp: retained_contents_def PassageKind list_ex_iff split: option.splits if_splits)
    with n have "n < length cs" "c = PassageContent (cs ! n)" by simp_all
    with cs show ?thesis
      by (auto simp: read_candidate_def retained_row_def PassageKind is_ok_iff)
  next
    case StructuredKind
    from n(1) obtain out where out: "structured_from S txt = Some out" "so_schema out = STRUCTURED_PROPOSAL_RESPONSE_CONTRACT"
      "length (so_suggestions out) \<le> 3" "\<forall>x \<in> set (so_suggestions out). is_ok (validate_structured_candidate (desk_env S) x)"
      "retained_contents S k txt = map StructuredContent (so_suggestions out)"
      by (auto simp: retained_contents_def StructuredKind list_ex_iff split: option.splits if_splits)
    with n have "n < length (so_suggestions out)" "c = StructuredContent (so_suggestions out ! n)" by simp_all
    with out show ?thesis
      by (auto simp: read_candidate_def retained_row_def StructuredKind is_ok_iff)
  next
    case ContinuationKind
    from n(1) obtain out where out: "validate_continuation_output (continuation_from S) txt = Inr out"
      "is_ok (validate_continuation_candidate (co_suggestions out ! 0))"
      "retained_contents S k txt = [ContinuationContent (co_suggestions out ! 0)]"
      by (auto simp: retained_contents_def ContinuationKind Let_def split: sum.splits if_splits)
    from out(1) obtain x where "co_suggestions out = [x]" by (rule validate_continuation_output_ok)
    with n out show ?thesis
      by (auto simp: read_candidate_def retained_row_def ContinuationKind is_ok_iff)
  qed
qed

lemma retain_step:
  assumes ok: "desk_ok S (D, T, R)" and r: "r \<in> set (run_rows T)" "rn_status r = RunCompleted"
    and src: "source_recorded S D r" and run: "retain_candidates_at S fresh T r (rn_output r) R = Inr R'"
    and ids: "ids_valid D R'"
  shows "desk_ok S (D, T, R')"
proof -
  have keys: "review_keys_ok R" "disc_keys_ok T" using ok by (simp_all add: desk_ok_def)
  then have d: "distinct (map pl_id (proposal_rows R))" by (simp add: review_keys_ok_def)
  from run d show ?thesis
  proof (cases rule: retained_cases)
    case none
    with ok show ?thesis by simp
  next
    case (some i fz g k)
    have le: "desk_le (D, T, R) (D, T, R')" by (simp add: some(7) desk_le_def)
    have same: "version_rows R' = version_rows R" "decision_rows R' = decision_rows R" "review_rows R' = review_rows R"
      by (simp_all add: some(7))
    from src some(1,2) obtain source where s: "read_revision (desk_env S) D (sr_revision (sn_target (fz_snapshot fz))) = Inr source"
      "rev_head source = \<lparr>document_id = rn_document r, version = show_int (rn_version r), body_hash = rn_hash r\<rparr>"
      and p: "rn_project r \<noteq> inspection_id" "0 \<le> rn_version r"
      by (auto simp: source_recorded_def)
    have fr: "find_run T (rn_id r) = Some r"
      using find_distinct_key [of rn_id "run_rows T" r] r(1) keys(2) by (simp add: find_run_def disc_keys_ok_def)
    show ?thesis
    proof (rule desk_ok_grow [OF ok le])
      fix x assume x: "x \<in> set (proposal_rows R')" "x \<notin> set (proposal_rows R)"
      then obtain n c where nc: "(n, c) \<in> set (List.enumerate 0 (retained_contents S k (rn_output r)))"
        "x = retained_row fresh r k (n, c)" by (auto simp: some(7))
      have f: "find_proposal R' (pl_id x) = Some x"
        unfolding find_proposal_def by (rule find_distinct_key [OF some(8) x(1)])
      have v: "valid_id (pl_id x)" using ids x(1) by (simp add: ids_valid_def)
      have c: "read_candidate S x (rn_output r) = Inr c" unfolding nc(2) by (rule retained_candidate [OF nc(1)])
      have w: "writing_source k fz g r (rn_namespace r)" by (rule retained_kind_ok [OF some(4-6)])
      have xs: "pl_run x = rn_id r" "pl_kind x = k" by (simp_all add: nc(2) retained_row_def)
      show "proposal_row_ok S (D, T, R') x"
        using f fr v c w xs some(1-3) s r(2) p by (simp add: proposal_row_ok_def read_base_def parse_stored_version_def check_id_valid)
    next
      show "review_keys_ok R'" using keys(1) some(8) by (simp add: review_keys_ok_def same)
    next
      fix j show "numbered R' j" using ok by (simp add: desk_ok_def numbered_def versions_of_def same)
    qed (use ok ids same in \<open>auto simp: desk_ok_def\<close>)
  qed
qed

section \<open>Rejecting\<close>

lemma same_desk_db:
  assumes "db_ok E D"
  shows "db_ok E (D\<lparr>proposal_operations := k\<rparr>)"
  by (rule same_rows_ok [OF assms]) (use assms in \<open>simp_all add: db_ok_def keys_ok_def\<close>)

lemma owned_base:
  assumes "read_proposal S (D, T, R) a i = Inr p" "\<not> pp_historical p"
  obtains b r fz where "read_base S (D, T, R) i = Inr (b, r, fz)" "rn_namespace r = operation_namespace a"
    "latest_prepared (desk_env S) R i = Inr (pp_prepared p)" "pp_id b = i"
    "p = b\<lparr>pp_current := pp_current p, pp_historical := False, pp_prepared := pp_prepared p, pp_decision := pp_decision p\<rparr>"
  using assms(1)
proof (rule read_proposal_cases)
  fix b r fz current latest decision
  assume b: "read_base S (D, T, R) i = Inr (b, r, fz)" and l: "latest_prepared (desk_env S) R i = Inr latest"
    and p: "p = b\<lparr>pp_current := current, pp_historical := historical_for a r, pp_prepared := latest, pp_decision := decision\<rparr>"
  from b have "pp_id b = i" by (rule read_base_ok)
  with b l p assms(2) show thesis by (intro that [of b r fz]) (simp_all add: historical_for_def)
qed

lemma reject_step:
  assumes ok: "desk_ok S (D, T, R)" and run: "reject_tx S new q payload (D, T, R) = Inr (d, D', T', R')"
    and args: "valid_hash payload" "valid_id (rj_operation q)" "valid_id (operation_namespace (rj_access q))"
    and ids: "ids_valid D' R'"
  shows "desk_ok S (D', T', R')"
  using run
proof (cases rule: reject_tx_cases)
  case replay
  with ok show ?thesis by simp
next
  case (fresh p R1)
  let ?a = "rj_access q"
  let ?d = "\<lparr>pd_id = new, pd_proposal = pp_id p, pd_kind = RejectDecision, pd_prepared = None, pd_before = None,
      pd_after = None, pd_namespace = operation_namespace ?a, pd_operation = rj_operation q\<rparr>"
  let ?c = "\<lparr>rw_namespace = operation_namespace ?a, rw_operation = rj_operation q, rw_kind = RejectReceipt,
      rw_payload = payload, rw_result = new\<rparr>"
  from fresh(2,3) obtain b r fz where b: "read_base S (D, T, R) (rj_proposal q) = Inr (b, r, fz)"
    "rn_namespace r = operation_namespace ?a" "pp_id b = rj_proposal q"
    and p: "p = b\<lparr>pp_current := pp_current p, pp_historical := False, pp_prepared := pp_prepared p, pp_decision := pp_decision p\<rparr>"
    by (rule owned_base)
  have pid: "pp_id p = rj_proposal q" by (subst p) (simp add: b(3))
  from fresh(5) have dec: "new \<notin> pd_id ` set (decision_rows R)" "rj_proposal q \<notin> pd_proposal ` set (decision_rows R)"
    and R1: "R1 = R\<lparr>decision_rows := decision_rows R @ [?d]\<rparr>"
    by (simp_all add: insert_decision_ok pid)
  from fresh(6) have rev: "(operation_namespace ?a, rj_operation q) \<notin> (\<lambda>c. (rw_namespace c, rw_operation c)) ` set (review_rows R)"
    and D': "D' = D\<lparr>proposal_operations := proposal_operations D @ [(operation_namespace ?a, rj_operation q)]\<rparr>"
    and R': "R' = R\<lparr>decision_rows := decision_rows R @ [?d], review_rows := review_rows R @ [?c]\<rparr>"
    by (simp_all add: insert_review_ok R1)
  have le: "desk_le (D, T, R) (D', T, R')" by (simp add: desk_le_def D' R')
  from grown_base [OF le b(1)] have b': "read_base S (D', T, R') (rj_proposal q) = Inr (b, r, fz)" .
  have keys: "review_keys_ok R" using ok by (simp add: desk_ok_def)
  then have keys': "review_keys_ok R'" using dec rev by (auto simp: review_keys_ok_def R' pid)
  have fd: "find_decision R' new = Some ?d" using read_decision_in(1) [OF keys', of ?d] by (simp add: R')
  have "find (\<lambda>c. (rw_namespace c, rw_operation c) = (operation_namespace ?a, rj_operation q) \<and> rw_kind c = RejectReceipt) (review_rows R) = None"
    using rev by (auto simp: find_None_all image_iff)
  then have fc: "find (\<lambda>c. (rw_namespace c, rw_operation c) = (operation_namespace ?a, rj_operation q) \<and> rw_kind c = RejectReceipt) (review_rows R') = Some ?c"
    by (simp add: R' find_append)
  have vn: "valid_id new" using ids by (simp add: ids_valid_def R')
  have run: "find_run T (pp_run b) = Some r" using b(1) by (auto elim: read_base_ok)
  have new_d: "decision_row_ok S (D', T, R') ?d"
    using b' fd fc vn run b(2) args(2,3)
    by (simp add: decision_row_ok_def pid validate_decision_def decision_value_def)
  have new_c: "review_row_ok S (D', T, R') ?c"
    using b' fd b(2) args by (simp add: review_row_ok_def pid)
  have "desk_ok S (D', T, R')"
  proof (rule desk_ok_grow [OF ok le])
    show "db_ok (desk_env S) D'" using ok same_desk_db by (simp add: desk_ok_def D')
    show "decision_row_ok S (D', T, R') x" if "x \<in> set (decision_rows R')" "x \<notin> set (decision_rows R)" for x
      using that new_d by (auto simp: R')
    show "review_row_ok S (D', T, R') x" if "x \<in> set (review_rows R')" "x \<notin> set (review_rows R)" for x
      using that new_c by (auto simp: R')
    show "numbered R' j" for j using ok by (simp add: desk_ok_def numbered_def versions_of_def R')
  qed (use ok keys' ids in \<open>auto simp: desk_ok_def D' R'\<close>)
  then show ?thesis by (simp add: fresh(8))
qed

section \<open>Preparing\<close>

text \<open>A body is judged by its canonical form, so the stored one is accepted like the one it came from.\<close>

lemma same_result:
  assumes "canonical_snapshot E v = Inr r" "canonical_snapshot E w = Inr r"
  shows "validate_scope_impl E (change_of p v) t = validate_scope_impl E (change_of p w) t"
    "validate_append_impl E (change_of p v) ps = validate_append_impl E (change_of p w) ps"
  using assms by (simp_all add: validate_scope_impl_def validate_append_impl_def change_of_def Let_def cong: if_cong)

lemma same_checks:
  assumes E: "codec_ok E" and v: "typed_snapshot_receipt E v = Inr r" and w: "typed_snapshot_receipt E w = Inr r"
  shows "validate_replacement E p txt v = validate_replacement E p txt w"
    "validate_continuation E p ps v = validate_continuation E p ps w"
    "validate_structured E p bs v = validate_structured E p bs w"
proof -
  note s = same_result [OF typed_receipt_canonical [OF E v] typed_receipt_canonical [OF E w]]
  have "result_receipt E v = Inr r" "result_receipt E w = Inr r" using v w by (simp_all only: result_receipt_ok)
  then have rr: "result_receipt E v = result_receipt E w" by simp
  have f: "scope (change_of p v) = scope (change_of p w)" "source_snapshot (change_of p v) = source_snapshot (change_of p w)"
    "result_snapshot (change_of p v) = v" "result_snapshot (change_of p w) = w"
    by (simp_all add: change_of_def)
  show "validate_replacement E p txt v = validate_replacement E p txt w"
    by (simp add: validate_replacement_def rr validate_text_replacement_def s(1) [of p] f)
  show "validate_continuation E p ps v = validate_continuation E p ps w"
    by (simp add: validate_continuation_def rr validate_append_def s(2) [of p] f)
  have "validate_scope E (change_of p v) = validate_scope E (change_of p w)"
    by (simp add: validate_scope_def s(1) [of p] s(2) [of p] f)
  then show "validate_structured E p bs v = validate_structured E p bs w"
    by (simp add: validate_structured_def rr validate_structured_replacement_def v w f)
qed

lemma sort_key_snoc:
  fixes f :: "'a \<Rightarrow> int"
  assumes "\<forall>x \<in> set xs. f x \<le> f v"
  shows "sort_key f (xs @ [v]) = sort_key f xs @ [v]"
proof -
  have ins: "insort_key f x (ys @ [v]) = insort_key f x ys @ [v]" if "f x \<le> f v" for x ys
    using that by (induction ys) auto
  from assms show ?thesis by (induction xs) (simp_all add: ins)
qed

lemma versions_of_snoc:
  assumes "\<forall>w \<in> set (version_rows R). pv_proposal w = pv_proposal v \<longrightarrow> pv_version w \<le> pv_version v"
  shows "versions_of (R\<lparr>version_rows := version_rows R @ [v]\<rparr>) i
    = (if i = pv_proposal v then versions_of R i @ [v] else versions_of R i)"
  using assms by (simp add: versions_of_def sort_key_snoc)

lemma numbered_length:
  assumes "numbered R i" "v \<in> set (version_rows R)" "pv_proposal v = i"
  shows "pv_version v \<le> int (length (versions_of R i))"
proof -
  have "v \<in> set (versions_of R i)" using assms(2,3) by (simp add: versions_of_def)
  then have "pv_version v \<in> set (map pv_version (versions_of R i))" by simp
  with assms(1) show ?thesis by (simp only: numbered_def) simp
qed

lemma expected_version:
  assumes n: "numbered R i" and l: "latest_prepared E R i = Inr m" and keys: "review_keys_ok R"
    and e: "(case m of None \<Rightarrow> Inr 0 | Some y \<Rightarrow> parse_version (pn_version y)) = Inr expected"
  shows "expected = int (length (versions_of R i))"
proof (cases m)
  case None
  with l have "versions_of R i = []" by (auto simp: latest_prepared_def and_then_eq_Inr split: list.splits)
  with None e show ?thesis by simp
next
  case (Some y)
  from l [unfolded Some] obtain v where v: "v \<in> set (version_rows R)" "read_prepared E R (pv_id v) = Inr y"
    "v = last (versions_of R i)" "versions_of R i \<noteq> []" by (rule latest_prepared_ok)
  from v(2) obtain w where "find_version R (pv_id v) = Some w" "pn_version y = show_int (pv_version w)" "0 \<le> pv_version w"
    by (rule read_prepared_ok)
  with find_version_in [OF keys v(1)] have "pn_version y = show_int (pv_version v)" "0 \<le> pv_version v" by simp_all
  with e Some have "expected = pv_version v" by (auto dest: parse_shown)
  also have "\<dots> = last (map pv_version (versions_of R i))" using v(3,4) by (simp add: last_map)
  also have "\<dots> = last [1..int (length (versions_of R i))]" using n by (simp add: numbered_def)
  also have "\<dots> = int (length (versions_of R i))"
    using v(4) by (subst upto_rec2) (simp_all add: Suc_le_eq)
  finally show ?thesis .
qed

lemma read_prepared_payload:
  assumes "read_prepared E R i = Inr x" "find_version R i = Some v" "find_proposal R (pv_proposal v) = Some p"
  shows "pn_text x = pv_text v" "prepared_payload E (pl_kind p) v = Inr (pn_paragraphs x, pn_blocks x)"
    "typed_snapshot_receipt E (pn_body x) = validate_snapshot_json E (pv_body v)"
proof -
  from assms obtain valid where r: "validate_snapshot_json E (pv_body v) = Inr valid" "canonical_json valid = pv_body v"
    "prepared_payload E (pl_kind p) v = Inr (pn_paragraphs x, pn_blocks x)" "pn_text x = pv_text v" "pn_body x = snapshot valid"
    by (auto simp: read_prepared_def result_ok split: prod.splits)
  from accepted_receipt [OF r(1)] obtain bs where "valid = receipt_of E bs" by blast
  with r show "pn_text x = pv_text v" "prepared_payload E (pl_kind p) v = Inr (pn_paragraphs x, pn_blocks x)"
    "typed_snapshot_receipt E (pn_body x) = validate_snapshot_json E (pv_body v)"
    by (simp_all add: typed_snapshot_receipt_def)
qed

text \<open>What the checks of one kind must show about the version they store.\<close>

definition accepts_stored ::
  "env \<Rightarrow> (proposal \<Rightarrow> bool) \<Rightarrow> (proposal \<Rightarrow> snapshot_receipt core_result) \<Rightarrow> ustr \<Rightarrow> version_payload option \<Rightarrow> bool" where
  "accepts_stored E guard check txt payload \<longleftrightarrow>
    (\<forall>p valid v x. guard p \<longrightarrow> check p = Inr valid \<longrightarrow> pv_text v = txt \<longrightarrow> pv_payload v = payload \<longrightarrow> pn_text x = txt \<longrightarrow>
       prepared_payload E (pp_kind p) v = Inr (pn_paragraphs x, pn_blocks x) \<longrightarrow>
       typed_snapshot_receipt E (pn_body x) = Inr valid \<longrightarrow> is_ok (validate_prepared E p x))"

lemma prepare_step:
  assumes ok: "desk_ok S (D, T, R)"
    and run: "prepare_tx S new q expected h guard check txt payload (D, T, R) = Inr (y, D', T', R')"
    and E: "codec_ok (desk_env S)" and acc: "accepts_stored (desk_env S) guard check txt payload"
    and receipt: "\<And>p valid. check p = Inr valid \<Longrightarrow> \<exists>t. validate_snapshot_json (desk_env S) t = Inr valid"
    and args: "valid_hash h" "valid_id (pr_operation q)" "valid_id (operation_namespace (pr_access q))"
    and ids: "ids_valid D' R'"
  shows "desk_ok S (D', T', R')"
  using run
proof (cases rule: prepare_tx_cases)
  case replay
  with ok show ?thesis by simp
next
  case (fresh p valid R1)
  let ?a = "pr_access q" and ?i = "pr_proposal q" and ?E = "desk_env S"
  let ?v = "\<lparr>pv_id = new, pv_proposal = ?i, pv_version = expected + 1, pv_text = txt,
        pv_body = canonical_json valid, pv_hash = hash valid, pv_payload = payload\<rparr>"
  let ?c = "\<lparr>rw_namespace = operation_namespace ?a, rw_operation = pr_operation q, rw_kind = PrepareReceipt,
      rw_payload = h, rw_result = new\<rparr>"
  from fresh(2,3) obtain b r fz where b: "read_base S (D, T, R) ?i = Inr (b, r, fz)"
    "rn_namespace r = operation_namespace ?a" "latest_prepared ?E R ?i = Inr (pp_prepared p)" "pp_id b = ?i"
    and p: "p = b\<lparr>pp_current := pp_current p, pp_historical := False, pp_prepared := pp_prepared p, pp_decision := pp_decision p\<rparr>"
    by (rule owned_base)
  have pid: "pp_id p = ?i" by (subst p) (simp add: b(4))
  have keys: "review_keys_ok R" and num: "numbered R i" for i using ok by (simp_all add: desk_ok_def)
  from expected_version [OF num b(3) keys fresh(6)] have ex: "expected = int (length (versions_of R ?i))" .
  from fresh(9) have new: "new \<notin> pv_id ` set (version_rows R)" and R1: "R1 = R\<lparr>version_rows := version_rows R @ [?v]\<rparr>"
    by (simp_all add: insert_version_ok pid)
  from fresh(10) have rev: "(operation_namespace ?a, pr_operation q) \<notin> (\<lambda>c. (rw_namespace c, rw_operation c)) ` set (review_rows R)"
    and D': "D' = D\<lparr>proposal_operations := proposal_operations D @ [(operation_namespace ?a, pr_operation q)]\<rparr>"
    and R': "R' = R\<lparr>version_rows := version_rows R @ [?v], review_rows := review_rows R @ [?c]\<rparr>"
    by (simp_all add: insert_review_ok R1)
  have le: "desk_le (D, T, R) (D', T, R')" by (simp add: desk_le_def D' R')
  from grown_base [OF le b(1)] have b': "read_base S (D', T, R') ?i = Inr (b, r, fz)" .
  from b' obtain row :: proposal_row where row: "find_proposal R' ?i = Some row" "pp_kind b = pl_kind row"
    by (rule read_base_ok) blast
  have keys': "review_keys_ok R'" using keys new rev by (auto simp: review_keys_ok_def R')
  have fv: "find_version R' new = Some ?v" using find_version_in [OF keys', of ?v] by (simp add: R')
  note pay = read_prepared_payload [OF fresh(11) fv, of row]
  from receipt [OF fresh(7)] obtain t where t: "validate_snapshot_json ?E t = Inr valid" ..
  then obtain bs where bs: "document_ok ?E bs" "valid = receipt_of ?E bs" by (blast dest: accepted_receipt)
  from fresh(11) obtain bs' w where "find_version R' new = Some w" "validate_snapshot_json ?E (pv_body w) = Inr (receipt_of ?E bs')"
    by (rule read_prepared_ok)
  then have "validate_snapshot_json ?E (json_text ?E (document_value bs)) = Inr (receipt_of ?E bs')" by (auto simp: fv bs(2))
  from document_receipt [OF E bs(1) this] have body: "typed_snapshot_receipt ?E (pn_body y) = Inr valid"
    using pay(3) row(1) \<open>validate_snapshot_json ?E (json_text ?E (document_value bs)) = Inr (receipt_of ?E bs')\<close> by (simp add: bs(2))
  have kind: "pp_kind p = pl_kind row" by (subst p) (simp add: row(2))
  have "is_ok (validate_prepared ?E p y)"
    using acc [unfolded accepts_stored_def, rule_format, of p valid ?v y] fresh(5,7) pay(1,2) row(1) body by (simp add: kind)
  then have "is_ok (validate_prepared ?E b y)" by (subst (asm) p) simp
  then have new_v: "version_row_ok S (D', T, R') ?v"
    using b' fresh(11) by (simp add: version_row_ok_def)
  have new_c: "review_row_ok S (D', T, R') ?c"
    using b' fv b(2) args by (simp add: review_row_ok_def)
  have vs: "versions_of R' i = (if i = ?i then versions_of R i @ [?v] else versions_of R i)" for i
  proof -
    have "versions_of R' i = versions_of (R\<lparr>version_rows := version_rows R @ [?v]\<rparr>) i" by (simp add: versions_of_def R')
    also have "\<dots> = (if i = ?i then versions_of R i @ [?v] else versions_of R i)"
      using numbered_length [OF num, of _ ?i] ex by (subst versions_of_snoc) (auto intro: add_increasing2 order_trans)
    finally show ?thesis .
  qed
  have "desk_ok S (D', T, R')"
  proof (rule desk_ok_grow [OF ok le])
    show "db_ok ?E D'" using ok same_desk_db by (simp add: desk_ok_def D')
    show "version_row_ok S (D', T, R') x" if "x \<in> set (version_rows R')" "x \<notin> set (version_rows R)" for x
      using that new_v by (auto simp: R')
    show "review_row_ok S (D', T, R') x" if "x \<in> set (review_rows R')" "x \<notin> set (review_rows R)" for x
      using that new_c by (auto simp: R')
    show "numbered R' j" for j
      using num [of j] ex upto_next [of "int (length (versions_of R ?i))"] by (auto simp: numbered_def vs add.commute)
  qed (use ok keys' ids in \<open>auto simp: desk_ok_def D' R'\<close>)
  then show ?thesis by (simp add: fresh(12))
qed

lemma accepts_kinds:
  assumes E: "codec_ok E"
  shows "accepts_stored E (\<lambda>p. pp_kind p = PassageKind) (\<lambda>p. validate_replacement E p txt v) txt None"
    "accepts_stored E (\<lambda>p. pp_kind p = ContinuationKind)
       (\<lambda>p. and_then (validate_continuation_paragraphs ps) (\<lambda>_. validate_continuation E p ps v)) [] (Some (ParagraphPayload ps))"
    "accepts_stored E (\<lambda>p. pp_kind p = StructuredKind \<and> (grant_kind (pp_scope p) = Blocks \<or> grant_kind (pp_scope p) = WholeDocument))
       (\<lambda>p. validate_structured E p bs v) [] (Some (BlockPayload bs))"
proof -
  have t: "typed_snapshot_receipt E v = Inr valid"
    if "validate_replacement E p txt v = Inr valid \<or> validate_continuation E p ps v = Inr valid \<or> validate_structured E p bs v = Inr valid"
    for p valid
    using that by (auto simp: validate_replacement_def validate_continuation_def validate_structured_def and_then_eq_Inr result_receipt_ok)
  have same: "validate_replacement E p txt w = validate_replacement E p txt v"
    "validate_continuation E p ps w = validate_continuation E p ps v" "validate_structured E p bs w = validate_structured E p bs v"
    if "typed_snapshot_receipt E w = Inr valid"
      "validate_replacement E p txt v = Inr valid \<or> validate_continuation E p ps v = Inr valid \<or> validate_structured E p bs v = Inr valid"
    for p w valid
    using same_checks [OF E that(1) t [OF that(2)], of p] by blast+
  show "accepts_stored E (\<lambda>p. pp_kind p = PassageKind) (\<lambda>p. validate_replacement E p txt v) txt None"
    using same(1) by (auto simp: accepts_stored_def validate_prepared_def prepared_payload_def and_then_eq_Inr)
  show "accepts_stored E (\<lambda>p. pp_kind p = ContinuationKind)
       (\<lambda>p. and_then (validate_continuation_paragraphs ps) (\<lambda>_. validate_continuation E p ps v)) [] (Some (ParagraphPayload ps))"
    using same(2) by (auto simp: accepts_stored_def validate_prepared_def prepared_payload_def and_then_eq_Inr) (metis and_then_simps(2) is_ok_simps(2) ok_or_simps(2) ensure_simps(1))
  show "accepts_stored E (\<lambda>p. pp_kind p = StructuredKind \<and> (grant_kind (pp_scope p) = Blocks \<or> grant_kind (pp_scope p) = WholeDocument))
       (\<lambda>p. validate_structured E p bs v) [] (Some (BlockPayload bs))"
    using same(3) by (auto simp: accepts_stored_def validate_prepared_def prepared_payload_def and_then_eq_Inr) (metis and_then_simps(2) is_ok_simps(2) ok_or_simps(2) ensure_simps(1))+
qed

section \<open>Applying\<close>

lemma prepared_facts:
  assumes "latest_prepared E R i = Inr (Some x)" "ids_valid D R" "review_keys_ok R"
  shows "valid_id (pn_id x)" "read_prepared E R (pn_id x) = Inr x" "pn_proposal x = i"
proof -
  from assms(1) obtain v where v: "v \<in> set (version_rows R)" "pv_proposal v = i" "read_prepared E R (pv_id v) = Inr x"
    by (rule latest_prepared_ok)
  from v(3) obtain w where w: "find_version R (pv_id v) = Some w" "pn_proposal x = pv_proposal w" "pn_id x = pv_id v"
    by (rule read_prepared_ok)
  from assms(2) v(1) have "valid_id (pv_id v)" by (simp add: ids_valid_def)
  with find_version_in [OF assms(3) v(1)] v w show "valid_id (pn_id x)" "read_prepared E R (pn_id x) = Inr x" "pn_proposal x = i"
    by simp_all
qed

lemma read_revision_id_valid:
  assumes "read_revision E D i = Inr r" "ids_valid D R"
  shows "valid_id i"
proof -
  from assms(1) obtain q where "find_revision D i = Some q" by (auto simp: read_revision_def and_then_eq_Inr)
  then have "q \<in> set (revisions D)" "r_id q = i" by (auto simp: find_revision_def dest: find_SomeD)
  with assms(2) show ?thesis by (auto simp: ids_valid_def)
qed

text \<open>The links of a suggestion that was just applied, and its receipt.\<close>

lemma applied_receipt_ok:
  assumes E: "codec_ok E" "digest_ok E" and f: "find_receipt D (ns, op) = Some \<lparr>c_namespace = ns, c_operation = op, c_document = i,
      c_payload = h, c_kind = u ''apply'', c_result = stored_result_text E res\<rparr>"
    and v: "valid_id ns" "valid_id op" "valid_id i" "valid_hash h"
    and res: "res_head res = \<lparr>document_id = i, version = show_int n, body_hash = sha256_hex E g\<rparr>" "0 \<le> n" "n \<le> i64_max"
      "is_ok (parse_version (saved_generation res))" "applied res \<noteq> None"
  shows "apply_receipt E D ns op = Inr (i, h, res)"
  using assms by (simp add: apply_receipt_def parse_stored_result_text parse_version_show sha256_hex_valid check_id_valid)

lemma applied_links_ok:
  assumes l: "linked_revisions (desk_env S) D h h' bs bs' b a" and n: "next_head h (pn_hash x) h'"
    and x: "read_prepared (desk_env S) R (pn_id x) = Inr x" "pn_proposal x = pp_id p" "pn_body x = document_value bs'"
    and p: "pp_source p = h" "pp_source_body p = document_value bs" "validate_prepared (desk_env S) p x = Inr valid"
    and d: "dn_kind d = ApplyDecision" "dn_prepared d = Some (pn_id x)" "dn_before d = Some b" "dn_after d = Some a"
    and v: "valid_id (pn_id x)" "valid_id b" "valid_id a"
    and r: "apply_receipt (desk_env S) D ns op = Inr (document_id h, g, res)" "res_head res = h'"
      "applied res = Some \<lparr>decision_id = dn_id d, proposal_id = pp_id p, prepared_id = pn_id x,
         ap_before_revision_id = b, ap_after_revision_id = a\<rparr>"
  shows "validate_apply_links S (D, T, R) p d ns op res = Inr ()"
proof -
  from l obtain rb ra where l': "read_revision (desk_env S) D b = Inr rb" "rev_id rb = b" "rev_head rb = h" "rev_body rb = document_value bs"
     "read_revision (desk_env S) D a = Inr ra" "rev_id ra = a" "rev_head ra = h'" "rev_body ra = document_value bs'" "parent_id ra = Some b"
    by (auto simp: linked_revisions_def)
  from n obtain k where k: "parse_version (version h) = Inr k" "k < i64_max" "h' = h\<lparr>version := show_int (k + 1), body_hash := pn_hash x\<rparr>"
    by (auto simp: next_head_def)
  then have "parse_version (show_int (k + 1)) = Inr (k + 1)" "checked_add_i64 k 1 = Some (k + 1)"
    using parse_version_nonneg [OF k(1)] by (simp_all add: parse_version_show next_version_eq)
  with l' k x p d v r show ?thesis by (simp add: validate_apply_links_def Let_def)
qed

lemma apply_step:
  assumes ok: "desk_ok S (D, T, R)" and run: "apply_tx S F q payload (D, T, R) = Inr (ack, D', T', R')"
    and E: "codec_ok (desk_env S)" "digest_ok (desk_env S)"
    and args: "valid_hash payload" "valid_id (ar_operation q)" "valid_id (operation_namespace (ar_access q))"
      "is_ok (parse_version (ar_generation q))"
    and ids: "ids_valid D' R'"
  shows "desk_ok S (D', T', R')"
  using run
proof (cases rule: apply_tx_cases)
  case replay
  with ok show ?thesis by simp
next
  case (fresh res)
  let ?E = "desk_env S" and ?a = "ar_access q" and ?i = "ar_proposal q" and ?k = "(operation_namespace (ar_access q), ar_operation q)"
  have dbok: "db_ok ?E D" and keys: "review_keys_ok R" and ids0: "ids_valid D R" using ok by (simp_all add: desk_ok_def)
  from fresh(4) obtain p x bs bs' X b0 a0 where rp: "read_proposal S (D, T, R) ?a ?i = Inr p" "\<not> pp_historical p"
    "pp_prepared p = Some x" and app: "suggestion_applied ?E F q payload p x bs bs' res (D, T, R) (D', T', R')"
    and safe: "safe_change ?E D D'" and ins: "insert_decision X (applied_row F q p x b0 a0) R = Inr R'"
    by (rule apply_fresh_applied [OF E(1) dbok]) blast
  from rp(1,2) obtain b r fz where b: "read_base S (D, T, R) ?i = Inr (b, r, fz)"
    "rn_namespace r = operation_namespace ?a" "latest_prepared ?E R ?i = Inr (pp_prepared p)" "pp_id b = ?i"
    and p: "p = b\<lparr>pp_current := pp_current p, pp_historical := False, pp_prepared := pp_prepared p, pp_decision := pp_decision p\<rparr>"
    by (rule owned_base)
  have sel: "pp_id p = ?i" "pp_source p = pp_source b" "pp_source_body p = pp_source_body b"
    by (subst p, simp add: b(4))+
  from app obtain h' bi ai where
    src: "pp_source b = ar_expected q" "pp_source_body b = document_value bs" and body: "pn_body x = document_value bs'"
    and vp: "validate_prepared ?E p x = Inr (receipt_of ?E bs')" and hx: "pn_hash x = hash (receipt_of ?E bs')"
    and nh: "next_head (ar_expected q) (pn_hash x) h'" and lk: "linked_revisions ?E D' (ar_expected q) h' bs bs' bi ai"
    and res: "res = applied_result F q h' p x bi ai"
    and R': "R' = R\<lparr>decision_rows := decision_rows R @ [applied_row F q p x bi ai]\<rparr>" and T: "T' = T"
    and cr: "command_receipts D' = command_receipts D @ [\<lparr>c_namespace = operation_namespace ?a, c_operation = ar_operation q,
        c_document = document_id (ar_expected q), c_payload = payload, c_kind = u ''apply'', c_result = stored_result_text ?E res\<rparr>]"
    (is "_ = _ @ [?c]")
    unfolding suggestion_applied_def prod.case sel by blast
  let ?d = "applied_row F q p x bi ai"
  have vb: "validate_prepared ?E b x = Inr (receipt_of ?E bs')" using vp by (subst (asm) p) simp
  have db': "db_ok ?E D'" and g: "tables_grow D D'" "epoch_grows D D'" using safe dbok by (simp_all add: safe_change_def grows_def)
  have le: "desk_le (D, T, R) (D', T, R')" using g(1) by (simp add: desk_le_def tables_grow_def R')
  from grown_base [OF le b(1)] have b': "read_base S (D', T, R') ?i = Inr (b, r, fz)" .
  have keys': "review_keys_ok R'" using keys ins by (auto simp: insert_decision_ok review_keys_ok_def applied_row_def)
  have fd: "find_decision R' (ai_decision F) = Some ?d" using read_decision_in(1) [OF keys', of ?d] by (simp add: R' applied_row_def)
  have run: "find_run T (pp_run b) = Some r" using b(1) by (auto elim: read_base_ok)
  note px = prepared_facts [OF b(3) [unfolded rp(3)] ids0 keys]
  from nh obtain n where n: "parse_version (version (ar_expected q)) = Inr n" "n < i64_max"
    "h' = (ar_expected q)\<lparr>version := show_int (n + 1), body_hash := pn_hash x\<rparr>" by (auto simp: next_head_def)
  have doc: "valid_id (document_id (ar_expected q))"
  proof -
    from fresh(5) obtain d where "d \<in> set (documents D')" "d_id d = document_id (ar_expected q)" by (rule read_document_ok)
    with ids show ?thesis by (auto simp: ids_valid_def)
  qed
  have fr: "find_receipt D' ?k = Some ?c"
    using find_distinct_key [of receipt_key "command_receipts D'" ?c] db' cr
    by (simp add: find_receipt_def db_ok_def keys_ok_def receipt_key_def [abs_def])
  have rh: "res_head res = \<lparr>document_id = document_id (ar_expected q), version = show_int (n + 1),
      body_hash = sha256_hex ?E (bytes (json_text ?E (document_value bs')))\<rparr>"
    using hx by (simp add: res applied_result_def n(3))
  have ar: "apply_receipt ?E D' (operation_namespace ?a) (ar_operation q) = Inr (document_id (ar_expected q), payload, res)"
    using args doc parse_version_nonneg [OF n(1)] n(2)
    by (intro applied_receipt_ok [OF E fr _ _ _ _ rh]) (simp_all add: res applied_result_def)
  have ba: "valid_id bi" "valid_id ai"
    using lk read_revision_id_valid [OF _ ids] unfolding linked_revisions_def by blast+
  have links: "validate_apply_links S (D', T, R') b (decision_value ?d) (operation_namespace ?a) (ar_operation q) res = Inr ()"
    by (rule applied_links_ok [OF lk nh grown_prepared [OF le px(2)] _ body src vb _ _ _ _ px(1) ba ar])
      (simp_all add: px(3) b(4) decision_value_def applied_row_def res applied_result_def sel)
  have vd: "valid_id (ai_decision F)" using ids by (simp add: ids_valid_def R' applied_row_def)
  have new_d: "decision_row_ok S (D', T, R') ?d"
    using b' fd run vd b(2) args(2,3) ar links
    by (simp add: decision_row_ok_def validate_decision_def decision_value_def applied_row_def sel)
  have "desk_ok S (D', T, R')"
  proof (rule desk_ok_grow [OF ok le db'])
    show "project_rows D' \<noteq> None" using g(2) ok by (auto simp: epoch_grows_def desk_ok_def split: option.splits)
    show "decision_row_ok S (D', T, R') z" if "z \<in> set (decision_rows R')" "z \<notin> set (decision_rows R)" for z
      using that new_d by (auto simp: R')
    show "numbered R' j" for j using ok by (simp add: desk_ok_def numbered_def versions_of_def R')
    show "apply_row_ok R' z" if "z \<in> set (command_receipts D')" "z \<notin> set (command_receipts D)" for z
      using that by (auto simp: cr apply_row_ok_def R' applied_row_def receipt_key_def)
  qed (use ok keys' ids in \<open>auto simp: desk_ok_def R'\<close>)
  then show ?thesis by (simp add: T)
qed

section \<open>Turns of the actor\<close>

text \<open>
  A turn that can touch the desk: a command of the document families, a turn of a run (every
  command over runs takes \<open>life\<close> steps), the retention of the candidates of a completed run, or a
  command over suggestions. Identifiers drawn in a turn are valid ones.
\<close>

inductive desk_step :: "desk_services \<Rightarrow> services \<Rightarrow> desk_host \<Rightarrow> desk_host \<Rightarrow> bool" for V S where
  document_turn: "handle (desk_env V) t c P = (y, P') \<Longrightarrow> ids_valid (store P') R \<Longrightarrow> desk_step V S (P, T, R) (P', T, R)"
| run_turn: "life S T T' \<Longrightarrow> desk_step V S (P, T, R) (P, T', R)"
| retention: "r \<in> set (run_rows T) \<Longrightarrow> rn_status r = RunCompleted \<Longrightarrow> source_recorded V (store P) r \<Longrightarrow>
    retain_candidates_at V fresh T r (rn_output r) R = Inr R' \<Longrightarrow> ids_valid (store P) R' \<Longrightarrow>
    desk_step V S (P, T, R) (P, T, R')"
| suggestion_turn: "handle_proposal V t F c (P, T, R) = (z, P', T', R') \<Longrightarrow> ids_valid (store P') R' \<Longrightarrow>
    valid_id (info_operation_namespace (info P)) \<Longrightarrow> desk_step V S (P, T, R) (P', T', R')"

inductive_cases desk_stepE: "desk_step V S H H'"

definition host_ok :: "desk_services \<Rightarrow> desk_host \<Rightarrow> bool" where
  "host_ok V H \<longleftrightarrow> (case H of (P, T, R) \<Rightarrow> desk_ok V (store P, T, R))"

lemma desk_tx_ok_step:
  assumes "desk_tx t f (P, T, R) = (r, P', T', R')" "desk_ok V (store P, T, R)"
    and "\<And>x D' T' R'. f (store P, T, R) = Inr (x, D', T', R') \<Longrightarrow> ids_valid D' R' \<Longrightarrow> desk_ok V (D', T', R')"
    and "ids_valid (store P') R'"
  shows "desk_ok V (store P', T', R')"
  using assms(1) by (rule desk_tx_cases) (use assms(2-4) in auto)

lemma respondD: "respond f o' = (r, P', T', R') \<Longrightarrow> \<exists>r0 P0. o' = (r0, P0, T', R') \<and> store P' = store P0"
  by (auto simp: respond_def fence_uncertain_def split: prod.splits sum.split)

lemma logical_hash_valid: "digest_ok E \<Longrightarrow> valid_hash (logical_hash E v)"
  by (simp add: logical_hash_def sha256_hex_valid)

lemma prepare_checks_ok:
  assumes "prepare_checks E P q payload = Inr (n, h)" "digest_ok E" "valid_id (info_operation_namespace (info P))"
  shows "valid_hash h \<and> valid_id (pr_operation q) \<and> valid_id (operation_namespace (pr_access q))"
  using assms by (auto simp: prepare_checks_def and_then_eq_Inr logical_hash_valid dest: access_namespace)

lemma validated_receipt:
  "validate_replacement E p txt v = Inr valid \<Longrightarrow> \<exists>t. validate_snapshot_json E t = Inr valid"
  "validate_continuation E p ps v = Inr valid \<Longrightarrow> \<exists>t. validate_snapshot_json E t = Inr valid"
  "validate_structured E p bs v = Inr valid \<Longrightarrow> \<exists>t. validate_snapshot_json E t = Inr valid"
  by (auto simp: validate_replacement_def validate_continuation_def validate_structured_def and_then_eq_Inr result_receipt_def)

lemma prepare_turn:
  assumes run: "after_desk_checks (prepare_checks (desk_env V) P q field)
      (\<lambda>(expected, h). desk_tx t (prepare_tx V new q expected h guard check txt payload) (P, T, R)) (P, T, R) = (r, P', T', R')"
    and ok: "desk_ok V (store P, T, R)" and E: "codec_ok (desk_env V)" "digest_ok (desk_env V)"
    and acc: "accepts_stored (desk_env V) guard check txt payload"
    and receipt: "\<And>p valid. check p = Inr valid \<Longrightarrow> \<exists>s. validate_snapshot_json (desk_env V) s = Inr valid"
    and ids: "ids_valid (store P') R'" and ns: "valid_id (info_operation_namespace (info P))"
  shows "desk_ok V (store P', T', R')"
  using run
proof (rule after_desk_checks_cases)
  fix x assume c: "prepare_checks (desk_env V) P q field = Inr x"
    and tx: "(case x of (expected, h) \<Rightarrow> desk_tx t (prepare_tx V new q expected h guard check txt payload) (P, T, R)) = (r, P', T', R')"
  obtain n h where x: "x = (n, h)" by (cases x)
  note k = prepare_checks_ok [OF c [unfolded x] E(2) ns]
  show ?thesis
  proof (rule desk_tx_ok_step [OF tx [unfolded x prod.case] ok])
    fix y D1 T1 R1
    assume tx: "prepare_tx V new q n h guard check txt payload (store P, T, R) = Inr (y, D1, T1, R1)" and i: "ids_valid D1 R1"
    show "desk_ok V (D1, T1, R1)" by (rule prepare_step [OF ok tx E(1) acc receipt _ _ _ i]) (use k in simp_all)
  qed (rule ids)
qed (use ok in simp)

lemma handle_proposal_ok:
  assumes E: "codec_ok (desk_env V)" "digest_ok (desk_env V)" and ok: "desk_ok V (store P, T, R)"
    and run: "handle_proposal V t F c (P, T, R) = (z, P', T', R')"
    and ids: "ids_valid (store P') R'" and ns: "valid_id (info_operation_namespace (info P))"
  shows "desk_ok V (store P', T', R')"
proof (cases c)
  case (PList a doc)
  with run ok show ?thesis by (auto dest!: respondD)
next
  case (PPrepare q)
  with run obtain r0 P0 where o: "prepare_proposal V t q (P, T, R) = (r0, P0, T', R')" and s: "store P' = store P0"
    by (auto dest: respondD)
  show ?thesis unfolding s
    by (rule prepare_turn [OF o [unfolded prepare_proposal_def fst_conv] ok E accepts_kinds(1) [OF E(1)]])
      (use ids s ns in \<open>auto dest: validated_receipt\<close>)
next
  case (PPrepareContinuation q)
  with run obtain r0 P0 where o: "prepare_continuation V t q (P, T, R) = (r0, P0, T', R')" and s: "store P' = store P0"
    by (auto dest: respondD)
  show ?thesis unfolding s
    by (rule prepare_turn [OF o [unfolded prepare_continuation_def fst_conv] ok E accepts_kinds(2) [OF E(1)]])
      (use ids s ns in \<open>auto simp: and_then_eq_Inr dest: validated_receipt\<close>)
next
  case (PPrepareStructured q)
  with run obtain r0 P0 where o: "prepare_structured V t q (P, T, R) = (r0, P0, T', R')" and s: "store P' = store P0"
    by (auto dest: respondD)
  show ?thesis unfolding s
    by (rule prepare_turn [OF o [unfolded prepare_structured_def fst_conv] ok E accepts_kinds(3) [OF E(1)]])
      (use ids s ns in \<open>auto dest: validated_receipt\<close>)
next
  case (PApply q)
  with run obtain r0 P0 where o: "apply_proposal V t F q (P, T, R) = (r0, P0, T', R')" and s: "store P' = store P0"
    by (auto dest: respondD)
  from o [unfolded apply_proposal_def] show ?thesis
  proof (rule after_desk_checks_cases)
    fix h assume c: "apply_checks (desk_env V) (fst (P, T, R)) q = Inr h"
      and tx: "desk_tx t (apply_tx V F q h) (P, T, R) = (r0, P0, T', R')"
    have k: "valid_hash h" "valid_id (ar_operation q)" "valid_id (operation_namespace (ar_access q))" "is_ok (parse_version (ar_generation q))"
      using c ns E(2) by (auto simp: apply_checks_def and_then_eq_Inr logical_hash_valid is_ok_iff dest: access_namespace)
    show ?thesis unfolding s
      by (rule desk_tx_ok_step [OF tx ok]) (use apply_step [OF ok _ E k] ids s in auto)
  qed (use ok s in simp)
next
  case (PReject q)
  with run obtain r0 P0 where o: "reject_proposal V t q (P, T, R) = (r0, P0, T', R')" and s: "store P' = store P0"
    by (auto dest: respondD)
  from o [unfolded reject_proposal_def] show ?thesis
  proof (rule after_desk_checks_cases)
    fix h assume c: "and_then (check_access (fst (P, T, R)) (rj_access q)) (\<lambda>_.
       and_then (check_id (rj_operation q)) (\<lambda>_. Inr (logical_hash (desk_env V) (reject_json q)))) = Inr h"
      and tx: "desk_tx t (reject_tx V (new_first t) q h) (P, T, R) = (r0, P0, T', R')"
    have k: "valid_hash h" "valid_id (rj_operation q)" "valid_id (operation_namespace (rj_access q))"
      using c ns E(2) by (auto simp: and_then_eq_Inr logical_hash_valid dest: access_namespace)
    show ?thesis unfolding s
      by (rule desk_tx_ok_step [OF tx ok]) (use reject_step [OF ok _ k] ids s in auto)
  qed (use ok s in simp)
qed

lemma desk_step_ok:
  assumes "desk_step V S H H'" "host_ok V H" "codec_ok (desk_env V)" "digest_ok (desk_env V)"
  shows "host_ok V H'"
  using assms(1)
proof cases
  case (document_turn t c P y P' R T)
  from handle_change [of "desk_env V" P t c] document_turn(3) have "change (desk_env V) (info_operation_namespace (info P)) (store P) (store P')"
    by simp
  with document_step document_turn assms(2) show ?thesis by (fastforce simp: host_ok_def)
next
  case (run_turn T T' P R)
  with run_step assms(2) show ?thesis by (fastforce simp: host_ok_def)
next
  case (retention r T P fresh R R')
  with retain_step [of V "store P" T R r fresh R'] assms(2) show ?thesis by (simp add: host_ok_def)
next
  case (suggestion_turn t F c P T R z P' T' R')
  with handle_proposal_ok [OF assms(3,4)] assms(2) show ?thesis by (simp add: host_ok_def)
qed

lemma desk_steps_ok:
  assumes "(desk_step V S)\<^sup>*\<^sup>* H H'" "host_ok V H" "codec_ok (desk_env V)" "digest_ok (desk_env V)"
  shows "host_ok V H'"
  using assms by (induction rule: rtranclp_induct) (auto intro: desk_step_ok)

text \<open>A project before its first suggestion.\<close>

definition no_reviews :: review_tables where
  "no_reviews = \<lparr>proposal_rows = [], version_rows = [], decision_rows = [], review_rows = []\<rparr>"

lemma fresh_desk_ok:
  assumes "db_ok (desk_env V) D" "project_rows D \<noteq> None" "disc_keys_ok T"
    and "list_all (\<lambda>d. valid_id (d_id d)) (documents D)" "list_all (\<lambda>r. valid_id (r_id r)) (revisions D)"
    and "list_all (\<lambda>c. c_kind c \<noteq> u ''apply'') (command_receipts D)"
  shows "desk_ok V (D, T, no_reviews)"
  using assms
  by (auto simp: desk_ok_def no_reviews_def review_keys_ok_def ids_valid_def apply_row_ok_def list_all_iff numbered_def versions_of_def)

end
