(* ===== verification/Proposal_Samples.thy ===== *)
theory Proposal_Samples
  imports Proposal_Steps Discussion_Samples Scope_Properties
begin

text \<open>
  A concrete review for the witnesses: a chapter with one revision, a completed run about it whose
  answer proposes one replacement of a passage, and the desk after the candidate is retained, after
  the author prepared it, and after the apply.
\<close>

definition sample_chapter :: document_row where
  "sample_chapter = \<lparr>d_id = u ''doc'', d_kind = u ''chapter'', d_title = u ''One'', d_metadata = 0, d_position = 0,
     d_version = 3, d_body = sample_text sample_source, d_hash = sample_hash sample_source,
     d_checkpoint = Some (u ''r0''), d_dirty = False, d_trashed = False, d_role = u ''ordinary''\<rparr>"

definition sample_origin :: revision_row where
  "sample_origin = \<lparr>r_id = u ''r0'', r_document = u ''doc'', r_version = 3, r_body = sample_text sample_source,
     r_hash = sample_hash sample_source, r_parent = None, r_reason = u ''beforeContext''\<rparr>"

definition sample_book :: db where
  "sample_book = sample_db\<lparr>documents := [sample_chapter], revisions := [sample_origin]\<rparr>"

definition sample_author :: actor where
  "sample_author = sample_actor\<lparr>store := sample_book\<rparr>"

definition sample_candidate :: passage_candidate where
  "sample_candidate = \<lparr>pc_title = u ''T'', pc_text = u ''xy'', pc_explanation = []\<rparr>"

definition sample_frozen :: frozen where
  "sample_frozen = \<lparr>fz_snapshot = \<lparr>sn_id = u ''snap'', sn_project = u ''p'', sn_basis = WorkingBasis,
       sn_target = \<lparr>sr_project = u ''p'', sr_document = u ''doc'', sr_revision = u ''r0'', sr_hash = sample_hash sample_source\<rparr>,
       sn_source_epoch = show_int 5, sn_ordering_epoch = show_int 0, sn_policy_version = show_int 0, sn_sources = [], sn_reviewed = None\<rparr>,
     fz_policy = \<lparr>po_version = show_int 0, po_audience = RestrictedWriting, po_frontier = None, po_character = None,
       po_grants = [], po_alternatives = False, po_historical = False\<rparr>,
     fz_purpose = Revise\<rparr>"

definition sample_desk :: desk_services where
  "sample_desk = \<lparr>packet_snapshot = \<lambda>_. Inr (u ''snap''), frozen_context = \<lambda>_. Inr (sample_frozen, u ''ns''),
     packet_scope = \<lambda>_. Inr (Some (scope passage_request)), passage_output = \<lambda>_. Some [sample_candidate],
     continuation_from = \<lambda>_. None, structured_from = \<lambda>_. None, desk_env = sample_env\<rparr>"

definition sample_completed :: run_row where
  "sample_completed = (sample_run_row RunCompleted 0 [] None)\<lparr>rn_hash := sample_hash sample_source\<rparr>"

abbreviation "sample_runs \<equiv> sample_tables sample_completed"

definition sample_suggestion :: proposal_row where
  "sample_suggestion = \<lparr>pl_id = u ''s0'', pl_run = u ''run'', pl_ordinal = 0, pl_candidate = PassageContent sample_candidate,
     pl_kind = PassageKind\<rparr>"

definition sample_version :: version_row where
  "sample_version = \<lparr>pv_id = u ''r1'', pv_proposal = u ''s0'', pv_version = 1, pv_text = u ''xy'',
     pv_body = sample_text sample_replaced, pv_hash = sample_hash sample_replaced, pv_payload = None\<rparr>"

definition sample_prepare :: prepare_passage_request where
  "sample_prepare = \<lparr>pr_access = sample_access ''s1'' ''l1'', pr_operation = u ''op2'', pr_proposal = u ''s0'',
     pr_expected_version = show_int 0, pr_body = document_value sample_replaced, pr_text_value = u ''xy''\<rparr>"

definition sample_prepare_hash :: ustr where
  "sample_prepare_hash = logical_hash sample_env (prepare_json sample_prepare (u ''replacementText'', JStr (u ''xy'')))"

definition sample_retained :: review_tables where
  "sample_retained = no_reviews\<lparr>proposal_rows := [sample_suggestion]\<rparr>"

definition sample_review :: review_row where
  "sample_review = \<lparr>rw_namespace = u ''ns'', rw_operation = u ''op2'', rw_kind = PrepareReceipt,
     rw_payload = sample_prepare_hash, rw_result = u ''r1''\<rparr>"

definition sample_prepared :: review_tables where
  "sample_prepared = sample_retained\<lparr>version_rows := [sample_version], review_rows := [sample_review]\<rparr>"

definition sample_reviewed :: actor where
  "sample_reviewed = sample_author\<lparr>store := sample_book\<lparr>proposal_operations := [(u ''ns'', u ''op2'')]\<rparr>\<rparr>"

section \<open>Facts\<close>

lemma sample_desk_sel [simp]:
  "packet_snapshot sample_desk i = Inr (u ''snap'')" "frozen_context sample_desk i = Inr (sample_frozen, u ''ns'')"
  "packet_scope sample_desk i = Inr (Some (scope passage_request))" "passage_output sample_desk t = Some [sample_candidate]"
  "desk_env sample_desk = sample_env"
  by (simp_all add: sample_desk_def)

lemma sample_frozen_sel [simp]: "fz_purpose sample_frozen = Revise" "po_audience (fz_policy sample_frozen) = RestrictedWriting"
  "sn_project (fz_snapshot sample_frozen) = u ''p''" "sr_revision (sn_target (fz_snapshot sample_frozen)) = u ''r0''"
  "sn_source_epoch (fz_snapshot sample_frozen) = show_int 5" "po_version (fz_policy sample_frozen) = show_int 0"
  by (simp_all add: sample_frozen_def)

lemma sample_review_ids [simp]: "valid_id (u ''s0'')" "valid_id (u ''r0'')" "valid_id (u ''r1'')" "valid_id (u ''op2'')"
  "valid_id (u ''op3'')" "valid_id (u ''a1'')" "valid_id (u ''d1'')" "valid_id (u ''doc'')" "valid_id (u ''ns'')" "valid_id (u ''run'')"
  by code_simp+

lemma sample_review_hashes: "sample_hash sample_replaced \<noteq> sample_hash sample_source"
  by code_simp

lemma sample_source_size: "blen (enc (document_value sample_source)) \<le> MAX_RAW_BYTES"
  "blen (enc (document_value sample_replaced)) \<le> MAX_RAW_BYTES"
proof -
  have "length (enc (document_value sample_source)) \<le> 500" "length (enc (document_value sample_replaced)) \<le> 500"
    by (simp_all add: document_value_def sample_defs content_entry_def)
  with blen_le [of "enc (document_value sample_source)"] blen_le [of "enc (document_value sample_replaced)"]
  show "blen (enc (document_value sample_source)) \<le> MAX_RAW_BYTES" "blen (enc (document_value sample_replaced)) \<le> MAX_RAW_BYTES"
    by (simp_all add: MAX_RAW_BYTES_def)
qed

lemma sample_review_accepted:
  "validate_snapshot_json sample_env (sample_text sample_source) = Inr (receipt_of sample_env sample_source)"
  "validate_snapshot_json sample_env (sample_text sample_replaced) = Inr (receipt_of sample_env sample_replaced)"
  using rendered_accepted [OF sample_codec sample_docs_ok(1)] rendered_accepted [OF sample_codec sample_docs_ok(2)] sample_source_size
  by (simp_all add: sample_text_def)

lemma sample_review_bodies:
  "check_body sample_env (sample_text sample_source) (sample_hash sample_source) = Inr (receipt_of sample_env sample_source)"
  "check_body sample_env (sample_text sample_replaced) (sample_hash sample_replaced) = Inr (receipt_of sample_env sample_replaced)"
  by (simp_all add: check_body_def sample_review_accepted sample_receipt_hash) (simp_all add: sample_text_def)

lemmas sample_review_folds = sample_review_accepted sample_review_bodies sample_text_hash sample_receipt_hash
  sample_text_def [symmetric] sample_i64

lemma sample_valid_candidate: "validate_candidate sample_candidate = Inr ()"
proof -
  have "trim (u ''T'') \<noteq> []" "blen (u ''T'') = 1" "utf16_len (u ''xy'') = 2" "\<not> contains_any (u ''xy'') [10, 13]"
    by (auto simp: trim_eq_Nil u_def is_whitespace_def len_utf16_def contains_any_def)
  then show ?thesis by (simp add: validate_candidate_def sample_candidate_def)
qed

lemma sample_book_ok: "db_ok sample_env sample_book"
proof -
  have "text_ok sample_env (sample_text sample_source) (sample_hash sample_source)"
    using sample_docs_ok(1) by (auto simp: text_ok_def sample_text_def sample_hash_def)
  then have "document_row_ok sample_env sample_chapter" "revision_row_ok sample_env sample_book sample_origin"
    by (auto simp: document_row_ok_def revision_row_ok_def sample_chapter_def sample_origin_def sample_book_def i64_max_def
        document_kinds_def intro: range_eqI [of _ _ Ordinary])
  then show ?thesis
    by (simp add: db_ok_def keys_ok_def sample_book_def sample_db_def checkpoint_ok_def sample_chapter_def sample_origin_def)
qed

lemma sample_origin_read:
  "revisions D = sample_origin # rs \<Longrightarrow> read_revision sample_env D (u ''r0'') =
     Inr \<lparr>rev_id = u ''r0'', rev_head = \<lparr>document_id = u ''doc'', version = show_int 3, body_hash = sample_hash sample_source\<rparr>,
       rev_body = document_value sample_source, reason = u ''beforeContext'', parent_id = None\<rparr>"
  by (simp add: read_revision_def find_revision_def sample_origin_def sample_review_folds parse_stored_version_def)

section \<open>Retaining\<close>

lemma sample_grant: "grant_kind (scope passage_request) = Passage"
  by (simp add: passage_scope) (simp add: passage_grant_def)

lemma sample_run_sel [simp]:
  "rn_id sample_completed = u ''run''" "rn_project sample_completed = u ''p''" "rn_namespace sample_completed = u ''ns''"
  "rn_document sample_completed = u ''doc''" "rn_version sample_completed = 3" "rn_hash sample_completed = sample_hash sample_source"
  "rn_status sample_completed = RunCompleted" "rn_output sample_completed = []" "rn_packet sample_completed = u ''pk''" "rn_thread sample_completed = u ''th''"
  by (simp_all add: sample_completed_def sample_run_row_def)

lemma sample_runs_row: "run_rows sample_runs = [sample_completed]" "policy_epoch sample_runs = 0"
  by (simp_all add: sample_tables_def)

lemma sample_retains:
  "retain_candidates_at sample_desk (\<lambda>_. u ''s0'') sample_runs sample_completed [] no_reviews = Inr sample_retained"
  using sample_valid_candidate sample_grant
  by (simp add: retain_candidates_at_def retained_kind_def retained_contents_def insert_proposal_def sample_runs_row
      no_reviews_def sample_retained_def sample_suggestion_def)

lemma sample_source_recorded: "source_recorded sample_desk sample_book sample_completed"
  using sample_origin_read [of sample_book "[]"]
  by (simp add: source_recorded_def inspection_id_def sample_book_def u_def)

section \<open>Reading\<close>

definition sample_base :: "bool \<Rightarrow> prepared option \<Rightarrow> proposal" where
  "sample_base current x = \<lparr>pp_id = u ''s0'', pp_run = u ''run'', pp_kind = PassageKind,
     pp_candidate = PassageContent sample_candidate,
     pp_source = \<lparr>document_id = u ''doc'', version = show_int 3, body_hash = sample_hash sample_source\<rparr>,
     pp_source_body = document_value sample_source, pp_scope = scope passage_request, pp_snapshot = u ''snap'',
     pp_packet = u ''pk'', pp_current = current, pp_historical = False, pp_prepared = x, pp_decision = None\<rparr>"

lemma sample_base_sel [simp]:
  "pp_id (sample_base c x) = u ''s0''" "pp_kind (sample_base c x) = PassageKind" "pp_current (sample_base c x) = c"
  "\<not> pp_historical (sample_base c x)" "pp_prepared (sample_base c x) = x" "pp_decision (sample_base c x) = None"
  "pp_source (sample_base c x) = \<lparr>document_id = u ''doc'', version = show_int 3, body_hash = sample_hash sample_source\<rparr>"
  by (simp_all add: sample_base_def)

lemma sample_pending: "require_owned_pending (sample_base c x) = Inr ()"
  by simp

lemma sample_base_read:
  assumes "revisions D = sample_origin # rs" "proposal_rows R = [sample_suggestion]"
  shows "read_base sample_desk (D, sample_runs, R) (u ''s0'') =
    Inr ((sample_base False None)\<lparr>pp_historical := True\<rparr>, sample_completed, sample_frozen)"
  using sample_grant sample_valid_candidate sample_origin_read [OF assms(1)]
  by (simp add: read_base_def find_proposal_def assms(2) sample_suggestion_def find_run_def sample_runs_row writing_source_def
      parse_stored_version_def read_candidate_def check_id_valid sample_base_def)

lemma sample_chapter_read:
  assumes "documents D = [sample_chapter]"
  shows "read_document sample_env D (u ''doc'') = Inr \<lparr>doc_head =
      \<lparr>document_id = u ''doc'', version = show_int 3, body_hash = sample_hash sample_source\<rparr>, title = u ''One'', kind = u ''chapter'',
     metadata_version = show_int 0, body = document_value sample_source, last_checkpoint_id = Some (u ''r0''), role = Ordinary\<rparr>"
  using read_document_row [of "u ''doc''" D sample_chapter sample_env "receipt_of sample_env sample_source"]
  by (simp add: assms, simp add: sample_chapter_def sample_review_bodies)

lemma sample_suggestion_read:
  assumes "revisions D = sample_origin # rs" "documents D = [sample_chapter]" "project_rows D = Some sample_project"
    and "proposal_rows R = [sample_suggestion]" "latest_prepared sample_env R (u ''s0'') = Inr x" "decision_rows R = []"
  shows "read_proposal sample_desk (D, sample_runs, R) (sample_access ''s1'' ''l1'') (u ''s0'') = Inr (sample_base True x)"
proof -
  have "is_current sample_desk D sample_runs sample_frozen
      \<lparr>document_id = u ''doc'', version = show_int 3, body_hash = sample_hash sample_source\<rparr> False = Inr True"
    using sample_chapter_read [OF assms(2)] by (simp add: is_current_def assms(3) sample_project_def sample_runs_row)
  then show ?thesis
    by (simp add: read_proposal_eq sample_base_read [OF assms(1,4)] historical_for_def assms(5) decided_def decision_of_def assms(6))
      (simp add: sample_base_def)
qed

section \<open>Preparing\<close>

lemma sample_author_access: "check_access sample_author (sample_access ''s1'' ''l1'') = Inr ()"
  by (simp add: check_access_def sample_author_def sample_info_def)

lemma sample_change: "change_of (sample_base c x) (document_value sample_replaced) = passage_request"
  by (simp add: change_of_def sample_base_def passage_request_def)

lemma sample_result_receipt: "result_receipt sample_env (document_value sample_replaced) = Inr (receipt_of sample_env sample_replaced)"
  using sample_review_accepted(2) by (simp add: result_receipt_def sample_text_def)

lemma sample_replacement:
  "validate_replacement sample_env (sample_base c x) (u ''xy'') (document_value sample_replaced) = Inr (receipt_of sample_env sample_replaced)"
  using passage_accepted by (auto simp: validate_replacement_def sample_change is_ok_iff sample_result_receipt)

definition sample_prepared_value :: prepared where
  "sample_prepared_value = \<lparr>pn_id = u ''r1'', pn_proposal = u ''s0'', pn_version = show_int 1, pn_text = u ''xy'',
     pn_paragraphs = None, pn_blocks = None, pn_body = document_value sample_replaced, pn_hash = sample_hash sample_replaced\<rparr>"

lemma sample_prepared_read:
  assumes "version_rows R = [sample_version]" "proposal_rows R = [sample_suggestion]"
  shows "read_prepared sample_env R (u ''r1'') = Inr sample_prepared_value"
    "latest_prepared sample_env R (u ''s0'') = Inr (Some sample_prepared_value)"
proof -
  show p: "read_prepared sample_env R (u ''r1'') = Inr sample_prepared_value"
    by (simp add: read_prepared_def find_version_def find_proposal_def assms,
      simp add: sample_version_def sample_suggestion_def sample_review_folds prepared_payload_def parse_stored_version_def
        sample_prepared_value_def)
  show "latest_prepared sample_env R (u ''s0'') = Inr (Some sample_prepared_value)"
    using p by (simp add: latest_prepared_def versions_of_def assms, simp add: sample_version_def)
qed

lemma sample_zero: "parse_version (show_int 0) = Inr 0"
  by (intro parse_version_show) (simp_all add: i64_max_def)

lemma sample_prepares:
  "prepare_proposal sample_desk (sample_turn Committed) sample_prepare (sample_author, sample_runs, sample_retained) =
    (Inr sample_prepared_value, sample_reviewed, sample_runs, sample_prepared)"
proof -
  have rd: "read_proposal sample_desk (sample_book, sample_runs, sample_retained) (sample_access ''s1'' ''l1'') (u ''s0'') =
      Inr (sample_base True None)"
    by (rule sample_suggestion_read [where rs = "[]"])
      (simp_all add: sample_book_def sample_db_def sample_retained_def no_reviews_def latest_prepared_def versions_of_def)
  have pd: "read_prepared sample_env sample_prepared (u ''r1'') = Inr sample_prepared_value"
    by (rule sample_prepared_read) (simp_all add: sample_prepared_def sample_retained_def)
  have rr: "review_receipt (sample_book, sample_retained) (sample_access ''s1'' ''l1'') (u ''op2'') PrepareReceipt h = Inr None" for h
    by (simp add: review_receipt_def find_review_def sample_retained_def no_reviews_def find_receipt_def sample_book_def sample_db_def)
  have iv: "insert_version sample_version sample_retained = Inr (sample_retained\<lparr>version_rows := [sample_version]\<rparr>)"
    by (simp add: insert_version_def sample_retained_def no_reviews_def sample_version_def sample_suggestion_def)
  have ir: "insert_review_receipt (sample_access ''s1'' ''l1'') (u ''op2'') PrepareReceipt sample_prepare_hash (u ''r1'')
      (sample_book, sample_retained\<lparr>version_rows := [sample_version]\<rparr>) =
    Inr (sample_book\<lparr>proposal_operations := [(u ''ns'', u ''op2'')]\<rparr>, sample_prepared)"
    by (simp add: insert_review_receipt_def sample_retained_def no_reviews_def sample_book_def sample_db_def
        sample_prepared_def sample_review_def)
  have v: "\<lparr>pv_id = u ''r1'', pv_proposal = u ''s0'', pv_version = 1, pv_text = u ''xy'',
     pv_body = canonical_json (receipt_of sample_env sample_replaced), pv_hash = hash (receipt_of sample_env sample_replaced),
     pv_payload = None\<rparr> = sample_version"
    by (simp add: sample_version_def sample_review_folds)
  have q: "pr_access sample_prepare = sample_access ''s1'' ''l1''" "pr_operation sample_prepare = u ''op2''"
    "pr_proposal sample_prepare = u ''s0''" "pr_expected_version sample_prepare = show_int 0"
    "pr_text_value sample_prepare = u ''xy''" "pr_body sample_prepare = document_value sample_replaced"
    by (simp_all add: sample_prepare_def)
  have "prepare_tx sample_desk (u ''r1'') sample_prepare 0 sample_prepare_hash (\<lambda>p. pp_kind p = PassageKind)
      (\<lambda>p. validate_replacement sample_env p (u ''xy'') (document_value sample_replaced)) (u ''xy'') None
      (sample_book, sample_runs, sample_retained)
    = Inr (sample_prepared_value, sample_book\<lparr>proposal_operations := [(u ''ns'', u ''op2'')]\<rparr>, sample_runs, sample_prepared)"
    unfolding prepare_tx_def prod.case q and_then_simps rr option.case rd sample_replacement
    using v iv ir pd by (simp add: sample_pending checked_add_i64_def sample_i64 del: receipt_of_simps)
  moreover have "prepare_checks sample_env sample_author sample_prepare (u ''replacementText'', JStr (u ''xy'')) = Inr (0, sample_prepare_hash)"
    by (simp add: prepare_checks_def q sample_zero check_id_valid sample_prepare_hash_def sample_author_access)
  ultimately show ?thesis
    by (simp add: prepare_proposal_def after_desk_checks_def desk_tx_def in_tx_def sample_reviewed_def q)
      (simp add: sample_author_def)
qed

section \<open>Applying\<close>

definition sample_apply :: apply_request where
  "sample_apply = \<lparr>ar_access = sample_access ''s1'' ''l1'', ar_operation = u ''op3'', ar_proposal = u ''s0'', ar_prepared = u ''r1'',
     ar_expected = \<lparr>document_id = u ''doc'', version = show_int 3, body_hash = sample_hash sample_source\<rparr>,
     ar_hash = sample_hash sample_replaced, ar_generation = show_int 1\<rparr>"

definition sample_apply_ids :: apply_ids where
  "sample_apply_ids = \<lparr>ai_before = u ''b1'', ai_after = u ''a1'', ai_decision = u ''d1''\<rparr>"

definition sample_apply_hash :: ustr where
  "sample_apply_hash = logical_hash sample_env (apply_json sample_apply)"

definition sample_apply_result :: stored_result where
  "sample_apply_result = \<lparr>res_head = \<lparr>document_id = u ''doc'', version = show_int 4, body_hash = sample_hash sample_replaced\<rparr>,
     saved_generation = show_int 1, applied = Some \<lparr>decision_id = u ''d1'', proposal_id = u ''s0'', prepared_id = u ''r1'',
       ap_before_revision_id = u ''r0'', ap_after_revision_id = u ''a1''\<rparr>, restored = None\<rparr>"

definition sample_decision :: decision_row where
  "sample_decision = \<lparr>pd_id = u ''d1'', pd_proposal = u ''s0'', pd_kind = ApplyDecision, pd_prepared = Some (u ''r1''),
     pd_before = Some (u ''r0''), pd_after = Some (u ''a1''), pd_namespace = u ''ns'', pd_operation = u ''op3''\<rparr>"

definition sample_rewritten :: db where
  "sample_rewritten = sample_book\<lparr>proposal_operations := [(u ''ns'', u ''op2'')], project_rows := Some (sample_project\<lparr>p_epoch := 6\<rparr>),
     documents := [sample_chapter\<lparr>d_version := 4, d_body := sample_text sample_replaced, d_hash := sample_hash sample_replaced,
       d_dirty := True, d_checkpoint := Some (u ''a1'')\<rparr>],
     revisions := [sample_origin, \<lparr>r_id = u ''a1'', r_document = u ''doc'', r_version = 4, r_body = sample_text sample_replaced,
      r_hash = sample_hash sample_replaced, r_parent = Some (u ''r0''), r_reason = u ''afterApply''\<rparr>],
     command_receipts := [\<lparr>c_namespace = u ''ns'', c_operation = u ''op3'', c_document = u ''doc'', c_payload = sample_apply_hash,
       c_kind = u ''apply'', c_result = stored_result_text sample_env sample_apply_result\<rparr>]\<rparr>"

definition sample_applied_reviews :: review_tables where
  "sample_applied_reviews = sample_prepared\<lparr>decision_rows := [sample_decision]\<rparr>"

definition sample_applied :: actor where
  "sample_applied = sample_author\<lparr>store := sample_rewritten\<rparr>"

definition sample_rewritten_document :: document_record where
  "sample_rewritten_document = \<lparr>doc_head = \<lparr>document_id = u ''doc'', version = show_int 4, body_hash = sample_hash sample_replaced\<rparr>,
     title = u ''One'', kind = u ''chapter'', metadata_version = show_int 0, body = document_value sample_replaced,
     last_checkpoint_id = Some (u ''a1''), role = Ordinary\<rparr>"

definition sample_apply_ack :: "bool \<Rightarrow> apply_ack" where
  "sample_apply_ack already = \<lparr>aa_access = sample_access ''s1'' ''l1'', aa_operation = u ''op3'', aa_already = already,
     aa_result = sample_apply_result, aa_document = sample_rewritten_document\<rparr>"

lemma sample_apply_sel [simp]:
  "ar_access sample_apply = sample_access ''s1'' ''l1''" "ar_operation sample_apply = u ''op3''" "ar_proposal sample_apply = u ''s0''"
  "ar_prepared sample_apply = u ''r1''" "ar_hash sample_apply = sample_hash sample_replaced" "ar_generation sample_apply = show_int 1"
  "ar_expected sample_apply = \<lparr>document_id = u ''doc'', version = show_int 3, body_hash = sample_hash sample_source\<rparr>"
  by (simp_all add: sample_apply_def)

lemma sample_shown: "parse_version (show_int 1) = Inr 1" "parse_version (show_int 3) = Inr 3"
  by (intro parse_version_show, simp_all add: i64_max_def)+

lemma sample_apply_checks:
  "check_access P (sample_access ''s1'' ''l1'') = Inr () \<Longrightarrow> apply_checks sample_env P sample_apply = Inr sample_apply_hash"
  by (simp add: apply_checks_def check_id_valid sample_shown sample_apply_hash_def)

lemma sample_applies_fresh:
  "apply_fresh sample_desk sample_apply_ids sample_apply sample_apply_hash
      (sample_book\<lparr>proposal_operations := [(u ''ns'', u ''op2'')]\<rparr>, sample_runs, sample_prepared)
    = Inr (sample_apply_result, sample_rewritten, sample_runs, sample_applied_reviews)"
proof -
  let ?D = "sample_book\<lparr>proposal_operations := [(u ''ns'', u ''op2'')]\<rparr>"
  let ?x = sample_prepared_value
  have rd: "read_proposal sample_desk (?D, sample_runs, sample_prepared) (sample_access ''s1'' ''l1'') (u ''s0'') =
      Inr (sample_base True (Some ?x))"
    by (rule sample_suggestion_read [where rs = "[]"])
      (simp_all add: sample_book_def sample_db_def sample_prepared_def sample_retained_def no_reviews_def sample_prepared_read)
  have vp: "validate_prepared sample_env (sample_base True (Some ?x)) ?x = Inr (receipt_of sample_env sample_replaced)"
    by (simp add: validate_prepared_def sample_prepared_value_def sample_replacement)
  have x: "pn_id ?x = u ''r1''" "pn_hash ?x = sample_hash sample_replaced" by (simp_all add: sample_prepared_value_def)
  have doc: "read_document sample_env ?D (u ''doc'') = Inr \<lparr>doc_head =
      \<lparr>document_id = u ''doc'', version = show_int 3, body_hash = sample_hash sample_source\<rparr>, title = u ''One'', kind = u ''chapter'',
     metadata_version = show_int 0, body = document_value sample_source, last_checkpoint_id = Some (u ''r0''), role = Ordinary\<rparr>" (is "_ = Inr ?doc")
    by (rule sample_chapter_read) (simp add: sample_book_def)
  have c1: "checkpoint_at sample_env (u ''b1'') ?D ?doc (u ''beforeApply'') =
      Inr (\<lparr>rev_id = u ''r0'', rev_head = \<lparr>document_id = u ''doc'', version = show_int 3, body_hash = sample_hash sample_source\<rparr>,
       rev_body = document_value sample_source, reason = u ''beforeContext'', parent_id = None\<rparr>, ?D)"
    using sample_origin_read [of ?D "[]"]
    by (simp add: checkpoint_at_def sample_shown find_revision_at_def sample_book_def) (simp add: sample_origin_def)
  let ?D2 = "?D\<lparr>documents := [sample_chapter\<lparr>d_version := 4, d_body := sample_text sample_replaced, d_hash := sample_hash sample_replaced,
       d_dirty := True\<rparr>]\<rparr>"
  have w: "replace_body (u ''doc'') 3 (sample_hash sample_source) 4 (sample_text sample_replaced) (sample_hash sample_replaced) ?D = Inr ?D2"
    by (simp add: replace_body_def update_documents_def sample_book_def) (simp add: sample_chapter_def)
  let ?D3 = "?D2\<lparr>project_rows := Some (sample_project\<lparr>p_epoch := 6\<rparr>)\<rparr>"
  have e: "bump_epoch ?D2 = Inr ?D3"
    by (simp add: bump_epoch_def sample_book_def sample_db_def sample_project_def sample_i64)
  let ?aft = "sample_rewritten_document\<lparr>last_checkpoint_id := Some (u ''r0'')\<rparr>"
  have aft: "read_document sample_env ?D3 (u ''doc'') = Inr ?aft"
    using read_document_row [of "u ''doc''" ?D3 "hd (documents ?D2)" sample_env "receipt_of sample_env sample_replaced"]
    by (simp add: sample_chapter_def sample_review_bodies sample_rewritten_document_def)
  let ?D4 = "sample_rewritten\<lparr>command_receipts := []\<rparr>"
  let ?after = "\<lparr>rev_id = u ''a1'', rev_head = \<lparr>document_id = u ''doc'', version = show_int 4, body_hash = sample_hash sample_replaced\<rparr>,
       rev_body = document_value sample_replaced, reason = u ''afterApply'', parent_id = Some (u ''r0'')\<rparr>"
  have c2: "checkpoint_at sample_env (u ''a1'') ?D3 ?aft (u ''afterApply'') = Inr (?after, ?D4)"
    by (simp add: checkpoint_at_def sample_rewritten_document_def sample_four find_revision_at_def sample_book_def sample_origin_def,
      simp add: insert_revision_row_def sample_db_def sample_review_folds find_revision_def,
      simp add: update_documents_def sample_chapter_def read_revision_def find_revision_def sample_review_folds parse_stored_version_def
        sample_rewritten_def sample_book_def sample_origin_def sample_db_def sample_project_def)
  have d: "insert_decision ?D4 sample_decision sample_prepared = Inr sample_applied_reviews"
    by (simp add: insert_decision_ok sample_decision_def decision_shape_def sample_prepared_def sample_retained_def no_reviews_def
        sample_suggestion_def sample_version_def sample_rewritten_def sample_applied_reviews_def sample_origin_def)
  have i: "insert_receipt sample_env ?D4 (u ''ns'') (u ''op3'') (u ''apply'') sample_apply_hash sample_apply_result = Inr sample_rewritten"
    by (simp add: insert_receipt_def insert_receipt_row_def sample_rewritten_def sample_book_def sample_db_def sample_apply_result_def)
      (simp add: sample_chapter_def)
  have dec: "\<lparr>pd_id = ai_decision sample_apply_ids, pd_proposal = u ''s0'', pd_kind = ApplyDecision, pd_prepared = Some (u ''r1''),
     pd_before = Some (u ''r0''), pd_after = Some (u ''a1''), pd_namespace = u ''ns'', pd_operation = u ''op3''\<rparr> = sample_decision"
    by (simp add: sample_decision_def sample_apply_ids_def)
  have res: "\<lparr>res_head = doc_head ?aft, saved_generation = show_int 1,
      applied = Some \<lparr>decision_id = ai_decision sample_apply_ids, proposal_id = u ''s0'', prepared_id = u ''r1'',
        ap_before_revision_id = u ''r0'', ap_after_revision_id = u ''a1''\<rparr>, restored = None\<rparr> = sample_apply_result"
    by (simp add: sample_apply_result_def sample_apply_ids_def sample_rewritten_document_def)
  have h: "hash (receipt_of sample_env sample_replaced) = sample_hash sample_replaced"
    "canonical_json (receipt_of sample_env sample_replaced) = sample_text sample_replaced"
    by (simp_all add: sample_review_folds)
  have id: "ai_before sample_apply_ids = u ''b1''" "ai_after sample_apply_ids = u ''a1''" by (simp_all add: sample_apply_ids_def)
  have n: "checked_add_i64 3 1 = Some 4" by (simp add: checked_add_i64_def sample_i64)
  show ?thesis
    unfolding apply_fresh_def Let_def prod.case sample_apply_sel sample_access_sel sample_desk_sel rd and_then_simps sample_pending
      sample_base_sel ok_or_simps x doc document_record.select_convs head.select_convs vp h id c1
    using sample_review_hashes w e aft c2 d [folded dec] i res
    by (simp add: sample_shown n id require_head_def)
qed

lemma sample_rewritten_read: "read_document sample_env sample_rewritten (u ''doc'') = Inr sample_rewritten_document"
  using read_document_row [of "u ''doc''" sample_rewritten "hd (documents sample_rewritten)" sample_env "receipt_of sample_env sample_replaced"]
  by (simp add: sample_rewritten_def sample_chapter_def sample_review_bodies sample_rewritten_document_def)

lemma sample_reviewed_sel [simp]: "connected sample_reviewed" "connected sample_applied" "connected sample_author"
  "store sample_reviewed = sample_book\<lparr>proposal_operations := [(u ''ns'', u ''op2'')]\<rparr>" "store sample_author = sample_book"
  "store sample_applied = sample_rewritten"
  by (simp_all add: sample_reviewed_def sample_applied_def sample_author_def)

lemma sample_reviewed_access: "check_access sample_reviewed (sample_access ''s1'' ''l1'') = Inr ()"
  "check_access sample_applied (sample_access ''s1'' ''l1'') = Inr ()"
  by (simp_all add: check_access_def sample_reviewed_def sample_applied_def sample_author_def sample_info_def)

lemma sample_applies:
  "apply_proposal sample_desk (sample_turn Committed) sample_apply_ids sample_apply (sample_reviewed, sample_runs, sample_prepared) =
    (Inr (sample_apply_ack False), sample_applied, sample_runs, sample_applied_reviews)"
proof -
  have "existing_receipt sample_env (store sample_reviewed) (u ''ns'') (u ''op3'') (u ''apply'') sample_apply_hash = Inr None"
    by (simp add: existing_receipt_def find_receipt_def sample_book_def sample_db_def u_def)
  then have "apply_tx sample_desk sample_apply_ids sample_apply sample_apply_hash (store sample_reviewed, sample_runs, sample_prepared) =
      Inr (sample_apply_ack False, sample_rewritten, sample_runs, sample_applied_reviews)"
    using sample_applies_fresh by (simp add: apply_tx_def sample_rewritten_read sample_apply_ack_def)
  then show ?thesis
    by (simp add: apply_proposal_def after_desk_checks_def sample_apply_checks sample_reviewed_access desk_tx_def in_tx_def,
      simp add: sample_applied_def sample_reviewed_def)
qed

text \<open>The whole review, as turns of the actor.\<close>

lemma sample_ids_valid:
  "ids_valid sample_book no_reviews" "ids_valid sample_book sample_retained" "ids_valid (store sample_reviewed) sample_prepared"
  "ids_valid sample_rewritten sample_applied_reviews"
  by (simp_all add: ids_valid_def no_reviews_def sample_retained_def sample_prepared_def sample_applied_reviews_def
      sample_book_def sample_rewritten_def sample_db_def sample_chapter_def sample_origin_def sample_suggestion_def
      sample_version_def sample_decision_def)

lemma sample_review_turns:
  "(desk_step sample_desk V)\<^sup>*\<^sup>* (sample_author, sample_runs, no_reviews) (sample_applied, sample_runs, sample_applied_reviews)"
proof -
  have ns: "valid_id (info_operation_namespace (info sample_author))" "valid_id (info_operation_namespace (info sample_reviewed))"
    by (simp_all add: sample_author_def sample_reviewed_def sample_info_def)
  have f: "fence_uncertain (Inr x) P = P" for x :: "'a" and P by (simp add: fence_uncertain_def)
  have "desk_step sample_desk V (sample_author, sample_runs, no_reviews) (sample_author, sample_runs, sample_retained)"
    using sample_retains sample_ids_valid(2) sample_source_recorded
    by (intro retention [where r = sample_completed]) (simp_all add: sample_runs_row)
  moreover have "desk_step sample_desk V (sample_author, sample_runs, sample_retained) (sample_reviewed, sample_runs, sample_prepared)"
    using sample_prepares sample_ids_valid(3) ns f
    by (intro suggestion_turn [where c = "PPrepare sample_prepare" and t = "sample_turn Committed"]) (auto simp: respond_def)
  moreover have "desk_step sample_desk V (sample_reviewed, sample_runs, sample_prepared) (sample_applied, sample_runs, sample_applied_reviews)"
    using sample_applies sample_ids_valid(4) ns f
    by (intro suggestion_turn [where c = "PApply sample_apply" and t = "sample_turn Committed" and F = sample_apply_ids]) (auto simp: respond_def)
  ultimately show ?thesis by (meson converse_rtranclp_into_rtranclp r_into_rtranclp)
qed

lemma sample_reviewed_ok: "db_ok sample_env (store sample_reviewed)"
  by (simp add: same_desk_db [OF sample_book_ok])

section \<open>A structured replacement of the whole chapter\<close>

definition sample_rewrite :: "block list" where
  "sample_rewrite = [Paragraph (u ''p3'') [Run (u ''New'') []]]"

definition sample_blocks :: "typed_block list" where
  "sample_blocks = [TypedParagraph [TypedText (u ''New'') []]]"

definition structured_request :: scope_request where
  "structured_request = \<lparr>source_snapshot = document_value sample_source, result_snapshot = document_value sample_rewrite,
     scope = grant_of (capture_scope sample_env (document_value sample_source) whole_grant)\<rparr>"

lemma sample_rewrite_ok: "document_ok sample_env sample_rewrite"
  by (simp add: document_ok_def sample_rewrite_def MAX_BLOCKS_def document_units_def block_units_def
      MAX_UTF16_UNITS_def sample_ids unmergeable_def marks_ok_def)
    (simp add: u_def len_utf16_def)

lemma sample_rewrite_snapshot: "canonical_snapshot sample_env (document_value sample_rewrite) = Inr (receipt_of sample_env sample_rewrite)"
  by (rule sample_canonical [OF sample_rewrite_ok]) (simp add: sample_rewrite_def document_value_def content_entry_def)

lemma sample_rewrite_layout: "token_document (document_value sample_rewrite) = Inr (layout sample_rewrite)"
  using sample_rewrite_ok by (rule token_document_value)

lemma whole_range:
  assumes "grant_kind g = WholeDocument" "grant_start g = None" "grant_end g = None"
  shows "scope_range sample_env (layout sample_source) g
    = Inr \<lparr>range_start = 0, range_end = length (document_toks sample_source), first_block = 0, last_block = 1, selected_ids = 2\<rparr>"
  by (simp add: scope_range_def assms layout_def sample_source_def)

abbreviation "whole_selection \<equiv> \<lparr>range_start = 0, range_end = length (document_toks sample_source), first_block = 0, last_block = 1,
  selected_ids = 2\<rparr>"

lemma whole_scope:
  "scope structured_request = whole_grant\<lparr>source_hash := hash (receipt_of sample_env sample_source),
     quote := plain_text (selected (layout sample_source) whole_selection),
     quote_hash := structured_hash sample_env (selected (layout sample_source) whole_selection),
     prefix := Some (context_prefix (layout sample_source) 0 0),
     suffix := Some (context_suffix (layout sample_source) 1 (length (document_toks sample_source)))\<rparr>"
proof -
  have "scope_range sample_env (layout sample_source) whole_grant = Inr whole_selection"
    by (rule whole_range) (simp_all add: whole_grant_def)
  then show ?thesis
    by (simp add: structured_request_def grant_of_def capture_scope_def sample_snapshots sample_layouts del: One_nat_def)
      (simp add: whole_grant_def)
qed

lemma structured_request_sel [simp]:
  "source_snapshot structured_request = document_value sample_source" "result_snapshot structured_request = document_value sample_rewrite"
  "grant_kind (scope structured_request) = WholeDocument" "grant_start (scope structured_request) = None"
  "grant_end (scope structured_request) = None"
  by (simp_all add: structured_request_def [THEN arg_cong [of _ _ source_snapshot]] structured_request_def [THEN arg_cong [of _ _ result_snapshot]])
    (simp_all add: whole_scope whole_grant_def)

lemma whole_validated: "is_ok (validate_scope sample_env structured_request)"
proof -
  have range: "scope_range sample_env (layout sample_source) (scope structured_request) = Inr whole_selection"
    by (rule whole_range) simp_all
  have grant: "check_scope_grant sample_env (receipt_of sample_env sample_source) (layout sample_source) whole_selection (scope structured_request) = Inr ()"
    by (simp add: whole_scope del: One_nat_def)
  have repl: "replacement_tokens (layout sample_source) (layout sample_rewrite) whole_selection = Inr (document_toks sample_rewrite)"
    by (simp add: replacement_tokens_def layout_def slice_def)
  have policy: "validate_ids_and_merge_policy (layout sample_source) (layout sample_rewrite) (document_toks sample_rewrite)
      whole_selection WholeDocument = Inr ()"
    by (simp add: validate_ids_and_merge_policy_def List.map_filter_def layout_def sample_source_def sample_rewrite_def
        selected_spans_def slice_def document_toks_def block_toks_def block_inner_def u_def)
  have small: "length (document_toks sample_source) < 2 ^ 32" "length (document_toks sample_rewrite) < 2 ^ 32"
    using document_toks_u32 sample_docs_ok sample_rewrite_ok by blast+
  show ?thesis
    using range grant repl policy small sample_layouts
    by (simp add: validate_scope_def validate_scope_impl_def to_u32_def sample_snapshots sample_rewrite_snapshot sample_rewrite_layout
        del: check_scope_grant_ok One_nat_def)
qed

lemma structured_sample_accepted: "is_ok (validate_structured_replacement sample_env structured_request sample_blocks)"
proof -
  have blocks: "validate_typed_replacement_blocks sample_env sample_blocks = Inr ()"
    by (simp add: validate_typed_replacement_blocks_def sample_blocks_def typed_block_step_def typed_inline_step_def contains_any_def
        MAX_STRUCTURED_BLOCKS_def MAX_STRUCTURED_UTF16_UNITS_def)
      (simp add: u_def len_utf16_def)
  have receipts: "typed_snapshot_receipt sample_env (document_value sample_source) = Inr (receipt_of sample_env sample_source)"
    "typed_snapshot_receipt sample_env (document_value sample_rewrite) = Inr (receipt_of sample_env sample_rewrite)"
    using sample_snapshots sample_rewrite_snapshot by (simp_all add: typed_snapshot_receipt_def document_canonical)
  have w: "wrapped_snapshot [typed_block_value (TypedParagraph [TypedText (u ''New'') []]) (u ''p3'')] = document_value sample_rewrite"
    by code_simp
  have step: "inserted_step sample_env ids [] (TypedParagraph [TypedText (u ''New'') []], block_value (hd sample_rewrite)) = Inr [u ''p3'']"
    if "u ''p3'' \<notin> set ids" for ids
    using that receipts(2) by (simp add: inserted_step_def w, simp add: sample_rewrite_def w [unfolded sample_rewrite_def])
  have "u ''p3'' \<notin> set (map block_id sample_source)" by (simp add: sample_source_def u_def)
  then have fold: "try_fold (inserted_step sample_env (map block_id sample_source)) []
      (zip sample_blocks (map block_value sample_rewrite)) = Inr [u ''p3'']"
    using step by (simp add: sample_blocks_def sample_rewrite_def)
  have n: "length sample_source = 2" "length sample_rewrite = 1" "length sample_blocks = 1" "sample_source \<noteq> []"
    by (simp_all add: sample_source_def sample_rewrite_def sample_blocks_def)
  obtain rec where rec: "validate_scope sample_env structured_request = Inr rec"
    using whole_validated by (auto simp: is_ok_iff)
  show ?thesis
    using blocks receipts fold rec n
    by (simp add: validate_structured_replacement_def Let_def selected_range_def slice_def)
qed

end
