(* ===== verification/Proposal_Properties.thy ===== *)
theory Proposal_Properties
  imports Proposal_Samples Actor_Properties
begin

text \<open>
  What suggestions promise the author: the manuscript changes only by an explicit apply, exactly
  within the granted scope and with both bodies kept; an acknowledged apply can be repeated; a
  decided or stale suggestion is refused; and the stored history always passes its own check.
\<close>

section \<open>The stored history\<close>

text \<open>
  C17: whatever the author and the runs do after a project has its first suggestion, the check that
  every open, backup and transfer runs over the retained suggestions, prepared versions, decisions
  and receipts succeeds.
\<close>

theorem proposal_storage_valid:
  assumes "codec_ok (desk_env V)" "digest_ok (desk_env V)" "db_ok (desk_env V) (store P)" "project_rows (store P) \<noteq> None"
    and "disc_keys_ok T" "ids_valid (store P) no_reviews"
    and "list_all (\<lambda>c. c_kind c \<noteq> u ''apply'') (command_receipts (store P))"
    and "(desk_step V S)\<^sup>*\<^sup>* (P, T, no_reviews) (P', T', R')"
  shows "validate_proposal_storage V (store P', T', R') = Inr ()"
proof -
  have "host_ok V (P, T, no_reviews)"
    using fresh_desk_ok [of V "store P" T] assms(3-7) by (simp add: host_ok_def ids_valid_def list_all_iff)
  from desk_steps_ok [OF assms(8) this assms(1,2)] show ?thesis by (simp add: host_ok_def storage_valid)
qed

theorem proposal_storage_valid_witness:
  "validate_proposal_storage sample_desk (sample_rewritten, sample_runs, sample_applied_reviews) = Inr ()"
proof -
  have "project_rows sample_book \<noteq> None" "disc_keys_ok sample_runs"
    "list_all (\<lambda>c. c_kind c \<noteq> u ''apply'') (command_receipts sample_book)"
    by (simp_all add: sample_book_def sample_db_def disc_keys_ok_def sample_tables_def sample_question_def sample_thread_def)
  then show ?thesis
    using proposal_storage_valid [OF _ _ _ _ _ _ _ sample_review_turns [of "sample_services None"]]
    by (simp add: sample_codec sample_digest sample_book_ok sample_ids_valid)
qed

section \<open>Applying\<close>

lemma current_document:
  assumes "codec_ok E" "db_ok E D" "read_document E D i = Inr rec" "document_ok E bs"
    and "d \<in> set (documents D)" "row_head d = h" "document_id h = i" "d_body d = json_text E (document_value bs)"
  shows "doc_head rec = h \<and> body rec = document_value bs"
  using assms(3)
proof (rule read_document_ok)
  fix e assume e: "e \<in> set (documents D)" "d_id e = i" "reflects E e rec"
  have "e = d" using row_by_id [OF _ e(1) assms(5)] assms(2,6,7) e(2) by (auto simp: db_ok_def row_head_def)
  with e(3) assms show ?thesis
    by (auto simp: reflects_def row_head_def intro: document_text_inj [OF assms(1)])
qed

text \<open>
  C16: an apply that is acknowledged as new found the suggestion pending, its own, current and in
  the prepared version the author names; it moved the document one version on from the source to
  exactly that version, which differs from the source only by the granted change, kept both bodies
  as linked revisions, touched no other document, and recorded one decision and one receipt.
\<close>

theorem apply_commits:
  assumes "codec_ok (desk_env S)" "db_ok (desk_env S) (store P)"
    and "apply_proposal S t F q (P, T, R) = (Inr ack, P', T', R')" "\<not> aa_already ack"
  shows "\<exists>p x bs bs'. read_proposal S (store P, T, R) (ar_access q) (ar_proposal q) = Inr p \<and>
    \<not> pp_historical p \<and> pp_decision p = None \<and> pp_current p \<and> pp_prepared p = Some x \<and>
    suggestion_applied (desk_env S) F q (logical_hash (desk_env S) (apply_json q)) p x bs bs' (aa_result ack)
      (store P, T, R) (store P', T', R') \<and>
    doc_head (aa_document ack) = res_head (aa_result ack) \<and> body (aa_document ack) = document_value bs'"
proof -
  from assms(3) obtain payload where payload: "payload = logical_hash (desk_env S) (apply_json q)"
    and tx: "apply_tx S F q payload (store P, T, R) = Inr (ack, store P', T', R')"
    by (auto simp: apply_proposal_def after_desk_checks_ok desk_tx_ok apply_checks_def and_then_eq_Inr)
  from tx show ?thesis
  proof (cases rule: apply_tx_cases)
    case (fresh res)
    from fresh(4) obtain p x bs bs' X b a where
      p: "read_proposal S (store P, T, R) (ar_access q) (ar_proposal q) = Inr p" "\<not> pp_historical p"
        "pp_decision p = None" "pp_prepared p = Some x" "pp_current p" and
      app: "suggestion_applied (desk_env S) F q payload p x bs bs' res (store P, T, R) (store P', T', R')" and
      safe: "safe_change (desk_env S) (store P) (store P')"
      by (rule apply_fresh_applied [OF assms(1,2)]) blast
    from app have "document_ok (desk_env S) bs'" by (simp add: suggestion_applied_def)
    from app obtain h' b a d where h': "next_head (ar_expected q) (pn_hash x) h'" "res = applied_result F q h' p x b a"
      "d \<in> set (documents (store P'))" "row_head d = h'" "d_body d = json_text (desk_env S) (document_value bs')"
      unfolding suggestion_applied_def prod.case by blast
    have "db_ok (desk_env S) (store P')" using safe assms(2) by (simp add: safe_change_def)
    from current_document [OF assms(1) this fresh(5) \<open>document_ok _ bs'\<close> h'(3,4) _ h'(5)] h'(1)
    have "doc_head (aa_document ack) = h'" "body (aa_document ack) = document_value bs'" by (auto simp: next_head_def)
    with p app h'(2) fresh(3) payload show ?thesis by (auto simp: applied_result_def)
  qed (use assms(4) in simp)
qed

theorem apply_commits_witness:
  "\<exists>p x bs bs'. read_proposal sample_desk (store sample_reviewed, sample_runs, sample_prepared)
      (sample_access ''s1'' ''l1'') (u ''s0'') = Inr p \<and>
    \<not> pp_historical p \<and> pp_decision p = None \<and> pp_current p \<and> pp_prepared p = Some x \<and>
    suggestion_applied sample_env sample_apply_ids sample_apply (logical_hash sample_env (apply_json sample_apply)) p x bs bs'
      sample_apply_result (store sample_reviewed, sample_runs, sample_prepared) (sample_rewritten, sample_runs, sample_applied_reviews) \<and>
    doc_head sample_rewritten_document = res_head sample_apply_result \<and> body sample_rewritten_document = document_value bs'"
proof -
  have "codec_ok (desk_env sample_desk)" "db_ok (desk_env sample_desk) (store sample_reviewed)" "\<not> aa_already (sample_apply_ack False)"
    by (simp_all only: sample_desk_sel sample_codec sample_reviewed_ok) (simp add: sample_apply_ack_def)
  from apply_commits [OF this(1,2) sample_applies this(3)] show ?thesis by (simp add: sample_apply_ack_def)
qed

lemma apply_request_lease:
  assumes "project_id a = project_id (ar_access q)" "operation_namespace a = operation_namespace (ar_access q)"
  shows "logical_hash E (apply_json (q\<lparr>ar_access := a\<rparr>)) = logical_hash E (apply_json q)"
  using assms by (simp add: logical_hash_def strip_lease_def apply_json_def access_json_def obj_remove_def)

lemma apply_took_effect:
  assumes "codec_ok (desk_env S)" "db_ok (desk_env S) (store P)"
    and "apply_proposal S t F q (P, T, R) = (r, P1, T1, R1)" "store P1 \<noteq> store P"
  obtains res payload D0 where "apply_checks (desk_env S) P q = Inr payload"
    "existing_receipt (desk_env S) (store P) (operation_namespace (ar_access q)) (ar_operation q) (u ''apply'') payload = Inr None"
    "insert_receipt (desk_env S) D0 (operation_namespace (ar_access q)) (ar_operation q) (u ''apply'') payload res = Inr (store P1)"
    "safe_change (desk_env S) (store P) (store P1)" "\<And>ack. r = Inr ack \<Longrightarrow> aa_result ack = res"
    "info P1 = info P"
proof -
  from assms(3,4) obtain payload where c: "apply_checks (desk_env S) P q = Inr payload"
    and run: "desk_tx t (apply_tx S F q payload) (P, T, R) = (r, P1, T1, R1)"
    by (auto simp: apply_proposal_def elim!: after_desk_checks_cases)
  from run assms(4) obtain ack where tx: "apply_tx S F q payload (store P, T, R) = Inr (ack, store P1, T1, R1)"
    and P1: "info P1 = info P" by (auto elim!: desk_tx_cases)
  have ans: "ack' = ack" if "r = Inr ack'" for ack' using run that tx by (auto simp: desk_tx_ok)
  from tx show ?thesis
  proof (cases rule: apply_tx_cases)
    case (fresh res)
    from apply_fresh_applied [OF assms(1,2) fresh(4)]
    have safe: "safe_change (desk_env S) (store P) (store P1)" by blast
    from fresh(4) obtain D4 where ins: "insert_receipt (desk_env S) D4 (operation_namespace (ar_access q)) (ar_operation q)
        (u ''apply'') payload res = Inr (store P1)" by (rule apply_fresh_cases) blast
    show ?thesis by (rule that [OF c fresh(1) ins safe _ P1]) (use ans fresh(3) in simp)
  qed (use assms(4) in simp)
qed

text \<open>
  C20: an apply that took effect can be repeated under any later lease of the project, even when its
  acknowledgement was lost: after any further document commands it is answered with the very result
  of the first, marked as already done, and nothing is written.
\<close>

theorem apply_replays:
  assumes codec: "codec_ok (desk_env S)" and ok: "db_ok (desk_env S) (store P)"
    and first: "apply_proposal S t F q (P, T, R) = (r, P1, T1, R1)" and took_effect: "store P1 \<noteq> store P"
    and later: "runs (desk_env S) P1 cs P2" and lease: "check_access P2 a = Inr ()" and again: "connected P2" "tx t2 = Committed"
    and there: "read_document (desk_env S) (store P2) (document_id (ar_expected q)) = Inr d"
  shows "\<exists>res. apply_proposal S t2 F2 (q\<lparr>ar_access := a\<rparr>) (P2, T2, R2) =
      (Inr \<lparr>aa_access = a, aa_operation = ar_operation q, aa_already = True, aa_result = res, aa_document = d\<rparr>, P2, T2, R2) \<and>
    (\<forall>ack. r = Inr ack \<longrightarrow> aa_result ack = res)"
proof -
  from apply_took_effect [OF codec ok first took_effect] obtain res payload D0 where
    checks: "apply_checks (desk_env S) P q = Inr payload" and
    none: "existing_receipt (desk_env S) (store P) (operation_namespace (ar_access q)) (ar_operation q) (u ''apply'') payload = Inr None" and
    ins: "insert_receipt (desk_env S) D0 (operation_namespace (ar_access q)) (ar_operation q) (u ''apply'') payload res = Inr (store P1)" and
    safe: "safe_change (desk_env S) (store P) (store P1)" and ans: "\<And>ack. r = Inr ack \<Longrightarrow> aa_result ack = res" and
    P1: "info P1 = info P" by (rule apply_took_effect [OF codec ok first took_effect]) blast
  have found: "existing_receipt (desk_env S) (store P2) (operation_namespace (ar_access q)) (ar_operation q) (u ''apply'') payload
      = Inr (Some res)"
  proof -
    have "tables_grow (store P1) (store P2)" using runs_grows [OF later] by (simp add: grows_def)
    moreover have "tables_grow (store P) (store P1)" using safe by (simp add: safe_change_def grows_def)
    ultimately show ?thesis using ins by (meson replayed_receipt codec none tables_grow_trans)
  qed
  have "same_identity P1 P2" using runs_identity [OF later] .
  then have id: "same_identity P P2" using P1 by (auto simp: same_identity_def)
  from checks have acc: "check_access P (ar_access q) = Inr ()" and payload: "payload = logical_hash (desk_env S) (apply_json q)"
    and rest: "valid_id (ar_operation q)" "valid_id (ar_proposal q)" "valid_id (ar_prepared q)"
      "\<exists>g. parse_version (ar_generation q) = Inr g"
    by (auto simp: apply_checks_def and_then_eq_Inr)
  have same: "project_id a = project_id (ar_access q)" "operation_namespace a = operation_namespace (ar_access q)"
    using acc lease id by (auto simp: check_access_def same_identity_def split: if_splits)
  have c2: "apply_checks (desk_env S) P2 (q\<lparr>ar_access := a\<rparr>) = Inr payload"
    using lease rest by (auto simp: apply_checks_def check_id_valid payload apply_request_lease [OF same])
  have "apply_tx S F2 (q\<lparr>ar_access := a\<rparr>) payload (store P2, T2, R2) =
      Inr (\<lparr>aa_access = a, aa_operation = ar_operation q, aa_already = True, aa_result = res, aa_document = d\<rparr>, store P2, T2, R2)"
    using found same there by (simp add: apply_tx_def)
  then have "apply_proposal S t2 F2 (q\<lparr>ar_access := a\<rparr>) (P2, T2, R2) =
      (Inr \<lparr>aa_access = a, aa_operation = ar_operation q, aa_already = True, aa_result = res, aa_document = d\<rparr>, P2, T2, R2)"
    using again by (simp add: apply_proposal_def after_desk_checks_def c2 desk_tx_def in_tx_def)
  with ans show ?thesis by blast
qed

theorem apply_replays_witness:
  "apply_proposal sample_desk (sample_turn Committed) sample_apply_ids sample_apply (sample_applied, sample_runs, sample_applied_reviews) =
    (Inr (sample_apply_ack True), sample_applied, sample_runs, sample_applied_reviews)"
proof -
  have "store sample_applied \<noteq> store sample_reviewed" by (simp add: sample_rewritten_def sample_book_def sample_db_def sample_project_def)
  moreover have e: "sample_apply\<lparr>ar_access := sample_access ''s1'' ''l1''\<rparr> = sample_apply" by (simp add: sample_apply_def)
  moreover have "codec_ok (desk_env sample_desk)" "db_ok (desk_env sample_desk) (store sample_reviewed)"
    by (simp_all only: sample_desk_sel sample_codec sample_reviewed_ok)
  moreover have "read_document (desk_env sample_desk) (store sample_applied) (document_id (ar_expected sample_apply)) = Inr sample_rewritten_document"
    by (simp add: sample_rewritten_read)
  ultimately show ?thesis
    using apply_replays [OF _ _ sample_applies _ runs_none sample_reviewed_access(2), unfolded e, of "sample_turn Committed"
        sample_rewritten_document sample_apply_ids sample_runs sample_applied_reviews]
    by (auto simp add: sample_apply_ack_def simp del: sample_reviewed_sel(4))
qed

section \<open>Structured replacements\<close>

text \<open>
  C19: an accepted structured replacement is exact: the result is the source with the granted blocks,
  a run of consecutive blocks that starts and ends where the grant says or the whole document,
  replaced by one block for each block of the candidate, with its type, level, text, breaks and
  formatting and under an identifier no block of the source has; every other block stays as it was.
\<close>

theorem structured_replacement_exact:
  assumes "codec_ok E" "validate_structured_replacement E req blocks = Inr rec"
  shows "\<exists>bs bs'. document_ok E bs \<and> document_ok E bs' \<and>
    canonical_snapshot E (source_snapshot req) = Inr (receipt_of E bs) \<and>
    canonical_snapshot E (result_snapshot req) = Inr (receipt_of E bs') \<and> replaced (scope req) blocks bs bs'"
  using assms
proof (rule structured_accepted)
  fix bs bs'
  assume "document_ok E bs" "document_ok E bs'" "typed_snapshot_receipt E (source_snapshot req) = Inr (receipt_of E bs)"
    "typed_snapshot_receipt E (result_snapshot req) = Inr (receipt_of E bs')" "replaced (scope req) blocks bs bs'"
  moreover from this have "canonical_snapshot E (source_snapshot req) = Inr (receipt_of E bs)"
    "canonical_snapshot E (result_snapshot req) = Inr (receipt_of E bs')"
    by (simp_all add: typed_receipt_canonical [OF assms(1)])
  ultimately show ?thesis by blast
qed

theorem structured_replacement_exact_witness:
  "\<exists>bs bs'. document_ok sample_env bs \<and> document_ok sample_env bs' \<and>
    canonical_snapshot sample_env (document_value sample_source) = Inr (receipt_of sample_env bs) \<and>
    canonical_snapshot sample_env (document_value sample_rewrite) = Inr (receipt_of sample_env bs') \<and>
    replaced (scope structured_request) sample_blocks bs bs'"
proof -
  obtain rec where "validate_structured_replacement sample_env structured_request sample_blocks = Inr rec"
    using structured_sample_accepted by (auto simp: is_ok_iff)
  from structured_replacement_exact [OF sample_codec this] show ?thesis by simp
qed

section \<open>What blocks an apply\<close>

lemma apply_tx_refused:
  assumes "find_receipt D (operation_namespace (ar_access q), ar_operation q) = None"
    and "\<And>res W'. apply_fresh S F q payload (D, T, R) \<noteq> Inr (res, W')"
  shows "\<exists>e. apply_tx S F q payload (D, T, R) = Inl e"
proof (cases "apply_tx S F q payload (D, T, R)")
  case (Inr z)
  obtain ack D' T' R' where "z = (ack, D', T', R')" by (metis prod_cases4)
  with Inr have "apply_tx S F q payload (D, T, R) = Inr (ack, D', T', R')" by simp
  then show ?thesis
    by (cases rule: apply_tx_cases) (use assms in \<open>auto simp: existing_receipt_def split: if_splits\<close>)
qed simp

lemma desk_tx_refused: "f (store P, T, R) = Inl e \<Longrightarrow> \<exists>e'. desk_tx t f (P, T, R) = (Inl e', P, T, R)"
  by (cases "connected P \<and> tx t \<noteq> BeginFailed") (auto simp: desk_tx_err)

lemma current_epoch:
  assumes "read_proposal S (D, T, R) a i = Inr p" "pp_current p" "project_rows D = Some row"
  obtains b r fz where "read_base S (D, T, R) i = Inr (b, r, fz)" "sn_source_epoch (fz_snapshot fz) = show_int (p_epoch row)"
  using assms(1)
proof (rule read_proposal_cases)
  fix b r fz current latest decision
  assume *: "read_base S (D, T, R) i = Inr (b, r, fz)" "is_current S D T fz (pp_source b) (historical_for a r) = Inr current"
    "p = b\<lparr>pp_current := current, pp_historical := historical_for a r, pp_prepared := latest, pp_decision := decision\<rparr>"
  with assms(2,3) have "sn_source_epoch (fz_snapshot fz) = show_int (p_epoch row)"
    by (auto simp: is_current_def split: if_splits)
  with *(1) show ?thesis by (rule that)
qed

text \<open>
  C18: a suggestion that was current is blocked as soon as any source of its project has changed: after
  document commands that moved the source epoch, an apply of it that is not the repetition of an
  earlier one is refused and nothing is written.
\<close>

theorem changed_sources_block_apply:
  assumes rp: "read_proposal S (store P, T, R) a (ar_proposal q) = Inr p" "pp_current p"
    and later: "runs (desk_env S) P cs P2"
    and epochs: "project_rows (store P) = Some row" "0 \<le> p_epoch row" "project_rows (store P2) = Some row2" "p_epoch row2 \<noteq> p_epoch row"
    and fresh_op: "find_receipt (store P2) (operation_namespace (ar_access q), ar_operation q) = None"
  shows "\<exists>e. apply_proposal S t F q (P2, T, R) = (Inl e, P2, T, R)"
proof -
  from current_epoch [OF rp epochs(1)] obtain b r fz where base: "read_base S (store P, T, R) (ar_proposal q) = Inr (b, r, fz)"
    and e: "sn_source_epoch (fz_snapshot fz) = show_int (p_epoch row)" .
  have g: "tables_grow (store P) (store P2)" "epoch_grows (store P) (store P2)"
    using runs_grows [OF later] by (simp_all add: grows_def)
  then have "desk_le (store P, T, R) (store P2, T, R)" by (auto simp: desk_le_def tables_grow_def)
  from grown_base [OF this base] have base2: "read_base S (store P2, T, R) (ar_proposal q) = Inr (b, r, fz)" .
  have mono: "p_epoch row \<le> p_epoch row2" using g(2) epochs(1,3) by (simp add: epoch_grows_def)
  have "apply_fresh S F q payload (store P2, T, R) \<noteq> Inr (res, W')" for payload res W'
  proof
    assume "apply_fresh S F q payload (store P2, T, R) = Inr (res, W')"
    moreover obtain D' T' R' where "W' = (D', T', R')" by (metis prod_cases3)
    ultimately have "apply_fresh S F q payload (store P2, T, R) = Inr (res, D', T', R')" by simp
    then obtain p2 where "read_proposal S (store P2, T, R) (ar_access q) (ar_proposal q) = Inr p2" "pp_current p2"
      by (rule apply_fresh_cases) blast
    from current_epoch [OF this epochs(3)] base2 have "sn_source_epoch (fz_snapshot fz) = show_int (p_epoch row2)" by auto
    with e mono epochs(2,4) show False by (simp add: show_int_inj)
  qed
  from apply_tx_refused [OF fresh_op this] have "\<exists>e. apply_tx S F q payload (store P2, T, R) = Inl e" for payload .
  then show ?thesis
    using desk_tx_refused by (cases "apply_checks (desk_env S) P2 q") (fastforce simp: apply_proposal_def after_desk_checks_def)+
qed

text \<open>The book renamed between the preparation and the apply.\<close>

definition sample_renamed :: actor where
  "sample_renamed = sample_reviewed\<lparr>
     store := sample_book\<lparr>proposal_operations := [(u ''ns'', u ''op2'')],
       project_rows := Some (sample_project\<lparr>p_title := u ''Novel'', p_metadata := 1, p_epoch := 6\<rparr>)\<rparr>,
     marker := sample_info\<lparr>info_title := u ''Novel''\<rparr>, info := sample_info\<lparr>info_title := u ''Novel''\<rparr>\<rparr>"

lemma sample_renames:
  "handle sample_env (sample_turn Committed) (CRenameProject (sample_access ''s1'' ''l1'') (show_int 0) (u ''Novel'')) sample_reviewed =
    (Inr (RMetadata \<lparr>pm_project = sample_info\<lparr>info_title := u ''Novel''\<rparr>, pm_version = show_int 1\<rparr>), sample_renamed)"
proof -
  have i: "info sample_reviewed = sample_info" by (simp add: sample_reviewed_def sample_author_def)
  have t: "validate_title (u ''Novel'') = Inr ()" by code_simp
  have n: "u ''Book'' \<noteq> u ''Novel''" by (simp add: u_def)
  have k: "marker_ok (sample_turn Committed)" by (simp add: sample_turn_def)
  have m: "project_metadata sample_reviewed = Inr \<lparr>pm_project = sample_info, pm_version = show_int 0\<rparr>"
    by (simp add: project_metadata_def the_db_def metadata_of_def sample_book_def sample_db_def sample_project_def sample_info_def
        parse_stored_version_def)
  show ?thesis
    by (simp add: rename_project_def after_checks_def sample_reviewed_access sample_zero t m,
      simp add: sample_info_def n with_tx_def in_tx_def rename_project_tx_def,
      simp add: sample_book_def sample_db_def sample_project_def sample_i64 project_metadata_def the_db_def metadata_of_def
        parse_stored_version_def k sample_renamed_def fenced_def map_outcome_def fence_uncertain_def sample_info_def i)
qed

theorem changed_sources_block_apply_witness:
  "\<exists>e. apply_proposal sample_desk (sample_turn Committed) sample_apply_ids sample_apply
     (sample_renamed, sample_runs, sample_prepared) = (Inl e, sample_renamed, sample_runs, sample_prepared)"
proof -
  let ?D = "sample_book\<lparr>proposal_operations := [(u ''ns'', u ''op2'')]\<rparr>"
  have rd: "read_proposal sample_desk (store sample_reviewed, sample_runs, sample_prepared) (sample_access ''s1'' ''l1'')
      (ar_proposal sample_apply) = Inr (sample_base True (Some sample_prepared_value))"
    unfolding sample_apply_sel sample_reviewed_sel
    by (rule sample_suggestion_read [where rs = "[]"])
      (simp_all add: sample_book_def sample_db_def sample_prepared_def sample_retained_def no_reviews_def sample_prepared_read)
  obtain r where later: "runs (desk_env sample_desk) sample_reviewed
      [(CRenameProject (sample_access ''s1'' ''l1'') (show_int 0) (u ''Novel''), r)] sample_renamed"
    using step_turn [OF sample_renames] by (auto intro: runs_step runs_none)
  have rows: "project_rows (store sample_reviewed) = Some sample_project" "0 \<le> p_epoch sample_project"
    "project_rows (store sample_renamed) = Some (sample_project\<lparr>p_title := u ''Novel'', p_metadata := 1, p_epoch := 6\<rparr>)"
    "p_epoch (sample_project\<lparr>p_title := u ''Novel'', p_metadata := 1, p_epoch := 6\<rparr>) \<noteq> p_epoch sample_project"
    "find_receipt (store sample_renamed) (operation_namespace (ar_access sample_apply), ar_operation sample_apply) = None"
    by (simp_all add: sample_book_def sample_db_def sample_renamed_def sample_project_def find_receipt_def)
  show ?thesis by (rule changed_sources_block_apply [OF rd _ later rows]) simp
qed

text \<open>
  C21: a decided suggestion stays decided: preparing another version of it, applying it or rejecting
  it again under an unused operation identity is refused with \<open>SuggestionAlreadyDecided\<close> and
  nothing is written.
\<close>

theorem decided_suggestion_refused:
  assumes rp: "read_proposal S (store P, T, R) a i = Inr p" "\<not> pp_historical p" "pp_decision p \<noteq> None"
    and conn: "connected P" "tx t \<noteq> BeginFailed"
    and unused: "operation_unused (store P) (operation_namespace a, op)" "find_review R (operation_namespace a, op) = None"
    and q: "ar_access q = a" "ar_operation q = op" "ar_proposal q = i" "apply_checks (desk_env S) P q = Inr h"
    and j: "rj_access j = a" "rj_operation j = op" "rj_proposal j = i"
    and w: "pr_access w = a" "pr_operation w = op" "pr_proposal w = i" "is_ok (parse_version (pr_expected_version w))"
  shows "apply_proposal S t F q (P, T, R) = (Inl (core_err ''SuggestionAlreadyDecided''), P, T, R) \<and>
    reject_proposal S t j (P, T, R) = (Inl (core_err ''SuggestionAlreadyDecided''), P, T, R) \<and>
    prepare_proposal S t w (P, T, R) = (Inl (core_err ''SuggestionAlreadyDecided''), P, T, R)"
proof -
  have d: "require_owned_pending p = Inl (core_err ''SuggestionAlreadyDecided'')"
    using rp(2,3) by (simp add: require_owned_pending_def)
  have r: "review_receipt (store P, R) a op k h' = Inr None" for k h'
    using unused by (auto simp: review_receipt_def operation_unused_def find_receipt_None receipt_key_def)
  have ok: "check_access P a = Inr ()" "check_id op = Inr ()"
    using q by (auto simp: apply_checks_def and_then_eq_Inr)
  have "apply_tx S F q h (store P, T, R) = Inl (core_err ''SuggestionAlreadyDecided'')"
    by (simp add: apply_tx_def unused_no_receipt [OF unused(1)] q apply_fresh_def rp(1) d)
  moreover have "reject_tx S new j h' (store P, T, R) = Inl (core_err ''SuggestionAlreadyDecided'')" for new h'
    by (simp add: reject_tx_def j r rp(1) d)
  moreover have "prepare_tx S new w n h' g c s m (store P, T, R) = Inl (core_err ''SuggestionAlreadyDecided'')" for new n h' g c s m
    by (simp add: prepare_tx_def w(1-3) r rp(1) d)
  ultimately show ?thesis
    using w(4) conn
    by (auto simp: apply_proposal_def reject_proposal_def prepare_proposal_def after_desk_checks_def q(4) j w(1,2) ok
        prepare_checks_def desk_tx_err is_ok_iff)
qed

lemma sample_decided_read:
  "read_proposal sample_desk (sample_rewritten, sample_runs, sample_applied_reviews) (sample_access ''s1'' ''l1'') (u ''s0'') =
    Inr ((sample_base False (Some sample_prepared_value))\<lparr>pp_decision := Some (decision_value sample_decision)\<rparr>)"
proof -
  have rows: "revisions sample_rewritten = sample_origin # tl (revisions sample_rewritten)" "proposal_rows sample_applied_reviews = [sample_suggestion]"
    "version_rows sample_applied_reviews = [sample_version]"
    by (simp_all add: sample_rewritten_def sample_applied_reviews_def sample_prepared_def sample_retained_def)
  have c: "is_current sample_desk sample_rewritten sample_runs sample_frozen h hist = Inr False" for h hist
    by (simp add: is_current_def sample_rewritten_def sample_project_def show_int_inj)
  have d: "decided sample_applied_reviews (u ''s0'') = Inr (Some (decision_value sample_decision))"
    by (simp add: decided_def decision_of_def read_decision_def find_decision_def sample_applied_reviews_def)
      (simp add: sample_decision_def)
  show ?thesis
    by (simp add: read_proposal_eq sample_base_read [OF rows(1,2)] c sample_prepared_read [OF rows(3,2)] d historical_for_def)
      (simp add: sample_base_def)
qed

definition sample_rejection :: reject_request where
  "sample_rejection = \<lparr>rj_access = sample_access ''s1'' ''l1'', rj_operation = u ''op1'', rj_proposal = u ''s0''\<rparr>"

theorem decided_suggestion_refused_witness:
  "apply_proposal sample_desk (sample_turn Committed) sample_apply_ids (sample_apply\<lparr>ar_operation := u ''op1''\<rparr>)
      (sample_applied, sample_runs, sample_applied_reviews) =
    (Inl (core_err ''SuggestionAlreadyDecided''), sample_applied, sample_runs, sample_applied_reviews) \<and>
   reject_proposal sample_desk (sample_turn Committed) sample_rejection (sample_applied, sample_runs, sample_applied_reviews) =
    (Inl (core_err ''SuggestionAlreadyDecided''), sample_applied, sample_runs, sample_applied_reviews) \<and>
   prepare_proposal sample_desk (sample_turn Committed) (sample_prepare\<lparr>pr_operation := u ''op1''\<rparr>)
      (sample_applied, sample_runs, sample_applied_reviews) =
    (Inl (core_err ''SuggestionAlreadyDecided''), sample_applied, sample_runs, sample_applied_reviews)"
proof -
  let ?q = "sample_apply\<lparr>ar_operation := u ''op1''\<rparr>"
  have rd: "read_proposal sample_desk (store sample_applied, sample_runs, sample_applied_reviews) (sample_access ''s1'' ''l1'') (u ''s0'') =
    Inr ((sample_base False (Some sample_prepared_value))\<lparr>pp_decision := Some (decision_value sample_decision)\<rparr>)"
    using sample_decided_read by simp
  have unused: "operation_unused (store sample_applied) (operation_namespace (sample_access ''s1'' ''l1''), u ''op1'')"
    "find_review sample_applied_reviews (operation_namespace (sample_access ''s1'' ''l1''), u ''op1'') = None"
    by (simp_all add: operation_unused_def sample_rewritten_def sample_book_def sample_db_def receipt_key_def u_def
        find_review_def sample_applied_reviews_def sample_prepared_def sample_review_def)
  have q: "apply_checks (desk_env sample_desk) sample_applied ?q = Inr (logical_hash sample_env (apply_json ?q))"
    by (simp add: apply_checks_def sample_reviewed_access check_id_valid sample_valid_ids sample_shown)
  show ?thesis
    by (rule decided_suggestion_refused [OF rd _ _ _ _ unused _ _ _ q])
      (simp_all add: q sample_rejection_def sample_prepare_def sample_zero is_ok_iff sample_base_def)
qed

section \<open>The manuscript during a review\<close>

definition manuscript_kept :: "desk \<Rightarrow> desk \<Rightarrow> bool" where
  "manuscript_kept W W' \<longleftrightarrow>
    (case (W, W') of ((D, T, R), (D', T', R')) \<Rightarrow>
      project_rows D' = project_rows D \<and> documents D' = documents D \<and> revisions D' = revisions D \<and>
      command_receipts D' = command_receipts D \<and> T' = T \<and> proposal_rows R' = proposal_rows R \<and>
      (\<exists>vs. version_rows R' = version_rows R @ vs) \<and> (\<exists>ds. decision_rows R' = decision_rows R @ ds) \<and>
      (\<exists>cs. review_rows R' = review_rows R @ cs))"

lemma manuscript_kept_refl [simp]: "manuscript_kept W W"
  by (auto simp: manuscript_kept_def split: prod.split)

lemma prepare_keeps:
  "prepare_tx S new q n h g c s m (D, T, R) = Inr (x, D', T', R') \<Longrightarrow> manuscript_kept (D, T, R) (D', T', R')"
  by (erule prepare_tx_cases) (auto simp: insert_version_ok insert_review_ok manuscript_kept_def)

lemma reject_keeps:
  "reject_tx S new q h (D, T, R) = Inr (x, D', T', R') \<Longrightarrow> manuscript_kept (D, T, R) (D', T', R')"
  by (erule reject_tx_cases) (auto simp: insert_decision_ok insert_review_ok manuscript_kept_def)

lemma desk_tx_keeps:
  assumes "after_desk_checks k (\<lambda>z. desk_tx t (f z) (P, T, R)) (P, T, R) = (r, P', T', R')"
    and "\<And>z x D' T' R'. f z (store P, T, R) = Inr (x, D', T', R') \<Longrightarrow> manuscript_kept (store P, T, R) (D', T', R')"
  shows "manuscript_kept (store P, T, R) (store P', T', R')"
  using assms(1)
proof (rule after_desk_checks_cases)
  fix z assume "desk_tx t (f z) (P, T, R) = (r, P', T', R')"
  then show ?thesis by (rule desk_tx_cases) (use assms(2) in auto)
qed simp

text \<open>
  Only an apply touches the manuscript: every other command over suggestions, accepted or
  refused, leaves the project row, the documents, revisions and receipts of documents and all runs as
  they were, and keeps every suggestion, version, decision and receipt of the review.
\<close>

theorem review_keeps_manuscript:
  assumes "handle_proposal S t F c (P, T, R) = (r, P', T', R')" "\<not> (\<exists>q. c = PApply q)"
  shows "manuscript_kept (store P, T, R) (store P', T', R')"
proof (cases c)
  case (PPrepare q)
  with assms(1) obtain r0 P0 where "prepare_proposal S t q (P, T, R) = (r0, P0, T', R')" "store P' = store P0"
    by (auto dest: respondD)
  then show ?thesis
    by (auto simp: prepare_proposal_def case_prod_unfold intro: prepare_keeps elim!: desk_tx_keeps)
next
  case (PPrepareContinuation q)
  with assms(1) obtain r0 P0 where "prepare_continuation S t q (P, T, R) = (r0, P0, T', R')" "store P' = store P0"
    by (auto dest: respondD)
  then show ?thesis
    by (auto simp: prepare_continuation_def case_prod_unfold intro: prepare_keeps elim!: desk_tx_keeps)
next
  case (PPrepareStructured q)
  with assms(1) obtain r0 P0 where "prepare_structured S t q (P, T, R) = (r0, P0, T', R')" "store P' = store P0"
    by (auto dest: respondD)
  then show ?thesis
    by (auto simp: prepare_structured_def case_prod_unfold intro: prepare_keeps elim!: desk_tx_keeps)
next
  case (PReject q)
  with assms(1) obtain r0 P0 where "reject_proposal S t q (P, T, R) = (r0, P0, T', R')" "store P' = store P0"
    by (auto dest: respondD)
  then show ?thesis
    by (auto simp: reject_proposal_def intro: reject_keeps elim!: desk_tx_keeps)
qed (use assms in \<open>auto dest!: respondD\<close>)

theorem review_keeps_manuscript_witness:
  "manuscript_kept (store sample_author, sample_runs, sample_retained) (store sample_reviewed, sample_runs, sample_prepared)"
proof -
  have "handle_proposal sample_desk (sample_turn Committed) sample_apply_ids (PPrepare sample_prepare)
      (sample_author, sample_runs, sample_retained) = (Inr (PPrepared sample_prepared_value), sample_reviewed, sample_runs, sample_prepared)"
    using sample_prepares by (simp add: respond_def fence_uncertain_def)
  then show ?thesis by (rule review_keeps_manuscript) simp
qed

end
