(* ===== verification/Spec2Isabelle.thy ===== *)
theory Spec2Isabelle
  imports Scope_Properties Actor_Properties History_Properties Sse_Properties Workshop_Properties Eligibility_Properties Discussion_Properties Proposal_Properties
begin

text \<open>
  WebNovel Studio V3, the Rust core. The application keeps one novel per project folder: a SQLite
  database of documents, revisions and receipts, written by a single actor thread
  (\<open>OwnedProject\<close>), to which the desktop sends commands over a queue. Around it: a validator
  for the editor's documents, scope grants that say which part of a document a model may change,
  conversations with a model (discussion runs), providers that carry the requests, and the rules
  that decide which story material a request may see. This development translates these parts
  into HOL functions and proves what they promise.

  \<^bold>\<open>Conventions.\<close> A Rust \<open>Result\<close> is a sum with the error on the left, and \<open>?\<close> is \<open>and_then\<close>;
  a \<open>for\<close> loop with \<open>?\<close> is \<open>try_fold\<close>, \<open>try_each\<close> or \<open>try_map\<close>; a transaction body takes
  the tables and returns its answer with the new tables. Integers that can overflow are words or
  are checked (\<open>checked_add_i64\<close>); a string is its list of Unicode scalar values, and its byte
  and UTF-16 lengths are computed. Error values keep the code the callers inspect; English detail
  texts are dropped. A table is the list of its rows in insertion order, and the constraints and
  triggers of the schema scripts are the conditions under which an insertion fails. Third-party
  code (\<open>serde_json\<close>, SHA-256, grapheme segmentation, URL and UUID parsing, Unicode lower case)
  is a parameter (\<open>env\<close>, \<open>vendor\<close>, \<open>lower\<close>); the laws used of it are the
  named hypotheses \<open>codec_ok\<close>, \<open>digest_ok\<close> and \<open>graphemes_ok\<close>, met by the concrete instance of
  Sample_Env.

  \<^bold>\<open>Foundation\<close> (crates/kernel/src/lib.rs, crates/storage/src/lib.rs).
  \<^item> Prelude: \<open>Result\<close> combinators and the loops, their rewrite rules, shared interfaces.
  \<^item> Rust_Text: strings, UTF-8 and UTF-16 lengths, trimming, decimal numbers and their round trip.
  \<^item> Json: \<open>serde_json\<close> values and \<open>canonicalize_value\<close>.
  \<^item> Kernel, Records_Json: errors, heads, leases, receipts, the shared validators, the request hash,
    and the stored JSON of receipts with its round trip.
  \<^item> Snapshot: \<open>validate_snapshot_json\<close>. An accepted document is the rendering of a well-formed
    typed document, every such document is accepted, and validation is idempotent on its output.
  \<^item> Storage: tables, \<open>in_tx\<close>, checkpoints, row reads and receipts. Storage_Invariant and
    Storage_Proofs: the table invariant \<open>db_ok\<close> and the growth order \<open>grows\<close>.

  \<^bold>\<open>Documents\<close> (crates/documents/src).
  \<^item> Scope (scope.rs): structural tokens, capture and validation of grants, text replacement, append.
    Scope_Layout and Scope_Proofs locate the tokens of a typed document; Scope_Properties: what
    lies outside a grant is unchanged, a replacement is exact, an append keeps its source.
  \<^item> History (history.rs), Restore_Proofs, History_Properties: paging, restoring, receipts that keep
    passing their check.
  \<^item> View_State (view_state.rs): the saved caret.

  \<^bold>\<open>The actor\<close> (crates/core/src/projects.rs, projects/session.rs).
  \<^item> Project_Actor: the lease, the commands, one turn of the loop (\<open>handle\<close>); what the environment
    decides during a turn (how the transaction ends, which identifiers are drawn) is a \<open>turn\<close>.
  \<^item> Transactions, Save_Proofs, Receipt_Proofs, Actor_Proofs: each command is one \<open>change\<close> of the
    tables; Actor_Properties lifts the invariants to all runs: saves are compare-and-set and
    idempotent, nothing stored is lost, superseded sessions and uncertain outcomes block writes.

  \<^bold>\<open>Providers\<close> (crates/providers/src).
  \<^item> Adapter, Sse (openai_compatible.rs, adapter.rs): the complete answer and the streaming parser.
    Sse_Proofs gives the laws of its steps layer by layer; Sse_Properties: chunking does not matter,
    events (data over several lines, other fields and comments, LF or CRLF endings) are read in order,
    success is complete, an error keeps the text.
  \<^item> Binding (vocabulary.rs, claude_profile.rs, codex_app_server/mod.rs, http_request.rs): immutable
    bindings, delivery evidence and the request body built from them.

  \<^bold>\<open>Story and context\<close> (crates/story/src, crates/context/src).
  \<^item> Workshop_State (workshop_state.rs and vocabulary): the checks of a saved Workshop state;
    Workshop_Properties: sessions form a forest, adoptions and fixed text are kept.
  \<^item> Eligibility (eligibility.rs): which sources a request may use. Eligibility_Proofs relates the
    depth-first walk to reachability; Eligibility_Properties: disclosure, closure, reviewed prefix.

  \<^bold>\<open>Discussions\<close> (crates/conversation/src/discussions.rs and discussions/, discussion_lookup.rs,
  crates/context/src/lookup.rs).
  \<^item> Discussion, Discussion_Run, Discussion_Provider, Discussion_Host: the tables and every command
    from start to receipt, the app-server dispatches and the recovery sweep.
  \<^item> Lookup, Discussion_Lookup: the lookup protocol and its chain of at most three invocations, each
    claimed and settled once within the byte allowance, expanded by reads, finished, failed or halted.
  \<^item> Discussion_Life is the abstract specification, the steps a run may take; Discussion_Proofs and
    Discussion_Chain show that each transaction refines it, Discussion_Steps and Discussion_Recovery lift this to runs of
    the actor; Discussion_Properties states the event log, the life cycle, replay and recovery,
    and which completed runs the receipt check of backups refuses: those of a live lookup chain, which
    has no receipt.

  \<^bold>\<open>Suggestions\<close> (crates/conversation/src/proposals.rs, crates/documents/src/structured.rs,
  crates/context/src/continuation.rs).
  \<^item> Typed_Blocks, Continuation: the typed blocks of a structured answer, their snapshot and the
    check of a structured result; the continuation contract. Typed_Proofs: what an accepted
    structured result changes.
  \<^item> Proposal, Proposal_Commands, Proposal_Storage: the review tables, retaining the candidates of
    an answer, reading them back, preparing, applying and rejecting, and the check of the stored
    history. \<open>prepare_tx\<close> is the common body of the three preparations.
  \<^item> Proposal_Proofs: one elimination rule per transaction and the outcome of an apply
    (\<open>suggestion_applied\<close>); Proposal_Life: the invariant \<open>desk_ok\<close> implies that the check of
    the stored history succeeds; Proposal_Steps: every turn of the actor that touches the store, the runs
    or the reviews (\<open>desk_step\<close>) keeps it. Proposal_Properties: an apply is exact and keeps both
    bodies, can be repeated, and is blocked by a decision or a changed source.

  Sample_Env, Sample_Project, Discussion_Samples and Proposal_Samples hold the concrete instances of the witnesses.

  \<^bold>\<open>Composition.\<close> The actor calls the snapshot validator on every save, the history functions on
  its tables, and fences itself after an uncertain outcome; the discussion commands run in the
  same actor over further tables (\<open>host\<close>), refuse a lease the actor refuses, and share the
  operation identities of its receipts. Scope grants use the validator's canonical documents. A
  completed run leaves the candidates of its answer as suggestions; preparing one checks the body
  against the grant of the run, and applying it writes the document through the same checkpoint,
  replacement and receipt operations as a save, so its invariant spans all three families of tables.

  \<^bold>\<open>Termination and bounds.\<close> No fuel is used except where the code itself counts: the walk over
  source dependencies and the parents of Workshop sessions recurse on the entries not yet
  visited, so that they end on every input, and a property states when they succeed. The loops of
  the parsers are structural on the bytes. All limits of the code (bytes, UTF-16 units, blocks,
  events, versions below \<open>2 ^ 63\<close>) are constants of the model.

  \<^bold>\<open>Not modelled.\<close> What is I/O over libraries: schema creation and migration, project folders and
  their marker, backups, imports and exports, the library database, the network client, child
  processes and JSON-RPC of the command-line providers, keyring, the Tauri layer, bindings and
  tools. Threads and channels are replaced by the order in which commands reach the actor. Of the
  program's own logic, the packet compiler and the story freeze (prompt text and SQL over many
  tables), story memory and the reviewed-authority writers, the project conversation,
  discussion retries, and Workshop generation and adoption are left out: the packet and
  the freeze enter as parameters of the discussion commands, as do the execution of a lookup read and the
  decoding of a lookup response. Creation times are not kept, so an order by time is the
  order of insertion.
\<close>

end
